(* ===== verification/Prelude.thy ===== *)
theory Prelude
  imports Complex_Main "HOL-Library.AList" "HOL-Library.Char_ord" "HOL-Library.List_Lexorder"
begin

text \<open>
  Shared vocabulary of the development: the fragment of Python's built-in types the sources use
  (strings, JSON dictionaries, \<^verbatim>\<open>str(uuid)\<close>, money, half-even rounding), table operations on lists of
  rows, and the generic list lemmas the component theories rely on.
  Characters are the ASCII part of Python's strings. Instants are integers counting microseconds
  since the Unix epoch (UTC), dates are day numbers since the epoch, durations are microseconds.
\<close>

section \<open>Named collections\<close>

named_theorems table_simps \<open>rewriting of row tables\<close>
named_theorems queue_defs \<open>definitions of the task queue operations\<close>
named_theorems hook_defs \<open>definitions of the guards and on-enter hooks of the state machine\<close>

section \<open>Types\<close>

type_synonym uuid = nat
type_synonym instant = int
type_synonym date = int
type_synonym duration = int
type_synonym money = int  \<comment> \<open>hundredths of a currency unit: \<open>Numeric(14, 2)\<close>\<close>

abbreviation usec_per_sec :: int where "usec_per_sec \<equiv> 1000000"
abbreviation usec_per_day :: int where "usec_per_day \<equiv> 86400000000"

definition seconds :: "int \<Rightarrow> duration" where "seconds n = n * usec_per_sec"
definition hours :: "int \<Rightarrow> duration" where "hours n = n * 3600 * usec_per_sec"
definition days :: "int \<Rightarrow> duration" where "days n = n * usec_per_day"

section \<open>Python strings\<close>

definition is_space :: "char \<Rightarrow> bool" where
  "is_space c = (let n = of_char c :: nat in (9 \<le> n \<and> n \<le> 13) \<or> (28 \<le> n \<and> n \<le> 32))"

definition lower_char :: "char \<Rightarrow> char" where
  "lower_char c = (let n = of_char c :: nat in if 65 \<le> n \<and> n \<le> 90 then char_of (n + 32) else c)"

definition upper_char :: "char \<Rightarrow> char" where
  "upper_char c = (let n = of_char c :: nat in if 97 \<le> n \<and> n \<le> 122 then char_of (n - 32) else c)"

definition py_lower :: "string \<Rightarrow> string" where
  "py_lower s = map lower_char s"

definition py_upper :: "string \<Rightarrow> string" where
  "py_upper s = map upper_char s"

definition py_strip :: "string \<Rightarrow> string" where
  "py_strip s = rev (dropWhile is_space (rev (dropWhile is_space s)))"

fun py_join :: "string \<Rightarrow> string list \<Rightarrow> string" where
  "py_join sep [] = []"
| "py_join sep [x] = x"
| "py_join sep (x # y # xs) = x @ sep @ py_join sep (y # xs)"

fun digits :: "nat \<Rightarrow> string" where
  "digits n = (if n < 10 then [char_of (48 + n)] else digits (n div 10) @ [char_of (48 + n mod 10)])"

declare digits.simps [simp del]

definition int_str :: "int \<Rightarrow> string" where
  "int_str i = (if i < 0 then ''-'' @ digits (nat (- i)) else digits (nat i))"

definition pad2 :: "nat \<Rightarrow> string" where
  "pad2 n = [char_of (48 + n div 10 mod 10), char_of (48 + n mod 10)]"

text \<open>\<^verbatim>\<open>str(Decimal)\<close> of a value with two fractional digits.\<close>

definition money_str :: "money \<Rightarrow> string" where
  "money_str m = (if m < 0 then ''-'' else []) @ digits (nat (\<bar>m\<bar> div 100)) @ ''.'' @ pad2 (nat (\<bar>m\<bar> mod 100))"

lemma of_char_lower_char:
  "(of_char (lower_char c) :: nat) =
     (let n = of_char c in if 65 \<le> n \<and> n \<le> 90 then n + 32 else n)"
  by (simp add: lower_char_def Let_def)

lemma lower_char_idem [simp]: "lower_char (lower_char c) = lower_char c"
  by (simp add: lower_char_def Let_def)

lemma py_lower_idem [simp]: "py_lower (py_lower s) = py_lower s"
  by (simp add: py_lower_def)

lemma py_lower_Nil [simp]: "py_lower [] = []"
  by (simp add: py_lower_def)

lemma py_lower_eq_Nil [simp]: "py_lower s = [] \<longleftrightarrow> s = []"
  by (simp add: py_lower_def)

lemma dropWhile_dropWhile_rev:
  "dropWhile P (rev (dropWhile P (rev (dropWhile P xs)))) = rev (dropWhile P (rev (dropWhile P xs)))"
proof (cases "dropWhile P xs")
  case Nil
  then show ?thesis by (simp del: dropWhile_eq_Nil_conv)
next
  case (Cons y ys)
  then have "\<not> P y" by (metis hd_dropWhile list.distinct(1) list.sel(1))
  then show ?thesis using Cons
    by (simp add: dropWhile_append)
qed

lemma py_strip_idem [simp]: "py_strip (py_strip s) = py_strip s"
  by (simp add: py_strip_def dropWhile_dropWhile_rev)

lemma is_space_lower_char [simp]: "is_space (lower_char c) = is_space c"
  by (auto simp: is_space_def of_char_lower_char Let_def)

lemma dropWhile_space_lower: "dropWhile is_space (py_lower s) = py_lower (dropWhile is_space s)"
  by (induction s) (auto simp: py_lower_def)

lemma py_strip_lower: "py_strip (py_lower s) = py_lower (py_strip s)"
proof -
  have rv: "rev (py_lower t) = py_lower (rev t)" for t
    by (simp add: py_lower_def rev_map)
  show ?thesis
    by (simp add: py_strip_def dropWhile_space_lower rv)
qed

section \<open>JSON values and Python dictionaries\<close>

text \<open>
  A JSONB column or a Python value built from one. \<open>JFloat\<close> carries the decimal value of the number's
  shortest representation. A dictionary is an association list in insertion order; \<open>AList.update\<close>
  replaces in place or appends, as assignment to a Python dictionary does.
\<close>

datatype json =
    JNull
  | JBool bool
  | JInt int
  | JFloat rat
  | JStr string
  | JArr "json list"
  | JObj "(string \<times> json) list"

type_synonym dict = "(string \<times> json) list"

definition dict_get :: "dict \<Rightarrow> string \<Rightarrow> json" where
  "dict_get d k = (case map_of d k of None \<Rightarrow> JNull | Some v \<Rightarrow> v)"

definition dict_get_default :: "dict \<Rightarrow> string \<Rightarrow> json \<Rightarrow> json" where
  "dict_get_default d k v0 = (case map_of d k of None \<Rightarrow> v0 | Some v \<Rightarrow> v)"

definition dict_set :: "dict \<Rightarrow> string \<Rightarrow> json \<Rightarrow> dict" where
  "dict_set d k v = AList.update k v d"

definition dict_merge :: "dict \<Rightarrow> dict \<Rightarrow> dict" where
  "dict_merge d e = fold (\<lambda>(k, v) acc. AList.update k v acc) e d"

text \<open>Truth value testing, and the sub-dictionary idiom \<^verbatim>\<open>d.get(k) or {}\<close>.\<close>

fun truthy :: "json \<Rightarrow> bool" where
  "truthy JNull = False"
| "truthy (JBool b) = b"
| "truthy (JInt i) = (i \<noteq> 0)"
| "truthy (JFloat q) = (q \<noteq> 0)"
| "truthy (JStr s) = (s \<noteq> [])"
| "truthy (JArr xs) = (xs \<noteq> [])"
| "truthy (JObj d) = (d \<noteq> [])"

fun as_dict :: "json \<Rightarrow> dict" where
  "as_dict (JObj d) = d"
| "as_dict _ = []"

fun as_str :: "json \<Rightarrow> string option" where
  "as_str (JStr s) = Some s"
| "as_str _ = None"

definition opt_json :: "('a \<Rightarrow> json) \<Rightarrow> 'a option \<Rightarrow> json" where
  "opt_json f x = (case x of None \<Rightarrow> JNull | Some a \<Rightarrow> f a)"

lemma dict_get_set [simp]:
  "dict_get (dict_set d k v) k' = (if k = k' then v else dict_get d k')"
  by (simp add: dict_get_def dict_set_def update_conv')

lemma map_of_dict_set: "map_of (dict_set d k v) = (map_of d)(k \<mapsto> v)"
  by (simp add: dict_set_def update_conv')

lemma map_of_dict_merge:
  "distinct (map fst e) \<Longrightarrow> map_of (dict_merge d e) = map_of d ++ map_of e"
proof (induction e arbitrary: d)
  case Nil
  then show ?case by (simp add: dict_merge_def)
next
  case (Cons p e)
  obtain k v where p: "p = (k, v)" by force
  have "map_of (dict_merge d (p # e)) = map_of (dict_merge (AList.update k v d) e)"
    by (simp add: dict_merge_def p)
  also have "\<dots> = (map_of d)(k \<mapsto> v) ++ map_of e"
    using Cons by (simp add: update_conv')
  also have "\<dots> = map_of d ++ map_of (p # e)"
    using Cons.prems p by (auto simp: map_add_upd_left dom_map_of_conv_image_fst)
  finally show ?case .
qed

section \<open>Row tables\<close>

text \<open>
  A table is the list of its rows in insertion order. \<open>find_row\<close> is a lookup by predicate (the rows
  of a \<^verbatim>\<open>SELECT\<close> without an \<^verbatim>\<open>ORDER BY\<close> come in table order), \<open>update_where\<close> is an SQL
  \<^verbatim>\<open>UPDATE ... WHERE\<close>.
\<close>

definition find_row :: "('r \<Rightarrow> bool) \<Rightarrow> 'r list \<Rightarrow> 'r option" where
  "find_row P rows = List.find P rows"

definition update_where :: "('r \<Rightarrow> bool) \<Rightarrow> ('r \<Rightarrow> 'r) \<Rightarrow> 'r list \<Rightarrow> 'r list" where
  "update_where P f rows = map (\<lambda>r. if P r then f r else r) rows"

text \<open>\<^verbatim>\<open>scalar_one_or_none\<close>: \<open>None\<close> stands for the exception \<^verbatim>\<open>MultipleResultsFound\<close>.\<close>

fun scalar_one_or_none :: "'r list \<Rightarrow> 'r option option" where
  "scalar_one_or_none [] = Some None"
| "scalar_one_or_none [r] = Some (Some r)"
| "scalar_one_or_none (_ # _ # _) = None"

lemma find_row_Some: "find_row P rows = Some r \<Longrightarrow> r \<in> set rows \<and> P r"
  by (auto simp: find_row_def find_Some_iff)

lemma find_row_None [simp]: "find_row P rows = None \<longleftrightarrow> (\<forall>r\<in>set rows. \<not> P r)"
  by (auto simp: find_row_def find_None_iff)

lemma length_update_where [simp, table_simps]: "length (update_where P f rows) = length rows"
  by (simp add: update_where_def)

lemma update_where_Nil [simp]: "update_where P f [] = []"
  by (simp add: update_where_def)

lemma update_where_Cons [simp]:
  "update_where P f (r # rows) = (if P r then f r else r) # update_where P f rows"
  by (simp add: update_where_def)

lemma set_update_where:
  "set (update_where P f rows) = (\<lambda>r. if P r then f r else r) ` set rows"
  by (simp add: update_where_def)

lemma in_update_whereE:
  assumes "r \<in> set (update_where P f rows)"
  obtains (hit) r0 where "r0 \<in> set rows" "P r0" "r = f r0"
    | (miss) "r \<in> set rows" "\<not> P r"
  using assms by (auto simp: set_update_where split: if_splits)

lemma map_update_where:
  assumes "\<And>r. P r \<Longrightarrow> g (f r) = g r"
  shows "map g (update_where P f rows) = map g rows"
  using assms by (simp add: update_where_def)

lemma filter_update_where_out:
  assumes "\<And>r. P r \<Longrightarrow> Q (f r) = Q r" "\<And>r. P r \<Longrightarrow> \<not> Q r"
  shows "filter Q (update_where P f rows) = filter Q rows"
  using assms by (induction rows) auto

lemma length_filter_update_where:
  assumes "\<And>r. Q (f r) = Q r"
  shows "length (filter Q (update_where P f rows)) = length (filter Q rows)"
  using assms by (induction rows) auto

lemma find_row_update_where:
  assumes "\<And>r. key (f r) = key r"
  shows "find_row (\<lambda>r. key r = k) (update_where P f rows) =
           map_option (\<lambda>r. if P r then f r else r) (find_row (\<lambda>r. key r = k) rows)"
  using assms by (induction rows) (auto simp: find_row_def)

lemma find_row_update_key:
  assumes "\<And>r. key (f r) = key r"
  shows "find_row (\<lambda>r. key r = k) (update_where (\<lambda>r. key r = k') f rows) =
           (if k = k' then map_option f (find_row (\<lambda>r. key r = k) rows)
            else find_row (\<lambda>r. key r = k) rows)"
  using assms by (induction rows) (auto simp: find_row_def)

lemma update_where_update_key:
  assumes "\<And>r. key (f r) = key r"
  shows "update_where (\<lambda>r. key r = k) g (update_where (\<lambda>r. key r = k) f rows) =
           update_where (\<lambda>r. key r = k) (\<lambda>r. g (f r)) rows"
  using assms by (induction rows) auto

lemma update_where_update_where:
  assumes "\<And>r. key (f r) = key r" "k \<notin> K"
  shows "update_where (\<lambda>r. key r \<in> K) f (update_where (\<lambda>r. key r = k) f rows) =
           update_where (\<lambda>r. key r \<in> insert k K) f rows"
  using assms by (induction rows) auto

lemma update_where_cong:
  "(\<And>r. r \<in> set rows \<Longrightarrow> P r = Q r) \<Longrightarrow> (\<And>r. r \<in> set rows \<Longrightarrow> Q r \<Longrightarrow> f r = g r) \<Longrightarrow>
     update_where P f rows = update_where Q g rows"
  by (induction rows) auto

lemma update_where_same_row:
  assumes "\<forall>x\<in>set rows. key x = key a \<longrightarrow> x = a" "f a = g a"
  shows "update_where (\<lambda>x. key x = key a) f rows = update_where (\<lambda>x. key x = key a) g rows"
proof (rule update_where_cong)
  fix r assume "r \<in> set rows" "key r = key a"
  with assms(1) have "r = a" by blast
  with assms(2) show "f r = g r" by simp
qed simp

lemma update_where_False [simp]: "update_where (\<lambda>r. False) f rows = rows"
  by (simp add: update_where_def)

text \<open>Updating the rows a query returned, one key at a time, updates exactly the rows of the query.\<close>

lemma key_in_filter:
  "distinct (map key rows) \<Longrightarrow> r \<in> set rows \<Longrightarrow> key r \<in> key ` set (filter P rows) \<longleftrightarrow> P r"
  by (auto simp: distinct_map inj_on_def)

lemma filter_key_one:
  "distinct (map key rows) \<Longrightarrow> r \<in> set rows \<Longrightarrow> filter (\<lambda>x. key x = key r) rows = [r]"
proof (induction rows)
  case (Cons x rows)
  have new: "key x \<notin> key ` set rows" using Cons.prems(1) by simp
  show ?case
  proof (cases "x = r")
    case True
    then have "\<forall>y\<in>set rows. key y \<noteq> key r" using new by (metis imageI)
    with True show ?thesis by (simp add: filter_empty_conv)
  next
    case False
    then have "r \<in> set rows" using Cons.prems(2) by simp
    then have "key x \<noteq> key r" using new by (metis imageI)
    with \<open>r \<in> set rows\<close> Cons show ?thesis by simp
  qed
qed simp

lemma find_row_append:
  "find_row P (xs @ ys) = (case find_row P xs of Some r \<Rightarrow> Some r | None \<Rightarrow> find_row P ys)"
  by (induction xs) (auto simp: find_row_def)

lemma find_row_distinct:
  "distinct (map key rows) \<Longrightarrow> r \<in> set rows \<Longrightarrow> find_row (\<lambda>x. key x = key r) rows = Some r"
  by (induction rows) (auto simp: find_row_def image_iff)

lemma scalar_one_or_none_cases:
  "scalar_one_or_none xs =
     (if length xs = 0 then Some None else if length xs = 1 then Some (Some (hd xs)) else None)"
  by (cases xs rule: scalar_one_or_none.cases) auto

lemma scalar_one_or_none_Some_Some:
  "scalar_one_or_none xs = Some (Some r) \<longleftrightarrow> xs = [r]"
  by (cases xs rule: scalar_one_or_none.cases) auto

lemma scalar_one_or_none_Some_None [simp]:
  "scalar_one_or_none xs = Some None \<longleftrightarrow> xs = []"
  by (cases xs rule: scalar_one_or_none.cases) auto

section \<open>UUIDs and their text\<close>

text \<open>
  A UUID is its 128-bit integer. \<^verbatim>\<open>str(u)\<close> prints 32 hexadecimal digits in groups of 8-4-4-4-12;
  the constructor \<^verbatim>\<open>UUID(s)\<close> drops \<^verbatim>\<open>urn:\<close>, \<^verbatim>\<open>uuid:\<close>, braces and hyphens, then wants exactly 32 digits.
\<close>

definition hex_char :: "nat \<Rightarrow> char" where
  "hex_char n = char_of (if n < 10 then 48 + n else 87 + n)"

definition hex_val :: "char \<Rightarrow> nat option" where
  "hex_val c = (let n = of_char c in
     if 48 \<le> n \<and> n \<le> 57 then Some (n - 48)
     else if 97 \<le> n \<and> n \<le> 102 then Some (n - 87)
     else if 65 \<le> n \<and> n \<le> 70 then Some (n - 55)
     else None)"

fun hex_fixed :: "nat \<Rightarrow> nat \<Rightarrow> string" where
  "hex_fixed 0 u = []"
| "hex_fixed (Suc k) u = hex_fixed k (u div 16) @ [hex_char (u mod 16)]"

definition uuid_str :: "uuid \<Rightarrow> string" where
  "uuid_str u = (let h = hex_fixed 32 u in
     take 8 h @ ''-'' @ take 4 (drop 8 h) @ ''-'' @ take 4 (drop 12 h) @ ''-''
       @ take 4 (drop 16 h) @ ''-'' @ drop 20 h)"

fun hex_number :: "nat \<Rightarrow> string \<Rightarrow> nat option" where
  "hex_number acc [] = Some acc"
| "hex_number acc (c # cs) =
     (case hex_val c of None \<Rightarrow> None | Some v \<Rightarrow> hex_number (16 * acc + v) cs)"

fun drop_word :: "string \<Rightarrow> string \<Rightarrow> string" where
  "drop_word w [] = []"
| "drop_word w (c # cs) =
     (if w \<noteq> [] \<and> take (length w) (c # cs) = w then drop_word w (drop (length w) (c # cs))
      else c # drop_word w cs)"

definition strip_braces :: "string \<Rightarrow> string" where
  "strip_braces s = (let b = (\<lambda>c. c = CHR ''{'' \<or> c = CHR ''}'')
     in rev (dropWhile b (rev (dropWhile b s))))"

definition uuid_of_str :: "string \<Rightarrow> uuid option" where
  "uuid_of_str s = (let h = filter (\<lambda>c. c \<noteq> CHR ''-'') (strip_braces (drop_word ''uuid:'' (drop_word ''urn:'' s)))
     in if length h = 32 then hex_number 0 h else None)"

lemma length_hex_fixed [simp]: "length (hex_fixed k u) = k"
  by (induction k arbitrary: u) auto

lemma hex_val_hex_char: "n < 16 \<Longrightarrow> hex_val (hex_char n) = Some n"
  by (simp add: hex_val_def hex_char_def Let_def)

lemma hex_number_append:
  "hex_number acc (xs @ ys) = (case hex_number acc xs of None \<Rightarrow> None | Some a \<Rightarrow> hex_number a ys)"
  by (induction xs arbitrary: acc) (auto split: option.splits)

lemma hex_number_hex_fixed: "hex_number acc (hex_fixed k u) = Some (acc * 16 ^ k + u mod 16 ^ k)"
proof (induction k arbitrary: u)
  case 0
  then show ?case by simp
next
  case (Suc k)
  have "u mod 16 ^ Suc k = 16 * (u div 16 mod 16 ^ k) + u mod 16"
    by (metis mod_mult2_eq mult.commute power_Suc add.commute)
  then show ?case
    by (simp add: Suc hex_number_append hex_val_hex_char algebra_simps)
qed

definition hex_digit :: "char \<Rightarrow> bool" where
  "hex_digit c = (let n = of_char c :: nat in (48 \<le> n \<and> n \<le> 57) \<or> (97 \<le> n \<and> n \<le> 102))"

lemma hex_digit_hex_char [simp]: "n < 16 \<Longrightarrow> hex_digit (hex_char n)"
  by (auto simp: hex_digit_def hex_char_def Let_def)

lemma hex_digits_hex_fixed: "c \<in> set (hex_fixed k u) \<Longrightarrow> hex_digit c"
  by (induction k arbitrary: u) auto

lemma drop_word_absent:
  assumes "w = c0 # w'" "c0 \<notin> set s"
  shows "drop_word w s = s"
  using assms(2) by (induction s) (auto simp: assms(1))

lemma set_uuid_str: "c \<in> set (uuid_str u) \<Longrightarrow> hex_digit c \<or> c = CHR ''-''"
  by (auto simp: uuid_str_def Let_def dest!: in_set_takeD in_set_dropD dest: hex_digits_hex_fixed)

lemma filter_uuid_str: "filter (\<lambda>c. c \<noteq> CHR ''-'') (uuid_str u) = hex_fixed 32 u"
proof -
  let ?h = "hex_fixed 32 u"
  have "\<forall>c\<in>set ?h. c \<noteq> CHR ''-''"
    using hex_digits_hex_fixed [of _ 32 u] by (fastforce simp: hex_digit_def)
  then have keep: "filter (\<lambda>c. c \<noteq> CHR ''-'') xs = xs" if "set xs \<subseteq> set ?h" for xs
    using that by (auto simp: filter_id_conv)
  have "take 8 ?h @ take 4 (drop 8 ?h) @ take 4 (drop 12 ?h) @ take 4 (drop 16 ?h) @ drop 20 ?h = ?h"
    using append_take_drop_id [of 8 ?h] append_take_drop_id [of 4 "drop 8 ?h"]
      append_take_drop_id [of 4 "drop 12 ?h"] append_take_drop_id [of 4 "drop 16 ?h"]
    by simp
  then show ?thesis
    by (simp add: uuid_str_def Let_def keep set_take_subset set_drop_subset
        subset_trans [OF set_take_subset set_drop_subset])
qed

lemma dropWhile_none: "\<forall>c\<in>set s. \<not> P c \<Longrightarrow> dropWhile P s = s"
  by (cases s) auto

lemma strip_braces_absent:
  "(\<And>c. c \<in> set s \<Longrightarrow> c \<noteq> CHR ''{'' \<and> c \<noteq> CHR ''}'') \<Longrightarrow> strip_braces s = s"
  by (simp add: strip_braces_def Let_def dropWhile_none)

lemma uuid_roundtrip: "u < 2 ^ 128 \<Longrightarrow> uuid_of_str (uuid_str u) = Some u"
proof -
  assume u: "u < 2 ^ 128"
  have chars: "CHR ''u'' \<notin> set (uuid_str u)" "\<And>c. c \<in> set (uuid_str u) \<Longrightarrow> c \<noteq> CHR ''{'' \<and> c \<noteq> CHR ''}''"
    using set_uuid_str [of _ u] by (fastforce simp: hex_digit_def)+
  have "drop_word ''uuid:'' (drop_word ''urn:'' (uuid_str u)) = uuid_str u"
    using chars(1) by (simp add: drop_word_absent)
  then have "uuid_of_str (uuid_str u) = hex_number 0 (hex_fixed 32 u)"
    by (simp add: uuid_of_str_def filter_uuid_str strip_braces_absent [OF chars(2)])
  also have "\<dots> = Some (u mod 16 ^ 32)"
    by (simp add: hex_number_hex_fixed)
  finally show ?thesis using u by simp
qed

section \<open>Dates and instants as text\<close>

text \<open>\<^verbatim>\<open>isoformat()\<close> of a date and of an aware UTC datetime (proleptic Gregorian calendar).\<close>

definition civil_of_days :: "date \<Rightarrow> int \<times> int \<times> int" where
  "civil_of_days z =
     (let z' = z + 719468;
          era = z' div 146097;
          doe = z' mod 146097;
          yoe = (doe - doe div 1460 + doe div 36524 - doe div 146096) div 365;
          doy = doe - (365 * yoe + yoe div 4 - yoe div 100);
          mp = (5 * doy + 2) div 153;
          d = doy - (153 * mp + 2) div 5 + 1;
          m = (if mp < 10 then mp + 3 else mp - 9);
          y = yoe + era * 400 + (if m \<le> 2 then 1 else 0)
      in (y, m, d))"

definition pad_int :: "nat \<Rightarrow> int \<Rightarrow> string" where
  "pad_int w i = (let ds = digits (nat i) in replicate (w - length ds) (CHR ''0'') @ ds)"

definition date_iso :: "date \<Rightarrow> string" where
  "date_iso d = (let (y, m, dd) = civil_of_days d
     in pad_int 4 y @ ''-'' @ pad_int 2 m @ ''-'' @ pad_int 2 dd)"

definition date_of :: "instant \<Rightarrow> date" where
  "date_of t = t div usec_per_day"

definition isoformat :: "instant \<Rightarrow> string" where
  "isoformat t =
     (let r = t mod usec_per_day; us = r mod usec_per_sec; sec = r div usec_per_sec
      in date_iso (date_of t) @ ''T'' @ pad_int 2 (sec div 3600) @ '':'' @ pad_int 2 (sec div 60 mod 60)
           @ '':'' @ pad_int 2 (sec mod 60) @ (if us = 0 then [] else ''.'' @ pad_int 6 us) @ ''+00:00'')"

section \<open>Rounding and floating point\<close>

text \<open>Python's \<^verbatim>\<open>round\<close>: to the nearest integer, ties to the even one.\<close>

definition round_half_even :: "rat \<Rightarrow> int" where
  "round_half_even q =
     (let f = \<lfloor>q\<rfloor>; r = q - of_int f
      in if r < 1/2 then f else if r > 1/2 then f + 1 else if even f then f else f + 1)"

text \<open>
  The nearest IEEE double of a rational (53-bit significand, ties to even, exponent range not
  bounded): the value of a single floating-point operation whose exact result is the rational.
\<close>

fun bit_length :: "nat \<Rightarrow> nat" where
  "bit_length n = (if n = 0 then 0 else Suc (bit_length (n div 2)))"

declare bit_length.simps [simp del]

definition scale2 :: "int \<Rightarrow> rat" where
  "scale2 e = (if 0 \<le> e then of_int (2 ^ nat e) else 1 / of_int (2 ^ nat (- e)))"

definition float64 :: "rat \<Rightarrow> rat" where
  "float64 q = (if q = 0 then 0 else
     let (n, d) = quotient_of \<bar>q\<bar>;
         e = int (bit_length (nat n)) - int (bit_length (nat d)) - 53;
         e' = (if \<bar>q\<bar> / scale2 e < 2 ^ 53 then e else e + 1);
         m = round_half_even (\<bar>q\<bar> / scale2 e')
     in sgn q * of_int m * scale2 e')"

lemma round_half_even_bounds:
  "of_int (round_half_even q) - 1/2 \<le> q \<and> q \<le> of_int (round_half_even q) + 1/2"
  unfolding round_half_even_def Let_def by (auto, linarith+)

lemma round_half_even_of_int [simp]: "round_half_even (of_int i) = i"
  by (simp add: round_half_even_def)

lemma round_half_even_mono: "p \<le> q \<Longrightarrow> round_half_even p \<le> round_half_even q"
proof (cases "\<lfloor>p\<rfloor> = \<lfloor>q\<rfloor>")
  case True
  assume "p \<le> q"
  with True show ?thesis by (auto simp: round_half_even_def Let_def)
next
  case False
  assume "p \<le> q"
  with False have "\<lfloor>p\<rfloor> + 1 \<le> \<lfloor>q\<rfloor>" using floor_mono [of p q] by linarith
  moreover have "round_half_even p \<le> \<lfloor>p\<rfloor> + 1" "\<lfloor>q\<rfloor> \<le> round_half_even q"
    by (auto simp: round_half_even_def Let_def)
  ultimately show ?thesis by linarith
qed

lemma set_map_filter: "y \<in> set (List.map_filter f xs) \<longleftrightarrow> (\<exists>x\<in>set xs. f x = Some y)"
  by (force simp: List.map_filter_def)

lemma list_all2_member: "list_all2 R xs ys \<Longrightarrow> x \<in> set xs \<Longrightarrow> \<exists>y\<in>set ys. R x y"
  by (induction xs ys rule: list_all2_induct) auto

section \<open>Loops that may raise\<close>

text \<open>\<^verbatim>\<open>for x in xs: ...\<close> over a state, stopping at the first error, and its invariant rule.\<close>

fun for_each :: "('a \<Rightarrow> 's \<Rightarrow> 'e + 's) \<Rightarrow> 'a list \<Rightarrow> 's \<Rightarrow> 'e + 's" where
  "for_each body [] s = Inr s"
| "for_each body (x # xs) s = (case body x s of Inl err \<Rightarrow> Inl err | Inr s' \<Rightarrow> for_each body xs s')"

lemma map_sum_id_Inr [simp]: "map_sum id f x = Inr y \<longleftrightarrow> (\<exists>z. x = Inr z \<and> y = f z)"
  by (cases x) auto

lemma for_each_Cons_Inr:
  "for_each body (x # xs) s = Inr s' \<longleftrightarrow> (\<exists>s1. body x s = Inr s1 \<and> for_each body xs s1 = Inr s')"
  by (auto split: sum.splits)

lemma for_each_Inr_total:
  "(\<And>x s. x \<in> set xs \<Longrightarrow> \<exists>s'. body x s = Inr s') \<Longrightarrow> \<exists>s'. for_each body xs s = Inr s'"
proof (induction xs arbitrary: s)
  case (Cons x xs)
  then obtain s1 where "body x s = Inr s1" by force
  with Cons show ?case by simp
qed simp

section \<open>Step relations and invariants\<close>

text \<open>Runs of a labelled step relation, and the interface through which a component lifts an
  invariant of its single steps to all its runs.\<close>

inductive steps :: "('o \<Rightarrow> 's \<Rightarrow> 's \<Rightarrow> bool) \<Rightarrow> 's \<Rightarrow> 'o list \<Rightarrow> 's \<Rightarrow> bool" for step where
  steps_nil: "steps step s [] s"
| steps_cons: "step a s t \<Longrightarrow> steps step t as u \<Longrightarrow> steps step s (a # as) u"

inductive_cases steps_nilE [elim!]: "steps step s [] t"
inductive_cases steps_consE [elim!]: "steps step s (a # as) t"

lemma steps_append: "steps step s as t \<Longrightarrow> steps step t bs u \<Longrightarrow> steps step s (as @ bs) u"
  by (induction rule: steps.induct) (auto intro: steps.intros)

locale invariant_steps =
  fixes step :: "'o \<Rightarrow> 's \<Rightarrow> 's \<Rightarrow> bool"
    and inv :: "'s \<Rightarrow> bool"
    and allowed :: "'o \<Rightarrow> bool"
  assumes step_inv: "step a s t \<Longrightarrow> allowed a \<Longrightarrow> inv s \<Longrightarrow> inv t"
begin

lemma steps_inv: "steps step s as t \<Longrightarrow> list_all allowed as \<Longrightarrow> inv s \<Longrightarrow> inv t"
  by (induction rule: steps.induct) (auto intro: step_inv)

end

end
