(* ===== verification/Models.thy ===== *)
theory Models
  imports Prelude
begin

text \<open>
  The data model: the enums of \<^verbatim>\<open>app/db/enums.py\<close>, the rows of \<^verbatim>\<open>app/db/models.py\<close> the modelled code
  reads or writes (one record per table, field prefix = table), the database as a record of
  tables, the request environment (clock reading, actor of \<^verbatim>\<open>app/audit/context.py\<close>) and the audit
  writer and insert listener of \<^verbatim>\<open>app/audit\<close>.
  Bookkeeping columns that no modelled code reads (\<^verbatim>\<open>created_at\<close>/\<^verbatim>\<open>updated_at\<close> of most tables) are left
  out; \<^verbatim>\<open>content_asset.updated_at\<close>, which the approval queue sorts by, is kept with its trigger.
\<close>

section \<open>Enums\<close>

datatype user_role = Admin | Manager | Marketer | Viewer

datatype agent_kind = Orchestrator | CampaignStrategist | AudienceTargeting | ContentCreator
  | ApprovalOrchestrator | ChannelDistribution | AnalyticsOptimisation

datatype campaign_status = Drafted | AudienceBuilt | StrategySet | ContentInProduction
  | ApprovalPending | ReadyToLaunch | Live | Optimising | Paused | Completed

datatype campaign_type = CtAwareness | CtLeadGen | CtDemandGen | CtNurture | CtProductLaunch | CtEventPromo
  | CtRetention | CtReactivation

datatype channel_platform = PEmail | PLinkedin | PX | PMeta | PInstagram | PGoogleAds | PMetaAds
  | PWeb | PBlog | PSms

datatype task_status = TQueued | TRunning | TSucceeded | TFailed | TCancelled | TAwaitingRetry

datatype asset_type = TEmail | TSocialPost | TAdCreative | TBlogPost | TLandingPageCopy | TSms | TPush
  | TLinkedinDm

datatype asset_status = ARequested | AGenerating | ADrafted | APendingApproval | AApproved | ARejected
  | AScheduled | APublished | AFailed | AMeasuring | AVariantWinner | AArchived

datatype ab_test_status = ABDesigning | ABRunning | ABSignificant | ABInconclusive | ABStopped

datatype approval_decision = DApproved | DApprovedWithEdits | DRejected

datatype event_kind = EImpression | EClick | EOpen | EReply | EConversion | EUnsubscribe | EBounce
  | ESpamComplaint | ESpend

datatype rejection_category = RcOffVoice | RcInaccurate | RcWrongAudience | RcLength | RcCompliance
  | RcOther

fun campaign_status_value :: "campaign_status \<Rightarrow> string" where
  "campaign_status_value Drafted = ''drafted''"
| "campaign_status_value AudienceBuilt = ''audience_built''"
| "campaign_status_value StrategySet = ''strategy_set''"
| "campaign_status_value ContentInProduction = ''content_in_production''"
| "campaign_status_value ApprovalPending = ''approval_pending''"
| "campaign_status_value ReadyToLaunch = ''ready_to_launch''"
| "campaign_status_value Live = ''live''"
| "campaign_status_value Optimising = ''optimising''"
| "campaign_status_value Paused = ''paused''"
| "campaign_status_value Completed = ''completed''"

fun campaign_type_value :: "campaign_type \<Rightarrow> string" where
  "campaign_type_value CtAwareness = ''awareness''"
| "campaign_type_value CtLeadGen = ''lead_gen''"
| "campaign_type_value CtDemandGen = ''demand_gen''"
| "campaign_type_value CtNurture = ''nurture''"
| "campaign_type_value CtProductLaunch = ''product_launch''"
| "campaign_type_value CtEventPromo = ''event_promo''"
| "campaign_type_value CtRetention = ''retention''"
| "campaign_type_value CtReactivation = ''reactivation''"

fun platform_value :: "channel_platform \<Rightarrow> string" where
  "platform_value PEmail = ''email''"
| "platform_value PLinkedin = ''linkedin''"
| "platform_value PX = ''x''"
| "platform_value PMeta = ''meta''"
| "platform_value PInstagram = ''instagram''"
| "platform_value PGoogleAds = ''google_ads''"
| "platform_value PMetaAds = ''meta_ads''"
| "platform_value PWeb = ''web''"
| "platform_value PBlog = ''blog''"
| "platform_value PSms = ''sms''"

fun asset_type_value :: "asset_type \<Rightarrow> string" where
  "asset_type_value TEmail = ''email''"
| "asset_type_value TSocialPost = ''social_post''"
| "asset_type_value TAdCreative = ''ad_creative''"
| "asset_type_value TBlogPost = ''blog_post''"
| "asset_type_value TLandingPageCopy = ''landing_page_copy''"
| "asset_type_value TSms = ''sms''"
| "asset_type_value TPush = ''push''"
| "asset_type_value TLinkedinDm = ''linkedin_dm''"

fun asset_status_value :: "asset_status \<Rightarrow> string" where
  "asset_status_value ARequested = ''requested''"
| "asset_status_value AGenerating = ''generating''"
| "asset_status_value ADrafted = ''drafted''"
| "asset_status_value APendingApproval = ''pending_approval''"
| "asset_status_value AApproved = ''approved''"
| "asset_status_value ARejected = ''rejected''"
| "asset_status_value AScheduled = ''scheduled''"
| "asset_status_value APublished = ''published''"
| "asset_status_value AFailed = ''failed''"
| "asset_status_value AMeasuring = ''measuring''"
| "asset_status_value AVariantWinner = ''variant_winner''"
| "asset_status_value AArchived = ''archived''"

fun ab_status_value :: "ab_test_status \<Rightarrow> string" where
  "ab_status_value ABDesigning = ''designing''"
| "ab_status_value ABRunning = ''running''"
| "ab_status_value ABSignificant = ''significant''"
| "ab_status_value ABInconclusive = ''inconclusive''"
| "ab_status_value ABStopped = ''stopped''"

fun category_value :: "rejection_category \<Rightarrow> string" where
  "category_value RcOffVoice = ''off_voice''"
| "category_value RcInaccurate = ''inaccurate''"
| "category_value RcWrongAudience = ''wrong_audience''"
| "category_value RcLength = ''length''"
| "category_value RcCompliance = ''compliance''"
| "category_value RcOther = ''other''"

fun event_kind_value :: "event_kind \<Rightarrow> string" where
  "event_kind_value EImpression = ''impression''"
| "event_kind_value EClick = ''click''"
| "event_kind_value EOpen = ''open''"
| "event_kind_value EReply = ''reply''"
| "event_kind_value EConversion = ''conversion''"
| "event_kind_value EUnsubscribe = ''unsubscribe''"
| "event_kind_value EBounce = ''bounce''"
| "event_kind_value ESpamComplaint = ''spam_complaint''"
| "event_kind_value ESpend = ''spend''"

text \<open>The enum constructor \<^verbatim>\<open>EventKind(s)\<close>: \<open>None\<close> is \<^verbatim>\<open>ValueError\<close>.\<close>

definition event_kind_of :: "string \<Rightarrow> event_kind option" where
  "event_kind_of s = List.find (\<lambda>k. event_kind_value k = s)
     [EImpression, EClick, EOpen, EReply, EConversion, EUnsubscribe, EBounce, ESpamComplaint, ESpend]"

section \<open>Rows\<close>

record app_user =
  user_id :: uuid
  user_tenant_id :: uuid
  user_role_of :: user_role

record agent =
  ag_id :: uuid
  ag_tenant_id :: uuid
  ag_name :: string
  ag_type :: agent_kind

record campaign =
  camp_id :: uuid
  camp_tenant_id :: uuid
  camp_owner_id :: "uuid option"
  camp_name :: string
  camp_status :: campaign_status
  camp_type :: campaign_type
  camp_objective :: string
  camp_budget_total :: money
  camp_currency :: string
  camp_start_date :: date
  camp_end_date :: date
  camp_brief :: "string option"
  camp_kpi_targets :: dict

record task =
  task_id :: uuid
  task_tenant_id :: uuid
  task_campaign_id :: "uuid option"
  task_agent_id :: uuid
  task_parent_id :: "uuid option"
  task_skill_name :: string
  task_status_of :: task_status
  task_priority :: int
  task_attempt :: int
  task_max_attempts :: int
  task_idempotency_key :: "string option"
  task_leased_until :: "instant option"
  task_worker_id :: "string option"
  task_input_data :: dict
  task_output_data :: dict
  task_error_message :: "string option"
  task_scheduled_for :: instant
  task_started_at :: "instant option"
  task_completed_at :: "instant option"

record content_asset =
  asset_id :: uuid
  asset_tenant_id :: uuid
  asset_campaign_id :: uuid
  asset_channel_id :: "uuid option"
  asset_type_of :: asset_type
  asset_status_of :: asset_status
  asset_title :: "string option"
  asset_content :: "string option"
  asset_metadata :: dict
  asset_is_required :: bool
  asset_scheduled_at :: "instant option"
  asset_published_at :: "instant option"
  asset_updated_at :: instant

record channel =
  ch_id :: uuid
  ch_tenant_id :: uuid
  ch_name :: string
  ch_platform :: channel_platform
  ch_is_active :: bool
  ch_api_config :: dict

record integration_credential =
  cred_tenant_id :: uuid
  cred_channel_id :: "uuid option"
  cred_provider :: string
  cred_payload :: dict  \<comment> \<open>the decrypted payload\<close>

record audience =
  aud_id :: uuid
  aud_tenant_id :: uuid
  aud_campaign_id :: uuid
  aud_name :: string
  aud_criteria :: dict
  aud_actual_size :: "int option"
  aud_estimated_size :: "int option"
  aud_created_at :: instant

record audience_member =
  mem_audience_id :: uuid
  mem_external_id :: string
  mem_payload :: dict
  mem_added_at :: instant

record analytic_event =
  ev_id :: uuid
  ev_tenant_id :: uuid
  ev_campaign_id :: "uuid option"
  ev_channel_id :: "uuid option"
  ev_type :: event_kind
  ev_metric_value :: "rat option"
  ev_payload :: dict
  ev_provider_event_id :: "string option"
  ev_at :: instant

record strategy_proposal =
  prop_id :: uuid
  prop_tenant_id :: uuid
  prop_campaign_id :: uuid
  prop_version :: int
  prop_payload :: dict
  prop_is_accepted :: bool
  prop_created_by_kind :: string
  prop_created_by_id :: "uuid option"
  prop_warnings :: "json list"

record strategy_touchpoint =
  tp_id :: uuid
  tp_tenant_id :: uuid
  tp_proposal_id :: uuid
  tp_channel_platform :: string
  tp_audience_id :: uuid
  tp_scheduled_at :: instant
  tp_position :: int
  tp_human_override :: bool
  tp_frequency_warning :: "dict option"

text \<open>A guardrail of a tenant: \<^verbatim>\<open>forbid_channel\<close> or \<^verbatim>\<open>hard_cap\<close>.\<close>

record tenant_constraint =
  tcn_tenant_id :: uuid
  tcn_kind :: string
  tcn_payload :: dict

record compliance_rule =
  rule_tenant_id :: uuid
  rule_keyword :: string
  rule_pattern_kind :: string
  rule_severity :: string

record brand_voice =
  bv_id :: uuid
  bv_tenant_id :: uuid
  bv_name :: string
  bv_is_active :: bool
  bv_tone_descriptors :: "string list"
  bv_do_words :: "string list"
  bv_dont_words :: "string list"
  bv_sample_paragraphs :: "string list"
  bv_reading_grade_target :: "money option"  \<comment> \<open>hundredths: \<open>Numeric(4, 2)\<close>\<close>

record ab_test =
  ab_id :: uuid
  ab_tenant_id :: uuid
  ab_campaign_id :: uuid
  ab_name :: string
  ab_hypothesis :: "string option"
  ab_primary_metric :: string
  ab_status :: ab_test_status
  ab_variant_a_id :: "uuid option"
  ab_variant_b_id :: "uuid option"
  ab_winner_id :: "uuid option"
  ab_confidence :: "rat option"
  ab_lift :: "rat option"
  ab_last_evaluated_at :: "instant option"
  ab_traffic_split :: json
  ab_min_runtime_hours :: "int option"
  ab_max_runtime_hours :: "int option"
  ab_started_at :: "instant option"
  ab_stopped_at :: "instant option"
  ab_created_at :: instant

record ab_test_assignment =
  asg_tenant_id :: uuid
  asg_ab_test_id :: uuid
  asg_external_id :: string
  asg_variant_id :: uuid

record decision_log =
  dec_id :: uuid
  dec_asset_id :: uuid
  dec_reviewer_id :: uuid
  dec_decision :: approval_decision
  dec_reason :: "string option"
  dec_edits :: "dict option"
  dec_decided_at :: instant

record approval_settings =
  set_tenant_id :: uuid
  set_admin_required_above :: "money option"
  set_auto_approval_cap :: money
  set_currency :: string

record suppression_entry =
  sup_id :: uuid
  sup_tenant_id :: uuid
  sup_platform :: channel_platform
  sup_identifier :: string  \<comment> \<open>compared without regard to case (CITEXT)\<close>
  sup_reason :: string
  sup_suppressed_at :: instant
  sup_source_event_id :: "uuid option"

record dispatch_attempt =
  att_tenant_id :: uuid
  att_asset_id :: uuid
  att_external_id :: "string option"
  att_recipient :: string  \<comment> \<open>compared without regard to case (CITEXT)\<close>
  att_idempotency_key :: string
  att_provider :: string
  att_provider_message_id :: "string option"
  att_status :: string
  att_count :: int
  att_last_error :: "string option"
  att_sent_at :: "instant option"

record frequency_cap =
  fc_tenant_id :: uuid
  fc_platform :: channel_platform
  fc_max_sends :: int
  fc_window_days :: int
  fc_enabled :: bool

record compliance_settings =
  cs_tenant_id :: uuid
  cs_postal_address :: "string option"
  cs_unsubscribe_secret :: "string option"
  cs_auto_pause :: bool

text \<open>
  An audit entry's before and after states: \<^verbatim>\<open>column_snapshot(row)\<close> is kept as the row it renders,
  a literal dictionary as that dictionary.
\<close>

datatype snapshot = SnapAsset content_asset | SnapCampaign campaign | SnapAgent agent
  | SnapProposal strategy_proposal | SnapTouchpoint strategy_touchpoint | SnapDict dict

record audit_entry =
  au_tenant_id :: uuid
  au_actor_kind :: string
  au_actor_id :: "uuid option"
  au_entity_kind :: string
  au_entity_id :: uuid
  au_action :: string
  au_before :: "snapshot option"
  au_after :: "snapshot option"
  au_metadata :: dict
  au_logged_at :: instant

record agent_log =
  al_tenant_id :: uuid
  al_agent_id :: uuid
  al_task_id :: "uuid option"
  al_action :: string
  al_log_data :: dict
  al_severity :: string

record metric_anomaly =
  an_id :: uuid
  an_tenant_id :: uuid
  an_campaign_id :: uuid
  an_metric :: string
  an_window_start :: instant
  an_window_end :: instant
  an_observed :: rat
  an_median :: rat
  an_stddev :: rat
  an_sigma :: rat
  an_severity :: string
  an_dismissed_at :: "instant option"
  an_dismissed_by :: "uuid option"
  an_created_at :: instant

record recommendation =
  rec_id :: uuid
  rec_tenant_id :: uuid
  rec_campaign_id :: uuid
  rec_kind :: string
  rec_proposal :: dict
  rec_rationale :: "string option"
  rec_predicted_uplift :: "rat option"
  rec_status :: string
  rec_applied_at :: "instant option"
  rec_applied_by :: "uuid option"
  rec_created_at :: instant

record custom_kpi =
  kpi_id :: uuid
  kpi_tenant_id :: uuid
  kpi_campaign_id :: "uuid option"
  kpi_name :: string
  kpi_formula :: dict
  kpi_deleted_at :: "instant option"
  kpi_created_by :: "uuid option"
  kpi_created_at :: instant

record spend_reconciliation =
  sr_id :: uuid
  sr_tenant_id :: uuid
  sr_campaign_id :: uuid
  sr_period_start :: date
  sr_period_end :: date
  sr_committed :: money
  sr_invoiced :: money
  sr_delta_pct :: rat
  sr_status :: string
  sr_note :: "string option"
  sr_resolved_at :: "instant option"
  sr_resolved_by :: "uuid option"

record channel_budget =
  cb_campaign_id :: uuid
  cb_channel_id :: uuid
  cb_allocated :: money
  cb_spent :: money

record raw_webhook =
  rw_id :: uuid
  rw_tenant_id :: uuid
  rw_provider :: string
  rw_signature_valid :: bool
  rw_signature_reason :: "string option"
  rw_headers :: "(string \<times> string) list"
  rw_payload :: string
  rw_mapped_event_id :: "uuid option"
  rw_received_at :: instant

record campaign_report =
  rep_id :: uuid
  rep_tenant_id :: uuid
  rep_campaign_id :: uuid
  rep_version :: int
  rep_generated_at :: instant
  rep_generated_by :: string
  rep_data :: dict
  rep_is_latest :: bool

section \<open>The database and the request environment\<close>

text \<open>
  \<open>db_gen\<close> is the stream of identifiers \<^verbatim>\<open>gen_random_uuid()\<close> will deliver and \<open>db_seq\<close> how many it has
  delivered. A transaction is a function of the database; one that raises yields an error value and
  no database, which is the rollback.
\<close>

record db =
  db_gen :: "nat \<Rightarrow> uuid"
  db_seq :: nat
  agents :: "agent list"
  campaigns :: "campaign list"
  tasks :: "task list"
  audit_log :: "audit_entry list"
  agent_logs :: "agent_log list"
  assets :: "content_asset list"
  channels :: "channel list"
  credentials :: "integration_credential list"
  audiences :: "audience list"
  members :: "audience_member list"
  events :: "analytic_event list"
  proposals :: "strategy_proposal list"
  touchpoints :: "strategy_touchpoint list"
  tenant_constraints :: "tenant_constraint list"
  compliance_rules :: "compliance_rule list"
  brand_voices :: "brand_voice list"
  ab_tests :: "ab_test list"
  assignments :: "ab_test_assignment list"
  decisions :: "decision_log list"
  approval_settings_rows :: "approval_settings list"
  suppressions :: "suppression_entry list"
  attempts :: "dispatch_attempt list"
  frequency_caps :: "frequency_cap list"
  compliance_settings_rows :: "compliance_settings list"
  anomalies :: "metric_anomaly list"
  recommendations :: "recommendation list"
  custom_kpis :: "custom_kpi list"
  reconciliations :: "spend_reconciliation list"
  channel_budgets :: "channel_budget list"
  raw_webhooks :: "raw_webhook list"
  reports :: "campaign_report list"

text \<open>
  The environment of a request or task: one clock reading, the actor context variables, and whether
  the process registered the audit listeners (\<^verbatim>\<open>create_app\<close> does, the worker's \<^verbatim>\<open>main\<close> does not).
\<close>

record env =
  env_now :: instant
  env_actor_kind :: string
  env_actor_id :: "uuid option"
  env_listeners :: bool

text \<open>The exceptions the modelled code raises.\<close>

datatype py_error =
    UnknownTransitionError | GuardFailedError
  | MultipleResultsFound | NoResultFound | AssertionError | LookupError | KeyError | ValueError
  | ContentCreatorError | ComplianceCheckError | PlannerError
  | DistributionPreconditionError | DispatchValidationError | SocialPublishError
  | ProviderUnreachableError | ProviderRejectedError | OAuthRevokedError | MediaRequiredError
  | AbTestAssignmentError | HardCapViolationError
  | IntegrityError | UnknownSkill | TypeError | AttributeError | OverflowError | InvalidOperation
  | UnknownProviderError | DataError | RuntimeError
  | StrategistError | StrategistPreconditionError | CalendarSeedError | SpendReadOnlyError
  | CopywritingError | SeoAnalysisError | NotConfiguredError | ToolError | ToolPermissionError
  | HTTPException nat

type_synonym 'a res = "py_error + 'a"

section \<open>Row access by primary key\<close>

definition fresh_uuid :: "db \<Rightarrow> uuid \<times> db" where
  "fresh_uuid s = (db_gen s (db_seq s), s\<lparr>db_seq := Suc (db_seq s)\<rparr>)"

definition get_task :: "uuid \<Rightarrow> db \<Rightarrow> task option" where
  "get_task i s = find_row (\<lambda>t. task_id t = i) (tasks s)"

definition modify_task :: "uuid \<Rightarrow> (task \<Rightarrow> task) \<Rightarrow> db \<Rightarrow> db" where
  "modify_task i f s = s\<lparr>tasks := update_where (\<lambda>t. task_id t = i) f (tasks s)\<rparr>"

definition get_campaign :: "uuid \<Rightarrow> db \<Rightarrow> campaign option" where
  "get_campaign i s = find_row (\<lambda>c. camp_id c = i) (campaigns s)"

definition modify_campaign :: "uuid \<Rightarrow> (campaign \<Rightarrow> campaign) \<Rightarrow> db \<Rightarrow> db" where
  "modify_campaign i f s = s\<lparr>campaigns := update_where (\<lambda>c. camp_id c = i) f (campaigns s)\<rparr>"

definition get_asset :: "uuid \<Rightarrow> db \<Rightarrow> content_asset option" where
  "get_asset i s = find_row (\<lambda>a. asset_id a = i) (assets s)"

text \<open>An \<^verbatim>\<open>UPDATE\<close> of \<^verbatim>\<open>content_asset\<close> fires the trigger that stamps \<^verbatim>\<open>updated_at\<close>.\<close>

definition put_asset :: "uuid \<Rightarrow> (content_asset \<Rightarrow> content_asset) \<Rightarrow> db \<Rightarrow> db" where
  "put_asset i f s = s\<lparr>assets := update_where (\<lambda>a. asset_id a = i) f (assets s)\<rparr>"

definition stamped :: "env \<Rightarrow> (content_asset \<Rightarrow> content_asset) \<Rightarrow> content_asset \<Rightarrow> content_asset" where
  "stamped e f a = (f a)\<lparr>asset_updated_at := env_now e\<rparr>"

definition modify_asset :: "env \<Rightarrow> uuid \<Rightarrow> (content_asset \<Rightarrow> content_asset) \<Rightarrow> db \<Rightarrow> db" where
  "modify_asset e i f s = put_asset i (stamped e f) s"

section \<open>Audit log\<close>

text \<open>\<^verbatim>\<open>write_audit\<close> (the actor arguments come from the context variables at every call site).\<close>

definition write_audit ::
  "env \<Rightarrow> uuid \<Rightarrow> string \<Rightarrow> uuid \<Rightarrow> string \<Rightarrow> snapshot option \<Rightarrow> snapshot option \<Rightarrow> dict \<Rightarrow> db \<Rightarrow> db" where
  "write_audit e tenant entity_kind entity_id action before after meta s =
     s\<lparr>audit_log := audit_log s @
       [\<lparr>au_tenant_id = tenant, au_actor_kind = env_actor_kind e, au_actor_id = env_actor_id e,
         au_entity_kind = entity_kind, au_entity_id = entity_id, au_action = action,
         au_before = before, au_after = after, au_metadata = meta, au_logged_at = env_now e\<rparr>]\<rparr>"

text \<open>The \<^verbatim>\<open>after_insert\<close> listener on \<^verbatim>\<open>Agent\<close>, and the insert that fires it.\<close>

definition insert_agent :: "env \<Rightarrow> uuid \<Rightarrow> string \<Rightarrow> agent_kind \<Rightarrow> db \<Rightarrow> agent \<times> db" where
  "insert_agent e tenant name kind s =
     (let (i, s1) = fresh_uuid s;
          a = \<lparr>ag_id = i, ag_tenant_id = tenant, ag_name = name, ag_type = kind\<rparr>;
          s2 = s1\<lparr>agents := agents s1 @ [a]\<rparr>
      in (a, if env_listeners e
             then write_audit e tenant ''agent'' i ''created'' None (Some (SnapAgent a)) [] s2
             else s2))"

text \<open>
  Get-or-create of a tenant's agent row. \<^verbatim>\<open>_ensure_orchestrator_agent\<close>, \<^verbatim>\<open>ensure_distribution_agent\<close> and
  \<^verbatim>\<open>ensure_content_creator_agent\<close> share this body up to the kind and the display name.
\<close>

definition ensure_agent :: "env \<Rightarrow> agent_kind \<Rightarrow> string \<Rightarrow> uuid \<Rightarrow> db \<Rightarrow> (agent \<times> db) res" where
  "ensure_agent e kind name tenant s =
     (case scalar_one_or_none (filter (\<lambda>a. ag_tenant_id a = tenant \<and> ag_type a = kind) (agents s)) of
        None \<Rightarrow> Inl MultipleResultsFound
      | Some (Some a) \<Rightarrow> Inr (a, s)
      | Some None \<Rightarrow>
          if list_ex (\<lambda>a. ag_tenant_id a = tenant \<and> ag_name a = name) (agents s) then Inl IntegrityError
          else Inr (insert_agent e tenant name kind s))"

section \<open>The keyed-table interface\<close>

text \<open>
  What client code relies on when it loads a row by primary key and updates it: the row found has
  the key asked for, an update that keeps keys is visible to the next lookup of that key and to no
  other lookup, and two updates of one row compose.
\<close>

locale keyed_table =
  fixes get :: "'k \<Rightarrow> 's \<Rightarrow> 'r option"
    and modify :: "'k \<Rightarrow> ('r \<Rightarrow> 'r) \<Rightarrow> 's \<Rightarrow> 's"
    and key :: "'r \<Rightarrow> 'k"
  assumes get_key: "get k s = Some r \<Longrightarrow> key r = k"
    and get_modify: "(\<And>r. key (f r) = key r) \<Longrightarrow>
          get k (modify k' f s) = (if k = k' then map_option f (get k s) else get k s)"
    and modify_modify: "(\<And>r. key (f r) = key r) \<Longrightarrow>
          modify k g (modify k f s) = modify k (\<lambda>r. g (f r)) s"
begin

lemma get_modify_same:
  "(\<And>r. key (f r) = key r) \<Longrightarrow> get k s = Some r \<Longrightarrow> get k (modify k f s) = Some (f r)"
  by (simp add: get_modify)

lemma get_modify_other:
  "(\<And>r. key (f r) = key r) \<Longrightarrow> k \<noteq> k' \<Longrightarrow> get k (modify k' f s) = get k s"
  by (simp add: get_modify)

lemma get_modify_None:
  "(\<And>r. key (f r) = key r) \<Longrightarrow> get k (modify k' f s) = None \<longleftrightarrow> get k s = None"
  by (auto simp: get_modify)

end

interpretation task_table: keyed_table get_task modify_task task_id
  by unfold_locales
    (auto simp: get_task_def modify_task_def find_row_update_key update_where_update_key
      dest: find_row_Some)

interpretation campaign_table: keyed_table get_campaign modify_campaign camp_id
  by unfold_locales
    (auto simp: get_campaign_def modify_campaign_def find_row_update_key update_where_update_key
      dest: find_row_Some)

interpretation asset_table: keyed_table get_asset put_asset asset_id
  by unfold_locales
    (auto simp: get_asset_def put_asset_def find_row_update_key update_where_update_key
      dest: find_row_Some)

lemma asset_id_stamped [simp]: "(\<And>a. asset_id (f a) = asset_id a) \<Longrightarrow> asset_id (stamped e f a) = asset_id a"
  by (simp add: stamped_def)

lemmas modify_defs = modify_task_def modify_campaign_def modify_asset_def put_asset_def

text \<open>Which tables the shared operations leave alone.\<close>

lemma write_audit_frame [simp]:
  "assets (write_audit e ten k i act b a m s) = assets s"
  "tasks (write_audit e ten k i act b a m s) = tasks s"
  "campaigns (write_audit e ten k i act b a m s) = campaigns s"
  "agents (write_audit e ten k i act b a m s) = agents s"
  "touchpoints (write_audit e ten k i act b a m s) = touchpoints s"
  "proposals (write_audit e ten k i act b a m s) = proposals s"
  "attempts (write_audit e ten k i act b a m s) = attempts s"
  "decisions (write_audit e ten k i act b a m s) = decisions s"
  "reports (write_audit e ten k i act b a m s) = reports s"
  "ab_tests (write_audit e ten k i act b a m s) = ab_tests s"
  by (simp_all add: write_audit_def)

lemma modify_frame [simp]:
  "tasks (modify_asset e i f s) = tasks s" "campaigns (modify_asset e i f s) = campaigns s"
  "audit_log (modify_asset e i f s) = audit_log s" "touchpoints (modify_asset e i f s) = touchpoints s"
  "attempts (modify_asset e i f s) = attempts s" "agents (modify_asset e i f s) = agents s"
  "reports (modify_asset e i f s) = reports s" "ab_tests (modify_asset e i f s) = ab_tests s"
  "assets (modify_asset e i f s) = update_where (\<lambda>a. asset_id a = i) (stamped e f) (assets s)"
  "assets (modify_campaign i g s) = assets s" "tasks (modify_campaign i g s) = tasks s"
  "audit_log (modify_campaign i g s) = audit_log s" "touchpoints (modify_campaign i g s) = touchpoints s"
  "attempts (modify_campaign i g s) = attempts s" "reports (modify_campaign i g s) = reports s"
  "assets (modify_task i h s) = assets s" "campaigns (modify_task i h s) = campaigns s"
  by (simp_all add: modify_defs)

lemma fresh_uuid_frame:
  "fresh_uuid s = (i, s') \<Longrightarrow> assets s' = assets s \<and> tasks s' = tasks s \<and> campaigns s' = campaigns s
     \<and> touchpoints s' = touchpoints s \<and> attempts s' = attempts s \<and> audit_log s' = audit_log s
     \<and> reports s' = reports s \<and> ab_tests s' = ab_tests s \<and> proposals s' = proposals s"
  by (auto simp: fresh_uuid_def)

lemma ensure_agent_frame:
  "ensure_agent e kind name ten s = Inr (ag, s') \<Longrightarrow> assets s' = assets s \<and> tasks s' = tasks s
     \<and> campaigns s' = campaigns s \<and> touchpoints s' = touchpoints s \<and> attempts s' = attempts s
     \<and> reports s' = reports s \<and> ab_tests s' = ab_tests s \<and> proposals s' = proposals s"
  by (auto simp: ensure_agent_def insert_agent_def Let_def fresh_uuid_def
      split: option.splits if_splits)

section \<open>An empty deployment\<close>

text \<open>The starting point of the concrete instances: no rows, identifiers counted upwards.\<close>

definition empty_db :: db where
  "empty_db = \<lparr>db_gen = (\<lambda>n. 1000 + n), db_seq = 0, agents = [], campaigns = [], tasks = [],
     audit_log = [], agent_logs = [], assets = [], channels = [], credentials = [], audiences = [], members = [],
     events = [], proposals = [], touchpoints = [], tenant_constraints = [], compliance_rules = [], brand_voices = [], ab_tests = [],
     assignments = [], decisions = [], approval_settings_rows = [], suppressions = [], attempts = [],
     frequency_caps = [], compliance_settings_rows = [], anomalies = [], recommendations = [],
     custom_kpis = [], reconciliations = [], channel_budgets = [], raw_webhooks = [], reports = []\<rparr>"

definition worker_env :: "instant \<Rightarrow> env" where
  "worker_env now = \<lparr>env_now = now, env_actor_kind = ''system'', env_actor_id = None, env_listeners = False\<rparr>"

lemma empty_db_simps [simp]:
  "tasks empty_db = []" "agents empty_db = []" "campaigns empty_db = []" "assets empty_db = []"
  "audit_log empty_db = []" "db_gen empty_db n = 1000 + n" "db_seq empty_db = 0"
  by (simp_all add: empty_db_def)

definition demo_campaign :: "campaign_status \<Rightarrow> campaign" where
  "demo_campaign st = \<lparr>camp_id = 7, camp_tenant_id = 1, camp_owner_id = None, camp_name = ''Spring'',
     camp_status = st, camp_type = CtLeadGen, camp_objective = ''leads'', camp_budget_total = 500000, camp_currency = ''USD'',
     camp_start_date = 0, camp_end_date = 27, camp_brief = None, camp_kpi_targets = []\<rparr>"

definition demo_asset :: "asset_type \<Rightarrow> asset_status \<Rightarrow> dict \<Rightarrow> content_asset" where
  "demo_asset ty st meta = \<lparr>asset_id = 20, asset_tenant_id = 1, asset_campaign_id = 7, asset_channel_id = None,
     asset_type_of = ty, asset_status_of = st, asset_title = Some ''Hello'', asset_content = Some ''Body'',
     asset_metadata = meta, asset_is_required = True, asset_scheduled_at = None, asset_published_at = None,
     asset_updated_at = 0\<rparr>"

text \<open>One campaign with one asset.\<close>

definition demo_db :: "campaign_status \<Rightarrow> content_asset \<Rightarrow> db" where
  "demo_db st a = empty_db\<lparr>campaigns := [demo_campaign st], assets := [a]\<rparr>"

lemma demo_simps [simp]:
  "camp_id (demo_campaign st) = 7" "camp_status (demo_campaign st) = st" "camp_tenant_id (demo_campaign st) = 1"
  "asset_id (demo_asset ty ast meta) = 20" "asset_campaign_id (demo_asset ty ast meta) = 7"
  "asset_status_of (demo_asset ty ast meta) = ast" "asset_type_of (demo_asset ty ast meta) = ty"
  "asset_metadata (demo_asset ty ast meta) = meta" "asset_is_required (demo_asset ty ast meta)"
  "asset_scheduled_at (demo_asset ty ast meta) = None"
  "campaigns (demo_db st a) = [demo_campaign st]" "assets (demo_db st a) = [a]" "tasks (demo_db st a) = []"
  "agents (demo_db st a) = []" "touchpoints (demo_db st a) = []" "audit_log (demo_db st a) = []"
  by (simp_all add: demo_campaign_def demo_asset_def demo_db_def empty_db_def)

lemma worker_env_simps [simp]:
  "env_now (worker_env now) = now" "env_actor_kind (worker_env now) = ''system''"
  "env_actor_id (worker_env now) = None" "\<not> env_listeners (worker_env now)"
  by (simp_all add: worker_env_def)

end
