(* ===== verification/Task_Queue.thy ===== *)
theory Task_Queue
  imports Models
begin

text \<open>
  The durable task queue of \<^verbatim>\<open>app/orchestrator/queue.py\<close> over the \<^verbatim>\<open>task\<close> table: enqueue with an
  idempotency key, claim with a lease, complete, fail with exponential backoff, the lease reaper and
  the per-campaign cancel; the queue's invariant, its step relation, and the retry discipline.
\<close>

section \<open>Backoff\<close>

text \<open>
  \<open>draw\<close> is the value of \<^verbatim>\<open>random.random()\<close> behind \<^verbatim>\<open>random.uniform(0, delay * 0.1)\<close>. The result is the
  \<^verbatim>\<open>timedelta\<close>, which rounds to whole microseconds.
\<close>

definition backoff_base_seconds :: rat where "backoff_base_seconds = 30"
definition backoff_max_seconds :: rat where "backoff_max_seconds = 3600"
definition backoff_jitter_fraction :: rat where "backoff_jitter_fraction = 1/10"

definition compute_next_attempt_delay :: "rat \<Rightarrow> int \<Rightarrow> duration" where
  "compute_next_attempt_delay draw attempt =
     (let delay = min (backoff_base_seconds * 2 ^ nat attempt) backoff_max_seconds;
          jitter = draw * (delay * backoff_jitter_fraction)
      in round_half_even ((delay + jitter) * of_int usec_per_sec))"

section \<open>Operations\<close>

record enqueue_request =
  rq_tenant_id :: uuid
  rq_agent_id :: uuid
  rq_skill_name :: string
  rq_input_data :: dict
  rq_campaign_id :: "uuid option"
  rq_parent_task_id :: "uuid option"
  rq_idempotency_key :: "string option"
  rq_scheduled_for :: "instant option"
  rq_max_attempts :: int
  rq_priority :: int

text \<open>The keyword defaults of \<^verbatim>\<open>enqueue_task\<close>.\<close>

definition request :: "uuid \<Rightarrow> uuid \<Rightarrow> string \<Rightarrow> dict \<Rightarrow> enqueue_request" where
  "request tenant agent skill input =
     \<lparr>rq_tenant_id = tenant, rq_agent_id = agent, rq_skill_name = skill, rq_input_data = input,
      rq_campaign_id = None, rq_parent_task_id = None, rq_idempotency_key = None,
      rq_scheduled_for = None, rq_max_attempts = 3, rq_priority = 5\<rparr>"

definition new_task :: "env \<Rightarrow> enqueue_request \<Rightarrow> uuid \<Rightarrow> task" where
  "new_task e rq i =
     \<lparr>task_id = i, task_tenant_id = rq_tenant_id rq, task_campaign_id = rq_campaign_id rq,
      task_agent_id = rq_agent_id rq, task_parent_id = rq_parent_task_id rq,
      task_skill_name = rq_skill_name rq, task_status_of = TQueued, task_priority = rq_priority rq,
      task_attempt = 0, task_max_attempts = rq_max_attempts rq,
      task_idempotency_key = rq_idempotency_key rq, task_leased_until = None, task_worker_id = None,
      task_input_data = rq_input_data rq, task_output_data = [], task_error_message = None,
      task_scheduled_for = (case rq_scheduled_for rq of Some w \<Rightarrow> w | None \<Rightarrow> env_now e),
      task_started_at = None, task_completed_at = None\<rparr>"

definition same_key :: "uuid \<Rightarrow> string \<Rightarrow> task \<Rightarrow> bool" where
  "same_key tenant k t \<longleftrightarrow> task_tenant_id t = tenant \<and> task_idempotency_key t = Some k"

definition insert_task :: "env \<Rightarrow> enqueue_request \<Rightarrow> db \<Rightarrow> task \<times> db" where
  "insert_task e rq s =
     (let (i, s1) = fresh_uuid s; t = new_task e rq i in (t, s1\<lparr>tasks := tasks s1 @ [t]\<rparr>))"

text \<open>
  \<^verbatim>\<open>enqueue_task\<close>: the table's check constraint on the priority, then the insert; a conflict on
  (tenant, key) inserts nothing and returns the row that is already there.
\<close>

definition enqueue_task :: "env \<Rightarrow> enqueue_request \<Rightarrow> db \<Rightarrow> (task \<times> db) res" where
  "enqueue_task e rq s =
     (if rq_priority rq < 1 \<or> 10 < rq_priority rq then Inl IntegrityError
      else case rq_idempotency_key rq of
        None \<Rightarrow> Inr (insert_task e rq s)
      | Some k \<Rightarrow>
          (case filter (same_key (rq_tenant_id rq) k) (tasks s) of
             [] \<Rightarrow> Inr (insert_task e rq s)
           | [t] \<Rightarrow> Inr (t, s)
           | _ \<Rightarrow> Inl MultipleResultsFound))"

text \<open>
  \<^verbatim>\<open>claim_next\<close>: ready rows that no other transaction has locked (\<^verbatim>\<open>SKIP LOCKED\<close>), highest priority
  first, then earliest. Among equals the row that comes first in the table.
\<close>

definition claimable :: "task_status \<Rightarrow> bool" where
  "claimable st \<longleftrightarrow> st = TQueued \<or> st = TAwaitingRetry"

definition ready :: "instant \<Rightarrow> uuid set \<Rightarrow> task \<Rightarrow> bool" where
  "ready now locked t \<longleftrightarrow>
     claimable (task_status_of t) \<and> task_scheduled_for t \<le> now \<and> task_id t \<notin> locked"

definition before :: "task \<Rightarrow> task \<Rightarrow> bool" where
  "before t u \<longleftrightarrow> task_priority t > task_priority u
     \<or> task_priority t = task_priority u \<and> task_scheduled_for t < task_scheduled_for u"

fun first_of :: "task list \<Rightarrow> task option" where
  "first_of [] = None"
| "first_of (t # ts) =
     (case first_of ts of None \<Rightarrow> Some t | Some u \<Rightarrow> if before u t then Some u else Some t)"

definition claimed :: "env \<Rightarrow> string \<Rightarrow> int \<Rightarrow> task \<Rightarrow> task" where
  "claimed e worker lease_seconds t =
     t\<lparr>task_status_of := TRunning, task_worker_id := Some worker,
       task_leased_until := Some (env_now e + seconds lease_seconds),
       task_started_at := Some (env_now e), task_attempt := task_attempt t + 1,
       task_error_message := None\<rparr>"

definition claim_next ::
  "env \<Rightarrow> string \<Rightarrow> int \<Rightarrow> uuid set \<Rightarrow> db \<Rightarrow> task option \<times> db" where
  "claim_next e worker lease_seconds locked s =
     (case first_of (filter (ready (env_now e) locked) (tasks s)) of
        None \<Rightarrow> (None, s)
      | Some t \<Rightarrow> (Some (claimed e worker lease_seconds t),
                  modify_task (task_id t) (claimed e worker lease_seconds) s))"

definition completed :: "env \<Rightarrow> dict \<Rightarrow> task \<Rightarrow> task" where
  "completed e output t =
     t\<lparr>task_status_of := TSucceeded, task_output_data := output, task_completed_at := Some (env_now e),
       task_leased_until := None, task_worker_id := None, task_error_message := None\<rparr>"

definition complete :: "env \<Rightarrow> uuid \<Rightarrow> dict \<Rightarrow> db \<Rightarrow> db" where
  "complete e i output s = modify_task i (completed e output) s"

definition failed_for_good :: "env \<Rightarrow> string \<Rightarrow> task \<Rightarrow> task" where
  "failed_for_good e err t =
     t\<lparr>task_status_of := TFailed, task_error_message := Some err, task_completed_at := Some (env_now e),
       task_leased_until := None, task_worker_id := None\<rparr>"

definition retry_later :: "env \<Rightarrow> string \<Rightarrow> duration \<Rightarrow> task \<Rightarrow> task" where
  "retry_later e err delay t =
     t\<lparr>task_status_of := TAwaitingRetry, task_error_message := Some err,
       task_scheduled_for := env_now e + delay, task_leased_until := None, task_worker_id := None\<rparr>"

text \<open>\<^verbatim>\<open>fail\<close>; the name is taken by HOL.\<close>

definition fail_task :: "env \<Rightarrow> rat \<Rightarrow> uuid \<Rightarrow> string \<Rightarrow> bool \<Rightarrow> db \<Rightarrow> (task \<times> db) res" where
  "fail_task e draw i err permanent s =
     (case get_task i s of
        None \<Rightarrow> Inl AssertionError
      | Some t \<Rightarrow>
          let upd = (if permanent \<or> task_attempt t \<ge> task_max_attempts t then failed_for_good e err
                     else retry_later e err (compute_next_attempt_delay draw (task_attempt t)))
          in Inr (upd t, modify_task i upd s))"

definition lease_expired :: "instant \<Rightarrow> task \<Rightarrow> bool" where
  "lease_expired now t \<longleftrightarrow> task_status_of t = TRunning
     \<and> (case task_leased_until t of None \<Rightarrow> False | Some u \<Rightarrow> u < now)"

definition released :: "task \<Rightarrow> task" where
  "released t = t\<lparr>task_status_of := TAwaitingRetry, task_leased_until := None, task_worker_id := None\<rparr>"

definition reap_expired_leases :: "env \<Rightarrow> db \<Rightarrow> nat \<times> db" where
  "reap_expired_leases e s =
     (length (filter (lease_expired (env_now e)) (tasks s)),
      s\<lparr>tasks := update_where (lease_expired (env_now e)) released (tasks s)\<rparr>)"

definition cancelled :: "env \<Rightarrow> task \<Rightarrow> task" where
  "cancelled e t = t\<lparr>task_status_of := TCancelled, task_completed_at := Some (env_now e),
     task_leased_until := None, task_worker_id := None\<rparr>"

definition cancellable :: "uuid \<Rightarrow> task \<Rightarrow> bool" where
  "cancellable c t \<longleftrightarrow> task_campaign_id t = Some c \<and> claimable (task_status_of t)"

definition cancel_queued_for_campaign :: "env \<Rightarrow> uuid \<Rightarrow> db \<Rightarrow> nat \<times> db" where
  "cancel_queued_for_campaign e c s =
     (length (filter (cancellable c) (tasks s)),
      s\<lparr>tasks := update_where (cancellable c) (cancelled e) (tasks s)\<rparr>)"

lemmas task_updates = claimed_def completed_def failed_for_good_def retry_later_def released_def
  cancelled_def

lemma task_updates_keep [simp]:
  "task_id (claimed e w l t) = task_id t" "task_id (completed e out t) = task_id t"
  "task_id (failed_for_good e err t) = task_id t" "task_id (retry_later e err d t) = task_id t"
  "task_id (released t) = task_id t" "task_id (cancelled e t) = task_id t"
  by (simp_all add: task_updates)

lemma same_key_updates [simp]:
  "same_key ten k (claimed e w l t) = same_key ten k t"
  "same_key ten k (completed e out t) = same_key ten k t"
  "same_key ten k (failed_for_good e err t) = same_key ten k t"
  "same_key ten k (retry_later e err d t) = same_key ten k t"
  "same_key ten k (released t) = same_key ten k t"
  "same_key ten k (cancelled e t) = same_key ten k t"
  by (simp_all add: task_updates same_key_def)

section \<open>The invariant and the step relation\<close>

text \<open>
  A row is consistent when it is running exactly while it holds a lease and a worker, its attempt
  counter counts its claims, and a finished row has its completion time. The table moreover has
  unique identifiers and at most one row per (tenant, idempotency key): the partial unique index.
\<close>

definition task_ok :: "task \<Rightarrow> bool" where
  "task_ok t \<longleftrightarrow> (task_status_of t = TRunning \<longleftrightarrow> task_leased_until t \<noteq> None)
     \<and> (task_leased_until t = None \<longleftrightarrow> task_worker_id t = None)
     \<and> 0 \<le> task_attempt t \<and> (task_status_of t = TRunning \<longrightarrow> 1 \<le> task_attempt t)
     \<and> (task_status_of t \<in> {TSucceeded, TFailed, TCancelled} \<longrightarrow> task_completed_at t \<noteq> None)"

definition queue_inv :: "db \<Rightarrow> bool" where
  "queue_inv s \<longleftrightarrow> distinct (map task_id (tasks s))
     \<and> (\<forall>ten k. length (filter (same_key ten k) (tasks s)) \<le> 1)
     \<and> (\<forall>t\<in>set (tasks s). task_ok t)"

datatype queue_op =
    OpEnqueue enqueue_request
  | OpClaim string int "uuid set"
  | OpComplete uuid dict
  | OpFail uuid string bool rat
  | OpReap
  | OpCancel uuid

text \<open>
  One committed transaction on the queue, labelled with its environment. The identifier generator
  delivers an unused identifier.
\<close>

inductive queue_step :: "queue_op \<times> env \<Rightarrow> db \<Rightarrow> db \<Rightarrow> bool" where
  step_enqueue: "enqueue_task e rq s = Inr (t, s') \<Longrightarrow> fst (fresh_uuid s) \<notin> task_id ` set (tasks s)
     \<Longrightarrow> queue_step (OpEnqueue rq, e) s s'"
| step_claim: "claim_next e w l locked s = (r, s') \<Longrightarrow> queue_step (OpClaim w l locked, e) s s'"
| step_complete: "queue_step (OpComplete i out, e) s (complete e i out s)"
| step_fail: "fail_task e draw i err perm s = Inr (t, s') \<Longrightarrow> queue_step (OpFail i err perm draw, e) s s'"
| step_reap: "reap_expired_leases e s = (n, s') \<Longrightarrow> queue_step (OpReap, e) s s'"
| step_cancel: "cancel_queued_for_campaign e c s = (n, s') \<Longrightarrow> queue_step (OpCancel c, e) s s'"

lemma queue_inv_update_where:
  assumes "queue_inv s"
    and "\<And>t. task_id (f t) = task_id t" "\<And>ten k t. same_key ten k (f t) = same_key ten k t"
    and "\<And>t. t \<in> set (tasks s) \<Longrightarrow> P t \<Longrightarrow> task_ok t \<Longrightarrow> task_ok (f t)"
  shows "queue_inv (s\<lparr>tasks := update_where P f (tasks s)\<rparr>)"
  using assms
  by (auto simp: queue_inv_def map_update_where length_filter_update_where set_update_where)

lemma queue_inv_modify_task:
  assumes "queue_inv s"
    and "\<And>t. task_id (f t) = task_id t" "\<And>ten k t. same_key ten k (f t) = same_key ten k t"
    and "\<And>t. task_ok t \<Longrightarrow> task_ok (f t)"
  shows "queue_inv (modify_task i f s)"
  unfolding modify_task_def by (rule queue_inv_update_where) (use assms in auto)

lemma task_ok_updates:
  "task_ok t \<Longrightarrow> task_ok (claimed e w l t)"
  "task_ok t \<Longrightarrow> task_ok (completed e out t)"
  "task_ok t \<Longrightarrow> task_ok (failed_for_good e err t)"
  "task_ok t \<Longrightarrow> task_ok (retry_later e err d t)"
  "task_ok t \<Longrightarrow> task_ok (released t)"
  "task_ok t \<Longrightarrow> task_ok (cancelled e t)"
  by (auto simp: task_ok_def task_updates)

lemma tasks_insert_task:
  "insert_task e rq s = (t, s') \<Longrightarrow>
     tasks s' = tasks s @ [t] \<and> t = new_task e rq (fst (fresh_uuid s))"
  by (auto simp: insert_task_def fresh_uuid_def Let_def)

lemma insert_task_frame:
  "insert_task e rq s = (t, s') \<Longrightarrow> assets s' = assets s \<and> campaigns s' = campaigns s
     \<and> touchpoints s' = touchpoints s \<and> attempts s' = attempts s \<and> audit_log s' = audit_log s
     \<and> reports s' = reports s \<and> ab_tests s' = ab_tests s \<and> agents s' = agents s"
  by (auto simp: insert_task_def fresh_uuid_def Let_def)

lemma insert_task_snd [simp]:
  "assets (snd (insert_task e rq s)) = assets s" "campaigns (snd (insert_task e rq s)) = campaigns s"
  "tasks (snd (insert_task e rq s)) = tasks s @ [new_task e rq (fst (fresh_uuid s))]"
  "touchpoints (snd (insert_task e rq s)) = touchpoints s" "attempts (snd (insert_task e rq s)) = attempts s"
  "audit_log (snd (insert_task e rq s)) = audit_log s" "reports (snd (insert_task e rq s)) = reports s"
  "ab_tests (snd (insert_task e rq s)) = ab_tests s"
  by (simp_all add: insert_task_def fresh_uuid_def Let_def)

lemma enqueue_without_key:
  "rq_idempotency_key rq = None \<Longrightarrow> 1 \<le> rq_priority rq \<Longrightarrow> rq_priority rq \<le> 10 \<Longrightarrow>
     enqueue_task e rq s = Inr (insert_task e rq s)"
  by (simp add: enqueue_task_def)

lemma queue_inv_insert_task:
  assumes "queue_inv s" "insert_task e rq s = (t, s')" "fst (fresh_uuid s) \<notin> task_id ` set (tasks s)"
    and "\<And>k. rq_idempotency_key rq = Some k \<Longrightarrow> filter (same_key (rq_tenant_id rq) k) (tasks s) = []"
  shows "queue_inv s'"
proof -
  have t: "tasks s' = tasks s @ [t]" "task_id t = fst (fresh_uuid s)" "task_ok t"
    "\<And>ten k. same_key ten k t \<longleftrightarrow> ten = rq_tenant_id rq \<and> rq_idempotency_key rq = Some k"
    using tasks_insert_task [OF assms(2)] by (auto simp: new_task_def task_ok_def same_key_def)
  show ?thesis using assms(1,3,4) by (auto simp: queue_inv_def t)
qed

lemma queue_inv_enqueue_task:
  assumes "queue_inv s" "enqueue_task e rq s = Inr (t, s')" "fst (fresh_uuid s) \<notin> task_id ` set (tasks s)"
  shows "queue_inv s'"
  using assms
  by (auto simp: enqueue_task_def split: if_splits option.splits list.splits
      intro!: queue_inv_insert_task [OF assms(1) _ assms(3), of e rq t])

lemma queue_step_inv: "queue_step a s s' \<Longrightarrow> queue_inv s \<Longrightarrow> queue_inv s'"
proof (induction rule: queue_step.induct)
  case (step_enqueue e rq s t s')
  then show ?case by (blast intro: queue_inv_enqueue_task)
next
  case (step_claim e w l locked s r s')
  then show ?case
    by (auto simp: claim_next_def split: option.splits
        intro!: queue_inv_modify_task task_ok_updates)
next
  case (step_complete i out e s)
  then show ?case by (simp add: complete_def queue_inv_modify_task task_ok_updates)
next
  case (step_fail e draw i err perm s t s')
  then show ?case
    by (auto simp: fail_task_def Let_def split: option.splits if_splits
        intro!: queue_inv_modify_task task_ok_updates)
next
  case (step_reap e s n s')
  then show ?case
    by (auto simp: reap_expired_leases_def intro!: queue_inv_update_where task_ok_updates)
next
  case (step_cancel e c s n s')
  then show ?case
    by (auto simp: cancel_queued_for_campaign_def intro!: queue_inv_update_where task_ok_updates)
qed

interpretation queue_runs: invariant_steps queue_step queue_inv "\<lambda>_. True"
  by unfold_locales (rule queue_step_inv)

section \<open>Claiming\<close>

lemma first_of_None [simp]: "first_of ts = None \<longleftrightarrow> ts = []"
  by (cases ts) (auto split: option.splits)

lemma before_asym: "before t u \<Longrightarrow> \<not> before u t"
  by (auto simp: before_def)

lemma before_negtrans: "\<not> before v u \<Longrightarrow> \<not> before u t \<Longrightarrow> \<not> before v t"
  by (auto simp: before_def)

lemma first_of_Some:
  "first_of ts = Some t \<Longrightarrow> t \<in> set ts \<and> (\<forall>u\<in>set ts. \<not> before u t)"
proof (induction ts arbitrary: t)
  case (Cons x ts)
  show ?case
  proof (cases "first_of ts")
    case None
    with Cons.prems show ?thesis by (auto simp: before_def)
  next
    case (Some u)
    with Cons.IH have u: "u \<in> set ts" "\<forall>v\<in>set ts. \<not> before v u" by auto
    show ?thesis
    proof (cases "before u x")
      case True
      with Some Cons.prems have "t = u" by simp
      with u before_asym [OF True] show ?thesis by auto
    next
      case False
      with Some Cons.prems have "t = x" by simp
      moreover have "\<forall>v\<in>set ts. \<not> before v x"
        using u(2) before_negtrans [OF _ False] by blast
      moreover have "\<not> before x x" by (simp add: before_def)
      ultimately show ?thesis by simp
    qed
  qed
qed simp

lemma claim_next_Some:
  assumes "claim_next e w l locked s = (Some t, s')"
  obtains t0 where "t0 \<in> set (tasks s)" "ready (env_now e) locked t0" "t = claimed e w l t0"
    "\<forall>u\<in>set (tasks s). ready (env_now e) locked u \<longrightarrow> \<not> before u t0"
    "s' = modify_task (task_id t0) (claimed e w l) s"
proof -
  let ?c = "filter (ready (env_now e) locked) (tasks s)"
  from assms obtain t0 where t0: "first_of ?c = Some t0"
    by (cases "first_of ?c") (simp_all add: claim_next_def)
  with assms have eq: "t = claimed e w l t0" "s' = modify_task (task_id t0) (claimed e w l) s"
    by (simp_all add: claim_next_def)
  from first_of_Some [OF t0] have "t0 \<in> set ?c" "\<forall>u\<in>set ?c. \<not> before u t0" by blast+
  then show thesis by (intro that [of t0]) (auto simp: eq)
qed

lemma claim_next_None:
  "claim_next e w l locked s = (None, s') \<longleftrightarrow>
     s' = s \<and> (\<forall>t\<in>set (tasks s). \<not> ready (env_now e) locked t)"
proof (cases "first_of (filter (ready (env_now e) locked) (tasks s))")
  case None
  then show ?thesis by (auto simp: claim_next_def filter_empty_conv)
next
  case (Some t)
  with first_of_Some [OF Some] show ?thesis by (auto simp: claim_next_def)
qed

lemma ready_claimed [simp]: "\<not> ready now locked (claimed e w l t)"
  by (simp add: ready_def claimed_def claimable_def)

lemma ready_modify_claimed:
  assumes "u \<in> set (tasks (modify_task i (claimed e w l) s))" "ready now locked u"
  shows "u \<in> set (tasks s) \<and> task_id u \<noteq> i"
proof -
  from assms(1) have "u \<in> set (update_where (\<lambda>t. task_id t = i) (claimed e w l) (tasks s))"
    by (simp add: modify_task_def)
  then show ?thesis using assms(2) by (cases rule: in_update_whereE) auto
qed

text \<open>C4. Claiming hands out the best ready task: the row returned was queued or awaiting retry with
  its slot reached, no other ready row has a higher priority or the same priority and an earlier
  slot, and in the new state that row is running under the worker's lease with its attempt counted.
  Nothing is claimed exactly when no row is ready.\<close>

theorem claim_next_picks_best_ready:
  assumes inv: "queue_inv s"
  shows "claim_next e w l locked s = (None, s) \<and> (\<forall>u\<in>set (tasks s). \<not> ready (env_now e) locked u)
    \<or> (\<exists>t s'. claim_next e w l locked s = (Some t, s')
         \<and> (\<exists>t0\<in>set (tasks s). ready (env_now e) locked t0 \<and> t = claimed e w l t0
               \<and> (\<forall>u\<in>set (tasks s). ready (env_now e) locked u \<longrightarrow> \<not> before u t0))
         \<and> get_task (task_id t) s' = Some t \<and> queue_inv s')"
proof (cases "claim_next e w l locked s")
  case (Pair r s')
  show ?thesis
  proof (cases r)
    case None
    with Pair show ?thesis by (simp add: claim_next_None)
  next
    case (Some t)
    with Pair have claim: "claim_next e w l locked s = (Some t, s')" by simp
    then obtain t0 where t0: "t0 \<in> set (tasks s)" "ready (env_now e) locked t0" "t = claimed e w l t0"
        "\<forall>u\<in>set (tasks s). ready (env_now e) locked u \<longrightarrow> \<not> before u t0"
        "s' = modify_task (task_id t0) (claimed e w l) s"
      by (rule claim_next_Some)
    have "get_task (task_id t0) s = Some t0"
      using inv t0(1) by (auto simp: queue_inv_def get_task_def find_row_distinct)
    then have "get_task (task_id t) s' = Some t"
      by (simp add: t0(3,5) task_table.get_modify)
    moreover have "queue_inv s'"
      using queue_step_inv [OF step_claim [OF claim] inv] .
    ultimately show ?thesis using claim t0(1-4) by blast
  qed
qed

text \<open>No task is handed to two workers: two claims in a row return different tasks, whatever the
  workers, leases and lock sets.\<close>

theorem claims_are_exclusive:
  assumes "claim_next e w l locked s = (Some t, s1)" "claim_next e' w' l' locked' s1 = (Some t', s2)"
  shows "task_id t' \<noteq> task_id t"
proof -
  from assms(1) obtain t0 where t0: "t = claimed e w l t0" "s1 = modify_task (task_id t0) (claimed e w l) s"
    by (rule claim_next_Some)
  from assms(2) obtain u where "u \<in> set (tasks s1)" "ready (env_now e') locked' u" "t' = claimed e' w' l' u"
    by (rule claim_next_Some)
  with ready_modify_claimed [of u "task_id t0" e w l s] t0 show ?thesis by auto
qed

section \<open>Idempotent enqueueing\<close>

text \<open>Enqueueing twice under one idempotency key is enqueueing once: the second call changes
  nothing and returns the first call's row, even with other contents.\<close>

theorem enqueue_task_idempotent:
  assumes inv: "queue_inv s" and first: "enqueue_task e rq s = Inr (t, s1)"
    and key: "rq_idempotency_key rq = Some k"
    and again: "rq_idempotency_key rq' = Some k" "rq_tenant_id rq' = rq_tenant_id rq"
      "1 \<le> rq_priority rq'" "rq_priority rq' \<le> 10"
  shows "enqueue_task e' rq' s1 = Inr (t, s1)"
proof -
  have "length (filter (same_key (rq_tenant_id rq) k) (tasks s)) \<le> 1"
    using inv by (simp add: queue_inv_def)
  then have "filter (same_key (rq_tenant_id rq) k) (tasks s1) = [t]"
    using first key tasks_insert_task [of e rq s t s1]
    by (auto simp: enqueue_task_def same_key_def new_task_def split: if_splits list.splits)
  then show ?thesis using again by (simp add: enqueue_task_def)
qed

section \<open>Concrete instances\<close>

text \<open>A queue of two tasks, the second one more urgent, both due at instant 0.\<close>

definition two_requests :: "enqueue_request list" where
  "two_requests =
     [(request 1 2 ''distribution.dispatch_email'' [])\<lparr>rq_idempotency_key := Some ''k''\<rparr>,
      (request 1 2 ''content.generate_asset'' [])\<lparr>rq_priority := 8, rq_campaign_id := Some 7\<rparr>]"

definition two_task_db :: db where
  "two_task_db = fold (\<lambda>rq s. snd (insert_task (worker_env 0) rq s)) two_requests empty_db"

lemmas two_task_defs = two_task_db_def two_requests_def request_def insert_task_def fresh_uuid_def
  new_task_def Let_def

lemma queue_inv_two_task_db: "queue_inv two_task_db"
  by (simp add: two_task_defs queue_inv_def task_ok_def same_key_def)

theorem claim_next_picks_best_ready_witness:
  "queue_inv two_task_db
   \<and> (\<exists>t s'. claim_next (worker_env 5) ''w'' 300 {} two_task_db = (Some t, s') \<and> task_id t = 1001
        \<and> get_task (task_id t) s' = Some t \<and> queue_inv s')"
proof -
  have c: "claim_next (worker_env 5) ''w'' 300 {} two_task_db =
      (Some (claimed (worker_env 5) ''w'' 300 (tasks two_task_db ! 1)),
       modify_task 1001 (claimed (worker_env 5) ''w'' 300) two_task_db)"
    by (simp add: claim_next_def two_task_defs ready_def claimable_def before_def)
  have "task_id (tasks two_task_db ! 1) = 1001" by (simp add: two_task_defs)
  with claim_next_picks_best_ready [OF queue_inv_two_task_db, of "worker_env 5" "''w''" 300 "{}"] c
  show ?thesis using queue_inv_two_task_db by auto
qed

theorem claims_are_exclusive_witness:
  "\<exists>t t' s1 s2. claim_next (worker_env 5) ''w'' 300 {} two_task_db = (Some t, s1)
     \<and> claim_next (worker_env 6) ''v'' 300 {} s1 = (Some t', s2) \<and> task_id t' \<noteq> task_id t"
proof -
  let ?c1 = "claim_next (worker_env 5) ''w'' 300 {} two_task_db"
  let ?c2 = "claim_next (worker_env 6) ''v'' 300 {} (snd ?c1)"
  have "fst ?c1 \<noteq> None" "fst ?c2 \<noteq> None"
    by (simp_all add: claim_next_def two_task_defs ready_def claimable_def before_def modify_task_def
        claimed_def)
  then obtain t t' where "?c1 = (Some t, snd ?c1)" "?c2 = (Some t', snd ?c2)"
    by (metis option.exhaust prod.collapse)
  with claims_are_exclusive [OF this] show ?thesis by blast
qed

theorem enqueue_task_idempotent_witness:
  "\<exists>t s1. enqueue_task (worker_env 0) (hd two_requests) empty_db = Inr (t, s1)
     \<and> enqueue_task (worker_env 9) ((hd two_requests)\<lparr>rq_priority := 10\<rparr>) s1 = Inr (t, s1)"
proof -
  have inv: "queue_inv empty_db" by (simp add: queue_inv_def)
  obtain t s1 where e1: "enqueue_task (worker_env 0) (hd two_requests) empty_db = Inr (t, s1)"
    by (simp add: enqueue_task_def two_task_defs)
  have "enqueue_task (worker_env 9) ((hd two_requests)\<lparr>rq_priority := 10\<rparr>) s1 = Inr (t, s1)"
    by (rule enqueue_task_idempotent [OF inv e1, of "''k''"]) (simp_all add: two_task_defs)
  with e1 show ?thesis by blast
qed

section \<open>Runs of the queue\<close>

text \<open>C9. However workers, callers and the reaper interleave, the queue stays consistent: identifiers
  and idempotency keys stay unique, exactly the running tasks hold a lease and a worker, and a
  finished task has its completion time.\<close>

theorem queue_runs_keep_inv:
  assumes "steps queue_step s ops s'" "queue_inv s"
  shows "queue_inv s'"
  using queue_runs.steps_inv [OF assms(1) _ assms(2)] by (simp add: list_all_def)

definition claim_then_reap :: "(queue_op \<times> env) list" where
  "claim_then_reap = [(OpClaim ''w'' 300 {}, worker_env 5), (OpReap, worker_env (seconds 400))]"

lemma steps_claim_then_reap:
  "steps queue_step s claim_then_reap
     (snd (reap_expired_leases (worker_env (seconds 400)) (snd (claim_next (worker_env 5) ''w'' 300 {} s))))"
  unfolding claim_then_reap_def
  by (rule steps_cons, rule step_claim, rule prod.collapse [symmetric],
      rule steps_cons, rule step_reap, rule prod.collapse [symmetric], rule steps_nil)

theorem queue_runs_keep_inv_witness:
  "\<exists>s'. steps queue_step two_task_db claim_then_reap s' \<and> queue_inv s'"
  using queue_runs_keep_inv [OF steps_claim_then_reap queue_inv_two_task_db] steps_claim_then_reap by blast

section \<open>The retry discipline\<close>

text \<open>As long as no lease is reaped, a task that can still be claimed has attempts left.\<close>

definition retry_ok :: "task \<Rightarrow> bool" where
  "retry_ok t \<longleftrightarrow> task_attempt t \<le> task_max_attempts t
     \<and> (claimable (task_status_of t) \<longrightarrow> task_attempt t < task_max_attempts t)"

definition retries_inv :: "db \<Rightarrow> bool" where
  "retries_inv s \<longleftrightarrow> (\<forall>t\<in>set (tasks s). retry_ok t)"

definition no_reap :: "queue_op \<times> env \<Rightarrow> bool" where
  "no_reap a = (case fst a of OpReap \<Rightarrow> False | OpEnqueue rq \<Rightarrow> 1 \<le> rq_max_attempts rq | _ \<Rightarrow> True)"

lemma retry_ok_updates:
  "retry_ok t \<Longrightarrow> retry_ok (completed e out t)"
  "retry_ok t \<Longrightarrow> retry_ok (failed_for_good e err t)"
  "retry_ok t \<Longrightarrow> task_attempt t < task_max_attempts t \<Longrightarrow> retry_ok (retry_later e err d t)"
  "retry_ok t \<Longrightarrow> retry_ok (cancelled e t)"
  "retry_ok t \<Longrightarrow> claimable (task_status_of t) \<Longrightarrow> retry_ok (claimed e w l t)"
  by (auto simp: retry_ok_def task_updates claimable_def)

lemma retries_inv_update_where:
  assumes "retries_inv s" "\<And>t. t \<in> set (tasks s) \<Longrightarrow> P t \<Longrightarrow> retry_ok t \<Longrightarrow> retry_ok (f t)"
  shows "retries_inv (s\<lparr>tasks := update_where P f (tasks s)\<rparr>)"
  using assms by (auto simp: retries_inv_def set_update_where)

lemma retries_inv_modify_task:
  assumes "retries_inv s" "\<And>t. t \<in> set (tasks s) \<Longrightarrow> task_id t = i \<Longrightarrow> retry_ok t \<Longrightarrow> retry_ok (f t)"
  shows "retries_inv (modify_task i f s)"
  unfolding modify_task_def by (rule retries_inv_update_where) (use assms in auto)

lemma get_task_unique: "queue_inv s \<Longrightarrow> t \<in> set (tasks s) \<Longrightarrow> get_task (task_id t) s = Some t"
  by (simp add: queue_inv_def get_task_def find_row_distinct)

lemma retries_inv_claim:
  assumes "queue_inv s" "retries_inv s" "claim_next e w l locked s = (r, s')"
  shows "retries_inv s'"
proof (cases r)
  case None
  with assms show ?thesis by (simp add: claim_next_None)
next
  case (Some t)
  from assms(3) have "claim_next e w l locked s = (Some t, s')" by (simp only: Some)
  then obtain t0 where
    t0: "t0 \<in> set (tasks s)" "ready (env_now e) locked t0" "s' = modify_task (task_id t0) (claimed e w l) s"
    by (rule claim_next_Some)
  then have cl: "claimable (task_status_of t0)" by (simp add: ready_def)
  show ?thesis
    unfolding t0(3)
  proof (rule retries_inv_modify_task [OF assms(2)])
    fix u assume u: "u \<in> set (tasks s)" "task_id u = task_id t0" "retry_ok u"
    have "Some u = Some t0"
      using get_task_unique [OF assms(1) u(1)] get_task_unique [OF assms(1) t0(1)] unfolding u(2) by simp
    with u(3) cl show "retry_ok (claimed e w l u)" by (simp add: retry_ok_updates)
  qed
qed

lemma retries_inv_fail:
  assumes "queue_inv s" "retries_inv s" "fail_task e draw i err perm s = Inr (t, s')"
  shows "retries_inv s'"
proof -
  obtain u where u: "get_task i s = Some u" using assms(3) by (auto simp: fail_task_def split: option.splits)
  have "v = u" if "v \<in> set (tasks s)" "task_id v = i" for v
    using get_task_unique [OF assms(1) that(1)] that(2) u by simp
  then show ?thesis
    using assms(2,3) u
    by (auto simp: fail_task_def Let_def split: if_splits
        intro!: retries_inv_modify_task retry_ok_updates)
qed

lemma retries_step:
  "queue_step a s s' \<Longrightarrow> no_reap a \<Longrightarrow> queue_inv s \<and> retries_inv s \<Longrightarrow> queue_inv s' \<and> retries_inv s'"
proof (intro conjI)
  assume st: "queue_step a s s'" and a: "no_reap a" and s: "queue_inv s \<and> retries_inv s"
  then show "queue_inv s'" by (blast intro: queue_step_inv)
  from st a s show "retries_inv s'"
  proof (induction rule: queue_step.induct)
    case (step_enqueue e rq s t s')
    then show ?case
      by (auto simp: enqueue_task_def no_reap_def retries_inv_def retry_ok_def new_task_def
          dest!: tasks_insert_task split: if_splits option.splits list.splits)
  next
    case (step_claim e w l locked s r s')
    then show ?case by (blast intro: retries_inv_claim)
  next
    case (step_complete i out e s)
    then show ?case by (auto simp: complete_def intro!: retries_inv_modify_task retry_ok_updates)
  next
    case (step_fail e draw i err perm s t s')
    then show ?case by (blast intro: retries_inv_fail)
  next
    case (step_reap e s n s')
    then show ?case by (simp add: no_reap_def)
  next
    case (step_cancel e c s n s')
    then show ?case
      by (auto simp: cancel_queued_for_campaign_def intro!: retries_inv_update_where retry_ok_updates)
  qed
qed

interpretation crash_free_runs:
  invariant_steps queue_step "\<lambda>s. queue_inv s \<and> retries_inv s" no_reap
  by unfold_locales (rule retries_step)

text \<open>In a run without crashed workers (no lease is reaped), starting from a consistent queue whose
  claimable tasks have attempts left, no task is ever claimed more than \<open>max_attempts\<close> times.\<close>

theorem attempts_bounded_without_reap:
  assumes "steps queue_step s ops s'" "queue_inv s" "retries_inv s" "list_all no_reap ops"
  shows "\<forall>t\<in>set (tasks s'). task_attempt t \<le> task_max_attempts t"
  using crash_free_runs.steps_inv [OF assms(1,4)] assms(2,3)
  by (auto simp: retries_inv_def retry_ok_def)

theorem attempts_bounded_without_reap_witness:
  "\<exists>s'. steps queue_step two_task_db [(OpClaim ''w'' 300 {}, worker_env 5)] s'
     \<and> s' \<noteq> two_task_db \<and> (\<forall>t\<in>set (tasks s'). task_attempt t \<le> task_max_attempts t)"
proof -
  let ?s' = "snd (claim_next (worker_env 5) ''w'' 300 {} two_task_db)"
  have st: "steps queue_step two_task_db [(OpClaim ''w'' 300 {}, worker_env 5)] ?s'"
    by (rule steps_cons, rule step_claim, rule prod.collapse [symmetric], rule steps_nil)
  have "retries_inv two_task_db"
    by (simp add: retries_inv_def retry_ok_def two_task_defs)
  with attempts_bounded_without_reap [OF st queue_inv_two_task_db]
  have "\<forall>t\<in>set (tasks ?s'). task_attempt t \<le> task_max_attempts t" by (simp add: no_reap_def)
  moreover have "map task_attempt (tasks ?s') \<noteq> map task_attempt (tasks two_task_db)"
    by (simp add: claim_next_def two_task_defs ready_def claimable_def before_def modify_task_def claimed_def)
  ultimately show ?thesis using st by metis
qed

text \<open>A single-task queue: one round of a crash (the worker claims and dies, the reaper releases) leaves
  the task claimable with one more attempt, whatever its \<open>max_attempts\<close>.\<close>

lemma crash_round:
  assumes "tasks s = [t]" "claimable (task_status_of t)" "task_scheduled_for t \<le> 5"
  shows "\<exists>s' t'. steps queue_step s claim_then_reap s' \<and> tasks s' = [t'] \<and> claimable (task_status_of t')
    \<and> task_scheduled_for t' \<le> 5 \<and> task_attempt t' = task_attempt t + 1
    \<and> task_max_attempts t' = task_max_attempts t"
proof -
  let ?s' = "snd (reap_expired_leases (worker_env (seconds 400)) (snd (claim_next (worker_env 5) ''w'' 300 {} s)))"
  have "tasks ?s' = [released (claimed (worker_env 5) ''w'' 300 t)]"
    using assms by (simp add: claim_next_def ready_def reap_expired_leases_def lease_expired_def
        modify_task_def claimed_def seconds_def)
  then show ?thesis using steps_claim_then_reap [of s] assms
    by (intro exI [of _ ?s'] exI [of _ "released (claimed (worker_env 5) ''w'' 300 t)"])
      (simp add: released_def claimed_def claimable_def)
qed

text \<open>C24. The reaper does not look at \<open>max_attempts\<close>: a task whose workers keep dying is claimed again
  without bound. For every number of attempts there is a run of claims and reaps after which the
  task, allowed three attempts, has been claimed that many times and is still claimable.\<close>

theorem reaper_ignores_max_attempts:
  "\<exists>ops s' t. steps queue_step (snd (insert_task (worker_env 0) (hd two_requests) empty_db)) ops s'
     \<and> tasks s' = [t] \<and> task_attempt t = int n \<and> task_max_attempts t = 3
     \<and> claimable (task_status_of t)"
proof -
  let ?s = "snd (insert_task (worker_env 0) (hd two_requests) empty_db)"
  have "\<exists>ops s' t. steps queue_step ?s ops s' \<and> tasks s' = [t] \<and> task_attempt t = int n
    \<and> task_max_attempts t = 3 \<and> claimable (task_status_of t) \<and> task_scheduled_for t \<le> 5"
  proof (induction n)
    case 0
    have "tasks ?s = [new_task (worker_env 0) (hd two_requests) 1000]"
      by (simp add: two_task_defs)
    then show ?case
      by (intro exI [of _ "[]"] exI [of _ ?s]) (simp add: steps_nil two_task_defs claimable_def)
  next
    case (Suc n)
    then obtain ops s' t where run: "steps queue_step ?s ops s'" "tasks s' = [t]" "task_attempt t = int n"
      "task_max_attempts t = 3" "claimable (task_status_of t)" "task_scheduled_for t \<le> 5" by blast
    from crash_round [OF run(2,5,6)] obtain s'' t' where
      "steps queue_step s' claim_then_reap s''" "tasks s'' = [t']" "claimable (task_status_of t')"
      "task_scheduled_for t' \<le> 5" "task_attempt t' = task_attempt t + 1"
      "task_max_attempts t' = task_max_attempts t" by blast
    with run show ?case
      by (intro exI [of _ "ops @ claim_then_reap"] exI [of _ s''] exI [of _ t'])
        (auto intro: steps_append)
  qed
  then show ?thesis by blast
qed

section \<open>Cancelling a campaign's tasks\<close>

lemma length_filter_cancelled:
  "length (filter (\<lambda>t. task_status_of t = TCancelled) (update_where (cancellable c) (cancelled e) ts))
     = length (filter (\<lambda>t. task_status_of t = TCancelled) ts) + length (filter (cancellable c) ts)"
  by (induction ts) (auto simp: cancellable_def claimable_def cancelled_def)

lemma cancelled_not_claimed:
  assumes "tasks s' = update_where (cancellable c) (cancelled e) ts"
    and "claim_next e' w l locked s' = (Some t, s'')"
  shows "task_campaign_id t \<noteq> Some c"
proof -
  from assms(2) obtain t0 where t0: "t0 \<in> set (tasks s')" "ready (env_now e') locked t0" "t = claimed e' w l t0"
    by (rule claim_next_Some)
  from t0(1)[unfolded assms(1)] t0(2) show ?thesis
    by (cases rule: in_update_whereE)
      (auto simp: ready_def cancellable_def claimable_def cancelled_def claimed_def t0(3))
qed

text \<open>Cancelling a campaign's queued tasks stops the campaign and nothing else: afterwards no claim,
  at any time, returns a task of the campaign; running tasks and the tasks of other campaigns are
  the same rows as before; the number reported is the number of rows that became cancelled.\<close>

theorem cancel_stops_campaign_only:
  assumes "cancel_queued_for_campaign e c s = (n, s')"
  shows "(\<forall>e' w l locked t s''. claim_next e' w l locked s' = (Some t, s'') \<longrightarrow> task_campaign_id t \<noteq> Some c)
    \<and> filter (\<lambda>t. task_status_of t = TRunning \<or> task_campaign_id t \<noteq> Some c) (tasks s')
       = filter (\<lambda>t. task_status_of t = TRunning \<or> task_campaign_id t \<noteq> Some c) (tasks s)
    \<and> length (filter (\<lambda>t. task_status_of t = TCancelled) (tasks s'))
       = length (filter (\<lambda>t. task_status_of t = TCancelled) (tasks s)) + n"
proof -
  have tasks: "tasks s' = update_where (cancellable c) (cancelled e) (tasks s)"
    and n: "n = length (filter (cancellable c) (tasks s))"
    using assms by (auto simp: cancel_queued_for_campaign_def)
  have "task_campaign_id t \<noteq> Some c" if "claim_next e' w l locked s' = (Some t, s'')"
    for e' w l locked t s''
    using cancelled_not_claimed [OF tasks that] .
  moreover have "filter (\<lambda>t. task_status_of t = TRunning \<or> task_campaign_id t \<noteq> Some c) (tasks s')
       = filter (\<lambda>t. task_status_of t = TRunning \<or> task_campaign_id t \<noteq> Some c) (tasks s)"
    unfolding tasks
    by (rule filter_update_where_out) (auto simp: cancellable_def claimable_def cancelled_def)
  moreover have "length (filter (\<lambda>t. task_status_of t = TCancelled) (tasks s'))
       = length (filter (\<lambda>t. task_status_of t = TCancelled) (tasks s)) + n"
    unfolding tasks n by (rule length_filter_cancelled)
  ultimately show ?thesis by blast
qed

theorem cancel_stops_campaign_only_witness:
  "\<exists>s'. cancel_queued_for_campaign (worker_env 3) 7 two_task_db = (1, s')
     \<and> (\<forall>e' w l locked t s''. claim_next e' w l locked s' = (Some t, s'') \<longrightarrow> task_campaign_id t \<noteq> Some 7)
     \<and> length (filter (\<lambda>t. task_status_of t = TCancelled) (tasks s')) = 1"
proof -
  let ?r = "cancel_queued_for_campaign (worker_env 3) 7 two_task_db"
  have r: "?r = (1, snd ?r)"
    by (simp add: cancel_queued_for_campaign_def two_task_defs cancellable_def claimable_def)
  have "length (filter (\<lambda>t. task_status_of t = TCancelled) (tasks two_task_db)) = 0"
    by (simp add: two_task_defs)
  with cancel_stops_campaign_only [OF r] r show ?thesis by (metis add_0)
qed

section \<open>Backoff bounds\<close>

text \<open>The retry delay doubles per attempt from 30 s and is capped at an hour; the jitter adds at most
  a tenth. So a failed attempt never retries at once and never waits longer than 66 minutes.\<close>

theorem backoff_bounds:
  assumes "0 \<le> draw" "draw \<le> 1" "0 \<le> attempt"
  shows "seconds (min (30 * 2 ^ nat attempt) 3600) \<le> compute_next_attempt_delay draw attempt
    \<and> 10 * compute_next_attempt_delay draw attempt \<le> 11 * seconds (min (30 * 2 ^ nat attempt) 3600)"
proof -
  let ?b = "min (30 * 2 ^ nat attempt) 3600 :: int"
  have base: "min (backoff_base_seconds * 2 ^ nat attempt) backoff_max_seconds = (of_int ?b :: rat)"
    by (simp add: backoff_base_seconds_def backoff_max_seconds_def min_def)
      (metis (mono_tags) of_int_le_iff of_int_mult of_int_numeral of_int_power)
  have b: "0 \<le> ?b" by simp
  let ?q = "(of_int ?b + draw * (of_int ?b / 10)) * of_int usec_per_sec :: rat"
  have d: "compute_next_attempt_delay draw attempt = round_half_even ?q"
    by (simp add: compute_next_attempt_delay_def Let_def base backoff_jitter_fraction_def mult.commute)
  have lo: "of_int (?b * usec_per_sec) \<le> ?q" using assms(1) b by (simp add: field_simps)
  have hi: "?q \<le> of_int (?b * 1100000)"
    using mult_right_mono [OF assms(2), of "of_int ?b"] b by (simp add: field_simps)
  from round_half_even_mono [OF lo] round_half_even_mono [OF hi]
  have "?b * usec_per_sec \<le> round_half_even ?q" "round_half_even ?q \<le> ?b * 1100000"
    by (simp_all only: round_half_even_of_int)
  then show ?thesis by (simp add: d seconds_def)
qed

theorem backoff_bounds_witness:
  "seconds 240 \<le> compute_next_attempt_delay (1/2) 3 \<and> 10 * compute_next_attempt_delay (1/2) 3 \<le> 11 * seconds 240"
  using backoff_bounds [of "1/2" 3] by simp

end
