(* ===== verification/Py_Values.thy ===== *)
theory Py_Values
  imports Prelude
begin

text \<open>
  Conversions of dynamically typed values the sources rely on: \<^verbatim>\<open>str(x)\<close>, \<^verbatim>\<open>int(x)\<close>, \<^verbatim>\<open>Decimal(str(x))\<close>,
  iteration over a JSON value and list slicing. \<open>None\<close> stands for the exception the conversion raises.
\<close>

section \<open>Numbers as text\<close>

definition is_digit :: "char \<Rightarrow> bool" where
  "is_digit c = (let n = of_char c :: nat in 48 \<le> n \<and> n \<le> 57)"

definition digit_val :: "char \<Rightarrow> nat" where
  "digit_val c = of_char c - 48"

definition nat_of_digits :: "string \<Rightarrow> nat" where
  "nat_of_digits cs = foldl (\<lambda>acc c. 10 * acc + digit_val c) 0 (filter is_digit cs)"

text \<open>Digits with single underscores between them; the flag says whether the previous character was
  a digit.\<close>

fun digit_groups :: "bool \<Rightarrow> string \<Rightarrow> bool" where
  "digit_groups p [] = p"
| "digit_groups p (c # cs) =
     (if is_digit c then digit_groups True cs
      else c = CHR ''_'' \<and> p \<and> digit_groups False cs)"

fun split_sign :: "string \<Rightarrow> bool \<times> string" where
  "split_sign (c # cs) = (if c = CHR ''-'' then (True, cs) else if c = CHR ''+'' then (False, cs) else (False, c # cs))"
| "split_sign [] = (False, [])"

text \<open>\<^verbatim>\<open>int(s)\<close> of a string.\<close>

definition int_of_str :: "string \<Rightarrow> int option" where
  "int_of_str s = (let (neg, b) = split_sign (py_strip s)
     in if digit_groups False b then Some ((if neg then -1 else 1) * int (nat_of_digits b)) else None)"

text \<open>\<^verbatim>\<open>Decimal(s)\<close>: a finite number, an infinity or a NaN.\<close>

datatype decimal = DNum rat | DInf bool | DNaN  \<comment> \<open>\<open>DInf True\<close> is minus infinity\<close>

fun exponent_part :: "string \<Rightarrow> int option" where
  "exponent_part [] = Some 0"
| "exponent_part (c # cs) =
     (if lower_char c = CHR ''e'' then
        (let (neg, b) = split_sign cs
         in if b \<noteq> [] \<and> list_all is_digit b then Some ((if neg then -1 else 1) * int (nat_of_digits b)) else None)
      else None)"

definition pow10 :: "int \<Rightarrow> rat" where
  "pow10 k = (if 0 \<le> k then 10 ^ nat k else 1 / 10 ^ nat (- k))"

definition decimal_of_str :: "string \<Rightarrow> decimal option" where
  "decimal_of_str s =
     (let (neg, b) = split_sign (filter (\<lambda>c. c \<noteq> CHR ''_'') (py_strip s));
          ip = takeWhile is_digit b;
          r = dropWhile is_digit b;
          point = (r \<noteq> [] \<and> hd r = CHR ''.'');
          fp = (if point then takeWhile is_digit (tl r) else []);
          r2 = (if point then dropWhile is_digit (tl r) else r);
          lb = py_lower b
      in if ip \<noteq> [] \<or> fp \<noteq> [] then
           map_option (\<lambda>ex. DNum ((if neg then -1 else 1) * of_nat (nat_of_digits (ip @ fp)) * pow10 (ex - int (length fp))))
             (exponent_part r2)
         else if lb = ''inf'' \<or> lb = ''infinity'' then Some (DInf neg)
         else if (take 3 lb = ''nan'' \<and> list_all is_digit (drop 3 lb))
              \<or> (take 4 lb = ''snan'' \<and> list_all is_digit (drop 4 lb)) then Some DNaN
         else None)"

text \<open>\<^verbatim>\<open>repr(float)\<close>: the shortest decimal, positional for exponents from -4 to 15.\<close>

fun decimal_digits :: "nat \<Rightarrow> rat \<Rightarrow> nat \<times> nat" where
  "decimal_digits 0 q = (nat \<lfloor>q\<rfloor>, 0)"
| "decimal_digits (Suc fuel) q =
     (if q = of_int \<lfloor>q\<rfloor> then (nat \<lfloor>q\<rfloor>, 0)
      else let (m, k) = decimal_digits fuel (10 * q) in (m, Suc k))"

definition strip_zeros :: "string \<Rightarrow> string" where
  "strip_zeros ds = rev (dropWhile (\<lambda>c. c = CHR ''0'') (rev ds))"

definition float_repr :: "rat \<Rightarrow> string" where
  "float_repr q = (if q = 0 then ''0.0'' else
     let (m, k) = decimal_digits 400 \<bar>q\<bar>;
         all = digits m;
         point = int (length all) - int k;
         ds = strip_zeros all;
         n = int (length ds);
         mantissa = (if n = 1 then ds else take 1 ds @ ''.'' @ drop 1 ds);
         body = (if -4 < point \<and> point \<le> 16 then
             (if point \<le> 0 then ''0.'' @ replicate (nat (- point)) (CHR ''0'') @ ds
              else if n \<le> point then ds @ replicate (nat (point - n)) (CHR ''0'') @ ''.0''
              else take (nat point) ds @ ''.'' @ drop (nat point) ds)
           else mantissa @ ''e'' @ (if point - 1 < 0 then ''-'' else ''+'')
                  @ (let x = digits (nat \<bar>point - 1\<bar>) in (if length x < 2 then ''0'' @ x else x)))
     in (if q < 0 then ''-'' else []) @ body)"

section \<open>\<^verbatim>\<open>str\<close>, \<^verbatim>\<open>int\<close>, iteration\<close>

definition quote_str :: "string \<Rightarrow> string" where
  "quote_str s =
     (let sq = char_of (39::nat); dq = char_of (34::nat); bs = char_of (92::nat);
          q = (if sq \<in> set s \<and> dq \<notin> set s then dq else sq);
          esc = (\<lambda>c. if c = q \<or> c = bs then [bs, c]
                     else if c = char_of (10::nat) then bs # ''n''
                     else if c = char_of (13::nat) then bs # ''r''
                     else if c = char_of (9::nat) then bs # ''t''
                     else if (of_char c :: nat) < 32 \<or> (of_char c :: nat) = 127
                       then bs # CHR ''x'' # [hex_char (of_char c div 16), hex_char (of_char c mod 16)]
                     else [c])
      in q # concat (map esc s) @ [q])"

fun py_repr :: "json \<Rightarrow> string" where
  "py_repr JNull = ''None''"
| "py_repr (JBool b) = (if b then ''True'' else ''False'')"
| "py_repr (JInt i) = int_str i"
| "py_repr (JFloat q) = float_repr q"
| "py_repr (JStr s) = quote_str s"
| "py_repr (JArr xs) = ''['' @ py_join '', '' (map py_repr xs) @ '']''"
| "py_repr (JObj d) = ''{'' @ py_join '', '' (map (\<lambda>(k, v). quote_str k @ '': '' @ py_repr v) d) @ ''}''"

fun py_str :: "json \<Rightarrow> string" where
  "py_str (JStr s) = s"
| "py_str v = py_repr v"

definition trunc_zero :: "rat \<Rightarrow> int" where
  "trunc_zero q = (if 0 \<le> q then \<lfloor>q\<rfloor> else \<lceil>q\<rceil>)"

text \<open>\<^verbatim>\<open>int(x)\<close>: \<open>None\<close> is \<^verbatim>\<open>TypeError\<close> or \<^verbatim>\<open>ValueError\<close>.\<close>

fun py_int :: "json \<Rightarrow> int option" where
  "py_int (JInt i) = Some i"
| "py_int (JBool b) = Some (if b then 1 else 0)"
| "py_int (JFloat q) = Some (trunc_zero q)"
| "py_int (JStr s) = int_of_str s"
| "py_int _ = None"

text \<open>\<^verbatim>\<open>for x in v\<close>: the items, \<open>None\<close> is \<^verbatim>\<open>TypeError\<close>.\<close>

fun py_iter :: "json \<Rightarrow> json list option" where
  "py_iter (JArr xs) = Some xs"
| "py_iter (JObj d) = Some (map (JStr \<circ> fst) d)"
| "py_iter (JStr s) = Some (map (\<lambda>c. JStr [c]) s)"
| "py_iter _ = None"

text \<open>\<^verbatim>\<open>Decimal(str(x))\<close>; a JSON number's text is the number.\<close>

definition decimal_of :: "json \<Rightarrow> decimal option" where
  "decimal_of v = (case v of JInt i \<Rightarrow> Some (DNum (of_int i)) | JFloat q \<Rightarrow> Some (DNum q)
     | _ \<Rightarrow> decimal_of_str (py_str v))"

text \<open>\<^verbatim>\<open>xs[lo:hi]\<close> with non-negative bounds.\<close>

definition slice :: "nat \<Rightarrow> nat \<Rightarrow> 'a list \<Rightarrow> 'a list" where
  "slice lo hi xs = drop lo (take hi xs)"

lemma length_slice [simp]: "length (slice lo hi xs) = min hi (length xs) - lo"
  by (simp add: slice_def)

lemma nth_slice: "lo + i < min hi (length xs) \<Longrightarrow> slice lo hi xs ! i = xs ! (lo + i)"
  by (simp add: slice_def)

section \<open>Printing and reading integers\<close>

lemma is_digit_char_of [simp]: "(n::nat) < 10 \<Longrightarrow> is_digit (char_of (48 + n))"
  by (simp add: is_digit_def Let_def)

lemma digit_val_char_of [simp]: "(n::nat) < 10 \<Longrightarrow> digit_val (char_of (48 + n)) = n"
  by (simp add: digit_val_def)

lemma digits_all: "list_all is_digit (digits n)"
proof (induction n rule: digits.induct)
  case (1 n)
  then show ?case by (subst digits.simps) auto
qed

lemma digits_not_Nil [simp]: "digits n \<noteq> []"
  by (subst digits.simps) auto

lemma nat_of_digits_digits [simp]: "nat_of_digits (digits n) = n"
proof (induction n rule: digits.induct)
  case (1 n)
  then show ?case
    by (subst digits.simps) (auto simp: nat_of_digits_def)
qed

lemma digit_groups_all: "list_all is_digit cs \<Longrightarrow> digit_groups p cs = (p \<or> cs \<noteq> [])"
  by (induction cs arbitrary: p) auto

lemma digit_not_space: "is_digit c \<Longrightarrow> \<not> is_space c \<and> c \<noteq> CHR ''-'' \<and> c \<noteq> CHR ''+''"
  by (auto simp: is_digit_def is_space_def Let_def)

lemma py_strip_id: "list_all (\<lambda>c. \<not> is_space c) s \<Longrightarrow> py_strip s = s"
  by (simp add: py_strip_def dropWhile_none list_all_iff)

lemma int_roundtrip: "int_of_str (int_str i) = Some i"
proof -
  have ds: "\<And>n. list_all is_digit (digits n)" by (rule digits_all)
  have sp: "py_strip (int_str i) = int_str i"
    using ds digit_not_space by (auto intro!: py_strip_id simp: int_str_def list_all_iff is_space_def)
  have hd: "split_sign (digits n) = (False, digits n)" for n
  proof -
    obtain c cs where c: "digits n = c # cs" by (cases "digits n") auto
    with ds [of n] have "is_digit c" by simp
    with digit_not_space [of c] c show ?thesis by simp
  qed
  show ?thesis
    by (cases "i < 0")
      (simp_all add: int_of_str_def sp, simp_all add: int_str_def hd digit_groups_all ds)
qed

section \<open>Printing and reading money\<close>

lemma split_sign_digits: "split_sign (digits n @ r) = (False, digits n @ r)"
proof -
  obtain c cs where c: "digits n = c # cs" by (cases "digits n") auto
  with digits_all [of n] have "is_digit c" by simp
  with digit_not_space [of c] c show ?thesis by simp
qed

lemma takeWhile_digits:
  "takeWhile is_digit (digits n @ CHR ''.'' # r) = digits n" "dropWhile is_digit (digits n @ CHR ''.'' # r) = CHR ''.'' # r"
  using digits_all [of n] by (simp_all add: list_all_iff is_digit_def takeWhile_append dropWhile_append)

lemma pad2_digits: "list_all is_digit (pad2 n)"
  by (simp add: pad2_def)

lemma nat_of_digits_pad2: "n < 100 \<Longrightarrow> nat_of_digits (digits k @ pad2 n) = 100 * k + n"
proof -
  assume n: "n < 100"
  have "nat_of_digits (digits k @ pad2 n) = 10 * (10 * nat_of_digits (digits k) + n div 10 mod 10) + n mod 10"
    by (simp add: nat_of_digits_def pad2_def)
  also have "\<dots> = 100 * k + n" using n by simp
  finally show ?thesis .
qed

lemma money_chars: "c \<in> set (money_str m) \<Longrightarrow> \<not> is_space c \<and> c \<noteq> CHR ''_''"
  using digits_all [of "nat (\<bar>m\<bar> div 100)"] pad2_digits [of "nat (\<bar>m\<bar> mod 100)"]
  by (auto simp: money_str_def list_all_iff is_space_def is_digit_def Let_def split: if_splits)

lemma decimal_of_cents:
  assumes sign: "split_sign (filter (\<lambda>c. c \<noteq> CHR ''_'') (py_strip s)) = (neg, digits k @ CHR ''.'' # pad2 c)" and c: "c < 100"
  shows "decimal_of_str s = Some (DNum ((if neg then -1 else 1) * of_nat (100 * k + c) / 100))"
proof -
  have frac: "takeWhile is_digit (pad2 c) = pad2 c" "dropWhile is_digit (pad2 c) = []"
    using pad2_digits [of c] by (simp_all add: takeWhile_eq_all_conv list_all_iff)
  have p: "pow10 (- int (length (pad2 c))) = 1 / 100" by (simp add: pow10_def pad2_def)
  show ?thesis unfolding decimal_of_str_def sign Let_def prod.case takeWhile_digits
    by (simp add: frac nat_of_digits_pad2 [OF c] p)
qed

text \<open>\<^verbatim>\<open>Decimal(str(amount))\<close> reads back an amount with two fractional digits.\<close>

lemma money_roundtrip: "decimal_of (JStr (money_str m)) = Some (DNum (of_int m / 100))"
proof -
  let ?k = "nat (\<bar>m\<bar> div 100)" and ?c = "nat (\<bar>m\<bar> mod 100)"
  have c: "?c < 100" by (simp add: nat_less_iff)
  have strip: "py_strip (money_str m) = money_str m"
    by (rule py_strip_id) (simp add: list_all_iff money_chars)
  have keep: "filter (\<lambda>c. c \<noteq> CHR ''_'') (money_str m) = money_str m"
    by (rule filter_True) (simp add: money_chars)
  have sign: "split_sign (money_str m) = (m < 0, digits ?k @ CHR ''.'' # pad2 ?c)"
    by (simp add: money_str_def split_sign_digits)
  have "0 \<le> \<bar>m\<bar> div 100" by (simp add: pos_imp_zdiv_nonneg_iff)
  then have "int (100 * ?k + ?c) = \<bar>m\<bar>" by simp
  then have "rat_of_nat (100 * ?k + ?c) = of_int \<bar>m\<bar>" by (metis of_int_of_nat_eq)
  with decimal_of_cents [of "money_str m", unfolded strip keep, OF sign c] show ?thesis
    by (simp add: decimal_of_def)
qed

end
