(* ===== verification/Calendar.thy ===== *)
theory Calendar
  imports Models Py_Values "HOL-Library.Product_Lexorder"
begin

text \<open>
  The sequence-calendar generator of \<^verbatim>\<open>app/agents/_calendar.py\<close>: laying out touchpoints for an accepted
  proposal, the soft frequency warnings, and the sliding-window check of the tenant's hard caps.
  The window checks are proved equivalent to their quantified specifications.
  \<^verbatim>\<open>round(i * (d - 1) / (count - 1))\<close> is taken on the exact quotient, which the double quotient rounds
  to whenever \<open>d * count < 2 ^ 51\<close>; the touch count formula is kept in double arithmetic.
\<close>

section \<open>Data\<close>

record planned_touchpoint =
  pt_channel_platform :: string
  pt_audience_id :: uuid
  pt_scheduled_at :: instant
  pt_position :: int
  pt_human_override :: bool
  pt_frequency_warning :: "dict option"

text \<open>One entry of \<^verbatim>\<open>HardCapViolationError.violations\<close>; its \<^verbatim>\<open>detail\<close> text is made of these fields.\<close>

record cap_breach =
  br_platform :: string
  br_per :: string
  br_limit :: int
  br_observed :: int
  br_window_start :: instant

datatype calendar_error = HardCapViolation "cap_breach list" | CalendarRaises py_error

definition hard_cap_windows :: "(string \<times> duration) list" where
  "hard_cap_windows = [(''day'', days 1), (''week'', days 7), (''month'', days 30)]"

section \<open>The hard-cap check\<close>

text \<open>\<^verbatim>\<open>str(cap.get(k, "")).lower()\<close> and the limit.\<close>

definition cap_field :: "dict \<Rightarrow> string \<Rightarrow> string" where
  "cap_field cap k = py_lower (py_str (dict_get_default cap k (JStr [])))"

definition cap_limit :: "dict \<Rightarrow> int option" where
  "cap_limit cap = py_int (dict_get_default cap ''limit'' (JInt 0))"

text \<open>The inner loop: the touches after the anchor, up to the first one outside the window.\<close>

fun count_within :: "duration \<Rightarrow> instant \<Rightarrow> planned_touchpoint list \<Rightarrow> int" where
  "count_within window anchor [] = 0"
| "count_within window anchor (t # ts) =
     (if pt_scheduled_at t - anchor < window then 1 + count_within window anchor ts else 0)"

fun first_breach :: "duration \<Rightarrow> int \<Rightarrow> planned_touchpoint list \<Rightarrow> (instant \<times> int) option" where
  "first_breach window limit [] = None"
| "first_breach window limit (a # ts) =
     (let count = 1 + count_within window (pt_scheduled_at a) ts
      in if count > limit then Some (pt_scheduled_at a, count) else first_breach window limit ts)"

definition matching :: "string \<Rightarrow> planned_touchpoint list \<Rightarrow> planned_touchpoint list" where
  "matching platform tps = sort_key pt_scheduled_at (filter (\<lambda>t. pt_channel_platform t = platform) tps)"

definition cap_violation :: "planned_touchpoint list \<Rightarrow> dict \<Rightarrow> cap_breach option" where
  "cap_violation tps cap =
     (let platform = cap_field cap ''platform''; per = cap_field cap ''per''
      in case cap_limit cap of
           None \<Rightarrow> None
         | Some limit \<Rightarrow>
             (case (if platform = [] \<or> limit \<le> 0 then None else map_of hard_cap_windows per) of
                None \<Rightarrow> None
              | Some window \<Rightarrow>
                  let ms = matching platform tps
                  in if int (length ms) \<le> limit then None
                     else map_option (\<lambda>(start, count).
                            \<lparr>br_platform = platform, br_per = per, br_limit = limit, br_observed = count,
                             br_window_start = start\<rparr>) (first_breach window limit ms)))"

definition enforce_hard_caps :: "planned_touchpoint list \<Rightarrow> dict list \<Rightarrow> cap_breach list + unit" where
  "enforce_hard_caps tps caps =
     (if caps = [] \<or> tps = [] then Inr ()
      else case List.map_filter (cap_violation tps) caps of [] \<Rightarrow> Inr () | vs \<Rightarrow> Inl vs)"

section \<open>Layout\<close>

definition index_hard_caps :: "dict list \<Rightarrow> (string \<times> dict) list" where
  "index_hard_caps caps =
     fold (\<lambda>c out. let p = cap_field c ''platform'' in if p \<noteq> [] then AList.update p c out else out) caps []"

definition max_touches_for_cap :: "dict \<Rightarrow> int \<Rightarrow> int" where
  "max_touches_for_cap cap duration_days =
     (case cap_limit cap of
        None \<Rightarrow> 0
      | Some limit \<Rightarrow>
          (case map_of hard_cap_windows (cap_field cap ''per'') of
             None \<Rightarrow> 0
           | Some w \<Rightarrow> if limit \<le> 0 then 0
                       else max 1 (duration_days * limit div max 1 (w div usec_per_day))))"

definition day_offsets :: "int \<Rightarrow> int \<Rightarrow> int list" where
  "day_offsets count duration_days =
     (if count = 1 then [duration_days div 2]
      else map (\<lambda>i. round_half_even (of_int (i * (duration_days - 1)) / of_int (count - 1))) [0..count - 1])"

definition distribute :: "int \<Rightarrow> date \<Rightarrow> date \<Rightarrow> string \<Rightarrow> uuid \<Rightarrow> int \<Rightarrow> planned_touchpoint list" where
  "distribute count start_date end_date platform audience position_start =
     (let duration_days = max 1 (end_date - start_date + 1)
      in map (\<lambda>(idx, off).
           \<lparr>pt_channel_platform = platform, pt_audience_id = audience,
            pt_scheduled_at = days (start_date + off) + hours 9,
            pt_position = position_start + int idx, pt_human_override = False,
            pt_frequency_warning = None\<rparr>)
         (enumerate 0 (day_offsets count duration_days)))"

text \<open>\<^verbatim>\<open>max(1, int(round(float(allocation_pct) / 100.0 * duration_days / 7.0)))\<close>, one rounding per operation.\<close>

definition touch_count :: "rat \<Rightarrow> int \<Rightarrow> int" where
  "touch_count allocation_pct duration_days =
     max 1 (round_half_even (float64 (float64 (float64 (float64 allocation_pct / 100) * of_int duration_days) / 7)))"

text \<open>One turn of the channel loop: \<open>Inr None\<close> is \<^verbatim>\<open>continue\<close>, \<open>Inr (Some (platform, count))\<close> a channel
  to lay out. A NaN allocation makes the comparison raise, an infinite one the rounding.\<close>

definition plan_channel :: "(string \<times> dict) list \<Rightarrow> int \<Rightarrow> json \<Rightarrow> (string \<times> int) option res" where
  "plan_channel cap_by_platform duration_days ch =
     (case ch of
        JObj d \<Rightarrow>
          let platform = py_lower (py_strip (py_str (dict_get_default d ''platform'' (JStr []))))
          in if platform = [] then Inr None
             else (case (case decimal_of (dict_get_default d ''allocation_pct'' (JInt 0)) of
                           None \<Rightarrow> DNum 0 | Some a \<Rightarrow> a) of
                 DNaN \<Rightarrow> Inl InvalidOperation
               | DInf neg \<Rightarrow> if neg then Inr None else Inl OverflowError
               | DNum a \<Rightarrow>
                   if a \<le> 0 then Inr None
                   else let tc = touch_count a duration_days;
                            tc' = (case map_of cap_by_platform platform of
                                     None \<Rightarrow> tc
                                   | Some cap \<Rightarrow> min tc (max_touches_for_cap cap duration_days))
                        in Inr (Some (platform, max 1 tc')))
      | _ \<Rightarrow> Inr None)"

fun lay_out ::
  "(string \<times> dict) list \<Rightarrow> date \<Rightarrow> date \<Rightarrow> uuid \<Rightarrow> int \<Rightarrow> json list \<Rightarrow> planned_touchpoint list res" where
  "lay_out caps start_date end_date audience cursor [] = Inr []"
| "lay_out caps start_date end_date audience cursor (ch # chs) =
     (case plan_channel caps (max 1 (end_date - start_date + 1)) ch of
        Inl err \<Rightarrow> Inl err
      | Inr None \<Rightarrow> lay_out caps start_date end_date audience cursor chs
      | Inr (Some (platform, count)) \<Rightarrow>
          let touches = distribute count start_date end_date platform audience cursor
          in case lay_out caps start_date end_date audience (cursor + int (length touches)) chs of
               Inl err \<Rightarrow> Inl err
             | Inr rest \<Rightarrow> Inr (touches @ rest))"

definition generate_calendar ::
  "dict \<Rightarrow> date \<Rightarrow> date \<Rightarrow> uuid \<Rightarrow> dict list \<Rightarrow> calendar_error + planned_touchpoint list" where
  "generate_calendar payload start_date end_date audience caps =
     (case py_iter (dict_get_default payload ''channels'' (JArr [])) of
        None \<Rightarrow> Inl (CalendarRaises TypeError)
      | Some chs \<Rightarrow>
          (case lay_out (index_hard_caps caps) start_date end_date audience 0 chs of
             Inl err \<Rightarrow> Inl (CalendarRaises err)
           | Inr laid \<Rightarrow>
               let out = sort_key (\<lambda>t. (pt_scheduled_at t, pt_position t)) laid
               in case enforce_hard_caps out caps of
                    Inl vs \<Rightarrow> Inl (HardCapViolation vs)
                  | Inr _ \<Rightarrow> Inr out))"

section \<open>Frequency warnings\<close>

text \<open>
  \<^verbatim>\<open>detect_frequency_warnings\<close> mutates the touchpoints in place. A touchpoint is its index in the
  list; the touches of one audience are their indices in schedule order.
\<close>

definition audience_touches :: "planned_touchpoint list \<Rightarrow> uuid \<Rightarrow> nat list" where
  "audience_touches tps a =
     sort_key (\<lambda>i. pt_scheduled_at (tps ! i)) (filter (\<lambda>i. pt_audience_id (tps ! i) = a) [0..<length tps])"

definition near :: "planned_touchpoint list \<Rightarrow> duration \<Rightarrow> nat \<Rightarrow> nat \<Rightarrow> bool" where
  "near tps window i j \<longleftrightarrow> \<bar>pt_scheduled_at (tps ! j) - pt_scheduled_at (tps ! i)\<bar> < window"

definition in_window :: "planned_touchpoint list \<Rightarrow> nat \<Rightarrow> duration \<Rightarrow> nat list \<Rightarrow> nat \<Rightarrow> nat list" where
  "in_window tps cap window touches k =
     filter (near tps window (touches ! k)) (slice (k - cap * 2) (k + cap * 2 + 1) touches)"

definition frequency_warning :: "nat \<Rightarrow> duration \<Rightarrow> nat \<Rightarrow> dict" where
  "frequency_warning cap window n =
     [(''cap_per_days'', JInt (window div usec_per_day)), (''limit'', JInt (int cap)),
      (''count_in_window'', JInt (int n))]"

definition audience_warnings ::
  "planned_touchpoint list \<Rightarrow> nat \<Rightarrow> duration \<Rightarrow> uuid \<Rightarrow> (nat \<times> dict) list" where
  "audience_warnings tps cap window a =
     (let touches = audience_touches tps a
      in List.map_filter (\<lambda>k. let n = length (in_window tps cap window touches k)
            in if cap < n then Some (touches ! k, frequency_warning cap window n) else None)
         [0..<length touches])"

definition set_warning :: "nat \<times> dict \<Rightarrow> planned_touchpoint list \<Rightarrow> planned_touchpoint list" where
  "set_warning = (\<lambda>(i, w) tps. tps[i := (tps ! i)\<lparr>pt_frequency_warning := Some w\<rparr>])"

definition detect_frequency_warnings ::
  "nat \<Rightarrow> duration \<Rightarrow> planned_touchpoint list \<Rightarrow> planned_touchpoint list" where
  "detect_frequency_warnings cap window tps =
     fold set_warning (concat (map (audience_warnings tps cap window) (remdups (map pt_audience_id tps))))
       (map (\<lambda>t. t\<lparr>pt_frequency_warning := None\<rparr>) tps)"

section \<open>The hard-cap check is the sliding-window specification\<close>

text \<open>The specification: the number of a platform's touches in the half-open window from \<open>start\<close>.\<close>

definition touches_in :: "string \<Rightarrow> duration \<Rightarrow> instant \<Rightarrow> planned_touchpoint list \<Rightarrow> nat" where
  "touches_in platform window start tps =
     length (filter (\<lambda>t. pt_channel_platform t = platform \<and> start \<le> pt_scheduled_at t
       \<and> pt_scheduled_at t < start + window) tps)"

abbreviation inside :: "duration \<Rightarrow> instant \<Rightarrow> planned_touchpoint \<Rightarrow> bool" where
  "inside window start t \<equiv> start \<le> pt_scheduled_at t \<and> pt_scheduled_at t < start + window"

lemma count_within_sorted:
  "sorted (map pt_scheduled_at ts) \<Longrightarrow>
     count_within w a ts = int (length (filter (\<lambda>t. pt_scheduled_at t < a + w) ts))"
proof (induction ts)
  case (Cons t ts)
  show ?case
  proof (cases "pt_scheduled_at t - a < w")
    case False
    then have "filter (\<lambda>t. pt_scheduled_at t < a + w) (t # ts) = []"
      using Cons.prems by (auto simp: filter_empty_conv)
    with False show ?thesis by simp
  qed (use Cons in \<open>simp add: algebra_simps\<close>)
qed simp

lemma count_from_anchor:
  assumes "sorted (map pt_scheduled_at (a # ts))" "0 < w"
  shows "1 + count_within w (pt_scheduled_at a) ts = int (length (filter (inside w (pt_scheduled_at a)) (a # ts)))"
proof -
  have "filter (inside w (pt_scheduled_at a)) ts = filter (\<lambda>t. pt_scheduled_at t < pt_scheduled_at a + w) ts"
    using assms(1) by (intro filter_cong) auto
  then show ?thesis using assms by (simp add: count_within_sorted)
qed

lemma length_filter_mono:
  "(\<And>x. x \<in> set xs \<Longrightarrow> P x \<Longrightarrow> Q x) \<Longrightarrow> length (filter P xs) \<le> length (filter Q xs)"
  by (induction xs) auto

lemma first_breach_iff:
  assumes "sorted (map pt_scheduled_at ts)" "0 < w" "1 \<le> l"
  shows "first_breach w l ts \<noteq> None \<longleftrightarrow> (\<exists>start. l < int (length (filter (inside w start) ts)))"
  using assms(1)
proof (induction ts)
  case (Cons a ts)
  let ?s = "pt_scheduled_at a"
  have IH: "first_breach w l ts \<noteq> None \<longleftrightarrow> (\<exists>start. l < int (length (filter (inside w start) ts)))"
    using Cons by simp
  note cnt = count_from_anchor [OF Cons.prems assms(2)]
  have "first_breach w l (a # ts) \<noteq> None \<longleftrightarrow>
      l < int (length (filter (inside w ?s) (a # ts))) \<or> first_breach w l ts \<noteq> None"
    by (simp only: first_breach.simps Let_def cnt split: if_splits) simp
  also have "\<dots> \<longleftrightarrow> (\<exists>start. l < int (length (filter (inside w start) (a # ts))))"
  proof (intro iffI; elim disjE exE)
    fix start assume big: "l < int (length (filter (inside w start) (a # ts)))"
    show "l < int (length (filter (inside w ?s) (a # ts))) \<or> first_breach w l ts \<noteq> None"
    proof (cases "start \<le> ?s")
      case True
      have "length (filter (inside w start) (a # ts)) \<le> length (filter (inside w ?s) (a # ts))"
        using True Cons.prems by (intro length_filter_mono) auto
      with big show ?thesis by linarith
    next
      case False
      with big IH show ?thesis by auto
    qed
  next
    assume "first_breach w l ts \<noteq> None"
    with IH obtain start where "l < int (length (filter (inside w start) ts))" by blast
    then show "\<exists>start. l < int (length (filter (inside w start) (a # ts)))"
      by (intro exI [of _ start]) auto
  qed blast
  finally show ?case .
qed (use assms(3) in simp)

lemma touches_in_matching:
  "touches_in platform w start tps = length (filter (inside w start) (matching platform tps))"
  by (simp add: touches_in_def matching_def filter_sort)

lemma hard_cap_windows_pos: "map_of hard_cap_windows per = Some w \<Longrightarrow> 0 < w"
  by (auto simp: hard_cap_windows_def days_def split: if_splits)

text \<open>What a well-formed cap says: its platform, window and limit.\<close>

definition cap_terms :: "dict \<Rightarrow> (string \<times> duration \<times> int) option" where
  "cap_terms cap =
     (case (cap_limit cap, map_of hard_cap_windows (cap_field cap ''per'')) of
        (Some l, Some w) \<Rightarrow> if cap_field cap ''platform'' \<noteq> [] \<and> 0 < l then Some (cap_field cap ''platform'', w, l) else None
      | _ \<Rightarrow> None)"

lemma cap_violation_iff:
  "cap_violation tps cap \<noteq> None \<longleftrightarrow>
     (\<exists>p w l. cap_terms cap = Some (p, w, l) \<and> (\<exists>start. l < int (touches_in p w start tps)))"
proof (cases "cap_terms cap")
  case None
  then show ?thesis
    by (auto simp: cap_terms_def cap_violation_def Let_def split: option.splits if_splits)
next
  case (Some t)
  then obtain p w l where t: "cap_terms cap = Some (p, w, l)" by (cases t) auto
  then have c: "cap_field cap ''platform'' = p" "p \<noteq> []" "cap_limit cap = Some l" "0 < l"
    "map_of hard_cap_windows (cap_field cap ''per'') = Some w"
    by (auto simp: cap_terms_def split: option.splits if_splits)
  have w: "0 < w" using c(5) by (rule hard_cap_windows_pos)
  let ?ms = "matching p tps"
  have "sorted (map pt_scheduled_at ?ms)" by (simp add: matching_def)
  from first_breach_iff [OF this w, of l] c(4)
  have fb: "first_breach w l ?ms \<noteq> None \<longleftrightarrow> (\<exists>start. l < int (touches_in p w start tps))"
    by (simp add: touches_in_matching)
  have "int (touches_in p w start tps) \<le> int (length ?ms)" for start
    by (simp add: touches_in_matching length_filter_le)
  then have short: "int (length ?ms) \<le> l \<Longrightarrow> \<not> (\<exists>start. l < int (touches_in p w start tps))"
    by (meson dual_order.strict_trans2 not_le)
  show ?thesis
    using fb short c t by (auto simp: cap_violation_def Let_def)
qed

lemma map_filter_eq_Nil: "List.map_filter f xs = [] \<longleftrightarrow> (\<forall>x\<in>set xs. f x = None)"
  by (induction xs) (auto simp: List.map_filter_simps split: option.splits)

text \<open>C7. The sorted sliding-window scan decides the hard caps exactly: the check passes if and only if
  no well-formed cap has a window, starting at any instant whatever, that holds more touches of its
  platform than its limit.\<close>

theorem enforce_hard_caps_exact:
  "enforce_hard_caps tps caps = Inr () \<longleftrightarrow>
     (\<nexists>cap p w l start. cap \<in> set caps \<and> cap_terms cap = Some (p, w, l) \<and> l < int (touches_in p w start tps))"
proof (cases "caps = [] \<or> tps = []")
  case True
  have "\<not> l < int (touches_in p w start [])" if "cap_terms cap = Some (p, w, l)" for cap p w l start
    using that by (auto simp: cap_terms_def touches_in_def split: option.splits if_splits)
  with True show ?thesis by (auto simp: enforce_hard_caps_def)
next
  case False
  then have "enforce_hard_caps tps caps = Inr () \<longleftrightarrow> (\<forall>cap\<in>set caps. cap_violation tps cap = None)"
    unfolding map_filter_eq_Nil [symmetric] by (auto simp: enforce_hard_caps_def split: list.splits)
  also have "\<dots> \<longleftrightarrow> \<not> (\<exists>cap\<in>set caps. cap_violation tps cap \<noteq> None)" by simp
  finally show ?thesis unfolding cap_violation_iff by blast
qed

section \<open>Laid-out touches\<close>

lemma day_offsets_length: "1 \<le> count \<Longrightarrow> length (day_offsets count d) = nat count"
  by (auto simp: day_offsets_def)

lemma round_half_even_0 [simp]: "round_half_even 0 = 0"
  using round_half_even_of_int [of 0] by simp

lemma day_offsets_range:
  assumes "1 \<le> count" "1 \<le> d" "off \<in> set (day_offsets count d)"
  shows "0 \<le> off \<and> off \<le> d - 1"
proof (cases "count = 1")
  case True
  with assms show ?thesis by (auto simp: day_offsets_def)
next
  case False
  with assms obtain i where i: "0 \<le> i" "i \<le> count - 1"
      "off = round_half_even (of_int (i * (d - 1)) / of_int (count - 1))"
    by (auto simp: day_offsets_def)
  have "0 \<le> (of_int (i * (d - 1)) / of_int (count - 1) :: rat)"
    using i(1) assms False by (intro divide_nonneg_nonneg) simp_all
  moreover have "of_int (i * (d - 1)) / of_int (count - 1) \<le> (of_int (d - 1) :: rat)"
  proof -
    have "i * (d - 1) \<le> (d - 1) * (count - 1)"
      using mult_right_mono [OF i(2), of "d - 1"] assms(2) by (simp add: mult.commute)
    then have "(of_int (i * (d - 1)) :: rat) \<le> of_int (d - 1) * of_int (count - 1)"
      by (metis of_int_le_iff of_int_mult)
    then show ?thesis using assms False by (simp add: pos_divide_le_eq del: of_int_mult)
  qed
  ultimately show ?thesis
    unfolding i(3) using round_half_even_mono [of 0] round_half_even_mono [of _ "of_int (d - 1)"]
    by (metis round_half_even_0 round_half_even_of_int)
qed

lemma set_distribute:
  assumes "t \<in> set (distribute count sd ed p a pos)" "1 \<le> count" "sd \<le> ed"
  shows "pt_channel_platform t = p \<and> pt_audience_id t = a
    \<and> (\<exists>d. sd \<le> d \<and> d \<le> ed \<and> pt_scheduled_at t = days d + hours 9)"
proof -
  from assms(1) obtain idx off where o: "(idx, off) \<in> set (enumerate 0 (day_offsets count (max 1 (ed - sd + 1))))"
    and t: "pt_channel_platform t = p" "pt_audience_id t = a" "pt_scheduled_at t = days (sd + off) + hours 9"
    by (auto simp: distribute_def Let_def)
  from o have "off \<in> set (day_offsets count (max 1 (ed - sd + 1)))"
    by (auto simp: enumerate_eq_zip dest: set_zip_rightD)
  with day_offsets_range [OF assms(2), of "max 1 (ed - sd + 1)" off] assms(3)
  have "0 \<le> off" "off \<le> ed - sd" by auto
  with t show ?thesis by (intro conjI exI [of _ "sd + off"]) simp_all
qed

lemma length_distribute: "1 \<le> count \<Longrightarrow> length (distribute count sd ed p a pos) = nat count"
  by (simp add: distribute_def Let_def day_offsets_length)

lemma plan_channel_count: "plan_channel caps d ch = Inr (Some (p, n)) \<Longrightarrow> 1 \<le> n"
  by (auto simp: plan_channel_def Let_def split: json.splits if_splits decimal.splits option.splits)

text \<open>The specification of a channel entry: how many touches it asks for on a platform. Entries without a platform or
  without a positive, finite allocation ask for none; otherwise a share of one touch a week, at least one, and under a
  hard cap on the platform no more than fit.\<close>

definition planned_touches :: "dict list \<Rightarrow> int \<Rightarrow> string \<Rightarrow> json \<Rightarrow> int" where
  "planned_touches caps duration_days p ch =
     (case ch of
        JObj d \<Rightarrow>
          if p = [] \<or> py_lower (py_strip (py_str (dict_get_default d ''platform'' (JStr [])))) \<noteq> p then 0
          else (case decimal_of (dict_get_default d ''allocation_pct'' (JInt 0)) of
             Some (DNum pct) \<Rightarrow>
               if pct \<le> 0 then 0
               else (case map_of (index_hard_caps caps) p of
                  None \<Rightarrow> touch_count pct duration_days
                | Some cap \<Rightarrow> max 1 (min (touch_count pct duration_days) (max_touches_for_cap cap duration_days)))
           | _ \<Rightarrow> 0)
      | _ \<Rightarrow> 0)"

lemma planned_touches_eq:
  "planned_touches caps d p ch =
     (case plan_channel (index_hard_caps caps) d ch of Inr (Some (q, n)) \<Rightarrow> if q = p then n else 0 | _ \<Rightarrow> 0)"
  by (auto simp: planned_touches_def plan_channel_def Let_def touch_count_def split: json.split option.split decimal.split)

lemma lay_out_counts:
  "lay_out (index_hard_caps caps) sd ed a cur chs = Inr out
   \<Longrightarrow> int (length (filter (\<lambda>t. pt_channel_platform t = p) out))
     = sum_list (map (planned_touches caps (max 1 (ed - sd + 1)) p) chs)"
proof (induction chs arbitrary: cur out)
  case (Cons c chs)
  have touches: "int (length (filter (\<lambda>t. pt_channel_platform t = p) (distribute n sd ed q a cur))) = (if q = p then n else 0)"
    if "plan_channel (index_hard_caps caps) (max 1 (ed - sd + 1)) c = Inr (Some (q, n))" for q n
  proof -
    have "filter (\<lambda>t. pt_channel_platform t = p) (distribute n sd ed q a cur) = (if q = p then distribute n sd ed q a cur else [])"
      by (auto simp: distribute_def Let_def filter_id_conv filter_empty_conv)
    then show ?thesis using plan_channel_count [OF that] by (simp add: length_distribute)
  qed
  from Cons.prems show ?case
    by (auto simp: planned_touches_eq Let_def touches dest!: Cons.IH split: sum.splits option.splits prod.splits)
qed simp

lemma member_le_sum_list_nonneg:
  "(x::int) \<in> set xs \<Longrightarrow> (\<And>y. y \<in> set xs \<Longrightarrow> 0 \<le> y) \<Longrightarrow> x \<le> sum_list xs"
proof (induction xs)
  case (Cons z zs)
  have "0 \<le> sum_list zs" by (rule sum_list_nonneg) (use Cons.prems(2) in simp)
  with Cons show ?case by (cases "x = z") (auto intro: add_increasing)
qed simp

lemma planned_nonneg: "0 \<le> planned_touches caps d p ch"
  using plan_channel_count by (force simp: planned_touches_eq split: sum.split option.split)

lemma lay_out_covers:
  assumes "lay_out (index_hard_caps caps) sd ed a cur chs = Inr out" "ch \<in> set chs"
    and "plan_channel (index_hard_caps caps) (max 1 (ed - sd + 1)) ch = Inr (Some (p, n))"
  shows "n \<le> int (length (filter (\<lambda>t. pt_channel_platform t = p) out))"
proof -
  let ?f = "planned_touches caps (max 1 (ed - sd + 1)) p"
  have "?f ch \<in> set (map ?f chs)" using assms(2) by simp
  then have "?f ch \<le> sum_list (map ?f chs)"
  proof (rule member_le_sum_list_nonneg)
    show "\<And>x. x \<in> set (map ?f chs) \<Longrightarrow> 0 \<le> x" using planned_nonneg by auto
  qed
  then show ?thesis using assms(3) by (simp add: lay_out_counts [OF assms(1)] planned_touches_eq)
qed

lemma lay_out_inside:
  "lay_out caps sd ed a cur chs = Inr out \<Longrightarrow> sd \<le> ed \<Longrightarrow> t \<in> set out
   \<Longrightarrow> pt_audience_id t = a \<and> (\<exists>d. sd \<le> d \<and> d \<le> ed \<and> pt_scheduled_at t = days d + hours 9)"
proof (induction chs arbitrary: cur out)
  case (Cons c chs)
  then show ?case
    by (auto simp: Let_def split: sum.splits option.splits prod.splits
        dest!: set_distribute plan_channel_count)
qed simp

text \<open>C15. A generated calendar keeps every promise: it is in schedule order, every touch is for the
  audience and falls at 09:00 of a day between the campaign's first and last, no hard cap is exceeded in
  any window, and every platform gets exactly the touches that the channels of the plan ask for.\<close>

theorem generate_calendar_correct:
  assumes "generate_calendar payload sd ed a caps = Inr out" "sd \<le> ed"
  shows "sorted (map (\<lambda>t. (pt_scheduled_at t, pt_position t)) out)
    \<and> (\<forall>t\<in>set out. pt_audience_id t = a \<and> (\<exists>d. sd \<le> d \<and> d \<le> ed \<and> pt_scheduled_at t = days d + hours 9))
    \<and> (\<forall>cap\<in>set caps. \<forall>p w l start. cap_terms cap = Some (p, w, l) \<longrightarrow> int (touches_in p w start out) \<le> l)
    \<and> (\<exists>chs. py_iter (dict_get_default payload ''channels'' (JArr [])) = Some chs
        \<and> (\<forall>p. int (length (filter (\<lambda>t. pt_channel_platform t = p) out))
             = sum_list (map (planned_touches caps (ed - sd + 1) p) chs)))"
proof -
  from assms(1) obtain chs laid where
    chs: "py_iter (dict_get_default payload ''channels'' (JArr [])) = Some chs"
    and laid: "lay_out (index_hard_caps caps) sd ed a 0 chs = Inr laid"
    and out: "out = sort_key (\<lambda>t. (pt_scheduled_at t, pt_position t)) laid"
    and caps: "enforce_hard_caps out caps = Inr ()"
    by (auto simp: generate_calendar_def Let_def split: option.splits sum.splits)
  have d: "max 1 (ed - sd + 1) = ed - sd + 1" using assms(2) by simp
  have "sorted (map (\<lambda>t. (pt_scheduled_at t, pt_position t)) out)" by (simp add: out)
  moreover have "\<forall>t\<in>set out. pt_audience_id t = a \<and> (\<exists>d. sd \<le> d \<and> d \<le> ed \<and> pt_scheduled_at t = days d + hours 9)"
    using lay_out_inside [OF laid assms(2)] by (simp add: out)
  moreover have "\<forall>cap\<in>set caps. \<forall>p w l start. cap_terms cap = Some (p, w, l) \<longrightarrow> int (touches_in p w start out) \<le> l"
    using caps unfolding enforce_hard_caps_exact by (meson not_le)
  moreover have "\<forall>p. int (length (filter (\<lambda>t. pt_channel_platform t = p) out))
      = sum_list (map (planned_touches caps (ed - sd + 1) p) chs)"
    using lay_out_counts [OF laid, unfolded d] by (simp add: out filter_sort)
  ultimately show ?thesis using chs by blast
qed

section \<open>Frequency warnings are exact\<close>

text \<open>The specification: the touches of the same audience less than a window away, the touch itself
  included.\<close>

definition neighbours :: "planned_touchpoint list \<Rightarrow> duration \<Rightarrow> nat \<Rightarrow> nat" where
  "neighbours tps window i =
     length (filter (\<lambda>j. pt_audience_id (tps ! j) = pt_audience_id (tps ! i) \<and> near tps window i j) [0..<length tps])"

lemma split_slice:
  assumes "lo \<le> mid" "mid \<le> hi"
  shows "slice lo hi xs = slice lo mid xs @ slice mid hi xs"
proof -
  have "take hi xs = take mid xs @ drop mid (take hi xs)"
    using append_take_drop_id [of mid "take hi xs"] assms(2) by (simp add: min_def)
  then have "slice lo hi xs = drop lo (take mid xs @ drop mid (take hi xs))"
    by (simp add: slice_def)
  also have "\<dots> = slice lo mid xs @ slice mid hi xs"
    using assms(1) by (cases "mid \<le> length xs") (simp_all add: slice_def)
  finally show ?thesis .
qed

lemma filter_slice:
  "filter P xs = filter P (take lo (take hi xs)) @ filter P (slice lo hi xs) @ filter P (drop hi xs)"
proof -
  have "xs = take lo (take hi xs) @ slice lo hi xs @ drop hi xs"
    by (metis append.assoc append_take_drop_id slice_def)
  then show ?thesis by (metis filter_append)
qed

lemma filter_slice_le: "length (filter P (slice lo hi xs)) \<le> length (filter P xs)"
  unfolding filter_slice [of P xs lo hi] by simp

lemma slice_all:
  assumes "\<And>m. m < length xs \<Longrightarrow> P (xs ! m) \<Longrightarrow> lo \<le> m \<and> m < hi"
  shows "filter P (slice lo hi xs) = filter P xs"
proof -
  have "filter P (take lo (take hi xs)) = []"
    using assms by (fastforce simp: filter_empty_conv in_set_conv_nth)
  moreover have "\<not> P x" if x: "x \<in> set (drop hi xs)" for x
  proof -
    from x obtain m where m: "m < length (drop hi xs)" "drop hi xs ! m = x"
      unfolding in_set_conv_nth by blast
    then have "hi + m < length xs" "x = xs ! (hi + m)" by auto
    with assms [of "hi + m"] show ?thesis by auto
  qed
  then have "filter P (drop hi xs) = []" by (simp add: filter_empty_conv)
  ultimately show ?thesis by (simp add: filter_slice [of P xs lo hi])
qed

lemma filter_slice_ge:
  assumes "lo \<le> a" "a \<le> b" "b \<le> hi" "b \<le> length xs" "\<And>m. a \<le> m \<Longrightarrow> m < b \<Longrightarrow> P (xs ! m)"
  shows "b - a \<le> length (filter P (slice lo hi xs))"
proof -
  have "filter P (slice a b xs) = slice a b xs"
    unfolding filter_id_conv using assms(4,5) by (auto simp: in_set_conv_nth nth_slice)
  then have "length (filter P (slice a b xs)) = b - a" using assms(4) by simp
  moreover have "slice lo hi xs = slice lo a xs @ slice a b xs @ slice b hi xs"
    using assms(1-3) by (simp add: split_slice [of lo a hi] split_slice [of a b hi])
  ultimately show ?thesis by simp
qed

lemma window_slice_exact:
  fixes f :: "nat \<Rightarrow> int" and w :: int
  assumes sorted: "sorted (map f xs)" and k: "k < length xs"
  defines "P \<equiv> \<lambda>j. \<bar>f j - f (xs ! k)\<bar> < w"
  shows "cap < length (filter P (slice (k - cap * 2) (k + cap * 2 + 1) xs)) \<longleftrightarrow> cap < length (filter P xs)"
    (is "cap < length ?T \<longleftrightarrow> _")
proof
  assume "cap < length ?T"
  then show "cap < length (filter P xs)" using filter_slice_le [of P] by (meson less_le_trans)
next
  assume big: "cap < length (filter P xs)"
  have mono: "f (xs ! i) \<le> f (xs ! j)" if "i \<le> j" "j < length xs" for i j
    using sorted_nth_mono [OF sorted that(1)] that by simp
  show "cap < length ?T"
  proof (cases "\<forall>m<length xs. P (xs ! m) \<longrightarrow> k - cap * 2 \<le> m \<and> m < k + cap * 2 + 1")
    case True
    then have "?T = filter P xs" by (intro slice_all) auto
    with big show ?thesis by simp
  next
    case False
    then obtain m where m: "m < length xs" "P (xs ! m)" "m < k - cap * 2 \<or> k + cap * 2 + 1 \<le> m"
      by (meson not_less)
    from m(3) show ?thesis
    proof
      assume left: "m < k - cap * 2"
      have "P (xs ! x)" if "k - cap * 2 \<le> x" "x < k + 1" for x
        using m(2) mono [of m x] mono [of x k] left that k by (auto simp: P_def)
      from filter_slice_ge [of "k - cap * 2" "k - cap * 2" "k + 1" "k + cap * 2 + 1" xs P, OF _ _ _ _ this]
      have "k + 1 - (k - cap * 2) \<le> length ?T" using k by simp
      with left show ?thesis by linarith
    next
      assume right: "k + cap * 2 + 1 \<le> m"
      have "P (xs ! x)" if "k \<le> x" "x < k + cap * 2 + 1" for x
        using m(2) mono [of x m] mono [of k x] right that m(1) by (auto simp: P_def)
      from filter_slice_ge [of "k - cap * 2" k "k + cap * 2 + 1" "k + cap * 2 + 1" xs P, OF _ _ _ _ this]
      have "k + cap * 2 + 1 - k \<le> length ?T" using m(1) right by simp
      then show ?thesis by linarith
    qed
  qed
qed

lemma set_audience_touches: "set (audience_touches tps a) = {i. i < length tps \<and> pt_audience_id (tps ! i) = a}"
  by (auto simp: audience_touches_def)

lemma distinct_audience_touches: "distinct (audience_touches tps a)"
  by (simp add: audience_touches_def)

lemma in_window_exact:
  assumes "k < length (audience_touches tps a)"
  shows "cap < length (in_window tps cap w (audience_touches tps a) k) \<longleftrightarrow>
    cap < neighbours tps w (audience_touches tps a ! k)"
proof -
  let ?o = "audience_touches tps a" and ?i = "audience_touches tps a ! k"
  have "?i \<in> set ?o" using assms by simp
  then have a: "pt_audience_id (tps ! ?i) = a" by (simp add: set_audience_touches)
  have "neighbours tps w i = length (filter (near tps w i) ?o)" if "pt_audience_id (tps ! i) = a" for i
    using that by (simp add: neighbours_def audience_touches_def filter_sort)
  from this [OF a] have "neighbours tps w ?i = length (filter (near tps w ?i) ?o)" .
  moreover have "sorted (map (\<lambda>i. pt_scheduled_at (tps ! i)) ?o)" by (simp add: audience_touches_def)
  note window_slice_exact [OF this assms, of cap w]
  ultimately show ?thesis by (simp add: in_window_def near_def [abs_def])
qed

lemma length_fold_set_warning [simp]: "length (fold set_warning ws tps) = length tps"
  by (induction ws arbitrary: tps) (auto simp: set_warning_def split: prod.splits)

lemma fold_set_warning_nth:
  assumes "distinct (map fst ws)" "i < length tps"
  shows "fold set_warning ws tps ! i =
    (case map_of ws i of None \<Rightarrow> tps ! i | Some w \<Rightarrow> (tps ! i)\<lparr>pt_frequency_warning := Some w\<rparr>)"
  using assms
proof (induction ws arbitrary: tps)
  case (Cons p ws)
  obtain j w where p: "p = (j, w)" by force
  have "map_of ws j = None" using Cons.prems(1) p by (simp add: map_of_eq_None_iff)
  with Cons p show ?case
    by (cases "j = i") (auto simp: set_warning_def nth_list_update split: option.splits)
qed simp

lemma map_filter_index_alist:
  fixes xs :: "'a list" and Q :: "nat \<Rightarrow> bool" and g :: "nat \<Rightarrow> 'b"
  assumes "distinct xs"
  defines "ws \<equiv> List.map_filter (\<lambda>k. if Q k then Some (xs ! k, g k) else None) [0..<length xs]"
  shows "distinct (map fst ws)" "set (map fst ws) \<subseteq> set xs"
    "k < length xs \<Longrightarrow> map_of ws (xs ! k) = (if Q k then Some (g k) else None)"
proof -
  have ws: "ws = map (\<lambda>k. (xs ! k, g k)) (filter Q [0..<length xs])"
    unfolding ws_def by (induction "[0..<length xs]") (auto simp: List.map_filter_def comp_def)
  have inj: "inj_on ((!) xs) {0..<length xs}"
    using assms(1) by (auto simp: inj_on_def nth_eq_iff_index_eq)
  show d: "distinct (map fst ws)"
    unfolding ws map_map comp_def fst_conv distinct_map
    using inj by (auto intro: inj_on_subset)
  show "set (map fst ws) \<subseteq> set xs" by (auto simp: ws)
  assume k: "k < length xs"
  show "map_of ws (xs ! k) = (if Q k then Some (g k) else None)"
  proof (cases "Q k")
    case True
    then have "(xs ! k, g k) \<in> set ws" using k by (auto simp: ws)
    with d True show ?thesis by (simp add: map_of_is_SomeI)
  next
    case False
    then have "xs ! k \<notin> fst ` set ws"
      using k assms(1) by (auto simp: ws nth_eq_iff_index_eq)
    with False show ?thesis by (simp add: map_of_eq_None_iff)
  qed
qed

lemma audience_warnings_facts:
  shows "distinct (map fst (audience_warnings tps cap w a))"
    and "fst ` set (audience_warnings tps cap w a) \<subseteq> set (audience_touches tps a)"
    and "k < length (audience_touches tps a) \<Longrightarrow>
      map_of (audience_warnings tps cap w a) (audience_touches tps a ! k) =
        (let n = length (in_window tps cap w (audience_touches tps a) k)
         in if cap < n then Some (frequency_warning cap w n) else None)"
  using map_filter_index_alist [OF distinct_audience_touches [of tps a],
      where Q = "\<lambda>k. cap < length (in_window tps cap w (audience_touches tps a) k)"
        and g = "\<lambda>k. frequency_warning cap w (length (in_window tps cap w (audience_touches tps a) k))"]
  by (simp_all add: audience_warnings_def Let_def)

lemma map_of_concat_disjoint:
  assumes "distinct as" "a \<in> set as" "\<And>b. b \<in> set as \<Longrightarrow> b \<noteq> a \<Longrightarrow> i \<notin> fst ` set (f b)"
  shows "map_of (concat (map f as)) i = map_of (f a) i"
  using assms
proof (induction as)
  case (Cons b as)
  show ?case
  proof (cases "b = a")
    case True
    have "map_of (concat (map f as)) i = None"
      unfolding map_of_eq_None_iff
    proof
      assume "i \<in> fst ` set (concat (map f as))"
      then obtain b where "b \<in> set as" "i \<in> fst ` set (f b)" by auto
      with Cons.prems(3) [of b] Cons.prems(1) True show False by auto
    qed
    with True show ?thesis by (simp add: map_add_def split: option.splits)
  next
    case False
    then have "map_of (f b) i = None" using Cons.prems(3) by (simp add: map_of_eq_None_iff)
    with Cons False show ?thesis by (simp add: map_add_def split: option.splits)
  qed
qed simp

lemma distinct_all_warnings:
  assumes "distinct as"
  shows "distinct (map fst (concat (map (audience_warnings tps cap w) as)))"
  using assms
proof (induction as)
  case (Cons a as)
  have own: "pt_audience_id (tps ! i) = b" if "i \<in> fst ` set (audience_warnings tps cap w b)" for i b
    using audience_warnings_facts(2) [of tps cap w b] that by (auto simp: set_audience_touches)
  have "fst ` set (audience_warnings tps cap w a) \<inter> fst ` set (concat (map (audience_warnings tps cap w) as)) = {}"
  proof (rule ccontr)
    assume "\<not> ?thesis"
    then obtain i b where "i \<in> fst ` set (audience_warnings tps cap w a)" "b \<in> set as"
        "i \<in> fst ` set (audience_warnings tps cap w b)" by auto
    with own [of i a] own [of i b] Cons.prems show False by simp
  qed
  with Cons audience_warnings_facts(1) [of tps cap w a] show ?case by simp
qed simp

lemma detect_at:
  assumes i: "i < length tps"
  obtains n where "detect_frequency_warnings cap w tps ! i =
      (tps ! i)\<lparr>pt_frequency_warning := (if cap < neighbours tps w i then Some (frequency_warning cap w n) else None)\<rparr>"
proof -
  let ?a = "pt_audience_id (tps ! i)"
  let ?ws = "concat (map (audience_warnings tps cap w) (remdups (map pt_audience_id tps)))"
  let ?o = "audience_touches tps ?a"
  have "i \<in> set ?o" using i by (simp add: set_audience_touches)
  then obtain k where k: "k < length ?o" "?o ! k = i" by (auto simp: in_set_conv_nth)
  let ?n = "length (in_window tps cap w ?o k)"
  have "i \<notin> fst ` set (audience_warnings tps cap w b)" if "b \<noteq> ?a" for b
    using audience_warnings_facts(2) [of tps cap w b] that by (auto simp: set_audience_touches)
  then have "map_of ?ws i = map_of (audience_warnings tps cap w ?a) i"
    using i by (intro map_of_concat_disjoint) auto
  also have "\<dots> = (if cap < ?n then Some (frequency_warning cap w ?n) else None)"
    using audience_warnings_facts(3) [OF k(1), of cap w] k(2) by (simp add: Let_def)
  also have "cap < ?n \<longleftrightarrow> cap < neighbours tps w i"
    using in_window_exact [OF k(1), of cap w] k(2) by simp
  finally have ws: "map_of ?ws i = (if cap < neighbours tps w i then Some (frequency_warning cap w ?n) else None)" .
  have "distinct (map fst ?ws)" by (rule distinct_all_warnings) simp
  then have "detect_frequency_warnings cap w tps ! i =
      (tps ! i)\<lparr>pt_frequency_warning := (if cap < neighbours tps w i then Some (frequency_warning cap w ?n) else None)\<rparr>"
    using i by (simp add: detect_frequency_warnings_def fold_set_warning_nth ws)
  then show thesis by (rule that)
qed

text \<open>A touchpoint is flagged exactly when more than \<open>cap\<close> touches of its audience lie less than a
  window away from it, although the code only looks at \<open>2 cap\<close> neighbours on either side; nothing
  else of the calendar changes, and stale warnings are cleared.\<close>

theorem frequency_warnings_exact:
  assumes "i < length tps"
  shows "length (detect_frequency_warnings cap w tps) = length tps
    \<and> (pt_frequency_warning (detect_frequency_warnings cap w tps ! i) \<noteq> None \<longleftrightarrow> cap < neighbours tps w i)
    \<and> (detect_frequency_warnings cap w tps ! i)\<lparr>pt_frequency_warning := None\<rparr> = (tps ! i)\<lparr>pt_frequency_warning := None\<rparr>"
proof -
  obtain n where "detect_frequency_warnings cap w tps ! i =
      (tps ! i)\<lparr>pt_frequency_warning := (if cap < neighbours tps w i then Some (frequency_warning cap w n) else None)\<rparr>"
    using detect_at [OF assms] .
  moreover have "length (detect_frequency_warnings cap w tps) = length tps"
    by (simp add: detect_frequency_warnings_def)
  ultimately show ?thesis by simp
qed

section \<open>A concrete calendar\<close>

definition demo_payload :: dict where
  "demo_payload = [(''channels'', JArr [JObj [(''platform'', JStr '' Email ''), (''allocation_pct'', JInt 60)]])]"

definition weekly_cap :: dict where
  "weekly_cap = [(''platform'', JStr ''email''), (''limit'', JInt 1), (''per'', JStr ''week'')]"

definition demo_touch :: "instant \<Rightarrow> planned_touchpoint" where
  "demo_touch when = \<lparr>pt_channel_platform = ''email'', pt_audience_id = 1, pt_scheduled_at = when,
     pt_position = 0, pt_human_override = False, pt_frequency_warning = None\<rparr>"

lemma touch_count_pos: "1 \<le> touch_count a d"
  by (simp add: touch_count_def)

text \<open>Ten days with one email a week allowed: one email, in the middle of the window.\<close>

lemma demo_plan:
  "plan_channel (index_hard_caps [weekly_cap]) 10
     (JObj [(''platform'', JStr '' Email ''), (''allocation_pct'', JInt 60)]) = Inr (Some (''email'', 1))"
proof -
  have idx: "index_hard_caps [weekly_cap] = [(''email'', weekly_cap)]" by code_simp
  have cap: "max_touches_for_cap weekly_cap 10 = 1" by code_simp
  have p: "py_lower (py_strip '' Email '') = ''email''" by code_simp
  show ?thesis
    using touch_count_pos [of 60 10]
    by (simp add: plan_channel_def idx cap p dict_get_default_def decimal_of_def)
qed

lemma demo_calendar: "generate_calendar demo_payload 0 9 1 [weekly_cap] = Inr [demo_touch (days 5 + hours 9)]"
proof -
  have "distribute 1 0 9 ''email'' 1 0 = [demo_touch (days 5 + hours 9)]" by code_simp
  moreover have "enforce_hard_caps [demo_touch (days 5 + hours 9)] [weekly_cap] = Inr ()" by code_simp
  ultimately show ?thesis
    by (simp add: generate_calendar_def demo_payload_def dict_get_default_def demo_plan)
qed

theorem generate_calendar_correct_witness:
  "\<exists>out. generate_calendar demo_payload 0 9 1 [weekly_cap] = Inr out \<and> length out = 1
     \<and> (\<forall>start. int (touches_in ''email'' (days 7) start out) \<le> 1)"
proof -
  have "cap_terms weekly_cap = Some (''email'', days 7, 1)" by code_simp
  with generate_calendar_correct [OF demo_calendar] demo_calendar show ?thesis by force
qed

theorem frequency_warnings_exact_witness:
  "pt_frequency_warning (detect_frequency_warnings 1 (days 7) (map demo_touch [0, days 3, days 20]) ! 0) \<noteq> None"
proof -
  have "1 < neighbours (map demo_touch [0, days 3, days 20]) (days 7) 0" by code_simp
  with frequency_warnings_exact [of 0 "map demo_touch [0, days 3, days 20]" 1 "days 7"] show ?thesis by simp
qed

end
