(* ===== verification/Ab_Assignment.thy ===== *)
theory Ab_Assignment
  imports Models Py_Values "HOL-Library.Product_Lexorder" "HOL-Library.Multiset"
begin

text \<open>
  Per-recipient variant assignment of \<^verbatim>\<open>app/ab_testing/assignment.py\<close>: the coercion of the configured
  traffic split, the deterministic bucket pick and the durable assignment row. The 64-bit blake2b
  digest is the parameter \<open>hash\<close>. The picks are proved to follow the split exactly and to be sticky.
\<close>

section \<open>Picking a variant\<close>

type_synonym split = "(string \<times> int) list"

fun pick_cumulative :: "int \<Rightarrow> int \<Rightarrow> split \<Rightarrow> string option" where
  "pick_cumulative bucket cumulative [] = None"
| "pick_cumulative bucket cumulative ((variant_id, weight) # rest) =
     (if bucket < cumulative + weight then Some variant_id
      else pick_cumulative bucket (cumulative + weight) rest)"

definition pick_bucket :: "split \<Rightarrow> int \<Rightarrow> string" where
  "pick_bucket split bucket =
     (case pick_cumulative bucket 0 (sort split) of
        Some v \<Rightarrow> v
      | None \<Rightarrow> last (sort (map fst split)))"

definition total_weight :: "split \<Rightarrow> int" where
  "total_weight split = sum_list (map snd split)"

definition pick_variant_index ::
  "(string \<Rightarrow> nat) \<Rightarrow> uuid \<Rightarrow> string \<Rightarrow> split \<Rightarrow> string res" where
  "pick_variant_index hash ab_test_id external_id split =
     (if split = [] \<or> total_weight split \<le> 0 then Inl AbTestAssignmentError
      else Inr (pick_bucket split (int (hash (uuid_str ab_test_id @ '':'' @ external_id)) mod total_weight split)))"

text \<open>\<^verbatim>\<open>_coerce_split\<close>: entries that are not integers raise, non-positive weights are dropped.\<close>

fun coerce_items :: "dict \<Rightarrow> split res" where
  "coerce_items [] = Inr []"
| "coerce_items ((k, v) # rest) =
     (case py_int v of
        None \<Rightarrow> Inl AbTestAssignmentError
      | Some weight \<Rightarrow>
          (case coerce_items rest of
             Inl err \<Rightarrow> Inl err
           | Inr out \<Rightarrow> Inr (if weight \<le> 0 then out else (k, weight) # out)))"

definition coerce_split :: "json \<Rightarrow> split res" where
  "coerce_split raw = (case raw of JObj d \<Rightarrow> coerce_items d | _ \<Rightarrow> Inl AbTestAssignmentError)"

section \<open>The durable assignment\<close>

definition same_recipient :: "uuid \<Rightarrow> uuid \<Rightarrow> string \<Rightarrow> ab_test_assignment \<Rightarrow> bool" where
  "same_recipient tenant test external a \<longleftrightarrow>
     asg_tenant_id a = tenant \<and> asg_ab_test_id a = test \<and> asg_external_id a = external"

text \<open>
  \<^verbatim>\<open>assign_variant\<close>. After the first read found no row, the insert meets no conflict in this
  transaction and the final read returns the inserted row. A split key that is not a UUID makes the
  \<^verbatim>\<open>UUID\<close> constructor raise \<^verbatim>\<open>ValueError\<close>.
\<close>

definition assign_variant ::
  "(string \<Rightarrow> nat) \<Rightarrow> uuid \<Rightarrow> uuid \<Rightarrow> string \<Rightarrow> db \<Rightarrow> (uuid \<times> db) res" where
  "assign_variant hash tenant ab_test_id external s =
     (case scalar_one_or_none (filter (same_recipient tenant ab_test_id external) (assignments s)) of
        None \<Rightarrow> Inl MultipleResultsFound
      | Some (Some a) \<Rightarrow> Inr (asg_variant_id a, s)
      | Some None \<Rightarrow>
          (case scalar_one_or_none (filter (\<lambda>t. ab_id t = ab_test_id \<and> ab_tenant_id t = tenant) (ab_tests s)) of
             None \<Rightarrow> Inl MultipleResultsFound
           | Some None \<Rightarrow> Inl AbTestAssignmentError
           | Some (Some test) \<Rightarrow>
               (case coerce_split (ab_traffic_split test) of
                  Inl err \<Rightarrow> Inl err
                | Inr split \<Rightarrow>
                    (case pick_variant_index hash ab_test_id external split of
                       Inl err \<Rightarrow> Inl err
                     | Inr key \<Rightarrow>
                         (case uuid_of_str key of
                            None \<Rightarrow> Inl ValueError
                          | Some v \<Rightarrow>
                              Inr (v, s\<lparr>assignments := assignments s @
                                [\<lparr>asg_tenant_id = tenant, asg_ab_test_id = ab_test_id,
                                  asg_external_id = external, asg_variant_id = v\<rparr>]\<rparr>))))))"

section \<open>The picks follow the split\<close>

abbreviation positive :: "split \<Rightarrow> bool" where
  "positive split \<equiv> \<forall>p\<in>set split. 0 < snd p"

lemma pick_cumulative_range:
  assumes "positive split" "distinct (map fst split)" "c \<le> b"
  shows "pick_cumulative b c split = Some v \<longleftrightarrow>
    (\<exists>pre w post. split = pre @ (v, w) # post \<and> c + total_weight pre \<le> b \<and> b < c + total_weight pre + w)"
  using assms
proof (induction split arbitrary: c)
  case Nil
  then show ?case by simp
next
  case (Cons p split)
  obtain k x where p: "p = (k, x)" by force
  show ?case
  proof (cases "b < c + x")
    case True
    have "pre = [] \<and> v = k" if "p # split = pre @ (v, w) # post" "c + total_weight pre \<le> b" for pre w post
    proof (cases pre)
      case Nil
      with that p show ?thesis by simp
    next
      case (Cons q pre')
      then have "total_weight pre = x + total_weight pre'" "\<forall>r\<in>set pre'. 0 < snd r"
        using that(1) p Cons.prems(1) by (auto simp: total_weight_def)
      moreover from this(2) have "0 \<le> total_weight pre'"
        unfolding total_weight_def by (intro sum_list_nonneg) auto
      ultimately show ?thesis using that(2) True by linarith
    qed
    moreover have "p # split = [] @ (k, x) # split \<and> c + total_weight [] \<le> b \<and> b < c + total_weight [] + x"
      using True Cons.prems(3) p by (simp add: total_weight_def)
    ultimately have "(\<exists>pre w post. p # split = pre @ (v, w) # post \<and> c + total_weight pre \<le> b
        \<and> b < c + total_weight pre + w) \<longleftrightarrow> v = k" by blast
    then show ?thesis using True p by auto
  next
    case False
    then have IH: "pick_cumulative b (c + x) split = Some v \<longleftrightarrow>
        (\<exists>pre w post. split = pre @ (v, w) # post \<and> c + x + total_weight pre \<le> b \<and> b < c + x + total_weight pre + w)"
      using Cons p by simp
    have "(\<exists>pre w post. p # split = pre @ (v, w) # post \<and> c + total_weight pre \<le> b \<and> b < c + total_weight pre + w)
      \<longleftrightarrow> (\<exists>pre w post. split = pre @ (v, w) # post \<and> c + x + total_weight pre \<le> b \<and> b < c + x + total_weight pre + w)"
      (is "?L \<longleftrightarrow> ?R")
    proof
      assume ?L
      then obtain pre w post where *: "p # split = pre @ (v, w) # post"
        "c + total_weight pre \<le> b" "b < c + total_weight pre + w" by blast
      then obtain pre' where "pre = p # pre'" using False p by (cases pre) (auto simp: total_weight_def)
      with * p show ?R
        by (intro exI [of _ pre'] exI [of _ w] exI [of _ post]) (simp add: total_weight_def)
    next
      assume ?R
      then obtain pre w post where "split = pre @ (v, w) # post"
        "c + x + total_weight pre \<le> b" "b < c + x + total_weight pre + w" by blast
      then show ?L using p
        by (intro exI [of _ "p # pre"] exI [of _ w] exI [of _ post]) (simp add: total_weight_def)
    qed
    with False p IH show ?thesis by simp
  qed
qed

lemma total_weight_mset: "mset xs = mset ys \<Longrightarrow> total_weight xs = total_weight ys"
  unfolding total_weight_def by (metis mset_map sum_mset_sum_list)

lemma total_weight_append [simp]: "total_weight (xs @ ys) = total_weight xs + total_weight ys"
  by (simp add: total_weight_def)

lemma total_weight_nonneg: "positive split \<Longrightarrow> 0 \<le> total_weight split"
  unfolding total_weight_def by (intro sum_list_nonneg) auto

lemma total_weight_pos: "positive split \<Longrightarrow> split \<noteq> [] \<Longrightarrow> 0 < total_weight split"
proof (cases split)
  case (Cons p ps)
  assume "positive split"
  with Cons total_weight_nonneg [of ps] show ?thesis by (simp add: total_weight_def)
qed simp

lemma sorted_split:
  assumes "positive split" "distinct (map fst split)"
  shows "positive (sort split)" "distinct (map fst (sort split))" "total_weight (sort split) = total_weight split"
proof -
  show "positive (sort split)" using assms(1) by simp
  show "distinct (map fst (sort split))"
    using assms(2) by (metis distinct_map distinct_sort inj_on_def set_sort)
  show "total_weight (sort split) = total_weight split" by (rule total_weight_mset) simp
qed

lemma key_unique:
  assumes "distinct (map fst xs)" "xs = pre @ (v, w) # post" "xs = pre' @ (v, w') # post'"
  shows "pre' = pre \<and> w' = w"
proof -
  have "(v, w) \<in> set xs" by (simp add: assms(2))
  moreover have "(v, w') \<in> set xs" by (simp add: assms(3))
  ultimately have w: "w' = w" using assms(1) by (meson eq_key_imp_eq_value)
  have "distinct xs" using assms(1) by (simp add: distinct_map)
  then have "length pre = length pre'"
    using assms(2,3) w
    by (metis (no_types, lifting) append_same_eq distinct_append list.distinct(1) append_eq_append_conv_if
        nth_append_length nth_eq_iff_index_eq length_append length_Cons less_add_same_cancel1 zero_less_Suc)
  with assms(2,3) w show ?thesis by simp
qed

lemma pick_bucket_range:
  assumes "positive split" "distinct (map fst split)" "0 \<le> b" "b < total_weight split"
  shows "pick_bucket split b = v \<longleftrightarrow>
    (\<exists>pre w post. sort split = pre @ (v, w) # post \<and> total_weight pre \<le> b \<and> b < total_weight pre + w)"
proof -
  note so = sorted_split [OF assms(1,2)]
  have "pick_cumulative b 0 (sort split) \<noteq> None"
  proof -
    have "pick_cumulative b c xs \<noteq> None" if "c \<le> b" "b < c + total_weight xs" for c xs
      using that by (induction xs arbitrary: c) (auto simp: total_weight_def)
    with assms(3,4) so(3) show ?thesis by simp
  qed
  then obtain u where u: "pick_cumulative b 0 (sort split) = Some u" by blast
  have "pick_bucket split b = v \<longleftrightarrow> pick_cumulative b 0 (sort split) = Some v"
    by (simp add: pick_bucket_def u)
  then show ?thesis
    using pick_cumulative_range [OF so(1,2) assms(3), of v] by simp
qed

text \<open>C14. The deterministic pick honours the traffic split exactly: of the \<open>total\<close> hash buckets, variant
  \<open>v\<close> with weight \<open>w\<close> receives exactly \<open>w\<close>, so every variant gets its configured share and no bucket
  is lost.\<close>

theorem pick_follows_split:
  assumes "positive split" "distinct (map fst split)" "(v, w) \<in> set split"
  shows "int (card {b. 0 \<le> b \<and> b < total_weight split \<and> pick_bucket split b = v}) = w"
proof -
  note so = sorted_split [OF assms(1,2)]
  from assms(3) have "(v, w) \<in> set (sort split)" by simp
  then obtain pre post where sp: "sort split = pre @ (v, w) # post" by (meson split_list)
  have "positive pre" "positive post" using so(1) sp by auto
  then have n: "0 \<le> total_weight pre" "0 \<le> total_weight post" by (auto intro: total_weight_nonneg)
  have tot: "total_weight split = total_weight pre + w + total_weight post"
    using so(3) sp by (simp add: total_weight_def)
  have "{b. 0 \<le> b \<and> b < total_weight split \<and> pick_bucket split b = v} = {total_weight pre..<total_weight pre + w}"
  proof (intro set_eqI iffI)
    fix b assume "b \<in> {b. 0 \<le> b \<and> b < total_weight split \<and> pick_bucket split b = v}"
    with pick_bucket_range [OF assms(1,2), of b v] obtain pre' w' post' where
      "sort split = pre' @ (v, w') # post'" "total_weight pre' \<le> b" "b < total_weight pre' + w'" by auto
    with key_unique [OF so(2) sp, of pre' w' post'] show "b \<in> {total_weight pre..<total_weight pre + w}"
      by simp
  next
    fix b assume "b \<in> {total_weight pre..<total_weight pre + w}"
    with n tot pick_bucket_range [OF assms(1,2), of b v] sp
    show "b \<in> {b. 0 \<le> b \<and> b < total_weight split \<and> pick_bucket split b = v}" by auto
  qed
  moreover have "0 \<le> w" using assms(1,3) by fastforce
  ultimately show ?thesis by simp
qed

theorem pick_follows_split_witness:
  "int (card {b. 0 \<le> b \<and> b < total_weight [(''b'', 30), (''a'', 70)]
     \<and> pick_bucket [(''b'', 30), (''a'', 70)] b = ''b''}) = 30"
  using pick_follows_split [of "[(''b'', 30), (''a'', 70)]" "''b''" 30] by simp

section \<open>Assignments are valid and sticky\<close>

lemma coerce_items_facts:
  "coerce_items d = Inr split \<Longrightarrow> positive split \<and> set (map fst split) \<subseteq> fst ` set d"
proof (induction d arbitrary: split)
  case (Cons p d)
  obtain k v where p: "p = (k, v)" by force
  from Cons.prems p obtain w out where
    "py_int v = Some w" "coerce_items d = Inr out" "split = (if w \<le> 0 then out else (k, w) # out)"
    by (auto split: option.splits sum.splits)
  with Cons.IH [of out] p show ?case by auto
qed simp

lemma distinct_coerce_items:
  "coerce_items d = Inr split \<Longrightarrow> distinct (map fst d) \<Longrightarrow> distinct (map fst split)"
proof (induction d arbitrary: split rule: coerce_items.induct)
  case (2 k v rest)
  from 2(2) obtain out w where out: "coerce_items rest = Inr out" "py_int v = Some w"
    by (auto split: option.splits sum.splits)
  with 2 have "distinct (map fst out)" by simp
  with coerce_items_facts [OF out(1)] 2(2,3) out show ?case by (auto split: if_splits)
qed simp

lemma pick_bucket_key:
  assumes "positive split" "split \<noteq> []"
  shows "pick_bucket split b \<in> fst ` set split"
proof -
  have cum: "pick_cumulative b c xs = Some u \<Longrightarrow> u \<in> fst ` set xs" for c xs u
    by (induction b c xs rule: pick_cumulative.induct) (auto split: if_splits)
  have lst: "last (sort (map fst split)) \<in> fst ` set split"
    using last_in_set [of "sort (map fst split)"] assms(2)
    by (metis image_set length_0_conv length_map length_sort set_sort)
  show ?thesis
    using cum [of 0 "sort split"] lst by (cases "pick_cumulative b 0 (sort split)") (auto simp: pick_bucket_def)
qed

text \<open>A recipient keeps its variant: once assigned, every later call for the same recipient and test
  returns the same variant and writes nothing, whatever happened to the traffic split, the other
  tables and the hash in between, as long as the recipient's assignment row is still there.\<close>

theorem assignment_is_sticky:
  assumes "assign_variant hash tenant test external s = Inr (v, s1)"
    and "filter (same_recipient tenant test external) (assignments s2)
       = filter (same_recipient tenant test external) (assignments s1)"
  shows "assign_variant hash' tenant test external s2 = Inr (v, s2)"
proof -
  have "\<exists>a. filter (same_recipient tenant test external) (assignments s1) = [a] \<and> asg_variant_id a = v"
    using assms(1)
    by (auto simp: assign_variant_def scalar_one_or_none_Some_Some same_recipient_def
        split: option.splits sum.splits)
  with assms(2) show ?thesis by (auto simp: assign_variant_def)
qed

text \<open>A fresh assignment is one of the configured variants with a positive weight, and it is recorded
  for the recipient; the rows of other recipients are untouched.\<close>

theorem assignment_is_configured:
  assumes "assign_variant hash tenant test external s = Inr (v, s')"
    and "filter (same_recipient tenant test external) (assignments s) = []"
  shows "\<exists>t d key w. t \<in> set (ab_tests s) \<and> ab_id t = test \<and> ab_traffic_split t = JObj d
      \<and> (key, w) \<in> set d \<and> uuid_of_str key = Some v
      \<and> s' = s\<lparr>assignments := assignments s @ [\<lparr>asg_tenant_id = tenant, asg_ab_test_id = test,
                 asg_external_id = external, asg_variant_id = v\<rparr>]\<rparr>"
proof -
  from assms obtain t split key where
    t: "filter (\<lambda>t. ab_id t = test \<and> ab_tenant_id t = tenant) (ab_tests s) = [t]"
    and sp: "coerce_split (ab_traffic_split t) = Inr split"
    and key: "pick_variant_index hash test external split = Inr key" "uuid_of_str key = Some v"
    and s': "s' = s\<lparr>assignments := assignments s @ [\<lparr>asg_tenant_id = tenant, asg_ab_test_id = test,
                 asg_external_id = external, asg_variant_id = v\<rparr>]\<rparr>"
    by (auto simp: assign_variant_def scalar_one_or_none_Some_Some split: option.splits sum.splits)
  from sp obtain d where d: "ab_traffic_split t = JObj d" "coerce_items d = Inr split"
    by (auto simp: coerce_split_def split: json.splits)
  from key(1) have ne: "split \<noteq> []" by (auto simp: pick_variant_index_def split: if_splits)
  have "key \<in> fst ` set split"
    using key(1) pick_bucket_key [OF conjunct1 [OF coerce_items_facts [OF d(2)]] ne]
    by (auto simp: pick_variant_index_def split: if_splits)
  with coerce_items_facts [OF d(2)] obtain w where "(key, w) \<in> set d" by auto
  moreover have "t \<in> set (ab_tests s)" "ab_id t = test"
    using arg_cong [OF t, of set] by auto
  ultimately show ?thesis using d(1) key(2) s' by blast
qed

section \<open>Concrete instances\<close>

text \<open>A test whose whole traffic goes to variant 5.\<close>

definition one_arm_test :: ab_test where
  "one_arm_test = \<lparr>ab_id = 9, ab_tenant_id = 1, ab_campaign_id = 7, ab_name = ''t'', ab_hypothesis = None,
     ab_primary_metric = ''open'', ab_status = ABRunning, ab_variant_a_id = Some 5, ab_variant_b_id = None,
     ab_winner_id = None, ab_confidence = None, ab_lift = None, ab_last_evaluated_at = None,
     ab_traffic_split = JObj [(uuid_str 5, JInt 100)], ab_min_runtime_hours = None, ab_max_runtime_hours = None, ab_started_at = None,
     ab_stopped_at = None, ab_created_at = 0\<rparr>"

lemma one_arm_assignment:
  "assign_variant (\<lambda>_. 0) 1 9 ''ext'' (empty_db\<lparr>ab_tests := [one_arm_test]\<rparr>) =
     Inr (5, (empty_db\<lparr>ab_tests := [one_arm_test]\<rparr>)\<lparr>assignments :=
        [\<lparr>asg_tenant_id = 1, asg_ab_test_id = 9, asg_external_id = ''ext'', asg_variant_id = 5\<rparr>]\<rparr>)"
proof -
  have "uuid_of_str (uuid_str 5) = Some 5" by (rule uuid_roundtrip) simp
  then show ?thesis
    by (simp add: assign_variant_def one_arm_test_def coerce_split_def pick_variant_index_def
        total_weight_def pick_bucket_def empty_db_def)
qed

theorem assignment_is_sticky_witness:
  "\<exists>s1. assign_variant (\<lambda>_. 0) 1 9 ''ext'' (empty_db\<lparr>ab_tests := [one_arm_test]\<rparr>) = Inr (5, s1)
     \<and> assign_variant (\<lambda>_. 3) 1 9 ''ext'' (s1\<lparr>ab_tests := []\<rparr>) = Inr (5, s1\<lparr>ab_tests := []\<rparr>)"
  using assignment_is_sticky [OF one_arm_assignment] one_arm_assignment by simp

theorem assignment_is_configured_witness:
  "\<exists>t d key w. t \<in> set [one_arm_test] \<and> ab_id t = 9 \<and> ab_traffic_split t = JObj d
     \<and> (key, w) \<in> set d \<and> uuid_of_str key = Some 5"
proof -
  have "assignments (empty_db\<lparr>ab_tests := [one_arm_test]\<rparr>) = []" by (simp add: empty_db_def)
  with assignment_is_configured [OF one_arm_assignment] show ?thesis by simp
qed

end
