(* ===== verification/Scheduling.thy ===== *)
theory Scheduling
  imports Task_Queue
begin

text \<open>
  The scheduling half of the distribution agent (\<^verbatim>\<open>app/agents/distribution.py\<close>): giving approved assets
  their slot and a dispatch task, pausing a campaign, and resuming its distribution. These are the
  entry hooks of the launch, pause and resume transitions.
  \<open>asset.extra_metadata or {}\<close> is the metadata itself: the column is not nullable.
\<close>

section \<open>Helpers\<close>

definition ensure_distribution_agent :: "env \<Rightarrow> uuid \<Rightarrow> db \<Rightarrow> (agent \<times> db) res" where
  "ensure_distribution_agent e tenant s = ensure_agent e ChannelDistribution ''Channel Distribution'' tenant s"

definition touchpoint_id_for :: "content_asset \<Rightarrow> uuid option" where
  "touchpoint_id_for asset =
     (case dict_get (asset_metadata asset) ''touchpoint_id'' of JStr raw \<Rightarrow> uuid_of_str raw | _ \<Rightarrow> None)"

definition collect_touchpoint_ids :: "content_asset list \<Rightarrow> uuid list" where
  "collect_touchpoint_ids rows = List.map_filter touchpoint_id_for rows"

definition dispatch_skill_for :: "content_asset \<Rightarrow> string option" where
  "dispatch_skill_for asset =
     (case asset_type_of asset of
        TEmail \<Rightarrow> Some ''distribution.dispatch_email''
      | TSocialPost \<Rightarrow> Some ''distribution.dispatch_social''
      | _ \<Rightarrow> None)"

text \<open>The dispatch task both scheduling and resuming enqueue for an asset.\<close>

definition dispatch_request :: "campaign \<Rightarrow> agent \<Rightarrow> content_asset \<Rightarrow> string \<Rightarrow> instant \<Rightarrow> enqueue_request" where
  "dispatch_request camp ag asset skill slot =
     (request (asset_tenant_id asset) (ag_id ag) skill
        [(''asset_id'', JStr (uuid_str (asset_id asset))), (''campaign_id'', JStr (uuid_str (camp_id camp)))])
       \<lparr>rq_campaign_id := Some (camp_id camp), rq_scheduled_for := Some slot\<rparr>"

definition set_meta :: "string \<Rightarrow> json \<Rightarrow> content_asset \<Rightarrow> content_asset" where
  "set_meta k v asset = asset\<lparr>asset_metadata := dict_set (asset_metadata asset) k v\<rparr>"

section \<open>Scheduling approved assets\<close>

definition resolve_slot :: "instant \<Rightarrow> strategy_touchpoint option \<Rightarrow> content_asset \<Rightarrow> content_asset" where
  "resolve_slot now touchpoint asset =
     (case touchpoint of
        Some tp \<Rightarrow>
          if tp_scheduled_at tp \<ge> now then asset\<lparr>asset_scheduled_at := Some (tp_scheduled_at tp)\<rparr>
          else set_meta ''schedule_warning''
                 (JObj [(''kind'', JStr ''past_slot''),
                        (''original_slot'', JStr (isoformat (tp_scheduled_at tp))),
                        (''resolved_at'', JStr (isoformat now))])
                 (asset\<lparr>asset_scheduled_at := Some now\<rparr>)
      | None \<Rightarrow>
          set_meta ''schedule_warning''
            (JObj [(''kind'', JStr ''no_touchpoint''), (''resolved_at'', JStr (isoformat now))])
            (asset\<lparr>asset_scheduled_at := Some (case asset_scheduled_at asset of Some t \<Rightarrow> t | None \<Rightarrow> now)\<rparr>))"

definition slotted :: "instant \<Rightarrow> strategy_touchpoint option \<Rightarrow> content_asset \<Rightarrow> content_asset" where
  "slotted now touchpoint asset = (resolve_slot now touchpoint asset)\<lparr>asset_status_of := AScheduled\<rparr>"

definition no_handler_warning :: "content_asset \<Rightarrow> content_asset" where
  "no_handler_warning asset = set_meta ''schedule_warning''
     (JObj [(''kind'', JStr ''no_dispatch_handler''),
            (''asset_type'', JStr (asset_type_value (asset_type_of asset)))]) asset"

text \<open>The slot of a scheduled asset; the fallback is never used, \<open>slotted\<close> sets the column.\<close>

definition slot_of :: "instant \<Rightarrow> content_asset \<Rightarrow> instant" where
  "slot_of now asset = (case asset_scheduled_at asset of Some t \<Rightarrow> t | None \<Rightarrow> now)"

definition lookup_touchpoint :: "strategy_touchpoint list \<Rightarrow> content_asset \<Rightarrow> strategy_touchpoint option" where
  "lookup_touchpoint tps asset =
     (case touchpoint_id_for asset of
        None \<Rightarrow> None
      | Some i \<Rightarrow> find_row (\<lambda>tp. tp_id tp = i) tps)"

text \<open>The body of the loop: update, audit row, dispatch task.\<close>

definition schedule_asset ::
  "env \<Rightarrow> campaign \<Rightarrow> agent \<Rightarrow> strategy_touchpoint list \<Rightarrow> content_asset \<Rightarrow> db \<Rightarrow> db res" where
  "schedule_asset e camp ag tps asset s =
     (let now = env_now e;
          tp = lookup_touchpoint tps asset;
          asset' = slotted now tp asset;
          s1 = modify_asset e (asset_id asset) (slotted now tp) s;
          s2 = write_audit e (asset_tenant_id asset) ''content_asset'' (asset_id asset) ''scheduled''
                 (Some (SnapAsset asset)) (Some (SnapAsset asset'))
                 [(''prior_slot'', opt_json (JStr \<circ> isoformat) (asset_scheduled_at asset)),
                  (''new_slot'', JStr (isoformat (slot_of now asset'))),
                  (''touchpoint_id'', opt_json (JStr \<circ> uuid_str) (touchpoint_id_for asset))] s1
      in case dispatch_skill_for asset of
           None \<Rightarrow> Inr (modify_asset e (asset_id asset) no_handler_warning s2)
         | Some skill \<Rightarrow>
             map_sum id snd (enqueue_task e (dispatch_request camp ag asset skill (slot_of now asset')) s2))"

definition approved_in :: "campaign \<Rightarrow> content_asset \<Rightarrow> bool" where
  "approved_in camp a \<longleftrightarrow> asset_campaign_id a = camp_id camp \<and> asset_status_of a = AApproved"

text \<open>
  \<^verbatim>\<open>schedule_approved_assets\<close>; the result is the ids of the rows that were scheduled. The touchpoints are
  the rows whose id some asset refers to.
\<close>

definition schedule_approved_assets :: "env \<Rightarrow> campaign \<Rightarrow> db \<Rightarrow> (uuid list \<times> db) res" where
  "schedule_approved_assets e camp s =
     (let rows = filter (approved_in camp) (assets s);
          ids = collect_touchpoint_ids rows;
          tps = filter (\<lambda>tp. tp_id tp \<in> set ids) (touchpoints s)
      in if rows = [] then Inr ([], s)
         else case ensure_distribution_agent e (camp_tenant_id camp) s of
                Inl err \<Rightarrow> Inl err
              | Inr (ag, s1) \<Rightarrow>
                  map_sum id (\<lambda>s2. (map asset_id rows, s2)) (for_each (schedule_asset e camp ag tps) rows s1))"

section \<open>Pausing\<close>

definition pause_campaign :: "env \<Rightarrow> campaign \<Rightarrow> string \<Rightarrow> dict \<Rightarrow> db \<Rightarrow> db" where
  "pause_campaign e camp reason meta s =
     (if camp_status camp = Paused then s
      else let camp' = camp\<lparr>camp_status := Paused\<rparr>;
               s1 = modify_campaign (camp_id camp) (\<lambda>c. c\<lparr>camp_status := Paused\<rparr>) s;
               s2 = snd (cancel_queued_for_campaign e (camp_id camp) s1)
           in write_audit e (camp_tenant_id camp) ''campaign'' (camp_id camp) ''paused''
                (Some (SnapCampaign camp)) (Some (SnapCampaign camp'))
                (dict_merge [(''reason'', JStr reason)] meta) s2)"

definition pause_campaign_on_oauth_revoked :: "env \<Rightarrow> campaign \<Rightarrow> uuid \<Rightarrow> string \<Rightarrow> db \<Rightarrow> db" where
  "pause_campaign_on_oauth_revoked e camp channel provider s =
     pause_campaign e camp ''oauth_revoked''
       [(''provider'', JStr provider), (''channel_id'', JStr (uuid_str channel))] s"

section \<open>Resuming\<close>

definition scheduled_in :: "campaign \<Rightarrow> content_asset \<Rightarrow> bool" where
  "scheduled_in camp a \<longleftrightarrow> asset_campaign_id a = camp_id camp \<and> asset_status_of a = AScheduled"

definition slot_elapsed :: "instant \<Rightarrow> content_asset \<Rightarrow> bool" where
  "slot_elapsed now a \<longleftrightarrow> (case asset_scheduled_at a of None \<Rightarrow> False | Some t \<Rightarrow> t < now)"

definition elapsed_failed :: "instant \<Rightarrow> content_asset \<Rightarrow> content_asset" where
  "elapsed_failed now a =
     set_meta ''elapsed_at'' (JStr (isoformat now))
       (set_meta ''skip_reason'' (JStr ''slot_elapsed_during_pause'') (a\<lparr>asset_status_of := AFailed\<rparr>))"

definition resume_asset :: "env \<Rightarrow> campaign \<Rightarrow> agent \<Rightarrow> content_asset \<Rightarrow> db \<Rightarrow> db res" where
  "resume_asset e camp ag asset s =
     (let now = env_now e
      in if slot_elapsed now asset then
           Inr (write_audit e (asset_tenant_id asset) ''content_asset'' (asset_id asset) ''skipped_elapsed''
                  (Some (SnapAsset asset)) (Some (SnapAsset (elapsed_failed now asset)))
                  [(''reason'', JStr ''slot_elapsed_during_pause'')]
                  (modify_asset e (asset_id asset) (elapsed_failed now) s))
         else case dispatch_skill_for asset of
                None \<Rightarrow> Inr s
              | Some skill \<Rightarrow> map_sum id snd (enqueue_task e (dispatch_request camp ag asset skill (slot_of now asset)) s))"

text \<open>The counters of the summary: assets re-enqueued and assets failed.\<close>

definition resume_distribution_for_campaign :: "env \<Rightarrow> campaign \<Rightarrow> db \<Rightarrow> ((nat \<times> nat) \<times> db) res" where
  "resume_distribution_for_campaign e camp s =
     (let rows = filter (scheduled_in camp) (assets s);
          elapsed = filter (slot_elapsed (env_now e)) rows;
          requeued = filter (\<lambda>a. \<not> slot_elapsed (env_now e) a \<and> dispatch_skill_for a \<noteq> None) rows
      in if rows = [] then Inr ((0, 0), s)
         else case ensure_distribution_agent e (camp_tenant_id camp) s of
                Inl err \<Rightarrow> Inl err
              | Inr (ag, s1) \<Rightarrow>
                  map_sum id (\<lambda>s2. ((length requeued, length elapsed), s2))
                    (for_each (resume_asset e camp ag) rows s1))"

section \<open>What scheduling does\<close>

lemma enqueue_dispatch [simp]:
  "enqueue_task e (dispatch_request camp ag a skill slot) s = Inr (insert_task e (dispatch_request camp ag a skill slot) s)"
  by (rule enqueue_without_key) (simp_all add: dispatch_request_def request_def)

lemma set_meta_keeps [simp]:
  "asset_id (set_meta k v a) = asset_id a" "asset_type_of (set_meta k v a) = asset_type_of a"
  "asset_status_of (set_meta k v a) = asset_status_of a" "asset_scheduled_at (set_meta k v a) = asset_scheduled_at a"
  "asset_campaign_id (set_meta k v a) = asset_campaign_id a" "asset_is_required (set_meta k v a) = asset_is_required a"
  by (simp_all add: set_meta_def)

lemma slotted_keeps [simp]:
  "asset_id (slotted now tp a) = asset_id a" "asset_status_of (slotted now tp a) = AScheduled"
  "asset_type_of (slotted now tp a) = asset_type_of a"
  by (simp_all add: slotted_def resolve_slot_def split: option.splits)

lemma no_handler_keeps [simp]:
  "asset_id (no_handler_warning a) = asset_id a" "asset_status_of (no_handler_warning a) = asset_status_of a"
  "asset_scheduled_at (no_handler_warning a) = asset_scheduled_at a"
  by (simp_all add: no_handler_warning_def)

lemma stamped_simps [simp]:
  "asset_status_of (stamped e f a) = asset_status_of (f a)"
  "asset_scheduled_at (stamped e f a) = asset_scheduled_at (f a)"
  "asset_type_of (stamped e f a) = asset_type_of (f a)"
  by (simp_all add: stamped_def)

text \<open>The row an approved asset ends as.\<close>

definition scheduled_row :: "env \<Rightarrow> strategy_touchpoint list \<Rightarrow> content_asset \<Rightarrow> content_asset" where
  "scheduled_row e tps a =
     (let a1 = stamped e (slotted (env_now e) (lookup_touchpoint tps a)) a
      in if dispatch_skill_for a = None then stamped e no_handler_warning a1 else a1)"

definition task_for :: "env \<Rightarrow> campaign \<Rightarrow> agent \<Rightarrow> strategy_touchpoint list \<Rightarrow> content_asset \<Rightarrow> task \<Rightarrow> bool" where
  "task_for e camp ag tps a t \<longleftrightarrow>
     (\<exists>i skill. dispatch_skill_for a = Some skill
        \<and> t = new_task e (dispatch_request camp ag a skill (slot_of (env_now e) (slotted (env_now e) (lookup_touchpoint tps a) a))) i)"

lemma scheduled_row_id [simp]: "asset_id (scheduled_row e tps a) = asset_id a"
  by (simp add: scheduled_row_def Let_def)

lemma schedule_asset_effect:
  assumes "schedule_asset e camp ag tps a s = Inr s'"
    and "\<forall>x\<in>set (assets s). asset_id x = asset_id a \<longrightarrow> x = a"
  shows "assets s' = update_where (\<lambda>x. asset_id x = asset_id a) (scheduled_row e tps) (assets s)"
proof -
  let ?f = "slotted (env_now e) (lookup_touchpoint tps a)"
  show "assets s' = update_where (\<lambda>x. asset_id x = asset_id a) (scheduled_row e tps) (assets s)"
  proof (cases "dispatch_skill_for a")
    case None
    then have "assets s' = update_where (\<lambda>x. asset_id x = asset_id a) (\<lambda>x. stamped e no_handler_warning (stamped e ?f x)) (assets s)"
      using assms(1) by (auto simp: schedule_asset_def Let_def update_where_update_key)
    also have "\<dots> = update_where (\<lambda>x. asset_id x = asset_id a) (scheduled_row e tps) (assets s)"
      by (rule update_where_same_row [OF assms(2)]) (simp_all add: None scheduled_row_def Let_def)
    finally show ?thesis .
  next
    case (Some skill)
    then have "assets s' = update_where (\<lambda>x. asset_id x = asset_id a) (stamped e ?f) (assets s)"
      using assms(1) by (auto simp: schedule_asset_def Let_def)
    also have "\<dots> = update_where (\<lambda>x. asset_id x = asset_id a) (scheduled_row e tps) (assets s)"
      by (rule update_where_same_row [OF assms(2)]) (simp_all add: Some scheduled_row_def Let_def)
    finally show ?thesis .
  qed
qed

lemma schedule_asset_tasks:
  assumes "schedule_asset e camp ag tps a s = Inr s'"
  shows "\<exists>new. tasks s' = tasks s @ new
    \<and> list_all2 (task_for e camp ag tps) (filter (\<lambda>a. dispatch_skill_for a \<noteq> None) [a]) new"
proof (cases "dispatch_skill_for a")
  case None
  then show ?thesis using assms by (auto simp: schedule_asset_def Let_def)
next
  case (Some skill)
  then show ?thesis using assms by (auto simp: schedule_asset_def Let_def task_for_def)
qed

text \<open>
  The shape scheduling and resuming share: a loop over the rows of a query whose body rewrites the
  row it is at and appends a task for some rows. Over rows with distinct keys the whole loop rewrites
  exactly the queried rows and appends the tasks in order.
\<close>

locale asset_loop =
  fixes body :: "content_asset \<Rightarrow> db \<Rightarrow> db res"
    and final :: "content_asset \<Rightarrow> content_asset"
    and makes :: "content_asset \<Rightarrow> bool"
    and spawns :: "content_asset \<Rightarrow> task \<Rightarrow> bool"
  assumes final_id: "asset_id (final a) = asset_id a"
    and body_assets: "body a s = Inr s' \<Longrightarrow> \<forall>x\<in>set (assets s). asset_id x = asset_id a \<longrightarrow> x = a
        \<Longrightarrow> assets s' = update_where (\<lambda>x. asset_id x = asset_id a) final (assets s)"
    and body_tasks: "body a s = Inr s' \<Longrightarrow>
        \<exists>new. tasks s' = tasks s @ new \<and> list_all2 spawns (filter makes [a]) new"
begin

lemma loop_effect:
  assumes "for_each body rows s = Inr s'" "distinct (map asset_id rows)"
    and "\<forall>r\<in>set rows. \<forall>x\<in>set (assets s). asset_id x = asset_id r \<longrightarrow> x = r"
  shows "assets s' = update_where (\<lambda>x. asset_id x \<in> asset_id ` set rows) final (assets s)
    \<and> (\<exists>new. tasks s' = tasks s @ new \<and> list_all2 spawns (filter makes rows) new)"
  using assms
proof (induction rows arbitrary: s)
  case Nil
  from Nil.prems(1) show ?case by simp
next
  case (Cons a rows)
  from Cons.prems(1) obtain s1 where s1: "body a s = Inr s1" "for_each body rows s1 = Inr s'"
    by (auto split: sum.splits)
  have "\<forall>x\<in>set (assets s). asset_id x = asset_id a \<longrightarrow> x = a"
    by (rule bspec [OF Cons.prems(3)]) simp
  note eff = body_assets [OF s1(1) this]
  have new: "asset_id r \<noteq> asset_id a" if "r \<in> set rows" for r
    using Cons.prems(2) that by (auto simp: image_iff)
  have keep: "\<forall>r\<in>set rows. \<forall>x\<in>set (assets s1). asset_id x = asset_id r \<longrightarrow> x = r"
  proof (intro ballI impI)
    fix r x assume r: "r \<in> set rows" and x: "x \<in> set (assets s1)" "asset_id x = asset_id r"
    from x(1) have "x \<in> set (update_where (\<lambda>x. asset_id x = asset_id a) final (assets s))"
      by (simp only: eff)
    then have "x \<in> set (assets s)"
      by (cases rule: in_update_whereE) (use new [OF r] x(2) final_id in auto)
    with Cons.prems(3) r x(2) show "x = r" by (metis list.set_intros(2))
  qed
  have d: "distinct (map asset_id rows)" "asset_id a \<notin> asset_id ` set rows" using Cons.prems(2) by auto
  note IH = Cons.IH [OF s1(2) d(1) keep]
  have "assets s' = update_where (\<lambda>x. asset_id x \<in> asset_id ` set (a # rows)) final (assets s)"
    using conjunct1 [OF IH] d(2) by (simp add: eff update_where_update_where final_id)
  moreover obtain n1 where n1: "tasks s1 = tasks s @ n1" "list_all2 spawns (filter makes [a]) n1"
    using body_tasks [OF s1(1)] by (elim exE conjE)
  obtain n2 where n2: "tasks s' = tasks s1 @ n2" "list_all2 spawns (filter makes rows) n2"
    using conjunct2 [OF IH] by (elim exE conjE)
  have "list_all2 spawns (filter makes ([a] @ rows)) (n1 @ n2)"
    unfolding filter_append by (rule list_all2_appendI [OF n1(2) n2(2)])
  ultimately show ?case
    by (intro conjI exI [of _ "n1 @ n2"]) (simp_all only: n1(1) n2(1) append_assoc append_Cons append_Nil)
qed

text \<open>The same for the rows a query selects from the asset table itself.\<close>

lemma query_loop_effect:
  assumes "for_each body (filter P (assets s)) s1 = Inr s'" "distinct (map asset_id (assets s))"
    and "assets s1 = assets s" "tasks s1 = tasks s"
  shows "assets s' = update_where P final (assets s)
    \<and> (\<exists>new. tasks s' = tasks s @ new \<and> list_all2 spawns (filter makes (filter P (assets s))) new)"
proof -
  have "distinct (map asset_id (filter P (assets s)))" using assms(2) by (simp add: distinct_map_filter)
  moreover have "\<forall>r\<in>set (filter P (assets s)). \<forall>x\<in>set (assets s1). asset_id x = asset_id r \<longrightarrow> x = r"
    using assms(2) by (auto simp: assms(3) distinct_map inj_on_def)
  ultimately have eff: "assets s' = update_where (\<lambda>x. asset_id x \<in> asset_id ` set (filter P (assets s))) final (assets s1)"
    "\<exists>new. tasks s' = tasks s1 @ new \<and> list_all2 spawns (filter makes (filter P (assets s))) new"
    using loop_effect [OF assms(1)] by (simp_all only:)
  have "assets s' = update_where P final (assets s)"
    unfolding eff(1) assms(3) by (rule update_where_cong) (use key_in_filter [OF assms(2)] in auto)
  with eff(2) show ?thesis by (simp add: assms(4))
qed

end

interpretation scheduling: asset_loop "schedule_asset e camp ag tps" "scheduled_row e tps"
  "\<lambda>a. dispatch_skill_for a \<noteq> None" "task_for e camp ag tps" for e camp ag tps
  by unfold_locales (simp, erule (1) schedule_asset_effect, erule schedule_asset_tasks)

lemma lookup_in_collected:
  "a \<in> set rows \<Longrightarrow>
     lookup_touchpoint (filter (\<lambda>tp. tp_id tp \<in> set (collect_touchpoint_ids rows)) tps) a = lookup_touchpoint tps a"
proof (cases "touchpoint_id_for a")
  case (Some i)
  assume "a \<in> set rows"
  with Some have i: "i \<in> set (collect_touchpoint_ids rows)"
    by (force simp: collect_touchpoint_ids_def List.map_filter_def)
  have "find_row (\<lambda>tp. tp_id tp = i) (filter (\<lambda>tp. tp_id tp \<in> K) tps) = find_row (\<lambda>tp. tp_id tp = i) tps"
    if "i \<in> K" for K using that by (induction tps) (auto simp: find_row_def)
  with i Some show ?thesis by (simp add: lookup_touchpoint_def)
qed (simp add: lookup_touchpoint_def)

lemma schedule_approved_assets_result:
  assumes "schedule_approved_assets e camp s = Inr (ids, s')" "distinct (map asset_id (assets s))"
  shows "assets s' = update_where (approved_in camp) (scheduled_row e (touchpoints s)) (assets s)"
    and "\<exists>ag new. tasks s' = tasks s @ new
      \<and> list_all2 (task_for e camp ag (touchpoints s))
           (filter (\<lambda>a. dispatch_skill_for a \<noteq> None) (filter (approved_in camp) (assets s))) new"
proof -
  let ?rows = "filter (approved_in camp) (assets s)"
  let ?tps = "filter (\<lambda>tp. tp_id tp \<in> set (collect_touchpoint_ids ?rows)) (touchpoints s)"
  have row_eq: "scheduled_row e ?tps a = scheduled_row e (touchpoints s) a"
    "task_for e camp ag ?tps a = task_for e camp ag (touchpoints s) a" if "a \<in> set ?rows" for a ag
    using lookup_in_collected [OF that] by (simp_all add: scheduled_row_def task_for_def [abs_def])
  have "assets s' = update_where (approved_in camp) (scheduled_row e (touchpoints s)) (assets s) \<and>
    (\<exists>ag new. tasks s' = tasks s @ new \<and> list_all2 (task_for e camp ag (touchpoints s))
           (filter (\<lambda>a. dispatch_skill_for a \<noteq> None) ?rows) new)"
  proof (cases "?rows = []")
    case True
    then have "s' = s" using assms(1) by (auto simp: schedule_approved_assets_def Let_def)
    moreover have "update_where (approved_in camp) (scheduled_row e (touchpoints s)) (assets s) = assets s"
      using True by (simp add: filter_empty_conv update_where_def map_idI)
    ultimately show ?thesis using True by simp
  next
    case False
    with assms(1) obtain ag s1 where
      s1: "ensure_distribution_agent e (camp_tenant_id camp) s = Inr (ag, s1)"
      "for_each (schedule_asset e camp ag ?tps) ?rows s1 = Inr s'"
      by (auto simp: schedule_approved_assets_def Let_def split: sum.splits)
    then have s1s: "assets s1 = assets s" "tasks s1 = tasks s"
      by (auto simp: ensure_distribution_agent_def dest!: ensure_agent_frame)
    note loop = scheduling.query_loop_effect [OF s1(2) assms(2) s1s]
    have "assets s' = update_where (approved_in camp) (scheduled_row e (touchpoints s)) (assets s)"
      unfolding conjunct1 [OF loop] by (rule update_where_cong) (use row_eq(1) in auto)
    moreover from conjunct2 [OF loop] have "\<exists>new. tasks s' = tasks s @ new
         \<and> list_all2 (task_for e camp ag (touchpoints s)) (filter (\<lambda>a. dispatch_skill_for a \<noteq> None) ?rows) new"
      by (blast intro: list.rel_mono_strong row_eq(2) [THEN fun_cong, THEN iffD1] dest: filter_is_subset [THEN subsetD])
    ultimately show ?thesis by blast
  qed
  then show "assets s' = update_where (approved_in camp) (scheduled_row e (touchpoints s)) (assets s)"
    and "\<exists>ag new. tasks s' = tasks s @ new
      \<and> list_all2 (task_for e camp ag (touchpoints s))
           (filter (\<lambda>a. dispatch_skill_for a \<noteq> None) (filter (approved_in camp) (assets s))) new" by auto
qed

lemma slot_of_slotted:
  "asset_scheduled_at (slotted now tp a) = Some (slot_of now (slotted now tp a))"
  by (simp add: slotted_def resolve_slot_def slot_of_def split: option.splits)

lemma slot_with_touchpoint: "slot_of now (slotted now (Some tp) a) = max now (tp_scheduled_at tp)"
  by (simp add: slotted_def resolve_slot_def slot_of_def set_meta_def)

lemma scheduled_row_facts:
  "asset_status_of (scheduled_row e tps a) = AScheduled"
  "asset_scheduled_at (scheduled_row e tps a) = Some (slot_of (env_now e) (slotted (env_now e) (lookup_touchpoint tps a) a))"
  by (simp_all add: scheduled_row_def Let_def slot_of_slotted)

lemma get_asset_update_where:
  "(\<And>x. asset_id (f x) = asset_id x) \<Longrightarrow> assets s' = update_where P f (assets s)
   \<Longrightarrow> get_asset i s' = map_option (\<lambda>a. if P a then f a else a) (get_asset i s)"
  by (simp add: get_asset_def find_row_update_where)

lemma get_asset_in: "distinct (map asset_id (assets s)) \<Longrightarrow> a \<in> set (assets s) \<Longrightarrow> get_asset (asset_id a) s = Some a"
  by (simp add: get_asset_def find_row_distinct)

lemma task_for_facts:
  assumes "task_for e camp ag tps a t" "dispatch_skill_for a = Some skill"
  shows "task_status_of t = TQueued \<and> task_skill_name t = skill
    \<and> task_scheduled_for t = slot_of (env_now e) (slotted (env_now e) (lookup_touchpoint tps a) a)
    \<and> task_campaign_id t = Some (camp_id camp)
    \<and> dict_get (task_input_data t) ''asset_id'' = JStr (uuid_str (asset_id a))"
  using assms by (auto simp: task_for_def new_task_def dispatch_request_def request_def dict_get_def)

text \<open>C11. Launching a campaign leaves no approved asset behind: every approved asset becomes
  \<open>scheduled\<close> with a slot, which is its touchpoint's slot or now if that has passed; every email and
  social asset has a queued dispatch task for that slot and that asset; all other assets are
  untouched.\<close>

theorem schedule_approved_assets_correct:
  assumes run: "schedule_approved_assets e camp s = Inr (ids, s')" and dist: "distinct (map asset_id (assets s))"
    and a: "a \<in> set (assets s)"
  shows "if approved_in camp a
    then \<exists>a' slot. get_asset (asset_id a) s' = Some a' \<and> asset_status_of a' = AScheduled
        \<and> asset_scheduled_at a' = Some slot
        \<and> (\<forall>tp. lookup_touchpoint (touchpoints s) a = Some tp \<longrightarrow> slot = max (env_now e) (tp_scheduled_at tp))
        \<and> (\<forall>skill. dispatch_skill_for a = Some skill \<longrightarrow>
             (\<exists>t\<in>set (tasks s'). task_status_of t = TQueued \<and> task_skill_name t = skill
                \<and> task_scheduled_for t = slot \<and> task_campaign_id t = Some (camp_id camp)
                \<and> dict_get (task_input_data t) ''asset_id'' = JStr (uuid_str (asset_id a))))
    else get_asset (asset_id a) s' = Some a"
proof -
  note res = schedule_approved_assets_result [OF run dist]
  let ?tp = "lookup_touchpoint (touchpoints s) a"
  let ?slot = "slot_of (env_now e) (slotted (env_now e) ?tp a)"
  have get: "get_asset (asset_id a) s' = Some (if approved_in camp a then scheduled_row e (touchpoints s) a else a)"
    using get_asset_update_where [OF scheduled_row_id res(1)] get_asset_in [OF dist a] by simp
  show ?thesis
  proof (cases "approved_in camp a")
    case True
    have tsk: "\<exists>t\<in>set (tasks s'). task_status_of t = TQueued \<and> task_skill_name t = skill
        \<and> task_scheduled_for t = ?slot \<and> task_campaign_id t = Some (camp_id camp)
        \<and> dict_get (task_input_data t) ''asset_id'' = JStr (uuid_str (asset_id a))"
      if skill: "dispatch_skill_for a = Some skill" for skill
    proof -
      from res(2) obtain ag new where new: "tasks s' = tasks s @ new"
        "list_all2 (task_for e camp ag (touchpoints s))
           (filter (\<lambda>a. dispatch_skill_for a \<noteq> None) (filter (approved_in camp) (assets s))) new" by blast
      have "a \<in> set (filter (\<lambda>a. dispatch_skill_for a \<noteq> None) (filter (approved_in camp) (assets s)))"
        using a True skill by simp
      from list_all2_member [OF new(2) this] obtain t where t: "t \<in> set new" "task_for e camp ag (touchpoints s) a t"
        by (elim bexE)
      from t(1) new(1) have "t \<in> set (tasks s')" by simp
      with task_for_facts [OF t(2) skill] show ?thesis by (intro bexI [of _ t])
    qed
    show ?thesis
      unfolding if_P [OF True]
    proof (intro exI conjI)
      show "get_asset (asset_id a) s' = Some (scheduled_row e (touchpoints s) a)" using get True by simp
      show "asset_scheduled_at (scheduled_row e (touchpoints s) a) = Some ?slot" by (rule scheduled_row_facts)
      show "\<forall>tp. ?tp = Some tp \<longrightarrow> ?slot = max (env_now e) (tp_scheduled_at tp)"
        by (simp add: slot_with_touchpoint)
      show "\<forall>skill. dispatch_skill_for a = Some skill \<longrightarrow>
             (\<exists>t\<in>set (tasks s'). task_status_of t = TQueued \<and> task_skill_name t = skill
                \<and> task_scheduled_for t = ?slot \<and> task_campaign_id t = Some (camp_id camp)
                \<and> dict_get (task_input_data t) ''asset_id'' = JStr (uuid_str (asset_id a)))"
        by (intro allI impI tsk)
    qed (rule scheduled_row_facts)
  qed (simp add: get)
qed

section \<open>What pausing does\<close>

text \<open>Pausing a campaign that is not paused sets its status, leaves no task of it to be claimed ever
  after (until something is enqueued again), and writes one audit entry with the reason; pausing a
  paused campaign changes nothing.\<close>

theorem pause_campaign_correct:
  assumes "get_campaign (camp_id camp) s = Some camp" "pause_campaign e camp reason meta s = s'"
  shows "if camp_status camp = Paused then s' = s
    else get_campaign (camp_id camp) s' = Some (camp\<lparr>camp_status := Paused\<rparr>)
      \<and> (\<forall>e' w l locked t s''. claim_next e' w l locked s' = (Some t, s'') \<longrightarrow> task_campaign_id t \<noteq> Some (camp_id camp))
      \<and> (\<exists>au. audit_log s' = audit_log s @ [au] \<and> au_action au = ''paused'' \<and> au_entity_id au = camp_id camp)"
proof (cases "camp_status camp = Paused")
  case False
  let ?u = "\<lambda>c. c\<lparr>camp_status := Paused\<rparr>"
  have t: "tasks s' = update_where (cancellable (camp_id camp)) (cancelled e) (tasks s)"
    using False assms(2) by (auto simp: pause_campaign_def cancel_queued_for_campaign_def Let_def)
  have "campaigns s' = campaigns (modify_campaign (camp_id camp) ?u s)"
    using False assms(2) by (auto simp: pause_campaign_def cancel_queued_for_campaign_def Let_def)
  then have "get_campaign (camp_id camp) s' = Some (camp\<lparr>camp_status := Paused\<rparr>)"
    using campaign_table.get_modify_same [of ?u "camp_id camp" s camp] assms(1) by (simp add: get_campaign_def)
  moreover have "\<exists>au. audit_log s' = audit_log s @ [au] \<and> au_action au = ''paused'' \<and> au_entity_id au = camp_id camp"
    using False assms(2)
    by (auto simp: pause_campaign_def cancel_queued_for_campaign_def Let_def write_audit_def modify_campaign_def)
  ultimately show ?thesis using False cancelled_not_claimed [OF t] by simp
qed (use assms(2) in \<open>simp add: pause_campaign_def\<close>)

section \<open>What resuming does\<close>

definition resumed_row :: "env \<Rightarrow> content_asset \<Rightarrow> content_asset" where
  "resumed_row e a = (if slot_elapsed (env_now e) a then stamped e (elapsed_failed (env_now e)) a else a)"

definition resumes :: "env \<Rightarrow> content_asset \<Rightarrow> bool" where
  "resumes e a \<longleftrightarrow> \<not> slot_elapsed (env_now e) a \<and> dispatch_skill_for a \<noteq> None"

definition resume_task_for :: "env \<Rightarrow> campaign \<Rightarrow> agent \<Rightarrow> content_asset \<Rightarrow> task \<Rightarrow> bool" where
  "resume_task_for e camp ag a t \<longleftrightarrow>
     (\<exists>i skill. dispatch_skill_for a = Some skill
        \<and> t = new_task e (dispatch_request camp ag a skill (slot_of (env_now e) a)) i)"

lemma elapsed_failed_keeps [simp]:
  "asset_id (elapsed_failed now a) = asset_id a" "asset_status_of (elapsed_failed now a) = AFailed"
  by (simp_all add: elapsed_failed_def)

lemma resumed_row_id [simp]: "asset_id (resumed_row e a) = asset_id a"
  by (simp add: resumed_row_def)

lemma update_key_id: "(\<And>x. key x = k \<Longrightarrow> x \<in> set rows \<Longrightarrow> f x = x) \<Longrightarrow> update_where (\<lambda>x. key x = k) f rows = rows"
  by (induction rows) auto

lemma resume_asset_effect:
  assumes "resume_asset e camp ag a s = Inr s'" "\<forall>x\<in>set (assets s). asset_id x = asset_id a \<longrightarrow> x = a"
  shows "assets s' = update_where (\<lambda>x. asset_id x = asset_id a) (resumed_row e) (assets s)"
proof (cases "slot_elapsed (env_now e) a")
  case True
  then have "assets s' = update_where (\<lambda>x. asset_id x = asset_id a) (stamped e (elapsed_failed (env_now e))) (assets s)"
    using assms(1) by (auto simp: resume_asset_def Let_def)
  also have "\<dots> = update_where (\<lambda>x. asset_id x = asset_id a) (resumed_row e) (assets s)"
    by (rule update_where_same_row [OF assms(2)]) (simp add: resumed_row_def True)
  finally show ?thesis .
next
  case False
  then have "assets s' = assets s"
    using assms(1) by (auto simp: resume_asset_def Let_def split: option.splits)
  moreover have "update_where (\<lambda>x. asset_id x = asset_id a) (resumed_row e) (assets s) = assets s"
  proof (rule update_key_id)
    fix x assume "asset_id x = asset_id a" "x \<in> set (assets s)"
    with assms(2) have "x = a" by blast
    with False show "resumed_row e x = x" by (simp add: resumed_row_def)
  qed
  ultimately show ?thesis by simp
qed

lemma resume_asset_tasks:
  "resume_asset e camp ag a s = Inr s' \<Longrightarrow>
     \<exists>new. tasks s' = tasks s @ new \<and> list_all2 (resume_task_for e camp ag) (filter (resumes e) [a]) new"
  by (cases "dispatch_skill_for a")
    (auto simp: resume_asset_def Let_def resumes_def resume_task_for_def split: if_splits)

interpretation resuming: asset_loop "resume_asset e camp ag" "resumed_row e" "resumes e"
  "resume_task_for e camp ag" for e camp ag
  by unfold_locales (simp, erule (1) resume_asset_effect, erule resume_asset_tasks)

text \<open>Resuming a campaign treats every scheduled asset by its slot: one whose slot passed during the
  pause fails with the reason recorded, one whose slot is still ahead gets a fresh dispatch task for
  it, everything else is untouched; the summary counts both groups.\<close>

theorem resume_distribution_correct:
  assumes run: "resume_distribution_for_campaign e camp s = Inr ((requeued, elapsed), s')"
    and dist: "distinct (map asset_id (assets s))"
  shows "assets s' = update_where (\<lambda>a. scheduled_in camp a \<and> slot_elapsed (env_now e) a)
           (stamped e (elapsed_failed (env_now e))) (assets s)
    \<and> elapsed = length (filter (\<lambda>a. scheduled_in camp a \<and> slot_elapsed (env_now e) a) (assets s))
    \<and> (\<exists>ag new. tasks s' = tasks s @ new \<and> length new = requeued
         \<and> list_all2 (resume_task_for e camp ag) (filter (resumes e) (filter (scheduled_in camp) (assets s))) new)"
proof (cases "filter (scheduled_in camp) (assets s) = []")
  case True
  then have "s' = s" "requeued = 0" "elapsed = 0"
    using run by (auto simp: resume_distribution_for_campaign_def Let_def)
  moreover have "update_where (\<lambda>a. scheduled_in camp a \<and> slot_elapsed (env_now e) a)
      (stamped e (elapsed_failed (env_now e))) (assets s) = assets s"
    using True by (simp add: filter_empty_conv update_where_def map_idI)
  ultimately show ?thesis using True by (simp add: filter_empty_conv)
next
  case False
  with run obtain ag s1 where
    s1: "ensure_distribution_agent e (camp_tenant_id camp) s = Inr (ag, s1)"
      "for_each (resume_asset e camp ag) (filter (scheduled_in camp) (assets s)) s1 = Inr s'"
    and n: "requeued = length (filter (resumes e) (filter (scheduled_in camp) (assets s)))"
      "elapsed = length (filter (slot_elapsed (env_now e)) (filter (scheduled_in camp) (assets s)))"
    by (auto simp: resume_distribution_for_campaign_def resumes_def Let_def split: sum.splits)
  have s1s: "assets s1 = assets s" "tasks s1 = tasks s"
    using s1(1) by (auto simp: ensure_distribution_agent_def dest!: ensure_agent_frame)
  note loop = resuming.query_loop_effect [OF s1(2) dist s1s]
  have "assets s' = update_where (\<lambda>a. scheduled_in camp a \<and> slot_elapsed (env_now e) a)
      (stamped e (elapsed_failed (env_now e))) (assets s)"
    unfolding conjunct1 [OF loop] by (simp add: update_where_def resumed_row_def)
  moreover obtain new where new: "tasks s' = tasks s @ new"
      "list_all2 (resume_task_for e camp ag) (filter (resumes e) (filter (scheduled_in camp) (assets s))) new"
    using conjunct2 [OF loop] by blast
  moreover have "length new = requeued" using list_all2_lengthD [OF new(2)] n(1) by simp
  moreover have "elapsed = length (filter (\<lambda>a. scheduled_in camp a \<and> slot_elapsed (env_now e) a) (assets s))"
    by (simp add: n(2))
  ultimately show ?thesis by blast
qed

section \<open>Concrete instances\<close>

lemma ensure_distribution_agent_fresh:
  "agents s = [] \<Longrightarrow> \<exists>ag s'. ensure_distribution_agent e ten s = Inr (ag, s')"
  by (auto simp: ensure_distribution_agent_def ensure_agent_def)

lemma schedule_asset_total: "\<exists>s'. schedule_asset e camp ag tps a s = Inr s'"
  by (auto simp: schedule_asset_def Let_def split: option.splits)

lemma resume_asset_total: "\<exists>s'. resume_asset e camp ag a s = Inr s'"
  by (auto simp: resume_asset_def Let_def split: option.splits)

lemma schedule_approved_assets_total:
  assumes "agents s = []"
  shows "\<exists>ids s'. schedule_approved_assets e camp s = Inr (ids, s')"
proof -
  obtain ag s1 where "ensure_distribution_agent e (camp_tenant_id camp) s = Inr (ag, s1)"
    using ensure_distribution_agent_fresh [OF assms] by blast
  moreover have "\<exists>s'. for_each (schedule_asset e camp ag tps) rows s1 = Inr s'" for tps rows
    by (rule for_each_Inr_total) (rule schedule_asset_total)
  ultimately show ?thesis by (fastforce simp: schedule_approved_assets_def Let_def)
qed

lemma resume_distribution_total:
  assumes "agents s = []"
  shows "\<exists>r el s'. resume_distribution_for_campaign e camp s = Inr ((r, el), s')"
proof -
  obtain ag s1 where "ensure_distribution_agent e (camp_tenant_id camp) s = Inr (ag, s1)"
    using ensure_distribution_agent_fresh [OF assms] by blast
  moreover have "\<exists>s'. for_each (resume_asset e camp ag) rows s1 = Inr s'" for rows
    by (rule for_each_Inr_total) (rule resume_asset_total)
  ultimately show ?thesis by (fastforce simp: resume_distribution_for_campaign_def Let_def)
qed

theorem schedule_approved_assets_correct_witness:
  "\<exists>ids s' a'. schedule_approved_assets (worker_env 5) (demo_campaign ReadyToLaunch)
        (demo_db ReadyToLaunch (demo_asset TEmail AApproved [])) = Inr (ids, s')
     \<and> get_asset 20 s' = Some a' \<and> asset_status_of a' = AScheduled
     \<and> (\<exists>t\<in>set (tasks s'). task_skill_name t = ''distribution.dispatch_email'')"
proof -
  let ?s = "demo_db ReadyToLaunch (demo_asset TEmail AApproved [])" and ?c = "demo_campaign ReadyToLaunch"
  obtain ids s' where run: "schedule_approved_assets (worker_env 5) ?c ?s = Inr (ids, s')"
    using schedule_approved_assets_total [of ?s "worker_env 5" ?c] by auto
  have "approved_in ?c (demo_asset TEmail AApproved [])" by (simp add: approved_in_def)
  with schedule_approved_assets_correct [OF run, of "demo_asset TEmail AApproved []"] run show ?thesis
    by (fastforce simp: dispatch_skill_for_def)
qed

theorem pause_campaign_correct_witness:
  "get_campaign 7 (pause_campaign (worker_env 5) (demo_campaign Live) ''manual'' [] (demo_db Live (demo_asset TEmail AApproved [])))
     = Some (demo_campaign Live\<lparr>camp_status := Paused\<rparr>)"
proof -
  have "get_campaign (camp_id (demo_campaign Live)) (demo_db Live (demo_asset TEmail AApproved [])) = Some (demo_campaign Live)"
    by (simp add: get_campaign_def find_row_def)
  from pause_campaign_correct [OF this refl] show ?thesis by simp
qed

theorem resume_distribution_correct_witness:
  "\<exists>r el s'. resume_distribution_for_campaign (worker_env 5) (demo_campaign Live)
        (demo_db Live (demo_asset TSocialPost AScheduled [])) = Inr ((r, el), s')
     \<and> el = 0 \<and> (\<exists>new. tasks s' = new \<and> length new = r)"
proof -
  let ?s = "demo_db Live (demo_asset TSocialPost AScheduled [])" and ?c = "demo_campaign Live"
  obtain r el s' where run: "resume_distribution_for_campaign (worker_env 5) ?c ?s = Inr ((r, el), s')"
    using resume_distribution_total [of ?s "worker_env 5" ?c] by auto
  have "\<not> slot_elapsed 5 (demo_asset TSocialPost AScheduled [])" by (simp add: slot_elapsed_def)
  with resume_distribution_correct [OF run] run show ?thesis by auto
qed

end
