(* ===== verification/Report.thy ===== *)
theory Report
  imports Models Py_Values "HOL-Library.Product_Lexorder"
begin

text \<open>
  The end-of-campaign report (\<^verbatim>\<open>app/analytics/report.py\<close>) with its section builders, and the custom
  KPI evaluator it calls (\<^verbatim>\<open>app/analytics/custom_kpis.py\<close>): event attribution, the null-versus-zero
  distinction, and the versioned snapshot rows.
  Rows without an explicit order come in insertion order, which is creation order. A JSON value
  compared as text is a scalar; \<open>typed_column\<close> is what the database driver makes of comparing the UUID
  column \<^verbatim>\<open>channel_id\<close> or the enum column \<^verbatim>\<open>event_type\<close> with filter text.
\<close>

section \<open>Text of numbers\<close>

text \<open>\<^verbatim>\<open>str\<close> of a \<^verbatim>\<open>Numeric(_, k)\<close> column value.\<close>

definition numeric_str :: "nat \<Rightarrow> rat \<Rightarrow> string" where
  "numeric_str k q =
     (let n = nat \<bar>\<lfloor>q * 10 ^ k\<rfloor>\<bar>
      in (if q < 0 then ''-'' else []) @ digits (n div 10 ^ k) @ ''.'' @ pad_int k (int (n mod 10 ^ k)))"

text \<open>\<^verbatim>\<open>payload ->> key\<close>: the text of a scalar.\<close>

definition plain_decimal :: "rat \<Rightarrow> string" where
  "plain_decimal q = (let (m, k) = decimal_digits 400 \<bar>q\<bar> in if k = 0 then int_str \<lfloor>q\<rfloor> else numeric_str k q)"

fun json_text :: "json \<Rightarrow> string option" where
  "json_text (JStr s) = Some s"
| "json_text (JInt i) = Some (int_str i)"
| "json_text (JFloat q) = Some (plain_decimal q)"
| "json_text (JBool b) = Some (if b then ''true'' else ''false'')"
| "json_text _ = None"

section \<open>Attribution\<close>

text \<open>\<^verbatim>\<open>indirect_link\<close>: a dispatch attempt for an asset of the campaign carries the event's message id.\<close>

definition indirect_link :: "uuid \<Rightarrow> uuid \<Rightarrow> db \<Rightarrow> analytic_event \<Rightarrow> bool" where
  "indirect_link tenant camp s ev \<longleftrightarrow>
     list_ex (\<lambda>att. att_tenant_id att = tenant
         \<and> list_ex (\<lambda>a. asset_id a = att_asset_id att \<and> asset_campaign_id a = camp) (assets s)
         \<and> att_provider_message_id att \<noteq> None
         \<and> json_text (dict_get (ev_payload ev) ''sg_message_id'') = att_provider_message_id att)
       (attempts s)"

definition attributed :: "uuid \<Rightarrow> uuid \<Rightarrow> db \<Rightarrow> analytic_event \<Rightarrow> bool" where
  "attributed tenant camp s ev \<longleftrightarrow>
     ev_tenant_id ev = tenant \<and> (ev_campaign_id ev = Some camp \<or> indirect_link tenant camp s ev)"

definition attributed_events :: "uuid \<Rightarrow> uuid \<Rightarrow> db \<Rightarrow> analytic_event list" where
  "attributed_events tenant camp s = filter (attributed tenant camp s) (events s)"

section \<open>Custom KPIs\<close>

text \<open>\<^verbatim>\<open>column ILIKE pattern\<close>: \<^verbatim>\<open>%\<close> any text, \<^verbatim>\<open>_\<close> any character, backslash escapes.\<close>

fun ilike :: "string \<Rightarrow> string \<Rightarrow> bool" where
  "ilike [] t = (t = [])"
| "ilike (p # ps) t =
     (if p = CHR ''%'' then ilike ps t \<or> (case t of [] \<Rightarrow> False | _ # cs \<Rightarrow> ilike (p # ps) cs)
      else if p = CHR ''_'' then (case t of [] \<Rightarrow> False | _ # cs \<Rightarrow> ilike ps cs)
      else if p = CHR 0x5C \<and> ps \<noteq> [] then
        (case t of [] \<Rightarrow> False | c # cs \<Rightarrow> lower_char c = lower_char (hd ps) \<and> ilike (tl ps) cs)
      else (case t of [] \<Rightarrow> False | c # cs \<Rightarrow> lower_char c = lower_char p \<and> ilike ps cs))"

definition str_value :: "json \<Rightarrow> string" where
  "str_value v = (if v = JNull then [] else py_str v)"

fun split_dots :: "string \<Rightarrow> string \<Rightarrow> string list" where
  "split_dots acc [] = [rev acc]"
| "split_dots acc (c # cs) = (if c = CHR ''.'' then rev acc # split_dots [] cs else split_dots (c # acc) cs)"

text \<open>A column of the filter language: a path into the payload, or one of two typed columns.\<close>

datatype kpi_column = PayloadPath "string list" | TypedColumn string

definition column_for_path :: "string \<Rightarrow> kpi_column option" where
  "column_for_path path =
     (case filter (\<lambda>p. p \<noteq> []) (split_dots [] path) of
        [] \<Rightarrow> None
      | p # ps \<Rightarrow>
          if p = ''payload'' then (if ps = [] then None else Some (PayloadPath ps))
          else if p = ''channel_id'' \<or> p = ''event_type'' then Some (TypedColumn p)
          else None)"

fun payload_text :: "string list \<Rightarrow> json \<Rightarrow> string option" where
  "payload_text [] v = None"
| "payload_text [k] v = json_text (dict_get (as_dict v) k)"
| "payload_text (k # ks) v = payload_text ks (dict_get (as_dict v) k)"

datatype kpi_op = OpEq string | OpNeq string | OpIn "string list" | OpNotIn "string list" | OpContains string

text \<open>SQL truth: a \<open>NULL\<close> column satisfies no condition.\<close>

fun op_holds :: "kpi_op \<Rightarrow> string option \<Rightarrow> bool" where
  "op_holds op None = False"
| "op_holds (OpEq v) (Some t) = (t = v)"
| "op_holds (OpNeq v) (Some t) = (t \<noteq> v)"
| "op_holds (OpIn vs) (Some t) = (t \<in> set vs)"
| "op_holds (OpNotIn vs) (Some t) = (t \<notin> set vs)"
| "op_holds (OpContains v) (Some t) = ilike (''%'' @ v @ ''%'') t"

text \<open>\<^verbatim>\<open>_filter_clause\<close>; \<open>Inr None\<close> drops a malformed filter. A path that is not text has no \<^verbatim>\<open>split\<close>
  (an \<^verbatim>\<open>AttributeError\<close>, counted as \<open>TypeError\<close>), an operator that is a list or object cannot be
  hashed.\<close>

definition filter_clause :: "json \<Rightarrow> (kpi_column \<times> kpi_op) option res" where
  "filter_clause f =
     (case f of
        JObj d \<Rightarrow>
          let path = dict_get d ''path''; op = dict_get d ''op''; value = dict_get d ''value'';
              op' = (if truthy op then op else JStr ''eq'')
          in if \<not> truthy path then Inr None
             else (case op' of
                 JArr _ \<Rightarrow> Inl TypeError
               | JObj _ \<Rightarrow> Inl TypeError
               | JStr o' \<Rightarrow>
                   if o' \<notin> {''eq'', ''neq'', ''in'', ''not_in'', ''contains''} then Inr None
                   else (case path of
                       JStr p \<Rightarrow>
                         (case column_for_path p of
                            None \<Rightarrow> Inr None
                          | Some c \<Rightarrow>
                              if o' = ''eq'' then Inr (Some (c, OpEq (str_value value)))
                              else if o' = ''neq'' then Inr (Some (c, OpNeq (str_value value)))
                              else if o' = ''contains'' then Inr (Some (c, OpContains (str_value value)))
                              else (case value of
                                  JArr vs \<Rightarrow> Inr (Some (c, if o' = ''in'' then OpIn (map str_value vs)
                                                          else OpNotIn (map str_value vs)))
                                | _ \<Rightarrow> Inr None))
                     | _ \<Rightarrow> Inl TypeError)
               | _ \<Rightarrow> Inr None)
      | _ \<Rightarrow> Inr None)"

fun filter_clauses :: "json list \<Rightarrow> (kpi_column \<times> kpi_op) list res" where
  "filter_clauses [] = Inr []"
| "filter_clauses (f # fs) =
     (case filter_clause f of
        Inl err \<Rightarrow> Inl err
      | Inr c \<Rightarrow> (case filter_clauses fs of Inl err \<Rightarrow> Inl err
                  | Inr cs \<Rightarrow> Inr (case c of None \<Rightarrow> cs | Some x \<Rightarrow> x # cs)))"

definition clause_holds ::
  "(string \<Rightarrow> kpi_op \<Rightarrow> analytic_event \<Rightarrow> bool) \<Rightarrow> analytic_event \<Rightarrow> kpi_column \<times> kpi_op \<Rightarrow> bool" where
  "clause_holds typed_column ev cl =
     (case cl of
        (PayloadPath ks, op) \<Rightarrow> op_holds op (payload_text ks (JObj (ev_payload ev)))
      | (TypedColumn name, op) \<Rightarrow> typed_column name op ev)"

record evaluation_result =
  er_value :: "int option"
  er_missing_event :: bool
  er_message :: "string option"

definition missing :: "string \<Rightarrow> evaluation_result" where
  "missing msg = \<lparr>er_value = None, er_missing_event = True, er_message = Some msg\<rparr>"

text \<open>\<^verbatim>\<open>isinstance(window_days, (int, float)) and window_days > 0\<close>: \<^verbatim>\<open>bool\<close> is an \<^verbatim>\<open>int\<close>.\<close>

fun window_of :: "json \<Rightarrow> int option" where
  "window_of (JInt i) = (if 0 < i then Some i else None)"
| "window_of (JBool b) = (if b then Some 1 else None)"
| "window_of (JFloat q) = (if 0 < q then Some (trunc_zero q) else None)"
| "window_of _ = None"

definition evaluate_custom_kpi ::
  "(string \<Rightarrow> kpi_op \<Rightarrow> analytic_event \<Rightarrow> bool) \<Rightarrow> instant \<Rightarrow> custom_kpi \<Rightarrow> uuid \<Rightarrow> db \<Rightarrow> evaluation_result res" where
  "evaluate_custom_kpi typed_column now kpi camp s =
     (let formula = kpi_formula kpi;
          raw = dict_get formula ''event_type''
      in if \<not> truthy raw then Inr (missing ''formula.event_type is required'')
         else case (case raw of JStr r \<Rightarrow> event_kind_of r | _ \<Rightarrow> None) of
                None \<Rightarrow> Inr (missing (''unknown event_type '' @ [CHR 0x27] @ py_str raw @ [CHR 0x27]))
              | Some kind \<Rightarrow>
                  let evs = filter (\<lambda>ev. ev_type ev = kind) (attributed_events (kpi_tenant_id kpi) camp s);
                      fs = dict_get formula ''filters''
                  in if evs = [] then
                       Inr (missing (''no '' @ [CHR 0x27] @ event_kind_value kind @ [CHR 0x27]
                              @ '' events recorded for this campaign''))
                     else case (if truthy fs then py_iter fs else Some []) of
                            None \<Rightarrow> Inl TypeError
                          | Some items \<Rightarrow>
                              (case filter_clauses items of
                                 Inl err \<Rightarrow> Inl err
                               | Inr clauses \<Rightarrow>
                                   let fresh = (\<lambda>ev. case window_of (dict_get formula ''window_days'') of
                                                  None \<Rightarrow> True | Some w \<Rightarrow> now - days w \<le> ev_at ev)
                                   in Inr \<lparr>er_value = Some (int (length (filter (\<lambda>ev. fresh ev
                                              \<and> list_all (clause_holds typed_column ev) clauses) evs))),
                                           er_missing_event = False, er_message = None\<rparr>))"

section \<open>Report sections\<close>

definition custom_kpi_row :: "custom_kpi \<Rightarrow> evaluation_result \<Rightarrow> json" where
  "custom_kpi_row kpi r =
     JObj [(''id'', JStr (uuid_str (kpi_id kpi))), (''name'', JStr (kpi_name kpi)),
           (''value'', opt_json JInt (er_value r)), (''missing_event'', JBool (er_missing_event r)),
           (''message'', opt_json JStr (er_message r))]"

fun custom_kpi_rows ::
  "(string \<Rightarrow> kpi_op \<Rightarrow> analytic_event \<Rightarrow> bool) \<Rightarrow> instant \<Rightarrow> uuid \<Rightarrow> db \<Rightarrow> custom_kpi list \<Rightarrow> json list res" where
  "custom_kpi_rows typed_column now camp s [] = Inr []"
| "custom_kpi_rows typed_column now camp s (kpi # kpis) =
     (case evaluate_custom_kpi typed_column now kpi camp s of
        Inl err \<Rightarrow> Inl err
      | Inr r \<Rightarrow> map_sum id (\<lambda>rows. custom_kpi_row kpi r # rows) (custom_kpi_rows typed_column now camp s kpis))"

definition custom_kpis_section ::
  "(string \<Rightarrow> kpi_op \<Rightarrow> analytic_event \<Rightarrow> bool) \<Rightarrow> instant \<Rightarrow> uuid \<Rightarrow> uuid \<Rightarrow> db \<Rightarrow> json list res" where
  "custom_kpis_section typed_column now tenant camp s =
     custom_kpi_rows typed_column now camp s
       (filter (\<lambda>k. kpi_tenant_id k = tenant \<and> kpi_deleted_at k = None
          \<and> (kpi_campaign_id k = Some camp \<or> kpi_campaign_id k = None)) (custom_kpis s))"

definition spend_reconciliation_section :: "uuid \<Rightarrow> uuid \<Rightarrow> db \<Rightarrow> json list" where
  "spend_reconciliation_section tenant camp s =
     map (\<lambda>r. JObj [(''id'', JStr (uuid_str (sr_id r))), (''period_start'', JStr (date_iso (sr_period_start r))),
                    (''period_end'', JStr (date_iso (sr_period_end r))),
                    (''committed_amount'', JStr (money_str (sr_committed r))),
                    (''invoiced_amount'', JStr (money_str (sr_invoiced r))),
                    (''delta_pct'', JStr (numeric_str 4 (sr_delta_pct r))),
                    (''status'', JStr (sr_status r)), (''note'', opt_json JStr (sr_note r))])
       (sort_key (\<lambda>r. - sr_period_end r)
          (filter (\<lambda>r. sr_tenant_id r = tenant \<and> sr_campaign_id r = camp) (reconciliations s)))"

definition objectives_section :: "campaign \<Rightarrow> json" where
  "objectives_section c =
     JObj [(''name'', JStr (camp_name c)), (''objective'', JStr (camp_objective c)),
           (''brief'', opt_json JStr (camp_brief c)), (''budget_total'', JStr (money_str (camp_budget_total c))),
           (''currency'', JStr (camp_currency c)), (''start_date'', JStr (date_iso (camp_start_date c))),
           (''end_date'', JStr (date_iso (camp_end_date c))),
           (''status'', JStr (campaign_status_value (camp_status c)))]"

text \<open>\<open>None\<close> when the metric is no event kind, or the campaign has no events at all.\<close>

definition count_metric :: "uuid \<Rightarrow> uuid \<Rightarrow> json \<Rightarrow> db \<Rightarrow> int option" where
  "count_metric tenant camp metric s =
     (case (case metric of JStr m \<Rightarrow> event_kind_of m | _ \<Rightarrow> None) of
        None \<Rightarrow> None
      | Some kind \<Rightarrow>
          let evs = attributed_events tenant camp s
          in if evs = [] then None else Some (int (length (filter (\<lambda>ev. ev_type ev = kind) evs))))"

text \<open>A positive numeric target as the double or integer Python computes with.\<close>

fun positive_target :: "json \<Rightarrow> rat option" where
  "positive_target (JInt i) = (if 0 < i then Some (of_int i) else None)"
| "positive_target (JBool b) = (if b then Some 1 else None)"
| "positive_target (JFloat q) = (if 0 < q then Some (float64 q) else None)"
| "positive_target _ = None"

definition delta_pct :: "rat \<Rightarrow> int \<Rightarrow> rat" where
  "delta_pct target observed =
     of_int (round_half_even (float64 (float64 (float64 (of_int observed - target) / target) * 100) * 100)) / 100"

definition kpi_targets_of :: "campaign \<Rightarrow> dict list" where
  "kpi_targets_of c =
     (let primary = dict_get (camp_kpi_targets c) ''primary'';
          secondary = dict_get (camp_kpi_targets c) ''secondary'';
          dicts = (\<lambda>v. case v of JObj d \<Rightarrow> [d] | _ \<Rightarrow> [])
      in dicts primary @ (case secondary of JArr ts \<Rightarrow> concat (map dicts ts) | _ \<Rightarrow> []))"

definition kpis_vs_target :: "uuid \<Rightarrow> campaign \<Rightarrow> db \<Rightarrow> json list" where
  "kpis_vs_target tenant c s =
     List.map_filter (\<lambda>t.
       let metric = dict_get t ''metric''; target = dict_get t ''target'';
           observed = count_metric tenant (camp_id c) metric s;
           delta = (case (positive_target target, observed) of
                      (Some q, Some n) \<Rightarrow> Some (delta_pct q n) | _ \<Rightarrow> None)
       in if \<not> truthy metric then None
          else Some (JObj [(''name'', metric), (''target'', target), (''observed'', opt_json JInt observed),
                           (''delta_pct'', opt_json JFloat delta), (''rationale'', dict_get t ''rationale'')]))
       (kpi_targets_of c)"

definition spend_str :: "analytic_event list \<Rightarrow> string" where
  "spend_str evs =
     (let total = sum_list (map (\<lambda>ev. case ev_metric_value ev of None \<Rightarrow> 0 | Some q \<Rightarrow> q) evs)
      in if total = 0 then ''0'' else numeric_str 4 total)"

definition channel_name :: "db \<Rightarrow> uuid option \<Rightarrow> string" where
  "channel_name s ch =
     (case ch of
        None \<Rightarrow> ''(unattributed)''
      | Some i \<Rightarrow> (case find_row (\<lambda>c. ch_id c = i) (channels s) of
                     Some c \<Rightarrow> if ch_name c \<noteq> [] then ch_name c else uuid_str i
                   | None \<Rightarrow> uuid_str i))"

definition channel_breakdown :: "uuid \<Rightarrow> uuid \<Rightarrow> db \<Rightarrow> json list" where
  "channel_breakdown tenant camp s =
     (let evs = attributed_events tenant camp s;
          row = (\<lambda>ch.
            let mine = filter (\<lambda>ev. ev_channel_id ev = ch) evs;
                count = (\<lambda>k. JInt (int (length (filter (\<lambda>ev. ev_type ev = k) mine))))
            in (channel_name s ch,
                JObj [(''channel_id'', opt_json (JStr \<circ> uuid_str) ch), (''name'', JStr (channel_name s ch)),
                      (''clicks'', count EClick), (''impressions'', count EImpression), (''opens'', count EOpen),
                      (''conversions'', count EConversion),
                      (''spend'', JStr (spend_str (filter (\<lambda>ev. ev_type ev = ESpend) mine)))]))
      in map snd (sort_key fst (map row (remdups (map ev_channel_id evs)))))"

definition ab_tests_section :: "uuid \<Rightarrow> uuid \<Rightarrow> db \<Rightarrow> json list" where
  "ab_tests_section tenant camp s =
     map (\<lambda>t. JObj [(''id'', JStr (uuid_str (ab_id t))), (''name'', JStr (ab_name t)),
                    (''primary_metric'', JStr (ab_primary_metric t)), (''status'', JStr (ab_status_value (ab_status t))),
                    (''winner_id'', opt_json (JStr \<circ> uuid_str) (ab_winner_id t)),
                    (''confidence'', opt_json (JStr \<circ> numeric_str 4) (ab_confidence t)),
                    (''lift'', opt_json (JStr \<circ> numeric_str 4) (ab_lift t)),
                    (''started_at'', opt_json (JStr \<circ> isoformat) (ab_started_at t)),
                    (''stopped_at'', opt_json (JStr \<circ> isoformat) (ab_stopped_at t))])
       (filter (\<lambda>t. ab_tenant_id t = tenant \<and> ab_campaign_id t = camp) (ab_tests s))"

definition anomalies_section :: "uuid \<Rightarrow> uuid \<Rightarrow> db \<Rightarrow> json list" where
  "anomalies_section tenant camp s =
     map (\<lambda>a. JObj [(''id'', JStr (uuid_str (an_id a))), (''metric'', JStr (an_metric a)),
                    (''severity'', JStr (an_severity a)), (''sigma'', JStr (numeric_str 4 (an_sigma a))),
                    (''observed_value'', JStr (numeric_str 6 (an_observed a))),
                    (''baseline_median'', JStr (numeric_str 6 (an_median a))),
                    (''dismissed_at'', opt_json (JStr \<circ> isoformat) (an_dismissed_at a)),
                    (''created_at'', JStr (isoformat (an_created_at a)))])
       (sort_key (\<lambda>a. (case an_dismissed_at a of None \<Rightarrow> (0::int, 0) | Some t \<Rightarrow> (1, t), - an_created_at a))
          (filter (\<lambda>a. an_tenant_id a = tenant \<and> an_campaign_id a = camp) (anomalies s)))"

definition recommendations_by_status :: "uuid \<Rightarrow> uuid \<Rightarrow> string \<Rightarrow> db \<Rightarrow> json list" where
  "recommendations_by_status tenant camp st s =
     map (\<lambda>r. JObj [(''id'', JStr (uuid_str (rec_id r))), (''kind'', JStr (rec_kind r)),
                    (''proposal'', JObj (rec_proposal r)), (''rationale'', opt_json JStr (rec_rationale r)),
                    (''predicted_uplift'', opt_json (JStr \<circ> numeric_str 4) (rec_predicted_uplift r)),
                    (''applied_at'', opt_json (JStr \<circ> isoformat) (rec_applied_at r)),
                    (''applied_by'', opt_json (JStr \<circ> uuid_str) (rec_applied_by r))])
       (filter (\<lambda>r. rec_tenant_id r = tenant \<and> rec_campaign_id r = camp \<and> rec_status r = st) (recommendations s))"

definition spend_total :: "uuid \<Rightarrow> uuid \<Rightarrow> db \<Rightarrow> string option" where
  "spend_total tenant camp s =
     (let evs = attributed_events tenant camp s
      in if evs = [] then None else Some (spend_str (filter (\<lambda>ev. ev_type ev = ESpend) evs)))"

definition build_data ::
  "(string \<Rightarrow> kpi_op \<Rightarrow> analytic_event \<Rightarrow> bool) \<Rightarrow> instant \<Rightarrow> uuid \<Rightarrow> campaign \<Rightarrow> db \<Rightarrow> dict res" where
  "build_data typed_column now tenant c s =
     map_sum id (\<lambda>kpis.
        [(''objectives'', objectives_section c),
         (''kpis_vs_target'', JArr (kpis_vs_target tenant c s)),
         (''channel_breakdown'', JArr (channel_breakdown tenant (camp_id c) s)),
         (''ab_tests'', JArr (ab_tests_section tenant (camp_id c) s)),
         (''anomalies'', JArr (anomalies_section tenant (camp_id c) s)),
         (''recommendations_applied'', JArr (recommendations_by_status tenant (camp_id c) ''applied'' s)),
         (''recommendations_rejected'', JArr (recommendations_by_status tenant (camp_id c) ''rejected'' s)),
         (''spend_total'', opt_json JStr (spend_total tenant (camp_id c) s)),
         (''custom_kpis'', JArr kpis),
         (''spend_reconciliation'', JArr (spend_reconciliation_section tenant (camp_id c) s))])
       (custom_kpis_section typed_column now tenant (camp_id c) s)"

section \<open>The versioned snapshot\<close>

definition reports_of :: "uuid \<Rightarrow> uuid \<Rightarrow> db \<Rightarrow> campaign_report list" where
  "reports_of tenant camp s = filter (\<lambda>r. rep_tenant_id r = tenant \<and> rep_campaign_id r = camp) (reports s)"

definition next_version :: "campaign_report option \<Rightarrow> campaign_report list \<Rightarrow> int" where
  "next_version prior rows =
     (case prior of
        Some p \<Rightarrow> rep_version p + 1
      | None \<Rightarrow> if rows = [] then 1 else Max (set (map rep_version rows)) + 1)"

text \<open>
  The database constraints on the insert: one row per version, and one latest row (a partial index).
\<close>

definition generate_report ::
  "(string \<Rightarrow> kpi_op \<Rightarrow> analytic_event \<Rightarrow> bool) \<Rightarrow> instant \<Rightarrow> string \<Rightarrow> uuid \<Rightarrow> uuid \<Rightarrow> db
     \<Rightarrow> (campaign_report \<times> db) res" where
  "generate_report typed_column now generated_by tenant camp_i s =
     (case get_campaign camp_i s of
        None \<Rightarrow> Inl LookupError
      | Some c \<Rightarrow>
          if camp_tenant_id c \<noteq> tenant then Inl LookupError
          else case build_data typed_column now tenant c s of
                 Inl err \<Rightarrow> Inl err
               | Inr data \<Rightarrow>
                   (case scalar_one_or_none (filter rep_is_latest (reports_of tenant camp_i s)) of
                      None \<Rightarrow> Inl MultipleResultsFound
                    | Some prior \<Rightarrow>
                        let v = next_version prior (reports_of tenant camp_i s);
                            s1 = (case prior of
                                    None \<Rightarrow> s
                                  | Some p \<Rightarrow> s\<lparr>reports := update_where (\<lambda>r. rep_id r = rep_id p)
                                                (\<lambda>r. r\<lparr>rep_is_latest := False\<rparr>) (reports s)\<rparr>);
                            (i, s2) = fresh_uuid s1;
                            row = \<lparr>rep_id = i, rep_tenant_id = tenant, rep_campaign_id = camp_i, rep_version = v,
                                   rep_generated_at = now, rep_generated_by = generated_by, rep_data = data,
                                   rep_is_latest = True\<rparr>
                        in if list_ex (\<lambda>r. rep_version r = v) (reports_of tenant camp_i s) then Inl IntegrityError
                           else Inr (row, s2\<lparr>reports := reports s2 @ [row]\<rparr>)))"

section \<open>Versions and the latest flag\<close>

definition report_inv :: "db \<Rightarrow> bool" where
  "report_inv s \<longleftrightarrow> distinct (map rep_id (reports s))
     \<and> (\<forall>tenant camp. distinct (map rep_version (reports_of tenant camp s))
          \<and> length (filter rep_is_latest (reports_of tenant camp s)) \<le> 1
          \<and> (\<forall>p\<in>set (reports_of tenant camp s). rep_is_latest p \<longrightarrow>
               (\<forall>r\<in>set (reports_of tenant camp s). rep_version r \<le> rep_version p)))"

definition same_campaign :: "uuid \<Rightarrow> uuid \<Rightarrow> campaign_report \<Rightarrow> bool" where
  "same_campaign tenant camp r \<longleftrightarrow> rep_tenant_id r = tenant \<and> rep_campaign_id r = camp"

text \<open>Forgetting which row is the latest.\<close>

definition unflag :: "campaign_report \<Rightarrow> campaign_report" where
  "unflag r = r\<lparr>rep_is_latest := False\<rparr>"

lemma unflag_simps [simp]:
  "rep_id (unflag r) = rep_id r" "rep_version (unflag r) = rep_version r" "\<not> rep_is_latest (unflag r)"
  "rep_tenant_id (unflag r) = rep_tenant_id r" "rep_campaign_id (unflag r) = rep_campaign_id r"
  "unflag (unflag r) = unflag r" "rep_data (unflag r) = rep_data r"
  by (simp_all add: unflag_def)

lemma reports_of_same: "reports_of tenant camp s = filter (same_campaign tenant camp) (reports s)"
  by (simp add: reports_of_def same_campaign_def [abs_def])

lemma next_version_above:
  assumes "report_inv s" "scalar_one_or_none (filter rep_is_latest (reports_of tenant camp s)) = Some prior"
    and "r \<in> set (reports_of tenant camp s)"
  shows "rep_version r < next_version prior (reports_of tenant camp s)"
proof (cases prior)
  case None
  then have "next_version prior (reports_of tenant camp s) = Max (set (map rep_version (reports_of tenant camp s))) + 1"
    using assms(3) by (auto simp: next_version_def)
  moreover have "rep_version r \<le> Max (set (map rep_version (reports_of tenant camp s)))"
    using assms(3) by (intro Max_ge) auto
  ultimately show ?thesis by simp
next
  case (Some p)
  then have "filter rep_is_latest (reports_of tenant camp s) = [p]"
    using assms(2) by (simp add: scalar_one_or_none_Some_Some)
  from arg_cong [OF this, of set] have "p \<in> set (reports_of tenant camp s)" "rep_is_latest p" by auto
  with assms(1,3) have "rep_version r \<le> rep_version p" by (auto simp: report_inv_def)
  with Some show ?thesis by (simp add: next_version_def)
qed

text \<open>Clearing the latest flag of a campaign's row, then appending a row above all its versions.\<close>

lemma report_inv_append:
  assumes inv: "report_inv s"
    and dem: "map unflag rs = map unflag (reports s)"
      "\<And>r. r \<in> set rs \<Longrightarrow> rep_is_latest r \<Longrightarrow> r \<in> set (reports s) \<and> \<not> same_campaign tenant camp r"
      "\<And>t c. length (filter rep_is_latest (filter (same_campaign t c) rs))
             \<le> length (filter rep_is_latest (filter (same_campaign t c) (reports s)))"
    and row: "same_campaign tenant camp row" "rep_id row \<notin> rep_id ` set (reports s)" "rep_is_latest row"
      "\<forall>r\<in>set (reports_of tenant camp s). rep_version r < rep_version row"
    and s': "reports s' = rs @ [row]"
  shows "report_inv s'"
proof -
  have maps: "map g rs = map g (reports s)" if "\<And>r. g (unflag r) = g r" for g :: "campaign_report \<Rightarrow> 'x"
    using arg_cong [OF dem(1), of "map g"] that by (simp add: comp_def)
  have flt: "map g (filter (same_campaign t c) rs) = map g (filter (same_campaign t c) (reports s))"
    if "\<And>r. g (unflag r) = g r" for g :: "campaign_report \<Rightarrow> 'x" and t c
  proof -
    have "map g (filter (same_campaign t c) xs) = map g (filter (same_campaign t c) (map unflag xs))" for xs
      using that by (simp add: filter_map comp_def same_campaign_def [abs_def])
    then show ?thesis using dem(1) by metis
  qed
  have ids: "map rep_id rs = map rep_id (reports s)" by (rule maps) simp
  have vers: "map rep_version (filter (same_campaign t c) rs) = map rep_version (reports_of t c s)" for t c
    unfolding reports_of_same by (rule flt) simp
  have d: "distinct (map rep_version (reports_of t c s'))" for t c
  proof (cases "same_campaign t c row")
    case True
    with row(1) have "t = tenant" "c = camp" by (auto simp: same_campaign_def)
    with row(4) inv have "rep_version row \<notin> rep_version ` set (reports_of t c s)" "distinct (map rep_version (reports_of t c s))"
      by (auto simp: report_inv_def)
    with vers [of t c] True show ?thesis
      by (simp add: reports_of_same s')
  next
    case False
    with vers [of t c] inv show ?thesis by (simp add: reports_of_same s' report_inv_def)
  qed
  have none: "filter rep_is_latest (filter (same_campaign tenant camp) rs) = []"
    using dem(2) by (auto simp: filter_empty_conv)
  have one: "length (filter rep_is_latest (reports_of t c s')) \<le> 1" for t c
  proof (cases "same_campaign t c row")
    case True
    with row(1) have "t = tenant" "c = camp" by (auto simp: same_campaign_def)
    with none True row(3) show ?thesis by (simp add: reports_of_same s')
  next
    case False
    have "length (filter rep_is_latest (filter (same_campaign t c) (reports s))) \<le> 1"
      using inv by (simp add: report_inv_def reports_of_same)
    with dem(3) [of t c] False show ?thesis by (simp add: reports_of_same s')
  qed
  have top: "rep_version r \<le> rep_version p"
    if p: "p \<in> set (reports_of t c s')" "rep_is_latest p" and r: "r \<in> set (reports_of t c s')" for t c p r
  proof (cases "same_campaign t c row")
    case True
    with row(1) have tc: "t = tenant" "c = camp" by (auto simp: same_campaign_def)
    have "p = row" using p none tc by (auto simp: reports_of_same s' filter_empty_conv split: if_splits)
    moreover have "r = row \<or> rep_version r \<in> set (map rep_version (reports_of t c s))"
      using r vers [of t c, symmetric] by (auto simp: reports_of_same s' split: if_splits)
    ultimately show ?thesis using row(4) tc by auto
  next
    case False
    have "p \<in> set (reports_of t c s)" using p False dem(2) [of p] by (auto simp: reports_of_same s')
    moreover have "rep_version r \<in> set (map rep_version (reports_of t c s))"
      using r False vers [of t c, symmetric] by (auto simp: reports_of_same s')
    ultimately show ?thesis using inv p(2) by (auto simp: report_inv_def)
  qed
  have "distinct (map rep_id (reports s'))"
    using inv ids row(2) by (auto simp: report_inv_def s' dest: arg_cong [of _ _ set])
  with d one top show ?thesis unfolding report_inv_def by blast
qed

definition demoted :: "campaign_report option \<Rightarrow> campaign_report list \<Rightarrow> campaign_report list" where
  "demoted prior rs = (case prior of None \<Rightarrow> rs | Some p \<Rightarrow> update_where (\<lambda>r. rep_id r = rep_id p) unflag rs)"

lemma demoted_facts:
  assumes inv: "report_inv s"
    and prior: "scalar_one_or_none (filter rep_is_latest (reports_of tenant camp s)) = Some prior"
  shows "map unflag (demoted prior (reports s)) = map unflag (reports s)"
    and "r \<in> set (demoted prior (reports s)) \<Longrightarrow> rep_is_latest r \<Longrightarrow>
           r \<in> set (reports s) \<and> \<not> same_campaign tenant camp r"
    and "length (filter rep_is_latest (filter (same_campaign t c) (demoted prior (reports s))))
           \<le> length (filter rep_is_latest (filter (same_campaign t c) (reports s)))"
proof -
  show "map unflag (demoted prior (reports s)) = map unflag (reports s)"
    by (simp add: demoted_def map_update_where split: option.splits)
  have "length (filter rep_is_latest (filter (same_campaign t c) (update_where P unflag rs)))
       \<le> length (filter rep_is_latest (filter (same_campaign t c) rs))" for P rs
    by (induction rs) (auto simp: same_campaign_def)
  then show "length (filter rep_is_latest (filter (same_campaign t c) (demoted prior (reports s))))
       \<le> length (filter rep_is_latest (filter (same_campaign t c) (reports s)))"
    by (simp add: demoted_def split: option.splits)
  assume r: "r \<in> set (demoted prior (reports s))" "rep_is_latest r"
  show "r \<in> set (reports s) \<and> \<not> same_campaign tenant camp r"
  proof (cases prior)
    case None
    with prior r show ?thesis by (auto simp: demoted_def reports_of_same filter_empty_conv)
  next
    case (Some p)
    then have "filter rep_is_latest (reports_of tenant camp s) = [p]"
      using prior by (simp add: scalar_one_or_none_Some_Some)
    then have only: "\<And>x. x \<in> set (reports s) \<Longrightarrow> same_campaign tenant camp x \<Longrightarrow> rep_is_latest x \<Longrightarrow> x = p"
      by (auto simp: reports_of_same dest!: arg_cong [of _ _ set])
    from r Some have "r \<in> set (update_where (\<lambda>r. rep_id r = rep_id p) unflag (reports s))"
      by (simp add: demoted_def)
    then show ?thesis
      by (cases rule: in_update_whereE) (use r(2) only in auto)
  qed
qed

lemma generate_report_unfold:
  assumes "get_campaign c s = Some camp" "camp_tenant_id camp = tenant"
    and "build_data tc now tenant camp s = Inr data" "report_inv s"
  obtains prior where
    "scalar_one_or_none (filter rep_is_latest (reports_of tenant c s)) = Some prior"
    "generate_report tc now who tenant c s = Inr
       (\<lparr>rep_id = fst (fresh_uuid s), rep_tenant_id = tenant, rep_campaign_id = c,
         rep_version = next_version prior (reports_of tenant c s), rep_generated_at = now,
         rep_generated_by = who, rep_data = data, rep_is_latest = True\<rparr>,
        (snd (fresh_uuid s))\<lparr>reports := demoted prior (reports s) @
          [\<lparr>rep_id = fst (fresh_uuid s), rep_tenant_id = tenant, rep_campaign_id = c,
            rep_version = next_version prior (reports_of tenant c s), rep_generated_at = now,
            rep_generated_by = who, rep_data = data, rep_is_latest = True\<rparr>]\<rparr>)"
proof -
  have "length (filter rep_is_latest (reports_of tenant c s)) \<le> 1" using assms(4) by (simp add: report_inv_def)
  then obtain prior where prior: "scalar_one_or_none (filter rep_is_latest (reports_of tenant c s)) = Some prior"
    by (cases "filter rep_is_latest (reports_of tenant c s)" rule: scalar_one_or_none.cases) auto
  have "\<not> list_ex (\<lambda>r. rep_version r = next_version prior (reports_of tenant c s)) (reports_of tenant c s)"
    using next_version_above [OF assms(4) prior] by (fastforce simp: list_ex_iff)
  then show thesis using prior assms(1-3)
    by (intro that [OF prior])
      (auto simp: generate_report_def Let_def fresh_uuid_def demoted_def unflag_def [abs_def] split: option.splits)
qed

text \<open>Generating a report always succeeds for a campaign of the tenant whose data can be built, and
  appends a snapshot with a version above all earlier ones as the campaign's only latest row; every
  earlier row keeps its version and data, and the version discipline (distinct versions, at most one
  latest, the latest on top) is preserved.\<close>

theorem generate_report_appends_version:
  assumes found: "get_campaign c s = Some camp" "camp_tenant_id camp = tenant"
    and data: "build_data tc now tenant camp s = Inr data"
    and inv: "report_inv s" and fresh: "fst (fresh_uuid s) \<notin> rep_id ` set (reports s)"
  shows "\<exists>row s'. generate_report tc now who tenant c s = Inr (row, s') \<and> report_inv s'
    \<and> rep_is_latest row \<and> rep_data row = data \<and> map unflag (reports s') = map unflag (reports s @ [row])
    \<and> (\<forall>r\<in>set (reports_of tenant c s). rep_version r < rep_version row)
    \<and> filter rep_is_latest (reports_of tenant c s') = [row]"
proof -
  obtain prior where prior: "scalar_one_or_none (filter rep_is_latest (reports_of tenant c s)) = Some prior"
    and gen: "generate_report tc now who tenant c s = Inr
       (\<lparr>rep_id = fst (fresh_uuid s), rep_tenant_id = tenant, rep_campaign_id = c,
         rep_version = next_version prior (reports_of tenant c s), rep_generated_at = now,
         rep_generated_by = who, rep_data = data, rep_is_latest = True\<rparr>,
        (snd (fresh_uuid s))\<lparr>reports := demoted prior (reports s) @
          [\<lparr>rep_id = fst (fresh_uuid s), rep_tenant_id = tenant, rep_campaign_id = c,
            rep_version = next_version prior (reports_of tenant c s), rep_generated_at = now,
            rep_generated_by = who, rep_data = data, rep_is_latest = True\<rparr>]\<rparr>)" (is "_ = Inr (?row, ?s')")
    using generate_report_unfold [OF found data inv] by metis
  note dem = demoted_facts [OF inv prior]
  have above: "\<forall>r\<in>set (reports_of tenant c s). rep_version r < rep_version ?row"
    using next_version_above [OF inv prior] by simp
  have "report_inv ?s'"
    by (rule report_inv_append [OF inv dem(1) dem(2) dem(3)])
      (use above fresh in \<open>simp_all add: same_campaign_def\<close>)
  moreover have "filter rep_is_latest (filter (same_campaign tenant c) (demoted prior (reports s))) = []"
    using dem(2) by (auto simp: filter_empty_conv)
  then have "filter rep_is_latest (reports_of tenant c ?s') = [?row]"
    by (simp add: reports_of_same) (simp add: same_campaign_def)
  moreover have "map unflag (reports ?s') = map unflag (reports s @ [?row])" using dem(1) by simp
  ultimately show ?thesis using gen above by (intro exI [of _ ?row] exI [of _ ?s']) simp
qed

section \<open>Absent data is not zero\<close>

text \<open>A custom KPI distinguishes missing data from an empty selection: the value is absent exactly
  when the event is reported missing, which for a known event kind means that the campaign has no
  attributed event of that kind at all; otherwise the value is a count of attributed events.\<close>

theorem custom_kpi_absence_is_not_zero:
  assumes "evaluate_custom_kpi tc now kpi camp s = Inr r"
    and "dict_get (kpi_formula kpi) ''event_type'' = JStr k" "event_kind_of k = Some kind"
  shows "(er_value r = None \<longleftrightarrow> er_missing_event r)
    \<and> (er_missing_event r \<longleftrightarrow> (\<forall>ev\<in>set (events s). attributed (kpi_tenant_id kpi) camp s ev \<longrightarrow> ev_type ev \<noteq> kind))
    \<and> (\<forall>n. er_value r = Some n \<longrightarrow> 0 \<le> n
         \<and> n \<le> int (length (filter (\<lambda>ev. ev_type ev = kind) (attributed_events (kpi_tenant_id kpi) camp s))))"
proof -
  have "k \<noteq> []" using assms(3) by (auto simp: event_kind_of_def)
  show ?thesis
  proof (cases "filter (\<lambda>ev. ev_type ev = kind) (attributed_events (kpi_tenant_id kpi) camp s) = []")
    case True
    then have "\<forall>ev\<in>set (events s). attributed (kpi_tenant_id kpi) camp s ev \<longrightarrow> ev_type ev \<noteq> kind"
      by (auto simp: attributed_events_def filter_empty_conv)
    moreover have "er_value r = None" "er_missing_event r"
      using assms True \<open>k \<noteq> []\<close> by (auto simp: evaluate_custom_kpi_def Let_def missing_def)
    ultimately show ?thesis by simp
  next
    case False
    then have "\<not> (\<forall>ev\<in>set (events s). attributed (kpi_tenant_id kpi) camp s ev \<longrightarrow> ev_type ev \<noteq> kind)"
      by (auto simp: attributed_events_def filter_empty_conv)
    moreover have "\<not> er_missing_event r \<and> (\<exists>P. er_value r = Some (int (length (filter P
        (filter (\<lambda>ev. ev_type ev = kind) (attributed_events (kpi_tenant_id kpi) camp s))))))"
      using assms False \<open>k \<noteq> []\<close>
      by (auto simp: evaluate_custom_kpi_def Let_def split: option.splits sum.splits if_splits simp del: filter_filter)
    ultimately show ?thesis by (auto simp: length_filter_le simp del: filter_filter)
  qed
qed

section \<open>Concrete instances\<close>

text \<open>A live campaign with one click on record and a KPI that counts clicks from one source.\<close>

definition click_event :: analytic_event where
  "click_event = \<lparr>ev_id = 60, ev_tenant_id = 1, ev_campaign_id = Some 7, ev_channel_id = None, ev_type = EClick,
     ev_metric_value = None, ev_payload = [(''utm_source'', JStr ''li'')], ev_provider_event_id = None, ev_at = 0\<rparr>"

definition click_kpi :: custom_kpi where
  "click_kpi = \<lparr>kpi_id = 3, kpi_tenant_id = 1, kpi_campaign_id = None, kpi_name = ''clicks'',
     kpi_formula = [(''event_type'', JStr ''click''), (''filters'', JArr [JObj [(''path'', JStr ''payload.utm_source''),
        (''op'', JStr ''eq''), (''value'', JStr ''email'')]])], kpi_deleted_at = None, kpi_created_by = None, kpi_created_at = 0\<rparr>"

definition report_db :: db where
  "report_db = (demo_db Live (demo_asset TEmail AApproved []))\<lparr>events := [click_event]\<rparr>"

lemma report_db_facts:
  "reports report_db = []" "custom_kpis report_db = []" "get_campaign 7 report_db = Some (demo_campaign Live)"
  by (simp_all add: report_db_def demo_db_def empty_db_def get_campaign_def find_row_def)

theorem generate_report_appends_version_witness:
  "\<exists>row s'. generate_report (\<lambda>_ _ _. False) 0 ''system'' 1 7 report_db = Inr (row, s')
     \<and> report_inv s' \<and> filter rep_is_latest (reports_of 1 7 s') = [row]"
proof -
  obtain data where data: "build_data (\<lambda>_ _ _. False) 0 1 (demo_campaign Live) report_db = Inr data"
    by (auto simp: build_data_def custom_kpis_section_def report_db_facts)
  have inv: "report_inv report_db" by (simp add: report_inv_def reports_of_def report_db_facts)
  from generate_report_appends_version [OF report_db_facts(3) _ data inv, of "''system''"]
  show ?thesis by (auto simp: report_db_facts)
qed

lemma click_kpi_value:
  "evaluate_custom_kpi (\<lambda>_ _ _. False) 0 click_kpi 7 report_db =
     Inr \<lparr>er_value = Some 0, er_missing_event = False, er_message = None\<rparr>"
proof -
  have evs: "filter (\<lambda>ev. ev_type ev = EClick) (attributed_events 1 7 report_db) = [click_event]"
    by (simp add: attributed_events_def attributed_def report_db_def click_event_def)
  have cl: "filter_clauses [JObj [(''path'', JStr ''payload.utm_source''), (''op'', JStr ''eq''), (''value'', JStr ''email'')]]
      = Inr [(PayloadPath [''utm_source''], OpEq ''email'')]" by code_simp
  have kind: "event_kind_of ''click'' = Some EClick" by code_simp
  have none: "\<not> clause_holds (\<lambda>_ _ _. False) click_event (PayloadPath [''utm_source''], OpEq ''email'')" by code_simp
  show ?thesis
    by (simp add: evaluate_custom_kpi_def click_kpi_def dict_get_def kind evs cl none Let_def
        del: filter_clauses.simps One_nat_def)
qed

theorem custom_kpi_absence_is_not_zero_witness:
  "\<exists>r. evaluate_custom_kpi (\<lambda>_ _ _. False) 0 click_kpi 7 report_db = Inr r \<and> er_value r = Some 0
     \<and> \<not> er_missing_event r"
proof -
  have "dict_get (kpi_formula click_kpi) ''event_type'' = JStr ''click''" "event_kind_of ''click'' = Some EClick"
    by code_simp+
  from custom_kpi_absence_is_not_zero [OF click_kpi_value this] click_kpi_value show ?thesis by simp
qed

end
