(* ===== verification/Content_Seeding.thy ===== *)
theory Content_Seeding
  imports Task_Queue Py_Values "HOL-Library.Product_Lexorder" "HOL-Library.Multiset"
begin

text \<open>
  From an accepted strategy to content requests: the A/B specs of a proposal
  (\<^verbatim>\<open>app/agents/_variants.py\<close>), the platform plan (\<^verbatim>\<open>app/agents/_content_planner.py\<close>) and
  \<^verbatim>\<open>seed_assets_for_campaign\<close> (\<^verbatim>\<open>app/agents/content_creator.py\<close>), the entry hook of \<^verbatim>\<open>start_content\<close>.
  Text outside ASCII is written in its UTF-8 bytes; the length limits of text columns are not modelled.
\<close>

section \<open>Variants\<close>

definition em_dash :: string where "em_dash = [CHR 0xE2, CHR 0x80, CHR 0x94]"

definition variant_angles :: "string list" where
  "variant_angles =
     [''lead with social proof '' @ em_dash @ '' cite customer outcomes or peer adoption'',
      ''lead with risk reduction '' @ em_dash @ '' emphasise safety, support, guarantees you can defend'',
      ''lead with novelty '' @ em_dash @ '' frame it as something the reader hasn'' @ [CHR 0x27] @ ''t seen before'',
      ''lead with urgency '' @ em_dash @ '' give a concrete reason to act this week, not next quarter'',
      ''lead with savings '' @ em_dash @ '' quantify the time or money the reader gets back'']"

definition max_variants :: int where "max_variants = 5"
definition min_variants :: int where "min_variants = 2"

record ab_test_spec =
  spec_channel :: string
  spec_variants :: int

definition angle_for_index :: "int \<Rightarrow> string" where
  "angle_for_index index =
     (if index \<le> 0 then []
      else if index - 1 < int (length variant_angles) then variant_angles ! nat (index - 1)
      else last variant_angles)"

definition parse_spec :: "json \<Rightarrow> ab_test_spec option" where
  "parse_spec entry =
     (case entry of
        JObj d \<Rightarrow>
          let channel = py_lower (py_strip (py_str (dict_get_default d ''channel'' (JStr []))));
              variants = (case py_int (dict_get_default d ''variants'' (JInt min_variants)) of
                            None \<Rightarrow> min_variants | Some v \<Rightarrow> v)
          in if channel = [] then None
             else Some \<lparr>spec_channel = channel, spec_variants = max min_variants (min max_variants variants)\<rparr>
      | _ \<Rightarrow> None)"

definition parse_ab_test_specs :: "dict \<Rightarrow> ab_test_spec list" where
  "parse_ab_test_specs payload =
     (case dict_get payload ''ab_tests'' of JArr raw \<Rightarrow> List.map_filter parse_spec raw | _ \<Rightarrow> [])"

section \<open>The platform plan\<close>

record asset_plan =
  plan_asset_type :: asset_type
  plan_tool_channel :: string
  plan_requires_seo :: bool

definition platform_to_asset_type :: "(string \<times> asset_type) list" where
  "platform_to_asset_type =
     [(''email'', TEmail), (''linkedin'', TSocialPost), (''x'', TSocialPost), (''meta'', TSocialPost),
      (''instagram'', TSocialPost), (''google_ads'', TAdCreative), (''meta_ads'', TAdCreative),
      (''web'', TLandingPageCopy), (''blog'', TBlogPost), (''sms'', TSms)]"

definition asset_type_to_tool_channel :: "((asset_type \<times> string option) \<times> string) list" where
  "asset_type_to_tool_channel =
     [((TEmail, None), ''email''), ((TSocialPost, Some ''linkedin''), ''linkedin''),
      ((TSocialPost, Some ''x''), ''x''), ((TSocialPost, Some ''meta''), ''social_post''),
      ((TSocialPost, Some ''instagram''), ''social_post''), ((TAdCreative, Some ''google_ads''), ''ad_creative''),
      ((TAdCreative, Some ''meta_ads''), ''ad_creative''), ((TBlogPost, None), ''blog_post''),
      ((TLandingPageCopy, None), ''landing_page_copy''), ((TSms, None), ''sms'')]"

definition plan_for_platform :: "string \<Rightarrow> asset_plan res" where
  "plan_for_platform platform =
     (let normalised = py_lower (py_strip platform)
      in case map_of platform_to_asset_type normalised of
           None \<Rightarrow> Inl PlannerError
         | Some ty \<Rightarrow>
             Inr \<lparr>plan_asset_type = ty,
                  plan_tool_channel =
                    (case map_of asset_type_to_tool_channel (ty, Some normalised) of
                       Some c \<Rightarrow> c
                     | None \<Rightarrow> (case map_of asset_type_to_tool_channel (ty, None) of
                                 Some c \<Rightarrow> c | None \<Rightarrow> normalised)),
                  plan_requires_seo = (ty = TBlogPost \<or> ty = TLandingPageCopy)\<rparr>)"

section \<open>Seeding\<close>

definition ensure_content_creator_agent :: "env \<Rightarrow> uuid \<Rightarrow> db \<Rightarrow> (agent \<times> db) res" where
  "ensure_content_creator_agent e tenant s = ensure_agent e ContentCreator ''Content Creator'' tenant s"

definition primary_metric_for_campaign :: "campaign \<Rightarrow> string" where
  "primary_metric_for_campaign camp =
     (case dict_get (camp_kpi_targets camp) ''primary'' of
        JObj d \<Rightarrow>
          (case dict_get d ''metric'' of
             JStr m \<Rightarrow> if py_strip m \<noteq> [] then py_strip m else ''conversion_rate''
           | _ \<Rightarrow> ''conversion_rate'')
      | _ \<Rightarrow> ''conversion_rate'')"

definition variant_metadata :: "strategy_touchpoint \<Rightarrow> ab_test_spec option \<Rightarrow> int \<Rightarrow> dict" where
  "variant_metadata tp spec idx =
     [(''touchpoint_id'', JStr (uuid_str (tp_id tp))), (''channel_platform'', JStr (tp_channel_platform tp))]
     @ (case spec of None \<Rightarrow> []
        | Some _ \<Rightarrow> [(''variant_index'', JInt idx), (''variant_angle'', JStr (angle_for_index idx)),
                    (''is_baseline'', JBool (idx = 0))])"

definition new_asset ::
  "env \<Rightarrow> campaign \<Rightarrow> channel option \<Rightarrow> asset_plan \<Rightarrow> strategy_touchpoint \<Rightarrow> ab_test_spec option \<Rightarrow> int \<Rightarrow> uuid
     \<Rightarrow> content_asset" where
  "new_asset e camp ch plan tp spec idx i =
     \<lparr>asset_id = i, asset_tenant_id = camp_tenant_id camp, asset_campaign_id = camp_id camp,
      asset_channel_id = map_option ch_id ch, asset_type_of = plan_asset_type plan,
      asset_status_of = ARequested, asset_title = None, asset_content = None,
      asset_metadata = variant_metadata tp spec idx, asset_is_required = True,
      asset_scheduled_at = Some (tp_scheduled_at tp), asset_published_at = None,
      asset_updated_at = env_now e\<rparr>"

definition insert_asset :: "(uuid \<Rightarrow> content_asset) \<Rightarrow> db \<Rightarrow> content_asset \<times> db" where
  "insert_asset mk s = (let (i, s1) = fresh_uuid s in (mk i, s1\<lparr>assets := assets s1 @ [mk i]\<rparr>))"

fun insert_assets :: "(uuid \<Rightarrow> content_asset) list \<Rightarrow> db \<Rightarrow> content_asset list \<times> db" where
  "insert_assets [] s = ([], s)"
| "insert_assets (mk # mks) s =
     (let (a, s1) = insert_asset mk s; (as, s2) = insert_assets mks s1 in (a # as, s2))"

text \<open>\<^verbatim>\<open>{c.platform.value: c for c in channels}\<close> and \<^verbatim>\<open>{spec.channel: spec ...}\<close>: the last entry wins.\<close>

definition channel_by_platform :: "uuid \<Rightarrow> db \<Rightarrow> string \<Rightarrow> channel option" where
  "channel_by_platform tenant s p =
     find_row (\<lambda>c. platform_value (ch_platform c) = p) (rev (filter (\<lambda>c. ch_tenant_id c = tenant) (channels s)))"

definition spec_for :: "dict \<Rightarrow> string \<Rightarrow> ab_test_spec option" where
  "spec_for payload p = find_row (\<lambda>sp. spec_channel sp = p) (rev (parse_ab_test_specs payload))"

definition variant_count :: "ab_test_spec option \<Rightarrow> int" where
  "variant_count spec = (case spec of None \<Rightarrow> 1 | Some sp \<Rightarrow> spec_variants sp)"

text \<open>The touchpoint loop: unmappable platforms are skipped. The result pairs each touchpoint's rows
  with its A/B spec.\<close>

fun seed_touchpoints ::
  "env \<Rightarrow> campaign \<Rightarrow> (string \<Rightarrow> channel option) \<Rightarrow> (string \<Rightarrow> ab_test_spec option) \<Rightarrow> strategy_touchpoint list
     \<Rightarrow> db \<Rightarrow> (ab_test_spec option \<times> content_asset list) list \<times> db" where
  "seed_touchpoints e camp chan spec [] s = ([], s)"
| "seed_touchpoints e camp chan spec (tp # tps) s =
     (case plan_for_platform (tp_channel_platform tp) of
        Inl _ \<Rightarrow> seed_touchpoints e camp chan spec tps s
      | Inr plan \<Rightarrow>
          let sp = spec (tp_channel_platform tp);
              (rows, s1) = insert_assets (map (new_asset e camp (chan (tp_channel_platform tp)) plan tp sp)
                             [0..variant_count sp - 1]) s;
              (rest, s2) = seed_touchpoints e camp chan spec tps s1
          in ((sp, rows) # rest, s2))"

text \<open>An A/B test row for the variants of a touchpoint, and the link back from each variant.\<close>

definition insert_ab_test :: "env \<Rightarrow> campaign \<Rightarrow> ab_test_spec \<Rightarrow> content_asset list \<Rightarrow> db \<Rightarrow> ab_test \<times> db" where
  "insert_ab_test e camp sp rows s =
     (let (i, s1) = fresh_uuid s;
          t = \<lparr>ab_id = i, ab_tenant_id = camp_tenant_id camp, ab_campaign_id = camp_id camp,
               ab_name = ''A/B test: '' @ spec_channel sp @ '' touchpoint'',
               ab_hypothesis = Some ''Variant differentiation per E06-S05'',
               ab_primary_metric = primary_metric_for_campaign camp, ab_status = ABDesigning,
               ab_variant_a_id = Some (asset_id (rows ! 0)),
               ab_variant_b_id = (if length rows > 1 then Some (asset_id (rows ! 1)) else None),
               ab_winner_id = None, ab_confidence = None, ab_lift = None, ab_last_evaluated_at = None,
               ab_traffic_split = JObj [], ab_min_runtime_hours = None, ab_max_runtime_hours = None, ab_started_at = None,
               ab_stopped_at = None, ab_created_at = env_now e\<rparr>
      in (t, s1\<lparr>ab_tests := ab_tests s1 @ [t]\<rparr>))"

definition link_variant :: "ab_test \<Rightarrow> content_asset \<Rightarrow> content_asset" where
  "link_variant t a = a\<lparr>asset_metadata := dict_set (asset_metadata a) ''ab_test_group_id'' (JStr (uuid_str (ab_id t)))\<rparr>"

definition seed_ab_test :: "env \<Rightarrow> campaign \<Rightarrow> ab_test_spec option \<times> content_asset list \<Rightarrow> db \<Rightarrow> db" where
  "seed_ab_test e camp p s =
     (case p of
        (Some sp, row # rows) \<Rightarrow>
          let (t, s1) = insert_ab_test e camp sp (row # rows) s
          in fold (\<lambda>a. modify_asset e (asset_id a) (link_variant t)) (row # rows) s1
      | _ \<Rightarrow> s)"

definition generation_request :: "campaign \<Rightarrow> agent \<Rightarrow> content_asset \<Rightarrow> enqueue_request" where
  "generation_request camp ag a =
     (request (camp_tenant_id camp) (ag_id ag) ''content_creator.generate_asset''
        [(''asset_id'', JStr (uuid_str (asset_id a))), (''campaign_id'', JStr (uuid_str (camp_id camp)))])
       \<lparr>rq_campaign_id := Some (camp_id camp)\<rparr>"

definition calendar_of :: "uuid \<Rightarrow> db \<Rightarrow> strategy_touchpoint list" where
  "calendar_of proposal s =
     sort_key (\<lambda>tp. (tp_scheduled_at tp, tp_position tp)) (filter (\<lambda>tp. tp_proposal_id tp = proposal) (touchpoints s))"

definition seed_assets_for_campaign :: "env \<Rightarrow> campaign \<Rightarrow> db \<Rightarrow> (uuid list \<times> db) res" where
  "seed_assets_for_campaign e camp s =
     (case scalar_one_or_none (filter (\<lambda>p. prop_campaign_id p = camp_id camp \<and> prop_is_accepted p) (proposals s)) of
        None \<Rightarrow> Inl MultipleResultsFound
      | Some None \<Rightarrow> Inl ContentCreatorError
      | Some (Some accepted) \<Rightarrow>
          let tps = calendar_of (prop_id accepted) s
          in if tps = [] then Inl ContentCreatorError
             else case ensure_content_creator_agent e (camp_tenant_id camp) s of
                    Inl err \<Rightarrow> Inl err
                  | Inr (ag, s1) \<Rightarrow>
                      let (groups, s2) = seed_touchpoints e camp (channel_by_platform (camp_tenant_id camp) s1)
                                           (spec_for (prop_payload accepted)) tps s1;
                          rows = concat (map snd groups);
                          s3 = fold (seed_ab_test e camp) groups s2
                      in if rows = [] then Inl ContentCreatorError
                         else map_sum id (\<lambda>s4. (map asset_id rows, s4))
                                (for_each (\<lambda>a s. map_sum id snd (enqueue_task e (generation_request camp ag a) s)) rows s3))"

section \<open>What seeding does\<close>

lemma variants_clamped:
  "parse_spec entry = Some sp \<Longrightarrow> 2 \<le> spec_variants sp \<and> spec_variants sp \<le> 5"
  by (auto simp: parse_spec_def Let_def min_variants_def max_variants_def split: json.splits if_splits)

lemma spec_for_clamped: "spec_for payload p = Some sp \<Longrightarrow> 2 \<le> spec_variants sp \<and> spec_variants sp \<le> 5"
  by (auto simp: spec_for_def parse_ab_test_specs_def set_map_filter
      dest!: find_row_Some dest: variants_clamped split: json.splits)

text \<open>A request for content as seeding creates it.\<close>

definition content_request :: "campaign \<Rightarrow> content_asset \<Rightarrow> bool" where
  "content_request camp a \<longleftrightarrow> asset_status_of a = ARequested \<and> asset_is_required a
     \<and> asset_campaign_id a = camp_id camp \<and> asset_tenant_id a = camp_tenant_id camp
     \<and> asset_scheduled_at a \<noteq> None"

lemma insert_asset_effect:
  "insert_asset mk s = (a, s') \<Longrightarrow> a = mk (db_gen s (db_seq s)) \<and> assets s' = assets s @ [a] \<and> tasks s' = tasks s
     \<and> db_gen s' = db_gen s \<and> db_seq s' = Suc (db_seq s)"
  by (auto simp: insert_asset_def fresh_uuid_def Let_def)

lemma insert_assets_effect:
  "insert_assets mks s = (rows, s') \<Longrightarrow> assets s' = assets s @ rows \<and> tasks s' = tasks s \<and> db_gen s' = db_gen s
     \<and> db_seq s' = db_seq s + length mks \<and> length rows = length mks
     \<and> (\<forall>a\<in>set rows. \<exists>mk\<in>set mks. \<exists>n\<ge>db_seq s. a = mk (db_gen s n))"
proof (induction mks arbitrary: s rows s')
  case (Cons mk mks)
  obtain a s1 where a: "insert_asset mk s = (a, s1)" by force
  obtain as s2 where as: "insert_assets mks s1 = (as, s2)" by force
  have res: "rows = a # as" "s' = s2" using Cons.prems a as by (auto simp: Let_def)
  note A = insert_asset_effect [OF a]
  note B = Cons.IH [OF as]
  have "\<exists>mk\<in>set mks. \<exists>n\<ge>db_seq s. b = mk (db_gen s n)" if "b \<in> set as" for b
    using B A that by (metis Suc_leD)
  with A B res show ?case by auto
qed auto

lemma seed_touchpoints_effect:
  "seed_touchpoints e camp chan spec tps s = (groups, s') \<Longrightarrow>
     assets s' = assets s @ concat (map snd groups) \<and> tasks s' = tasks s \<and> db_gen s' = db_gen s \<and> db_seq s \<le> db_seq s'
     \<and> (\<forall>a\<in>set (concat (map snd groups)). content_request camp a \<and> (\<exists>n\<ge>db_seq s. asset_id a = db_gen s n))"
proof (induction tps arbitrary: s groups)
  case (Cons tp tps)
  show ?case
  proof (cases "plan_for_platform (tp_channel_platform tp)")
    case (Inl err)
    with Cons show ?thesis by simp
  next
    case (Inr plan)
    let ?sp = "spec (tp_channel_platform tp)"
    let ?mks = "map (new_asset e camp (chan (tp_channel_platform tp)) plan tp ?sp) [0..variant_count ?sp - 1]"
    obtain rows s1 where rows: "insert_assets ?mks s = (rows, s1)" by force
    obtain rest s2 where rest: "seed_touchpoints e camp chan spec tps s1 = (rest, s2)" by force
    have res: "groups = (?sp, rows) # rest" "s' = s2" using Cons.prems Inr rows rest by (auto simp: Let_def)
    note A = insert_assets_effect [OF rows]
    note B = Cons.IH [OF rest [folded res(2)]]
    have new: "content_request camp a \<and> (\<exists>n\<ge>db_seq s. asset_id a = db_gen s n)" if "a \<in> set rows" for a
    proof -
      from A that obtain mk n where "mk \<in> set ?mks" "db_seq s \<le> n" "a = mk (db_gen s n)" by blast
      then show ?thesis by (auto simp: content_request_def new_asset_def)
    qed
    have old: "content_request camp a \<and> (\<exists>n\<ge>db_seq s. asset_id a = db_gen s n)"
      if "a \<in> set (concat (map snd rest))" for a
    proof -
      from B that have "content_request camp a" "\<exists>n\<ge>db_seq s1. asset_id a = db_gen s1 n" by blast+
      with A show ?thesis by (metis le_add1 order_trans)
    qed
    have "\<forall>a\<in>set (concat (map snd groups)). content_request camp a \<and> (\<exists>n\<ge>db_seq s. asset_id a = db_gen s n)"
      unfolding res(1) using new old by (simp only: list.map snd_conv concat.simps set_append) blast
    then show ?thesis using A B by (simp add: res(1))
  qed
qed auto

text \<open>Linking changes only the group in the metadata and the timestamp, and only of the listed rows.\<close>

definition linked :: "content_asset \<Rightarrow> content_asset \<Rightarrow> bool" where
  "linked a b \<longleftrightarrow> a\<lparr>asset_metadata := [], asset_updated_at := 0\<rparr> = b\<lparr>asset_metadata := [], asset_updated_at := 0\<rparr>
     \<and> (\<forall>k. k \<noteq> ''ab_test_group_id'' \<longrightarrow> dict_get (asset_metadata b) k = dict_get (asset_metadata a) k)"

lemma linked_refl [simp]: "linked a a"
  by (simp add: linked_def)

lemma linked_trans: "linked a b \<Longrightarrow> linked b c \<Longrightarrow> linked a c"
  by (simp add: linked_def)

lemma linked_facts:
  assumes "linked a b"
  shows "asset_id b = asset_id a" "content_request camp b \<longleftrightarrow> content_request camp a"
proof -
  from assms have eq: "a\<lparr>asset_metadata := [], asset_updated_at := 0\<rparr> = b\<lparr>asset_metadata := [], asset_updated_at := 0\<rparr>"
    by (simp add: linked_def)
  from arg_cong [OF eq, of asset_id] show "asset_id b = asset_id a" by simp
  from arg_cong [OF eq, of "content_request camp"] show "content_request camp b \<longleftrightarrow> content_request camp a"
    by (simp add: content_request_def)
qed

lemma linked_link: "linked a (stamped e (link_variant t) a)"
  by (simp add: linked_def stamped_def link_variant_def)

definition relinked :: "uuid set \<Rightarrow> content_asset list \<Rightarrow> content_asset list \<Rightarrow> bool" where
  "relinked ids = list_all2 (\<lambda>a b. linked a b \<and> (asset_id a \<notin> ids \<longrightarrow> b = a))"

lemma relinked_refl: "relinked ids xs xs"
  by (simp add: relinked_def list.rel_refl)

lemma relinked_trans:
  assumes "relinked ids xs ys" "relinked ids ys zs"
  shows "relinked ids xs zs"
  unfolding relinked_def
  by (rule list_all2_trans [OF _ assms [unfolded relinked_def]])
    (auto intro: linked_trans dest: linked_facts(1))

lemma relinked_mono: "relinked ids xs ys \<Longrightarrow> ids \<subseteq> ids' \<Longrightarrow> relinked ids' xs ys"
  unfolding relinked_def by (erule list_all2_mono) auto

lemma relinked_modify:
  "relinked {i} (assets s) (assets (modify_asset e i (link_variant t) s))"
  by (auto simp: relinked_def update_where_def list_all2_conv_all_nth linked_link)

lemma fold_link_effect:
  "relinked (asset_id ` set rows) (assets s) (assets (fold (\<lambda>a. modify_asset e (asset_id a) (link_variant t)) rows s))
   \<and> tasks (fold (\<lambda>a. modify_asset e (asset_id a) (link_variant t)) rows s) = tasks s"
proof (induction rows arbitrary: s)
  case (Cons a rows)
  from Cons [of "modify_asset e (asset_id a) (link_variant t) s"]
    relinked_mono [OF relinked_modify [of "asset_id a" s e t], of "asset_id ` set (a # rows)"]
  show ?case by (auto elim!: relinked_trans intro: relinked_mono)
qed (simp add: relinked_refl)

lemma seed_ab_test_effect:
  "relinked (asset_id ` set (snd g)) (assets s) (assets (seed_ab_test e camp g s)) \<and> tasks (seed_ab_test e camp g s) = tasks s"
proof (cases g)
  case (Pair sp rows)
  obtain t s1 where t: "insert_ab_test e camp (the sp) rows s = (t, s1)" by force
  then have s1: "assets s1 = assets s" "tasks s1 = tasks s"
    by (auto simp: insert_ab_test_def fresh_uuid_def Let_def)
  show ?thesis
  proof (cases "sp = None \<or> rows = []")
    case True
    then show ?thesis using Pair by (auto simp: seed_ab_test_def relinked_refl split: option.splits list.splits)
  next
    case False
    then obtain x r rs where "sp = Some x" "rows = r # rs" by (cases rows) auto
    with Pair t fold_link_effect [of rows s1 e t] s1 show ?thesis
      by (simp add: seed_ab_test_def del: fold_simps)
  qed
qed

lemma fold_seed_ab_test_effect:
  "relinked (asset_id ` set (concat (map snd groups))) (assets s) (assets (fold (seed_ab_test e camp) groups s))
   \<and> tasks (fold (seed_ab_test e camp) groups s) = tasks s"
proof (induction groups arbitrary: s)
  case (Cons g groups)
  let ?ids = "asset_id ` set (concat (map snd (g # groups)))"
  have "relinked ?ids (assets s) (assets (seed_ab_test e camp g s))"
    by (rule relinked_mono [OF conjunct1 [OF seed_ab_test_effect]]) auto
  moreover have "relinked ?ids (assets (seed_ab_test e camp g s)) (assets (fold (seed_ab_test e camp) groups (seed_ab_test e camp g s)))"
    by (rule relinked_mono [OF conjunct1 [OF Cons]]) auto
  ultimately show ?case
    using Cons [of "seed_ab_test e camp g s"] seed_ab_test_effect [of g s e camp]
    by (auto intro: relinked_trans)
qed (simp add: relinked_refl)

definition generation_task :: "env \<Rightarrow> campaign \<Rightarrow> agent \<Rightarrow> content_asset \<Rightarrow> task \<Rightarrow> bool" where
  "generation_task e camp ag a t \<longleftrightarrow> (\<exists>i. t = new_task e (generation_request camp ag a) i)"

lemma enqueue_generation [simp]:
  "enqueue_task e (generation_request camp ag a) s = Inr (insert_task e (generation_request camp ag a) s)"
  by (rule enqueue_without_key) (simp_all add: generation_request_def request_def)

lemma enqueue_loop_effect:
  "for_each (\<lambda>a s. map_sum id snd (enqueue_task e (generation_request camp ag a) s)) rows s = Inr s' \<Longrightarrow>
     assets s' = assets s \<and> (\<exists>new. tasks s' = tasks s @ new \<and> list_all2 (generation_task e camp ag) rows new)"
proof (induction rows arbitrary: s)
  case (Cons a rows)
  let ?s1 = "snd (insert_task e (generation_request camp ag a) s)"
  from Cons.prems have "for_each (\<lambda>a s. map_sum id snd (enqueue_task e (generation_request camp ag a) s)) rows ?s1 = Inr s'"
    by simp
  from Cons.IH [OF this] obtain new where new: "assets s' = assets s"
    "tasks s' = tasks s @ [new_task e (generation_request camp ag a) (fst (fresh_uuid s))] @ new"
    "list_all2 (generation_task e camp ag) rows new" by auto
  moreover have "generation_task e camp ag a (new_task e (generation_request camp ag a) (fst (fresh_uuid s)))"
    by (auto simp: generation_task_def)
  ultimately show ?case
    by (intro conjI exI [of _ "new_task e (generation_request camp ag a) (fst (fresh_uuid s)) # new"]) simp_all
qed simp

lemma generation_task_id: "asset_id b = asset_id a \<Longrightarrow> generation_task e camp ag b = generation_task e camp ag a"
  by (simp add: generation_task_def [abs_def] generation_request_def)

lemma linked_rows:
  assumes "list_all2 linked rows new"
  shows "map asset_id new = map asset_id rows"
    and "list_all2 (generation_task e camp ag) rows ts \<Longrightarrow> list_all2 (generation_task e camp ag) new ts"
proof -
  have n: "length rows = length new" "\<And>k. k < length rows \<Longrightarrow> linked (rows ! k) (new ! k)"
    using assms by (auto simp: list_all2_conv_all_nth)
  show "map asset_id new = map asset_id rows"
    by (rule nth_equalityI) (simp_all add: n(1) linked_facts(1) [OF n(2)])
  show "list_all2 (generation_task e camp ag) new ts" if "list_all2 (generation_task e camp ag) rows ts"
    unfolding list_all2_conv_all_nth
  proof (intro conjI allI impI)
    show "length new = length ts" using that n(1) by (simp add: list_all2_lengthD)
    fix k assume "k < length new"
    then have "generation_task e camp ag (new ! k) = generation_task e camp ag (rows ! k)"
      by (intro generation_task_id linked_facts(1) n(2)) (simp add: n(1))
    with that n(1) \<open>k < length new\<close> show "generation_task e camp ag (new ! k) (ts ! k)"
      by (simp add: list_all2_conv_all_nth)
  qed
qed

section \<open>Every touchpoint gets its assets\<close>

text \<open>The specification: how many assets a touchpoint asks for, the list of all assets asked for, in calendar order, and
  what an asset has to be to answer such an order.\<close>

definition assets_wanted :: "dict \<Rightarrow> strategy_touchpoint \<Rightarrow> nat" where
  "assets_wanted payload tp =
     (if map_of platform_to_asset_type (py_lower (py_strip (tp_channel_platform tp))) = None then 0
      else case spec_for payload (tp_channel_platform tp) of None \<Rightarrow> 1 | Some sp \<Rightarrow> nat (spec_variants sp))"

definition content_orders :: "dict \<Rightarrow> strategy_touchpoint list \<Rightarrow> (strategy_touchpoint \<times> nat) list" where
  "content_orders payload tps = concat (map (\<lambda>tp. map (Pair tp) [0..<assets_wanted payload tp]) tps)"

definition answers_order :: "campaign \<Rightarrow> channel list \<Rightarrow> dict \<Rightarrow> strategy_touchpoint \<times> nat \<Rightarrow> content_asset \<Rightarrow> bool" where
  "answers_order camp chs payload order a \<longleftrightarrow> (case order of (tp, k) \<Rightarrow>
     content_request camp a \<and> asset_scheduled_at a = Some (tp_scheduled_at tp)
     \<and> map_of platform_to_asset_type (py_lower (py_strip (tp_channel_platform tp))) = Some (asset_type_of a)
     \<and> (let of_platform = filter (\<lambda>c. ch_tenant_id c = camp_tenant_id camp \<and> platform_value (ch_platform c) = tp_channel_platform tp) chs
        in if of_platform = [] then asset_channel_id a = None else asset_channel_id a \<in> Some ` ch_id ` set of_platform)
     \<and> dict_get (asset_metadata a) ''touchpoint_id'' = JStr (uuid_str (tp_id tp))
     \<and> dict_get (asset_metadata a) ''channel_platform'' = JStr (tp_channel_platform tp)
     \<and> (spec_for payload (tp_channel_platform tp) \<noteq> None \<longrightarrow> dict_get (asset_metadata a) ''variant_index'' = JInt (int k)))"

lemma upto_nat: "[0..n - 1] = map int [0..<nat n]"
  by (rule nth_equalityI) simp_all

lemma insert_assets_rows: "insert_assets mks s = (rows, s') \<Longrightarrow> list_all2 (\<lambda>mk a. \<exists>i. a = mk i) mks rows"
  by (induction mks arbitrary: s rows s') (auto simp: insert_asset_def Let_def split: prod.splits)

lemma channel_of_platform:
  "let of_platform = filter (\<lambda>c. ch_tenant_id c = tenant \<and> platform_value (ch_platform c) = p) (channels s);
       ch = map_option ch_id (channel_by_platform tenant s p)
   in if of_platform = [] then ch = None else ch \<in> Some ` ch_id ` set of_platform"
proof (cases "channel_by_platform tenant s p")
  case None
  then show ?thesis by (auto simp: channel_by_platform_def find_row_None filter_empty_conv)
next
  case (Some c)
  then have "c \<in> set (filter (\<lambda>c. ch_tenant_id c = tenant \<and> platform_value (ch_platform c) = p) (channels s))"
    by (auto simp: channel_by_platform_def dest!: find_row_Some)
  then show ?thesis using Some by (auto simp: Let_def filter_empty_conv)
qed

lemma new_asset_answers:
  assumes "plan_for_platform (tp_channel_platform tp) = Inr plan"
  shows "answers_order camp (channels s) payload (tp, k)
    (new_asset e camp (channel_by_platform (camp_tenant_id camp) s (tp_channel_platform tp)) plan tp
       (spec_for payload (tp_channel_platform tp)) (int k) i)"
  using assms channel_of_platform [of "camp_tenant_id camp" "tp_channel_platform tp" s]
  by (auto simp: answers_order_def new_asset_def content_request_def plan_for_platform_def variant_metadata_def dict_get_def Let_def
      split: option.splits)

lemma seed_touchpoints_answers:
  "seed_touchpoints e camp (channel_by_platform (camp_tenant_id camp) s0) (spec_for payload) tps s = (groups, s')
   \<Longrightarrow> list_all2 (answers_order camp (channels s0) payload) (content_orders payload tps) (concat (map snd groups))"
proof (induction tps arbitrary: s groups)
  case (Cons tp tps)
  let ?p = "tp_channel_platform tp" and ?chan = "channel_by_platform (camp_tenant_id camp) s0"
  show ?case
  proof (cases "plan_for_platform ?p")
    case (Inl err)
    with Cons show ?thesis
      by (auto simp: content_orders_def assets_wanted_def plan_for_platform_def Let_def split: option.splits)
  next
    case (Inr plan)
    let ?sp = "spec_for payload ?p"
    obtain rows s1 where rows: "insert_assets (map (new_asset e camp (?chan ?p) plan tp ?sp) [0..variant_count ?sp - 1]) s = (rows, s1)"
      by force
    obtain rest s2 where rest: "seed_touchpoints e camp ?chan (spec_for payload) tps s1 = (rest, s2)" by force
    have res: "groups = (?sp, rows) # rest" "s' = s2" using Cons.prems Inr rows rest by (auto simp: Let_def)
    have n: "assets_wanted payload tp = nat (variant_count ?sp)"
      using Inr by (auto simp: assets_wanted_def variant_count_def plan_for_platform_def Let_def split: option.splits)
    have "list_all2 (answers_order camp (channels s0) payload) (map (Pair tp) [0..<assets_wanted payload tp]) rows"
      using insert_assets_rows [OF rows] unfolding n upto_nat
      by (auto simp: list_all2_conv_all_nth new_asset_answers [OF Inr])
    with Cons.IH [OF rest [folded res(2)]] show ?thesis
      by (simp add: res(1) content_orders_def list_all2_appendI)
  qed
qed (simp add: content_orders_def)

lemma linked_answers: "linked a b \<Longrightarrow> answers_order camp chs payload order a \<Longrightarrow> answers_order camp chs payload order b"
proof -
  assume ln: "linked a b" and ans: "answers_order camp chs payload order a"
  then have eq: "a\<lparr>asset_metadata := [], asset_updated_at := 0\<rparr> = b\<lparr>asset_metadata := [], asset_updated_at := 0\<rparr>"
    by (simp add: linked_def)
  have fields: "asset_scheduled_at b = asset_scheduled_at a" "asset_type_of b = asset_type_of a" "asset_channel_id b = asset_channel_id a"
    using arg_cong [OF eq, of asset_scheduled_at] arg_cong [OF eq, of asset_type_of] arg_cong [OF eq, of asset_channel_id] by simp_all
  have meta: "dict_get (asset_metadata b) ''touchpoint_id'' = dict_get (asset_metadata a) ''touchpoint_id''"
    "dict_get (asset_metadata b) ''channel_platform'' = dict_get (asset_metadata a) ''channel_platform''"
    "dict_get (asset_metadata b) ''variant_index'' = dict_get (asset_metadata a) ''variant_index''"
    using ln by (simp_all add: linked_def)
  show ?thesis using ans unfolding answers_order_def fields meta linked_facts(2) [OF ln] .
qed

text \<open>C18. Seeding turns the accepted calendar into content work without loss: the existing assets and tasks are
  untouched; the calendar is that of the campaign's one accepted proposal, in schedule order; for every touchpoint on a
  known platform one asset is appended (as many as the A/B spec for the platform asks for, between two and five), a
  required one in \<open>requested\<close> that carries the slot, the type, the channel, the id and the platform of this
  touchpoint and the number of its variant; and every new asset has exactly one queued generation task.\<close>

theorem seed_assets_correct:
  assumes run: "seed_assets_for_campaign e camp s = Inr (ids, s')"
    and fresh: "\<forall>n\<ge>db_seq s. db_gen s n \<notin> asset_id ` set (assets s)"
  shows "\<exists>new tnew ag accepted tps. assets s' = assets s @ new \<and> map asset_id new = ids \<and> new \<noteq> []
    \<and> filter (\<lambda>p. prop_campaign_id p = camp_id camp \<and> prop_is_accepted p) (proposals s) = [accepted]
    \<and> mset tps = mset (filter (\<lambda>tp. tp_proposal_id tp = prop_id accepted) (touchpoints s))
    \<and> sorted (map (\<lambda>tp. (tp_scheduled_at tp, tp_position tp)) tps)
    \<and> list_all2 (answers_order camp (channels s) (prop_payload accepted)) (content_orders (prop_payload accepted) tps) new
    \<and> (\<forall>p sp. spec_for (prop_payload accepted) p = Some sp \<longrightarrow> 2 \<le> spec_variants sp \<and> spec_variants sp \<le> 5)
    \<and> tasks s' = tasks s @ tnew \<and> list_all2 (generation_task e camp ag) new tnew"
proof -
  from run obtain accepted ag s1 groups s2 where
    acc: "filter (\<lambda>p. prop_campaign_id p = camp_id camp \<and> prop_is_accepted p) (proposals s) = [accepted]"
    and s1: "ensure_content_creator_agent e (camp_tenant_id camp) s = Inr (ag, s1)"
    and s2: "seed_touchpoints e camp (channel_by_platform (camp_tenant_id camp) s1)
        (spec_for (prop_payload accepted)) (calendar_of (prop_id accepted) s) s1 = (groups, s2)"
    and ne: "concat (map snd groups) \<noteq> []" and ids: "ids = map asset_id (concat (map snd groups))"
    and s': "for_each (\<lambda>a s. map_sum id snd (enqueue_task e (generation_request camp ag a) s)) (concat (map snd groups))
        (fold (seed_ab_test e camp) groups s2) = Inr s'"
    by (auto simp: seed_assets_for_campaign_def Let_def scalar_one_or_none_Some_Some
        split: option.splits if_splits sum.splits prod.splits)
  let ?rows = "concat (map snd groups)" and ?s3 = "fold (seed_ab_test e camp) groups s2"
  have f1: "assets s1 = assets s" "tasks s1 = tasks s" "channels s1 = channels s" "db_gen s1 = db_gen s" "db_seq s \<le> db_seq s1"
    using s1 by (auto simp: ensure_content_creator_agent_def ensure_agent_def insert_agent_def fresh_uuid_def
        Let_def write_audit_def split: option.splits if_splits)
  note T = seed_touchpoints_effect [OF s2]
  note L = fold_seed_ab_test_effect [of groups s2 e camp]
  note E = enqueue_loop_effect [OF s']
  have old: "asset_id a \<notin> asset_id ` set ?rows" if a: "a \<in> set (assets s)" for a
  proof
    assume "asset_id a \<in> asset_id ` set ?rows"
    then obtain b where b: "b \<in> set ?rows" "asset_id a = asset_id b" by (rule imageE)
    with T obtain n where "n \<ge> db_seq s1" "asset_id b = db_gen s1 n" by blast
    with fresh f1 a b(2) show False by (metis image_eqI order_trans)
  qed
  have "relinked (asset_id ` set ?rows) (assets s @ ?rows) (assets s')"
    using T L E f1 by simp
  then obtain xs new where xs: "assets s' = xs @ new" "relinked (asset_id ` set ?rows) (assets s) xs"
      "relinked (asset_id ` set ?rows) ?rows new"
    by (auto simp: relinked_def list_all2_append1)
  have "list_all2 (=) (assets s) xs"
    by (rule list.rel_mono_strong [OF xs(2) [unfolded relinked_def]]) (use old in auto)
  then have 1: "assets s' = assets s @ new" using xs(1) by (simp add: list.rel_eq)
  have lk: "list_all2 linked ?rows new"
    by (rule list_all2_mono [OF xs(3) [unfolded relinked_def]]) simp
  have 2: "list_all2 (answers_order camp (channels s) (prop_payload accepted))
      (content_orders (prop_payload accepted) (calendar_of (prop_id accepted) s)) new"
    by (rule list_all2_trans [OF _ seed_touchpoints_answers [OF s2, unfolded f1(3)] lk]) (rule linked_answers)
  obtain tnew where tn: "tasks s' = tasks ?s3 @ tnew" "list_all2 (generation_task e camp ag) ?rows tnew"
    using E by blast
  have "new \<noteq> []" using ne list_all2_lengthD [OF lk] by (metis length_0_conv)
  moreover have 3: "tasks s' = tasks s @ tnew" "list_all2 (generation_task e camp ag) new tnew" "map asset_id new = ids"
    using tn L T f1(2) linked_rows [OF lk] ids by simp_all
  ultimately show ?thesis
    by (intro exI [of _ new] exI [of _ tnew] exI [of _ ag] exI [of _ accepted] exI [of _ "calendar_of (prop_id accepted) s"] conjI)
      (use 1 2 3 acc spec_for_clamped in \<open>simp_all add: calendar_of_def\<close>)
qed

section \<open>A concrete instance\<close>

definition demo_touchpoint :: strategy_touchpoint where
  "demo_touchpoint = \<lparr>tp_id = 30, tp_tenant_id = 1, tp_proposal_id = 11, tp_channel_platform = ''email'',
     tp_audience_id = 2, tp_scheduled_at = 100, tp_position = 0, tp_human_override = False,
     tp_frequency_warning = None\<rparr>"

definition demo_proposal :: strategy_proposal where
  "demo_proposal = \<lparr>prop_id = 11, prop_tenant_id = 1, prop_campaign_id = 7, prop_version = 1,
     prop_payload = [], prop_is_accepted = True, prop_created_by_kind = ''agent'',
     prop_created_by_id = None, prop_warnings = []\<rparr>"

definition strategy_db :: db where
  "strategy_db = empty_db\<lparr>campaigns := [demo_campaign StrategySet], proposals := [demo_proposal],
     touchpoints := [demo_touchpoint]\<rparr>"

lemma strategy_db_simps [simp]:
  "proposals strategy_db = [demo_proposal]" "touchpoints strategy_db = [demo_touchpoint]" "assets strategy_db = []"
  "agents strategy_db = []" "tasks strategy_db = []" "channels strategy_db = []"
  "campaigns strategy_db = [demo_campaign StrategySet]"
  by (simp_all add: strategy_db_def empty_db_def)

lemma for_each_enqueue_total:
  "\<exists>s'. for_each (\<lambda>a s. map_sum id snd (enqueue_task e (generation_request camp ag a) s)) rows s = Inr s'"
  by (rule for_each_Inr_total) simp

lemma demo_seed_runs: "\<exists>ids s'. seed_assets_for_campaign (worker_env 5) (demo_campaign StrategySet) strategy_db = Inr (ids, s')"
proof -
  obtain ag s1 where ag: "ensure_content_creator_agent (worker_env 5) 1 strategy_db = Inr (ag, s1)"
    by (simp add: ensure_content_creator_agent_def ensure_agent_def) (metis surj_pair)
  obtain plan where plan: "plan_for_platform ''email'' = Inr plan"
    by (auto simp: plan_for_platform_def Let_def platform_to_asset_type_def py_lower_def py_strip_def is_space_def
        lower_char_def)
  have spec: "spec_for [] ''email'' = None" by code_simp
  let ?tp = "seed_touchpoints (worker_env 5) (demo_campaign StrategySet) (channel_by_platform 1 s1) (spec_for []) [demo_touchpoint] s1"
  obtain groups s2 where g: "?tp = (groups, s2)" by force
  have "concat (map snd groups) \<noteq> []"
    using g by (auto simp: demo_touchpoint_def plan spec variant_count_def Let_def split: prod.splits
        dest!: insert_assets_effect)
  moreover have "calendar_of 11 strategy_db = [demo_touchpoint]"
    by (simp add: calendar_of_def demo_touchpoint_def)
  ultimately show ?thesis
    using ag g for_each_enqueue_total
    by (fastforce simp: seed_assets_for_campaign_def demo_proposal_def Let_def)
qed

theorem seed_assets_correct_witness:
  "\<exists>ids s' a. seed_assets_for_campaign (worker_env 5) (demo_campaign StrategySet) strategy_db = Inr (ids, s')
     \<and> assets s' = [a] \<and> asset_status_of a = ARequested \<and> asset_scheduled_at a = Some 100 \<and> asset_type_of a = TEmail
     \<and> length (tasks s') = 1"
proof -
  obtain ids s' where run: "seed_assets_for_campaign (worker_env 5) (demo_campaign StrategySet) strategy_db = Inr (ids, s')"
    using demo_seed_runs by blast
  have fresh: "\<forall>n\<ge>db_seq strategy_db. db_gen strategy_db n \<notin> asset_id ` set (assets strategy_db)" by simp
  from seed_assets_correct [OF run this] obtain new tnew ag accepted tps where
    new: "assets s' = new" "tasks s' = tnew" "list_all2 (generation_task (worker_env 5) (demo_campaign StrategySet) ag) new tnew"
    and acc: "filter (\<lambda>p. prop_campaign_id p = camp_id (demo_campaign StrategySet) \<and> prop_is_accepted p) [demo_proposal] = [accepted]"
    and tps: "mset tps = mset (filter (\<lambda>tp. tp_proposal_id tp = prop_id accepted) [demo_touchpoint])"
    and ans: "list_all2 (answers_order (demo_campaign StrategySet) [] (prop_payload accepted)) (content_orders (prop_payload accepted) tps) new"
    unfolding strategy_db_simps append_Nil by blast
  have p: "accepted = demo_proposal" "prop_payload demo_proposal = []" "prop_id demo_proposal = 11"
    using acc by (auto simp: demo_proposal_def split: if_splits)
  have "tps = [demo_touchpoint]" using tps by (simp add: p demo_touchpoint_def)
  moreover have "content_orders [] [demo_touchpoint] = [(demo_touchpoint, 0)]" by code_simp
  moreover have "map_of platform_to_asset_type (py_lower (py_strip ''email'')) = Some TEmail" by code_simp
  ultimately obtain a where "new = [a]" "asset_status_of a = ARequested" "asset_scheduled_at a = Some 100" "asset_type_of a = TEmail"
    using ans by (auto simp: p list_all2_Cons1 answers_order_def content_request_def demo_touchpoint_def)
  then show ?thesis using run new by (auto dest: list_all2_lengthD)
qed

end
