(* ===== verification/State_Machine.thy ===== *)
theory State_Machine
  imports Content_Seeding Scheduling Report
begin

text \<open>
  The campaign state machine of \<^verbatim>\<open>app/orchestrator/state_machine.py\<close>: the transition table with its
  guards and entry hooks, \<^verbatim>\<open>apply\<close> (here \<open>apply_transition\<close>), and the three callers that advance a campaign
  when they can (\<^verbatim>\<open>_maybe_submit_for_approval\<close>, \<^verbatim>\<open>_maybe_go_live\<close>, \<^verbatim>\<open>try_advance_after_approval\<close>).
  \<open>tc\<close> is the driver's typed column comparison used by the final report.
\<close>

section \<open>Transitions\<close>

record transition =
  tr_name :: string
  tr_from :: campaign_status
  tr_to :: campaign_status
  tr_guard :: "(env \<Rightarrow> campaign \<Rightarrow> db \<Rightarrow> bool) option"
  tr_on_enter :: "(env \<Rightarrow> campaign \<Rightarrow> db \<Rightarrow> db res) option"

type_synonym state_machine = "((campaign_status \<times> string) \<times> transition) list"

definition register :: "transition \<Rightarrow> state_machine \<Rightarrow> state_machine res" where
  "register tr sm =
     (let key = (tr_from tr, tr_name tr)
      in if map_of sm key \<noteq> None then Inl ValueError else Inr (sm @ [(key, tr)]))"

definition transitions_from :: "campaign_status \<Rightarrow> state_machine \<Rightarrow> string list" where
  "transitions_from st sm = sort (map (snd \<circ> fst) (filter (\<lambda>p. fst (fst p) = st) sm))"

definition status_dict :: "campaign_status \<Rightarrow> snapshot" where
  "status_dict st = SnapDict [(''status'', JStr (campaign_status_value st))]"

definition apply_transition :: "state_machine \<Rightarrow> env \<Rightarrow> campaign \<Rightarrow> string \<Rightarrow> db \<Rightarrow> (campaign \<times> db) res" where
  "apply_transition sm e camp name s =
     (case map_of sm (camp_status camp, name) of
        None \<Rightarrow> Inl UnknownTransitionError
      | Some tr \<Rightarrow>
          if (case tr_guard tr of None \<Rightarrow> False | Some g \<Rightarrow> \<not> g e camp s) then Inl GuardFailedError
          else let camp' = camp\<lparr>camp_status := tr_to tr\<rparr>;
                   s1 = modify_campaign (camp_id camp) (\<lambda>c. c\<lparr>camp_status := tr_to tr\<rparr>) s;
                   s2 = write_audit e (camp_tenant_id camp) ''campaign'' (camp_id camp) ''transition_applied''
                          (Some (status_dict (camp_status camp))) (Some (status_dict (tr_to tr)))
                          [(''transition'', JStr (tr_name tr))] s1
               in (case tr_on_enter tr of
                     None \<Rightarrow> Inr (camp', s2)
                   | Some h \<Rightarrow> map_sum id (\<lambda>s3. (camp', s3)) (h e camp' s2)))"

section \<open>Guards and hooks\<close>

definition ensure_orchestrator_agent :: "env \<Rightarrow> uuid \<Rightarrow> db \<Rightarrow> (agent \<times> db) res" where
  "ensure_orchestrator_agent e tenant s = ensure_agent e Orchestrator ''Marketing Orchestrator'' tenant s"

definition enqueue_echo_step :: "env \<Rightarrow> campaign \<Rightarrow> db \<Rightarrow> db res" where
  "enqueue_echo_step e camp s =
     (case ensure_orchestrator_agent e (camp_tenant_id camp) s of
        Inl err \<Rightarrow> Inl err
      | Inr (ag, s1) \<Rightarrow>
          map_sum id snd (enqueue_task e
            ((request (camp_tenant_id camp) (ag_id ag) ''echo''
                [(''campaign_id'', JStr (uuid_str (camp_id camp))), (''transition'', JStr ''echo_step'')])
               \<lparr>rq_campaign_id := Some (camp_id camp)\<rparr>) s1))"

definition has_accepted_strategy :: "env \<Rightarrow> campaign \<Rightarrow> db \<Rightarrow> bool" where
  "has_accepted_strategy e camp s =
     list_ex (\<lambda>p. prop_campaign_id p = camp_id camp \<and> prop_is_accepted p) (proposals s)"

definition seed_content_assets :: "env \<Rightarrow> campaign \<Rightarrow> db \<Rightarrow> db res" where
  "seed_content_assets e camp s = map_sum id snd (seed_assets_for_campaign e camp s)"

definition required_in :: "campaign \<Rightarrow> content_asset \<Rightarrow> bool" where
  "required_in camp a \<longleftrightarrow> asset_campaign_id a = camp_id camp \<and> asset_is_required a"

definition any_required :: "campaign \<Rightarrow> (content_asset \<Rightarrow> bool) \<Rightarrow> db \<Rightarrow> bool" where
  "any_required camp P s = list_ex (\<lambda>a. required_in camp a \<and> P a) (assets s)"

text \<open>\<^verbatim>\<open>metadata["compliance"]["blocked"].astext == "true"\<close>.\<close>

definition compliance_blocked :: "content_asset \<Rightarrow> bool" where
  "compliance_blocked a \<longleftrightarrow>
     json_text (dict_get (as_dict (dict_get (asset_metadata a) ''compliance'')) ''blocked'') = Some ''true''"

definition undrafted :: "content_asset \<Rightarrow> bool" where
  "undrafted a \<longleftrightarrow> asset_status_of a \<in> {ARequested, AGenerating, AFailed}"

definition all_required_assets_drafted :: "env \<Rightarrow> campaign \<Rightarrow> db \<Rightarrow> bool" where
  "all_required_assets_drafted e camp s \<longleftrightarrow>
     any_required camp (\<lambda>_. True) s \<and> \<not> any_required camp undrafted s \<and> \<not> any_required camp compliance_blocked s"

definition threshold_snapshot :: "instant \<Rightarrow> approval_settings option \<Rightarrow> dict" where
  "threshold_snapshot now row =
     [(''admin_required_above_amount'',
         case row of None \<Rightarrow> JNull | Some r \<Rightarrow> opt_json (JStr \<circ> money_str) (set_admin_required_above r)),
      (''auto_approval_cap_amount'',
         JStr (case row of None \<Rightarrow> ''0'' | Some r \<Rightarrow> money_str (set_auto_approval_cap r))),
      (''currency'', JStr (case row of None \<Rightarrow> ''USD'' | Some r \<Rightarrow> set_currency r)),
      (''snapshot_taken_at'', JStr (isoformat now))]"

definition submitted :: "instant \<Rightarrow> dict \<Rightarrow> content_asset \<Rightarrow> content_asset" where
  "submitted now snap a =
     set_meta ''approval_threshold'' (JObj snap) (a\<lparr>asset_status_of := APendingApproval, asset_updated_at := now\<rparr>)"

definition drafted_required :: "campaign \<Rightarrow> content_asset \<Rightarrow> bool" where
  "drafted_required camp a \<longleftrightarrow> required_in camp a \<and> asset_status_of a = ADrafted"

definition flip_drafted_assets_to_pending_approval :: "env \<Rightarrow> campaign \<Rightarrow> db \<Rightarrow> db res" where
  "flip_drafted_assets_to_pending_approval e camp s =
     (if filter (drafted_required camp) (assets s) = [] then Inr s
      else case scalar_one_or_none (filter (\<lambda>r. set_tenant_id r = camp_tenant_id camp) (approval_settings_rows s)) of
             None \<Rightarrow> Inl MultipleResultsFound
           | Some row \<Rightarrow>
               Inr (s\<lparr>assets := update_where (drafted_required camp)
                        (stamped e (submitted (env_now e) (threshold_snapshot (env_now e) row))) (assets s)\<rparr>))"

definition all_required_assets_approved :: "env \<Rightarrow> campaign \<Rightarrow> db \<Rightarrow> bool" where
  "all_required_assets_approved e camp s \<longleftrightarrow>
     any_required camp (\<lambda>_. True) s \<and> \<not> any_required camp (\<lambda>a. asset_status_of a \<noteq> AApproved) s"

definition schedule_approved_assets_hook :: "env \<Rightarrow> campaign \<Rightarrow> db \<Rightarrow> db res" where
  "schedule_approved_assets_hook e camp s = map_sum id snd (schedule_approved_assets e camp s)"

definition before_scheduling :: "content_asset \<Rightarrow> bool" where
  "before_scheduling a \<longleftrightarrow> asset_status_of a \<in>
     {ARequested, AGenerating, ADrafted, APendingApproval, AApproved, ARejected, AFailed}"

definition ready_to_go_live :: "env \<Rightarrow> campaign \<Rightarrow> db \<Rightarrow> bool" where
  "ready_to_go_live e camp s \<longleftrightarrow>
     camp_start_date camp \<le> date_of (env_now e)
     \<and> any_required camp (\<lambda>_. True) s \<and> \<not> any_required camp before_scheduling s"

definition any_required_asset_rejected :: "env \<Rightarrow> campaign \<Rightarrow> db \<Rightarrow> bool" where
  "any_required_asset_rejected e camp s \<longleftrightarrow> any_required camp (\<lambda>a. asset_status_of a = ARejected) s"

definition cancel_queued_on_pause :: "env \<Rightarrow> campaign \<Rightarrow> db \<Rightarrow> db res" where
  "cancel_queued_on_pause e camp s = Inr (snd (cancel_queued_for_campaign e (camp_id camp) s))"

definition resume_distribution :: "env \<Rightarrow> campaign \<Rightarrow> db \<Rightarrow> db res" where
  "resume_distribution e camp s = map_sum id snd (resume_distribution_for_campaign e camp s)"

definition auto_generate_report ::
  "(string \<Rightarrow> kpi_op \<Rightarrow> analytic_event \<Rightarrow> bool) \<Rightarrow> env \<Rightarrow> campaign \<Rightarrow> db \<Rightarrow> db res" where
  "auto_generate_report tc e camp s =
     map_sum id snd (generate_report tc (env_now e) ''system'' (camp_tenant_id camp) (camp_id camp) s)"

section \<open>The table\<close>

definition transition_of ::
  "string \<Rightarrow> campaign_status \<Rightarrow> campaign_status \<Rightarrow> (env \<Rightarrow> campaign \<Rightarrow> db \<Rightarrow> bool) option
     \<Rightarrow> (env \<Rightarrow> campaign \<Rightarrow> db \<Rightarrow> db res) option \<Rightarrow> transition" where
  "transition_of name from to g h =
     \<lparr>tr_name = name, tr_from = from, tr_to = to, tr_guard = g, tr_on_enter = h\<rparr>"

definition builtin_transitions :: "(string \<Rightarrow> kpi_op \<Rightarrow> analytic_event \<Rightarrow> bool) \<Rightarrow> transition list" where
  "builtin_transitions tc =
     [transition_of ''echo_step'' Drafted Drafted None (Some enqueue_echo_step),
      transition_of ''set_strategy'' AudienceBuilt StrategySet (Some has_accepted_strategy) None,
      transition_of ''start_content'' StrategySet ContentInProduction None (Some seed_content_assets),
      transition_of ''submit_for_approval'' ContentInProduction ApprovalPending
        (Some all_required_assets_drafted) (Some flip_drafted_assets_to_pending_approval),
      transition_of ''start_launch'' ApprovalPending ReadyToLaunch
        (Some all_required_assets_approved) (Some schedule_approved_assets_hook),
      transition_of ''start_live'' ReadyToLaunch Live (Some ready_to_go_live) None,
      transition_of ''regenerate_after_rejection'' ApprovalPending ContentInProduction
        (Some any_required_asset_rejected) None]
     @ map (\<lambda>st. transition_of ''pause'' st Paused None (Some cancel_queued_on_pause)) [Live, Optimising, ReadyToLaunch]
     @ [transition_of ''resume'' Paused Live None (Some resume_distribution)]
     @ map (\<lambda>st. transition_of ''complete_campaign'' st Completed None (Some (auto_generate_report tc)))
         [Live, Optimising, Paused]"

definition registered :: "(string \<Rightarrow> kpi_op \<Rightarrow> analytic_event \<Rightarrow> bool) \<Rightarrow> state_machine res" where
  "registered tc = for_each register (builtin_transitions tc) []"

definition campaign_sm :: "(string \<Rightarrow> kpi_op \<Rightarrow> analytic_event \<Rightarrow> bool) \<Rightarrow> state_machine" where
  "campaign_sm tc = (case registered tc of Inr sm \<Rightarrow> sm | Inl _ \<Rightarrow> [])"

section \<open>Advancing when possible\<close>

text \<open>\<^verbatim>\<open>except (UnknownTransitionError, GuardFailedError)\<close>: both are raised before anything is written.\<close>

definition try_apply :: "state_machine \<Rightarrow> env \<Rightarrow> campaign \<Rightarrow> string \<Rightarrow> db \<Rightarrow> ((campaign \<times> db) option) res" where
  "try_apply sm e camp name s =
     (case apply_transition sm e camp name s of
        Inr r \<Rightarrow> Inr (Some r)
      | Inl err \<Rightarrow> if err = UnknownTransitionError \<or> err = GuardFailedError then Inr None else Inl err)"

definition maybe_submit_for_approval :: "state_machine \<Rightarrow> env \<Rightarrow> campaign \<Rightarrow> db \<Rightarrow> db res" where
  "maybe_submit_for_approval sm e camp s =
     (if camp_status camp \<noteq> ContentInProduction \<or> any_required camp undrafted s then Inr s
      else map_sum id (\<lambda>r. case r of None \<Rightarrow> s | Some (_, s') \<Rightarrow> s') (try_apply sm e camp ''submit_for_approval'' s))"

definition maybe_go_live :: "state_machine \<Rightarrow> env \<Rightarrow> campaign \<Rightarrow> db \<Rightarrow> db res" where
  "maybe_go_live sm e camp s =
     (if camp_status camp \<noteq> ReadyToLaunch then Inr s
      else map_sum id (\<lambda>r. case r of None \<Rightarrow> s | Some (_, s') \<Rightarrow> s') (try_apply sm e camp ''start_live'' s))"

definition try_start_launch :: "state_machine \<Rightarrow> env \<Rightarrow> campaign \<Rightarrow> db \<Rightarrow> (campaign_status option \<times> db) res" where
  "try_start_launch sm e camp s =
     (if camp_status camp \<noteq> ApprovalPending
      then Inr (if camp_status camp = ReadyToLaunch then Some ReadyToLaunch else None, s)
      else map_sum id (\<lambda>r. case r of None \<Rightarrow> (None, s)
             | Some (camp', s') \<Rightarrow> (if camp_status camp' = ReadyToLaunch then Some ReadyToLaunch else None, s'))
             (try_apply sm e camp ''start_launch'' s))"

definition try_advance_after_approval ::
  "state_machine \<Rightarrow> env \<Rightarrow> campaign \<Rightarrow> db \<Rightarrow> (campaign_status option \<times> db) res" where
  "try_advance_after_approval sm e camp s =
     (if camp_status camp = ContentInProduction then
        (case try_apply sm e camp ''submit_for_approval'' s of
           Inl err \<Rightarrow> Inl err
         | Inr None \<Rightarrow> Inr (None, s)
         | Inr (Some (camp', s')) \<Rightarrow> try_start_launch sm e camp' s')
      else try_start_launch sm e camp s)"

section \<open>The table is what was registered\<close>

definition keyed :: "transition \<Rightarrow> (campaign_status \<times> string) \<times> transition" where
  "keyed tr = ((tr_from tr, tr_name tr), tr)"

lemma register_ok: "map_of sm (tr_from tr, tr_name tr) = None \<Longrightarrow> register tr sm = Inr (sm @ [keyed tr])"
  by (simp add: register_def keyed_def)

lemma for_each_register:
  "distinct (map (\<lambda>tr. (tr_from tr, tr_name tr)) trs) \<Longrightarrow>
   (\<And>tr. tr \<in> set trs \<Longrightarrow> map_of sm (tr_from tr, tr_name tr) = None) \<Longrightarrow>
     for_each register trs sm = Inr (sm @ map keyed trs)"
proof (induction trs arbitrary: sm)
  case (Cons tr trs)
  have "map_of (sm @ [keyed tr]) (tr_from t, tr_name t) = None" if "t \<in> set trs" for t
    using Cons.prems that by (auto simp: keyed_def map_add_def image_iff split: option.splits)
  with Cons show ?case by (simp add: register_ok)
qed simp

lemma distinct_builtin: "distinct (map (\<lambda>tr. (tr_from tr, tr_name tr)) (builtin_transitions tc))"
  by (simp add: builtin_transitions_def transition_of_def)

lemma registered_eq: "registered tc = Inr (map keyed (builtin_transitions tc))"
  using for_each_register [OF distinct_builtin [of tc], where sm = "[]"] by (simp add: registered_def)

lemma campaign_sm_eq: "campaign_sm tc = map keyed (builtin_transitions tc)"
  by (simp add: campaign_sm_def registered_eq)

lemma campaign_sm_lookup:
  "map_of (campaign_sm tc) (st, name) = Some tr \<longleftrightarrow>
     tr \<in> set (builtin_transitions tc) \<and> tr_from tr = st \<and> tr_name tr = name"
proof -
  have d: "distinct (map fst (map keyed (builtin_transitions tc)))"
    using distinct_builtin [of tc] by (simp add: keyed_def comp_def)
  show ?thesis unfolding campaign_sm_eq
    by (subst map_of_eq_Some_iff [OF d]) (auto simp: keyed_def)
qed

section \<open>What hooks leave alone\<close>

text \<open>A hook never touches the campaign table and only appends to the audit log.\<close>

definition keeps :: "db \<Rightarrow> db \<Rightarrow> bool" where
  "keeps s s' \<longleftrightarrow> campaigns s' = campaigns s \<and> (\<exists>l. audit_log s' = audit_log s @ l)"

lemma keeps_refl [simp]: "keeps s s"
  by (simp add: keeps_def)

lemma keeps_trans: "keeps s s1 \<Longrightarrow> keeps s1 s2 \<Longrightarrow> keeps s s2"
  by (auto simp: keeps_def)

lemma keeps_write_audit: "keeps s s1 \<Longrightarrow> keeps s (write_audit e ten k i act b a m s1)"
  by (auto simp: keeps_def write_audit_def)

lemma keeps_modify_asset: "keeps s s1 \<Longrightarrow> keeps s (modify_asset e i f s1)"
  by (simp add: keeps_def)

lemma keeps_insert_task: "keeps s s1 \<Longrightarrow> keeps s (snd (insert_task e rq s1))"
  by (simp add: keeps_def)

lemma keeps_ensure_agent: "ensure_agent e kind name ten s = Inr (ag, s') \<Longrightarrow> keeps s s'"
  by (auto simp: ensure_agent_def insert_agent_def Let_def fresh_uuid_def keeps_def write_audit_def
      split: option.splits if_splits)

lemma keeps_for_each:
  assumes "for_each body xs s = Inr s'" "\<And>x s s'. body x s = Inr s' \<Longrightarrow> keeps s s'"
  shows "keeps s s'"
  using assms(1)
proof (induction xs arbitrary: s)
  case (Cons x xs)
  then obtain s1 where "body x s = Inr s1" "for_each body xs s1 = Inr s'" by (auto split: sum.splits)
  with Cons.IH assms(2) show ?case by (blast intro: keeps_trans)
qed simp

lemma keeps_fold: "(\<And>x s. keeps s (f x s)) \<Longrightarrow> keeps s (fold f xs s)"
  by (induction xs arbitrary: s) (auto intro: keeps_trans)

lemma keeps_insert_assets: "insert_assets mks s = (rows, s') \<Longrightarrow> keeps s s'"
proof (induction mks arbitrary: s rows s')
  case (Cons mk mks)
  obtain a s1 where a: "insert_asset mk s = (a, s1)" by force
  then have "keeps s s1" by (auto simp: insert_asset_def fresh_uuid_def Let_def keeps_def)
  with Cons a show ?case by (auto simp: Let_def split: prod.splits intro: keeps_trans)
qed simp

lemma keeps_seed_touchpoints: "seed_touchpoints e camp chan spec tps s = (groups, s') \<Longrightarrow> keeps s s'"
  by (induction tps arbitrary: s groups)
    (auto simp: Let_def split: sum.splits prod.splits dest!: keeps_insert_assets intro: keeps_trans)

lemma keeps_link: "keeps s1 (fold (\<lambda>a. modify_asset e (asset_id a) (link_variant t)) rows s1)"
  by (rule keeps_fold) (simp add: keeps_modify_asset)

lemma keeps_seed_ab_test: "keeps s (seed_ab_test e camp g s)"
proof (cases "fst g = None \<or> snd g = []")
  case True
  then show ?thesis by (cases g) (auto simp: seed_ab_test_def split: option.splits list.splits)
next
  case False
  then obtain sp r rs where g: "g = (Some sp, r # rs)" by (cases g; cases "snd g") auto
  obtain t s1 where t: "insert_ab_test e camp sp (r # rs) s = (t, s1)" by force
  then have "keeps s s1" by (auto simp: insert_ab_test_def fresh_uuid_def Let_def keeps_def)
  moreover have "seed_ab_test e camp g s = fold (\<lambda>a. modify_asset e (asset_id a) (link_variant t)) (r # rs) s1"
    by (simp add: seed_ab_test_def g t)
  ultimately show ?thesis using keeps_link [of s1 e t "r # rs"] by (metis keeps_trans)
qed

locale campaign_hook =
  fixes hook :: "env \<Rightarrow> campaign \<Rightarrow> db \<Rightarrow> db res"
  assumes hook_keeps: "hook e camp s = Inr s' \<Longrightarrow> keeps s s'"
begin

text \<open>The campaign a transition has just moved is still at its new status after the hook ran, and the
  transition's audit entry is still the first one written after the old log.\<close>

lemma hook_get_campaign: "hook e camp s = Inr s' \<Longrightarrow> get_campaign i s' = get_campaign i s"
  using hook_keeps by (simp add: keeps_def get_campaign_def)

lemma hook_audit: "hook e camp s = Inr s' \<Longrightarrow> \<exists>l. audit_log s' = audit_log s @ l"
  using hook_keeps by (simp add: keeps_def)

end

interpretation echo_hook: campaign_hook enqueue_echo_step
  by unfold_locales
    (auto simp: enqueue_echo_step_def ensure_orchestrator_agent_def enqueue_without_key request_def
      split: sum.splits dest!: keeps_ensure_agent intro: keeps_trans keeps_insert_task)

interpretation seed_hook: campaign_hook seed_content_assets
proof
  fix e camp s s'
  assume "seed_content_assets e camp s = Inr s'"
  then obtain ids where "seed_assets_for_campaign e camp s = Inr (ids, s')"
    by (auto simp: seed_content_assets_def)
  then obtain ag s1 groups s2 chan spec tps rows where
    s1: "ensure_content_creator_agent e (camp_tenant_id camp) s = Inr (ag, s1)"
    and s2: "seed_touchpoints e camp chan spec tps s1 = (groups, s2)"
    and s': "for_each (\<lambda>a s. map_sum id snd (enqueue_task e (generation_request camp ag a) s)) rows
        (fold (seed_ab_test e camp) groups s2) = Inr s'"
    by (auto simp: seed_assets_for_campaign_def Let_def
        split: option.splits if_splits sum.splits prod.splits)
  have "keeps s s1" using s1 by (auto simp: ensure_content_creator_agent_def dest: keeps_ensure_agent)
  moreover have "keeps s1 s2" using s2 by (rule keeps_seed_touchpoints)
  moreover have "keeps s2 (fold (seed_ab_test e camp) groups s2)" by (rule keeps_fold) (rule keeps_seed_ab_test)
  moreover have "keeps (fold (seed_ab_test e camp) groups s2) s'"
    by (rule keeps_for_each [OF s']) (auto intro: keeps_insert_task)
  ultimately show "keeps s s'" by (blast intro: keeps_trans)
qed

interpretation submit_hook: campaign_hook flip_drafted_assets_to_pending_approval
  by unfold_locales
    (auto simp: flip_drafted_assets_to_pending_approval_def keeps_def split: if_splits option.splits)

interpretation launch_hook: campaign_hook schedule_approved_assets_hook
proof
  fix e camp s s'
  assume "schedule_approved_assets_hook e camp s = Inr s'"
  moreover have "keeps s s2" if "schedule_asset e camp ag tps a s = Inr s2" for ag tps a s s2
    using that by (auto simp: schedule_asset_def Let_def split: option.splits
        intro!: keeps_modify_asset keeps_write_audit keeps_insert_task)
  ultimately show "keeps s s'"
    by (auto simp: schedule_approved_assets_hook_def schedule_approved_assets_def ensure_distribution_agent_def
        Let_def split: if_splits sum.splits dest!: keeps_ensure_agent elim!: keeps_for_each [elim_format]
        intro: keeps_trans)
qed

interpretation pause_hook: campaign_hook cancel_queued_on_pause
  by unfold_locales (auto simp: cancel_queued_on_pause_def cancel_queued_for_campaign_def keeps_def)

interpretation resume_hook: campaign_hook resume_distribution
proof
  fix e camp s s'
  assume run: "resume_distribution e camp s = Inr s'"
  have body: "keeps s s2" if "resume_asset e camp ag a s = Inr s2" for ag a s s2
    using that by (auto simp: resume_asset_def Let_def split: option.splits if_splits
        intro!: keeps_modify_asset keeps_write_audit keeps_insert_task)
  from run show "keeps s s'"
    by (auto simp: resume_distribution_def resume_distribution_for_campaign_def ensure_distribution_agent_def
        Let_def split: if_splits sum.splits dest!: keeps_ensure_agent keeps_for_each [OF _ body] intro: keeps_trans)
qed

interpretation report_hook: campaign_hook "auto_generate_report tc" for tc
  by unfold_locales
    (auto simp: auto_generate_report_def generate_report_def Let_def fresh_uuid_def keeps_def
      split: option.splits if_splits sum.splits)

lemma builtin_hook_keeps:
  assumes "tr \<in> set (builtin_transitions tc)" "tr_on_enter tr = Some h" "h e camp s = Inr s'"
  shows "keeps s s'"
  using assms
  by (auto simp: builtin_transitions_def transition_of_def
      intro: echo_hook.hook_keeps seed_hook.hook_keeps submit_hook.hook_keeps launch_hook.hook_keeps
        pause_hook.hook_keeps resume_hook.hook_keeps report_hook.hook_keeps)

section \<open>Applying a transition\<close>

lemma apply_transition_Inr:
  assumes "apply_transition (campaign_sm tc) e camp name s = Inr (camp', s')"
  obtains tr s2 where "tr \<in> set (builtin_transitions tc)" "tr_from tr = camp_status camp" "tr_name tr = name"
    "case tr_guard tr of None \<Rightarrow> True | Some g \<Rightarrow> g e camp s" "camp' = camp\<lparr>camp_status := tr_to tr\<rparr>"
    "s2 = write_audit e (camp_tenant_id camp) ''campaign'' (camp_id camp) ''transition_applied''
            (Some (status_dict (camp_status camp))) (Some (status_dict (tr_to tr))) [(''transition'', JStr name)]
            (modify_campaign (camp_id camp) (\<lambda>c. c\<lparr>camp_status := tr_to tr\<rparr>) s)"
    "case tr_on_enter tr of None \<Rightarrow> s' = s2 | Some h \<Rightarrow> h e camp' s2 = Inr s'" "keeps s2 s'"
proof -
  from assms obtain tr where lk: "map_of (campaign_sm tc) (camp_status camp, name) = Some tr"
    by (auto simp: apply_transition_def split: option.splits)
  then have tr: "tr \<in> set (builtin_transitions tc)" "tr_from tr = camp_status camp" "tr_name tr = name"
    by (auto simp: campaign_sm_lookup)
  let ?s2 = "write_audit e (camp_tenant_id camp) ''campaign'' (camp_id camp) ''transition_applied''
            (Some (status_dict (camp_status camp))) (Some (status_dict (tr_to tr))) [(''transition'', JStr name)]
            (modify_campaign (camp_id camp) (\<lambda>c. c\<lparr>camp_status := tr_to tr\<rparr>) s)"
  have g: "case tr_guard tr of None \<Rightarrow> True | Some g \<Rightarrow> g e camp s"
    using assms lk by (auto simp: apply_transition_def split: if_splits option.splits)
  have res: "camp' = camp\<lparr>camp_status := tr_to tr\<rparr>" "case tr_on_enter tr of None \<Rightarrow> s' = ?s2 | Some h \<Rightarrow> h e camp' ?s2 = Inr s'"
    using assms lk tr(3) by (auto simp: apply_transition_def Let_def split: if_splits option.splits)
  have "keeps ?s2 s'"
  proof (cases "tr_on_enter tr")
    case None
    with res(2) show ?thesis by simp
  next
    case (Some h)
    with res(2) show ?thesis by (auto intro: builtin_hook_keeps [OF tr(1)])
  qed
  with that tr g res show thesis by blast
qed

lemma get_campaign_keeps: "keeps s s' \<Longrightarrow> get_campaign i s' = get_campaign i s"
  by (simp add: keeps_def get_campaign_def)

lemma get_campaign_write_audit [simp]: "get_campaign i (write_audit e ten k j act b a m s) = get_campaign i s"
  by (simp add: get_campaign_def)

lemma get_campaign_after:
  assumes "keeps (write_audit e ten k j act b a m (modify_campaign (camp_id camp) (\<lambda>c. c\<lparr>camp_status := st\<rparr>) s)) s'"
    and "get_campaign (camp_id camp) s = Some camp"
  shows "get_campaign (camp_id camp) s' = Some (camp\<lparr>camp_status := st\<rparr>)"
    and "i \<noteq> camp_id camp \<Longrightarrow> get_campaign i s' = get_campaign i s"
  using assms by (simp_all add: get_campaign_keeps campaign_table.get_modify)

text \<open>C1. A campaign changes status only along a registered transition whose guard holds: a successful
  application moves it from the transition's source to its target, in the object and in the
  database, leaves every other campaign alone, and appends to the audit log first of all one entry
  that records the old status, the new status and the transition.\<close>

theorem apply_transition_sound:
  assumes run: "apply_transition (campaign_sm tc) e camp name s = Inr (camp', s')"
    and row: "get_campaign (camp_id camp) s = Some camp"
  shows "\<exists>tr\<in>set (builtin_transitions tc). tr_from tr = camp_status camp \<and> tr_name tr = name
    \<and> (\<forall>g. tr_guard tr = Some g \<longrightarrow> g e camp s)
    \<and> camp' = camp\<lparr>camp_status := tr_to tr\<rparr> \<and> get_campaign (camp_id camp) s' = Some camp'
    \<and> (\<forall>i. i \<noteq> camp_id camp \<longrightarrow> get_campaign i s' = get_campaign i s)
    \<and> (\<exists>entry l. audit_log s' = audit_log s @ entry # l \<and> au_action entry = ''transition_applied''
         \<and> au_entity_id entry = camp_id camp \<and> au_before entry = Some (status_dict (camp_status camp))
         \<and> au_after entry = Some (status_dict (tr_to tr)))"
proof -
  from run obtain tr s2 where tr: "tr \<in> set (builtin_transitions tc)" "tr_from tr = camp_status camp" "tr_name tr = name"
    "case tr_guard tr of None \<Rightarrow> True | Some g \<Rightarrow> g e camp s" "camp' = camp\<lparr>camp_status := tr_to tr\<rparr>"
    and s2: "s2 = write_audit e (camp_tenant_id camp) ''campaign'' (camp_id camp) ''transition_applied''
            (Some (status_dict (camp_status camp))) (Some (status_dict (tr_to tr))) [(''transition'', JStr name)]
            (modify_campaign (camp_id camp) (\<lambda>c. c\<lparr>camp_status := tr_to tr\<rparr>) s)" "keeps s2 s'"
    by (rule apply_transition_Inr)
  note after = get_campaign_after [OF s2(2) [unfolded s2(1)] row]
  obtain l where "audit_log s' = audit_log s2 @ l" using s2(2) by (auto simp: keeps_def)
  then have "\<exists>entry l. audit_log s' = audit_log s @ entry # l \<and> au_action entry = ''transition_applied''
         \<and> au_entity_id entry = camp_id camp \<and> au_before entry = Some (status_dict (camp_status camp))
         \<and> au_after entry = Some (status_dict (tr_to tr))"
    by (simp add: s2(1) write_audit_def)
  with tr after show ?thesis by (intro bexI [OF _ tr(1)]) auto
qed

section \<open>Approval and launch gates\<close>

lemma builtin_named:
  assumes "tr \<in> set (builtin_transitions tc)"
  shows "tr_name tr = ''submit_for_approval'' \<Longrightarrow> tr_from tr = ContentInProduction \<and> tr_to tr = ApprovalPending
      \<and> tr_guard tr = Some all_required_assets_drafted \<and> tr_on_enter tr = Some flip_drafted_assets_to_pending_approval"
    and "tr_name tr = ''start_launch'' \<Longrightarrow> tr_from tr = ApprovalPending \<and> tr_to tr = ReadyToLaunch
      \<and> tr_guard tr = Some all_required_assets_approved \<and> tr_on_enter tr = Some schedule_approved_assets_hook"
    and "tr_name tr = ''start_live'' \<Longrightarrow> tr_from tr = ReadyToLaunch \<and> tr_to tr = Live
      \<and> tr_guard tr = Some ready_to_go_live \<and> tr_on_enter tr = None"
  using assms by (auto simp: builtin_transitions_def transition_of_def)

lemma any_required_False: "\<not> any_required camp P s \<longleftrightarrow> (\<forall>a\<in>set (assets s). required_in camp a \<longrightarrow> \<not> P a)"
  by (auto simp: any_required_def list_ex_iff)

lemma submit_guard:
  assumes "apply_transition (campaign_sm tc) e camp ''submit_for_approval'' s = Inr (camp', s')"
  shows "all_required_assets_drafted e camp s" and "camp' = camp\<lparr>camp_status := ApprovalPending\<rparr>"
  using assms by (auto elim!: apply_transition_Inr dest!: builtin_named(1))

lemma submit_assets:
  assumes "apply_transition (campaign_sm tc) e camp ''submit_for_approval'' s = Inr (camp', s')"
  obtains row where "assets s' = update_where (drafted_required camp)
          (stamped e (submitted (env_now e) (threshold_snapshot (env_now e) row))) (assets s)"
    "\<forall>a\<in>set (assets s). drafted_required camp a \<longrightarrow>
       scalar_one_or_none (filter (\<lambda>r. set_tenant_id r = camp_tenant_id camp) (approval_settings_rows s)) = Some row"
proof -
  from assms(1) obtain tr s2 where tr: "tr \<in> set (builtin_transitions tc)" "tr_name tr = ''submit_for_approval''"
    "camp' = camp\<lparr>camp_status := tr_to tr\<rparr>"
    and s2: "s2 = write_audit e (camp_tenant_id camp) ''campaign'' (camp_id camp) ''transition_applied''
            (Some (status_dict (camp_status camp))) (Some (status_dict (tr_to tr)))
            [(''transition'', JStr ''submit_for_approval'')]
            (modify_campaign (camp_id camp) (\<lambda>c. c\<lparr>camp_status := tr_to tr\<rparr>) s)"
      "case tr_on_enter tr of None \<Rightarrow> s' = s2 | Some h \<Rightarrow> h e camp' s2 = Inr s'"
    by (rule apply_transition_Inr)
  note nm = builtin_named(1) [OF tr(1,2)]
  have hook: "flip_drafted_assets_to_pending_approval e camp' s2 = Inr s'" using s2(2) nm by simp
  have same: "assets s2 = assets s" "approval_settings_rows s2 = approval_settings_rows s"
    by (simp_all add: s2(1) write_audit_def modify_campaign_def)
  have dr: "drafted_required camp' = drafted_required camp" "camp_tenant_id camp' = camp_tenant_id camp"
    by (simp_all add: tr(3) drafted_required_def [abs_def] required_in_def)
  show thesis
  proof (cases "filter (drafted_required camp) (assets s) = []")
    case True
    then have "update_where (drafted_required camp) f (assets s) = assets s" for f
      by (simp add: filter_empty_conv update_where_def map_idI)
    moreover have "s' = s2"
      using hook True by (simp add: flip_drafted_assets_to_pending_approval_def same(1) dr(1))
    then have "assets s' = assets s" using same(1) by simp
    ultimately show thesis using True that by (simp add: filter_empty_conv)
  next
    case False
    with hook show thesis
      by (auto simp: flip_drafted_assets_to_pending_approval_def same dr split: option.splits intro: that)
  qed
qed

text \<open>Submitting for approval is all or nothing: it happens only when the campaign has required
  content, none of it still to be generated and none blocked by a critical compliance hit; then every
  required drafted asset becomes pending with the tenant's thresholds of that moment recorded on it,
  and no other asset changes.\<close>

theorem submit_for_approval_gate:
  assumes run: "apply_transition (campaign_sm tc) e camp ''submit_for_approval'' s = Inr (camp', s')"
    and a: "a \<in> set (assets s)"
  shows "(\<exists>r\<in>set (assets s). required_in camp r)
    \<and> (required_in camp a \<longrightarrow> asset_status_of a \<notin> {ARequested, AGenerating, AFailed} \<and> \<not> compliance_blocked a)
    \<and> (\<exists>row. assets s' = update_where (drafted_required camp)
          (stamped e (submitted (env_now e) (threshold_snapshot (env_now e) row))) (assets s)
        \<and> (drafted_required camp a \<longrightarrow>
             scalar_one_or_none (filter (\<lambda>r. set_tenant_id r = camp_tenant_id camp) (approval_settings_rows s)) = Some row))"
proof -
  obtain row where "assets s' = update_where (drafted_required camp)
          (stamped e (submitted (env_now e) (threshold_snapshot (env_now e) row))) (assets s)"
    "\<forall>a\<in>set (assets s). drafted_required camp a \<longrightarrow>
       scalar_one_or_none (filter (\<lambda>r. set_tenant_id r = camp_tenant_id camp) (approval_settings_rows s)) = Some row"
    by (rule submit_assets [OF run])
  moreover have "(\<exists>r\<in>set (assets s). required_in camp r)
      \<and> (required_in camp a \<longrightarrow> asset_status_of a \<notin> {ARequested, AGenerating, AFailed} \<and> \<not> compliance_blocked a)"
    using submit_guard(1) [OF run] a
    by (auto simp: all_required_assets_drafted_def any_required_False undrafted_def) (auto simp: any_required_def list_ex_iff)
  ultimately show ?thesis using a by blast
qed

lemma start_launch_effects:
  assumes run: "apply_transition (campaign_sm tc) e camp ''start_launch'' s = Inr (camp', s')"
    and dist: "distinct (map asset_id (assets s))"
  shows "\<exists>r\<in>set (assets s). required_in camp r"
    and "\<forall>a\<in>set (assets s). required_in camp a \<longrightarrow> asset_status_of a = AApproved"
    and "\<forall>a\<in>set (assets s). required_in camp a \<longrightarrow>
           (\<exists>a'. get_asset (asset_id a) s' = Some a' \<and> asset_status_of a' = AScheduled)"
proof -
  from run obtain tr s2 where tr: "tr \<in> set (builtin_transitions tc)" "tr_name tr = ''start_launch''"
    "case tr_guard tr of None \<Rightarrow> True | Some g \<Rightarrow> g e camp s" "camp' = camp\<lparr>camp_status := tr_to tr\<rparr>"
    and s2: "s2 = write_audit e (camp_tenant_id camp) ''campaign'' (camp_id camp) ''transition_applied''
            (Some (status_dict (camp_status camp))) (Some (status_dict (tr_to tr)))
            [(''transition'', JStr ''start_launch'')]
            (modify_campaign (camp_id camp) (\<lambda>c. c\<lparr>camp_status := tr_to tr\<rparr>) s)"
      "case tr_on_enter tr of None \<Rightarrow> s' = s2 | Some h \<Rightarrow> h e camp' s2 = Inr s'"
    by (rule apply_transition_Inr)
  note nm = builtin_named(2) [OF tr(1,2)]
  have guard: "all_required_assets_approved e camp s" using tr(3) nm by simp
  then show app: "\<forall>a\<in>set (assets s). required_in camp a \<longrightarrow> asset_status_of a = AApproved"
    by (simp add: all_required_assets_approved_def any_required_False)
  show "\<exists>r\<in>set (assets s). required_in camp r"
    using guard by (auto simp: all_required_assets_approved_def any_required_def list_ex_iff)
  obtain ids where sched: "schedule_approved_assets e camp' s2 = Inr (ids, s')"
    using s2(2) nm by (auto simp: schedule_approved_assets_hook_def)
  have same: "assets s2 = assets s" by (simp add: s2(1))
  note res = schedule_approved_assets_result(1) [OF sched, unfolded same, OF dist]
  show "\<forall>a\<in>set (assets s). required_in camp a \<longrightarrow>
           (\<exists>a'. get_asset (asset_id a) s' = Some a' \<and> asset_status_of a' = AScheduled)"
  proof (intro ballI impI)
    fix a assume a: "a \<in> set (assets s)" "required_in camp a"
    have "approved_in camp' a" using a app by (simp add: approved_in_def required_in_def tr(4))
    with get_asset_update_where [OF scheduled_row_id res] get_asset_in [OF dist a(1)]
    have "get_asset (asset_id a) s' = Some (scheduled_row e (touchpoints s2) a)" by simp
    then show "\<exists>a'. get_asset (asset_id a) s' = Some a' \<and> asset_status_of a' = AScheduled"
      by (simp add: scheduled_row_facts)
  qed
qed

text \<open>C8. Launch needs every approval: \<open>start_launch\<close> succeeds only if the campaign has required assets and
  all of them are approved, and afterwards every required asset is scheduled.\<close>

theorem start_launch_gate:
  assumes "apply_transition (campaign_sm tc) e camp ''start_launch'' s = Inr (camp', s')"
    and "distinct (map asset_id (assets s))"
  shows "(\<exists>r\<in>set (assets s). required_in camp r)
    \<and> (\<forall>a\<in>set (assets s). required_in camp a \<longrightarrow> asset_status_of a = AApproved
         \<and> (\<exists>a'. get_asset (asset_id a) s' = Some a' \<and> asset_status_of a' = AScheduled))"
  using start_launch_effects [OF assms] by blast

lemma try_apply_Some: "try_apply sm e camp name s = Inr (Some r) \<longleftrightarrow> apply_transition sm e camp name s = Inr r"
  by (auto simp: try_apply_def split: sum.splits if_splits)

lemma try_start_launch_ready:
  assumes "try_start_launch (campaign_sm tc) e camp s = Inr (Some st, s')" "camp_status camp \<noteq> ReadyToLaunch"
  shows "\<exists>camp'. apply_transition (campaign_sm tc) e camp ''start_launch'' s = Inr (camp', s')"
  using assms by (auto simp: try_start_launch_def try_apply_Some split: if_splits option.splits)

text \<open>Approving one asset launches a campaign only when nothing else is missing: if
  \<open>try_advance_after_approval\<close> reports ready-to-launch for a campaign that was not there yet, then every
  required asset was already approved when it was called (a drafted one is submitted, not launched),
  there was at least one, and all of them end scheduled.\<close>

theorem advance_needs_every_approval:
  assumes run: "try_advance_after_approval (campaign_sm tc) e camp s = Inr (Some st, s')"
    and before: "camp_status camp \<noteq> ReadyToLaunch" and dist: "distinct (map asset_id (assets s))"
  shows "(\<exists>r\<in>set (assets s). required_in camp r)
    \<and> (\<forall>a\<in>set (assets s). required_in camp a \<longrightarrow> asset_status_of a = AApproved
         \<and> (\<exists>a'. get_asset (asset_id a) s' = Some a' \<and> asset_status_of a' = AScheduled))"
proof (cases "camp_status camp = ContentInProduction")
  case False
  with run before obtain camp' where "apply_transition (campaign_sm tc) e camp ''start_launch'' s = Inr (camp', s')"
    by (auto simp: try_advance_after_approval_def dest!: try_start_launch_ready)
  from start_launch_effects [OF this dist] show ?thesis by blast
next
  case True
  with run obtain c1 s1 where sub: "apply_transition (campaign_sm tc) e camp ''submit_for_approval'' s = Inr (c1, s1)"
    and l: "try_start_launch (campaign_sm tc) e c1 s1 = Inr (Some st, s')"
    by (auto simp: try_advance_after_approval_def try_apply_Some split: sum.splits option.splits prod.splits)
  note c1 = submit_guard(2) [OF sub]
  from try_start_launch_ready [OF l] obtain c2 where
    launch: "apply_transition (campaign_sm tc) e c1 ''start_launch'' s1 = Inr (c2, s')" by (auto simp: c1)
  obtain row where row: "assets s1 = update_where (drafted_required camp)
      (stamped e (submitted (env_now e) (threshold_snapshot (env_now e) row))) (assets s)"
    by (rule submit_assets [OF sub])
  define f where "f = stamped e (submitted (env_now e) (threshold_snapshot (env_now e) row))"
  have s1: "assets s1 = update_where (drafted_required camp) f (assets s)" by (simp add: row f_def)
  have f: "asset_id (f a) = asset_id a" "required_in camp (f a) = required_in camp a"
    "asset_status_of (f a) = APendingApproval" for a
    by (simp_all add: f_def submitted_def required_in_def stamped_def set_meta_def)
  have req: "required_in c1 = required_in camp" by (simp add: c1 required_in_def [abs_def])
  have dist1: "distinct (map asset_id (assets s1))"
    using dist by (simp add: s1 f(1) update_where_def comp_def if_distrib cong: if_cong)
  note eff = start_launch_effects [OF launch dist1, unfolded req]
  have nodraft: "\<not> drafted_required camp a" if a: "a \<in> set (assets s)" for a
  proof
    assume d: "drafted_required camp a"
    then have "f a = (if drafted_required camp a then f a else a)" by simp
    with a have "f a \<in> set (assets s1)" unfolding s1 update_where_def set_map by (rule image_eqI [rotated])
    moreover have "required_in camp (f a)" using d f(2) by (simp add: drafted_required_def)
    ultimately show False using eff(2) f(3) by (metis asset_status.distinct)
  qed
  then have "assets s1 = assets s" by (simp add: s1 update_where_def map_idI)
  with eff show ?thesis by metis
qed

section \<open>The life cycle\<close>

text \<open>Any sequence of transitions applied to one campaign, whatever the environment does in between to
  the rest of the database.\<close>

inductive lifecycle :: "(string \<Rightarrow> kpi_op \<Rightarrow> analytic_event \<Rightarrow> bool) \<Rightarrow> string \<times> env \<times> db \<Rightarrow> campaign \<Rightarrow> campaign \<Rightarrow> bool"
  for tc where
  lifecycle_apply: "apply_transition (campaign_sm tc) e camp name s = Inr (camp', s')
    \<Longrightarrow> lifecycle tc (name, e, s) camp camp'"

lemma lifecycle_edge:
  assumes "lifecycle tc a camp camp'"
  shows "\<exists>tr\<in>set (builtin_transitions tc). tr_from tr = camp_status camp \<and> tr_to tr = camp_status camp'"
proof -
  from assms obtain name e s s' where "apply_transition (campaign_sm tc) e camp name s = Inr (camp', s')"
    by (blast elim: lifecycle.cases)
  then obtain tr where "tr \<in> set (builtin_transitions tc)" "tr_from tr = camp_status camp"
    "camp' = camp\<lparr>camp_status := tr_to tr\<rparr>"
    by (rule apply_transition_Inr)
  then show ?thesis by (intro bexI [of _ tr]) simp_all
qed

lemma builtin_edges:
  assumes "tr \<in> set (builtin_transitions tc)"
  shows "tr_from tr \<noteq> Completed" and "tr_from tr = Drafted \<Longrightarrow> tr_to tr = Drafted"
  using assms by (auto simp: builtin_transitions_def transition_of_def)

lemma drafted_step:
  assumes "lifecycle tc a camp camp'" "camp_status camp = Drafted"
  shows "camp_status camp' = Drafted"
  using lifecycle_edge [OF assms(1)] builtin_edges(2) assms(2) by metis

interpretation drafted_runs: invariant_steps "lifecycle tc" "\<lambda>camp. camp_status camp = Drafted" "\<lambda>_. True" for tc
  by unfold_locales (rule drafted_step)

text \<open>The state machine has no way out of \<open>drafted\<close>: every sequence of transitions from a drafted
  campaign leaves it drafted, so the step to \<open>audience_built\<close> must be taken outside the machine; and
  \<open>completed\<close> is final, no transition applies to a completed campaign.\<close>

theorem lifecycle_ends:
  "(steps (lifecycle tc) camp run camp' \<longrightarrow> camp_status camp = Drafted \<longrightarrow> camp_status camp' = Drafted)
   \<and> (camp_status camp = Completed \<longrightarrow> apply_transition (campaign_sm tc) e camp name s = Inl UnknownTransitionError)"
proof (intro conjI impI)
  show "camp_status camp' = Drafted" if "steps (lifecycle tc) camp run camp'" "camp_status camp = Drafted"
    using drafted_runs.steps_inv [OF that(1) _ that(2)] by (simp add: list_all_iff)
  assume "camp_status camp = Completed"
  then have "map_of (campaign_sm tc) (camp_status camp, name) = None"
    using campaign_sm_lookup [of tc Completed name] builtin_edges(1) by (metis option.exhaust)
  then show "apply_transition (campaign_sm tc) e camp name s = Inl UnknownTransitionError"
    by (simp add: apply_transition_def)
qed

lemma apply_pause:
  assumes "camp_status camp \<in> {Live, Optimising, ReadyToLaunch}"
  shows "apply_transition (campaign_sm tc) e camp ''pause'' s =
    Inr (camp\<lparr>camp_status := Paused\<rparr>,
      snd (cancel_queued_for_campaign e (camp_id camp)
        (write_audit e (camp_tenant_id camp) ''campaign'' (camp_id camp) ''transition_applied''
          (Some (status_dict (camp_status camp))) (Some (status_dict Paused)) [(''transition'', JStr ''pause'')]
          (modify_campaign (camp_id camp) (\<lambda>c. c\<lparr>camp_status := Paused\<rparr>) s))))"
proof -
  have "map_of (campaign_sm tc) (camp_status camp, ''pause'')
      = Some (transition_of ''pause'' (camp_status camp) Paused None (Some cancel_queued_on_pause))"
    using assms by (auto simp: campaign_sm_lookup builtin_transitions_def transition_of_def)
  then show ?thesis by (simp add: apply_transition_def transition_of_def cancel_queued_on_pause_def)
qed

lemma apply_resume:
  assumes "camp_status camp = Paused"
    and "\<And>s2. agents s2 = agents s \<Longrightarrow>
      \<exists>n s'. resume_distribution_for_campaign e (camp\<lparr>camp_status := Live\<rparr>) s2 = Inr (n, s')"
  shows "\<exists>s'. apply_transition (campaign_sm tc) e camp ''resume'' s = Inr (camp\<lparr>camp_status := Live\<rparr>, s')"
proof -
  let ?s2 = "write_audit e (camp_tenant_id camp) ''campaign'' (camp_id camp) ''transition_applied''
          (Some (status_dict Paused)) (Some (status_dict Live)) [(''transition'', JStr ''resume'')]
          (modify_campaign (camp_id camp) (\<lambda>c. c\<lparr>camp_status := Live\<rparr>) s)"
  have "map_of (campaign_sm tc) (camp_status camp, ''resume'')
      = Some (transition_of ''resume'' Paused Live None (Some resume_distribution))"
    using assms(1) by (simp add: campaign_sm_lookup builtin_transitions_def transition_of_def)
  moreover obtain n s' where "resume_distribution_for_campaign e (camp\<lparr>camp_status := Live\<rparr>) ?s2 = Inr (n, s')"
    using assms(2) [of ?s2] by (auto simp: write_audit_def modify_campaign_def)
  ultimately show ?thesis
    using assms(1) by (simp add: apply_transition_def transition_of_def resume_distribution_def)
qed

lemma resume_runs_with_agent:
  assumes "scalar_one_or_none (filter (\<lambda>a. ag_tenant_id a = camp_tenant_id camp \<and> ag_type a = ChannelDistribution)
      (agents s)) = Some (Some ag)"
  shows "\<exists>n s'. resume_distribution_for_campaign e camp s = Inr (n, s')"
proof -
  have "ensure_distribution_agent e (camp_tenant_id camp) s = Inr (ag, s)"
    using assms by (simp add: ensure_distribution_agent_def ensure_agent_def)
  moreover have "\<exists>s'. for_each (resume_asset e camp ag) rows s = Inr s'" for rows
    by (rule for_each_Inr_total) (rule resume_asset_total)
  ultimately show ?thesis by (fastforce simp: resume_distribution_for_campaign_def Let_def)
qed

text \<open>Pausing a campaign that waits for its start date and resuming it makes it live: \<open>start_live\<close> still
  refuses, because the start date is ahead, but \<open>pause\<close> accepts a ready-to-launch campaign and
  \<open>resume\<close> has no guard and always leads to \<open>live\<close>.\<close>

theorem pause_resume_skips_start_date:
  assumes st: "camp_status camp = ReadyToLaunch" and early: "date_of (env_now e) < camp_start_date camp"
    and ag: "scalar_one_or_none (filter (\<lambda>a. ag_tenant_id a = camp_tenant_id camp \<and> ag_type a = ChannelDistribution)
      (agents s)) = Some (Some ag)"
  shows "apply_transition (campaign_sm tc) e camp ''start_live'' s = Inl GuardFailedError
    \<and> (\<exists>s1 s2. apply_transition (campaign_sm tc) e camp ''pause'' s = Inr (camp\<lparr>camp_status := Paused\<rparr>, s1)
         \<and> apply_transition (campaign_sm tc) e (camp\<lparr>camp_status := Paused\<rparr>) ''resume'' s1
             = Inr (camp\<lparr>camp_status := Live\<rparr>, s2))"
proof (intro conjI)
  have "map_of (campaign_sm tc) (camp_status camp, ''start_live'')
      = Some (transition_of ''start_live'' ReadyToLaunch Live (Some ready_to_go_live) None)"
    by (simp add: st campaign_sm_lookup builtin_transitions_def transition_of_def)
  with early show "apply_transition (campaign_sm tc) e camp ''start_live'' s = Inl GuardFailedError"
    by (simp add: apply_transition_def transition_of_def ready_to_go_live_def)
  obtain s1 where s1: "apply_transition (campaign_sm tc) e camp ''pause'' s = Inr (camp\<lparr>camp_status := Paused\<rparr>, s1)"
    and same: "agents s1 = agents s"
    using apply_pause [of camp tc e s] st
    by (simp add: cancel_queued_for_campaign_def write_audit_def modify_campaign_def)
  have "\<exists>s2. apply_transition (campaign_sm tc) e (camp\<lparr>camp_status := Paused\<rparr>) ''resume'' s1
      = Inr (camp\<lparr>camp_status := Paused, camp_status := Live\<rparr>, s2)"
  proof (rule apply_resume)
    fix s2 :: db
    assume "agents s2 = agents s1"
    with ag same show "\<exists>n s'. resume_distribution_for_campaign e (camp\<lparr>camp_status := Paused, camp_status := Live\<rparr>) s2 = Inr (n, s')"
      by (intro resume_runs_with_agent [where ag = ag]) simp
  qed simp
  with s1 show "\<exists>s1 s2. apply_transition (campaign_sm tc) e camp ''pause'' s = Inr (camp\<lparr>camp_status := Paused\<rparr>, s1)
         \<and> apply_transition (campaign_sm tc) e (camp\<lparr>camp_status := Paused\<rparr>) ''resume'' s1
             = Inr (camp\<lparr>camp_status := Live\<rparr>, s2)" by simp
qed

section \<open>Concrete instances\<close>

lemma apply_transition_runs:
  assumes "tr \<in> set (builtin_transitions tc)" "tr_from tr = camp_status camp" "tr_name tr = name"
    and "\<forall>g. tr_guard tr = Some g \<longrightarrow> g e camp s" and "tr_on_enter tr = Some h"
    and "\<And>s2. assets s2 = assets s \<Longrightarrow> agents s2 = agents s \<Longrightarrow> approval_settings_rows s2 = approval_settings_rows s
      \<Longrightarrow> \<exists>s'. h e (camp\<lparr>camp_status := tr_to tr\<rparr>) s2 = Inr s'"
  shows "\<exists>s'. apply_transition (campaign_sm tc) e camp name s = Inr (camp\<lparr>camp_status := tr_to tr\<rparr>, s')"
proof -
  have lk: "map_of (campaign_sm tc) (camp_status camp, name) = Some tr" using assms(1-3) by (simp add: campaign_sm_lookup)
  let ?s2 = "write_audit e (camp_tenant_id camp) ''campaign'' (camp_id camp) ''transition_applied''
            (Some (status_dict (camp_status camp))) (Some (status_dict (tr_to tr))) [(''transition'', JStr (tr_name tr))]
            (modify_campaign (camp_id camp) (\<lambda>c. c\<lparr>camp_status := tr_to tr\<rparr>) s)"
  have "\<exists>s'. h e (camp\<lparr>camp_status := tr_to tr\<rparr>) ?s2 = Inr s'"
    by (rule assms(6)) (simp_all add: write_audit_def modify_campaign_def)
  then obtain s' where "h e (camp\<lparr>camp_status := tr_to tr\<rparr>) ?s2 = Inr s'" by blast
  with lk assms(4,5) show ?thesis
    by (auto simp: apply_transition_def Let_def split: option.splits)
qed

lemma any_required_demo [simp]:
  "any_required (demo_campaign st) P (demo_db st' (demo_asset ty ast meta)) = P (demo_asset ty ast meta)"
  by (simp add: any_required_def required_in_def)

lemma demo_not_blocked: "\<not> compliance_blocked (demo_asset TEmail ADrafted [])"
  by code_simp

lemma demo_submit_runs:
  "\<exists>s'. apply_transition (campaign_sm tc) (worker_env 5) (demo_campaign ContentInProduction) ''submit_for_approval''
      (demo_db ContentInProduction (demo_asset TEmail ADrafted []))
    = Inr (demo_campaign ContentInProduction\<lparr>camp_status := ApprovalPending\<rparr>, s')"
proof -
  let ?t = "transition_of ''submit_for_approval'' ContentInProduction ApprovalPending
        (Some all_required_assets_drafted) (Some flip_drafted_assets_to_pending_approval)"
  have "\<exists>s'. apply_transition (campaign_sm tc) (worker_env 5) (demo_campaign ContentInProduction) ''submit_for_approval''
      (demo_db ContentInProduction (demo_asset TEmail ADrafted []))
    = Inr (demo_campaign ContentInProduction\<lparr>camp_status := tr_to ?t\<rparr>, s')"
  proof (rule apply_transition_runs [where h = flip_drafted_assets_to_pending_approval])
    fix s2 :: db
    assume "approval_settings_rows s2 = approval_settings_rows (demo_db ContentInProduction (demo_asset TEmail ADrafted []))"
    then have "approval_settings_rows s2 = []" by (simp add: demo_db_def empty_db_def)
    then show "\<exists>s'. flip_drafted_assets_to_pending_approval (worker_env 5)
        (demo_campaign ContentInProduction\<lparr>camp_status := tr_to ?t\<rparr>) s2 = Inr s'"
      by (simp add: flip_drafted_assets_to_pending_approval_def)
  qed (use demo_not_blocked in \<open>auto simp: builtin_transitions_def transition_of_def
      all_required_assets_drafted_def undrafted_def\<close>)
  then show ?thesis by (simp add: transition_of_def)
qed

lemma demo_launch_runs:
  "\<exists>s'. apply_transition (campaign_sm tc) (worker_env 5) (demo_campaign ApprovalPending) ''start_launch''
      (demo_db ApprovalPending (demo_asset TEmail AApproved []))
    = Inr (demo_campaign ApprovalPending\<lparr>camp_status := ReadyToLaunch\<rparr>, s')"
proof -
  let ?t = "transition_of ''start_launch'' ApprovalPending ReadyToLaunch
        (Some all_required_assets_approved) (Some schedule_approved_assets_hook)"
  have "\<exists>s'. apply_transition (campaign_sm tc) (worker_env 5) (demo_campaign ApprovalPending) ''start_launch''
      (demo_db ApprovalPending (demo_asset TEmail AApproved []))
    = Inr (demo_campaign ApprovalPending\<lparr>camp_status := tr_to ?t\<rparr>, s')"
  proof (rule apply_transition_runs [where h = schedule_approved_assets_hook])
    fix s2 :: db
    assume "agents s2 = agents (demo_db ApprovalPending (demo_asset TEmail AApproved []))"
    then have "agents s2 = []" by simp
    then obtain ids s' where "schedule_approved_assets (worker_env 5) (demo_campaign ApprovalPending\<lparr>camp_status := tr_to ?t\<rparr>) s2
        = Inr (ids, s')" using schedule_approved_assets_total by blast
    then show "\<exists>s'. schedule_approved_assets_hook (worker_env 5) (demo_campaign ApprovalPending\<lparr>camp_status := tr_to ?t\<rparr>) s2 = Inr s'"
      by (simp add: schedule_approved_assets_hook_def)
  qed (auto simp: builtin_transitions_def transition_of_def all_required_assets_approved_def)
  then show ?thesis by (simp add: transition_of_def)
qed

lemma demo_campaign_status [simp]: "demo_campaign st\<lparr>camp_status := st'\<rparr> = demo_campaign st'"
  by (simp add: demo_campaign_def)

theorem apply_transition_sound_witness:
  "\<exists>s'. apply_transition (campaign_sm (\<lambda>_ _ _. False)) (worker_env 5) (demo_campaign Live) ''pause''
        (demo_db Live (demo_asset TEmail AApproved [])) = Inr (demo_campaign Paused, s')
     \<and> get_campaign 7 s' = Some (demo_campaign Paused)"
proof -
  let ?tc = "\<lambda>_ _ _. False" and ?s = "demo_db Live (demo_asset TEmail AApproved [])"
  obtain s' where run: "apply_transition (campaign_sm ?tc) (worker_env 5) (demo_campaign Live) ''pause'' ?s
      = Inr (demo_campaign Paused, s')"
    using apply_pause [of "demo_campaign Live" ?tc "worker_env 5" ?s] by simp
  have "get_campaign (camp_id (demo_campaign Live)) ?s = Some (demo_campaign Live)"
    by (simp add: get_campaign_def find_row_def)
  from apply_transition_sound [OF run this] run show ?thesis by auto
qed

theorem submit_for_approval_gate_witness:
  "\<exists>s' a'. apply_transition (campaign_sm (\<lambda>_ _ _. False)) (worker_env 5) (demo_campaign ContentInProduction)
        ''submit_for_approval'' (demo_db ContentInProduction (demo_asset TEmail ADrafted [])) = Inr (demo_campaign ApprovalPending, s')
     \<and> assets s' = [a'] \<and> asset_status_of a' = APendingApproval"
proof -
  obtain s' where run: "apply_transition (campaign_sm (\<lambda>_ _ _. False)) (worker_env 5) (demo_campaign ContentInProduction)
      ''submit_for_approval'' (demo_db ContentInProduction (demo_asset TEmail ADrafted [])) = Inr (demo_campaign ApprovalPending, s')"
    using demo_submit_runs by auto
  from submit_for_approval_gate [OF run, of "demo_asset TEmail ADrafted []"] run show ?thesis
    by (auto simp: update_where_def drafted_required_def required_in_def submitted_def set_meta_def)
qed

theorem start_launch_gate_witness:
  "\<exists>s' a'. apply_transition (campaign_sm (\<lambda>_ _ _. False)) (worker_env 5) (demo_campaign ApprovalPending) ''start_launch''
        (demo_db ApprovalPending (demo_asset TEmail AApproved [])) = Inr (demo_campaign ReadyToLaunch, s')
     \<and> get_asset 20 s' = Some a' \<and> asset_status_of a' = AScheduled"
proof -
  obtain s' where run: "apply_transition (campaign_sm (\<lambda>_ _ _. False)) (worker_env 5) (demo_campaign ApprovalPending)
      ''start_launch'' (demo_db ApprovalPending (demo_asset TEmail AApproved [])) = Inr (demo_campaign ReadyToLaunch, s')"
    using demo_launch_runs by auto
  from start_launch_gate [OF run] run show ?thesis by (auto simp: required_in_def)
qed

theorem advance_needs_every_approval_witness:
  "\<exists>s' a'. try_advance_after_approval (campaign_sm (\<lambda>_ _ _. False)) (worker_env 5) (demo_campaign ApprovalPending)
        (demo_db ApprovalPending (demo_asset TEmail AApproved [])) = Inr (Some ReadyToLaunch, s')
     \<and> get_asset 20 s' = Some a' \<and> asset_status_of a' = AScheduled"
proof -
  obtain s' where "apply_transition (campaign_sm (\<lambda>_ _ _. False)) (worker_env 5) (demo_campaign ApprovalPending)
      ''start_launch'' (demo_db ApprovalPending (demo_asset TEmail AApproved [])) = Inr (demo_campaign ReadyToLaunch, s')"
    using demo_launch_runs by auto
  then have run: "try_advance_after_approval (campaign_sm (\<lambda>_ _ _. False)) (worker_env 5) (demo_campaign ApprovalPending)
        (demo_db ApprovalPending (demo_asset TEmail AApproved [])) = Inr (Some ReadyToLaunch, s')"
    by (simp add: try_advance_after_approval_def try_start_launch_def try_apply_def)
  from advance_needs_every_approval [OF run] run show ?thesis by (auto simp: required_in_def)
qed

theorem lifecycle_ends_witness:
  "apply_transition (campaign_sm (\<lambda>_ _ _. False)) (worker_env 5) (demo_campaign Completed) ''resume'' empty_db
     = Inl UnknownTransitionError
   \<and> steps (lifecycle (\<lambda>_ _ _. False)) (demo_campaign Drafted) [] (demo_campaign Drafted)"
  using lifecycle_ends [of "\<lambda>_ _ _. False" "demo_campaign Completed" "[]" "demo_campaign Completed" "worker_env 5" "''resume''" empty_db]
  by (simp add: steps_nil)

definition waiting_campaign :: "campaign_status \<Rightarrow> campaign" where
  "waiting_campaign st = demo_campaign st\<lparr>camp_start_date := 3\<rparr>"

definition waiting_db :: db where
  "waiting_db = empty_db\<lparr>agents := [\<lparr>ag_id = 9, ag_tenant_id = 1, ag_name = ''Channel Distribution'',
     ag_type = ChannelDistribution\<rparr>]\<rparr>"

theorem pause_resume_skips_start_date_witness:
  "apply_transition (campaign_sm (\<lambda>_ _ _. False)) (worker_env 5) (waiting_campaign ReadyToLaunch) ''start_live'' waiting_db
     = Inl GuardFailedError
   \<and> (\<exists>s1 s2. apply_transition (campaign_sm (\<lambda>_ _ _. False)) (worker_env 5) (waiting_campaign ReadyToLaunch) ''pause'' waiting_db
        = Inr (waiting_campaign Paused, s1)
     \<and> apply_transition (campaign_sm (\<lambda>_ _ _. False)) (worker_env 5) (waiting_campaign Paused) ''resume'' s1
        = Inr (waiting_campaign Live, s2))"
proof -
  have st: "waiting_campaign st\<lparr>camp_status := st'\<rparr> = waiting_campaign st'" "camp_status (waiting_campaign st) = st"
    for st st' by (simp_all add: waiting_campaign_def demo_campaign_def)
  have early: "date_of (env_now (worker_env 5)) < camp_start_date (waiting_campaign ReadyToLaunch)"
    by (simp add: waiting_campaign_def date_of_def)
  have ag: "scalar_one_or_none (filter (\<lambda>a. ag_tenant_id a = camp_tenant_id (waiting_campaign ReadyToLaunch)
      \<and> ag_type a = ChannelDistribution) (agents waiting_db)) = Some (Some (hd (agents waiting_db)))"
    by (simp add: waiting_db_def waiting_campaign_def)
  from pause_resume_skips_start_date [OF st(2) early ag, of "\<lambda>_ _ _. False"] show ?thesis by (simp add: st(1))
qed

end
