(* ===== verification/Email_Tool.thy ===== *)
theory Email_Tool
  imports Models Py_Values
begin

text \<open>
  The e-mail path below the distribution agent: \<^verbatim>\<open>app/tools/email_dispatch.py\<close> (sender and recipient
  validation, suppression list, footer injection, normalised result), the connector interface of
  \<^verbatim>\<open>app/integrations/email/base.py\<close> and its SendGrid implementation. The HTTP exchange is the parameter
  \<open>post\<close>: given the \<^verbatim>\<open>Authorization\<close> header and the JSON body it yields what the provider answered.
\<close>

section \<open>Connector interface\<close>

record email_recipient =
  er_email :: string
  er_merge_fields :: "(string \<times> string) list"
  er_name :: json

record email_message =
  em_subject :: string
  em_html_body :: json
  em_text_body :: json
  em_headers :: "(string \<times> string) list"
  em_reply_to :: json

record send_result =
  res_email :: string
  res_message_id :: "string option"
  res_accepted :: bool
  res_error :: "string option"

text \<open>\<open>conn_verified_senders\<close> is \<open>None\<close> when reading the property raises.\<close>

record email_connector =
  conn_provider :: string
  conn_verified_senders :: "string list option"
  conn_send_batch :: "string \<Rightarrow> email_message \<Rightarrow> email_recipient list \<Rightarrow> send_result list res"

section \<open>SendGrid\<close>

datatype http_outcome = Transport_Failure | Http_Response int string  \<comment> \<open>status, \<open>X-Message-Id\<close> or empty\<close>

definition verified_senders :: "dict \<Rightarrow> string list option" where
  "verified_senders payload =
     (let raw = dict_get payload ''verified_senders''
      in map_option (\<lambda>xs. map py_lower (List.map_filter as_str xs))
           (if truthy raw then py_iter raw else Some []))"

definition api_key :: "dict \<Rightarrow> string" where
  "api_key payload = py_str (dict_get_default payload ''api_key'' (JStr []))"

definition personalization :: "email_recipient \<Rightarrow> json" where
  "personalization r =
     JObj ([(''to'', JArr [JObj ((''email'', JStr (er_email r)) #
                (if truthy (er_name r) then [(''name'', er_name r)] else []))])]
       @ (if er_merge_fields r = [] then []
          else [(''substitutions'', JObj (map (\<lambda>(k, v). (''{{'' @ k @ ''}}'', JStr v)) (er_merge_fields r)))]))"

definition content_blocks :: "email_message \<Rightarrow> json list" where
  "content_blocks m =
     (if truthy (em_text_body m) then [JObj [(''type'', JStr ''text/plain''), (''value'', em_text_body m)]] else [])
     @ (if truthy (em_html_body m) then [JObj [(''type'', JStr ''text/html''), (''value'', em_html_body m)]] else [])"

definition request_body :: "string \<Rightarrow> email_message \<Rightarrow> email_recipient list \<Rightarrow> json" where
  "request_body from_email m rs =
     JObj ([(''personalizations'', JArr (map personalization rs)),
            (''from'', JObj [(''email'', JStr from_email)]),
            (''subject'', JStr (em_subject m)),
            (''content'', JArr (content_blocks m))]
       @ (if em_headers m = [] then [] else [(''headers'', JObj (map (\<lambda>(k, v). (k, JStr v)) (em_headers m)))])
       @ (if truthy (em_reply_to m) then [(''reply_to'', JObj [(''email'', em_reply_to m)])] else []))"

definition acknowledged :: "string \<Rightarrow> nat \<Rightarrow> email_recipient \<Rightarrow> send_result" where
  "acknowledged base idx r =
     \<lparr>res_email = er_email r,
      res_message_id = (if base = [] then None else Some (base @ ''.'' @ digits idx)),
      res_accepted = True, res_error = None\<rparr>"

definition sendgrid_send_batch ::
  "(string \<Rightarrow> json \<Rightarrow> http_outcome) \<Rightarrow> dict \<Rightarrow> string \<Rightarrow> email_message \<Rightarrow> email_recipient list
     \<Rightarrow> send_result list res" where
  "sendgrid_send_batch post payload from_email m rs =
     (if rs = [] then Inr []
      else if api_key payload = [] \<or> content_blocks m = [] then Inl ProviderRejectedError
      else case post (''Bearer '' @ api_key payload) (request_body from_email m rs) of
             Transport_Failure \<Rightarrow> Inl ProviderUnreachableError
           | Http_Response code base \<Rightarrow>
               if 500 \<le> code then Inl ProviderUnreachableError
               else if 400 \<le> code then Inl ProviderRejectedError
               else Inr (map (\<lambda>(idx, r). acknowledged base idx r) (enumerate 0 rs)))"

definition build_email_connector ::
  "(string \<Rightarrow> json \<Rightarrow> http_outcome) \<Rightarrow> string \<Rightarrow> dict \<Rightarrow> email_connector res" where
  "build_email_connector post provider payload =
     (if py_lower (py_strip provider) = ''sendgrid''
      then Inr \<lparr>conn_provider = ''sendgrid'', conn_verified_senders = verified_senders payload,
             conn_send_batch = sendgrid_send_batch post payload\<rparr>
      else Inl UnknownProviderError)"

section \<open>Address validation\<close>

definition is_alnum :: "char \<Rightarrow> bool" where
  "is_alnum c = (let n = of_char c :: nat in (48 \<le> n \<and> n \<le> 57) \<or> (65 \<le> n \<and> n \<le> 90) \<or> (97 \<le> n \<and> n \<le> 122))"

definition local_char :: "char \<Rightarrow> bool" where
  "local_char c \<longleftrightarrow> is_alnum c \<or> c \<in> set ''_.+-''"

definition label_char :: "char \<Rightarrow> bool" where
  "label_char c \<longleftrightarrow> is_alnum c \<or> c = CHR ''-''"

text \<open>\<^verbatim>\<open>s.split(sep)\<close> for a one-character separator.\<close>

fun py_split :: "char \<Rightarrow> string \<Rightarrow> string list" where
  "py_split sep [] = [[]]"
| "py_split sep (c # cs) =
     (if c = sep then [] # py_split sep cs
      else case py_split sep cs of p # ps \<Rightarrow> (c # p) # ps | [] \<Rightarrow> [[c]])"

text \<open>\<^verbatim>\<open>_EMAIL_RE.match\<close>; the dollar sign also matches before a final newline.\<close>

definition chomp :: "string \<Rightarrow> string" where
  "chomp s = (if s \<noteq> [] \<and> last s = char_of (10::nat) then butlast s else s)"

definition email_re :: "string \<Rightarrow> bool" where
  "email_re s =
     (let s = chomp s;
          loc = takeWhile (\<lambda>c. c \<noteq> CHR ''@'') s;
          rest = dropWhile (\<lambda>c. c \<noteq> CHR ''@'') s;
          labels = py_split (CHR ''.'') (tl rest)
      in loc \<noteq> [] \<and> list_all local_char loc \<and> rest \<noteq> []
         \<and> 2 \<le> length labels \<and> list_all (\<lambda>l. l \<noteq> [] \<and> list_all label_char l) labels)"

definition blocked_recipient_domains :: "string list" where
  "blocked_recipient_domains = [''example.com'', ''example.org'', ''example.net'', ''test.test'']"

text \<open>\<^verbatim>\<open>email.rsplit("@", 1)[-1]\<close>.\<close>

definition after_last_at :: "string \<Rightarrow> string" where
  "after_last_at s = rev (takeWhile (\<lambda>c. c \<noteq> CHR ''@'') (rev s))"

definition validate_recipient :: "string set \<Rightarrow> string \<Rightarrow> string option" where
  "validate_recipient suppressed email =
     (if email \<in> suppressed then Some ''suppressed''
      else if \<not> email_re email then Some ''invalid_address''
      else if py_lower (after_last_at email) \<in> set blocked_recipient_domains then Some ''blocked_domain''
      else None)"

definition load_suppressed_emails :: "uuid \<Rightarrow> string list \<Rightarrow> db \<Rightarrow> string set" where
  "load_suppressed_emails tenant candidates s =
     (let normalised = (py_lower \<circ> py_strip) ` set (filter (\<lambda>c. c \<noteq> []) candidates)
      in py_lower ` sup_identifier ` set (filter (\<lambda>r. sup_tenant_id r = tenant \<and> sup_platform r = PEmail
           \<and> py_lower (sup_identifier r) \<in> normalised) (suppressions s)))"

section \<open>Footer injection\<close>

text \<open>\<^verbatim>\<open>x in body\<close> for a string \<open>x\<close>; \<open>None\<close> is \<^verbatim>\<open>TypeError\<close>.\<close>

fun has_prefix :: "string \<Rightarrow> string \<Rightarrow> bool" where
  "has_prefix [] ys = True"
| "has_prefix (x # xs) [] = False"
| "has_prefix (x # xs) (y # ys) = (x = y \<and> has_prefix xs ys)"

fun contains :: "string \<Rightarrow> string \<Rightarrow> bool" where
  "contains x [] = (x = [])"
| "contains x (c # cs) = (has_prefix x (c # cs) \<or> contains x cs)"

fun json_in :: "string \<Rightarrow> json \<Rightarrow> bool option" where
  "json_in x (JStr b) = Some (contains x b)"
| "json_in x (JArr xs) = Some (JStr x \<in> set xs)"
| "json_in x (JObj d) = Some (x \<in> fst ` set d)"
| "json_in x _ = None"

definition footer_field :: "dict \<Rightarrow> string \<Rightarrow> string" where
  "footer_field footer k =
     (let v = dict_get footer k in py_strip (if truthy v then py_str v else []))"

text \<open>\<^verbatim>\<open>(unsub and unsub in body) or (addr and addr in body)\<close>.\<close>

definition has_footer :: "string \<Rightarrow> string \<Rightarrow> json \<Rightarrow> bool option" where
  "has_footer unsub addr body =
     (case (if unsub = [] then Some False else json_in unsub body) of
        None \<Rightarrow> None
      | Some True \<Rightarrow> Some True
      | Some False \<Rightarrow> if addr = [] then Some False else json_in addr body)"

definition append_footer :: "(string \<Rightarrow> string \<Rightarrow> string) \<Rightarrow> json \<Rightarrow> dict \<Rightarrow> json res" where
  "append_footer render body footer =
     (let unsub = footer_field footer ''unsubscribe_url''; addr = footer_field footer ''postal_address''
      in if body = JNull \<or> (unsub = [] \<and> addr = []) then Inr body
         else case has_footer unsub addr body of
                None \<Rightarrow> Inl TypeError
              | Some True \<Rightarrow> Inr body
              | Some False \<Rightarrow> (case body of JStr b \<Rightarrow> Inr (JStr (b @ render unsub addr)) | _ \<Rightarrow> Inl TypeError))"

definition newline :: char where "newline = char_of (10::nat)"

definition text_footer :: "string \<Rightarrow> string \<Rightarrow> string" where
  "text_footer unsub addr =
     newline # newline # ''---'' @ newline # py_join [newline]
       ((if unsub = [] then [] else [''Unsubscribe: '' @ unsub]) @ (if addr = [] then [] else [addr]))"

definition quote_char :: char where "quote_char = char_of (34::nat)"

definition middle_dot :: string where "middle_dot = [CHR 0xC2, CHR 0xB7]"

definition html_footer :: "string \<Rightarrow> string \<Rightarrow> string" where
  "html_footer unsub addr =
     ''<hr style='' @ [quote_char] @ ''margin-top:24px;border:none;border-top:1px solid #ddd'' @ [quote_char] @ ''/>''
     @ ''<p style='' @ [quote_char] @ ''font-size:12px;color:#666;margin-top:12px'' @ [quote_char] @ ''>''
     @ py_join ('' '' @ middle_dot @ '' '')
         ((if unsub = [] then [] else [''<a href='' @ [quote_char] @ unsub @ [quote_char] @ ''>Unsubscribe</a>''])
          @ (if addr = [] then [] else [concat (map (\<lambda>c. if c = newline then ''<br>'' else [c]) addr)]))
     @ ''</p>''"

definition inject_footer_text :: "json \<Rightarrow> dict \<Rightarrow> json res" where
  "inject_footer_text body footer = append_footer text_footer body footer"

definition inject_footer_html :: "json \<Rightarrow> dict \<Rightarrow> json res" where
  "inject_footer_html body footer = append_footer html_footer body footer"

section \<open>The dispatch tool\<close>

definition forbidden_headers :: "string list" where
  "forbidden_headers = [''return-path'', ''x-mailer'', ''received'', ''dkim-signature'', ''list-unsubscribe'',
     ''list-unsubscribe-post'']"

text \<open>\<^verbatim>\<open>d.get(k) or {}\<close> where a dictionary is needed next: anything else that is true has no \<^verbatim>\<open>get\<close>.\<close>

fun or_dict :: "json \<Rightarrow> dict option" where
  "or_dict (JObj d) = Some d"
| "or_dict v = (if truthy v then None else Some [])"

definition with_footers :: "json \<Rightarrow> email_message \<Rightarrow> email_message res" where
  "with_footers footer m =
     (if \<not> truthy footer \<or> (em_html_body m = JNull \<and> em_text_body m = JNull) then Inr m
      else case footer of
             JObj f \<Rightarrow>
               (case inject_footer_html (em_html_body m) f of
                  Inl err \<Rightarrow> Inl err
                | Inr html \<Rightarrow>
                    map_sum id (\<lambda>text. m\<lparr>em_html_body := html, em_text_body := text\<rparr>)
                      (inject_footer_text (em_text_body m) f))
           | _ \<Rightarrow> Inl AttributeError)"

definition build_message :: "dict \<Rightarrow> json \<Rightarrow> email_message res" where
  "build_message payload footer =
     (let subject = py_strip (py_str (dict_get_default payload ''subject'' (JStr [])))
      in if subject = [] then Inl DispatchValidationError
         else case or_dict (dict_get payload ''headers'') of
                None \<Rightarrow> Inl DispatchValidationError
              | Some headers \<Rightarrow>
                  if list_ex (\<lambda>(h, _). py_lower h \<in> set forbidden_headers) headers then Inl DispatchValidationError
                  else with_footers footer
                         \<lparr>em_subject = subject, em_html_body = dict_get payload ''html_body'',
                          em_text_body = dict_get payload ''text_body'',
                          em_headers = map (\<lambda>(k, v). (k, py_str v)) headers,
                          em_reply_to = dict_get payload ''reply_to''\<rparr>)"

text \<open>One recipient of the batch: the address to send to, or a rejection.\<close>

definition check_recipient :: "string set \<Rightarrow> json \<Rightarrow> (email_recipient + string \<times> string) res" where
  "check_recipient suppressed r =
     (case r of
        JObj d \<Rightarrow>
          (let email = py_lower (py_strip (py_str (dict_get_default d ''email'' (JStr []))))
           in if email = [] then Inr (Inr ([], ''missing_email''))
              else case validate_recipient suppressed email of
                     Some reason \<Rightarrow> Inr (Inr (email, reason))
                   | None \<Rightarrow>
                       (case or_dict (dict_get d ''merge_fields'') of
                          None \<Rightarrow> Inl AttributeError
                        | Some mf \<Rightarrow>
                            Inr (Inl \<lparr>er_email = email, er_merge_fields = map (\<lambda>(k, v). (k, py_str v)) mf,
                              er_name = dict_get d ''name''\<rparr>)))
      | _ \<Rightarrow> Inr (Inr (py_str r, ''invalid_shape'')))"

fun check_batch :: "string set \<Rightarrow> json list \<Rightarrow> (email_recipient list \<times> (string \<times> string) list) res" where
  "check_batch suppressed [] = Inr ([], [])"
| "check_batch suppressed (r # rs) =
     (case check_recipient suppressed r of
        Inl err \<Rightarrow> Inl err
      | Inr (Inl ok) \<Rightarrow> map_sum id (\<lambda>(oks, rejs). (ok # oks, rejs)) (check_batch suppressed rs)
      | Inr (Inr rej) \<Rightarrow> map_sum id (\<lambda>(oks, rejs). (oks, rej # rejs)) (check_batch suppressed rs))"

text \<open>Everything the tool decides before the provider is called.\<close>

record send_plan =
  pl_from :: string
  pl_message :: email_message
  pl_payload :: "email_recipient list"
  pl_rejections :: "(string \<times> string) list"

definition batch_addresses :: "json list \<Rightarrow> string list" where
  "batch_addresses rs =
     List.map_filter (\<lambda>r. case r of JObj d \<Rightarrow> Some (py_str (dict_get_default d ''email'' (JStr []))) | _ \<Rightarrow> None) rs"

definition email_plan :: "email_connector \<Rightarrow> uuid \<Rightarrow> dict \<Rightarrow> db \<Rightarrow> send_plan res" where
  "email_plan conn tenant inputs s =
     (let from_email = py_lower (py_strip (py_str (dict_get_default inputs ''from_email'' (JStr []))));
          transactional = truthy (dict_get inputs ''transactional'')
      in if from_email = [] then Inl DispatchValidationError
         else case conn_verified_senders conn of
           None \<Rightarrow> Inl TypeError
         | Some senders \<Rightarrow>
           if senders \<noteq> [] \<and> from_email \<notin> py_lower ` set senders then Inl DispatchValidationError
           else case or_dict (dict_get inputs ''message'') of
             None \<Rightarrow> Inl AttributeError
           | Some payload \<Rightarrow>
             (case build_message payload (if transactional then JNull else dict_get inputs ''compliance_footer'') of
                Inl err \<Rightarrow> Inl err
              | Inr message \<Rightarrow>
                (case dict_get inputs ''audience_batch'' of
                   JArr raw \<Rightarrow>
                     if raw = [] then Inl DispatchValidationError
                     else map_sum id (\<lambda>(oks, rejs). \<lparr>pl_from = from_email, pl_message = message,
                              pl_payload = oks, pl_rejections = rejs\<rparr>)
                            (check_batch (if transactional then {}
                               else load_suppressed_emails tenant (batch_addresses raw) s) raw)
                 | _ \<Rightarrow> Inl DispatchValidationError)))"

record email_result =
  rs_batch_id :: string
  rs_provider :: string
  rs_accepted_count :: nat
  rs_rejected_count :: nat
  rs_per_message_ids :: "(string \<times> string) list"
  rs_rejections :: "(string \<times> string) list"

text \<open>\<^verbatim>\<open>res.provider_message_id\<close> must be a non-empty string to be reported.\<close>

definition message_ids :: "send_result list \<Rightarrow> (string \<times> string) list" where
  "message_ids rs = List.map_filter (\<lambda>r. if res_accepted r then
       (case res_message_id r of Some i \<Rightarrow> if i = [] then None else Some (res_email r, i) | None \<Rightarrow> None)
     else None) rs"

definition provider_rejections :: "send_result list \<Rightarrow> (string \<times> string) list" where
  "provider_rejections rs = List.map_filter (\<lambda>r. if res_accepted r then None
     else Some (res_email r, case res_error r of Some m \<Rightarrow> (if m = [] then ''provider_rejected'' else m)
                             | None \<Rightarrow> ''provider_rejected'')) rs"

definition email_call :: "email_connector \<Rightarrow> uuid \<Rightarrow> uuid \<Rightarrow> dict \<Rightarrow> db \<Rightarrow> email_result res" where
  "email_call conn batch_id tenant inputs s =
     (case email_plan conn tenant inputs s of
        Inl err \<Rightarrow> Inl err
      | Inr p \<Rightarrow>
          (case (if pl_payload p = [] then Inr []
                 else conn_send_batch conn (pl_from p) (pl_message p) (pl_payload p)) of
             Inl err \<Rightarrow> Inl err
           | Inr results \<Rightarrow>
               let ids = message_ids results;
                   rejs = pl_rejections p @ provider_rejections results
               in Inr \<lparr>rs_batch_id = uuid_str batch_id, rs_provider = conn_provider conn,
                    rs_accepted_count = (if ids = [] \<and> pl_payload p \<noteq> [] \<and> rejs = [] then length (pl_payload p)
                                         else length ids),
                    rs_rejected_count = length rejs, rs_per_message_ids = ids, rs_rejections = rejs\<rparr>))"

section \<open>Strings\<close>

lemma has_prefix_iff: "has_prefix x ys \<longleftrightarrow> (\<exists>v. ys = x @ v)"
  by (induction x ys rule: has_prefix.induct) auto

lemma contains_iff: "contains x b \<longleftrightarrow> (\<exists>u v. b = u @ x @ v)"
proof (induction x b rule: contains.induct)
  case (2 x c cs)
  have "(\<exists>u v. c # cs = u @ x @ v) \<longleftrightarrow> (\<exists>v. c # cs = x @ v) \<or> (\<exists>u v. cs = u @ x @ v)"
    by (auto simp: Cons_eq_append_conv)
  with 2 show ?case by (auto simp: has_prefix_iff)
qed auto

lemma contains_append: "contains x a \<Longrightarrow> contains x (a @ b)" "contains x b \<Longrightarrow> contains x (a @ b)"
  unfolding contains_iff by (metis append.assoc)+

lemma contains_self [simp]: "contains x x"
  unfolding contains_iff by (rule exI [of _ "[]"]) (rule exI [of _ "[]"], simp)

lemma py_split_not_Nil [simp]: "py_split sep s \<noteq> []"
  by (induction s) (auto split: list.splits)

lemma py_split_one: "sep \<notin> set p \<Longrightarrow> py_split sep p = [p]"
  by (induction p) auto

lemma py_split_append: "sep \<notin> set p \<Longrightarrow> py_split sep (p @ sep # s) = p # py_split sep s"
  by (induction p) auto

text \<open>Splitting and joining are inverse on pieces without the separator.\<close>

lemma py_split_join:
  "ps \<noteq> [] \<Longrightarrow> \<forall>p\<in>set ps. sep \<notin> set p \<Longrightarrow> py_split sep (py_join [sep] ps) = ps"
proof (induction "[sep]" ps rule: py_join.induct)
  case (3 x y xs)
  then show ?case by (simp add: py_split_append)
qed (auto simp: py_split_one)

lemma py_join_split: "py_join [sep] (py_split sep s) = s \<and> (\<forall>p\<in>set (py_split sep s). sep \<notin> set p)"
proof (induction s)
  case (Cons c s)
  obtain p ps where p: "py_split sep s = p # ps" by (cases "py_split sep s") auto
  have "py_join [sep] ((c # p) # ps) = c # py_join [sep] (p # ps)" by (cases ps) auto
  with Cons p show ?case by auto
qed auto

section \<open>Which addresses are accepted\<close>

lemma char_classes: "local_char c \<Longrightarrow> c \<noteq> CHR ''@''" "label_char c \<Longrightarrow> c \<noteq> CHR ''.''"
  by (auto simp: local_char_def label_char_def is_alnum_def)

text \<open>The hand-written matcher accepts exactly the language of the regular expression: a non-empty local
  part, an at sign, and at least two non-empty labels joined by dots, up to one final newline.\<close>

lemma email_re_language:
  "email_re s \<longleftrightarrow>
     (\<exists>loc labels. chomp s = loc @ CHR ''@'' # py_join ''.'' labels \<and> loc \<noteq> [] \<and> list_all local_char loc
        \<and> 2 \<le> length labels \<and> list_all (\<lambda>l. l \<noteq> [] \<and> list_all label_char l) labels)"
proof
  assume m: "email_re s"
  let ?s = "chomp s" let ?loc = "takeWhile (\<lambda>c. c \<noteq> CHR ''@'') ?s" let ?rest = "dropWhile (\<lambda>c. c \<noteq> CHR ''@'') ?s"
  let ?labels = "py_split (CHR ''.'') (tl ?rest)"
  have f: "?loc \<noteq> [] \<and> list_all local_char ?loc \<and> ?rest \<noteq> [] \<and> 2 \<le> length ?labels
      \<and> list_all (\<lambda>l. l \<noteq> [] \<and> list_all label_char l) ?labels"
    using m unfolding email_re_def Let_def .
  then have rest: "?rest \<noteq> []" by (elim conjE)
  then have "?rest = CHR ''@'' # tl ?rest"
    using hd_dropWhile [OF rest] by (cases ?rest) auto
  then have "?s = ?loc @ CHR ''@'' # py_join ''.'' ?labels"
    using takeWhile_dropWhile_id [of "\<lambda>c. c \<noteq> CHR ''@''" ?s] py_join_split [of "CHR ''.''" "tl ?rest"] by simp
  with f show "\<exists>loc labels. chomp s = loc @ CHR ''@'' # py_join ''.'' labels \<and> loc \<noteq> [] \<and> list_all local_char loc
        \<and> 2 \<le> length labels \<and> list_all (\<lambda>l. l \<noteq> [] \<and> list_all label_char l) labels"
    by (intro exI [of _ ?loc] exI [of _ ?labels]) (elim conjE, intro conjI)
next
  assume "\<exists>loc labels. chomp s = loc @ CHR ''@'' # py_join ''.'' labels \<and> loc \<noteq> [] \<and> list_all local_char loc
        \<and> 2 \<le> length labels \<and> list_all (\<lambda>l. l \<noteq> [] \<and> list_all label_char l) labels"
  then obtain loc labels where s: "chomp s = loc @ CHR ''@'' # py_join ''.'' labels" "loc \<noteq> []" "list_all local_char loc"
    and l: "2 \<le> length labels" "list_all (\<lambda>l. l \<noteq> [] \<and> list_all label_char l) labels" by blast
  have loc: "\<forall>c\<in>set loc. c \<noteq> CHR ''@''" using s(3) char_classes(1) by (auto simp: list_all_iff)
  have "\<forall>p\<in>set labels. CHR ''.'' \<notin> set p" using l(2) char_classes(2) by (fastforce simp: list_all_iff)
  moreover have "labels \<noteq> []" using l(1) by auto
  ultimately have sp: "py_split (CHR ''.'') (py_join ''.'' labels) = labels" by (rule py_split_join [rotated])
  have tw: "takeWhile (\<lambda>c. c \<noteq> CHR ''@'') (chomp s) = loc" "dropWhile (\<lambda>c. c \<noteq> CHR ''@'') (chomp s) = CHR ''@'' # py_join ''.'' labels"
    using loc by (simp_all add: s(1))
  show "email_re s" unfolding email_re_def Let_def tw list.sel sp using s(2,3) l by simp
qed

section \<open>What reaches the provider\<close>

lemma check_recipient_ok:
  assumes "check_recipient sp r = Inr (Inl ok)"
  shows "validate_recipient sp (er_email ok) = None"
    and "\<exists>d. r = JObj d \<and> er_email ok = py_lower (py_strip (py_str (dict_get_default d ''email'' (JStr []))))"
    and "er_email ok \<noteq> []"
  using assms by (auto simp: check_recipient_def Let_def split: json.splits if_splits option.splits)

lemma check_batch_ok:
  assumes "check_batch sp rs = Inr (oks, rejs)"
  shows "\<forall>ok\<in>set oks. \<exists>r\<in>set rs. check_recipient sp r = Inr (Inl ok)"
    and "length oks + length rejs = length rs"
proof -
  have "(\<forall>ok\<in>set oks. \<exists>r\<in>set rs. check_recipient sp r = Inr (Inl ok)) \<and> length oks + length rejs = length rs"
    using assms
  proof (induction rs arbitrary: oks rejs)
    case (Cons r rs)
    show ?case
    proof (cases "check_recipient sp r")
      case (Inl err)
      with Cons.prems show ?thesis by simp
    next
      case (Inr v)
      obtain oks' rejs' where rest: "check_batch sp rs = Inr (oks', rejs')"
        and new: "(oks, rejs) = (case v of Inl ok \<Rightarrow> (ok # oks', rejs') | Inr rej \<Rightarrow> (oks', rej # rejs'))"
        using Cons.prems Inr by (cases v) (auto simp: case_prod_beta)
      from Cons.IH [OF rest] new Inr show ?thesis by (cases v) auto
    qed
  qed simp
  then show "\<forall>ok\<in>set oks. \<exists>r\<in>set rs. check_recipient sp r = Inr (Inl ok)"
    and "length oks + length rejs = length rs" by blast+
qed

lemma email_plan_batch:
  assumes "email_plan conn tenant inputs s = Inr p"
  obtains raw where "dict_get inputs ''audience_batch'' = JArr raw"
    "check_batch (if truthy (dict_get inputs ''transactional'') then {}
       else load_suppressed_emails tenant (batch_addresses raw) s) raw = Inr (pl_payload p, pl_rejections p)"
  using assms
  by (auto simp: email_plan_def Let_def split: if_splits option.splits sum.splits json.splits)

lemma suppressed_member:
  assumes "e \<in> set (suppressions s)" "sup_tenant_id e = tenant" "sup_platform e = PEmail"
    and "c \<in> set candidates" "c \<noteq> []" "py_lower (sup_identifier e) = py_lower (py_strip c)"
  shows "py_lower (py_strip c) \<in> load_suppressed_emails tenant candidates s"
  using assms unfolding load_suppressed_emails_def Let_def
  by (auto simp: image_iff intro!: bexI [of _ e] bexI [of _ c])

lemma email_plan_checked:
  assumes plan: "email_plan conn tenant inputs s = Inr p" and campaign: "\<not> truthy (dict_get inputs ''transactional'')"
    and r: "r \<in> set (pl_payload p)"
  shows "\<forall>e\<in>set (suppressions s). sup_tenant_id e = tenant \<and> sup_platform e = PEmail \<longrightarrow>
      py_lower (sup_identifier e) \<noteq> er_email r"
    and "email_re (er_email r)" and "py_lower (after_last_at (er_email r)) \<notin> set blocked_recipient_domains"
proof -
  obtain raw where raw: "dict_get inputs ''audience_batch'' = JArr raw"
    and batch: "check_batch (load_suppressed_emails tenant (batch_addresses raw) s) raw = Inr (pl_payload p, pl_rejections p)"
    using email_plan_batch [OF plan] campaign by auto
  let ?sp = "load_suppressed_emails tenant (batch_addresses raw) s"
  obtain x where x: "x \<in> set raw" "check_recipient ?sp x = Inr (Inl r)" using check_batch_ok(1) [OF batch] r by blast
  note ok = check_recipient_ok [OF x(2)]
  obtain d where d: "x = JObj d" "er_email r = py_lower (py_strip (py_str (dict_get_default d ''email'' (JStr []))))"
    using ok(2) by blast
  let ?c = "py_str (dict_get_default d ''email'' (JStr []))"
  have c: "?c \<in> set (batch_addresses raw)" using x(1) d(1) by (force simp: batch_addresses_def set_map_filter)
  have "?c \<noteq> []" using ok(3) d(2) by (auto simp: py_strip_def)
  then show "\<forall>e\<in>set (suppressions s). sup_tenant_id e = tenant \<and> sup_platform e = PEmail \<longrightarrow>
      py_lower (sup_identifier e) \<noteq> er_email r"
    using ok(1) suppressed_member [OF _ _ _ c] d(2) by (auto simp: validate_recipient_def split: if_splits)
  show "email_re (er_email r)" and "py_lower (after_last_at (er_email r)) \<notin> set blocked_recipient_domains"
    using ok(1) by (auto simp: validate_recipient_def split: if_splits)
qed

text \<open>No campaign mail goes to a suppressed address: unless the send is marked transactional, no address
  the tool hands to the provider is on the tenant's e-mail suppression list, whatever the spelling of
  either; every address handed over matches the address pattern and is outside the blocked domains;
  and every entry of the batch is either handed over or reported as rejected.\<close>

theorem email_plan_respects_suppression:
  assumes plan: "email_plan conn tenant inputs s = Inr p" and campaign: "\<not> truthy (dict_get inputs ''transactional'')"
    and r: "r \<in> set (pl_payload p)"
  shows "(\<forall>e\<in>set (suppressions s). sup_tenant_id e = tenant \<and> sup_platform e = PEmail \<longrightarrow>
           py_lower (sup_identifier e) \<noteq> er_email r)
    \<and> email_re (er_email r) \<and> py_lower (after_last_at (er_email r)) \<notin> set blocked_recipient_domains
    \<and> (\<exists>raw. dict_get inputs ''audience_batch'' = JArr raw \<and> length (pl_payload p) + length (pl_rejections p) = length raw)"
proof -
  obtain raw where "dict_get inputs ''audience_batch'' = JArr raw"
    and batch: "check_batch (load_suppressed_emails tenant (batch_addresses raw) s) raw = Inr (pl_payload p, pl_rejections p)"
    using email_plan_batch [OF plan] campaign by auto
  with check_batch_ok(2) [OF batch] email_plan_checked [OF assms] show ?thesis by blast
qed

section \<open>Footers\<close>

definition footer_present :: "dict \<Rightarrow> string \<Rightarrow> string \<Rightarrow> bool" where
  "footer_present footer k b \<longleftrightarrow> footer_field footer k \<noteq> [] \<and> contains (footer_field footer k) b"

lemma text_footer_contains:
  "unsub \<noteq> [] \<Longrightarrow> contains unsub (text_footer unsub addr)" "addr \<noteq> [] \<Longrightarrow> contains addr (text_footer unsub addr)"
proof -
  assume "unsub \<noteq> []"
  moreover have "text_footer unsub addr = (newline # newline # ''---'' @ newline # ''Unsubscribe: '') @ unsub @ v"
    if "unsub \<noteq> []" "v = (if addr = [] then [] else newline # addr)" for v
    using that by (simp add: text_footer_def)
  ultimately show "contains unsub (text_footer unsub addr)" unfolding contains_iff by blast
next
  assume "addr \<noteq> []"
  moreover have "text_footer unsub addr = u @ addr @ []"
    if "u = newline # newline # ''---'' @ newline # (if unsub = [] then [] else ''Unsubscribe: '' @ unsub @ [newline])"
      and "addr \<noteq> []" for u
    using that by (simp add: text_footer_def)
  ultimately show "contains addr (text_footer unsub addr)" unfolding contains_iff by blast
qed

text \<open>Every text mail with a footer is compliant and gets at most one: after injection the text body holds
  the unsubscribe link or the postal address (both, if it held neither before), the author's text is a
  prefix of it, and injecting again changes nothing.\<close>

theorem text_footer_compliant:
  assumes inj: "inject_footer_text (JStr b) footer = Inr body"
    and some: "footer_field footer ''unsubscribe_url'' \<noteq> [] \<or> footer_field footer ''postal_address'' \<noteq> []"
  shows "\<exists>b' rest. body = JStr b' \<and> b' = b @ rest
    \<and> (footer_present footer ''unsubscribe_url'' b' \<or> footer_present footer ''postal_address'' b')
    \<and> (\<not> footer_present footer ''unsubscribe_url'' b \<and> \<not> footer_present footer ''postal_address'' b \<longrightarrow>
         contains (footer_field footer ''unsubscribe_url'') b' \<and> contains (footer_field footer ''postal_address'') b')
    \<and> inject_footer_text body footer = Inr body"
proof -
  let ?u = "footer_field footer ''unsubscribe_url''" and ?a = "footer_field footer ''postal_address''"
  have once: "inject_footer_text (JStr c) footer
      = Inr (JStr (if footer_present footer ''unsubscribe_url'' c \<or> footer_present footer ''postal_address'' c then c else c @ text_footer ?u ?a))" for c
    using some by (auto simp: inject_footer_text_def append_footer_def has_footer_def footer_present_def Let_def split: bool.splits)
  have nil: "contains [] c" for c unfolding contains_iff by (rule exI [of _ "[]"]) simp
  have both: "contains ?u (b @ text_footer ?u ?a)" "contains ?a (b @ text_footer ?u ?a)"
    using text_footer_contains contains_append(2) nil by (metis)+
  show ?thesis
  proof (cases "footer_present footer ''unsubscribe_url'' b \<or> footer_present footer ''postal_address'' b")
    case True
    then have "body = JStr b" using inj once by simp
    with True once show ?thesis by auto
  next
    case False
    then have body: "body = JStr (b @ text_footer ?u ?a)" using inj once by simp
    have "footer_present footer ''unsubscribe_url'' (b @ text_footer ?u ?a) \<or> footer_present footer ''postal_address'' (b @ text_footer ?u ?a)"
      using both some by (auto simp: footer_present_def)
    with both body once show ?thesis by auto
  qed
qed

section \<open>SendGrid acknowledgements\<close>

lemma acknowledged_enumerate:
  "map (\<lambda>(idx, r). acknowledged base idx r) (enumerate 0 rs) = map (\<lambda>i. acknowledged base i (rs ! i)) [0..<length rs]"
  by (rule nth_equalityI) (simp_all add: nth_enumerate_eq)

lemma sendgrid_results:
  assumes "sendgrid_send_batch post payload from_email m rs = Inr results"
  shows "map res_email results = map er_email rs \<and> (\<forall>r\<in>set results. res_accepted r)"
proof (cases "rs = []")
  case False
  with assms obtain base where "results = map (\<lambda>i. acknowledged base i (rs ! i)) [0..<length rs]"
    by (auto simp: sendgrid_send_batch_def acknowledged_enumerate split: if_splits http_outcome.splits)
  moreover have "map (\<lambda>i. er_email (rs ! i)) [0..<length rs] = map er_email rs"
    by (rule nth_equalityI) simp_all
  ultimately show ?thesis by (simp add: acknowledged_def comp_def)
qed (use assms in \<open>simp add: sendgrid_send_batch_def\<close>)

text \<open>The provider's answers are mapped to errors by class: a failed connection or a 5xx status is reported
  as unreachable, which the queue retries; a 4xx status, a missing key or an empty message as rejected;
  otherwise every recipient is acknowledged, in order, and the message identifiers are distinct.\<close>

theorem sendgrid_outcomes:
  assumes "rs \<noteq> []"
  shows "sendgrid_send_batch post payload from_email m rs =
    (if api_key payload = [] \<or> (\<not> truthy (em_text_body m) \<and> \<not> truthy (em_html_body m)) then Inl ProviderRejectedError
     else case post (''Bearer '' @ api_key payload) (request_body from_email m rs) of
       Transport_Failure \<Rightarrow> Inl ProviderUnreachableError
     | Http_Response code base \<Rightarrow>
         if 500 \<le> code then Inl ProviderUnreachableError
         else if 400 \<le> code then Inl ProviderRejectedError
         else Inr (map (\<lambda>i. acknowledged base i (rs ! i)) [0..<length rs]))
    \<and> (\<forall>base. base \<noteq> [] \<longrightarrow> inj_on (\<lambda>i. res_message_id (acknowledged base i (rs ! i))) {0..<length rs})"
proof (intro conjI allI impI)
  show "inj_on (\<lambda>i. res_message_id (acknowledged base i (rs ! i))) {0..<length rs}" if "base \<noteq> []" for base
  proof (rule inj_onI)
    fix i j
    assume "res_message_id (acknowledged base i (rs ! i)) = res_message_id (acknowledged base j (rs ! j))"
    then have "nat_of_digits (digits i) = nat_of_digits (digits j)" using that by (simp add: acknowledged_def)
    then show "i = j" by simp
  qed
  show "sendgrid_send_batch post payload from_email m rs =
    (if api_key payload = [] \<or> (\<not> truthy (em_text_body m) \<and> \<not> truthy (em_html_body m)) then Inl ProviderRejectedError
     else case post (''Bearer '' @ api_key payload) (request_body from_email m rs) of
       Transport_Failure \<Rightarrow> Inl ProviderUnreachableError
     | Http_Response code base \<Rightarrow>
         if 500 \<le> code then Inl ProviderUnreachableError
         else if 400 \<le> code then Inl ProviderRejectedError
         else Inr (map (\<lambda>i. acknowledged base i (rs ! i)) [0..<length rs]))"
    using assms by (auto simp: sendgrid_send_batch_def content_blocks_def acknowledged_enumerate split: http_outcome.splits)
qed

section \<open>Concrete instances\<close>

definition mail_payload :: dict where
  "mail_payload = [(''api_key'', JStr ''k''), (''default_from_email'', JStr ''news@acme.io'')]"

definition demo_connector :: email_connector where
  "demo_connector = \<lparr>conn_provider = ''sendgrid'', conn_verified_senders = verified_senders mail_payload,
     conn_send_batch = sendgrid_send_batch (\<lambda>_ _. Http_Response 202 ''m'') mail_payload\<rparr>"

definition demo_inputs :: dict where
  "demo_inputs = [(''from_email'', JStr ''news@acme.io''),
     (''audience_batch'', JArr [JObj [(''email'', JStr ''Ann@Corp.io'')], JObj [(''email'', JStr ''bob@corp.io'')]]),
     (''message'', JObj [(''subject'', JStr ''Hello''), (''text_body'', JStr ''Hi'')])]"

definition demo_suppression :: suppression_entry where
  "demo_suppression = \<lparr>sup_id = 90, sup_tenant_id = 1, sup_platform = PEmail, sup_identifier = ''ann@CORP.io'',
     sup_reason = ''unsubscribe'', sup_suppressed_at = 0, sup_source_event_id = None\<rparr>"

theorem email_plan_respects_suppression_witness:
  "\<exists>p r. email_plan demo_connector 1 demo_inputs (empty_db\<lparr>suppressions := [demo_suppression]\<rparr>) = Inr p
     \<and> pl_payload p = [r] \<and> er_email r = ''bob@corp.io'' \<and> length (pl_rejections p) = 1"
proof -
  let ?s = "empty_db\<lparr>suppressions := [demo_suppression]\<rparr>"
  have eq: "map_sum id (\<lambda>p. map er_email (pl_payload p)) (email_plan demo_connector 1 demo_inputs ?s) = Inr [''bob@corp.io'']"
    by code_simp
  then obtain p where p: "email_plan demo_connector 1 demo_inputs ?s = Inr p" "map er_email (pl_payload p) = [''bob@corp.io'']"
    by auto
  then obtain r where r: "pl_payload p = [r]" "er_email r = ''bob@corp.io''" by auto
  have "\<not> truthy (dict_get demo_inputs ''transactional'')" by (simp add: demo_inputs_def dict_get_def)
  from email_plan_respects_suppression [OF p(1) this, of r] r(1)
  have "length (pl_rejections p) = 1" by (auto simp: demo_inputs_def dict_get_def)
  with p(1) r show ?thesis by blast
qed

theorem text_footer_compliant_witness:
  "\<exists>b'. inject_footer_text (JStr ''Hi'') [(''unsubscribe_url'', JStr ''{{unsubscribe_url}}''), (''postal_address'', JStr ''1 Main St'')]
       = Inr (JStr b') \<and> contains ''{{unsubscribe_url}}'' b'"
proof -
  let ?f = "[(''unsubscribe_url'', JStr ''{{unsubscribe_url}}''), (''postal_address'', JStr ''1 Main St'')]"
  have ff: "footer_field ?f ''unsubscribe_url'' = ''{{unsubscribe_url}}''" by code_simp
  have ab: "\<not> footer_present ?f ''unsubscribe_url'' ''Hi''" "\<not> footer_present ?f ''postal_address'' ''Hi''" by code_simp+
  have ok: "(case inject_footer_text (JStr ''Hi'') ?f of Inr _ \<Rightarrow> True | Inl _ \<Rightarrow> False)" by code_simp
  then obtain body where body: "inject_footer_text (JStr ''Hi'') ?f = Inr body" by (auto split: sum.splits)
  have "footer_field ?f ''unsubscribe_url'' \<noteq> [] \<or> footer_field ?f ''postal_address'' \<noteq> []" by (simp add: ff)
  from text_footer_compliant [OF body this] ab body ff show ?thesis by auto
qed

theorem sendgrid_outcomes_witness:
  "sendgrid_send_batch (\<lambda>_ _. Http_Response 503 []) mail_payload ''a@b.io''
     \<lparr>em_subject = ''S'', em_html_body = JNull, em_text_body = JStr ''T'', em_headers = [], em_reply_to = JNull\<rparr>
     [\<lparr>er_email = ''c@d.io'', er_merge_fields = [], er_name = JNull\<rparr>] = Inl ProviderUnreachableError"
  by (subst sendgrid_outcomes [THEN conjunct1]) (simp_all add: api_key_def mail_payload_def dict_get_default_def)

end
