(* ===== verification/Social_Tool.thy ===== *)
theory Social_Tool
  imports Email_Tool
begin

text \<open>
  Publishing to a social channel: the \<^verbatim>\<open>social.publish\<close> tool of \<^verbatim>\<open>app/tools/social_publish.py\<close> and the
  publishing half of the LinkedIn connector (\<^verbatim>\<open>publish_post\<close> with its retry loop). \<open>respond auth body n\<close> is
  what the provider answers to the \<open>n\<close>-th try; the sleeps between tries are not modelled.
\<close>

section \<open>LinkedIn\<close>

record social_post =
  po_text :: string
  po_media_url :: json
  po_media_required :: bool
  po_visibility :: string

record post_result =
  pr_post_id :: string
  pr_url :: string

text \<open>A response carries its status, its text, the JSON it parses to if it does, and the header
  \<^verbatim>\<open>X-RestLi-Id\<close>. The revoked-authorisation error keeps its message, which the dispatcher stores.\<close>

datatype li_outcome = Li_Transport_Failure | Li_Response int string "json option" "string option"

datatype publish_error = Revoked string | Other py_error

definition max_retries :: nat where "max_retries = 2"

definition retryable :: "int \<Rightarrow> bool" where
  "retryable code \<longleftrightarrow> code \<in> {429, 500, 502, 503, 504}"

definition raise_for_status :: "int \<Rightarrow> string \<Rightarrow> publish_error option" where
  "raise_for_status code text =
     (if code < 400 then None
      else if code = 401 \<or> code = 403
        then Some (Revoked (''linkedin ugcPosts '' @ int_str code @ '': '' @ take 200 text))
      else if 500 \<le> code then Some (Other ProviderUnreachableError)
      else Some (Other ProviderRejectedError))"

definition build_ugc_body :: "string \<Rightarrow> social_post \<Rightarrow> json" where
  "build_ugc_body page_urn post =
     JObj [(''author'', JStr page_urn), (''lifecycleState'', JStr ''PUBLISHED''),
       (''specificContent'', JObj [(''com.linkedin.ugc.ShareContent'',
          JObj [(''shareCommentary'', JObj [(''text'', JStr (po_text post))]), (''shareMediaCategory'', JStr ''NONE'')])]),
       (''visibility'', JObj [(''com.linkedin.ugc.MemberNetworkVisibility'', JStr (po_visibility post))])]"

definition share_url :: "string \<Rightarrow> string" where
  "share_url urn = ''https://www.linkedin.com/feed/update/'' @ urn @ ''/''"

definition accept_response :: "int \<Rightarrow> string \<Rightarrow> json option \<Rightarrow> string option \<Rightarrow> publish_error + post_result" where
  "accept_response code text data restli =
     (case raise_for_status code text of
        Some err \<Rightarrow> Inl err
      | None \<Rightarrow>
          (case data of
             None \<Rightarrow> Inl (Other ValueError)
           | Some (JObj d) \<Rightarrow>
               (let i = dict_get d ''id'';
                    urn = (if truthy i then py_str i else case restli of Some r \<Rightarrow> r | None \<Rightarrow> [])
                in if urn = [] then Inl (Other ProviderRejectedError)
                   else Inr \<lparr>pr_post_id = urn, pr_url = share_url urn\<rparr>)
           | Some _ \<Rightarrow> Inl (Other AttributeError)))"

function publish_loop :: "(nat \<Rightarrow> li_outcome) \<Rightarrow> nat \<Rightarrow> publish_error + post_result" where
  "publish_loop respond attempt =
     (case respond attempt of
        Li_Transport_Failure \<Rightarrow>
          if max_retries \<le> attempt then Inl (Other ProviderUnreachableError)
          else publish_loop respond (attempt + 1)
      | Li_Response code text data restli \<Rightarrow>
          if retryable code \<and> attempt < max_retries then publish_loop respond (attempt + 1)
          else accept_response code text data restli)"
  by pat_completeness auto
termination by (relation "measure (\<lambda>(_, attempt). max_retries - attempt)") auto

declare publish_loop.simps [simp del]

definition publish_post ::
  "(string \<Rightarrow> json \<Rightarrow> nat \<Rightarrow> li_outcome) \<Rightarrow> string \<Rightarrow> string \<Rightarrow> social_post \<Rightarrow> publish_error + post_result" where
  "publish_post respond access_token page_urn post =
     (if po_media_required post \<and> \<not> truthy (po_media_url post) then Inl (Other MediaRequiredError)
      else publish_loop (respond (''Bearer '' @ access_token) (build_ugc_body page_urn post)) 0)"

section \<open>The publishing tool\<close>

record social_connector =
  sc_provider :: string
  sc_publish :: "string \<Rightarrow> string \<Rightarrow> social_post \<Rightarrow> publish_error + post_result"

definition linkedin_connector :: "(string \<Rightarrow> json \<Rightarrow> nat \<Rightarrow> li_outcome) \<Rightarrow> social_connector" where
  "linkedin_connector respond = \<lparr>sc_provider = ''linkedin'', sc_publish = publish_post respond\<rparr>"

definition reconstruct_url :: "string \<Rightarrow> string \<Rightarrow> string" where
  "reconstruct_url provider post_id =
     (if provider = ''linkedin'' then ''https://www.linkedin.com/feed/update/'' @ post_id @ ''/'' else post_id)"

definition cached_attempt :: "uuid \<Rightarrow> string \<Rightarrow> db \<Rightarrow> dispatch_attempt option res" where
  "cached_attempt tenant key s =
     (case scalar_one_or_none (filter (\<lambda>a. att_tenant_id a = tenant \<and> att_idempotency_key a = key) (attempts s)) of
        None \<Rightarrow> Inl MultipleResultsFound | Some r \<Rightarrow> Inr r)"

record publish_reply =
  pb_post_id :: string
  pb_url :: string
  pb_idempotent_hit :: bool

definition cached_reply :: "string \<Rightarrow> dispatch_attempt option \<Rightarrow> publish_reply option" where
  "cached_reply provider cached =
     (case cached of
        None \<Rightarrow> None
      | Some a \<Rightarrow>
          (case att_provider_message_id a of
             Some i \<Rightarrow> if att_status a = ''sent'' \<and> i \<noteq> []
                       then Some \<lparr>pb_post_id = i, pb_url = reconstruct_url provider i, pb_idempotent_hit = True\<rparr> else None
           | None \<Rightarrow> None))"

definition input_text :: "dict \<Rightarrow> string \<Rightarrow> string" where
  "input_text inputs k = py_strip (py_str (dict_get_default inputs k (JStr [])))"

definition post_of_content :: "string \<Rightarrow> dict \<Rightarrow> social_post" where
  "post_of_content text content =
     \<lparr>po_text = text, po_media_url = dict_get content ''media_url'',
      po_media_required = truthy (dict_get content ''media_required''),
      po_visibility = (let v = dict_get content ''visibility'' in if truthy v then py_str v else ''PUBLIC'')\<rparr>"

definition social_call ::
  "social_connector \<Rightarrow> string \<Rightarrow> uuid \<Rightarrow> dict \<Rightarrow> db \<Rightarrow> publish_error + publish_reply" where
  "social_call conn access_token tenant inputs s =
     (let key = input_text inputs ''idempotency_key'';
          platform = py_lower (input_text inputs ''platform'');
          page_urn = input_text inputs ''page_urn''
      in if key = [] \<or> platform \<noteq> sc_provider conn \<or> page_urn = [] then Inl (Other SocialPublishError)
         else case or_dict (dict_get inputs ''content'') of
           None \<Rightarrow> Inl (Other AttributeError)
         | Some content \<Rightarrow>
           (let text = input_text content ''text''
            in if text = [] then Inl (Other SocialPublishError)
               else case cached_attempt tenant key s of
                 Inl err \<Rightarrow> Inl (Other err)
               | Inr cached \<Rightarrow>
                   (case cached_reply (sc_provider conn) cached of
                      Some reply \<Rightarrow> Inr reply
                    | None \<Rightarrow>
                        map_sum id (\<lambda>r. \<lparr>pb_post_id = pr_post_id r, pb_url = pr_url r, pb_idempotent_hit = False\<rparr>)
                          (sc_publish conn access_token page_urn (post_of_content text content)))))"

section \<open>The retry loop\<close>

lemma publish_loop_tries:
  assumes "\<forall>n\<in>{attempt..max attempt max_retries}. respond n = respond' n"
  shows "publish_loop respond attempt = publish_loop respond' attempt"
  using assms
proof (induction "max_retries - attempt" arbitrary: attempt)
  case 0
  then show ?case by (subst (1 2) publish_loop.simps) (auto split: li_outcome.splits)
next
  case (Suc k)
  have "publish_loop respond (attempt + 1) = publish_loop respond' (attempt + 1)"
    using Suc.prems Suc.hyps(2) by (intro Suc.hyps(1)) auto
  with Suc.prems show ?case by (subst (1 2) publish_loop.simps) (auto split: li_outcome.splits)
qed

lemma publish_loop_last:
  "\<exists>n\<le>max_retries. (\<forall>i<n. respond i = Li_Transport_Failure \<or> (\<exists>c b d r. respond i = Li_Response c b d r \<and> retryable c))
     \<and> publish_loop respond 0 = (case respond n of Li_Transport_Failure \<Rightarrow> Inl (Other ProviderUnreachableError)
          | Li_Response c b d r \<Rightarrow> accept_response c b d r)"
proof -
  have step: "publish_loop respond n = (case respond n of Li_Transport_Failure \<Rightarrow> Inl (Other ProviderUnreachableError)
          | Li_Response c b d r \<Rightarrow> accept_response c b d r)
      \<or> n < max_retries \<and> publish_loop respond n = publish_loop respond (Suc n)
        \<and> (respond n = Li_Transport_Failure \<or> (\<exists>c b d r. respond n = Li_Response c b d r \<and> retryable c))" for n
    using publish_loop.simps [of respond n] by (auto split: li_outcome.splits if_splits)
  from step [of 0] step [of 1] step [of 2] show ?thesis
    unfolding max_retries_def One_nat_def numeral_2_eq_2
    by (metis le_SucI le_refl less_Suc_eq less_irrefl not_less0 zero_le)
qed

text \<open>Publishing always comes to an end within three tries: the outcome is that of the first answer that is
  not worth retrying, or of the third; the answer is turned into a result by its status, revoked
  authorisation being reported as such, and a post that needs media without a link is refused before
  any request is made.\<close>

theorem publish_post_bounded:
  "if po_media_required post \<and> \<not> truthy (po_media_url post)
   then publish_post respond tok urn post = Inl (Other MediaRequiredError)
   else \<exists>n\<le>2. \<exists>answer. answer = respond (''Bearer '' @ tok) (build_ugc_body urn post)
     \<and> (\<forall>i<n. answer i = Li_Transport_Failure \<or> (\<exists>c b d h. answer i = Li_Response c b d h \<and> c \<in> {429, 500, 502, 503, 504}))
     \<and> publish_post respond tok urn post =
         (case answer n of Li_Transport_Failure \<Rightarrow> Inl (Other ProviderUnreachableError)
          | Li_Response c b d h \<Rightarrow> if c = 401 \<or> c = 403 then Inl (Revoked (''linkedin ugcPosts '' @ int_str c @ '': '' @ take 200 b))
                                   else accept_response c b d h)"
proof (cases "po_media_required post \<and> \<not> truthy (po_media_url post)")
  case False
  let ?r = "respond (''Bearer '' @ tok) (build_ugc_body urn post)"
  obtain n where n: "n \<le> 2" "\<forall>i<n. ?r i = Li_Transport_Failure \<or> (\<exists>c b d h. ?r i = Li_Response c b d h \<and> c \<in> {429, 500, 502, 503, 504})"
    "publish_loop ?r 0 = (case ?r n of Li_Transport_Failure \<Rightarrow> Inl (Other ProviderUnreachableError)
          | Li_Response c b d h \<Rightarrow> accept_response c b d h)"
    using publish_loop_last [of ?r] unfolding max_retries_def retryable_def by blast
  have "publish_post respond tok urn post = (case ?r n of Li_Transport_Failure \<Rightarrow> Inl (Other ProviderUnreachableError)
          | Li_Response c b d h \<Rightarrow> if c = 401 \<or> c = 403 then Inl (Revoked (''linkedin ugcPosts '' @ int_str c @ '': '' @ take 200 b))
                                   else accept_response c b d h)"
    unfolding publish_post_def if_not_P [OF False] n(3)
    by (cases "?r n") (simp_all add: accept_response_def raise_for_status_def)
  with n(1,2) show ?thesis unfolding if_not_P [OF False] by blast
qed (simp add: publish_post_def)

text \<open>A post is never published twice under one key: if the attempt recorded under the idempotency key was
  sent and has a post identifier, the tool returns that identifier whatever the connector would do.\<close>

theorem social_call_idempotent:
  assumes att: "filter (\<lambda>a. att_tenant_id a = tenant \<and> att_idempotency_key a = input_text inputs ''idempotency_key'')
      (attempts s) = [a]"
    and sent: "att_status a = ''sent''" "att_provider_message_id a = Some i" "i \<noteq> []"
    and call: "social_call conn tok tenant inputs s = Inr reply"
  shows "pb_post_id reply = i \<and> pb_idempotent_hit reply
    \<and> (\<forall>publish. social_call (conn\<lparr>sc_publish := publish\<rparr>) tok tenant inputs s = Inr reply)"
  using assms
  by (auto simp: social_call_def cached_attempt_def cached_reply_def Let_def split: if_splits option.splits)

section \<open>Concrete instances\<close>

definition demo_post :: social_post where
  "demo_post = \<lparr>po_text = ''Hi'', po_media_url = JNull, po_media_required = False, po_visibility = ''PUBLIC''\<rparr>"

theorem publish_post_bounded_witness:
  "\<exists>n\<le>2. publish_post (\<lambda>_ _ i. if i = 0 then Li_Transport_Failure else Li_Response 401 ''no'' None None) ''t'' ''urn'' demo_post
     = (case (if n = (0::nat) then Li_Transport_Failure else Li_Response 401 ''no'' None None) of
          Li_Transport_Failure \<Rightarrow> Inl (Other ProviderUnreachableError)
        | Li_Response c b d h \<Rightarrow> Inl (Revoked (''linkedin ugcPosts '' @ int_str c @ '': '' @ take 200 b)))"
  using publish_post_bounded [of demo_post "\<lambda>_ _ i. if i = 0 then Li_Transport_Failure else Li_Response 401 ''no'' None None" "''t''" "''urn''"]
  by (auto simp: demo_post_def split: if_splits)

definition demo_social_inputs :: dict where
  "demo_social_inputs = [(''idempotency_key'', JStr ''k''), (''platform'', JStr ''linkedin''), (''page_urn'', JStr ''u''),
     (''content'', JObj [(''text'', JStr ''Hi'')])]"

definition demo_sent :: dispatch_attempt where
  "demo_sent = \<lparr>att_tenant_id = 1, att_asset_id = 20, att_external_id = None, att_recipient = ''u'',
     att_idempotency_key = ''k'', att_provider = ''linkedin'', att_provider_message_id = Some ''p1'',
     att_status = ''sent'', att_count = 1, att_last_error = None, att_sent_at = Some 0\<rparr>"

theorem social_call_idempotent_witness:
  "\<exists>reply. social_call (linkedin_connector (\<lambda>_ _ _. Li_Transport_Failure)) ''t'' 1 demo_social_inputs
       (empty_db\<lparr>attempts := [demo_sent]\<rparr>) = Inr reply \<and> pb_post_id reply = ''p1''"
proof -
  let ?s = "empty_db\<lparr>attempts := [demo_sent]\<rparr>" and ?c = "linkedin_connector (\<lambda>_ _ _. Li_Transport_Failure)"
  have key: "input_text demo_social_inputs ''idempotency_key'' = ''k''" by code_simp
  have att: "filter (\<lambda>a. att_tenant_id a = 1 \<and> att_idempotency_key a = input_text demo_social_inputs ''idempotency_key'')
      (attempts ?s) = [demo_sent]" by (simp add: key demo_sent_def)
  have "(case social_call ?c ''t'' 1 demo_social_inputs ?s of Inr _ \<Rightarrow> True | Inl _ \<Rightarrow> False)" by code_simp
  then obtain reply where run: "social_call ?c ''t'' 1 demo_social_inputs ?s = Inr reply" by (auto split: sum.splits)
  have sent: "att_status demo_sent = ''sent''" "att_provider_message_id demo_sent = Some ''p1''" by (simp_all add: demo_sent_def)
  have "''p1'' \<noteq> ([] :: string)" by simp
  from social_call_idempotent [OF att sent this run] run show ?thesis by blast
qed

end
