(* ===== verification/Dispatch.thy ===== *)
theory Dispatch
  imports State_Machine Social_Tool Ab_Assignment
begin

text \<open>
  The dispatch half of \<^verbatim>\<open>app/agents/distribution.py\<close>: one scheduled e-mail asset sent to the campaign's
  audience (\<^verbatim>\<open>dispatch_email_asset\<close>) and one social post published on its channel
  (\<^verbatim>\<open>dispatch_social_asset\<close>), with their helpers. What lies outside the program is collected in
  \<open>outside\<close>: the hash behind the A/B split, the two providers, the token signer, configured secrets.
\<close>

record outside =
  out_hash :: "string \<Rightarrow> nat"
  out_post :: "string \<Rightarrow> json \<Rightarrow> http_outcome"
  out_respond :: "string \<Rightarrow> json \<Rightarrow> nat \<Rightarrow> li_outcome"
  out_dumps :: "string \<Rightarrow> dict \<Rightarrow> string"
  out_share_secret :: string
  out_batch_id :: uuid
  out_typed_column :: "string \<Rightarrow> kpi_op \<Rightarrow> analytic_event \<Rightarrow> bool"

section \<open>Audience\<close>

definition idempotency_key :: "uuid \<Rightarrow> string \<Rightarrow> string" where
  "idempotency_key asset email = ''asset:'' @ uuid_str asset @ '':recipient:'' @ py_lower email"

definition load_audience_members :: "uuid \<Rightarrow> db \<Rightarrow> audience_member list" where
  "load_audience_members campaign s =
     (case sort_key (\<lambda>a. - aud_created_at a) (filter (\<lambda>a. aud_campaign_id a = campaign) (audiences s)) of
        [] \<Rightarrow> []
      | a # _ \<Rightarrow> filter (\<lambda>m. mem_audience_id m = aud_id a) (members s))"

definition variant_test_for :: "content_asset \<Rightarrow> db \<Rightarrow> ab_test option" where
  "variant_test_for asset s =
     find_row (\<lambda>t. ab_tenant_id t = asset_tenant_id asset \<and> ab_status t = ABRunning
       \<and> (ab_variant_a_id t = Some (asset_id asset) \<or> ab_variant_b_id t = Some (asset_id asset))) (ab_tests s)"

definition running_ab_test_for_asset :: "content_asset \<Rightarrow> db \<Rightarrow> ab_test option" where
  "running_ab_test_for_asset asset s =
     (case dict_get (asset_metadata asset) ''ab_test_group_id'' of
        JStr raw \<Rightarrow>
          (case uuid_of_str raw of
             None \<Rightarrow> None
           | Some i \<Rightarrow>
               (case find_row (\<lambda>t. ab_id t = i) (ab_tests s) of
                  Some t \<Rightarrow> if ab_status t = ABRunning then Some t else variant_test_for asset s
                | None \<Rightarrow> variant_test_for asset s))
      | _ \<Rightarrow> variant_test_for asset s)"

text \<open>One member of the audience: whether the asset is meant for it, and the database with its
  assignment. A misconfigured test raises before anything is written and keeps the member.\<close>

definition keep_member ::
  "(string \<Rightarrow> nat) \<Rightarrow> content_asset \<Rightarrow> ab_test \<Rightarrow> audience_member \<Rightarrow> db \<Rightarrow> (bool \<times> db) res" where
  "keep_member hash asset test m s =
     (if mem_external_id m = [] then Inr (True, s)
      else case assign_variant hash (asset_tenant_id asset) (ab_id test) (mem_external_id m) s of
             Inr (v, s') \<Rightarrow> Inr (v = asset_id asset, s')
           | Inl err \<Rightarrow> if err = AbTestAssignmentError then Inr (True, s) else Inl err)"

fun filter_members ::
  "(string \<Rightarrow> nat) \<Rightarrow> content_asset \<Rightarrow> ab_test \<Rightarrow> audience_member list \<Rightarrow> db \<Rightarrow> (audience_member list \<times> db) res" where
  "filter_members hash asset test [] s = Inr ([], s)"
| "filter_members hash asset test (m # ms) s =
     (case keep_member hash asset test m s of
        Inl err \<Rightarrow> Inl err
      | Inr (keep, s') \<Rightarrow>
          map_sum id (\<lambda>(kept, s''). (if keep then m # kept else kept, s'')) (filter_members hash asset test ms s'))"

definition filter_audience_for_ab_test ::
  "(string \<Rightarrow> nat) \<Rightarrow> content_asset \<Rightarrow> audience_member list \<Rightarrow> db \<Rightarrow> (audience_member list \<times> db) res" where
  "filter_audience_for_ab_test hash asset ms s =
     (case running_ab_test_for_asset asset s of
        None \<Rightarrow> Inr (ms, s)
      | Some t \<Rightarrow> filter_members hash asset t ms s)"

section \<open>Who must not be written to\<close>

definition member_email :: "audience_member \<Rightarrow> string" where
  "member_email m = py_lower (py_strip (py_str (dict_get_default (mem_payload m) ''email'' (JStr []))))"

definition existing_attempts :: "uuid \<Rightarrow> db \<Rightarrow> string set" where
  "existing_attempts asset s =
     py_lower ` att_recipient ` set (filter (\<lambda>a. att_asset_id a = asset \<and> att_status a = ''sent'') (attempts s))"

text \<open>\<^verbatim>\<open>{r.strip().lower() for r in recipients if r}\<close>: a true value that is no string has no \<^verbatim>\<open>strip\<close>.\<close>

definition normalised_recipients :: "json list \<Rightarrow> string set res" where
  "normalised_recipients rs =
     (if list_ex (\<lambda>r. truthy r \<and> as_str r = None) rs then Inl AttributeError
      else Inr ((py_lower \<circ> py_strip) ` set (List.map_filter as_str (filter truthy rs))))"

definition dedup_window :: duration where "dedup_window = hours 24"

definition sent_since :: "uuid \<Rightarrow> instant \<Rightarrow> string set \<Rightarrow> db \<Rightarrow> dispatch_attempt list" where
  "sent_since tenant cutoff who s =
     filter (\<lambda>a. att_tenant_id a = tenant \<and> att_status a = ''sent''
       \<and> (case att_sent_at a of None \<Rightarrow> False | Some t \<Rightarrow> cutoff \<le> t) \<and> py_lower (att_recipient a) \<in> who) (attempts s)"

definition recent_sent_recipients :: "env \<Rightarrow> uuid \<Rightarrow> json list \<Rightarrow> db \<Rightarrow> string set res" where
  "recent_sent_recipients e tenant rs s =
     map_sum id (\<lambda>who. if who = {} then {}
         else py_lower ` att_recipient ` set (sent_since tenant (env_now e - dedup_window) who s))
       (normalised_recipients rs)"

definition capped_recipients :: "env \<Rightarrow> uuid \<Rightarrow> channel_platform \<Rightarrow> string list \<Rightarrow> db \<Rightarrow> string set res" where
  "capped_recipients e tenant platform candidates s =
     (let who = (py_lower \<circ> py_strip) ` set (filter (\<lambda>c. c \<noteq> []) candidates)
      in if who = {} then Inr {}
         else case scalar_one_or_none (filter (\<lambda>c. fc_tenant_id c = tenant \<and> fc_platform c = platform \<and> fc_enabled c)
                     (frequency_caps s)) of
                None \<Rightarrow> Inl MultipleResultsFound
              | Some None \<Rightarrow> Inr {}
              | Some (Some c) \<Rightarrow>
                  (let rows = sent_since tenant (env_now e - days (fc_window_days c)) who s;
                       key = (\<lambda>a. py_lower (att_recipient a))
                   in Inr (key ` set (filter (\<lambda>a. fc_max_sends c \<le> int (length (filter (\<lambda>b. key b = key a) rows))) rows))))"

datatype fate = Blank | Deduped | Capped | Send

definition fate_of :: "string set \<Rightarrow> string set \<Rightarrow> string set \<Rightarrow> string \<Rightarrow> fate" where
  "fate_of existing recent capped email =
     (if email = [] then Blank
      else if email \<in> existing \<or> email \<in> recent then Deduped
      else if email \<in> capped then Capped
      else Send)"

section \<open>Attempt rows\<close>

definition new_attempt ::
  "content_asset \<Rightarrow> string option \<Rightarrow> string \<Rightarrow> string \<Rightarrow> string \<Rightarrow> string option \<Rightarrow> string \<Rightarrow> string option
     \<Rightarrow> instant option \<Rightarrow> dispatch_attempt" where
  "new_attempt asset external recipient key provider message_id status err sent_at =
     \<lparr>att_tenant_id = asset_tenant_id asset, att_asset_id = asset_id asset, att_external_id = external,
      att_recipient = recipient, att_idempotency_key = key, att_provider = provider,
      att_provider_message_id = message_id, att_status = status, att_count = 1, att_last_error = err,
      att_sent_at = sent_at\<rparr>"

definition same_attempt_key :: "dispatch_attempt \<Rightarrow> dispatch_attempt \<Rightarrow> bool" where
  "same_attempt_key a b \<longleftrightarrow> att_tenant_id b = att_tenant_id a \<and> att_idempotency_key b = att_idempotency_key a"

definition upsert_dispatch_attempt :: "dispatch_attempt \<Rightarrow> db \<Rightarrow> db" where
  "upsert_dispatch_attempt a s =
     s\<lparr>attempts :=
        (if list_ex (same_attempt_key a) (attempts s)
         then update_where (\<lambda>b. same_attempt_key a b \<and> att_status b \<noteq> ''sent'')
                (\<lambda>b. b\<lparr>att_count := att_count b + 1, att_last_error := att_last_error a\<rparr>) (attempts s)
         else attempts s @ [a])\<rparr>"

section \<open>The batch\<close>

definition load_email_connector :: "outside \<Rightarrow> uuid \<Rightarrow> db \<Rightarrow> (email_connector \<times> dict) res" where
  "load_email_connector out tenant s =
     (case scalar_one_or_none (filter (\<lambda>c. cred_tenant_id c = tenant \<and> cred_provider c = ''sendgrid'') (credentials s)) of
        None \<Rightarrow> Inl MultipleResultsFound
      | Some None \<Rightarrow> Inl DistributionPreconditionError
      | Some (Some c) \<Rightarrow>
          map_sum id (\<lambda>conn. (conn, cred_payload c)) (build_email_connector (out_post out) (cred_provider c) (cred_payload c)))"

definition message_from_asset :: "content_asset \<Rightarrow> dict res" where
  "message_from_asset asset =
     (case or_dict (dict_get (asset_metadata asset) ''fields'') of
        None \<Rightarrow> Inl AttributeError
      | Some f \<Rightarrow>
          (let subject = dict_get f ''subject'';
               body = JStr (case asset_content asset of Some b \<Rightarrow> b | None \<Rightarrow> []);
               title = (case asset_title asset of Some t \<Rightarrow> t | None \<Rightarrow> [])
           in Inr [(''subject'', JStr (if truthy subject then py_str subject
                                       else if title \<noteq> [] then title else ''(no subject)'')),
                   (''text_body'', body), (''html_body'', body), (''headers'', JObj [])]))"

definition string_only_payload :: "dict \<Rightarrow> dict" where
  "string_only_payload d =
     List.map_filter (\<lambda>(k, v). case v of JStr _ \<Rightarrow> Some (k, JStr (py_str v)) | JInt _ \<Rightarrow> Some (k, JStr (py_str v))
       | JFloat _ \<Rightarrow> Some (k, JStr (py_str v)) | _ \<Rightarrow> None) d"

definition compliance_row :: "uuid \<Rightarrow> db \<Rightarrow> compliance_settings option res" where
  "compliance_row tenant s =
     (case scalar_one_or_none (filter (\<lambda>r. cs_tenant_id r = tenant) (compliance_settings_rows s)) of
        None \<Rightarrow> Inl MultipleResultsFound | Some r \<Rightarrow> Inr r)"

definition build_compliance_footer :: "uuid \<Rightarrow> db \<Rightarrow> dict option res" where
  "build_compliance_footer tenant s =
     map_sum id (\<lambda>row. case row of None \<Rightarrow> None
         | Some r \<Rightarrow> (case cs_postal_address r of None \<Rightarrow> None
             | Some a \<Rightarrow> if a = [] then None
                 else Some [(''unsubscribe_url'', JStr ''{{unsubscribe_url}}''), (''postal_address'', JStr a)]))
       (compliance_row tenant s)"

definition token_payload :: "uuid \<Rightarrow> string \<Rightarrow> dict" where
  "token_payload tenant email =
     [(''tenant_id'', JStr (uuid_str tenant)), (''channel_platform'', JStr ''email''),
      (''identifier'', JStr (py_lower email))]"

definition unsubscribe_secret :: "outside \<Rightarrow> compliance_settings option \<Rightarrow> string" where
  "unsubscribe_secret out row =
     (case row of None \<Rightarrow> out_share_secret out
      | Some r \<Rightarrow> (case cs_unsubscribe_secret r of None \<Rightarrow> out_share_secret out
          | Some k \<Rightarrow> if k = [] then out_share_secret out else k))"

definition unsubscribe_token :: "outside \<Rightarrow> compliance_settings option \<Rightarrow> uuid \<Rightarrow> string \<Rightarrow> string" where
  "unsubscribe_token out row tenant email = out_dumps out (unsubscribe_secret out row) (token_payload tenant email)"

definition build_unsubscribe_signer :: "outside \<Rightarrow> uuid \<Rightarrow> db \<Rightarrow> (string \<Rightarrow> string) res" where
  "build_unsubscribe_signer out tenant s =
     map_sum id (\<lambda>row email. ''https://app.example.com/api/unsubscribe/'' @ unsubscribe_token out row tenant email)
       (compliance_row tenant s)"

definition batch_entry :: "(string \<Rightarrow> string) option \<Rightarrow> audience_member \<Rightarrow> json" where
  "batch_entry signer m =
     (let mf = string_only_payload (mem_payload m);
          email = member_email m;
          mf' = (case signer of None \<Rightarrow> mf | Some f \<Rightarrow> dict_set mf ''unsubscribe_url'' (JStr (f email)))
      in JObj [(''email'', JStr email), (''merge_fields'', JObj mf')])"

definition tool_inputs :: "dict \<Rightarrow> content_asset \<Rightarrow> dict \<Rightarrow> dict option \<Rightarrow> (string \<Rightarrow> string) option
    \<Rightarrow> audience_member list \<Rightarrow> dict" where
  "tool_inputs payload asset message footer signer ms =
     (let from_email = dict_get payload ''default_from_email''
      in [(''from_email'', if truthy from_email then from_email else JStr []),
          (''audience_batch'', JArr (map (batch_entry signer) ms)),
          (''message'', JObj message),
          (''idempotency_key'', JStr (''asset:'' @ uuid_str (asset_id asset)))]
         @ (case footer of None \<Rightarrow> [] | Some f \<Rightarrow> [(''compliance_footer'', JObj f)]))"

definition signer_for :: "outside \<Rightarrow> uuid \<Rightarrow> dict option \<Rightarrow> db \<Rightarrow> (string \<Rightarrow> string) option res" where
  "signer_for out tenant footer s =
     (case footer of None \<Rightarrow> Inr None | Some _ \<Rightarrow> map_sum id Some (build_unsubscribe_signer out tenant s))"

text \<open>What the tool is called with for the members to write to.\<close>

definition batch_inputs ::
  "outside \<Rightarrow> dict \<Rightarrow> content_asset \<Rightarrow> dict option \<Rightarrow> audience_member list \<Rightarrow> db \<Rightarrow> dict res" where
  "batch_inputs out payload asset footer ms s =
     (case message_from_asset asset of
        Inl err \<Rightarrow> Inl err
      | Inr message \<Rightarrow>
          map_sum id (\<lambda>signer. tool_inputs payload asset message footer signer ms)
            (signer_for out (asset_tenant_id asset) footer s))"

section \<open>Outcomes\<close>

definition outcome_attempt ::
  "env \<Rightarrow> content_asset \<Rightarrow> string \<Rightarrow> email_result \<Rightarrow> audience_member \<Rightarrow> dispatch_attempt" where
  "outcome_attempt e asset provider r m =
     (let email = member_email m;
          low = map (\<lambda>(k, v). (py_lower k, v));
          row = new_attempt asset (Some (mem_external_id m)) email (idempotency_key (asset_id asset) email) provider
      in case map_of (rev (low (rs_per_message_ids r))) email of
           Some i \<Rightarrow> row (Some i) ''sent'' None (Some (env_now e))
         | None \<Rightarrow>
             (case map_of (rev (low (rs_rejections r))) email of
                Some reason \<Rightarrow>
                  row None (if reason = ''suppressed'' then ''suppressed'' else ''rejected'') (Some reason) None
              | None \<Rightarrow> row None ''failed'' (Some ''no_provider_acknowledgement'') None))"

definition skipped_attempt :: "content_asset \<Rightarrow> string \<Rightarrow> audience_member \<Rightarrow> dispatch_attempt" where
  "skipped_attempt asset provider m =
     new_attempt asset (Some (mem_external_id m)) (member_email m) (idempotency_key (asset_id asset) (member_email m))
       provider None ''skipped'' (Some ''frequency_cap'') None"

definition count_status :: "string list \<Rightarrow> dispatch_attempt list \<Rightarrow> nat" where
  "count_status sts rows = length (filter (\<lambda>a. att_status a \<in> set sts) rows)"

definition dispatch_summary :: "dispatch_attempt list \<Rightarrow> nat \<Rightarrow> nat \<Rightarrow> nat \<Rightarrow> bool \<Rightarrow> dict" where
  "dispatch_summary rows skipped deduped audience_size footer =
     (let sent = count_status [''sent''] rows;
          suppressed = count_status [''suppressed''] rows;
          rejected = count_status [''rejected'', ''failed''] rows
      in [(''sent'', JInt (int sent)), (''suppressed'', JInt (int suppressed)), (''rejected'', JInt (int rejected)),
          (''skipped'', JInt (int skipped)), (''deduped'', JInt (int deduped)), (''audience_size'', JInt (int audience_size))]
         @ (if sent = 0 \<and> 0 < skipped + suppressed + rejected
            then [(''skip_reason'', JStr (if suppressed \<le> skipped \<and> rejected \<le> skipped then ''frequency_cap''
                     else if rejected \<le> suppressed then ''suppressed'' else ''rejected''))] else [])
         @ (if footer then [(''compliance_footer_injected'', JBool True)] else []))"

definition published :: "env \<Rightarrow> dict \<Rightarrow> string \<Rightarrow> content_asset \<Rightarrow> content_asset" where
  "published e summary provider a =
     a\<lparr>asset_status_of := APublished, asset_published_at := Some (env_now e),
       asset_metadata := dict_merge (asset_metadata a)
         [(''dispatch_summary'', JObj summary), (''dispatch_provider'', JStr provider)]\<rparr>"

text \<open>The members by fate, and what is written for them.\<close>

definition barred ::
  "env \<Rightarrow> content_asset \<Rightarrow> audience_member list \<Rightarrow> db \<Rightarrow> (string \<Rightarrow> fate) res" where
  "barred e asset ms s =
     (let paying = filter (\<lambda>m. mem_payload m \<noteq> []) ms
      in case recent_sent_recipients e (asset_tenant_id asset)
                (map (\<lambda>m. dict_get_default (mem_payload m) ''email'' (JStr [])) paying) s of
           Inl err \<Rightarrow> Inl err
         | Inr recent \<Rightarrow>
             map_sum id (\<lambda>capped. fate_of (existing_attempts (asset_id asset) s) recent capped)
               (capped_recipients e (asset_tenant_id asset) PEmail (map member_email paying) s))"

definition members_of_fate :: "(string \<Rightarrow> fate) \<Rightarrow> fate \<Rightarrow> audience_member list \<Rightarrow> audience_member list" where
  "members_of_fate f x ms = filter (\<lambda>m. f (member_email m) = x) ms"

text \<open>The rows to record: one per member written to, none if nobody is left.\<close>

definition send_rows ::
  "outside \<Rightarrow> env \<Rightarrow> email_connector \<Rightarrow> dict \<Rightarrow> content_asset \<Rightarrow> dict option \<Rightarrow> audience_member list \<Rightarrow> db
     \<Rightarrow> dispatch_attempt list res" where
  "send_rows out e conn payload asset footer ms s =
     (if ms = [] then Inr []
      else case batch_inputs out payload asset footer ms s of
             Inl err \<Rightarrow> Inl err
           | Inr inputs \<Rightarrow>
               map_sum id (\<lambda>r. map (outcome_attempt e asset (conn_provider conn) r) ms)
                 (email_call conn (out_batch_id out) (asset_tenant_id asset) inputs s))"

definition publish_asset :: "env \<Rightarrow> content_asset \<Rightarrow> dict \<Rightarrow> string \<Rightarrow> db \<Rightarrow> db" where
  "publish_asset e asset summary provider s =
     write_audit e (asset_tenant_id asset) ''content_asset'' (asset_id asset) ''published''
       (Some (SnapAsset asset)) (Some (SnapAsset (published e summary provider asset)))
       [(''dispatch_summary'', JObj summary)]
       (modify_asset e (asset_id asset) (published e summary provider) s)"

definition send_to_audience ::
  "outside \<Rightarrow> env \<Rightarrow> email_connector \<Rightarrow> dict \<Rightarrow> content_asset \<Rightarrow> audience_member list \<Rightarrow> (string \<Rightarrow> fate) \<Rightarrow> db
     \<Rightarrow> (dict \<times> db) res" where
  "send_to_audience out e conn payload asset ms f s =
     (let capped = members_of_fate f Capped ms;
          s1 = fold (\<lambda>m. upsert_dispatch_attempt (skipped_attempt asset (conn_provider conn) m)) capped s
      in case build_compliance_footer (asset_tenant_id asset) s1 of
           Inl err \<Rightarrow> Inl err
         | Inr footer \<Rightarrow>
             map_sum id (\<lambda>rows.
                 let summary = dispatch_summary rows (length capped) (length (members_of_fate f Deduped ms)) (length ms) (footer \<noteq> None)
                 in (summary, publish_asset e asset summary (conn_provider conn) (fold upsert_dispatch_attempt rows s1)))
               (send_rows out e conn payload asset footer (members_of_fate f Send ms) s1))"

datatype dispatch_outcome = Campaign_Paused | Dispatched dict

definition dispatch_email_asset :: "outside \<Rightarrow> env \<Rightarrow> uuid \<Rightarrow> db \<Rightarrow> (dispatch_outcome \<times> db) res" where
  "dispatch_email_asset out e i s =
     (case get_asset i s of
        None \<Rightarrow> Inl DistributionPreconditionError
      | Some asset \<Rightarrow>
          if asset_status_of asset \<noteq> AScheduled then Inl DistributionPreconditionError
          else case get_campaign (asset_campaign_id asset) s of
            None \<Rightarrow> Inl DistributionPreconditionError
          | Some camp \<Rightarrow>
              if camp_status camp = Paused then Inr (Campaign_Paused, s)
              else if asset_type_of asset \<noteq> TEmail then Inl DistributionPreconditionError
              else case load_email_connector out (asset_tenant_id asset) s of
                Inl err \<Rightarrow> Inl err
              | Inr (conn, payload) \<Rightarrow>
                  if load_audience_members (asset_campaign_id asset) s = [] then Inl DistributionPreconditionError
                  else case filter_audience_for_ab_test (out_hash out) asset
                              (load_audience_members (asset_campaign_id asset) s) s of
                    Inl err \<Rightarrow> Inl err
                  | Inr (ms, s1) \<Rightarrow>
                      (case barred e asset ms s1 of
                         Inl err \<Rightarrow> Inl err
                       | Inr f \<Rightarrow>
                           (case send_to_audience out e conn payload asset ms f s1 of
                              Inl err \<Rightarrow> Inl err
                            | Inr (summary, s2) \<Rightarrow>
                                map_sum id (\<lambda>s3. (Dispatched summary, s3))
                                  (maybe_go_live (campaign_sm (out_typed_column out)) e camp s2))))"

section \<open>Social dispatch\<close>

definition social_text_from_asset :: "content_asset \<Rightarrow> string res" where
  "social_text_from_asset asset =
     (case or_dict (dict_get (asset_metadata asset) ''fields'') of
        None \<Rightarrow> Inl AttributeError
      | Some f \<Rightarrow>
          Inr (case filter (\<lambda>v. v \<noteq> []) (map py_strip (List.map_filter (as_str \<circ> dict_get f) [''body'', ''text'', ''headline''])) of
                 v # _ \<Rightarrow> v
               | [] \<Rightarrow>
                   (case asset_content asset of
                      Some (c # cs) \<Rightarrow> c # cs
                    | _ \<Rightarrow> (case asset_title asset of Some t \<Rightarrow> t | None \<Rightarrow> []))))"

definition channel_provider :: "channel \<Rightarrow> string" where
  "channel_provider ch =
     (let v = dict_get (ch_api_config ch) ''provider'' in if truthy v then py_str v else platform_value (ch_platform ch))"

definition channel_page_urn :: "channel \<Rightarrow> string" where
  "channel_page_urn ch =
     (let v = dict_get (ch_api_config ch) ''page_urn'' in if truthy v then py_str v else [])"

text \<open>The connector and the decrypted access token for the channel; only LinkedIn has a client
  configuration.\<close>

definition load_social_connector :: "outside \<Rightarrow> channel \<Rightarrow> db \<Rightarrow> (social_connector \<times> json) res" where
  "load_social_connector out ch s =
     (let provider = channel_provider ch
      in case scalar_one_or_none (filter (\<lambda>c. cred_channel_id c = Some (ch_id ch) \<and> cred_provider c = provider) (credentials s)) of
           None \<Rightarrow> Inl MultipleResultsFound
         | Some None \<Rightarrow> Inl DistributionPreconditionError
         | Some (Some c) \<Rightarrow>
             if provider \<noteq> ''linkedin'' then Inl DistributionPreconditionError
             else case map_of (cred_payload c) ''access_token'' of
                    None \<Rightarrow> Inl KeyError
                  | Some tok \<Rightarrow> Inr (linkedin_connector (out_respond out), tok))"

definition social_key :: "content_asset \<Rightarrow> channel \<Rightarrow> string" where
  "social_key asset ch = ''asset:'' @ uuid_str (asset_id asset) @ '':channel:'' @ uuid_str (ch_id ch)"

definition social_inputs :: "content_asset \<Rightarrow> channel \<Rightarrow> string \<Rightarrow> dict" where
  "social_inputs asset ch body =
     [(''platform'', JStr (channel_provider ch)), (''page_urn'', JStr (channel_page_urn ch)),
      (''content'', JObj [(''text'', JStr body), (''media_url'', dict_get (asset_metadata asset) ''media_url''),
         (''media_required'', JBool (truthy (dict_get (asset_metadata asset) ''media_required'')))]),
      (''idempotency_key'', JStr (social_key asset ch))]"

definition revoked_asset :: "string \<Rightarrow> content_asset \<Rightarrow> content_asset" where
  "revoked_asset message a =
     set_meta ''dispatch_error'' (JObj [(''kind'', JStr ''oauth_revoked''), (''message'', JStr message)])
       (a\<lparr>asset_status_of := AFailed\<rparr>)"

definition published_post :: "env \<Rightarrow> channel \<Rightarrow> publish_reply \<Rightarrow> content_asset \<Rightarrow> content_asset" where
  "published_post e ch r a =
     a\<lparr>asset_status_of := APublished, asset_published_at := Some (env_now e),
       asset_metadata := dict_merge (asset_metadata a)
         [(''social_post'', JObj [(''provider'', JStr (channel_provider ch)), (''provider_post_id'', JStr (pb_post_id r)),
             (''url'', JStr (pb_url r)), (''idempotent_hit'', JBool (pb_idempotent_hit r))]),
          (''dispatch_summary'', JObj [(''sent'', JInt (if pb_idempotent_hit r then 0 else 1)),
             (''idempotent_hits'', JInt (if pb_idempotent_hit r then 1 else 0)), (''audience_size'', JInt 1)]),
          (''dispatch_provider'', JStr (channel_provider ch))]\<rparr>"

definition record_post :: "env \<Rightarrow> content_asset \<Rightarrow> channel \<Rightarrow> publish_reply \<Rightarrow> db \<Rightarrow> db" where
  "record_post e asset ch r s =
     write_audit e (asset_tenant_id asset) ''content_asset'' (asset_id asset) ''published''
       (Some (SnapAsset asset)) (Some (SnapAsset (published_post e ch r asset)))
       [(''provider'', JStr (channel_provider ch)), (''provider_post_id'', JStr (pb_post_id r))]
       (modify_asset e (asset_id asset) (published_post e ch r)
          (upsert_dispatch_attempt
             (new_attempt asset None (channel_page_urn ch) (social_key asset ch) (channel_provider ch)
                (Some (pb_post_id r)) ''sent'' None (Some (env_now e))) s))"

datatype social_outcome = Social_Paused | Social_Revoked string | Social_Posted string string

definition dispatch_social_asset :: "outside \<Rightarrow> env \<Rightarrow> uuid \<Rightarrow> db \<Rightarrow> (social_outcome \<times> db) res" where
  "dispatch_social_asset out e i s =
     (case get_asset i s of
        None \<Rightarrow> Inl DistributionPreconditionError
      | Some asset \<Rightarrow>
          if asset_status_of asset \<noteq> AScheduled \<or> asset_type_of asset \<noteq> TSocialPost then Inl DistributionPreconditionError
          else case asset_channel_id asset of
            None \<Rightarrow> Inl DistributionPreconditionError
          | Some cid \<Rightarrow>
            (case get_campaign (asset_campaign_id asset) s of
               None \<Rightarrow> Inl DistributionPreconditionError
             | Some camp \<Rightarrow>
                 if camp_status camp = Paused then Inr (Social_Paused, s)
                 else case find_row (\<lambda>c. ch_id c = cid) (channels s) of
                   None \<Rightarrow> Inl DistributionPreconditionError
                 | Some ch \<Rightarrow>
                     if channel_page_urn ch = [] then Inl DistributionPreconditionError
                     else case load_social_connector out ch s of
                       Inl err \<Rightarrow> Inl err
                     | Inr (conn, tok) \<Rightarrow>
                         (case social_text_from_asset asset of
                            Inl err \<Rightarrow> Inl err
                          | Inr body \<Rightarrow>
                              (case social_call conn (py_str tok) (asset_tenant_id asset) (social_inputs asset ch body) s of
                                 Inl (Other err) \<Rightarrow> Inl err
                               | Inl (Revoked message) \<Rightarrow>
                                   Inr (Social_Revoked message,
                                     modify_asset e (asset_id asset) (revoked_asset message)
                                       (pause_campaign_on_oauth_revoked e camp cid (channel_provider ch) s))
                               | Inr r \<Rightarrow>
                                   map_sum id (\<lambda>s'. (Social_Posted (pb_post_id r) (pb_url r), s'))
                                     (maybe_go_live (campaign_sm (out_typed_column out)) e camp (record_post e asset ch r s))))))"

section \<open>What the steps leave alone\<close>

lemma upsert_frame [simp]:
  "assets (upsert_dispatch_attempt a s) = assets s" "campaigns (upsert_dispatch_attempt a s) = campaigns s"
  "suppressions (upsert_dispatch_attempt a s) = suppressions s" "tasks (upsert_dispatch_attempt a s) = tasks s"
  "audit_log (upsert_dispatch_attempt a s) = audit_log s"
  by (simp_all add: upsert_dispatch_attempt_def)

lemma fold_upsert_frame [simp]:
  "assets (fold upsert_dispatch_attempt rows s) = assets s" "campaigns (fold upsert_dispatch_attempt rows s) = campaigns s"
  "suppressions (fold upsert_dispatch_attempt rows s) = suppressions s" "tasks (fold upsert_dispatch_attempt rows s) = tasks s"
  by (induction rows arbitrary: s) simp_all

lemma fold_upsert_map: "fold (\<lambda>m. upsert_dispatch_attempt (f m)) ms s = fold upsert_dispatch_attempt (map f ms) s"
  by (simp add: fold_map comp_def)

text \<open>An upsert never invents or changes a sent row: a sent row afterwards was there before or is the new one.\<close>

lemma upsert_sent:
  "b \<in> set (attempts (upsert_dispatch_attempt a s)) \<Longrightarrow> att_status b = ''sent'' \<Longrightarrow> b \<in> set (attempts s) \<or> b = a"
  by (auto simp: upsert_dispatch_attempt_def elim!: in_update_whereE split: if_splits)

lemma fold_upsert_sent:
  "b \<in> set (attempts (fold upsert_dispatch_attempt rows s)) \<Longrightarrow> att_status b = ''sent'' \<Longrightarrow>
     b \<in> set (attempts s) \<or> b \<in> set rows"
proof (induction rows arbitrary: s)
  case (Cons a rows)
  then have "b \<in> set (attempts (upsert_dispatch_attempt a s)) \<or> b \<in> set rows" by simp
  with upsert_sent [of b a s] Cons.prems(2) show ?case by auto
qed simp

lemma upsert_keeps_sent:
  "b \<in> set (attempts s) \<Longrightarrow> att_status b = ''sent'' \<Longrightarrow> b \<in> set (attempts (upsert_dispatch_attempt a s))"
  by (auto simp: upsert_dispatch_attempt_def set_update_where image_iff intro!: bexI [of _ b])

lemma fold_upsert_keeps_sent:
  "b \<in> set (attempts s) \<Longrightarrow> att_status b = ''sent'' \<Longrightarrow> b \<in> set (attempts (fold upsert_dispatch_attempt rows s))"
  by (induction rows arbitrary: s) (auto intro: upsert_keeps_sent)

lemma upsert_has_key: "\<exists>b\<in>set (attempts (upsert_dispatch_attempt a s)). same_attempt_key a b"
proof (cases "list_ex (same_attempt_key a) (attempts s)")
  case True
  then obtain b where b: "b \<in> set (attempts s)" "same_attempt_key a b" by (auto simp: list_ex_iff)
  let ?f = "\<lambda>b. b\<lparr>att_count := att_count b + 1, att_last_error := att_last_error a\<rparr>"
  let ?P = "\<lambda>b. same_attempt_key a b \<and> att_status b \<noteq> ''sent''"
  have "(if ?P b then ?f b else b) \<in> set (attempts (upsert_dispatch_attempt a s))"
    using True b(1) by (auto simp: upsert_dispatch_attempt_def set_update_where)
  moreover have "same_attempt_key a (if ?P b then ?f b else b)" using b(2) by (auto simp: same_attempt_key_def)
  ultimately show ?thesis by blast
qed (simp add: upsert_dispatch_attempt_def same_attempt_key_def)

lemma upsert_keeps_key:
  assumes "\<exists>b\<in>set (attempts s). same_attempt_key c b"
  shows "\<exists>b\<in>set (attempts (upsert_dispatch_attempt a s)). same_attempt_key c b"
proof -
  obtain b where b: "b \<in> set (attempts s)" "same_attempt_key c b" using assms by blast
  let ?f = "\<lambda>b. b\<lparr>att_count := att_count b + 1, att_last_error := att_last_error a\<rparr>"
  let ?P = "\<lambda>b. same_attempt_key a b \<and> att_status b \<noteq> ''sent''"
  have "b \<in> set (attempts (upsert_dispatch_attempt a s)) \<or> ?f b \<in> set (attempts (upsert_dispatch_attempt a s))"
    using b(1) by (auto simp: upsert_dispatch_attempt_def set_update_where)
  moreover have "same_attempt_key c (?f b)" using b(2) by (simp add: same_attempt_key_def)
  ultimately show ?thesis using b(2) by blast
qed

lemma fold_upsert_keys:
  "a \<in> set rows \<or> (\<exists>b\<in>set (attempts s). same_attempt_key a b) \<Longrightarrow>
     \<exists>b\<in>set (attempts (fold upsert_dispatch_attempt rows s)). same_attempt_key a b"
proof (induction rows arbitrary: s)
  case (Cons r rows)
  consider "a = r" | "a \<in> set rows" | "\<exists>b\<in>set (attempts s). same_attempt_key a b" using Cons.prems by auto
  then have "a \<in> set rows \<or> (\<exists>b\<in>set (attempts (upsert_dispatch_attempt r s)). same_attempt_key a b)"
  proof cases
    case 1
    then show ?thesis using upsert_has_key by blast
  next
    case 3
    then show ?thesis using upsert_keeps_key by blast
  qed simp
  from Cons.IH [OF this] show ?case by simp
qed simp

lemma assign_variant_frame:
  assumes "assign_variant hash ten t ext s = Inr (v, s')"
  shows "\<exists>l. s' = s\<lparr>assignments := l\<rparr>"
proof -
  have "s' = s \<or> (\<exists>l. s' = s\<lparr>assignments := l\<rparr>)"
    using assms by (fastforce simp: assign_variant_def split: option.splits sum.splits)
  moreover have "s = s\<lparr>assignments := assignments s\<rparr>" by simp
  ultimately show ?thesis by metis
qed

lemma keep_member_frame:
  assumes "keep_member hash asset t m s = Inr (keep, s')"
  shows "\<exists>l. s' = s\<lparr>assignments := l\<rparr>"
proof -
  have self: "\<exists>l. s = s\<lparr>assignments := l\<rparr>" by (rule exI [of _ "assignments s"]) simp
  show ?thesis using assms self
    by (auto simp: keep_member_def dest!: assign_variant_frame split: if_splits sum.splits)
qed

lemma filter_members_frame:
  "filter_members hash asset t ms s = Inr (kept, s') \<Longrightarrow> (\<exists>l. s' = s\<lparr>assignments := l\<rparr>) \<and> set kept \<subseteq> set ms"
proof (induction ms arbitrary: s kept)
  case Nil
  then show ?case by (auto intro: exI [of _ "assignments s"])
next
  case (Cons m ms)
  then obtain keep s1 kept1 where s1: "keep_member hash asset t m s = Inr (keep, s1)"
    and rest: "filter_members hash asset t ms s1 = Inr (kept1, s')" "kept = (if keep then m # kept1 else kept1)"
    by (auto split: sum.splits)
  from keep_member_frame [OF s1] Cons.IH [OF rest(1)] rest(2) show ?case by auto
qed

lemma filter_audience_frame:
  "filter_audience_for_ab_test hash asset ms s = Inr (kept, s') \<Longrightarrow> (\<exists>l. s' = s\<lparr>assignments := l\<rparr>) \<and> set kept \<subseteq> set ms"
  by (auto simp: filter_audience_for_ab_test_def split: option.splits dest: filter_members_frame
      intro: exI [of _ "assignments s"])

lemma maybe_go_live_frame:
  assumes "maybe_go_live (campaign_sm tc) e camp s = Inr s'"
  shows "attempts s' = attempts s \<and> assets s' = assets s \<and> tasks s' = tasks s"
proof -
  have "attempts s1 = attempts s \<and> assets s1 = assets s \<and> tasks s1 = tasks s"
    if run: "apply_transition (campaign_sm tc) e camp ''start_live'' s = Inr (c, s1)" for c s1
  proof -
    from run obtain tr s2 where tr: "tr \<in> set (builtin_transitions tc)" "tr_name tr = ''start_live''"
      and s2: "s2 = write_audit e (camp_tenant_id camp) ''campaign'' (camp_id camp) ''transition_applied''
            (Some (status_dict (camp_status camp))) (Some (status_dict (tr_to tr))) [(''transition'', JStr ''start_live'')]
            (modify_campaign (camp_id camp) (\<lambda>c. c\<lparr>camp_status := tr_to tr\<rparr>) s)"
        "case tr_on_enter tr of None \<Rightarrow> s1 = s2 | Some h \<Rightarrow> h e c s2 = Inr s1"
      by (rule apply_transition_Inr)
    with builtin_named(3) [OF tr] show ?thesis by simp
  qed
  then show ?thesis
    using assms by (auto simp: maybe_go_live_def try_apply_Some split: if_splits option.splits)
qed

section \<open>Runs of the e-mail dispatcher\<close>

lemma dispatch_email_run:
  assumes "dispatch_email_asset out e i s = Inr (Dispatched summary, s')"
  obtains asset camp conn payload ms l f s2 where
    "get_asset i s = Some asset" "asset_status_of asset = AScheduled" "asset_type_of asset = TEmail"
    "get_campaign (asset_campaign_id asset) s = Some camp" "camp_status camp \<noteq> Paused"
    "load_email_connector out (asset_tenant_id asset) s = Inr (conn, payload)"
    "filter_audience_for_ab_test (out_hash out) asset (load_audience_members (asset_campaign_id asset) s) s = Inr (ms, s\<lparr>assignments := l\<rparr>)"
    "set ms \<subseteq> set (load_audience_members (asset_campaign_id asset) s)"
    "barred e asset ms (s\<lparr>assignments := l\<rparr>) = Inr f"
    "send_to_audience out e conn payload asset ms f (s\<lparr>assignments := l\<rparr>) = Inr (summary, s2)"
    "maybe_go_live (campaign_sm (out_typed_column out)) e camp s2 = Inr s'"
proof -
  from assms obtain asset camp conn payload ms s1 f s2 where
    run: "get_asset i s = Some asset" "asset_status_of asset = AScheduled" "asset_type_of asset = TEmail"
    "get_campaign (asset_campaign_id asset) s = Some camp" "camp_status camp \<noteq> Paused"
    "load_email_connector out (asset_tenant_id asset) s = Inr (conn, payload)"
    "filter_audience_for_ab_test (out_hash out) asset (load_audience_members (asset_campaign_id asset) s) s = Inr (ms, s1)"
    "barred e asset ms s1 = Inr f" "send_to_audience out e conn payload asset ms f s1 = Inr (summary, s2)"
    "maybe_go_live (campaign_sm (out_typed_column out)) e camp s2 = Inr s'"
    by (auto simp: dispatch_email_asset_def split: option.splits if_splits sum.splits)
  from filter_audience_frame [OF run(7)] obtain l where "s1 = s\<lparr>assignments := l\<rparr>"
    "set ms \<subseteq> set (load_audience_members (asset_campaign_id asset) s)" by blast
  with run that show thesis by blast
qed

lemma send_to_audience_run:
  assumes "send_to_audience out e conn payload asset ms f s = Inr (summary, s')"
  obtains footer rows s1 where
    "s1 = fold upsert_dispatch_attempt (map (skipped_attempt asset (conn_provider conn)) (members_of_fate f Capped ms)) s"
    "send_rows out e conn payload asset footer (members_of_fate f Send ms) s1 = Inr rows"
    "summary = dispatch_summary rows (length (members_of_fate f Capped ms)) (length (members_of_fate f Deduped ms)) (length ms) (footer \<noteq> None)"
    "s' = publish_asset e asset summary (conn_provider conn) (fold upsert_dispatch_attempt rows s1)"
proof -
  let ?s1 = "fold upsert_dispatch_attempt (map (skipped_attempt asset (conn_provider conn)) (members_of_fate f Capped ms)) s"
  obtain footer where foot: "build_compliance_footer (asset_tenant_id asset) ?s1 = Inr footer"
    using assms by (cases "build_compliance_footer (asset_tenant_id asset) ?s1")
      (simp_all add: send_to_audience_def Let_def fold_upsert_map [of "skipped_attempt asset (conn_provider conn)"])
  then obtain rows where "send_rows out e conn payload asset footer (members_of_fate f Send ms) ?s1 = Inr rows"
    and "summary = dispatch_summary rows (length (members_of_fate f Capped ms)) (length (members_of_fate f Deduped ms)) (length ms) (footer \<noteq> None)"
    and "s' = publish_asset e asset summary (conn_provider conn) (fold upsert_dispatch_attempt rows ?s1)"
    using assms by (auto simp: send_to_audience_def Let_def fold_upsert_map [of "skipped_attempt asset (conn_provider conn)"])
  with that show thesis by blast
qed

lemma load_email_connector_sendgrid:
  "load_email_connector out ten s = Inr (conn, payload) \<Longrightarrow>
     conn_provider conn = ''sendgrid'' \<and> conn_send_batch conn = sendgrid_send_batch (out_post out) payload"
  by (auto simp: load_email_connector_def build_email_connector_def split: option.splits if_splits)

lemma outcome_attempt_simps [simp]:
  "att_recipient (outcome_attempt e asset p r m) = member_email m"
  "att_asset_id (outcome_attempt e asset p r m) = asset_id asset"
  "att_tenant_id (outcome_attempt e asset p r m) = asset_tenant_id asset"
  "att_idempotency_key (outcome_attempt e asset p r m) = idempotency_key (asset_id asset) (member_email m)"
  by (simp_all add: outcome_attempt_def new_attempt_def Let_def split: option.splits)

lemma outcome_status:
  "att_status (outcome_attempt e asset p r m) \<in> {''sent'', ''suppressed'', ''rejected'', ''failed''}"
  by (simp add: outcome_attempt_def new_attempt_def Let_def split: option.splits)

lemma outcome_sent:
  assumes "att_status (outcome_attempt e asset p r m) = ''sent''"
  shows "\<exists>k v. (k, v) \<in> set (rs_per_message_ids r) \<and> py_lower k = member_email m"
proof -
  obtain v where "map_of (rev (map (\<lambda>(k, v). (py_lower k, v)) (rs_per_message_ids r))) (member_email m) = Some v"
    using assms by (auto simp: outcome_attempt_def new_attempt_def Let_def split: option.splits if_splits)
  from map_of_SomeD [OF this] show ?thesis by auto
qed

lemma email_call_ids:
  assumes call: "email_call conn bid ten inputs s = Inr r" and k: "(k, v) \<in> set (rs_per_message_ids r)"
    and sg: "conn_send_batch conn = sendgrid_send_batch post payload"
  shows "\<exists>p rc. email_plan conn ten inputs s = Inr p \<and> rc \<in> set (pl_payload p) \<and> er_email rc = k"
proof -
  from call obtain p results where p: "email_plan conn ten inputs s = Inr p"
    and res: "(if pl_payload p = [] then Inr [] else conn_send_batch conn (pl_from p) (pl_message p) (pl_payload p)) = Inr results"
    and ids: "rs_per_message_ids r = message_ids results"
    by (auto simp: email_call_def Let_def split: sum.splits)
  from k ids obtain x where x: "x \<in> set results" "res_email x = k"
    by (auto simp: message_ids_def set_map_filter split: if_splits option.splits)
  have "map res_email results = map er_email (pl_payload p)"
    using res sg sendgrid_results by (auto split: if_splits)
  then have "k \<in> er_email ` set (pl_payload p)" using x by (metis image_eqI list.set_map)
  with p show ?thesis by blast
qed

lemma tool_inputs_not_transactional [simp]:
  "dict_get (tool_inputs payload asset message footer signer ms) ''transactional'' = JNull"
  by (simp add: tool_inputs_def dict_get_def Let_def split: option.splits)

lemma send_rows_sent:
  assumes rows: "send_rows out e conn payload asset footer ms s = Inr rows" and a: "a \<in> set rows" "att_status a = ''sent''"
    and sg: "conn_send_batch conn = sendgrid_send_batch post pl"
  shows "\<exists>m\<in>set ms. att_recipient a = member_email m"
    and "\<forall>x\<in>set (suppressions s). sup_tenant_id x = asset_tenant_id asset \<and> sup_platform x = PEmail \<longrightarrow>
      py_lower (sup_identifier x) \<noteq> py_lower (att_recipient a)"
    and "\<exists>k. py_lower k = att_recipient a \<and> email_re k"
proof -
  from rows a(1) obtain inputs r m where inp: "batch_inputs out payload asset footer ms s = Inr inputs"
    and call: "email_call conn (out_batch_id out) (asset_tenant_id asset) inputs s = Inr r"
    and m: "m \<in> set ms" "a = outcome_attempt e asset (conn_provider conn) r m"
    by (auto simp: send_rows_def split: if_splits sum.splits)
  from m show "\<exists>m\<in>set ms. att_recipient a = member_email m" by auto
  obtain k v where k: "(k, v) \<in> set (rs_per_message_ids r)" "py_lower k = member_email m" using outcome_sent a(2) m(2) by blast
  obtain p rc where p: "email_plan conn (asset_tenant_id asset) inputs s = Inr p" "rc \<in> set (pl_payload p)" "er_email rc = k"
    using email_call_ids [OF call k(1) sg] by blast
  have nt: "\<not> truthy (dict_get inputs ''transactional'')"
    using inp by (auto simp: batch_inputs_def split: sum.splits)
  note chk = email_plan_checked [OF p(1) nt p(2)]
  show "\<exists>k. py_lower k = att_recipient a \<and> email_re k" using chk(2) k(2) m(2) p(3) by auto
  have "er_email rc = py_lower (er_email rc)"
    using p(2) email_plan_batch [OF p(1)] by (metis check_batch_ok(1) check_recipient_ok(2) py_lower_idem)
  then show "\<forall>x\<in>set (suppressions s). sup_tenant_id x = asset_tenant_id asset \<and> sup_platform x = PEmail \<longrightarrow>
      py_lower (sup_identifier x) \<noteq> py_lower (att_recipient a)"
    using chk(1) k(2) m(2) p(3) by (metis outcome_attempt_simps(1) py_lower_idem)
qed

section \<open>Who may be written to\<close>

definition sent_after :: "instant \<Rightarrow> dispatch_attempt \<Rightarrow> bool" where
  "sent_after cutoff b \<longleftrightarrow> (\<exists>t. att_sent_at b = Some t \<and> cutoff \<le> t)"

text \<open>The specification of a permitted recipient: not sent this asset before, not sent anything by the
  tenant in the last 24 hours, below every enabled frequency cap, not suppressed.\<close>

definition may_mail :: "env \<Rightarrow> content_asset \<Rightarrow> string \<Rightarrow> db \<Rightarrow> bool" where
  "may_mail e asset r s \<longleftrightarrow>
     (\<forall>b\<in>set (attempts s). att_status b = ''sent'' \<and> py_lower (att_recipient b) = r \<longrightarrow>
        att_asset_id b \<noteq> asset_id asset
        \<and> (att_tenant_id b = asset_tenant_id asset \<longrightarrow> \<not> sent_after (env_now e - hours 24) b))
   \<and> (\<forall>c\<in>set (frequency_caps s). fc_tenant_id c = asset_tenant_id asset \<and> fc_platform c = PEmail \<and> fc_enabled c \<longrightarrow>
        (let n = length (filter (\<lambda>b. att_tenant_id b = asset_tenant_id asset \<and> att_status b = ''sent''
                   \<and> sent_after (env_now e - days (fc_window_days c)) b \<and> py_lower (att_recipient b) = r) (attempts s))
         in n = 0 \<or> int n < fc_max_sends c))
   \<and> (\<forall>x\<in>set (suppressions s). sup_tenant_id x = asset_tenant_id asset \<and> sup_platform x = PEmail \<longrightarrow>
        py_lower (sup_identifier x) \<noteq> r)"

lemma lower_at [simp]: "lower_char c = CHR ''@'' \<longleftrightarrow> c = CHR ''@''"
proof
  assume "lower_char c = CHR ''@''"
  then have "(of_char (lower_char c) :: nat) = 64" by simp
  then have "(of_char c :: nat) = 64" by (auto simp: of_char_lower_char Let_def split: if_splits)
  moreover have "(of_char (CHR ''@'') :: nat) = 64" by simp
  ultimately show "c = CHR ''@''" using of_char_eq_iff by metis
qed (simp add: lower_char_def)

lemma at_in_lower [simp]: "CHR ''@'' \<in> set (py_lower s) \<longleftrightarrow> CHR ''@'' \<in> set s"
proof
  assume "CHR ''@'' \<in> set (py_lower s)"
  then have "CHR ''@'' \<in> lower_char ` set s" by (simp add: py_lower_def)
  then obtain c where "c \<in> set s" "lower_char c = CHR ''@''" by (metis imageE)
  then show "CHR ''@'' \<in> set s" by simp
next
  assume "CHR ''@'' \<in> set s"
  moreover have "CHR ''@'' = lower_char (CHR ''@'')" by (simp add: lower_char_def)
  ultimately show "CHR ''@'' \<in> set (py_lower s)" unfolding py_lower_def set_map by (rule rev_image_eqI)
qed

lemma email_re_at: "email_re s \<Longrightarrow> CHR ''@'' \<in> set s"
proof -
  assume "email_re s"
  then obtain a b where "chomp s = a @ CHR ''@'' # b" unfolding email_re_language by blast
  then have "CHR ''@'' \<in> set (chomp s)" by simp
  then show ?thesis by (auto simp: chomp_def dest: in_set_butlastD split: if_splits)
qed

lemma set_py_strip: "set (py_strip s) \<subseteq> set s"
  unfolding py_strip_def by (auto dest!: set_dropWhileD)

lemma falsy_no_at: "\<not> truthy v \<Longrightarrow> CHR ''@'' \<notin> set (py_str v)"
proof (cases v)
  case (JInt i)
  moreover assume "\<not> truthy v"
  ultimately have "py_str v = digits 0" by (simp add: int_str_def)
  moreover have "CHR ''@'' \<notin> set (digits 0)" by code_simp
  ultimately show ?thesis by simp
qed (auto simp: float_repr_def)

lemma member_address:
  assumes "CHR ''@'' \<in> set (member_email m)"
    and ok: "normalised_recipients (map (\<lambda>m. dict_get_default (mem_payload m) ''email'' (JStr [])) ms) = Inr who"
    and m: "m \<in> set ms"
  shows "member_email m \<in> who"
proof -
  let ?v = "dict_get_default (mem_payload m) ''email'' (JStr [])"
  have "CHR ''@'' \<in> set (py_str ?v)" using assms(1) set_py_strip by (auto simp: member_email_def)
  then have tr: "truthy ?v" using falsy_no_at by blast
  with ok m obtain x where x: "?v = JStr x"
    by (cases ?v) (auto simp: normalised_recipients_def list_ex_iff split: if_splits)
  have who: "who = (py_lower \<circ> py_strip) ` set (List.map_filter as_str
      (filter truthy (map (\<lambda>m. dict_get_default (mem_payload m) ''email'' (JStr [])) ms)))"
    using ok by (simp add: normalised_recipients_def split: if_splits)
  have "x \<in> set (List.map_filter as_str (filter truthy (map (\<lambda>m. dict_get_default (mem_payload m) ''email'' (JStr [])) ms)))"
    using m x tr by (auto simp: set_map_filter intro!: bexI [of _ m])
  moreover have "member_email m = (py_lower \<circ> py_strip) x" by (simp add: member_email_def x)
  ultimately show ?thesis unfolding who by blast
qed

lemma fate_Send:
  assumes fate: "barred e asset ms s = Inr f" "f (member_email m) = Send"
    and m: "m \<in> set ms" "CHR ''@'' \<in> set (member_email m)"
    and sup: "\<forall>x\<in>set (suppressions s). sup_tenant_id x = asset_tenant_id asset \<and> sup_platform x = PEmail \<longrightarrow>
        py_lower (sup_identifier x) \<noteq> member_email m"
  shows "may_mail e asset (member_email m) s"
proof -
  let ?ten = "asset_tenant_id asset" and ?r = "member_email m"
  let ?paying = "filter (\<lambda>m. mem_payload m \<noteq> []) ms"
  let ?vs = "map (\<lambda>m. dict_get_default (mem_payload m) ''email'' (JStr [])) ?paying"
  obtain recent capped where recent: "recent_sent_recipients e ?ten ?vs s = Inr recent"
    and capped: "capped_recipients e ?ten PEmail (map member_email ?paying) s = Inr capped"
    and f: "f = fate_of (existing_attempts (asset_id asset) s) recent capped"
    using fate(1) by (auto simp: barred_def Let_def split: sum.splits)
  have out: "?r \<notin> existing_attempts (asset_id asset) s" "?r \<notin> recent" "?r \<notin> capped"
    using fate(2) by (auto simp: f fate_of_def split: if_splits)
  have "mem_payload m \<noteq> []" using m(2) by (auto simp: member_email_def dict_get_default_def py_strip_def)
  with m(1) have pm: "m \<in> set ?paying" by simp
  obtain who where who: "normalised_recipients ?vs = Inr who" using recent by (auto simp: recent_sent_recipients_def)
  have rw: "?r \<in> who" by (rule member_address [OF m(2) who pm])
  have "who \<noteq> {}" using rw by blast
  then have rec: "recent = py_lower ` att_recipient ` set (sent_since ?ten (env_now e - hours 24) who s)"
    using recent who by (simp add: recent_sent_recipients_def dedup_window_def)
  have "\<not> sent_after (env_now e - hours 24) b \<and> att_asset_id b \<noteq> asset_id asset \<or>
        att_tenant_id b \<noteq> ?ten \<and> att_asset_id b \<noteq> asset_id asset"
    if b: "b \<in> set (attempts s)" "att_status b = ''sent''" "py_lower (att_recipient b) = ?r" for b
  proof -
    have "att_asset_id b \<noteq> asset_id asset" using out(1) b by (force simp: existing_attempts_def)
    moreover have "b \<notin> set (sent_since ?ten (env_now e - hours 24) who s)"
      using out(2) b(3) unfolding rec by (metis image_eqI)
    ultimately show ?thesis using b rw by (auto simp: sent_since_def sent_after_def split: option.splits)
  qed
  moreover have "n = 0 \<or> int n < fc_max_sends c"
    if c: "c \<in> set (frequency_caps s)" "fc_tenant_id c = ?ten" "fc_platform c = PEmail" "fc_enabled c"
      and n: "n = length (filter (\<lambda>b. att_tenant_id b = ?ten \<and> att_status b = ''sent''
           \<and> sent_after (env_now e - days (fc_window_days c)) b \<and> py_lower (att_recipient b) = ?r) (attempts s))" for c n
  proof -
    let ?who = "(py_lower \<circ> py_strip) ` set (filter (\<lambda>c. c \<noteq> []) (map member_email ?paying))"
    let ?caps = "filter (\<lambda>c. fc_tenant_id c = ?ten \<and> fc_platform c = PEmail \<and> fc_enabled c) (frequency_caps s)"
    have "?r = (py_lower \<circ> py_strip) ?r" by (simp add: member_email_def py_strip_lower)
    moreover have "?r \<in> set (filter (\<lambda>c. c \<noteq> []) (map member_email ?paying))" using pm m(2) by auto
    ultimately have cw: "?r \<in> ?who" by (rule image_eqI)
    then have ne: "?who \<noteq> {}" unfolding ex_in_conv [symmetric] by (rule exI)
    have "c \<in> set ?caps" using c by simp
    then have "scalar_one_or_none ?caps \<noteq> Some None" by (cases ?caps) simp_all
    moreover have "scalar_one_or_none ?caps \<noteq> None"
      using capped unfolding capped_recipients_def Let_def if_not_P [OF ne]
      by (cases "scalar_one_or_none ?caps") simp_all
    ultimately obtain c' where one: "scalar_one_or_none ?caps = Some (Some c')"
      by (cases "scalar_one_or_none ?caps") (metis option.exhaust)+
    with \<open>c \<in> set ?caps\<close> have cc: "c' = c" by (cases ?caps; cases "tl ?caps") auto
    let ?rows = "sent_since ?ten (env_now e - days (fc_window_days c)) ?who s"
    let ?key = "\<lambda>a. py_lower (att_recipient a)"
    have cap: "capped = ?key ` set (filter (\<lambda>a. fc_max_sends c \<le> int (length (filter (\<lambda>b. ?key b = ?key a) ?rows))) ?rows)"
      using capped unfolding capped_recipients_def Let_def if_not_P [OF ne] one cc by simp
    have n': "n = length (filter (\<lambda>b. ?key b = ?r) ?rows)"
      unfolding n sent_since_def filter_filter using cw
      by (intro arg_cong [where f = length] filter_cong) (auto simp: sent_after_def split: option.splits)
    show ?thesis
    proof (rule ccontr)
      assume neg: "\<not> (n = 0 \<or> int n < fc_max_sends c)"
      then obtain a where a: "a \<in> set ?rows" "?key a = ?r" using n' by (auto simp: filter_empty_conv)
      with neg n' have "a \<in> set (filter (\<lambda>a. fc_max_sends c \<le> int (length (filter (\<lambda>b. ?key b = ?key a) ?rows))) ?rows)" by simp
      with a(2) have "?r \<in> capped" unfolding cap by (metis (no_types, lifting) image_eqI)
      with out(3) show False by blast
    qed
  qed
  ultimately show ?thesis using sup unfolding may_mail_def Let_def by blast
qed

text \<open>C2. A campaign mail is recorded as sent only to someone who may be written to: after a dispatch, every
  new sent row is for an address of the campaign's audience that matches the address pattern, has not
  been sent this asset, has not been sent anything by the tenant within 24 hours, is below the
  tenant's frequency cap and is not suppressed, all judged on the database before the dispatch; and no
  sent row is lost.\<close>

theorem dispatch_email_only_permitted:
  assumes run: "dispatch_email_asset out e i s = Inr (Dispatched summary, s')" and asset: "get_asset i s = Some asset"
  shows "(\<forall>a\<in>set (attempts s'). att_status a = ''sent'' \<and> a \<notin> set (attempts s) \<longrightarrow>
           may_mail e asset (att_recipient a) s \<and> (\<exists>k. py_lower k = att_recipient a \<and> email_re k)
           \<and> (\<exists>m\<in>set (load_audience_members (asset_campaign_id asset) s). member_email m = att_recipient a))
    \<and> (\<forall>a\<in>set (attempts s). att_status a = ''sent'' \<longrightarrow> a \<in> set (attempts s'))"
proof -
  obtain camp conn payload ms l f s2 where conn: "load_email_connector out (asset_tenant_id asset) s = Inr (conn, payload)"
    and ms: "set ms \<subseteq> set (load_audience_members (asset_campaign_id asset) s)"
    and f: "barred e asset ms (s\<lparr>assignments := l\<rparr>) = Inr f"
    and send: "send_to_audience out e conn payload asset ms f (s\<lparr>assignments := l\<rparr>) = Inr (summary, s2)"
    and live: "maybe_go_live (campaign_sm (out_typed_column out)) e camp s2 = Inr s'"
    by (rule dispatch_email_run [OF run]) (use asset in auto)
  let ?s = "s\<lparr>assignments := l\<rparr>"
  let ?skipped = "map (skipped_attempt asset (conn_provider conn)) (members_of_fate f Capped ms)"
  obtain footer rows s1 where s1: "s1 = fold upsert_dispatch_attempt ?skipped ?s"
    and rows: "send_rows out e conn payload asset footer (members_of_fate f Send ms) s1 = Inr rows"
    and s2: "s2 = publish_asset e asset summary (conn_provider conn) (fold upsert_dispatch_attempt rows s1)"
    by (rule send_to_audience_run [OF send])
  have att: "attempts s' = attempts (fold upsert_dispatch_attempt rows s1)"
    using maybe_go_live_frame [OF live] by (simp add: s2 publish_asset_def)
  have old: "\<forall>a\<in>set (attempts s). att_status a = ''sent'' \<longrightarrow> a \<in> set (attempts s')"
    unfolding att s1 by (intro ballI impI fold_upsert_keeps_sent) simp_all
  have "may_mail e asset (att_recipient a) s \<and> (\<exists>k. py_lower k = att_recipient a \<and> email_re k)
      \<and> (\<exists>m\<in>set (load_audience_members (asset_campaign_id asset) s). member_email m = att_recipient a)"
    if a: "a \<in> set (attempts s')" "att_status a = ''sent''" "a \<notin> set (attempts s)" for a
  proof -
    have "a \<notin> set ?skipped" using a(2) by (auto simp: skipped_attempt_def new_attempt_def)
    moreover have "a \<in> set (attempts s1) \<or> a \<in> set rows" using a(1,2) unfolding att by (rule fold_upsert_sent)
    moreover have "a \<in> set (attempts ?s) \<or> a \<in> set ?skipped" if "a \<in> set (attempts s1)"
      using that a(2) unfolding s1 by (rule fold_upsert_sent)
    ultimately have "a \<in> set rows" using a(3) by auto
    note sent = send_rows_sent [OF rows this a(2), of "out_post out" payload]
    have sg: "conn_send_batch conn = sendgrid_send_batch (out_post out) payload"
      using load_email_connector_sendgrid [OF conn] by simp
    obtain m where m: "m \<in> set ms" "f (member_email m) = Send" "att_recipient a = member_email m"
      using sent(1) [OF sg] by (auto simp: members_of_fate_def)
    have re: "\<exists>k. py_lower k = att_recipient a \<and> email_re k" by (rule sent(3) [OF sg])
    then have "CHR ''@'' \<in> set (member_email m)" using email_re_at m(3) by (metis at_in_lower)
    moreover have "py_lower (member_email m) = member_email m" by (simp add: member_email_def)
    ultimately have "may_mail e asset (member_email m) ?s"
      using sent(2) [OF sg] m(3) unfolding s1 by (intro fate_Send [OF f m(2,1)]) simp_all
    then have "may_mail e asset (att_recipient a) s" by (simp add: may_mail_def m(3))
    with re m ms show ?thesis by auto
  qed
  with old show ?thesis by blast
qed

section \<open>Accounting\<close>

lemma count_statuses:
  assumes "\<forall>a\<in>set rows. att_status a \<in> {''sent'', ''suppressed'', ''rejected'', ''failed''}"
  shows "count_status [''sent''] rows + count_status [''suppressed''] rows + count_status [''rejected'', ''failed''] rows = length rows"
  using assms by (induction rows) (auto simp: count_status_def)

lemma count_fates:
  "length (members_of_fate f Send ms) + length (members_of_fate f Deduped ms) + length (members_of_fate f Capped ms)
     + length (members_of_fate f Blank ms) = length ms"
proof (induction ms)
  case (Cons m ms)
  then show ?case by (cases "f (member_email m)") (simp_all add: members_of_fate_def)
qed (simp add: members_of_fate_def)

lemma fate_Blank: "barred e asset ms s = Inr f \<Longrightarrow> f r = Blank \<longleftrightarrow> r = []"
  by (auto simp: barred_def Let_def fate_of_def split: sum.splits if_splits)

lemma send_rows_length:
  "send_rows out e conn payload asset footer ms s = Inr rows \<Longrightarrow>
     length rows = length ms \<and> (\<forall>a\<in>set rows. att_status a \<in> {''sent'', ''suppressed'', ''rejected'', ''failed''})
     \<and> map att_recipient rows = map member_email ms"
  using outcome_status by (fastforce simp: send_rows_def comp_def split: if_splits sum.splits)

lemma dict_get_summary:
  "dict_get (dispatch_summary rows sk de au ft) ''sent'' = JInt (int (count_status [''sent''] rows))"
  "dict_get (dispatch_summary rows sk de au ft) ''suppressed'' = JInt (int (count_status [''suppressed''] rows))"
  "dict_get (dispatch_summary rows sk de au ft) ''rejected'' = JInt (int (count_status [''rejected'', ''failed''] rows))"
  "dict_get (dispatch_summary rows sk de au ft) ''skipped'' = JInt (int sk)"
  "dict_get (dispatch_summary rows sk de au ft) ''deduped'' = JInt (int de)"
  "dict_get (dispatch_summary rows sk de au ft) ''audience_size'' = JInt (int au)"
  by (simp_all add: dispatch_summary_def dict_get_def Let_def)

lemma published_simps [simp]:
  "asset_id (published e summary p a) = asset_id a" "asset_status_of (published e summary p a) = APublished"
  "dict_get (asset_metadata (published e summary p a)) ''dispatch_summary'' = JObj summary"
  by (simp_all add: published_def dict_get_def map_of_dict_merge)

lemma get_asset_modify:
  assumes "get_asset i s = Some a" "\<And>x. asset_id (f x) = asset_id x"
  shows "get_asset i (modify_asset e i f s) = Some (stamped e f a)"
  using assms asset_table.get_modify_same [of "stamped e f" i s a] by (simp add: modify_asset_def)

text \<open>Every member of the audience is accounted for: the summary's counts of sent, suppressed, rejected,
  skipped and deduplicated members, together with the members without an address, add up to the
  audience that was left after the A/B split. The asset ends published with this summary, and
  dispatching it again is refused.\<close>

theorem dispatch_email_accounts:
  assumes run: "dispatch_email_asset out e i s = Inr (Dispatched summary, s')" and asset: "get_asset i s = Some asset"
  shows "\<exists>a' ms se su re sk de. get_asset i s' = Some a' \<and> asset_status_of a' = APublished
    \<and> dict_get (asset_metadata a') ''dispatch_summary'' = JObj summary
    \<and> set ms \<subseteq> set (load_audience_members (asset_campaign_id asset) s)
    \<and> dict_get summary ''sent'' = JInt (int se) \<and> dict_get summary ''suppressed'' = JInt (int su)
    \<and> dict_get summary ''rejected'' = JInt (int re) \<and> dict_get summary ''skipped'' = JInt (int sk)
    \<and> dict_get summary ''deduped'' = JInt (int de) \<and> dict_get summary ''audience_size'' = JInt (int (length ms))
    \<and> se + su + re + sk + de + length (filter (\<lambda>m. member_email m = []) ms) = length ms
    \<and> (\<forall>out' e'. dispatch_email_asset out' e' i s' = Inl DistributionPreconditionError)"
proof -
  obtain camp conn payload ms l f s2 where ms: "set ms \<subseteq> set (load_audience_members (asset_campaign_id asset) s)"
    and f: "barred e asset ms (s\<lparr>assignments := l\<rparr>) = Inr f"
    and send: "send_to_audience out e conn payload asset ms f (s\<lparr>assignments := l\<rparr>) = Inr (summary, s2)"
    and live: "maybe_go_live (campaign_sm (out_typed_column out)) e camp s2 = Inr s'"
    by (rule dispatch_email_run [OF run]) (use asset in auto)
  obtain footer rows s1 where s1: "s1 = fold upsert_dispatch_attempt
        (map (skipped_attempt asset (conn_provider conn)) (members_of_fate f Capped ms)) (s\<lparr>assignments := l\<rparr>)"
    and rows: "send_rows out e conn payload asset footer (members_of_fate f Send ms) s1 = Inr rows"
    and summary: "summary = dispatch_summary rows (length (members_of_fate f Capped ms)) (length (members_of_fate f Deduped ms))
        (length ms) (footer \<noteq> None)"
    and s2: "s2 = publish_asset e asset summary (conn_provider conn) (fold upsert_dispatch_attempt rows s1)"
    by (rule send_to_audience_run [OF send])
  have "get_asset i (fold upsert_dispatch_attempt rows s1) = Some asset" using asset by (simp add: s1 get_asset_def)
  from get_asset_modify [OF this, of "published e summary (conn_provider conn)" e]
  have "get_asset i s2 = Some (stamped e (published e summary (conn_provider conn)) asset)"
    using asset_table.get_key [OF asset] by (simp add: s2 publish_asset_def get_asset_def)
  then have a': "get_asset i s' = Some (stamped e (published e summary (conn_provider conn)) asset)"
    using maybe_go_live_frame [OF live] by (simp add: get_asset_def)
  moreover have "\<forall>out' e'. dispatch_email_asset out' e' i s' = Inl DistributionPreconditionError"
    by (simp add: dispatch_email_asset_def a')
  moreover have "members_of_fate f Blank ms = filter (\<lambda>m. member_email m = []) ms"
    using fate_Blank [OF f] by (simp add: members_of_fate_def)
  then have "count_status [''sent''] rows + count_status [''suppressed''] rows + count_status [''rejected'', ''failed''] rows
      + length (members_of_fate f Capped ms) + length (members_of_fate f Deduped ms)
      + length (filter (\<lambda>m. member_email m = []) ms) = length ms"
    using count_fates [of f ms] send_rows_length [OF rows] count_statuses [of rows] by simp
  moreover have "dict_get (asset_metadata (stamped e (published e summary (conn_provider conn)) asset)) ''dispatch_summary'' = JObj summary"
    by (simp add: stamped_def)
  ultimately show ?thesis using ms dict_get_summary unfolding summary by (metis (no_types, lifting) published_simps(2) stamped_simps(1))
qed

section \<open>A provider without message identifiers\<close>

lemma no_ids_no_sent:
  assumes rows: "send_rows out e conn payload asset footer ms s = Inr rows"
    and sg: "conn_send_batch conn = sendgrid_send_batch (\<lambda>_ _. Http_Response code []) pl"
  shows "\<forall>a\<in>set rows. att_status a \<noteq> ''sent''"
proof (cases "ms = []")
  case False
  with rows obtain inputs r where call: "email_call conn (out_batch_id out) (asset_tenant_id asset) inputs s = Inr r"
    and rows': "rows = map (outcome_attempt e asset (conn_provider conn) r) ms"
    by (auto simp: send_rows_def split: sum.splits)
  have "message_ids results = []" if "sendgrid_send_batch (\<lambda>_ _. Http_Response code []) pl fe m rs = Inr results" for fe m rs results
  proof -
    have "\<forall>x\<in>set results. res_message_id x = None"
      using that by (auto simp: sendgrid_send_batch_def acknowledged_enumerate acknowledged_def split: if_splits)
    then show ?thesis by (induction results) (auto simp: message_ids_def List.map_filter_simps)
  qed
  moreover have "message_ids [] = []" by (simp add: message_ids_def List.map_filter_simps)
  ultimately have "rs_per_message_ids r = []"
    using call sg by (auto simp: email_call_def Let_def split: sum.splits if_splits)
  with outcome_sent show ?thesis by (fastforce simp: rows')
qed (use rows in \<open>simp add: send_rows_def\<close>)

text \<open>Without the provider's message identifier a successful send is lost: if the provider accepts every
  request but its answer has no \<open>X-Message-Id\<close>, the dispatch records nobody as sent, although the whole
  batch was accepted; later dispatches do not know about it.\<close>

theorem missing_message_id_loses_sends:
  assumes run: "dispatch_email_asset (out\<lparr>out_post := (\<lambda>_ _. Http_Response code [])\<rparr>) e i s = Inr (Dispatched summary, s')"
  shows "dict_get summary ''sent'' = JInt 0 \<and> (\<forall>a\<in>set (attempts s'). att_status a = ''sent'' \<longrightarrow> a \<in> set (attempts s))"
proof -
  let ?out = "out\<lparr>out_post := (\<lambda>_ _. Http_Response code [])\<rparr>"
  obtain asset camp conn payload ms l f s2 where conn: "load_email_connector ?out (asset_tenant_id asset) s = Inr (conn, payload)"
    and send: "send_to_audience ?out e conn payload asset ms f (s\<lparr>assignments := l\<rparr>) = Inr (summary, s2)"
    and live: "maybe_go_live (campaign_sm (out_typed_column ?out)) e camp s2 = Inr s'"
    by (rule dispatch_email_run [OF run])
  let ?skipped = "map (skipped_attempt asset (conn_provider conn)) (members_of_fate f Capped ms)"
  obtain footer rows s1 where s1: "s1 = fold upsert_dispatch_attempt ?skipped (s\<lparr>assignments := l\<rparr>)"
    and rows: "send_rows ?out e conn payload asset footer (members_of_fate f Send ms) s1 = Inr rows"
    and summary: "summary = dispatch_summary rows (length (members_of_fate f Capped ms)) (length (members_of_fate f Deduped ms))
        (length ms) (footer \<noteq> None)"
    and s2: "s2 = publish_asset e asset summary (conn_provider conn) (fold upsert_dispatch_attempt rows s1)"
    by (rule send_to_audience_run [OF send])
  have "conn_send_batch conn = sendgrid_send_batch (\<lambda>_ _. Http_Response code []) payload"
    using load_email_connector_sendgrid [OF conn] by simp
  note none = no_ids_no_sent [OF rows this]
  have att: "attempts s' = attempts (fold upsert_dispatch_attempt (?skipped @ rows) (s\<lparr>assignments := l\<rparr>))"
    using maybe_go_live_frame [OF live] by (simp add: s2 publish_asset_def s1)
  have "count_status [''sent''] rows = 0" using none by (simp add: count_status_def filter_empty_conv)
  then have "dict_get summary ''sent'' = JInt 0" by (simp add: summary dict_get_summary)
  moreover have "a \<in> set (attempts s)" if "a \<in> set (attempts s')" "att_status a = ''sent''" for a
    using fold_upsert_sent [OF that(1) [unfolded att] that(2)] that(2) none
    by (auto simp: skipped_attempt_def new_attempt_def)
  ultimately show ?thesis by blast
qed

section \<open>Runs of the social dispatcher\<close>

lemma dispatch_social_run:
  assumes "dispatch_social_asset out e i s = Inr (res, s')"
  obtains (paused) asset camp where "get_asset i s = Some asset" "get_campaign (asset_campaign_id asset) s = Some camp"
      "camp_status camp = Paused" "res = Social_Paused" "s' = s"
  | (revoked) asset camp ch message where "get_asset i s = Some asset" "get_campaign (asset_campaign_id asset) s = Some camp"
      "camp_status camp \<noteq> Paused" "res = Social_Revoked message"
      "s' = modify_asset e (asset_id asset) (revoked_asset message)
        (pause_campaign_on_oauth_revoked e camp (the (asset_channel_id asset)) (channel_provider ch) s)"
  | (posted) asset camp ch conn tok body r where "get_asset i s = Some asset" "get_campaign (asset_campaign_id asset) s = Some camp"
      "social_call conn (py_str tok) (asset_tenant_id asset) (social_inputs asset ch body) s = Inr r"
      "res = Social_Posted (pb_post_id r) (pb_url r)"
      "maybe_go_live (campaign_sm (out_typed_column out)) e camp (record_post e asset ch r s) = Inr s'"
  using assms
  by (fastforce simp: dispatch_social_asset_def split: option.splits if_splits sum.splits publish_error.splits)

lemma published_post_simps [simp]:
  "asset_id (published_post e ch r a) = asset_id a" "asset_status_of (published_post e ch r a) = APublished"
  by (simp_all add: published_post_def)

lemma revoked_asset_simps [simp]:
  "asset_id (revoked_asset m a) = asset_id a" "asset_status_of (revoked_asset m a) = AFailed"
  by (simp_all add: revoked_asset_def set_meta_def)

text \<open>A social post ends in one of three ways. In a paused campaign nothing happens. When the provider has
  revoked the authorisation, the asset fails, the campaign is paused and no task of it can be claimed,
  and no attempt is recorded. Otherwise the asset is published, an attempt under its key exists, and
  dispatching it again is refused.\<close>

theorem dispatch_social_outcomes:
  assumes run: "dispatch_social_asset out e i s = Inr (res, s')" and asset: "get_asset i s = Some asset"
    and ids: "get_campaign (asset_campaign_id asset) s = Some camp"
  shows "case res of
      Social_Paused \<Rightarrow> camp_status camp = Paused \<and> s' = s
    | Social_Revoked m \<Rightarrow>
        (\<exists>a'. get_asset i s' = Some a' \<and> asset_status_of a' = AFailed)
        \<and> get_campaign (asset_campaign_id asset) s' = Some (camp\<lparr>camp_status := Paused\<rparr>) \<and> attempts s' = attempts s
        \<and> (\<forall>e' w l locked t s''. claim_next e' w l locked s' = (Some t, s'') \<longrightarrow>
              task_campaign_id t \<noteq> Some (asset_campaign_id asset))
    | Social_Posted post_id url \<Rightarrow>
        (\<exists>a'. get_asset i s' = Some a' \<and> asset_status_of a' = APublished)
        \<and> (\<exists>b\<in>set (attempts s'). att_tenant_id b = asset_tenant_id asset
             \<and> (\<exists>ch. att_idempotency_key b = social_key asset ch))
        \<and> (\<forall>out' e'. dispatch_social_asset out' e' i s' = Inl DistributionPreconditionError)"
  using run
proof (cases rule: dispatch_social_run)
  case (paused a c)
  with asset ids show ?thesis by simp
next
  case (revoked a c ch message)
  with asset ids have ac: "a = asset" "c = camp" by simp_all
  have ci: "camp_id camp = asset_campaign_id asset" using ids by (rule campaign_table.get_key)
  let ?p = "pause_campaign_on_oauth_revoked e camp (the (asset_channel_id asset)) (channel_provider ch) s"
  have s': "s' = modify_asset e i (revoked_asset message) ?p" using revoked(5) ac asset_table.get_key [OF asset] by simp
  have "get_asset i ?p = Some asset"
    using asset by (simp add: pause_campaign_on_oauth_revoked_def pause_campaign_def get_asset_def Let_def cancel_queued_for_campaign_def)
  then have "get_asset i s' = Some (stamped e (revoked_asset message) asset)" unfolding s' by (rule get_asset_modify) simp
  moreover have "attempts s' = attempts s"
    unfolding s' by (simp add: pause_campaign_on_oauth_revoked_def pause_campaign_def Let_def cancel_queued_for_campaign_def)
  moreover have tsk: "tasks s' = update_where (cancellable (asset_campaign_id asset)) (cancelled e) (tasks s)"
    using revoked(3) ac unfolding s'
    by (simp add: pause_campaign_on_oauth_revoked_def pause_campaign_def Let_def cancel_queued_for_campaign_def ci)
  moreover have "campaigns s' = campaigns (modify_campaign (asset_campaign_id asset) (\<lambda>c. c\<lparr>camp_status := Paused\<rparr>) s)"
    using revoked(3) ac unfolding s'
    by (simp add: pause_campaign_on_oauth_revoked_def pause_campaign_def Let_def cancel_queued_for_campaign_def ci)
  then have "get_campaign (asset_campaign_id asset) s' = Some (camp\<lparr>camp_status := Paused\<rparr>)"
    using campaign_table.get_modify_same [of "\<lambda>c. c\<lparr>camp_status := Paused\<rparr>", OF _ ids] by (simp add: get_campaign_def)
  ultimately show ?thesis using revoked(4) cancelled_not_claimed [OF tsk] by simp
next
  case (posted a c ch conn tok body r)
  with asset have a: "a = asset" by simp
  have i: "asset_id asset = i" using asset by (rule asset_table.get_key)
  let ?row = "new_attempt asset None (channel_page_urn ch) (social_key asset ch) (channel_provider ch)
                (Some (pb_post_id r)) ''sent'' None (Some (env_now e))"
  have "get_asset i (upsert_dispatch_attempt ?row s) = Some asset" using asset by (simp add: get_asset_def)
  from get_asset_modify [OF this, of "published_post e ch r" e]
  have "get_asset i (record_post e asset ch r s) = Some (stamped e (published_post e ch r) asset)"
    by (simp add: record_post_def get_asset_def i)
  moreover note frame = maybe_go_live_frame [OF posted(5) [unfolded a]]
  ultimately have a': "get_asset i s' = Some (stamped e (published_post e ch r) asset)" by (simp add: get_asset_def)
  have "\<exists>b\<in>set (attempts s'). same_attempt_key ?row b"
    using upsert_has_key [of ?row s] frame by (simp add: record_post_def)
  then have "\<exists>b\<in>set (attempts s'). att_tenant_id b = asset_tenant_id asset \<and> (\<exists>ch. att_idempotency_key b = social_key asset ch)"
    by (auto simp: same_attempt_key_def new_attempt_def)
  moreover have "\<forall>out' e'. dispatch_social_asset out' e' i s' = Inl DistributionPreconditionError"
    by (simp add: dispatch_social_asset_def a')
  ultimately show ?thesis using posted(4) a' by simp
qed

section \<open>Concrete instances\<close>

definition demo_member :: audience_member where
  "demo_member = \<lparr>mem_audience_id = 3, mem_external_id = ''u1'', mem_payload = [(''email'', JStr '' Bob@corp.io'')], mem_added_at = 0\<rparr>"

definition demo_audience :: audience where
  "demo_audience = \<lparr>aud_id = 3, aud_tenant_id = 1, aud_campaign_id = 7, aud_name = ''A'', aud_criteria = [], aud_actual_size = None, aud_estimated_size = None,
     aud_created_at = 0\<rparr>"

definition demo_credential :: integration_credential where
  "demo_credential = \<lparr>cred_tenant_id = 1, cred_channel_id = None, cred_provider = ''sendgrid'', cred_payload = mail_payload\<rparr>"

definition mail_db :: db where
  "mail_db = (demo_db Live (demo_asset TEmail AScheduled []))
     \<lparr>credentials := [demo_credential], audiences := [demo_audience], members := [demo_member]\<rparr>"

definition demo_outside :: "string \<Rightarrow> outside" where
  "demo_outside base = \<lparr>out_hash = length, out_post = (\<lambda>_ _. Http_Response 202 base),
     out_respond = (\<lambda>_ _ _. Li_Response 401 ''no'' None None), out_dumps = (\<lambda>_ _. ''t''), out_share_secret = ''x'',
     out_batch_id = 5, out_typed_column = (\<lambda>_ _ _. False)\<rparr>"

lemma demo_outside_simps [simp]:
  "out_hash (demo_outside b) = length" "out_post (demo_outside b) = (\<lambda>_ _. Http_Response 202 b)"
  "out_respond (demo_outside b) = (\<lambda>_ _ _. Li_Response 401 ''no'' None None)" "out_batch_id (demo_outside b) = 5"
  "out_typed_column (demo_outside b) = (\<lambda>_ _ _. False)"
  by (simp_all add: demo_outside_def)

lemma mail_db_simps [simp]:
  "campaigns mail_db = [demo_campaign Live]" "assets mail_db = [demo_asset TEmail AScheduled []]"
  "credentials mail_db = [demo_credential]" "audiences mail_db = [demo_audience]" "members mail_db = [demo_member]"
  "attempts mail_db = []" "frequency_caps mail_db = []" "suppressions mail_db = []" "ab_tests mail_db = []"
  "compliance_settings_rows mail_db = []"
  by (simp_all add: mail_db_def demo_db_def empty_db_def)

lemma demo_mail_facts:
  "member_email demo_member = ''bob@corp.io''" "py_lower (py_strip ''bob@corp.io'') = ''bob@corp.io''"
  "validate_recipient {} ''bob@corp.io'' = None" "py_lower (py_strip ''news@acme.io'') = ''news@acme.io''"
  "verified_senders mail_payload = Some []" "py_lower (py_strip ''sendgrid'') = ''sendgrid''" "api_key mail_payload = ''k''"
  "py_strip ''Hello'' = ''Hello''"
  by code_simp+

lemma demo_connector_loads:
  "load_email_connector (demo_outside b) 1 mail_db = Inr (\<lparr>conn_provider = ''sendgrid'', conn_verified_senders = Some [],
     conn_send_batch = sendgrid_send_batch (\<lambda>_ _. Http_Response 202 b) mail_payload\<rparr>, mail_payload)"
  by (simp add: load_email_connector_def demo_credential_def build_email_connector_def demo_mail_facts)

lemma demo_barred: "barred e (demo_asset TEmail AScheduled []) [demo_member] mail_db = Inr (fate_of {} {} {})"
proof -
  have "mem_payload demo_member = [(''email'', JStr '' Bob@corp.io'')]" by (simp add: demo_member_def)
  then show ?thesis
    by (simp add: barred_def recent_sent_recipients_def normalised_recipients_def dict_get_default_def sent_since_def
        capped_recipients_def existing_attempts_def demo_mail_facts List.map_filter_simps)
qed

lemma demo_send:
  "\<exists>rows. send_rows (demo_outside b) e \<lparr>conn_provider = ''sendgrid'', conn_verified_senders = Some [],
     conn_send_batch = sendgrid_send_batch (\<lambda>_ _. Http_Response 202 b) mail_payload\<rparr> mail_payload
     (demo_asset TEmail AScheduled []) None [demo_member] mail_db = Inr rows
   \<and> (b \<noteq> [] \<longrightarrow> count_status [''sent''] rows = 1)"
proof -
  have p: "mem_payload demo_member = [(''email'', JStr '' Bob@corp.io'')]" by (simp add: demo_member_def)
  have t: "asset_title (demo_asset TEmail AScheduled []) = Some ''Hello''" "asset_content (demo_asset TEmail AScheduled []) = Some ''Body''"
    "asset_tenant_id (demo_asset TEmail AScheduled []) = 1"
    by (simp_all add: demo_asset_def)
  have from_email: "map_of mail_payload ''default_from_email'' = Some (JStr ''news@acme.io'')" by (simp add: mail_payload_def)
  have low: "py_lower ''bob@corp.io'' = ''bob@corp.io''" "py_strip ''news@acme.io'' = ''news@acme.io''" by code_simp+
  show ?thesis
    by (simp add: send_rows_def batch_inputs_def message_from_asset_def dict_get_def [of "[]"] t signer_for_def
        email_call_def email_plan_def tool_inputs_def from_email low batch_entry_def demo_mail_facts p string_only_payload_def
        List.map_filter_simps dict_get_def dict_get_default_def build_message_def with_footers_def
        load_suppressed_emails_def check_recipient_def sendgrid_send_batch_def content_blocks_def
        message_ids_def provider_rejections_def acknowledged_def enumerate_eq_zip outcome_attempt_def new_attempt_def count_status_def Let_def)
qed

lemma mail_db_assignments [simp]: "mail_db\<lparr>assignments := assignments mail_db\<rparr> = mail_db"
  by simp

lemma demo_dispatch:
  "\<exists>rows s'. dispatch_email_asset (demo_outside b) (worker_env 5) 20 mail_db
       = Inr (Dispatched (dispatch_summary rows 0 0 1 False), s') \<and> (b \<noteq> [] \<longrightarrow> count_status [''sent''] rows = 1)"
proof -
  let ?conn = "\<lparr>conn_provider = ''sendgrid'', conn_verified_senders = Some [],
     conn_send_batch = sendgrid_send_batch (\<lambda>_ _. Http_Response 202 b) mail_payload\<rparr>"
  let ?asset = "demo_asset TEmail AScheduled []"
  have ten: "asset_tenant_id ?asset = 1" by (simp add: demo_asset_def)
  have get: "get_asset 20 mail_db = Some ?asset" "get_campaign 7 mail_db = Some (demo_campaign Live)"
    by (simp_all add: get_asset_def get_campaign_def find_row_def)
  have ms: "load_audience_members 7 mail_db = [demo_member]"
    by (simp add: load_audience_members_def demo_audience_def demo_member_def)
  have ab: "filter_audience_for_ab_test h ?asset [demo_member] mail_db = Inr ([demo_member], mail_db)" for h
    by (simp add: filter_audience_for_ab_test_def running_ab_test_for_asset_def dict_get_def variant_test_for_def find_row_def)
  have fates: "members_of_fate (fate_of {} {} {}) Send [demo_member] = [demo_member]"
    "members_of_fate (fate_of {} {} {}) Capped [demo_member] = []" "members_of_fate (fate_of {} {} {}) Deduped [demo_member] = []"
    by (simp_all add: members_of_fate_def fate_of_def demo_mail_facts)
  have foot: "build_compliance_footer 1 mail_db = Inr None" by (simp add: build_compliance_footer_def compliance_row_def)
  obtain rows where rows: "send_rows (demo_outside b) (worker_env 5) ?conn mail_payload ?asset None [demo_member] mail_db = Inr rows"
    "b \<noteq> [] \<longrightarrow> count_status [''sent''] rows = 1" using demo_send [of b "worker_env 5"] by blast
  have "\<exists>s2. send_to_audience (demo_outside b) (worker_env 5) ?conn mail_payload ?asset [demo_member] (fate_of {} {} {}) mail_db
      = Inr (dispatch_summary rows 0 0 1 False, s2)"
    by (simp add: send_to_audience_def fates foot rows(1) ten Let_def del: One_nat_def) simp
  then obtain s2 where "send_to_audience (demo_outside b) (worker_env 5) ?conn mail_payload ?asset [demo_member] (fate_of {} {} {}) mail_db
      = Inr (dispatch_summary rows 0 0 1 False, s2)" by blast
  then have "dispatch_email_asset (demo_outside b) (worker_env 5) 20 mail_db = Inr (Dispatched (dispatch_summary rows 0 0 1 False), s2)"
    by (simp add: dispatch_email_asset_def get ten demo_connector_loads ms ab demo_barred maybe_go_live_def del: One_nat_def)
  with rows(2) show ?thesis by blast
qed

theorem dispatch_email_only_permitted_witness:
  "\<exists>summary s'. dispatch_email_asset (demo_outside ''m'') (worker_env 5) 20 mail_db = Inr (Dispatched summary, s')
     \<and> dict_get summary ''sent'' = JInt 1
     \<and> (\<forall>a\<in>set (attempts s'). att_status a = ''sent'' \<longrightarrow> att_recipient a = ''bob@corp.io'')"
proof -
  obtain rows s' where run: "dispatch_email_asset (demo_outside ''m'') (worker_env 5) 20 mail_db
      = Inr (Dispatched (dispatch_summary rows 0 0 1 False), s')" "count_status [''sent''] rows = 1"
    using demo_dispatch [of "''m''"] by auto
  have asset: "get_asset 20 mail_db = Some (demo_asset TEmail AScheduled [])" by (simp add: get_asset_def find_row_def)
  have ms: "load_audience_members 7 mail_db = [demo_member]"
    by (simp add: load_audience_members_def demo_audience_def demo_member_def)
  from dispatch_email_only_permitted [OF run(1) asset] ms
  have "\<forall>a\<in>set (attempts s'). att_status a = ''sent'' \<longrightarrow> att_recipient a = ''bob@corp.io''"
    by (auto simp: demo_mail_facts)
  moreover have "dict_get (dispatch_summary rows 0 0 1 False) ''sent'' = JInt 1" by (simp add: dict_get_summary run(2))
  ultimately show ?thesis using run(1) by blast
qed

theorem dispatch_email_accounts_witness:
  "\<exists>summary s' a'. dispatch_email_asset (demo_outside ''m'') (worker_env 5) 20 mail_db = Inr (Dispatched summary, s')
     \<and> get_asset 20 s' = Some a' \<and> asset_status_of a' = APublished"
proof -
  obtain rows s' where run: "dispatch_email_asset (demo_outside ''m'') (worker_env 5) 20 mail_db
      = Inr (Dispatched (dispatch_summary rows 0 0 1 False), s')"
    using demo_dispatch [of "''m''"] by auto
  have asset: "get_asset 20 mail_db = Some (demo_asset TEmail AScheduled [])" by (simp add: get_asset_def find_row_def)
  from dispatch_email_accounts [OF run asset] run show ?thesis by blast
qed

theorem missing_message_id_loses_sends_witness:
  "\<exists>summary s'. dispatch_email_asset (demo_outside []) (worker_env 5) 20 mail_db = Inr (Dispatched summary, s')
     \<and> dict_get summary ''sent'' = JInt 0"
proof -
  obtain rows s' where run: "dispatch_email_asset (demo_outside []) (worker_env 5) 20 mail_db
      = Inr (Dispatched (dispatch_summary rows 0 0 1 False), s')"
    using demo_dispatch [of "[]"] by auto
  moreover have "(demo_outside [])\<lparr>out_post := (\<lambda>_ _. Http_Response 202 [])\<rparr> = demo_outside []" by (simp add: demo_outside_def)
  ultimately have "dispatch_email_asset ((demo_outside [])\<lparr>out_post := (\<lambda>_ _. Http_Response 202 [])\<rparr>) (worker_env 5) 20 mail_db
      = Inr (Dispatched (dispatch_summary rows 0 0 1 False), s')" by (simp only:)
  from missing_message_id_loses_sends [OF this] run
  show ?thesis by blast
qed

definition paused_post_db :: db where
  "paused_post_db = demo_db Paused (demo_asset TSocialPost AScheduled []\<lparr>asset_channel_id := Some 8\<rparr>)"

theorem dispatch_social_outcomes_witness:
  "dispatch_social_asset (demo_outside []) (worker_env 5) 20 paused_post_db = Inr (Social_Paused, paused_post_db)"
proof -
  have get: "get_asset 20 paused_post_db = Some (demo_asset TSocialPost AScheduled []\<lparr>asset_channel_id := Some 8\<rparr>)"
    by (simp add: paused_post_db_def get_asset_def find_row_def)
  have camp: "get_campaign (asset_campaign_id (demo_asset TSocialPost AScheduled []\<lparr>asset_channel_id := Some 8\<rparr>)) paused_post_db
      = Some (demo_campaign Paused)"
    by (simp add: paused_post_db_def get_campaign_def find_row_def)
  obtain s' where run: "dispatch_social_asset (demo_outside []) (worker_env 5) 20 paused_post_db = Inr (Social_Paused, s')"
    using get camp by (simp add: dispatch_social_asset_def)
  from dispatch_social_outcomes [OF run get camp] run show ?thesis by simp
qed

end
