(* ===== verification/Unsubscribe.thy ===== *)
theory Unsubscribe
  imports Dispatch "HOL-Library.Countable"
begin

text \<open>
  The public unsubscribe endpoint of \<^verbatim>\<open>app/api/unsubscribe.py\<close>. Tokens are made and read by
  \<^verbatim>\<open>itsdangerous.URLSafeSerializer\<close>: \<open>out_dumps\<close> of \<open>outside\<close> signs, and \<open>loads\<close> reads (\<open>None\<close> is
  \<^verbatim>\<open>BadSignature\<close>), both with the salt of the endpoint.
\<close>

definition candidate_secrets :: "string \<Rightarrow> db \<Rightarrow> string list" where
  "candidate_secrets fallback s =
     (let own = filter (\<lambda>k. k \<noteq> []) (List.map_filter cs_unsubscribe_secret (compliance_settings_rows s))
      in if fallback \<noteq> [] \<and> fallback \<notin> set own then own @ [fallback] else own)"

definition token_keys :: "string list" where
  "token_keys = [''tenant_id'', ''channel_platform'', ''identifier'']"

fun verify_with :: "(string \<Rightarrow> string \<Rightarrow> json option) \<Rightarrow> string \<Rightarrow> string list \<Rightarrow> dict option" where
  "verify_with loads token [] = None"
| "verify_with loads token (k # ks) =
     (case loads k token of
        Some (JObj d) \<Rightarrow> if set token_keys \<subseteq> fst ` set d then Some d else verify_with loads token ks
      | _ \<Rightarrow> verify_with loads token ks)"

definition verify_token :: "(string \<Rightarrow> string \<Rightarrow> json option) \<Rightarrow> string \<Rightarrow> string \<Rightarrow> db \<Rightarrow> dict res" where
  "verify_token loads fallback token s =
     (case verify_with loads token (candidate_secrets fallback s) of
        None \<Rightarrow> Inl (HTTPException 404) | Some d \<Rightarrow> Inr d)"

definition platform_of :: "json \<Rightarrow> channel_platform option" where
  "platform_of v = List.find (\<lambda>p. v = JStr (platform_value p))
     [PEmail, PLinkedin, PX, PMeta, PInstagram, PGoogleAds, PMetaAds, PWeb, PBlog, PSms]"

definition same_entry :: "uuid \<Rightarrow> channel_platform \<Rightarrow> string \<Rightarrow> suppression_entry \<Rightarrow> bool" where
  "same_entry tenant platform identifier r \<longleftrightarrow>
     sup_tenant_id r = tenant \<and> sup_platform r = platform \<and> py_lower (sup_identifier r) = py_lower identifier"

record unsubscribe_response =
  un_tenant_id :: uuid
  un_channel_platform :: channel_platform
  un_identifier :: string
  un_suppressed_at :: instant
  un_already_existed :: bool

definition suppress ::
  "env \<Rightarrow> uuid \<Rightarrow> channel_platform \<Rightarrow> string \<Rightarrow> db \<Rightarrow> (unsubscribe_response \<times> db) res" where
  "suppress e tenant platform identifier s =
     (if list_ex (same_entry tenant platform identifier) (suppressions s)
      then case filter (same_entry tenant platform identifier) (suppressions s) of
             [r] \<Rightarrow> Inr (\<lparr>un_tenant_id = tenant, un_channel_platform = platform, un_identifier = identifier, un_suppressed_at = sup_suppressed_at r,
                      un_already_existed = True\<rparr>, s)
           | _ \<Rightarrow> Inl MultipleResultsFound
      else let (i, s1) = fresh_uuid s;
               row = \<lparr>sup_id = i, sup_tenant_id = tenant, sup_platform = platform, sup_identifier = identifier,
                      sup_reason = ''unsubscribe'', sup_suppressed_at = env_now e, sup_source_event_id = None\<rparr>
           in Inr (\<lparr>un_tenant_id = tenant, un_channel_platform = platform, un_identifier = identifier, un_suppressed_at = env_now e,
                     un_already_existed = False\<rparr>,
                write_audit e tenant ''suppression_entry'' i ''unsubscribed'' None
                  (Some (SnapDict [(''channel_platform'', JStr (platform_value platform)), (''identifier'', JStr identifier),
                     (''reason'', JStr ''unsubscribe'')]))
                  [(''source'', JStr ''public_token'')] (s1\<lparr>suppressions := suppressions s1 @ [row]\<rparr>)))"

definition token_tenant :: "json \<Rightarrow> uuid res" where
  "token_tenant v =
     (case v of
        JStr t \<Rightarrow> (case uuid_of_str t of None \<Rightarrow> Inl ValueError | Some u \<Rightarrow> Inr u)
      | _ \<Rightarrow> Inl AttributeError)"

definition consume_unsubscribe_token ::
  "(string \<Rightarrow> string \<Rightarrow> json option) \<Rightarrow> string \<Rightarrow> env \<Rightarrow> string \<Rightarrow> db \<Rightarrow> (unsubscribe_response \<times> db) res" where
  "consume_unsubscribe_token loads fallback e token s =
     (case verify_token loads fallback token s of
        Inl err \<Rightarrow> Inl err
      | Inr payload \<Rightarrow>
          (case token_tenant (dict_get payload ''tenant_id'') of
             Inl err \<Rightarrow> Inl err
           | Inr tenant \<Rightarrow>
               (case platform_of (dict_get payload ''channel_platform'') of
                  None \<Rightarrow> Inl (HTTPException 404)
                | Some platform \<Rightarrow>
                    (case dict_get payload ''identifier'' of
                       JStr identifier \<Rightarrow> suppress e tenant platform identifier s
                     | JNull \<Rightarrow> Inl IntegrityError
                     | _ \<Rightarrow> Inl DataError))))"

section \<open>Tokens\<close>

text \<open>What the signing library promises: a token is read back by the key that signed it, and rejected by
  every other key.\<close>

definition signs :: "(string \<Rightarrow> dict \<Rightarrow> string) \<Rightarrow> (string \<Rightarrow> string \<Rightarrow> json option) \<Rightarrow> bool" where
  "signs dumps loads \<longleftrightarrow>
     (\<forall>k d. loads k (dumps k d) = Some (JObj d)) \<and> (\<forall>k k' d. k \<noteq> k' \<longrightarrow> loads k' (dumps k d) = None)"

lemma verify_with_signed:
  assumes "signs dumps loads" "k \<in> set ks" "set token_keys \<subseteq> fst ` set d"
  shows "verify_with loads (dumps k d) ks = Some d"
  using assms(2)
proof (induction ks)
  case (Cons k' ks)
  with assms(1,3) show ?case by (cases "k' = k") (auto simp: signs_def)
qed simp

lemma verify_with_unsigned:
  assumes "signs dumps loads"
  shows "k \<notin> set ks \<Longrightarrow> verify_with loads (dumps k d) ks = None"
  using assms by (induction ks) (auto simp: signs_def)

lemma consume_signed:
  assumes "signs dumps loads" "k \<in> set (candidate_secrets fallback s)" "tenant < 2 ^ 128"
  shows "consume_unsubscribe_token loads fallback e (dumps k (token_payload tenant email)) s
    = suppress e tenant PEmail (py_lower email) s"
proof -
  have "verify_token loads fallback (dumps k (token_payload tenant email)) s = Inr (token_payload tenant email)"
    using verify_with_signed [OF assms(1,2)] by (simp add: verify_token_def token_payload_def token_keys_def)
  then show ?thesis
    using assms(3) by (simp add: consume_unsubscribe_token_def token_payload_def dict_get_def token_tenant_def
        uuid_roundtrip platform_of_def)
qed

lemma own_secret_is_candidate:
  assumes "row = None \<or> (\<exists>r. row = Some r \<and> r \<in> set (compliance_settings_rows s))" "out_share_secret out \<noteq> []"
  shows "unsubscribe_secret out row \<in> set (candidate_secrets (out_share_secret out) s)"
proof -
  have "out_share_secret out \<in> set (candidate_secrets (out_share_secret out) s)"
    using assms(2) by (auto simp: candidate_secrets_def Let_def)
  moreover have "k \<in> set (candidate_secrets (out_share_secret out) s)"
    if "r \<in> set (compliance_settings_rows s)" "cs_unsubscribe_secret r = Some k" "k \<noteq> []" for r k
    using that by (auto simp: candidate_secrets_def Let_def set_map_filter)
  ultimately show ?thesis using assms(1) by (auto simp: unsubscribe_secret_def split: option.splits)
qed

lemma compliance_row_in:
  assumes "compliance_row tenant s = Inr row"
  shows "row = None \<or> (\<exists>r. row = Some r \<and> r \<in> set (compliance_settings_rows s))"
proof (cases row)
  case (Some r)
  let ?rows = "filter (\<lambda>r. cs_tenant_id r = tenant) (compliance_settings_rows s)"
  have "scalar_one_or_none ?rows = Some (Some r)"
    using assms Some by (cases "scalar_one_or_none ?rows") (simp_all add: compliance_row_def)
  then have "?rows = [r]" by (simp add: scalar_one_or_none_Some_Some)
  then have "r \<in> set ?rows" by simp
  then show ?thesis using Some by simp
qed simp

section \<open>Suppression takes effect\<close>

definition suppression_inv :: "db \<Rightarrow> bool" where
  "suppression_inv s \<longleftrightarrow>
     distinct (map (\<lambda>r. (sup_tenant_id r, sup_platform r, py_lower (sup_identifier r))) (suppressions s))"

lemma suppress_existing:
  assumes inv: "suppression_inv s" and ex: "list_ex (same_entry tenant platform x) (suppressions s)"
  shows "\<exists>resp. suppress e tenant platform x s = Inr (resp, s) \<and> un_already_existed resp"
proof -
  let ?key = "\<lambda>r. (sup_tenant_id r, sup_platform r, py_lower (sup_identifier r))"
  have eq: "same_entry tenant platform x = (\<lambda>r. ?key r = (tenant, platform, py_lower x))"
    by (rule ext) (simp add: same_entry_def)
  obtain r where r: "r \<in> set (suppressions s)" "?key r = (tenant, platform, py_lower x)"
    using ex unfolding eq list_ex_iff by blast
  have "filter (same_entry tenant platform x) (suppressions s) = [r]"
    using filter_key_one [of ?key, OF inv [unfolded suppression_inv_def] r(1)] unfolding eq r(2) .
  then show ?thesis unfolding suppress_def if_P [OF ex] by simp
qed

lemma suppress_fresh:
  assumes inv: "suppression_inv s" and fresh: "\<not> list_ex (same_entry tenant platform x) (suppressions s)"
  shows "\<exists>resp s'. suppress e tenant platform x s = Inr (resp, s') \<and> suppression_inv s'
    \<and> list_ex (same_entry tenant platform x) (suppressions s') \<and> \<not> un_already_existed resp"
proof -
  let ?row = "\<lparr>sup_id = db_gen s (db_seq s), sup_tenant_id = tenant, sup_platform = platform, sup_identifier = x,
                  sup_reason = ''unsubscribe'', sup_suppressed_at = env_now e, sup_source_event_id = None\<rparr>"
  have same: "same_entry tenant platform x ?row" by (simp add: same_entry_def)
  have new: "(tenant, platform, py_lower x) \<notin> (\<lambda>r. (sup_tenant_id r, sup_platform r, py_lower (sup_identifier r))) ` set (suppressions s)"
    using fresh by (auto simp: same_entry_def list_ex_iff)
  have inv': "suppression_inv s'" if "suppressions s' = suppressions s @ [?row]" for s'
    using inv new unfolding suppression_inv_def that by simp
  show ?thesis unfolding suppress_def if_not_P [OF fresh] Let_def fresh_uuid_def prod.case
    by (intro exI conjI, rule refl) (rule inv', simp_all add: write_audit_def same)
qed

lemma suppress_effect:
  assumes inv: "suppression_inv s"
  shows "\<exists>resp s'. suppress e tenant platform x s = Inr (resp, s') \<and> suppression_inv s'
    \<and> list_ex (same_entry tenant platform x) (suppressions s')"
  using suppress_existing [OF inv, of tenant platform x e] suppress_fresh [OF inv, of tenant platform x e] inv by blast

text \<open>C17. Unsubscribing takes effect: the link a campaign mail carries for an address is accepted by the public
  endpoint, whichever secret signed it; afterwards no campaign mail of the tenant is handed to a
  provider for that address in any spelling; and following the link again changes nothing. It assumes
  of the signing library that a token is read back with its own key only.\<close>

theorem unsubscribe_takes_effect:
  assumes lib: "signs (out_dumps out) loads" and row: "compliance_row tenant s = Inr row"
    and deployed: "out_share_secret out \<noteq> []" "tenant < 2 ^ 128" and inv: "suppression_inv s"
    and link: "link = unsubscribe_token out row tenant email"
  shows "\<exists>resp s'. consume_unsubscribe_token loads (out_share_secret out) e link s = Inr (resp, s')
    \<and> (\<forall>conn inputs p r. email_plan conn tenant inputs s' = Inr p \<and> \<not> truthy (dict_get inputs ''transactional'')
         \<and> r \<in> set (pl_payload p) \<longrightarrow> er_email r \<noteq> py_lower email)
    \<and> (\<forall>e'. \<exists>resp'. consume_unsubscribe_token loads (out_share_secret out) e' link s' = Inr (resp', s') \<and> un_already_existed resp')"
proof -
  let ?k = "unsubscribe_secret out row"
  have consume: "consume_unsubscribe_token loads (out_share_secret out) e' link u = suppress e' tenant PEmail (py_lower email) u"
    if "compliance_settings_rows u = compliance_settings_rows s" for e' u
  proof -
    have "?k \<in> set (candidate_secrets (out_share_secret out) u)"
      using own_secret_is_candidate [of row u out] compliance_row_in [OF row] deployed(1) that by simp
    then show ?thesis unfolding link unsubscribe_token_def by (rule consume_signed [OF lib _ deployed(2)])
  qed
  obtain resp s' where run: "suppress e tenant PEmail (py_lower email) s = Inr (resp, s')" "suppression_inv s'"
    "list_ex (same_entry tenant PEmail (py_lower email)) (suppressions s')" using suppress_effect [OF inv] by blast
  have rows: "compliance_settings_rows s' = compliance_settings_rows s"
    using run(1) by (auto simp: suppress_def fresh_uuid_def write_audit_def Let_def split: if_splits list.splits)
  obtain x where x: "x \<in> set (suppressions s')" "sup_tenant_id x = tenant" "sup_platform x = PEmail"
    "py_lower (sup_identifier x) = py_lower email" using run(3) by (auto simp: list_ex_iff same_entry_def)
  have "er_email r \<noteq> py_lower email"
    if "email_plan conn tenant inputs s' = Inr p" "\<not> truthy (dict_get inputs ''transactional'')" "r \<in> set (pl_payload p)"
    for conn inputs p r
    using email_plan_checked(1) [OF that] x by metis
  moreover have "\<exists>resp'. suppress e' tenant PEmail (py_lower email) s' = Inr (resp', s') \<and> un_already_existed resp'" for e'
    by (rule suppress_existing [OF run(2,3)])
  then have "\<forall>e'. \<exists>resp'. consume_unsubscribe_token loads (out_share_secret out) e' link s' = Inr (resp', s') \<and> un_already_existed resp'"
    by (simp add: consume [OF rows])
  moreover have "consume_unsubscribe_token loads (out_share_secret out) e link s = Inr (resp, s')"
    using run(1) by (simp add: consume [OF refl])
  ultimately show ?thesis by blast
qed

text \<open>C23. An unsubscribe secret is not bound to its tenant: a token that tenant \<open>A\<close> signs with its own secret,
  naming tenant \<open>B\<close>, suppresses the address for tenant \<open>B\<close>.\<close>

theorem secret_of_one_tenant_suppresses_for_another:
  assumes lib: "signs dumps loads" and own: "r \<in> set (compliance_settings_rows s)" "cs_tenant_id r = a"
      "cs_unsubscribe_secret r = Some k" "k \<noteq> []"
    and other: "b \<noteq> a" "b < 2 ^ 128" and inv: "suppression_inv s"
  shows "\<exists>resp s'. consume_unsubscribe_token loads fallback e (dumps k (token_payload b email)) s = Inr (resp, s')
    \<and> list_ex (same_entry b PEmail email) (suppressions s')"
proof -
  have "k \<in> set (candidate_secrets fallback s)" using own by (auto simp: candidate_secrets_def Let_def set_map_filter)
  note consume_signed [OF lib this other(2)]
  moreover have "same_entry b PEmail (py_lower email) = same_entry b PEmail email" by (simp add: same_entry_def fun_eq_iff)
  ultimately show ?thesis using suppress_effect [OF inv, of e b PEmail "py_lower email"] by metis
qed

section \<open>Concrete instances\<close>

text \<open>A signer that numbers the pairs of a key and a payload.\<close>

instance json :: countable
  by countable_datatype

definition demo_dumps :: "string \<Rightarrow> dict \<Rightarrow> string" where
  "demo_dumps k d = replicate (to_nat (k, d)) (CHR ''t'')"

definition demo_loads :: "string \<Rightarrow> string \<Rightarrow> json option" where
  "demo_loads k token = (let (k', d) = from_nat (length token) :: string \<times> dict in if k' = k then Some (JObj d) else None)"

lemma demo_signs: "signs demo_dumps demo_loads"
  by (auto simp: signs_def demo_dumps_def demo_loads_def)

definition demo_settings :: compliance_settings where
  "demo_settings = \<lparr>cs_tenant_id = 1, cs_postal_address = Some ''1 Main St'', cs_unsubscribe_secret = Some ''s1'', cs_auto_pause = False\<rparr>"

definition settings_db :: db where
  "settings_db = empty_db\<lparr>compliance_settings_rows := [demo_settings]\<rparr>"

lemma settings_db_inv: "suppression_inv settings_db"
  by (simp add: suppression_inv_def settings_db_def empty_db_def)

theorem unsubscribe_takes_effect_witness:
  "\<exists>out resp s'. consume_unsubscribe_token demo_loads ''x'' (worker_env 5)
       (unsubscribe_token out (Some demo_settings) 1 ''Bob@corp.io'') settings_db = Inr (resp, s')
     \<and> (\<forall>conn p r. email_plan conn 1 demo_inputs s' = Inr p \<and> r \<in> set (pl_payload p) \<longrightarrow> er_email r \<noteq> py_lower ''Bob@corp.io'')"
proof -
  let ?out = "(demo_outside [])\<lparr>out_dumps := demo_dumps, out_share_secret := ''x''\<rparr>"
  have lib: "signs (out_dumps ?out) demo_loads" by (simp add: demo_signs)
  have row: "compliance_row 1 settings_db = Inr (Some demo_settings)"
    by (simp add: compliance_row_def settings_db_def demo_settings_def)
  have dep: "out_share_secret ?out \<noteq> []" "(1::nat) < 2 ^ 128" by simp_all
  have nt: "\<not> truthy (dict_get demo_inputs ''transactional'')" by (simp add: demo_inputs_def dict_get_def)
  from unsubscribe_takes_effect [OF lib row dep settings_db_inv refl, of "worker_env 5" "''Bob@corp.io''"]
  obtain resp s' where run: "consume_unsubscribe_token demo_loads (out_share_secret ?out) (worker_env 5)
       (unsubscribe_token ?out (Some demo_settings) 1 ''Bob@corp.io'') settings_db = Inr (resp, s')"
    and safe: "\<forall>conn inputs p r. email_plan conn 1 inputs s' = Inr p \<and> \<not> truthy (dict_get inputs ''transactional'')
         \<and> r \<in> set (pl_payload p) \<longrightarrow> er_email r \<noteq> py_lower ''Bob@corp.io''" by blast
  have "out_share_secret ?out = ''x''" by simp
  with run safe nt show ?thesis by metis
qed

theorem secret_of_one_tenant_suppresses_for_another_witness:
  "\<exists>resp s'. consume_unsubscribe_token demo_loads [] (worker_env 5) (demo_dumps ''s1'' (token_payload 2 ''bob@corp.io'')) settings_db
       = Inr (resp, s') \<and> list_ex (same_entry 2 PEmail ''bob@corp.io'') (suppressions s')"
  by (rule secret_of_one_tenant_suppresses_for_another [OF demo_signs, of demo_settings _ 1])
    (simp_all add: settings_db_inv, simp_all add: settings_db_def demo_settings_def)

end
