(* ===== verification/Approvals.thy ===== *)
theory Approvals
  imports State_Machine "HOL-Library.Product_Lexorder"
begin

text \<open>
  The approval endpoints of \<^verbatim>\<open>app/api/approvals.py\<close> with the role check and tenant scoping of
  \<^verbatim>\<open>app/api/deps.py\<close>: the queue, the decision history, approving, rejecting and batch approval of
  content assets. Row-level security limits every lookup of a request to the rows of the user's
  tenant. \<open>refused\<close> is the database's refusal of a write inside a savepoint (the error text), \<open>walk\<close> the
  order in which Python iterates a set of identifiers.
\<close>

section \<open>Requests\<close>

fun role_rank :: "user_role \<Rightarrow> nat" where
  "role_rank Viewer = 0"
| "role_rank Marketer = 1"
| "role_rank Manager = 2"
| "role_rank Admin = 3"

definition require_role :: "user_role \<Rightarrow> app_user \<Rightarrow> app_user res" where
  "require_role minimum current =
     (if role_rank (user_role_of current) < role_rank minimum then Inl (HTTPException 403) else Inr current)"

text \<open>The environment of a request of a signed-in user (\<^verbatim>\<open>get_current_user\<close> tags the audit context).\<close>

definition user_env :: "instant \<Rightarrow> app_user \<Rightarrow> env" where
  "user_env now user = \<lparr>env_now = now, env_actor_kind = ''user'', env_actor_id = Some (user_id user), env_listeners = True\<rparr>"

definition tenant_asset :: "app_user \<Rightarrow> uuid \<Rightarrow> db \<Rightarrow> content_asset option" where
  "tenant_asset user i s =
     (case get_asset i s of None \<Rightarrow> None | Some a \<Rightarrow> if asset_tenant_id a = user_tenant_id user then Some a else None)"

definition tenant_campaign :: "app_user \<Rightarrow> uuid \<Rightarrow> db \<Rightarrow> campaign option" where
  "tenant_campaign user i s =
     (case get_campaign i s of None \<Rightarrow> None | Some c \<Rightarrow> if camp_tenant_id c = user_tenant_id user then Some c else None)"

section \<open>Queue and history\<close>

definition overdue_after :: duration where "overdue_after = hours 24"

definition platform_for :: "content_asset \<Rightarrow> string option" where
  "platform_for a =
     (case dict_get (asset_metadata a) ''channel_platform'' of JStr p \<Rightarrow> if p = [] then None else Some p | _ \<Rightarrow> None)"

definition is_compliance_blocked :: "content_asset \<Rightarrow> bool" where
  "is_compliance_blocked a =
     (case dict_get (asset_metadata a) ''compliance'' of JObj d \<Rightarrow> truthy (dict_get d ''blocked'') | _ \<Rightarrow> False)"

record queue_filter =
  qf_campaign_id :: "uuid option"
  qf_channel_platform :: "channel_platform option"
  qf_asset_type :: "asset_type option"
  qf_submitter_id :: "uuid option"

record approval_queue_item =
  qi_asset_id :: uuid
  qi_campaign_id :: uuid
  qi_campaign_name :: string
  qi_campaign_end_date :: date
  qi_asset_type :: asset_type
  qi_channel_platform :: "string option"
  qi_title :: "string option"
  qi_submitter_id :: "uuid option"
  qi_submitted_at :: instant
  qi_overdue :: bool
  qi_compliance_blocked :: bool

definition queue_rows :: "app_user \<Rightarrow> queue_filter \<Rightarrow> db \<Rightarrow> (content_asset \<times> campaign) list" where
  "queue_rows user q s =
     sort_key (\<lambda>(a, c). (camp_end_date c, asset_updated_at a))
       (filter (\<lambda>(a, c). camp_id c = asset_campaign_id a
            \<and> asset_tenant_id a = user_tenant_id user \<and> camp_tenant_id c = user_tenant_id user
            \<and> asset_status_of a = APendingApproval
            \<and> (\<forall>i\<in>set_option (qf_campaign_id q). asset_campaign_id a = i)
            \<and> (\<forall>t\<in>set_option (qf_asset_type q). asset_type_of a = t)
            \<and> (\<forall>u\<in>set_option (qf_submitter_id q). camp_owner_id c = Some u))
         (List.product (assets s) (campaigns s)))"

definition queue_item :: "instant \<Rightarrow> content_asset \<times> campaign \<Rightarrow> approval_queue_item" where
  "queue_item now = (\<lambda>(a, c).
     \<lparr>qi_asset_id = asset_id a, qi_campaign_id = camp_id c, qi_campaign_name = camp_name c,
      qi_campaign_end_date = camp_end_date c, qi_asset_type = asset_type_of a, qi_channel_platform = platform_for a,
      qi_title = asset_title a, qi_submitter_id = camp_owner_id c, qi_submitted_at = asset_updated_at a,
      qi_overdue = (asset_updated_at a < now - overdue_after), qi_compliance_blocked = is_compliance_blocked a\<rparr>)"

definition list_approval_queue ::
  "app_user \<Rightarrow> instant \<Rightarrow> queue_filter \<Rightarrow> db \<Rightarrow> approval_queue_item list res" where
  "list_approval_queue user now q s =
     (case require_role Manager user of
        Inl err \<Rightarrow> Inl err
      | Inr _ \<Rightarrow> Inr (map (queue_item now)
          (filter (\<lambda>(a, c). \<forall>p\<in>set_option (qf_channel_platform q). platform_for a = Some (platform_value p))
             (queue_rows user q s))))"

definition get_approval_history :: "app_user \<Rightarrow> uuid \<Rightarrow> db \<Rightarrow> decision_log list res" where
  "get_approval_history user i s =
     (case require_role Viewer user of
        Inl err \<Rightarrow> Inl err
      | Inr _ \<Rightarrow>
          (case tenant_asset user i s of
             None \<Rightarrow> Inl (HTTPException 404)
           | Some a \<Rightarrow> Inr (sort_key (\<lambda>d. - dec_decided_at d) (filter (\<lambda>d. dec_asset_id d = i) (decisions s)))))"

section \<open>Thresholds\<close>

text \<open>\<^verbatim>\<open>(metadata or {}).get("approval_threshold") or {}\<close>, on which the code calls \<^verbatim>\<open>.get\<close>.\<close>

definition threshold_of :: "content_asset \<Rightarrow> dict res" where
  "threshold_of a =
     (let v = dict_get (asset_metadata a) ''approval_threshold''
      in if truthy v then (case v of JObj d \<Rightarrow> Inr d | _ \<Rightarrow> Inl AttributeError) else Inr [])"

definition currency_of :: "dict \<Rightarrow> json" where
  "currency_of snap = (let v = dict_get snap ''currency'' in if truthy v then v else JStr ''USD'')"

text \<open>\<^verbatim>\<open>budget > amount\<close> on decimals; ordering against a NaN raises.\<close>

fun budget_above :: "money \<Rightarrow> decimal \<Rightarrow> bool res" where
  "budget_above m (DNum q) = Inr (q < of_int m / 100)"
| "budget_above m (DInf neg) = Inr neg"
| "budget_above m DNaN = Inl InvalidOperation"

definition applied_threshold :: "dict \<Rightarrow> campaign \<Rightarrow> json \<Rightarrow> dict" where
  "applied_threshold snap camp skipped =
     [(''admin_required_above_amount'', dict_get snap ''admin_required_above_amount''),
      (''snapshot_currency'', currency_of snap),
      (''campaign_budget'', JStr (money_str (camp_budget_total camp))),
      (''campaign_currency'', JStr (camp_currency camp)),
      (''snapshot_taken_at'', dict_get snap ''snapshot_taken_at''),
      (''skipped'', skipped)]"

definition evaluate_threshold :: "content_asset \<Rightarrow> campaign \<Rightarrow> (bool \<times> dict) res" where
  "evaluate_threshold a camp =
     (case threshold_of a of
        Inl err \<Rightarrow> Inl err
      | Inr snap \<Rightarrow>
          (let raw = dict_get snap ''admin_required_above_amount''
           in if raw = JNull then Inr (False, applied_threshold snap camp (JStr ''no_threshold_configured''))
              else if currency_of snap \<noteq> JStr (camp_currency camp)
                then Inr (False, applied_threshold snap camp (JStr ''currency_mismatch''))
              else (case decimal_of raw of
                      None \<Rightarrow> Inr (False, applied_threshold snap camp (JStr ''invalid_threshold_value''))
                    | Some d \<Rightarrow> map_sum id (\<lambda>b. (b, applied_threshold snap camp JNull))
                                  (budget_above (camp_budget_total camp) d))))"

definition exceeds_auto_approval_cap :: "content_asset \<Rightarrow> campaign \<Rightarrow> (bool \<times> decimal option) res" where
  "exceeds_auto_approval_cap a camp =
     (case threshold_of a of
        Inl err \<Rightarrow> Inl err
      | Inr snap \<Rightarrow>
          (let v = dict_get snap ''auto_approval_cap_amount''; raw = (if v = JNull then JStr ''0'' else v)
           in if currency_of snap \<noteq> JStr (camp_currency camp) then Inr (False, None)
              else (case decimal_of raw of
                      None \<Rightarrow> Inr (False, None)
                    | Some cap \<Rightarrow> map_sum id (\<lambda>b. (b, Some cap)) (budget_above (camp_budget_total camp) cap))))"

section \<open>Approve\<close>

record approve_request =
  ap_edited_content :: "string option"
  ap_edited_fields :: "(string \<times> string) list option"
  ap_note :: "string option"

text \<open>\<^verbatim>\<open>dict(v)\<close> of a JSON value: a dictionary, or a sequence of pairs whose keys a JSON document then
  spells as text.\<close>

fun key_text :: "json \<Rightarrow> string option" where
  "key_text (JStr k) = Some k"
| "key_text (JBool b) = Some (if b then ''true'' else ''false'')"
| "key_text (JInt i) = Some (int_str i)"
| "key_text (JFloat q) = Some (float_repr q)"
| "key_text JNull = Some ''null''"
| "key_text _ = None"

definition pair_of :: "json \<Rightarrow> (string \<times> json) res" where
  "pair_of v =
     (case py_iter v of
        Some [k, x] \<Rightarrow> (case key_text k of None \<Rightarrow> Inl TypeError | Some t \<Rightarrow> Inr (t, x))
      | Some _ \<Rightarrow> Inl ValueError
      | None \<Rightarrow> Inl TypeError)"

fun dict_of_pairs :: "json list \<Rightarrow> dict \<Rightarrow> dict res" where
  "dict_of_pairs [] d = Inr d"
| "dict_of_pairs (v # vs) d =
     (case pair_of v of Inl err \<Rightarrow> Inl err | Inr (k, x) \<Rightarrow> dict_of_pairs vs (dict_set d k x))"

definition py_dict :: "json \<Rightarrow> dict res" where
  "py_dict v =
     (case v of
        JObj d \<Rightarrow> Inr d
      | _ \<Rightarrow> (case py_iter v of None \<Rightarrow> Inl TypeError | Some xs \<Rightarrow> dict_of_pairs xs []))"

definition text_fields :: "(string \<times> string) list \<Rightarrow> dict" where
  "text_fields kvs = map (\<lambda>(k, v). (k, JStr v)) kvs"

definition merge_fields :: "json \<Rightarrow> (string \<times> string) list \<Rightarrow> dict res" where
  "merge_fields existing overrides = map_sum id (\<lambda>d. dict_merge d (text_fields overrides)) (py_dict existing)"

definition has_edits :: "approve_request \<Rightarrow> bool" where
  "has_edits body \<longleftrightarrow> ap_edited_content body \<noteq> None \<or> ap_edited_fields body \<notin> {None, Some []}"

definition edits_payload :: "content_asset \<Rightarrow> approve_request \<Rightarrow> dict res" where
  "edits_payload a body =
     (let old = dict_get_default (asset_metadata a) ''fields'' (JObj [])
      in case py_dict old of
           Inl err \<Rightarrow> Inl err
         | Inr previous \<Rightarrow>
             map_sum id (\<lambda>current.
               [(''previous_content'', opt_json JStr (asset_content a)),
                (''previous_fields'', JObj previous),
                (''current_content'', opt_json JStr
                   (case ap_edited_content body of None \<Rightarrow> asset_content a | Some c \<Rightarrow> Some c)),
                (''current_fields'', JObj current)]
               @ (case ap_note body of Some n \<Rightarrow> if n = [] then [] else [(''note'', JStr n)] | None \<Rightarrow> []))
               (merge_fields old (case ap_edited_fields body of None \<Rightarrow> [] | Some kvs \<Rightarrow> kvs)))"

definition edit_content :: "approve_request \<Rightarrow> content_asset \<Rightarrow> content_asset" where
  "edit_content body a =
     (case ap_edited_content body of None \<Rightarrow> a | Some c \<Rightarrow> a\<lparr>asset_content := Some c\<rparr>)"

definition apply_edits :: "approve_request \<Rightarrow> content_asset \<Rightarrow> content_asset res" where
  "apply_edits body a =
     (case ap_edited_fields body of
        Some (kv # kvs) \<Rightarrow>
          (let v = dict_get (asset_metadata a) ''fields''
           in map_sum id (\<lambda>d. set_meta ''fields'' (JObj (dict_merge d (text_fields (kv # kvs)))) (edit_content body a))
                (if truthy v then py_dict v else Inr []))
      | _ \<Rightarrow> Inr (edit_content body a))"

text \<open>The edits of a request: the payload logged (\<open>None\<close> without edits) and the edited asset.\<close>

definition edited :: "approve_request \<Rightarrow> content_asset \<Rightarrow> (dict option \<times> content_asset) res" where
  "edited body a =
     (if \<not> has_edits body then Inr (None, a)
      else case edits_payload a body of
             Inl err \<Rightarrow> Inl err
           | Inr p \<Rightarrow> map_sum id (\<lambda>a'. (Some p, a')) (apply_edits body a))"

definition load_asset_and_campaign :: "app_user \<Rightarrow> uuid \<Rightarrow> db \<Rightarrow> (content_asset \<times> campaign) res" where
  "load_asset_and_campaign user i s =
     (case tenant_asset user i s of
        None \<Rightarrow> Inl (HTTPException 404)
      | Some a \<Rightarrow>
          (case tenant_campaign user (asset_campaign_id a) s of
             None \<Rightarrow> Inl (HTTPException 404)
           | Some c \<Rightarrow> Inr (a, c)))"

definition decided :: "content_asset \<Rightarrow> asset_status \<Rightarrow> content_asset \<Rightarrow> content_asset" where
  "decided a status r =
     r\<lparr>asset_status_of := status, asset_content := asset_content a, asset_metadata := asset_metadata a\<rparr>"

text \<open>A decision on the asset as edited in memory: the log row, the \<^verbatim>\<open>UPDATE\<close> of the changed columns, the audit
  entry.\<close>

definition decide ::
  "env \<Rightarrow> app_user \<Rightarrow> content_asset \<Rightarrow> approval_decision \<Rightarrow> string option \<Rightarrow> dict option \<Rightarrow> asset_status
     \<Rightarrow> string \<Rightarrow> dict \<Rightarrow> db \<Rightarrow> decision_log \<times> db" where
  "decide e user a kind reason edits status action meta s =
     (let (i, s1) = fresh_uuid s;
          d = \<lparr>dec_id = i, dec_asset_id = asset_id a, dec_reviewer_id = user_id user, dec_decision = kind,
               dec_reason = reason, dec_edits = edits, dec_decided_at = env_now e\<rparr>;
          s2 = modify_asset e (asset_id a) (decided a status) (s1\<lparr>decisions := decisions s1 @ [d]\<rparr>)
      in (d, write_audit e (asset_tenant_id a) ''content_asset'' (asset_id a) action (Some (SnapAsset a))
               (Some (SnapAsset (a\<lparr>asset_status_of := status\<rparr>))) ((''decision_id'', JStr (uuid_str i)) # meta) s2))"

definition maybe_advance_to_ready_to_launch :: "state_machine \<Rightarrow> env \<Rightarrow> campaign \<Rightarrow> db \<Rightarrow> db res" where
  "maybe_advance_to_ready_to_launch sm e camp s =
     (if camp_status camp \<noteq> ApprovalPending then Inr s
      else map_sum id (\<lambda>r. case r of None \<Rightarrow> s | Some (_, s') \<Rightarrow> s') (try_apply sm e camp ''start_launch'' s))"

definition maybe_revert_to_content_in_production :: "state_machine \<Rightarrow> env \<Rightarrow> campaign \<Rightarrow> db \<Rightarrow> db res" where
  "maybe_revert_to_content_in_production sm e camp s =
     (if camp_status camp \<noteq> ApprovalPending then Inr s
      else map_sum id (\<lambda>r. case r of None \<Rightarrow> s | Some (_, s') \<Rightarrow> s')
             (try_apply sm e camp ''regenerate_after_rejection'' s))"

definition approvable :: "content_asset \<Rightarrow> bool" where
  "approvable a \<longleftrightarrow> asset_status_of a \<in> {APendingApproval, ARejected}"

definition approve_asset ::
  "state_machine \<Rightarrow> instant \<Rightarrow> app_user \<Rightarrow> uuid \<Rightarrow> approve_request \<Rightarrow> db \<Rightarrow> (decision_log \<times> db) res" where
  "approve_asset sm now user i body s =
     (case require_role Manager user of
        Inl err \<Rightarrow> Inl err
      | Inr _ \<Rightarrow>
     (case load_asset_and_campaign user i s of
        Inl err \<Rightarrow> Inl err
      | Inr (a, camp) \<Rightarrow>
          if \<not> approvable a then Inl (HTTPException 409)
          else if is_compliance_blocked a then Inl (HTTPException 422)
          else (case evaluate_threshold a camp of
             Inl err \<Rightarrow> Inl err
           | Inr (requires_admin, applied) \<Rightarrow>
               if requires_admin \<and> user_role_of user \<noteq> Admin then Inl (HTTPException 403)
               else (case edited body a of
                  Inl err \<Rightarrow> Inl err
                | Inr (edits, a') \<Rightarrow>
                    (let (d, s1) = decide (user_env now user) user a'
                           (if edits = None then DApproved else DApprovedWithEdits) (ap_note body) edits AApproved
                           (if edits = None then ''approved'' else ''approved_with_edits'')
                           [(''applied_threshold'', JObj applied)] s
                     in map_sum id (Pair d) (maybe_advance_to_ready_to_launch sm (user_env now user) camp s1))))))"

section \<open>Reject\<close>

record reject_request =
  rj_reason :: string
  rj_category :: rejection_category

definition regenerate_task :: "app_user \<Rightarrow> agent \<Rightarrow> content_asset \<Rightarrow> reject_request \<Rightarrow> enqueue_request" where
  "regenerate_task user ag a body =
     (request (asset_tenant_id a) (ag_id ag) ''content_creator.generate_asset''
        [(''asset_id'', JStr (uuid_str (asset_id a))), (''campaign_id'', JStr (uuid_str (asset_campaign_id a))),
         (''triggered_by_user_id'', JStr (uuid_str (user_id user))), (''rejection_reason'', JStr (rj_reason body)),
         (''rejection_category'', JStr (category_value (rj_category body)))])
       \<lparr>rq_campaign_id := Some (asset_campaign_id a)\<rparr>"

definition reject_asset ::
  "state_machine \<Rightarrow> instant \<Rightarrow> app_user \<Rightarrow> uuid \<Rightarrow> reject_request \<Rightarrow> db \<Rightarrow> (decision_log \<times> db) res" where
  "reject_asset sm now user i body s =
     (case require_role Manager user of
        Inl err \<Rightarrow> Inl err
      | Inr _ \<Rightarrow>
          if rj_reason body = [] \<or> 2000 < length (rj_reason body) then Inl (HTTPException 422)
          else (case load_asset_and_campaign user i s of
             Inl err \<Rightarrow> Inl err
           | Inr (a, camp) \<Rightarrow>
               if asset_status_of a \<noteq> APendingApproval then Inl (HTTPException 409)
               else
                 (let e = user_env now user;
                      category = JStr (category_value (rj_category body));
                      (d, s1) = decide e user a DRejected (Some (rj_reason body)) (Some [(''category'', category)])
                                  ARejected ''rejected'' [(''category'', category)] s
                  in case ensure_content_creator_agent e (asset_tenant_id a) s1 of
                       Inl err \<Rightarrow> Inl err
                     | Inr (ag, s2) \<Rightarrow>
                         (case enqueue_task e (regenerate_task user ag a body) s2 of
                            Inl err \<Rightarrow> Inl err
                          | Inr (t, s3) \<Rightarrow>
                              map_sum id (Pair d) (maybe_revert_to_content_in_production sm e camp s3)))))"

section \<open>Batch approval\<close>

datatype exclusion =
    NotFound
  | MissingCampaign
  | WrongStatus asset_status
  | ComplianceBlocked
  | AboveAutoApprovalCap money "decimal option" string
  | RequiresAdminRole money string string
  | WriteFailed string

fun exclusion_reason :: "exclusion \<Rightarrow> string" where
  "exclusion_reason NotFound = ''not_found''"
| "exclusion_reason MissingCampaign = ''not_found''"
| "exclusion_reason (WrongStatus _) = ''wrong_status''"
| "exclusion_reason ComplianceBlocked = ''compliance_blocked''"
| "exclusion_reason (AboveAutoApprovalCap _ _ _) = ''above_auto_approval_cap''"
| "exclusion_reason (RequiresAdminRole _ _ _) = ''requires_admin_role''"
| "exclusion_reason (WriteFailed _) = ''write_failed''"

text \<open>The filters of the loop, in their order: an exclusion, or the asset, its campaign and the threshold
  that was applied.\<close>

definition screen ::
  "app_user \<Rightarrow> uuid \<Rightarrow> db \<Rightarrow> (exclusion + content_asset \<times> campaign \<times> dict) res" where
  "screen user i s =
     (case tenant_asset user i s of
        None \<Rightarrow> Inr (Inl NotFound)
      | Some a \<Rightarrow>
     (case tenant_campaign user (asset_campaign_id a) s of
        None \<Rightarrow> Inr (Inl MissingCampaign)
      | Some camp \<Rightarrow>
          if \<not> approvable a then Inr (Inl (WrongStatus (asset_status_of a)))
          else if is_compliance_blocked a then Inr (Inl ComplianceBlocked)
          else (case exceeds_auto_approval_cap a camp of
             Inl err \<Rightarrow> Inl err
           | Inr (exceeds, cap) \<Rightarrow>
               if exceeds then Inr (Inl (AboveAutoApprovalCap (camp_budget_total camp) cap (camp_currency camp)))
               else (case evaluate_threshold a camp of
                  Inl err \<Rightarrow> Inl err
                | Inr (requires_admin, applied) \<Rightarrow>
                    if requires_admin \<and> user_role_of user \<noteq> Admin
                    then Inr (Inl (RequiresAdminRole (camp_budget_total camp)
                           (py_str (dict_get applied ''admin_required_above_amount'')) (camp_currency camp)))
                    else Inr (Inr (a, camp, applied))))))"

record batch =
  bt_approved :: "(uuid \<times> uuid option) list"
  bt_excluded :: "(uuid \<times> exclusion) list"
  bt_channel_counts :: "(string \<times> nat) list"
  bt_campaigns :: "campaign list"  \<comment> \<open>of \<^verbatim>\<open>approved_campaign_ids\<close>, in order of first approval\<close>
  bt_currency :: "string option"

definition empty_batch :: batch where
  "empty_batch = \<lparr>bt_approved = [], bt_excluded = [], bt_channel_counts = [], bt_campaigns = [], bt_currency = None\<rparr>"

definition count_channel :: "string \<Rightarrow> (string \<times> nat) list \<Rightarrow> (string \<times> nat) list" where
  "count_channel p counts = AList.update p (Suc (case map_of counts p of None \<Rightarrow> 0 | Some n \<Rightarrow> n)) counts"

definition exclude :: "uuid \<Rightarrow> exclusion \<Rightarrow> batch \<Rightarrow> batch" where
  "exclude i x b = b\<lparr>bt_excluded := bt_excluded b @ [(i, x)]\<rparr>"

definition accept :: "uuid \<Rightarrow> uuid option \<Rightarrow> batch \<Rightarrow> batch" where
  "accept i d b = b\<lparr>bt_approved := bt_approved b @ [(i, d)]\<rparr>"

definition tally :: "content_asset \<Rightarrow> campaign \<Rightarrow> batch \<Rightarrow> batch" where
  "tally a camp b = b\<lparr>
     bt_channel_counts := count_channel
       (case platform_for a of Some p \<Rightarrow> p | None \<Rightarrow> asset_type_value (asset_type_of a)) (bt_channel_counts b),
     bt_campaigns := (if camp_id camp \<in> camp_id ` set (bt_campaigns b) then bt_campaigns b else bt_campaigns b @ [camp]),
     bt_currency := (if bt_currency b \<in> {None, Some []} then Some (camp_currency camp) else bt_currency b)\<rparr>"

definition batch_item ::
  "(uuid \<Rightarrow> string option) \<Rightarrow> env \<Rightarrow> app_user \<Rightarrow> bool \<Rightarrow> uuid \<Rightarrow> batch \<times> db \<Rightarrow> (batch \<times> db) res" where
  "batch_item refused e user dry i = (\<lambda>(b, s).
     case screen user i s of
       Inl err \<Rightarrow> Inl err
     | Inr (Inl x) \<Rightarrow> Inr (exclude i x b, s)
     | Inr (Inr (a, camp, applied)) \<Rightarrow>
         (let b' = tally a camp b
          in if dry then Inr (accept i None b', s)
             else case refused i of
                    Some err \<Rightarrow> Inr (exclude i (WriteFailed (take 200 err)) b', s)
                  | None \<Rightarrow>
                      (let (d, s1) = decide e user a DApproved None (Some [(''batch'', JBool True)]) AApproved ''approved''
                             [(''applied_threshold'', JObj applied), (''via'', JStr ''batch_approve'')] s
                       in Inr (accept i (Some (dec_id d)) b', s1))))"

record batch_response =
  br_channel_counts :: "(string \<times> nat) list"
  br_total_spend_exposed :: string
  br_currency :: string
  br_would_approve_count :: nat
  br_excluded_count :: nat
  br_approved :: "(uuid \<times> uuid option) list"
  br_excluded :: "(uuid \<times> exclusion) list"
  br_dry_run :: bool

definition batch_response_of :: "bool \<Rightarrow> batch \<Rightarrow> batch_response" where
  "batch_response_of dry b =
     \<lparr>br_channel_counts = bt_channel_counts b,
      br_total_spend_exposed =
        (if bt_campaigns b = [] then ''0'' else money_str (sum_list (map camp_budget_total (bt_campaigns b)))),
      br_currency = (case bt_currency b of None \<Rightarrow> ''USD'' | Some c \<Rightarrow> if c = [] then ''USD'' else c),
      br_would_approve_count = length (bt_approved b), br_excluded_count = length (bt_excluded b),
      br_approved = bt_approved b, br_excluded = bt_excluded b, br_dry_run = dry\<rparr>"

definition batch_approve ::
  "state_machine \<Rightarrow> (uuid \<Rightarrow> string option) \<Rightarrow> (campaign list \<Rightarrow> campaign list) \<Rightarrow> instant \<Rightarrow> app_user
     \<Rightarrow> uuid list \<Rightarrow> bool \<Rightarrow> db \<Rightarrow> (batch_response \<times> db) res" where
  "batch_approve sm refused walk now user ids dry s =
     (case require_role Manager user of
        Inl err \<Rightarrow> Inl err
      | Inr _ \<Rightarrow>
          if ids = [] \<or> 200 < length ids then Inl (HTTPException 422)
          else (case for_each (batch_item refused (user_env now user) user dry) ids (empty_batch, s) of
             Inl err \<Rightarrow> Inl err
           | Inr (b, s1) \<Rightarrow>
               map_sum id (Pair (batch_response_of dry b))
                 (if dry then Inr s1
                  else for_each (maybe_advance_to_ready_to_launch sm (user_env now user)) (walk (bt_campaigns b)) s1)))"

section \<open>What a decision changes\<close>

lemma decided_id [simp]: "asset_id (decided a st r) = asset_id r"
  by (simp add: decided_def)

lemma decide_frame [simp]:
  "decisions (snd (decide e user a kind reason edits st act meta s)) = decisions s @ [fst (decide e user a kind reason edits st act meta s)]"
  "campaigns (snd (decide e user a kind reason edits st act meta s)) = campaigns s"
  "agents (snd (decide e user a kind reason edits st act meta s)) = agents s"
  "tasks (snd (decide e user a kind reason edits st act meta s)) = tasks s"
  "get_campaign j (snd (decide e user a kind reason edits st act meta s)) = get_campaign j s"
  by (simp_all add: decide_def fresh_uuid_def Let_def get_campaign_def modify_defs write_audit_def)

lemma decide_assets:
  "assets (snd (decide e user a kind reason edits st act meta s))
     = update_where (\<lambda>r. asset_id r = asset_id a) (stamped e (decided a st)) (assets s)"
  by (simp add: decide_def fresh_uuid_def Let_def)

lemma decide_get_asset:
  "get_asset j (snd (decide e user a kind reason edits st act meta s))
     = (if j = asset_id a then map_option (stamped e (decided a st)) (get_asset j s) else get_asset j s)"
  by (simp add: get_asset_def decide_assets find_row_update_key)

lemma decide_row:
  "dec_asset_id (fst (decide e user a kind reason edits st act meta s)) = asset_id a"
  "dec_reviewer_id (fst (decide e user a kind reason edits st act meta s)) = user_id user"
  "dec_decision (fst (decide e user a kind reason edits st act meta s)) = kind"
  "dec_edits (fst (decide e user a kind reason edits st act meta s)) = edits"
  "dec_id (fst (decide e user a kind reason edits st act meta s)) = db_gen s (db_seq s)"
  by (simp_all add: decide_def fresh_uuid_def Let_def)

lemma decide_audit:
  "audit_log (snd (decide e user a kind reason edits st act meta s)) = audit_log s @
     [\<lparr>au_tenant_id = asset_tenant_id a, au_actor_kind = env_actor_kind e, au_actor_id = env_actor_id e,
       au_entity_kind = ''content_asset'', au_entity_id = asset_id a, au_action = act,
       au_before = Some (SnapAsset a), au_after = Some (SnapAsset (a\<lparr>asset_status_of := st\<rparr>)),
       au_metadata = (''decision_id'', JStr (uuid_str (db_gen s (db_seq s)))) # meta, au_logged_at = env_now e\<rparr>]"
  by (simp add: decide_def fresh_uuid_def Let_def write_audit_def modify_defs)

lemma tenant_asset_Some:
  "tenant_asset user i s = Some a \<longleftrightarrow> get_asset i s = Some a \<and> asset_tenant_id a = user_tenant_id user"
  by (auto simp: tenant_asset_def split: option.splits if_splits)

lemma tenant_campaign_Some:
  "tenant_campaign user i s = Some c \<longleftrightarrow> get_campaign i s = Some c \<and> camp_tenant_id c = user_tenant_id user"
  by (auto simp: tenant_campaign_def split: option.splits if_splits)

lemma load_Inr:
  "load_asset_and_campaign user i s = Inr (a, camp) \<longleftrightarrow>
     tenant_asset user i s = Some a \<and> tenant_campaign user (asset_campaign_id a) s = Some camp"
  by (auto simp: load_asset_and_campaign_def split: option.splits)

lemma require_role_Inr: "require_role r user = Inr u \<longleftrightarrow> u = user \<and> role_rank r \<le> role_rank (user_role_of user)"
  by (auto simp: require_role_def)

lemma edited_id: "edited body a = Inr (edits, a') \<Longrightarrow> asset_id a' = asset_id a \<and> asset_status_of a' = asset_status_of a
    \<and> asset_tenant_id a' = asset_tenant_id a"
  by (auto simp: edited_def apply_edits_def edit_content_def set_meta_def Let_def
      split: if_splits sum.splits option.splits list.splits)

section \<open>Who may approve what\<close>

text \<open>The amount a submitted asset's snapshot sets under a key, in the campaign's currency.\<close>

definition spending_limit :: "string \<Rightarrow> content_asset \<Rightarrow> campaign \<Rightarrow> rat option" where
  "spending_limit key a camp =
     (case dict_get (asset_metadata a) ''approval_threshold'' of
        JObj snap \<Rightarrow>
          if currency_of snap = JStr (camp_currency camp)
          then (case decimal_of (dict_get snap key) of Some (DNum q) \<Rightarrow> Some q | _ \<Rightarrow> None) else None
      | _ \<Rightarrow> None)"

definition under_limit :: "string \<Rightarrow> content_asset \<Rightarrow> campaign \<Rightarrow> bool" where
  "under_limit key a camp \<longleftrightarrow> (\<forall>q. spending_limit key a camp = Some q \<longrightarrow> of_int (camp_budget_total camp) / 100 \<le> q)"

definition permitted :: "app_user \<Rightarrow> content_asset \<Rightarrow> campaign \<Rightarrow> bool" where
  "permitted user a camp \<longleftrightarrow>
     role_rank Manager \<le> role_rank (user_role_of user) \<and> asset_tenant_id a = user_tenant_id user
     \<and> camp_tenant_id camp = user_tenant_id user
     \<and> asset_status_of a \<in> {APendingApproval, ARejected} \<and> \<not> is_compliance_blocked a
     \<and> (under_limit ''admin_required_above_amount'' a camp \<or> user_role_of user = Admin)"

lemma decimal_of_null [simp]: "decimal_of JNull = None"
  by code_simp

lemma spending_limit_Some:
  assumes "spending_limit key a camp = Some q"
  obtains snap where "threshold_of a = Inr snap" "currency_of snap = JStr (camp_currency camp)"
    "decimal_of (dict_get snap key) = Some (DNum q)" "dict_get snap key \<noteq> JNull"
proof -
  obtain snap where snap: "dict_get (asset_metadata a) ''approval_threshold'' = JObj snap"
    "currency_of snap = JStr (camp_currency camp)" "decimal_of (dict_get snap key) = Some (DNum q)"
    using assms by (auto simp: spending_limit_def split: json.splits if_splits option.splits decimal.splits)
  then have "dict_get snap key \<noteq> JNull" by auto
  then have "snap \<noteq> []" by (auto simp: dict_get_def)
  then show ?thesis using snap \<open>dict_get snap key \<noteq> JNull\<close> by (intro that) (simp_all add: threshold_of_def Let_def)
qed

lemma under_limit_eq:
  "spending_limit key a camp = Some q \<Longrightarrow> under_limit key a camp \<longleftrightarrow> of_int (camp_budget_total camp) / 100 \<le> q"
  by (simp add: under_limit_def)

lemma evaluate_threshold_limit:
  assumes "spending_limit ''admin_required_above_amount'' a camp = Some q"
  shows "\<exists>applied. evaluate_threshold a camp = Inr (q < of_int (camp_budget_total camp) / 100, applied)"
  using assms by (elim spending_limit_Some) (simp add: evaluate_threshold_def Let_def)

lemma exceeds_cap_limit:
  assumes "spending_limit ''auto_approval_cap_amount'' a camp = Some q"
  shows "\<exists>cap. exceeds_auto_approval_cap a camp = Inr (q < of_int (camp_budget_total camp) / 100, cap)"
  using assms by (elim spending_limit_Some) (simp add: exceeds_auto_approval_cap_def Let_def)

lemma passed_threshold:
  assumes "evaluate_threshold a camp = Inr (False, applied)"
  shows "under_limit ''admin_required_above_amount'' a camp"
  unfolding under_limit_def
proof (intro allI impI)
  fix q assume "spending_limit ''admin_required_above_amount'' a camp = Some q"
  then show "of_int (camp_budget_total camp) / 100 \<le> q" using evaluate_threshold_limit assms by fastforce
qed

lemma passed_cap:
  assumes "exceeds_auto_approval_cap a camp = Inr (False, cap)"
  shows "under_limit ''auto_approval_cap_amount'' a camp"
  unfolding under_limit_def
proof (intro allI impI)
  fix q assume "spending_limit ''auto_approval_cap_amount'' a camp = Some q"
  then show "of_int (camp_budget_total camp) / 100 \<le> q" using exceeds_cap_limit assms by fastforce
qed

lemma approve_asset_Inr:
  assumes "approve_asset sm now user i body s = Inr (d, s')"
  obtains a camp edits a' applied s1 where
    "get_asset i s = Some a" "get_campaign (asset_campaign_id a) s = Some camp" "permitted user a camp"
    "edited body a = Inr (edits, a')"
    "(d, s1) = decide (user_env now user) user a' (if edits = None then DApproved else DApprovedWithEdits) (ap_note body)
        edits AApproved (if edits = None then ''approved'' else ''approved_with_edits'') [(''applied_threshold'', JObj applied)] s"
    "maybe_advance_to_ready_to_launch sm (user_env now user) camp s1 = Inr s'"
proof -
  have role: "\<not> role_rank (user_role_of user) < role_rank Manager"
    using assms by (auto simp: approve_asset_def require_role_def split: if_splits)
  note run = assms [unfolded approve_asset_def require_role_def if_not_P [OF role] sum.case]
  obtain a camp where load: "load_asset_and_campaign user i s = Inr (a, camp)"
    using run by (auto split: sum.splits)
  note run = run [unfolded load sum.case prod.case]
  have gates: "approvable a" "\<not> is_compliance_blocked a" using run by (auto split: if_splits)
  obtain req applied where ev: "evaluate_threshold a camp = Inr (req, applied)"
    using run gates by (auto split: sum.splits)
  have adm: "\<not> (req \<and> user_role_of user \<noteq> Admin)" using run gates ev by (auto split: if_splits)
  obtain edits a' where ed: "edited body a = Inr (edits, a')"
    using run gates ev adm by (auto split: sum.splits)
  obtain s1 where d: "(d, s1) = decide (user_env now user) user a' (if edits = None then DApproved else DApprovedWithEdits) (ap_note body)
        edits AApproved (if edits = None then ''approved'' else ''approved_with_edits'') [(''applied_threshold'', JObj applied)] s"
    and adv: "maybe_advance_to_ready_to_launch sm (user_env now user) camp s1 = Inr s'"
    using run gates ev adm ed by (simp add: Let_def split: prod.splits)
  have "permitted user a camp"
    using role gates ev adm load passed_threshold [of a camp applied]
    by (auto simp: permitted_def load_Inr tenant_asset_Some tenant_campaign_Some approvable_def)
  with load ed d adv show ?thesis by (intro that) (simp_all add: load_Inr tenant_asset_Some tenant_campaign_Some)
qed

lemma advance_Inr:
  assumes "maybe_advance_to_ready_to_launch (campaign_sm tc) e camp s = Inr s'"
  shows "s' = s \<or> (\<exists>camp'. apply_transition (campaign_sm tc) e camp ''start_launch'' s = Inr (camp', s'))"
  using assms
  by (auto simp: maybe_advance_to_ready_to_launch_def try_apply_Some split: if_splits option.splits)

lemma apply_transition_log:
  assumes "apply_transition (campaign_sm tc) e camp name s = Inr (camp', s')"
  shows "\<exists>l. audit_log s' = audit_log s @ l"
  using assms by (elim apply_transition_Inr) (auto simp: keeps_def write_audit_def modify_defs)

lemma apply_transition_row:
  assumes "apply_transition (campaign_sm tc) e camp name s = Inr (camp', s')" "get_campaign (camp_id camp) s = Some camp"
  shows "get_campaign (camp_id camp) s' = Some camp'"
  using assms(1) by (rule apply_transition_Inr) (simp add: get_campaign_keeps campaign_table.get_modify_same assms(2))

lemma advance_log:
  assumes "maybe_advance_to_ready_to_launch (campaign_sm tc) e camp s = Inr s'"
  shows "\<exists>l. audit_log s' = audit_log s @ l"
  using advance_Inr [OF assms] apply_transition_log by fastforce

lemma start_launch_needs:
  assumes "apply_transition (campaign_sm tc) e camp ''start_launch'' s = Inr (camp', s')"
  shows "camp_status camp = ApprovalPending" and "all_required_assets_approved e camp s"
  using assms by (auto elim!: apply_transition_Inr dest!: builtin_named(2))

text \<open>C3. An asset is approved only by someone allowed to: when the approve endpoint succeeds, the asset and its
  campaign belong to the reviewer's tenant, the reviewer is at least a manager, the asset was waiting
  for approval or rejected and is not compliance-blocked, and a budget above the amount recorded when
  the asset was submitted took an admin. The decision names the reviewer and is the first thing
  added to the audit log, and the campaign moves only when every other required asset is approved.\<close>

theorem approve_asset_only_permitted:
  assumes run: "approve_asset (campaign_sm tc) now user i body s = Inr (d, s')"
  shows "\<exists>a camp. get_asset i s = Some a \<and> get_campaign (asset_campaign_id a) s = Some camp \<and> permitted user a camp
    \<and> dec_asset_id d = i \<and> dec_reviewer_id d = user_id user
    \<and> (\<exists>entry l. audit_log s' = audit_log s @ entry # l \<and> au_entity_id entry = i \<and> au_actor_id entry = Some (user_id user)
         \<and> au_action entry = (if has_edits body then ''approved_with_edits'' else ''approved''))
    \<and> (get_campaign (camp_id camp) s' \<noteq> get_campaign (camp_id camp) s \<longrightarrow> camp_status camp = ApprovalPending
         \<and> (\<forall>b\<in>set (assets s). required_in camp b \<and> asset_id b \<noteq> i \<longrightarrow> asset_status_of b = AApproved))"
  using run
proof (rule approve_asset_Inr)
  fix a camp edits a' applied s1
  assume a: "get_asset i s = Some a" and camp: "get_campaign (asset_campaign_id a) s = Some camp" and perm: "permitted user a camp"
    and ed: "edited body a = Inr (edits, a')"
    and d: "(d, s1) = decide (user_env now user) user a' (if edits = None then DApproved else DApprovedWithEdits) (ap_note body)
        edits AApproved (if edits = None then ''approved'' else ''approved_with_edits'') [(''applied_threshold'', JObj applied)] s"
    and adv: "maybe_advance_to_ready_to_launch (campaign_sm tc) (user_env now user) camp s1 = Inr s'"
  have id: "asset_id a' = i" using edited_id [OF ed] asset_table.get_key [OF a] by simp
  have edits: "edits = None \<longleftrightarrow> \<not> has_edits body" using ed by (auto simp: edited_def split: if_splits sum.splits)
  have dd: "d = fst (decide (user_env now user) user a' (if edits = None then DApproved else DApprovedWithEdits) (ap_note body)
        edits AApproved (if edits = None then ''approved'' else ''approved_with_edits'') [(''applied_threshold'', JObj applied)] s)"
    and s1: "s1 = snd (decide (user_env now user) user a' (if edits = None then DApproved else DApprovedWithEdits) (ap_note body)
        edits AApproved (if edits = None then ''approved'' else ''approved_with_edits'') [(''applied_threshold'', JObj applied)] s)"
    by (simp_all add: d [symmetric])
  obtain l where "audit_log s' = audit_log s1 @ l" using advance_log [OF adv] by blast
  then have log: "\<exists>entry l. audit_log s' = audit_log s @ entry # l \<and> au_entity_id entry = i \<and> au_actor_id entry = Some (user_id user)
         \<and> au_action entry = (if has_edits body then ''approved_with_edits'' else ''approved'')"
    by (simp add: s1 decide_audit id edits user_env_def)
  have "camp_status camp = ApprovalPending \<and> (\<forall>b\<in>set (assets s). required_in camp b \<and> asset_id b \<noteq> i \<longrightarrow> asset_status_of b = AApproved)"
    if "get_campaign (camp_id camp) s' \<noteq> get_campaign (camp_id camp) s"
  proof -
    have "s' \<noteq> s1" using that by (auto simp: s1)
    then obtain camp' where "apply_transition (campaign_sm tc) (user_env now user) camp ''start_launch'' s1 = Inr (camp', s')"
      using advance_Inr [OF adv] by blast
    note needs = start_launch_needs [OF this]
    have "b \<in> set (assets s1)" if "b \<in> set (assets s)" "asset_id b \<noteq> i" for b
      using that by (auto simp: s1 decide_assets id set_update_where)
    then show ?thesis using needs by (auto simp: all_required_assets_approved_def any_required_False)
  qed
  then show ?thesis using a camp perm log by (intro exI [of _ a] exI [of _ camp]) (simp add: dd decide_row id)
qed

text \<open>What the snapshot taken at submission says about a settings row.\<close>

lemma snapshot_limit:
  assumes "set_admin_required_above r = Some m" "set_currency r = camp_currency camp" "set_currency r \<noteq> []"
  shows "spending_limit ''admin_required_above_amount''
      (stamped e (submitted now (threshold_snapshot t (Some r))) a) camp = Some (of_int m / 100)"
  using assms
  by (simp add: spending_limit_def stamped_def submitted_def set_meta_def threshold_snapshot_def dict_get_def [where k = "''currency''"]
      dict_get_def [where k = "''admin_required_above_amount''"] currency_of_def Let_def opt_json_def money_roundtrip)

lemma submitted_blocked [simp]:
  "is_compliance_blocked (stamped e (submitted now snap) a) = is_compliance_blocked a"
  by (simp add: is_compliance_blocked_def stamped_def submitted_def set_meta_def)

lemma approve_forbidden:
  assumes "tenant_asset user i s = Some a" "tenant_campaign user (asset_campaign_id a) s = Some camp"
    and "role_rank Manager \<le> role_rank (user_role_of user)" "approvable a" "\<not> is_compliance_blocked a"
    and "spending_limit ''admin_required_above_amount'' a camp = Some q" "q < of_int (camp_budget_total camp) / 100"
    and "user_role_of user \<noteq> Admin"
  shows "approve_asset sm now user i body s = Inl (HTTPException 403)"
proof -
  have role: "require_role Manager user = Inr user" using assms(3) by (simp add: require_role_def)
  have load: "load_asset_and_campaign user i s = Inr (a, camp)" using assms(1,2) by (simp add: load_Inr)
  obtain applied where ev: "evaluate_threshold a camp = Inr (True, applied)"
    using evaluate_threshold_limit [OF assms(6)] assms(7) by auto
  show ?thesis unfolding approve_asset_def role load sum.case prod.case ev using assms(4,5,8) by simp
qed

lemma launch_guard_fails:
  assumes "camp_status camp = ApprovalPending" "\<not> all_required_assets_approved e camp s"
  shows "apply_transition (campaign_sm tc) e camp ''start_launch'' s = Inl GuardFailedError"
proof -
  have "map_of (campaign_sm tc) (camp_status camp, ''start_launch'') = Some (transition_of ''start_launch''
      ApprovalPending ReadyToLaunch (Some all_required_assets_approved) (Some schedule_approved_assets_hook))"
    by (simp add: assms(1) campaign_sm_lookup builtin_transitions_def transition_of_def)
  with assms(2) show ?thesis by (simp add: apply_transition_def transition_of_def)
qed

lemma advance_waits:
  assumes "b \<in> set (assets s)" "required_in camp b" "asset_status_of b \<noteq> AApproved"
  shows "maybe_advance_to_ready_to_launch (campaign_sm tc) e camp s = Inr s"
proof (cases "camp_status camp = ApprovalPending")
  case True
  have "any_required camp (\<lambda>a. asset_status_of a \<noteq> AApproved) s" using assms by (auto simp: any_required_def list_ex_iff)
  then have "\<not> all_required_assets_approved e camp s" by (simp add: all_required_assets_approved_def)
  from launch_guard_fails [OF True this] True show ?thesis by (simp add: maybe_advance_to_ready_to_launch_def try_apply_def)
qed (simp add: maybe_advance_to_ready_to_launch_def)

lemma approve_within_threshold:
  assumes "tenant_asset user i s = Some a" "tenant_campaign user (asset_campaign_id a) s = Some camp"
    and "role_rank Manager \<le> role_rank (user_role_of user)" "approvable a" "\<not> is_compliance_blocked a"
    and "evaluate_threshold a camp = Inr (req, applied)" "req \<longrightarrow> user_role_of user = Admin" "\<not> has_edits body"
    and "b \<in> set (assets s)" "required_in camp b" "asset_status_of b \<noteq> AApproved" "asset_id b \<noteq> i"
  shows "\<exists>d s' a'. approve_asset (campaign_sm tc) now user i body s = Inr (d, s') \<and> get_asset i s' = Some a'
    \<and> asset_status_of a' = AApproved"
proof -
  have role: "require_role Manager user = Inr user" using assms(3) by (simp add: require_role_def)
  have load: "load_asset_and_campaign user i s = Inr (a, camp)" using assms(1,2) by (simp add: load_Inr)
  have a: "get_asset i s = Some a" "asset_id a = i" using assms(1) asset_table.get_key by (auto simp: tenant_asset_Some)
  obtain d s1 where d: "decide (user_env now user) user a DApproved (ap_note body) None AApproved ''approved''
      [(''applied_threshold'', JObj applied)] s = (d, s1)" by force
  note rows = decide_assets [of "user_env now user" user a DApproved "ap_note body" None AApproved "''approved''"
        "[(''applied_threshold'', JObj applied)]" s]
    and row = decide_get_asset [of i "user_env now user" user a DApproved "ap_note body" None AApproved "''approved''"
        "[(''applied_threshold'', JObj applied)]" s]
  have "b \<in> set (assets s1)" using rows assms(9,12) by (auto simp: d a(2) set_update_where)
  then have "maybe_advance_to_ready_to_launch (campaign_sm tc) (user_env now user) camp s1 = Inr s1"
    by (rule advance_waits) (use assms(10,11) in simp_all)
  moreover have "\<exists>a'. get_asset i s1 = Some a' \<and> asset_status_of a' = AApproved"
    using row by (simp add: d a decided_def)
  ultimately show ?thesis unfolding approve_asset_def role load sum.case prod.case assms(6) using assms(4,5,7,8) d by (auto simp: edited_def)
qed

text \<open>No error of the edits, or of the launch that an approval may start, is an answer of the endpoint itself.\<close>

lemma for_each_no_http:
  "(\<And>x s. x \<in> set xs \<Longrightarrow> body x s \<noteq> Inl (HTTPException n)) \<Longrightarrow> for_each body xs s \<noteq> Inl (HTTPException n)"
  by (induction xs arbitrary: s) (auto split: sum.split)

lemma ensure_agent_no_http: "ensure_agent e kind name tenant s \<noteq> Inl (HTTPException n)"
  by (auto simp: ensure_agent_def split: option.split)

lemma enqueue_no_http: "enqueue_task e rq s \<noteq> Inl (HTTPException n)"
  by (auto simp: enqueue_task_def split: option.split list.split)

lemma map_sum_Inl: "map_sum id f r = Inl err \<longleftrightarrow> r = Inl err"
  by (cases r) auto

lemma schedule_no_http: "schedule_approved_assets e camp s \<noteq> Inl (HTTPException n)"
proof -
  have "schedule_asset e camp ag tps a s' \<noteq> Inl (HTTPException n)" for ag tps a s'
    by (auto simp: schedule_asset_def Let_def map_sum_Inl enqueue_no_http split: option.split)
  then have "for_each (schedule_asset e camp ag tps) rows s' \<noteq> Inl (HTTPException n)" for ag tps rows s'
    by (intro for_each_no_http)
  then show ?thesis using ensure_agent_no_http [of e _ _ _ s n]
    by (auto simp: schedule_approved_assets_def ensure_distribution_agent_def Let_def map_sum_Inl split: sum.split)
qed

lemma advance_no_http: "maybe_advance_to_ready_to_launch (campaign_sm tc) e camp s \<noteq> Inl (HTTPException n)"
proof (cases "camp_status camp = ApprovalPending")
  case True
  have tr: "map_of (campaign_sm tc) (camp_status camp, ''start_launch'') = Some (transition_of ''start_launch''
      ApprovalPending ReadyToLaunch (Some all_required_assets_approved) (Some schedule_approved_assets_hook))"
    by (simp add: True campaign_sm_lookup builtin_transitions_def transition_of_def)
  have "apply_transition (campaign_sm tc) e camp ''start_launch'' s \<noteq> Inl (HTTPException n)"
    unfolding apply_transition_def tr
    by (auto simp: transition_of_def Let_def map_sum_Inl schedule_approved_assets_hook_def schedule_no_http)
  then show ?thesis by (auto simp: maybe_advance_to_ready_to_launch_def try_apply_def map_sum_Inl split: sum.split)
qed (simp add: maybe_advance_to_ready_to_launch_def)

lemma py_dict_no_http: "py_dict v \<noteq> Inl (HTTPException n)"
proof -
  have "pair_of x \<noteq> Inl (HTTPException n)" for x by (auto simp: pair_of_def split: option.split list.split)
  then have "dict_of_pairs xs d \<noteq> Inl (HTTPException n)" for xs d
    by (induction xs arbitrary: d) (auto split: sum.split)
  then show ?thesis by (auto simp: py_dict_def split: json.split option.split)
qed

lemma edited_no_http: "edited body a \<noteq> Inl (HTTPException n)"
  by (auto simp: edited_def edits_payload_def apply_edits_def merge_fields_def Let_def map_sum_Inl py_dict_no_http
      split: sum.split option.split list.split)

lemma approve_forbidden_iff:
  assumes "tenant_asset user i s = Some a" "tenant_campaign user (asset_campaign_id a) s = Some camp"
    and "role_rank Manager \<le> role_rank (user_role_of user)" "approvable a" "\<not> is_compliance_blocked a"
    and "evaluate_threshold a camp = Inr (req, applied)"
  shows "approve_asset (campaign_sm tc) now user i body s = Inl (HTTPException 403) \<longleftrightarrow> req \<and> user_role_of user \<noteq> Admin"
proof -
  have role: "require_role Manager user = Inr user" using assms(3) by (simp add: require_role_def)
  have load: "load_asset_and_campaign user i s = Inr (a, camp)" using assms(1,2) by (simp add: load_Inr)
  show ?thesis unfolding approve_asset_def role load sum.case prod.case assms(6) using assms(4,5)
    by (auto simp: Let_def map_sum_Inl edited_no_http advance_no_http split: sum.split prod.split)
qed

text \<open>C13. The admin threshold is enforced as it stood at submission: once a campaign has been submitted under a
  tenant setting that asks for an admin above some amount, in the campaign's currency, the approval of any of its
  assets by a manager or an admin is answered with 403 exactly when the budget exceeds that amount and the user is not
  an admin, whatever the settings are changed to afterwards and whatever the request edits; the amount survives being
  stored as text. An approval without edits that is not refused goes through where another required asset is still
  open (so that it does not launch the campaign at once).\<close>

theorem submitted_threshold_enforced:
  assumes run: "apply_transition (campaign_sm tc) e camp ''submit_for_approval'' s = Inr (camp', s')"
    and a: "get_asset i s = Some a" "drafted_required camp a" "asset_tenant_id a = camp_tenant_id camp"
      "\<not> is_compliance_blocked a" and row: "get_campaign (camp_id camp) s = Some camp"
    and settings: "filter (\<lambda>r. set_tenant_id r = camp_tenant_id camp) (approval_settings_rows s) = [r]"
      "set_admin_required_above r = Some m" "set_currency r = camp_currency camp" "set_currency r \<noteq> []"
    and user: "user_tenant_id user = camp_tenant_id camp" "role_rank Manager \<le> role_rank (user_role_of user)"
    and later: "u = s'\<lparr>approval_settings_rows := rows\<rparr>"
  shows "(approve_asset (campaign_sm tc) now user i body u = Inl (HTTPException 403)
       \<longleftrightarrow> m < camp_budget_total camp \<and> user_role_of user \<noteq> Admin)
    \<and> ((camp_budget_total camp \<le> m \<or> user_role_of user = Admin) \<and> \<not> has_edits body
         \<and> (\<exists>c\<in>set (assets u). required_in camp c \<and> asset_status_of c \<noteq> AApproved \<and> asset_id c \<noteq> i) \<longrightarrow>
       (\<exists>d v b. approve_asset (campaign_sm tc) now user i body u = Inr (d, v) \<and> get_asset i v = Some b \<and> asset_status_of b = AApproved))"
proof -
  obtain row' where as: "assets s' = update_where (drafted_required camp)
          (stamped e (submitted (env_now e) (threshold_snapshot (env_now e) row'))) (assets s)"
    and r': "\<forall>a\<in>set (assets s). drafted_required camp a \<longrightarrow>
       scalar_one_or_none (filter (\<lambda>r. set_tenant_id r = camp_tenant_id camp) (approval_settings_rows s)) = Some row'"
    using run by (rule submit_assets)
  have "a \<in> set (assets s)" using a(1) by (auto simp: get_asset_def dest: find_row_Some)
  with r' a(2) settings(1) have row': "row' = Some r" by auto
  let ?b = "stamped e (submitted (env_now e) (threshold_snapshot (env_now e) (Some r))) a"
  have keyed: "asset_id (stamped e (submitted (env_now e) (threshold_snapshot (env_now e) (Some r))) x) = asset_id x" for x
    by (simp add: stamped_def submitted_def set_meta_def)
  have b: "get_asset i u = Some ?b"
    using a(1,2) by (simp add: later get_asset_def as row' find_row_update_where [where key = asset_id, OF keyed])
  have camp': "camp' = camp\<lparr>camp_status := ApprovalPending\<rparr>" by (rule submit_guard(2) [OF run])
  have c: "get_campaign (camp_id camp) u = Some camp'"
    using apply_transition_row [OF run row] by (simp add: later get_campaign_def)
  have lim: "spending_limit ''admin_required_above_amount'' ?b camp' = Some (of_int m / 100)"
    by (rule snapshot_limit [OF settings(2) _ settings(4)]) (simp add: settings(3) camp')
  have sub: "asset_campaign_id ?b = camp_id camp" "asset_tenant_id ?b = user_tenant_id user" "asset_status_of ?b = APendingApproval"
    using a(2,3) user(1) by (simp_all add: stamped_def submitted_def set_meta_def drafted_required_def required_in_def)
  have nb: "\<not> is_compliance_blocked ?b" using a(4) by simp
  have load: "tenant_asset user i u = Some ?b" "tenant_campaign user (asset_campaign_id ?b) u = Some camp'" "approvable ?b"
    using b c sub by (simp_all add: tenant_asset_Some tenant_campaign_Some approvable_def camp' user(1))
  obtain applied where ev: "evaluate_threshold ?b camp' = Inr (m < camp_budget_total camp, applied)"
    using evaluate_threshold_limit [OF lim] by (auto simp: camp' divide_less_cancel)
  have req: "required_in camp' = required_in camp" by (simp add: camp' required_in_def fun_eq_iff)
  show ?thesis
    using approve_forbidden_iff [OF load(1,2) user(2) load(3) nb ev]
      approve_within_threshold [OF load(1,2) user(2) load(3) nb ev, of body, unfolded req] by auto
qed

section \<open>Rejecting\<close>

lemma regenerate_lookup:
  "map_of (campaign_sm tc) (ApprovalPending, ''regenerate_after_rejection'') =
     Some (transition_of ''regenerate_after_rejection'' ApprovalPending ContentInProduction (Some any_required_asset_rejected) None)"
  by (subst campaign_sm_lookup) (simp add: builtin_transitions_def transition_of_def)

lemma revert_total:
  "\<exists>s'. maybe_revert_to_content_in_production (campaign_sm tc) e camp s = Inr s' \<and> assets s' = assets s \<and> tasks s' = tasks s
     \<and> decisions s' = decisions s"
  by (auto simp: maybe_revert_to_content_in_production_def try_apply_def apply_transition_def regenerate_lookup
      transition_of_def Let_def write_audit_def modify_defs)

lemma revert_moves:
  assumes "camp_status camp = ApprovalPending" "any_required_asset_rejected e camp s" "get_campaign (camp_id camp) s = Some camp"
    and "maybe_revert_to_content_in_production (campaign_sm tc) e camp s = Inr s'"
  shows "get_campaign (camp_id camp) s' = Some (camp\<lparr>camp_status := ContentInProduction\<rparr>)"
  using assms
  by (auto simp: maybe_revert_to_content_in_production_def try_apply_def apply_transition_def regenerate_lookup
      transition_of_def Let_def campaign_table.get_modify)

lemma ensure_agent_existing:
  assumes "scalar_one_or_none (filter (\<lambda>g. ag_tenant_id g = tenant \<and> ag_type g = ContentCreator) (agents s)) = Some (Some ag)"
  shows "ensure_content_creator_agent e tenant s = Inr (ag, s)"
  using assms by (simp add: ensure_content_creator_agent_def ensure_agent_def)

text \<open>Rejecting sends the asset back to work: a manager's rejection of a pending asset, with a reason, always
  succeeds; the asset is then rejected and every other asset unchanged, exactly one new task is queued,
  which regenerates that asset and carries the reason, and a campaign that was waiting for approval
  of this required asset returns to content production in the same transaction.\<close>

theorem reject_asset_regenerates:
  assumes role: "role_rank Manager \<le> role_rank (user_role_of user)"
    and reason: "rj_reason body \<noteq> []" "length (rj_reason body) \<le> 2000"
    and a: "tenant_asset user i s = Some a" "asset_status_of a = APendingApproval"
    and camp: "tenant_campaign user (asset_campaign_id a) s = Some camp"
    and ag: "scalar_one_or_none (filter (\<lambda>g. ag_tenant_id g = asset_tenant_id a \<and> ag_type g = ContentCreator) (agents s)) = Some (Some ag)"
  shows "\<exists>d s'. reject_asset (campaign_sm tc) now user i body s = Inr (d, s')
    \<and> decisions s' = decisions s @ [d] \<and> dec_decision d = DRejected \<and> dec_reviewer_id d = user_id user
    \<and> (\<exists>a'. get_asset i s' = Some a' \<and> asset_status_of a' = ARejected) \<and> (\<forall>j. j \<noteq> i \<longrightarrow> get_asset j s' = get_asset j s)
    \<and> (\<exists>t. tasks s' = tasks s @ [t] \<and> task_skill_name t = ''content_creator.generate_asset'' \<and> task_status_of t = TQueued
         \<and> task_campaign_id t = Some (camp_id camp) \<and> dict_get (task_input_data t) ''asset_id'' = JStr (uuid_str i)
         \<and> dict_get (task_input_data t) ''rejection_reason'' = JStr (rj_reason body))
    \<and> (camp_status camp = ApprovalPending \<and> asset_is_required a \<longrightarrow>
         get_campaign (camp_id camp) s' = Some (camp\<lparr>camp_status := ContentInProduction\<rparr>))"
proof -
  let ?e = "user_env now user" and ?cat = "JStr (category_value (rj_category body))"
  let ?dec = "decide ?e user a DRejected (Some (rj_reason body)) (Some [(''category'', ?cat)]) ARejected ''rejected'' [(''category'', ?cat)] s"
  let ?d = "fst ?dec" and ?s1 = "snd ?dec" and ?rq = "regenerate_task user ag a body"
  let ?s3 = "snd (insert_task ?e ?rq ?s1)"
  have ids: "asset_id a = i" "camp_id camp = asset_campaign_id a" "get_campaign (camp_id camp) s = Some camp"
    using a(1) camp asset_table.get_key campaign_table.get_key by (auto simp: tenant_asset_Some tenant_campaign_Some)
  have en: "ensure_content_creator_agent ?e (asset_tenant_id a) ?s1 = Inr (ag, ?s1)"
    by (rule ensure_agent_existing) (simp add: ag)
  have enq: "enqueue_task ?e ?rq ?s1 = Inr (insert_task ?e ?rq ?s1)"
    by (simp add: enqueue_task_def regenerate_task_def request_def)
  obtain s' where s': "maybe_revert_to_content_in_production (campaign_sm tc) ?e camp ?s3 = Inr s'" "assets s' = assets ?s3"
    "tasks s' = tasks ?s3" "decisions s' = decisions ?s3" using revert_total by blast
  have load: "load_asset_and_campaign user i s = Inr (a, camp)" using a camp by (simp add: load_Inr)
  have run: "reject_asset (campaign_sm tc) now user i body s = Inr (?d, s')"
    using role reason a(2) by (simp add: reject_asset_def require_role_def load Let_def case_prod_beta en enq s'(1))
  have rows: "assets ?s3 = assets ?s1" "decisions ?s3 = decisions ?s1" "campaigns ?s3 = campaigns ?s1"
    by (simp_all add: insert_task_def fresh_uuid_def Let_def)
  have row: "get_asset j s' = (if j = i then map_option (stamped ?e (decided a ARejected)) (get_asset j s) else get_asset j s)" for j
    using decide_get_asset [of j ?e user a] by (simp add: get_asset_def s'(2) rows(1) ids(1))
  have "tasks s' = tasks s @ [fst (insert_task ?e ?rq ?s1)]"
    by (simp add: s'(3) insert_task_def fresh_uuid_def Let_def)
  then have task: "\<exists>t. tasks s' = tasks s @ [t] \<and> task_skill_name t = ''content_creator.generate_asset'' \<and> task_status_of t = TQueued
         \<and> task_campaign_id t = Some (camp_id camp) \<and> dict_get (task_input_data t) ''asset_id'' = JStr (uuid_str i)
         \<and> dict_get (task_input_data t) ''rejection_reason'' = JStr (rj_reason body)"
    by (simp add: insert_task_def fresh_uuid_def Let_def new_task_def regenerate_task_def request_def dict_get_def ids(1,2))
  have move: "get_campaign (camp_id camp) s' = Some (camp\<lparr>camp_status := ContentInProduction\<rparr>)"
    if "camp_status camp = ApprovalPending" "asset_is_required a"
  proof (rule revert_moves [OF that(1) _ _ s'(1)])
    have "stamped ?e (decided a ARejected) a \<in> set (assets s')"
      using row [of i] a(1) by (auto simp: tenant_asset_Some get_asset_def dest!: find_row_Some)
    then show "any_required_asset_rejected ?e camp ?s3"
      using that(2) ids(2) unfolding any_required_asset_rejected_def any_required_def list_ex_iff
      by (intro bexI [of _ "stamped ?e (decided a ARejected) a"])
        (simp_all add: s'(2) required_in_def stamped_def decided_def)
    show "get_campaign (camp_id camp) ?s3 = Some camp" using ids(3) by (simp add: get_campaign_def rows(3))
  qed
  show ?thesis
    by (rule exI [of _ ?d], rule exI [of _ s'])
      (use run task move row a(1) in \<open>simp add: s'(4) rows(2) decide_row tenant_asset_Some stamped_def decided_def\<close>)
qed

section \<open>Batches\<close>

definition forget_ids :: "batch \<Rightarrow> batch" where
  "forget_ids b = b\<lparr>bt_approved := map (\<lambda>(i, _). (i, None)) (bt_approved b)\<rparr>"

lemma forget_ids_simps [simp]:
  "forget_ids (exclude i x b) = exclude i x (forget_ids b)"
  "forget_ids (accept i d b) = accept i None (forget_ids b)"
  "forget_ids (tally a camp b) = tally a camp (forget_ids b)"
  "forget_ids empty_batch = empty_batch"
  by (simp_all add: forget_ids_def exclude_def accept_def tally_def empty_batch_def)

lemma screen_cong:
  assumes "get_asset i s = get_asset i s'" "\<And>j. get_campaign j s = get_campaign j s'"
  shows "screen user i s = screen user i s'"
proof -
  have "tenant_asset user i s = tenant_asset user i s'" "tenant_campaign user j s = tenant_campaign user j s'" for j
    by (simp_all only: tenant_asset_def tenant_campaign_def assms)
  then show ?thesis by (simp only: screen_def)
qed

lemma screen_Inr:
  assumes "screen user i s = Inr (Inr (a, camp, applied))" "role_rank Manager \<le> role_rank (user_role_of user)"
  shows "get_asset i s = Some a" "get_campaign (asset_campaign_id a) s = Some camp" "permitted user a camp"
    "under_limit ''auto_approval_cap_amount'' a camp"
proof -
  obtain x where x: "tenant_asset user i s = Some x" using assms(1) by (auto simp: screen_def split: option.splits)
  obtain c where c: "tenant_campaign user (asset_campaign_id x) s = Some c"
    using assms(1) x by (auto simp: screen_def split: option.splits)
  note run = assms(1) [unfolded screen_def x option.case c]
  have gates: "approvable x" "\<not> is_compliance_blocked x" using run by (auto split: if_splits)
  obtain ex cap where cap: "exceeds_auto_approval_cap x c = Inr (ex, cap)" using run gates by (auto split: sum.splits)
  have nex: "\<not> ex" using run gates cap by (auto split: if_splits)
  obtain req app where ev: "evaluate_threshold x c = Inr (req, app)" using run gates cap nex by (auto split: sum.splits)
  have adm: "\<not> (req \<and> user_role_of user \<noteq> Admin)" using run gates cap nex ev by (auto split: if_splits)
  have eq: "x = a" "c = camp" using run gates cap nex ev adm by (auto split: if_splits)
  show "get_asset i s = Some a" "get_campaign (asset_campaign_id a) s = Some camp"
    using x c eq by (simp_all add: tenant_asset_Some tenant_campaign_Some)
  show "under_limit ''auto_approval_cap_amount'' a camp" using passed_cap [of x c cap] cap nex eq by simp
  show "permitted user a camp"
    using assms(2) x c eq gates ev adm passed_threshold [of a camp app]
    by (auto simp: permitted_def tenant_asset_Some tenant_campaign_Some approvable_def)
qed

lemma batch_item_dry:
  assumes "screen user i s0 = screen user i s"
  shows "batch_item refused e user True i (forget_ids b, s0)
    = map_sum id (\<lambda>(b', _). (forget_ids b', s0)) (batch_item (\<lambda>_. None) e user False i (b, s))"
proof (cases "screen user i s")
  case (Inl err)
  then show ?thesis by (simp add: batch_item_def assms)
next
  case (Inr x)
  then show ?thesis by (cases x) (simp_all add: batch_item_def assms Let_def case_prod_beta)
qed

lemma batch_item_other:
  assumes "batch_item refused e user dry i (b, s) = Inr (b', s')" "j \<noteq> i"
  shows "get_asset j s' = get_asset j s" and "get_campaign c s' = get_campaign c s"
proof -
  obtain x where x: "screen user i s = Inr x" using assms(1) by (auto simp: batch_item_def split: sum.splits)
  have "s' = s \<or> (\<exists>a reason edits act meta. asset_id a = i \<and> s' = snd (decide e user a DApproved reason edits AApproved act meta s))"
  proof (cases x)
    case (Inl y)
    then show ?thesis using assms(1) x by (simp add: batch_item_def)
  next
    case (Inr z)
    obtain a camp applied where z: "z = (a, camp, applied)" by (cases z) auto
    have "asset_id a = i" using x Inr z
      by (auto simp: screen_def tenant_asset_Some split: option.splits if_splits sum.splits dest!: asset_table.get_key)
    then show ?thesis using assms(1) x Inr z
      by (simp add: batch_item_def Let_def case_prod_beta split: if_splits option.splits) blast
  qed
  then show "get_asset j s' = get_asset j s" "get_campaign c s' = get_campaign c s"
    using assms(2) by (auto simp: decide_get_asset)
qed

lemma batch_dry:
  assumes "distinct ids" "\<And>i. i \<in> set ids \<Longrightarrow> screen user i s0 = screen user i s"
  shows "for_each (batch_item refused e user True) ids (forget_ids b, s0)
    = map_sum id (\<lambda>(b', _). (forget_ids b', s0)) (for_each (batch_item (\<lambda>_. None) e user False) ids (b, s))"
  using assms
proof (induction ids arbitrary: b s)
  case (Cons i ids)
  have item: "batch_item refused e user True i (forget_ids b, s0)
      = map_sum id (\<lambda>(b', _). (forget_ids b', s0)) (batch_item (\<lambda>_. None) e user False i (b, s))"
    by (rule batch_item_dry) (simp add: Cons.prems(2))
  show ?case
  proof (cases "batch_item (\<lambda>_. None) e user False i (b, s)")
    case (Inl err)
    then show ?thesis using item by simp
  next
    case (Inr r)
    obtain b1 s1 where r: "r = (b1, s1)" by force
    have "screen user j s0 = screen user j s1" if "j \<in> set ids" for j
    proof -
      have "j \<noteq> i" using Cons.prems(1) that by auto
      then show ?thesis using Cons.prems(2) [of j] that screen_cong batch_item_other [OF Inr [unfolded r]] by (metis list.set_intros(2))
    qed
    with Cons.IH Cons.prems(1) show ?thesis using item Inr r by simp
  qed
qed simp

definition may_batch :: "app_user \<Rightarrow> uuid \<Rightarrow> db \<Rightarrow> bool" where
  "may_batch user i s \<longleftrightarrow> (\<exists>a camp. get_asset i s = Some a \<and> get_campaign (asset_campaign_id a) s = Some camp
     \<and> permitted user a camp \<and> under_limit ''auto_approval_cap_amount'' a camp)"

definition batch_inv :: "app_user \<Rightarrow> db \<Rightarrow> batch \<Rightarrow> db \<Rightarrow> bool" where
  "batch_inv user s0 b s \<longleftrightarrow>
     distinct (map fst (bt_approved b)) \<and> (\<forall>c. get_campaign c s = get_campaign c s0)
     \<and> (\<forall>i\<in>fst ` set (bt_approved b). may_batch user i s0 \<and> (\<exists>a. get_asset i s = Some a \<and> asset_status_of a = AApproved))
     \<and> (\<forall>i. i \<notin> fst ` set (bt_approved b) \<longrightarrow> get_asset i s = get_asset i s0)"

lemma bt_approved_simps [simp]:
  "bt_approved (exclude i x b) = bt_approved b" "bt_approved (tally a camp b) = bt_approved b"
  "bt_approved (accept i d b) = bt_approved b @ [(i, d)]" "bt_excluded (exclude i x b) = bt_excluded b @ [(i, x)]"
  "bt_excluded (tally a camp b) = bt_excluded b" "bt_excluded (accept i d b) = bt_excluded b"
  by (simp_all add: exclude_def tally_def accept_def)

lemma batch_inv_accept:
  assumes inv: "batch_inv user s0 b s" and role: "role_rank Manager \<le> role_rank (user_role_of user)"
    and ok: "screen user i s = Inr (Inr (a, camp, applied))"
  shows "batch_inv user s0 (accept i d (tally a camp b)) (snd (decide e user a kind reason edits AApproved act meta s))"
proof -
  note ok' = screen_Inr [OF ok role]
  have new: "i \<notin> fst ` set (bt_approved b)"
    using inv ok'(1,3) by (auto simp: batch_inv_def permitted_def)
  then have old: "get_asset i s0 = Some a" "get_campaign (asset_campaign_id a) s0 = Some camp"
    using inv ok'(1,2) by (auto simp: batch_inv_def)
  have id: "asset_id a = i" by (rule asset_table.get_key [OF ok'(1)])
  have "may_batch user i s0" using old ok'(3,4) by (auto simp: may_batch_def)
  moreover have "\<exists>x. get_asset j (snd (decide e user a kind reason edits AApproved act meta s)) = Some x \<and> asset_status_of x = AApproved"
    if "j \<in> insert i (fst ` set (bt_approved b))" for j
    using that inv new ok'(1) by (auto simp: decide_get_asset id batch_inv_def stamped_def decided_def)
  ultimately show ?thesis using inv new
    by (auto simp: batch_inv_def decide_get_asset id)
qed

lemma batch_item_inv:
  assumes run: "batch_item refused e user False i (b, s) = Inr (b', s')" and inv: "batch_inv user s0 b s"
    and role: "role_rank Manager \<le> role_rank (user_role_of user)"
  shows "batch_inv user s0 b' s'"
    and "length (bt_approved b') + length (bt_excluded b') = Suc (length (bt_approved b) + length (bt_excluded b))"
    and "fst ` set (bt_approved b') \<union> fst ` set (bt_excluded b') = insert i (fst ` set (bt_approved b) \<union> fst ` set (bt_excluded b))"
proof -
  obtain x where x: "screen user i s = Inr x" using run by (auto simp: batch_item_def split: sum.splits)
  have "batch_inv user s0 b' s' \<and> ((\<exists>d a camp. b' = accept i d (tally a camp b)) \<or> (\<exists>y. b' = exclude i y b)
      \<or> (\<exists>y a camp. b' = exclude i y (tally a camp b)))"
  proof (cases x)
    case (Inl y)
    then show ?thesis using run x inv by (auto simp: batch_item_def batch_inv_def)
  next
    case (Inr z)
    obtain a camp applied where z: "z = (a, camp, applied)" by (cases z) auto
    note acc = batch_inv_accept [OF inv role x [unfolded Inr z]]
    show ?thesis
    proof (cases "refused i")
      case None
      then obtain d kind reason edits act meta where "b' = accept i d (tally a camp b)"
        "s' = snd (decide e user a kind reason edits AApproved act meta s)"
        using run x Inr z by (simp add: batch_item_def Let_def case_prod_beta) blast
      then show ?thesis using acc by blast
    next
      case (Some err)
      then have "b' = exclude i (WriteFailed (take 200 err)) (tally a camp b)" "s' = s"
        using run x Inr z by (simp_all add: batch_item_def Let_def)
      moreover have "batch_inv user s0 (exclude i (WriteFailed (take 200 err)) (tally a camp b)) s"
        using inv by (simp add: batch_inv_def)
      ultimately show ?thesis by blast
    qed
  qed
  then show "batch_inv user s0 b' s'"
    "length (bt_approved b') + length (bt_excluded b') = Suc (length (bt_approved b) + length (bt_excluded b))"
    "fst ` set (bt_approved b') \<union> fst ` set (bt_excluded b') = insert i (fst ` set (bt_approved b) \<union> fst ` set (bt_excluded b))"
    by auto
qed

lemma batch_loop_inv:
  assumes role: "role_rank Manager \<le> role_rank (user_role_of user)"
  shows "for_each (batch_item refused e user False) ids (b, s) = Inr (b', s') \<Longrightarrow> batch_inv user s0 b s \<Longrightarrow>
     batch_inv user s0 b' s' \<and> length (bt_approved b') + length (bt_excluded b') = length (bt_approved b) + length (bt_excluded b) + length ids
     \<and> fst ` set (bt_approved b') \<union> fst ` set (bt_excluded b') = fst ` set (bt_approved b) \<union> fst ` set (bt_excluded b) \<union> set ids"
proof (induction ids arbitrary: b s)
  case (Cons i ids)
  then obtain b1 s1 where step: "batch_item refused e user False i (b, s) = Inr (b1, s1)"
    "for_each (batch_item refused e user False) ids (b1, s1) = Inr (b', s')" by (auto split: sum.splits)
  note item = batch_item_inv [OF step(1) Cons.prems(2) role]
  from Cons.IH [OF step(2) item(1)] show ?case using item(2,3) by auto
qed simp

text \<open>A batch approves nothing a single approval would not, and never above the auto-approval cap: each asset a
  batch reports as approved was, when the call came in, one the reviewer was permitted to approve, in a
  campaign whose budget is within the cap recorded on the asset; no asset is approved twice; and every
  asset asked about is reported once per request, as approved or as excluded.\<close>

theorem batch_approves_only_permitted:
  assumes run: "batch_approve sm refused walk now user ids False s = Inr (r, s')"
  shows "(\<forall>i d. (i, d) \<in> set (br_approved r) \<longrightarrow> may_batch user i s) \<and> distinct (map fst (br_approved r))
    \<and> length (br_approved r) + length (br_excluded r) = length ids
    \<and> fst ` set (br_approved r) \<union> fst ` set (br_excluded r) = set ids"
proof -
  have role: "role_rank Manager \<le> role_rank (user_role_of user)"
    using run by (auto simp: batch_approve_def require_role_def split: if_splits)
  obtain b s1 where loop: "for_each (batch_item refused (user_env now user) user False) ids (empty_batch, s) = Inr (b, s1)"
    and r: "r = batch_response_of False b"
    using run by (auto simp: batch_approve_def split: sum.splits if_splits)
  have "batch_inv user s empty_batch s" by (simp add: batch_inv_def empty_batch_def)
  from batch_loop_inv [OF role loop this] show ?thesis
    by (force simp: r batch_response_of_def batch_inv_def empty_batch_def)
qed

text \<open>C16. A dry run tells the truth: for a list without duplicates and a database that refuses no write, the
  dry run of a batch leaves the database as it is and reports exactly what the real run then reports,
  up to the identifiers of the decisions.\<close>

theorem batch_dry_run_predicts:
  assumes "distinct ids" and real: "batch_approve sm (\<lambda>_. None) walk now user ids False s = Inr (r, s')"
  shows "batch_approve sm refused walk now user ids True s
    = Inr (r\<lparr>br_approved := map (\<lambda>(i, _). (i, None)) (br_approved r), br_dry_run := True\<rparr>, s)"
proof -
  let ?e = "user_env now user"
  obtain b s1 where loop: "for_each (batch_item (\<lambda>_. None) ?e user False) ids (empty_batch, s) = Inr (b, s1)"
    and r: "r = batch_response_of False b"
    using real by (auto simp: batch_approve_def split: sum.splits if_splits)
  have "for_each (batch_item refused ?e user True) ids (forget_ids empty_batch, s) = Inr (forget_ids b, s)"
    using batch_dry [OF assms(1), of user s s refused ?e empty_batch] loop by simp
  moreover have "batch_response_of True (forget_ids b) = r\<lparr>br_approved := map (\<lambda>(i, _). (i, None)) (br_approved r), br_dry_run := True\<rparr>"
    by (simp add: r batch_response_of_def forget_ids_def)
  moreover have "require_role Manager user = Inr user" "\<not> (ids = [] \<or> 200 < length ids)"
    using real by (auto simp: batch_approve_def require_role_def split: if_splits)
  ultimately show ?thesis by (simp add: batch_approve_def)
qed

section \<open>Concrete instances\<close>

definition demo_user :: "user_role \<Rightarrow> app_user" where
  "demo_user role = \<lparr>user_id = 3, user_tenant_id = 1, user_role_of = role\<rparr>"

lemma demo_user_simps [simp]:
  "user_id (demo_user role) = 3" "user_tenant_id (demo_user role) = 1" "user_role_of (demo_user role) = role"
  by (simp_all add: demo_user_def)

definition plain_approval :: approve_request where
  "plain_approval = \<lparr>ap_edited_content = None, ap_edited_fields = None, ap_note = None\<rparr>"

lemma demo_rows [simp]:
  "get_asset 20 (demo_db st (demo_asset ty ast meta)) = Some (demo_asset ty ast meta)"
  "get_campaign 7 (demo_db st a) = Some (demo_campaign st)"
  "asset_tenant_id (demo_asset ty ast meta) = 1"
  by (simp_all add: get_asset_def get_campaign_def find_row_def demo_asset_def)

lemma demo_tenant_rows [simp]:
  "tenant_asset (demo_user role) 20 (demo_db st (demo_asset ty ast meta)) = Some (demo_asset ty ast meta)"
  "tenant_campaign (demo_user role) 7 (demo_db st a) = Some (demo_campaign st)"
  by (simp_all add: tenant_asset_Some tenant_campaign_Some)

lemma demo_approve_runs:
  "\<exists>d s'. approve_asset sm 5 (demo_user Manager) 20 plain_approval (demo_db Live (demo_asset TEmail APendingApproval [])) = Inr (d, s')"
  by (simp add: approve_asset_def require_role_def load_asset_and_campaign_def approvable_def is_compliance_blocked_def dict_get_def
      evaluate_threshold_def threshold_of_def Let_def edited_def has_edits_def plain_approval_def case_prod_beta
      maybe_advance_to_ready_to_launch_def)

theorem approve_asset_only_permitted_witness:
  "\<exists>d s'. approve_asset (campaign_sm (\<lambda>_ _ _. False)) 5 (demo_user Manager) 20 plain_approval (demo_db Live (demo_asset TEmail APendingApproval []))
       = Inr (d, s') \<and> dec_reviewer_id d = 3"
proof -
  obtain d s' where run: "approve_asset (campaign_sm (\<lambda>_ _ _. False)) 5 (demo_user Manager) 20 plain_approval
      (demo_db Live (demo_asset TEmail APendingApproval [])) = Inr (d, s')"
    using demo_approve_runs by blast
  from approve_asset_only_permitted [OF run] have "dec_reviewer_id d = 3" by auto
  with run show ?thesis by blast
qed

definition strict_settings :: approval_settings where
  "strict_settings = \<lparr>set_tenant_id = 1, set_admin_required_above = Some 100000, set_auto_approval_cap = 0, set_currency = ''USD''\<rparr>"

definition strict_db :: "campaign_status \<Rightarrow> content_asset \<Rightarrow> db" where
  "strict_db st a = (demo_db st a)\<lparr>approval_settings_rows := [strict_settings]\<rparr>"

lemma strict_db_simps [simp]:
  "assets (strict_db st a) = [a]" "campaigns (strict_db st a) = [demo_campaign st]" "agents (strict_db st a) = []"
  "approval_settings_rows (strict_db st a) = [strict_settings]" "any_required camp P (strict_db st a) = any_required camp P (demo_db st a)"
  "set_tenant_id strict_settings = 1"
  by (simp_all add: strict_db_def any_required_def strict_settings_def)

lemma strict_submit_runs:
  "\<exists>s'. apply_transition (campaign_sm tc) (worker_env 5) (demo_campaign ContentInProduction) ''submit_for_approval''
      (strict_db ContentInProduction (demo_asset TEmail ADrafted []))
    = Inr (demo_campaign ContentInProduction\<lparr>camp_status := ApprovalPending\<rparr>, s')"
proof -
  let ?t = "transition_of ''submit_for_approval'' ContentInProduction ApprovalPending
        (Some all_required_assets_drafted) (Some flip_drafted_assets_to_pending_approval)"
  have "\<exists>s'. apply_transition (campaign_sm tc) (worker_env 5) (demo_campaign ContentInProduction) ''submit_for_approval''
      (strict_db ContentInProduction (demo_asset TEmail ADrafted []))
    = Inr (demo_campaign ContentInProduction\<lparr>camp_status := tr_to ?t\<rparr>, s')"
  proof (rule apply_transition_runs [where h = flip_drafted_assets_to_pending_approval])
    fix s2 :: db
    assume "approval_settings_rows s2 = approval_settings_rows (strict_db ContentInProduction (demo_asset TEmail ADrafted []))"
    then show "\<exists>s'. flip_drafted_assets_to_pending_approval (worker_env 5)
        (demo_campaign ContentInProduction\<lparr>camp_status := tr_to ?t\<rparr>) s2 = Inr s'"
      by (simp add: flip_drafted_assets_to_pending_approval_def)
  qed (use demo_not_blocked in \<open>auto simp: builtin_transitions_def transition_of_def
      all_required_assets_drafted_def undrafted_def\<close>)
  then show ?thesis by (simp add: transition_of_def)
qed

theorem submitted_threshold_enforced_witness:
  "\<exists>s'. apply_transition (campaign_sm (\<lambda>_ _ _. False)) (worker_env 5) (demo_campaign ContentInProduction) ''submit_for_approval''
      (strict_db ContentInProduction (demo_asset TEmail ADrafted [])) = Inr (demo_campaign ApprovalPending, s')
    \<and> approve_asset (campaign_sm (\<lambda>_ _ _. False)) 9 (demo_user Manager) 20 plain_approval (s'\<lparr>approval_settings_rows := []\<rparr>)
        = Inl (HTTPException 403)"
proof -
  let ?s = "strict_db ContentInProduction (demo_asset TEmail ADrafted [])"
  obtain s' where run: "apply_transition (campaign_sm (\<lambda>_ _ _. False)) (worker_env 5) (demo_campaign ContentInProduction)
      ''submit_for_approval'' ?s = Inr (demo_campaign ApprovalPending, s')"
    using strict_submit_runs by auto
  have a: "get_asset 20 ?s = Some (demo_asset TEmail ADrafted [])" "drafted_required (demo_campaign ContentInProduction) (demo_asset TEmail ADrafted [])"
    "asset_tenant_id (demo_asset TEmail ADrafted []) = camp_tenant_id (demo_campaign ContentInProduction)"
    "\<not> is_compliance_blocked (demo_asset TEmail ADrafted [])"
    by (simp_all add: get_asset_def find_row_def drafted_required_def required_in_def is_compliance_blocked_def dict_get_def)
  have c: "get_campaign (camp_id (demo_campaign ContentInProduction)) ?s = Some (demo_campaign ContentInProduction)"
    by (simp add: get_campaign_def find_row_def)
  have st: "filter (\<lambda>r. set_tenant_id r = camp_tenant_id (demo_campaign ContentInProduction)) (approval_settings_rows ?s) = [strict_settings]"
    "set_admin_required_above strict_settings = Some 100000" "set_currency strict_settings = camp_currency (demo_campaign ContentInProduction)"
    "set_currency strict_settings \<noteq> []" by (simp_all, simp_all add: strict_settings_def demo_campaign_def)
  have u: "user_tenant_id (demo_user Manager) = camp_tenant_id (demo_campaign ContentInProduction)"
    "role_rank Manager \<le> role_rank (user_role_of (demo_user Manager))" by simp_all
  have "100000 < camp_budget_total (demo_campaign ContentInProduction)" by (simp add: demo_campaign_def)
  with submitted_threshold_enforced [OF run a c st u refl, where rows = "[]" and now = 9 and body = plain_approval] run show ?thesis by auto
qed

definition demo_rejection :: reject_request where
  "demo_rejection = \<lparr>rj_reason = ''too long'', rj_category = RcLength\<rparr>"

definition staffed_db :: db where
  "staffed_db = (demo_db ApprovalPending (demo_asset TEmail APendingApproval []))
     \<lparr>agents := [\<lparr>ag_id = 5, ag_tenant_id = 1, ag_name = ''Content Creator'', ag_type = ContentCreator\<rparr>]\<rparr>"

theorem reject_asset_regenerates_witness:
  "\<exists>d s'. reject_asset (campaign_sm (\<lambda>_ _ _. False)) 5 (demo_user Manager) 20 demo_rejection staffed_db = Inr (d, s')
     \<and> get_campaign 7 s' = Some (demo_campaign ContentInProduction)"
proof -
  let ?a = "demo_asset TEmail APendingApproval []"
  have role: "role_rank Manager \<le> role_rank (user_role_of (demo_user Manager))" by simp
  have reason: "rj_reason demo_rejection \<noteq> []" "length (rj_reason demo_rejection) \<le> 2000" by (simp_all add: demo_rejection_def)
  have rows: "tenant_asset (demo_user Manager) 20 staffed_db = Some ?a" "asset_status_of ?a = APendingApproval"
    "tenant_campaign (demo_user Manager) (asset_campaign_id ?a) staffed_db = Some (demo_campaign ApprovalPending)"
    by (simp_all add: staffed_db_def tenant_asset_def tenant_campaign_def get_asset_def get_campaign_def find_row_def demo_asset_def)
  have ag: "scalar_one_or_none (filter (\<lambda>g. ag_tenant_id g = asset_tenant_id ?a \<and> ag_type g = ContentCreator) (agents staffed_db))
      = Some (Some \<lparr>ag_id = 5, ag_tenant_id = 1, ag_name = ''Content Creator'', ag_type = ContentCreator\<rparr>)"
    by (simp add: staffed_db_def)
  from reject_asset_regenerates [OF role reason rows ag, of "\<lambda>_ _ _. False" 5] show ?thesis by auto
qed

definition capped_meta :: dict where
  "capped_meta = [(''approval_threshold'', JObj [(''auto_approval_cap_amount'', JStr (money_str 900000))])]"

abbreviation batch_db :: db where
  "batch_db \<equiv> demo_db Live (demo_asset TEmail APendingApproval capped_meta)"

lemma screen_demo: "\<exists>applied. screen (demo_user Manager) 20 batch_db
    = Inr (Inr (demo_asset TEmail APendingApproval capped_meta, demo_campaign Live, applied))"
proof -
  let ?a = "demo_asset TEmail APendingApproval capped_meta" and ?c = "demo_campaign Live"
  have th: "threshold_of ?a = Inr [(''auto_approval_cap_amount'', JStr (money_str 900000))]"
    by (simp add: threshold_of_def capped_meta_def dict_get_def)
  have camp: "camp_currency ?c = ''USD''" "camp_budget_total ?c = 500000" by (simp_all add: demo_campaign_def)
  have cap: "exceeds_auto_approval_cap ?a ?c = Inr (False, Some (DNum 9000))"
    by (simp add: exceeds_auto_approval_cap_def th dict_get_def currency_of_def Let_def camp money_roundtrip)
  obtain applied where ev: "evaluate_threshold ?a ?c = Inr (False, applied)"
    by (simp add: evaluate_threshold_def th dict_get_def Let_def)
  have "approvable ?a" "\<not> is_compliance_blocked ?a"
    by (simp_all add: approvable_def is_compliance_blocked_def capped_meta_def dict_get_def)
  then show ?thesis by (simp add: screen_def cap ev)
qed

lemma demo_batch_runs:
  "\<exists>r s'. batch_approve sm (\<lambda>_. None) id 5 (demo_user Manager) [20, 21] False batch_db = Inr (r, s') \<and> map fst (br_approved r) = [20]"
proof -
  obtain applied where ok: "screen (demo_user Manager) 20 batch_db
    = Inr (Inr (demo_asset TEmail APendingApproval capped_meta, demo_campaign Live, applied))" using screen_demo by blast
  let ?e = "user_env 5 (demo_user Manager)" and ?a = "demo_asset TEmail APendingApproval capped_meta"
  let ?b = "tally ?a (demo_campaign Live) empty_batch"
  obtain d s1 where d: "decide ?e (demo_user Manager) ?a DApproved None (Some [(''batch'', JBool True)]) AApproved ''approved''
      [(''applied_threshold'', JObj applied), (''via'', JStr ''batch_approve'')] batch_db = (d, s1)" by force
  have one: "batch_item (\<lambda>_. None) ?e (demo_user Manager) False 20 (empty_batch, batch_db) = Inr (accept 20 (Some (dec_id d)) ?b, s1)"
    by (simp only: batch_item_def prod.case ok sum.case Let_def option.case d if_False)
  have "assets s1 = update_where (\<lambda>r. asset_id r = asset_id ?a) (stamped ?e (decided ?a AApproved)) (assets batch_db)"
    using decide_assets [of ?e "demo_user Manager" ?a DApproved None "Some [(''batch'', JBool True)]" AApproved "''approved''"] d by (metis snd_conv)
  then have "get_asset 21 s1 = None" by (simp add: get_asset_def)
  then have two: "batch_item (\<lambda>_. None) ?e (demo_user Manager) False 21 (b, s1) = Inr (exclude 21 NotFound b, s1)" for b
    by (simp add: batch_item_def screen_def tenant_asset_def)
  let ?b' = "exclude 21 NotFound (accept 20 (Some (dec_id d)) ?b)"
  have b: "bt_campaigns ?b' = [demo_campaign Live]" "bt_approved ?b' = [(20, Some (dec_id d))]"
    by (simp_all add: tally_def empty_batch_def accept_def exclude_def)
  have "batch_approve sm (\<lambda>_. None) id 5 (demo_user Manager) [20, 21] False batch_db = Inr (batch_response_of False ?b', s1)"
    by (simp add: batch_approve_def require_role_def one two b maybe_advance_to_ready_to_launch_def)
  then show ?thesis by (simp add: batch_response_of_def empty_batch_def)
qed

theorem batch_approves_only_permitted_witness:
  "\<exists>r s'. batch_approve (campaign_sm (\<lambda>_ _ _. False)) (\<lambda>_. None) id 5 (demo_user Manager) [20, 21] False batch_db = Inr (r, s')
     \<and> may_batch (demo_user Manager) 20 batch_db"
proof -
  obtain r s' where run: "batch_approve (campaign_sm (\<lambda>_ _ _. False)) (\<lambda>_. None) id 5 (demo_user Manager) [20, 21] False batch_db = Inr (r, s')"
    "map fst (br_approved r) = [20]" using demo_batch_runs [of "campaign_sm (\<lambda>_ _ _. False)"] by (elim exE conjE) (rule that)
  then have "\<exists>d. (20, d) \<in> set (br_approved r)" by (cases "br_approved r") auto
  with batch_approves_only_permitted [OF run(1)] run(1) show ?thesis by blast
qed

theorem batch_dry_run_predicts_witness:
  "\<exists>r. batch_approve (campaign_sm (\<lambda>_ _ _. False)) (\<lambda>_. None) id 5 (demo_user Manager) [20, 21] True batch_db = Inr (r, batch_db)
     \<and> map fst (br_approved r) = [20]"
proof -
  obtain r s' where run: "batch_approve (campaign_sm (\<lambda>_ _ _. False)) (\<lambda>_. None) id 5 (demo_user Manager) [20, 21] False batch_db = Inr (r, s')"
    "map fst (br_approved r) = [20]" using demo_batch_runs [of "campaign_sm (\<lambda>_ _ _. False)"] by (elim exE conjE) (rule that)
  have "distinct [20 :: uuid, 21]" by simp
  from batch_dry_run_predicts [OF this run(1), of "\<lambda>_. None"] run(2) show ?thesis by (auto simp: comp_def case_prod_beta)
qed

end
