(* ===== verification/Compliance.thy ===== *)
theory Compliance
  imports Models Py_Values
begin

text \<open>
  The checks on generated copy: \<^verbatim>\<open>check_compliance\<close> and the similarity of \<^verbatim>\<open>app/agents/_compliance.py\<close>, and the
  brand-voice helpers of \<^verbatim>\<open>app/agents/brand_voice.py\<close>. The regular expressions the sources fix are
  terms of a small syntax with the backtracking order of Python's \<^verbatim>\<open>re\<close>; those a tenant writes are
  compiled by the parameter \<open>rxc\<close> (\<open>None\<close> is \<^verbatim>\<open>re.error\<close>, otherwise the spans \<^verbatim>\<open>finditer\<close> yields). Matching
  ignores case; word characters are the ASCII ones.
\<close>

section \<open>Regular expressions\<close>

definition is_word :: "char \<Rightarrow> bool" where
  "is_word c = (let n = of_char c :: nat
     in (48 \<le> n \<and> n \<le> 57) \<or> (65 \<le> n \<and> n \<le> 90) \<or> (97 \<le> n \<and> n \<le> 122) \<or> n = 95)"

datatype rx =
    RLit string
  | RSet "char \<Rightarrow> bool"
  | RStar "char \<Rightarrow> bool"
  | ROpt rx
  | RSeq rx rx
  | RAlt rx rx
  | RBound  \<comment> \<open>\<^verbatim>\<open>\b\<close>\<close>

definition word_boundary :: "string \<Rightarrow> nat \<Rightarrow> bool" where
  "word_boundary t i \<longleftrightarrow> (0 < i \<and> is_word (t ! (i - 1))) \<noteq> (i < length t \<and> is_word (t ! i))"

text \<open>The ends of the matches that start at a position, in the order backtracking tries them.\<close>

fun ends :: "string \<Rightarrow> rx \<Rightarrow> nat \<Rightarrow> nat list" where
  "ends t (RLit s) i = (if py_lower (take (length s) (drop i t)) = py_lower s then [i + length s] else [])"
| "ends t (RSet p) i = (if i < length t \<and> p (t ! i) then [Suc i] else [])"
| "ends t (RStar p) i = rev (map (\<lambda>k. i + k) [0..<Suc (length (takeWhile p (drop i t)))])"
| "ends t (ROpt r) i = ends t r i @ [i]"
| "ends t (RSeq r q) i = concat (map (ends t q) (ends t r i))"
| "ends t (RAlt r q) i = ends t r i @ ends t q i"
| "ends t RBound i = (if word_boundary t i then [i] else [])"

definition match_at :: "rx \<Rightarrow> string \<Rightarrow> nat \<Rightarrow> nat option" where
  "match_at r t i = (case ends t r i of [] \<Rightarrow> None | e # _ \<Rightarrow> Some e)"

text \<open>\<^verbatim>\<open>finditer\<close> from a position on. None of the expressions below matches the empty string.\<close>

function finditer :: "rx \<Rightarrow> string \<Rightarrow> nat \<Rightarrow> (nat \<times> nat) list" where
  "finditer r t i =
     (if length t < i then []
      else case match_at r t i of
             None \<Rightarrow> finditer r t (Suc i)
           | Some e \<Rightarrow> (i, e) # finditer r t (max e (Suc i)))"
  by pat_completeness auto
termination by (relation "measure (\<lambda>(r, t, i). Suc (length t) - i)") auto

declare finditer.simps [simp del]

definition rx_alts :: "rx list \<Rightarrow> rx" where
  "rx_alts rs = foldr RAlt (butlast rs) (last rs)"

definition rx_seq :: "rx list \<Rightarrow> rx" where
  "rx_seq rs = foldr RSeq (butlast rs) (last rs)"

text \<open>\<^verbatim>\<open>\b(?:...)\b\<close>\<close>

definition bounded :: "rx \<Rightarrow> rx" where
  "bounded r = RSeq RBound (RSeq r RBound)"

definition space_or_dash :: "char \<Rightarrow> bool" where
  "space_or_dash c \<longleftrightarrow> is_space c \<or> c = CHR ''-''"

section \<open>Compliance\<close>

definition guarantee_alts :: "rx list" where
  "guarantee_alts = [RLit ''guaranteed'', RLit ''guarantee'',
     rx_seq [RLit ''100'', RStar is_space, RLit ''%'', RStar is_space, RLit ''effective'']]"

definition absolute_alts :: "rx list" where
  "absolute_alts = [RLit ''always works'', RLit ''never fails'', rx_seq [RLit ''risk'', ROpt (RSet space_or_dash), RLit ''free'']]"

definition medical_alts :: "rx list" where
  "medical_alts = [rx_seq [RLit ''cure'', ROpt (RLit ''s'')], rx_seq [RLit ''treat'', ROpt (RLit ''s'')],
     rx_seq [RLit ''FDA'', ROpt (RSet space_or_dash), RLit ''approved''], RLit ''clinically proven'']"

definition financial_alts :: "rx list" where
  "financial_alts = [rx_seq [RLit ''guaranteed return'', ROpt (RLit ''s'')], RLit ''double your money'']"

definition superlative_alts :: "rx list" where
  "superlative_alts = [RLit ''the best'', RLit ''#1'', RLit ''the only'', rx_seq [RLit ''world'', ROpt (RSet space_or_dash), RLit ''class'']]"

definition universal_patterns :: "(string \<times> rx \<times> string) list" where
  "universal_patterns =
     [(''guaranteed_results'', bounded (rx_alts guarantee_alts), ''block''),
      (''absolute_always_never'', bounded (rx_alts absolute_alts), ''block''),
      (''medical_claim'', bounded (rx_alts medical_alts), ''block''),
      (''financial_guarantee'', bounded (rx_alts financial_alts), ''block''),
      (''unqualified_superlative'', bounded (rx_alts superlative_alts), ''warn'')]"

record compliance_hit =
  hit_rule :: string
  hit_severity :: string
  hit_snippet :: string
  hit_pattern_kind :: string

definition ellipsis :: string where "ellipsis = [CHR 0xE2, CHR 0x80, CHR 0xA6]"

definition snippet :: "string \<Rightarrow> nat \<times> nat \<Rightarrow> string" where
  "snippet t = (\<lambda>(start, stop).
     let lo = start - 30; hi = min (length t) (stop + 30)
     in (if 0 < lo then ellipsis else []) @ slice lo hi t @ (if hi < length t then ellipsis else []))"

definition hits_at :: "string \<Rightarrow> string \<Rightarrow> string \<Rightarrow> string \<Rightarrow> (nat \<times> nat) list \<Rightarrow> compliance_hit list" where
  "hits_at t rule severity kind spans =
     map (\<lambda>m. \<lparr>hit_rule = rule, hit_severity = severity, hit_snippet = snippet t m, hit_pattern_kind = kind\<rparr>) spans"

definition exact_rx :: "string \<Rightarrow> rx" where
  "exact_rx keyword = bounded (RLit keyword)"

definition rule_hits ::
  "(string \<Rightarrow> (string \<Rightarrow> (nat \<times> nat) list) option) \<Rightarrow> string \<Rightarrow> compliance_rule \<Rightarrow> compliance_hit list res" where
  "rule_hits rxc t r =
     (let keyword = py_strip (rule_keyword r);
          severity = (if rule_severity r \<in> {''block'', ''warn''} then rule_severity r else ''warn'');
          kind = (if rule_pattern_kind r = [] then ''exact'' else rule_pattern_kind r)
      in if keyword = [] then Inr []
         else if rule_pattern_kind r = ''regex''
           then (case rxc (rule_keyword r) of
                   None \<Rightarrow> Inl ComplianceCheckError
                 | Some spans \<Rightarrow> Inr (hits_at t keyword severity kind (spans t)))
           else Inr (hits_at t keyword severity kind (finditer (exact_rx keyword) t 0)))"

fun rules_hits ::
  "(string \<Rightarrow> (string \<Rightarrow> (nat \<times> nat) list) option) \<Rightarrow> string \<Rightarrow> compliance_rule list \<Rightarrow> compliance_hit list res" where
  "rules_hits rxc t [] = Inr []"
| "rules_hits rxc t (r # rs) =
     (case rule_hits rxc t r of
        Inl err \<Rightarrow> Inl err
      | Inr hs \<Rightarrow> map_sum id (\<lambda>hs'. hs @ hs') (rules_hits rxc t rs))"

definition universal_hits :: "string \<Rightarrow> compliance_hit list" where
  "universal_hits t = concat (map (\<lambda>(label, r, severity). hits_at t label severity ''regex'' (finditer r t 0)) universal_patterns)"

definition check_compliance ::
  "(string \<Rightarrow> (string \<Rightarrow> (nat \<times> nat) list) option) \<Rightarrow> string \<Rightarrow> compliance_rule list \<Rightarrow> compliance_hit list res" where
  "check_compliance rxc t rules =
     (if t = [] then Inr [] else map_sum id (\<lambda>hs. universal_hits t @ hs) (rules_hits rxc t rules))"

definition passed :: "compliance_hit list \<Rightarrow> bool" where
  "passed hits \<longleftrightarrow> hits = []"

definition blocked :: "compliance_hit list \<Rightarrow> bool" where
  "blocked hits \<longleftrightarrow> list_ex (\<lambda>h. hit_severity h = ''block'') hits"

definition warn_keywords :: "compliance_hit list \<Rightarrow> string list" where
  "warn_keywords hits = map hit_rule (filter (\<lambda>h. hit_severity h = ''warn'') hits)"

definition hit_dict :: "compliance_hit \<Rightarrow> json" where
  "hit_dict h = JObj [(''rule'', JStr (hit_rule h)), (''severity'', JStr (hit_severity h)),
     (''snippet'', JStr (hit_snippet h)), (''pattern_kind'', JStr (hit_pattern_kind h))]"

definition compliance_metadata :: "bool \<Rightarrow> compliance_hit list \<Rightarrow> dict" where
  "compliance_metadata rewritten hits =
     [(''pass'', JBool (passed hits)), (''blocked'', JBool (blocked hits)), (''hits'', JArr (map hit_dict hits)),
      (''rewritten_for_suppression'', JBool rewritten)]"

section \<open>Similarity of variants\<close>

text \<open>\<^verbatim>\<open>re.findall(r"\b\w+\b", text)\<close>: the maximal runs of word characters.\<close>

fun word_runs :: "string \<Rightarrow> string \<Rightarrow> string list" where
  "word_runs acc [] = (if acc = [] then [] else [rev acc])"
| "word_runs acc (c # cs) =
     (if is_word c then word_runs (c # acc) cs
      else if acc = [] then word_runs [] cs else rev acc # word_runs [] cs)"

definition tokenise :: "string \<Rightarrow> string list" where
  "tokenise t = map py_lower (word_runs [] t)"

definition dot_product :: "string list \<Rightarrow> string list \<Rightarrow> nat" where
  "dot_product xs ys = sum_list (map (\<lambda>t. count_list xs t * count_list ys t) (remdups xs))"

text \<open>The square of \<^verbatim>\<open>body_cosine_similarity\<close>, exactly: \<^verbatim>\<open>dot / (sqrt(sum a*a) * sqrt(sum b*b))\<close> before
  floating-point rounding.\<close>

definition body_cosine_similarity_sq :: "string \<Rightarrow> string \<Rightarrow> rat" where
  "body_cosine_similarity_sq a b =
     (let xs = tokenise a; ys = tokenise b
      in if xs = [] \<or> ys = [] then 0
         else of_nat (dot_product xs ys) ^ 2 / (of_nat (dot_product xs xs) * of_nat (dot_product ys ys)))"

text \<open>\<^verbatim>\<open>round(score, 4)\<close> of the square root of a rational between 0 and 1, in ten-thousandths.\<close>

definition round4_sqrt :: "rat \<Rightarrow> int" where
  "round4_sqrt q = int (length (filter (\<lambda>n. (of_nat (2 * n + 1)) ^ 2 < 4 * 10 ^ 8 * q) [0..<10000]))"

section \<open>Brand voice\<close>

definition check_dont_words :: "string \<Rightarrow> string list \<Rightarrow> string list" where
  "check_dont_words t dont_words =
     (if dont_words = [] \<or> t = [] then []
      else filter (\<lambda>w. w \<noteq> [] \<and> finditer (exact_rx w) t 0 \<noteq> []) (map py_strip dont_words))"

definition voice_prompt :: "brand_voice \<Rightarrow> string" where
  "voice_prompt v =
     py_join [char_of (10::nat)]
       ([''## Brand voice: '' @ bv_name v]
        @ (if bv_tone_descriptors v = [] then [] else [''Tone descriptors: '' @ py_join '', '' (bv_tone_descriptors v)])
        @ (if bv_do_words v = [] then [] else [''Prefer these words/phrases: '' @ py_join '', '' (bv_do_words v)])
        @ (if bv_dont_words v = [] then [] else [''Avoid these words/phrases entirely: '' @ py_join '', '' (bv_dont_words v)])
        @ (case bv_reading_grade_target v of None \<Rightarrow> [] | Some g \<Rightarrow> [''Target reading grade level: '' @ money_str g])
        @ (if bv_sample_paragraphs v = [] then []
           else ''Sample paragraphs that exemplify this voice:''
             # map (\<lambda>(i, p). ''  ['' @ digits i @ ''] '' @ p) (zip [1..<Suc (length (bv_sample_paragraphs v))] (bv_sample_paragraphs v))))"

section \<open>Searching\<close>

lemma match_at_None: "match_at r t i = None \<longleftrightarrow> ends t r i = []"
  by (simp add: match_at_def split: list.splits)

text \<open>A search finds something exactly when some position has a match.\<close>

lemma finditer_empty: "finditer r t i = [] \<longleftrightarrow> (\<forall>j. i \<le> j \<and> j \<le> length t \<longrightarrow> ends t r j = [])"
proof (induction r t i rule: finditer.induct)
  case (1 r t i)
  show ?case
  proof (cases "length t < i")
    case True
    then show ?thesis by (subst finditer.simps) auto
  next
    case False
    show ?thesis
    proof (cases "match_at r t i")
      case None
      then have "finditer r t i = finditer r t (Suc i)" using False by (subst finditer.simps) simp
      moreover have "finditer r t (Suc i) = [] \<longleftrightarrow> (\<forall>j. Suc i \<le> j \<and> j \<le> length t \<longrightarrow> ends t r j = [])"
        using 1 False None by simp
      moreover have "ends t r i = []" using None by (simp add: match_at_None)
      ultimately show ?thesis by (metis Suc_leI le_neq_implies_less Suc_leD)
    next
      case (Some e)
      then have "finditer r t i \<noteq> []" using False by (subst finditer.simps) simp
      moreover have "ends t r i \<noteq> []" using Some match_at_None [of r t i] by auto
      ultimately show ?thesis using False by (metis leI order_refl)
    qed
  qed
qed

definition occurs_at :: "string \<Rightarrow> string \<Rightarrow> nat \<Rightarrow> bool" where
  "occurs_at w t i \<longleftrightarrow> py_lower (take (length w) (drop i t)) = py_lower w
     \<and> word_boundary t i \<and> word_boundary t (i + length w)"

lemma ends_exact: "ends t (exact_rx w) i = (if occurs_at w t i then [i + length w] else [])"
  by (simp add: exact_rx_def bounded_def occurs_at_def)

lemma occurs_at_length: "occurs_at w t i \<Longrightarrow> w \<noteq> [] \<Longrightarrow> i + length w \<le> length t"
proof -
  assume "occurs_at w t i" "w \<noteq> []"
  then have "length (py_lower (take (length w) (drop i t))) = length (py_lower w)" by (simp add: occurs_at_def)
  with \<open>w \<noteq> []\<close> show ?thesis by (cases w) (auto simp: py_lower_def min_def split: if_splits)
qed

lemma exact_found: "w \<noteq> [] \<Longrightarrow> finditer (exact_rx w) t 0 \<noteq> [] \<longleftrightarrow> (\<exists>i. occurs_at w t i)"
proof -
  assume w: "w \<noteq> []"
  have "occurs_at w t i \<Longrightarrow> i \<le> length t" for i using occurs_at_length [OF _ w, of t i] by simp
  then show ?thesis by (auto simp: finditer_empty ends_exact split: if_splits)
qed

text \<open>The brand check reports exactly the forbidden words of a draft: a word is reported when its stripped
  form is not empty and occurs in the draft, ignoring case, with a word boundary on both sides.\<close>

theorem check_dont_words_exact:
  "set (check_dont_words t dont_words) = {w. w \<in> py_strip ` set dont_words \<and> w \<noteq> [] \<and> (\<exists>i. occurs_at w t i)}"
proof (cases "t = []")
  case True
  have "\<not> occurs_at w [] i" if "w \<noteq> []" for w i
    using occurs_at_length [of w "[]" i] that by auto
  then show ?thesis using True by (auto simp: check_dont_words_def)
next
  case False
  have "w \<noteq> [] \<and> finditer (exact_rx w) t 0 \<noteq> [] \<longleftrightarrow> w \<noteq> [] \<and> (\<exists>i. occurs_at w t i)" for w
    using exact_found by blast
  then show ?thesis using False by (auto simp: check_dont_words_def simp del: ex_simps)
qed

section \<open>What is blocked\<close>

lemma hits_at_iff: "h \<in> set (hits_at t rule severity kind spans) \<Longrightarrow> hit_rule h = rule \<and> hit_severity h = severity"
  by (auto simp: hits_at_def)

lemma blocked_hits_at: "blocked (hits_at t rule severity kind spans) \<longleftrightarrow> severity = ''block'' \<and> spans \<noteq> []"
  by (cases spans) (auto simp: blocked_def hits_at_def list_ex_iff)

lemma blocked_append [simp]: "blocked (xs @ ys) \<longleftrightarrow> blocked xs \<or> blocked ys"
  by (simp add: blocked_def)

lemma blocked_Nil [simp]: "\<not> blocked []"
  by (simp add: blocked_def)

lemma blocked_concat: "blocked (concat xss) \<longleftrightarrow> (\<exists>xs\<in>set xss. blocked xs)"
  by (induction xss) auto

text \<open>The spans a tenant rule finds in a draft.\<close>

definition rule_spans :: "(string \<Rightarrow> (string \<Rightarrow> (nat \<times> nat) list) option) \<Rightarrow> string \<Rightarrow> compliance_rule \<Rightarrow> (nat \<times> nat) list" where
  "rule_spans rxc t r =
     (if py_strip (rule_keyword r) = [] then []
      else if rule_pattern_kind r = ''regex'' then (case rxc (rule_keyword r) of None \<Rightarrow> [] | Some spans \<Rightarrow> spans t)
      else finditer (exact_rx (py_strip (rule_keyword r))) t 0)"

lemma rule_hits_blocked:
  "rule_hits rxc t r = Inr hs \<Longrightarrow> blocked hs \<longleftrightarrow> rule_severity r = ''block'' \<and> rule_spans rxc t r \<noteq> []"
  by (auto simp: rule_hits_def rule_spans_def Let_def blocked_hits_at split: if_splits option.splits)

lemma rules_hits_blocked:
  "rules_hits rxc t rs = Inr hs \<Longrightarrow> blocked hs \<longleftrightarrow> (\<exists>r\<in>set rs. rule_severity r = ''block'' \<and> rule_spans rxc t r \<noteq> [])"
proof (induction rs arbitrary: hs)
  case (Cons r rs)
  obtain h1 h2 where h: "rule_hits rxc t r = Inr h1" "rules_hits rxc t rs = Inr h2" "hs = h1 @ h2"
    using Cons.prems by (auto split: sum.splits)
  then show ?case using rule_hits_blocked [OF h(1)] Cons.IH [OF h(2)] by auto
qed simp

lemma rules_hits_error:
  "(\<exists>err. rules_hits rxc t rs = Inl err) \<longleftrightarrow>
     (\<exists>r\<in>set rs. py_strip (rule_keyword r) \<noteq> [] \<and> rule_pattern_kind r = ''regex'' \<and> rxc (rule_keyword r) = None)"
proof (induction rs)
  case (Cons r rs)
  have "(\<exists>err. rule_hits rxc t r = Inl err) \<longleftrightarrow>
      py_strip (rule_keyword r) \<noteq> [] \<and> rule_pattern_kind r = ''regex'' \<and> rxc (rule_keyword r) = None"
    by (auto simp: rule_hits_def Let_def split: option.splits)
  then show ?case using Cons.IH by (cases "rule_hits rxc t r"; cases "rules_hits rxc t rs") auto
qed simp

lemma universal_hits_blocked:
  "blocked (universal_hits t) \<longleftrightarrow> (\<exists>label r. (label, r, ''block'') \<in> set universal_patterns \<and> finditer r t 0 \<noteq> [])"
  by (force simp: universal_hits_def blocked_concat blocked_hits_at)

lemma check_compliance_blocked:
  assumes "check_compliance rxc t rules = Inr hits" "t \<noteq> []"
  shows "blocked hits \<longleftrightarrow> (\<exists>label r. (label, r, ''block'') \<in> set universal_patterns \<and> finditer r t 0 \<noteq> [])
    \<or> (\<exists>r\<in>set rules. rule_severity r = ''block'' \<and> rule_spans rxc t r \<noteq> [])"
proof -
  obtain hs where hs: "rules_hits rxc t rules = Inr hs" "hits = universal_hits t @ hs"
    using assms by (auto simp: check_compliance_def)
  then show ?thesis using rules_hits_blocked [OF hs(1)] universal_hits_blocked [of t] by simp
qed

lemma ends_rx_alts: "rs \<noteq> [] \<Longrightarrow> ends t (rx_alts rs) i = concat (map (\<lambda>r. ends t r i) rs)"
proof (induction rs)
  case (Cons r rs)
  then show ?case by (cases rs) (simp_all add: rx_alts_def)
qed simp

lemma occurs_matches_alts:
  assumes "RLit w \<in> set rs" "occurs_at w t i"
  shows "ends t (bounded (rx_alts rs)) i \<noteq> []"
proof -
  have "rs \<noteq> []" using assms(1) by auto
  moreover have "i + length w \<in> set (ends t (RLit w) i)" using assms(2) by (simp add: occurs_at_def)
  ultimately have "i + length w \<in> set (ends t (rx_alts rs) i)" using assms(1) by (auto simp: ends_rx_alts simp del: ends.simps)
  then show ?thesis using assms(2) by (auto simp: bounded_def occurs_at_def)
qed

text \<open>Phrases that no customer may be promised.\<close>

definition absolute_claims :: "string list" where
  "absolute_claims = [''guaranteed'', ''guarantee'', ''always works'', ''never fails'', ''clinically proven'', ''double your money'']"

lemma absolute_claim_pattern:
  assumes "w \<in> set absolute_claims"
  obtains label rs where "(label, bounded (rx_alts rs), ''block'') \<in> set universal_patterns" "RLit w \<in> set rs"
proof -
  have pats: "(''guaranteed_results'', bounded (rx_alts guarantee_alts), ''block'') \<in> set universal_patterns"
    "(''absolute_always_never'', bounded (rx_alts absolute_alts), ''block'') \<in> set universal_patterns"
    "(''medical_claim'', bounded (rx_alts medical_alts), ''block'') \<in> set universal_patterns"
    "(''financial_guarantee'', bounded (rx_alts financial_alts), ''block'') \<in> set universal_patterns"
    by (simp_all add: universal_patterns_def)
  have alts: "RLit ''guaranteed'' \<in> set guarantee_alts" "RLit ''guarantee'' \<in> set guarantee_alts"
    "RLit ''always works'' \<in> set absolute_alts" "RLit ''never fails'' \<in> set absolute_alts"
    "RLit ''clinically proven'' \<in> set medical_alts" "RLit ''double your money'' \<in> set financial_alts"
    by (simp_all add: guarantee_alts_def absolute_alts_def medical_alts_def financial_alts_def)
  from assms have "RLit w \<in> set guarantee_alts \<or> RLit w \<in> set absolute_alts \<or> RLit w \<in> set medical_alts \<or> RLit w \<in> set financial_alts"
    unfolding absolute_claims_def list.set insert_iff empty_iff by (elim disjE FalseE) (simp_all only: alts simp_thms)
  then show thesis using pats by (elim disjE) (rule that; assumption)+
qed

lemma absolute_claim_found:
  assumes "w \<in> set absolute_claims" "occurs_at w t i"
  shows "\<exists>label r. (label, r, ''block'') \<in> set universal_patterns \<and> finditer r t 0 \<noteq> []"
proof -
  obtain label rs where p: "(label, bounded (rx_alts rs), ''block'') \<in> set universal_patterns" "RLit w \<in> set rs"
    using assms(1) by (rule absolute_claim_pattern)
  have "w \<noteq> []" using assms(1) by (auto simp: absolute_claims_def)
  then have "i \<le> length t" using occurs_at_length [OF assms(2)] by simp
  then have "finditer (bounded (rx_alts rs)) t 0 \<noteq> []"
    using occurs_matches_alts [OF p(2) assms(2)] by (auto simp: finditer_empty)
  with p(1) show ?thesis by blast
qed

text \<open>C19. The compliance check blocks what it must: it fails exactly when a tenant's regular expression does not
  compile; otherwise a non-empty draft is blocked exactly when a universal blocking pattern or one of
  the tenant's blocking rules finds something in it. In particular every draft with an absolute claim
  as a whole word or phrase, in any letter case, is blocked, and so is every draft with a blocking
  keyword of the tenant.\<close>

theorem compliance_blocks_exactly:
  assumes draft: "t \<noteq> []"
  shows "((\<exists>err. check_compliance rxc t rules = Inl err) \<longleftrightarrow>
       (\<exists>r\<in>set rules. py_strip (rule_keyword r) \<noteq> [] \<and> rule_pattern_kind r = ''regex'' \<and> rxc (rule_keyword r) = None))
    \<and> (\<forall>hits. check_compliance rxc t rules = Inr hits \<longrightarrow>
         (blocked hits \<longleftrightarrow> (\<exists>label r. (label, r, ''block'') \<in> set universal_patterns \<and> finditer r t 0 \<noteq> [])
            \<or> (\<exists>r\<in>set rules. rule_severity r = ''block'' \<and> rule_spans rxc t r \<noteq> []))
         \<and> (\<forall>w i. w \<in> set absolute_claims \<and> occurs_at w t i \<longrightarrow> blocked hits)
         \<and> (\<forall>r i. r \<in> set rules \<and> rule_severity r = ''block'' \<and> rule_pattern_kind r = ''exact''
               \<and> py_strip (rule_keyword r) \<noteq> [] \<and> occurs_at (py_strip (rule_keyword r)) t i \<longrightarrow> blocked hits))"
proof (intro conjI allI impI)
  show "(\<exists>err. check_compliance rxc t rules = Inl err) \<longleftrightarrow>
       (\<exists>r\<in>set rules. py_strip (rule_keyword r) \<noteq> [] \<and> rule_pattern_kind r = ''regex'' \<and> rxc (rule_keyword r) = None)"
    using draft rules_hits_error [of rxc t rules] by (cases "rules_hits rxc t rules") (auto simp: check_compliance_def)
next
  fix hits assume run: "check_compliance rxc t rules = Inr hits"
  note iff = check_compliance_blocked [OF run draft]
  show "blocked hits \<longleftrightarrow> (\<exists>label r. (label, r, ''block'') \<in> set universal_patterns \<and> finditer r t 0 \<noteq> [])
            \<or> (\<exists>r\<in>set rules. rule_severity r = ''block'' \<and> rule_spans rxc t r \<noteq> [])" by (rule iff)
  show "blocked hits" if "w \<in> set absolute_claims \<and> occurs_at w t i" for w i
    using iff absolute_claim_found that by blast
  fix r i
  assume r: "r \<in> set rules \<and> rule_severity r = ''block'' \<and> rule_pattern_kind r = ''exact''
      \<and> py_strip (rule_keyword r) \<noteq> [] \<and> occurs_at (py_strip (rule_keyword r)) t i"
  then have "rule_spans rxc t r \<noteq> []" using exact_found [of "py_strip (rule_keyword r)" t] by (auto simp: rule_spans_def)
  with r iff show "blocked hits" by blast
qed

text \<open>The superlative \<open>#1\<close> is practically never flagged: the pattern asks for a word boundary before the
  hash sign, so an occurrence at the start of the draft or after a space or any other character
  that is no word character is not a match.\<close>

theorem number_one_is_not_flagged:
  assumes "take 2 (drop i t) = ''#1''" and "i = 0 \<or> \<not> is_word (t ! (i - 1))"
  shows "ends t (bounded (rx_alts superlative_alts)) i = []"
proof -
  have len: "i < length t" using assms(1) by (metis drop_all leI list.distinct(1) take_Nil)
  have "t ! i = CHR ''#''"
    using assms(1) len by (metis Cons_nth_drop_Suc list.inject numeral_2_eq_2 take_Suc_Cons)
  then have "\<not> word_boundary t i" using assms(2) by (auto simp: word_boundary_def is_word_def Let_def)
  then show ?thesis by (simp add: bounded_def)
qed

section \<open>Similarity\<close>

lemma dot_product_sum:
  "finite A \<Longrightarrow> set xs \<union> set ys \<subseteq> A \<Longrightarrow> dot_product xs ys = (\<Sum>t\<in>A. count_list xs t * count_list ys t)"
proof -
  assume A: "finite A" "set xs \<union> set ys \<subseteq> A"
  have "dot_product xs ys = (\<Sum>t\<in>set xs. count_list xs t * count_list ys t)"
    by (simp add: dot_product_def sum_list_distinct_conv_sum_set)
  also have "\<dots> = (\<Sum>t\<in>A. count_list xs t * count_list ys t)"
    by (rule sum.mono_neutral_left) (use A in \<open>auto simp: count_list_0_iff\<close>)
  finally show ?thesis .
qed

lemma sum_product_square:
  fixes f g :: "'a \<Rightarrow> nat"
  assumes "finite A"
  shows "(\<Sum>t\<in>A. f t * g t) ^ 2 \<le> (\<Sum>t\<in>A. f t * f t) * (\<Sum>t\<in>A. g t * g t)"
proof -
  have amgm: "2 * (f s * g s * (f t * g t)) \<le> f s * f s * (g t * g t) + f t * f t * (g s * g s)" for s t
  proof -
    have "0 \<le> (int (f s) * int (g t) - int (f t) * int (g s)) ^ 2" by simp
    then have "2 * (int (f s) * int (g s) * (int (f t) * int (g t)))
        \<le> int (f s) * int (f s) * (int (g t) * int (g t)) + int (f t) * int (f t) * (int (g s) * int (g s))"
      by (simp add: power2_eq_square algebra_simps)
    then have "int (2 * (f s * g s * (f t * g t))) \<le> int (f s * f s * (g t * g t) + f t * f t * (g s * g s))"
      by (simp only: of_nat_mult of_nat_add of_nat_numeral)
    then show ?thesis by (simp only: of_nat_le_iff)
  qed
  have "2 * (\<Sum>t\<in>A. f t * g t) ^ 2 = (\<Sum>s\<in>A. \<Sum>t\<in>A. 2 * (f s * g s * (f t * g t)))"
    unfolding power2_eq_square sum_product by (simp only: sum_distrib_left)
  also have "\<dots> \<le> (\<Sum>s\<in>A. \<Sum>t\<in>A. f s * f s * (g t * g t) + f t * f t * (g s * g s))"
    by (intro sum_mono amgm)
  also have "\<dots> = 2 * ((\<Sum>t\<in>A. f t * f t) * (\<Sum>t\<in>A. g t * g t))"
  proof -
    have one: "(\<Sum>s\<in>A. \<Sum>t\<in>A. f s * f s * (g t * g t)) = (\<Sum>t\<in>A. f t * f t) * (\<Sum>t\<in>A. g t * g t)"
      by (simp only: sum_product)
    have two: "(\<Sum>s\<in>A. \<Sum>t\<in>A. f t * f t * (g s * g s)) = (\<Sum>t\<in>A. f t * f t) * (\<Sum>t\<in>A. g t * g t)"
      by (subst sum.swap) (simp only: sum_product)
    show ?thesis unfolding sum.distrib one two by simp
  qed
  finally show ?thesis by simp
qed

lemma dot_product_pos: "xs \<noteq> [] \<Longrightarrow> 0 < dot_product xs xs"
proof -
  assume "xs \<noteq> []"
  then obtain x where x: "x \<in> set xs" by (cases xs) auto
  have "0 < count_list xs x * count_list xs x" using x by (metis count_list_0_iff mult_pos_pos neq0_conv)
  also have "\<dots> \<le> (\<Sum>t\<in>set xs. count_list xs t * count_list xs t)" by (rule member_le_sum) (use x in auto)
  finally show ?thesis by (simp add: dot_product_sum [of "set xs"])
qed

text \<open>The similarity score is a proper cosine: it lies between 0 and 1, does not depend on the order of the
  two texts, and is 1 for two texts with the same words in the same order, whatever their case and
  punctuation, so such variants exceed the threshold and are regenerated.\<close>

theorem similarity_is_cosine:
  "0 \<le> body_cosine_similarity_sq a b \<and> body_cosine_similarity_sq a b \<le> 1
   \<and> body_cosine_similarity_sq a b = body_cosine_similarity_sq b a
   \<and> (tokenise a = tokenise b \<and> tokenise a \<noteq> [] \<longrightarrow> body_cosine_similarity_sq a b = 1)"
proof -
  let ?xs = "tokenise a" and ?ys = "tokenise b"
  let ?A = "set ?xs \<union> set ?ys"
  have sums: "dot_product us vs = (\<Sum>t\<in>?A. count_list us t * count_list vs t)" if "us \<in> {?xs, ?ys}" "vs \<in> {?xs, ?ys}" for us vs
    by (rule dot_product_sum) (use that in auto)
  have sym: "dot_product ?xs ?ys = dot_product ?ys ?xs" by (simp add: sums mult.commute)
  have "dot_product ?xs ?ys ^ 2 \<le> dot_product ?xs ?xs * dot_product ?ys ?ys"
    by (simp add: sums sum_product_square)
  then have le: "rat_of_nat (dot_product ?xs ?ys) ^ 2 \<le> of_nat (dot_product ?xs ?xs) * of_nat (dot_product ?ys ?ys)"
    by (metis of_nat_le_iff of_nat_mult of_nat_power)
  have pos: "0 < rat_of_nat (dot_product ?xs ?xs) * of_nat (dot_product ?ys ?ys)" if "?xs \<noteq> []" "?ys \<noteq> []"
    using that dot_product_pos by simp
  have "body_cosine_similarity_sq a b \<le> 1"
    using le pos by (auto simp: body_cosine_similarity_sq_def Let_def divide_le_eq_1)
  moreover have "0 \<le> body_cosine_similarity_sq a b" by (simp add: body_cosine_similarity_sq_def Let_def)
  moreover have "body_cosine_similarity_sq a b = body_cosine_similarity_sq b a"
    by (auto simp: body_cosine_similarity_sq_def Let_def sym mult.commute)
  moreover have "body_cosine_similarity_sq a b = 1" if "?xs = ?ys" "?xs \<noteq> []"
    using that dot_product_pos [of ?ys] by (simp add: body_cosine_similarity_sq_def power2_eq_square Let_def)
  ultimately show ?thesis by blast
qed

section \<open>Concrete instances\<close>

theorem compliance_blocks_exactly_witness:
  "\<exists>hits. check_compliance (\<lambda>_. None) ''Results GUARANTEED.'' [] = Inr hits \<and> blocked hits"
proof -
  have run: "check_compliance (\<lambda>_. None) ''Results GUARANTEED.'' [] = Inr (universal_hits ''Results GUARANTEED.'')"
    by (simp add: check_compliance_def)
  have "''guaranteed'' \<in> set absolute_claims" by (simp add: absolute_claims_def)
  moreover have "occurs_at ''guaranteed'' ''Results GUARANTEED.'' 8" by code_simp
  ultimately show ?thesis using compliance_blocks_exactly [of "''Results GUARANTEED.''" "\<lambda>_. None" "[]"] run by blast
qed

theorem number_one_is_not_flagged_witness:
  "ends ''We are #1'' (bounded (rx_alts superlative_alts)) 7 = []"
  by (rule number_one_is_not_flagged) code_simp+

theorem similarity_is_cosine_witness:
  "body_cosine_similarity_sq ''Hello, World!'' ''hello world'' = 1"
proof -
  have "tokenise ''Hello, World!'' = tokenise ''hello world'' \<and> tokenise ''Hello, World!'' \<noteq> []" by code_simp
  then show ?thesis using similarity_is_cosine [of "''Hello, World!''" "''hello world''"] by blast
qed

end
