(* ===== verification/Copywriting.thy ===== *)
theory Copywriting
  imports Models Py_Values
begin

text \<open>
  The copywriting tool of \<^verbatim>\<open>app/tools/copywriting.py\<close>: the prompt, the reading of the model's answer, and the
  loop that asks again when a field is too long. Two parts are outside: \<open>client\<close>, the language model
  (asked the how-manieth time, prompt, temperature; its content blocks, \<open>Some\<close> text for a text block),
  and \<open>loads\<close>, the JSON decoder (\<open>None\<close> is a \<^verbatim>\<open>JSONDecodeError\<close>).
\<close>

section \<open>Channels\<close>

definition default_length_constraints :: "(string \<times> (string \<times> int) list) list" where
  "default_length_constraints =
     [(''email'', [(''subject'', 78), (''preheader'', 110), (''body'', 1500), (''cta'', 40)]),
      (''linkedin'', [(''headline'', 150), (''body'', 1300), (''cta'', 40)]),
      (''x'', [(''body'', 280)]), (''twitter'', [(''body'', 280)]),
      (''ad_creative'', [(''headline'', 40), (''body'', 90), (''cta'', 30), (''primary_text'', 125)]),
      (''social_post'', [(''body'', 600), (''cta'', 40)]), (''sms'', [(''body'', 160)]),
      (''blog_post'', [(''title'', 70), (''meta_description'', 160), (''body'', 6000), (''cta'', 60)]),
      (''landing_page_copy'', [(''headline'', 90), (''body'', 2000), (''cta'', 60)])]"

definition required_fields :: "(string \<times> string list) list" where
  "required_fields =
     [(''email'', [''subject'', ''preheader'', ''body'', ''cta'']), (''linkedin'', [''headline'', ''body'', ''cta'']),
      (''x'', [''body'']), (''twitter'', [''body'']), (''ad_creative'', [''headline'', ''body'', ''primary_text'']),
      (''social_post'', [''body'']), (''sms'', [''body'']), (''blog_post'', [''title'', ''meta_description'', ''body'']),
      (''landing_page_copy'', [''headline'', ''body'', ''cta''])]"

definition max_rewrites :: nat where "max_rewrites = 2"

text \<open>A budget with the text the prompt spells it with (a caller may pass \<^verbatim>\<open>True\<close>, which is the integer 1).\<close>

type_synonym budgets = "(string \<times> int \<times> string) list"

definition resolve_constraints :: "string \<Rightarrow> json \<Rightarrow> budgets" where
  "resolve_constraints channel supplied =
     (let defaults = map (\<lambda>(k, v). (k, v, int_str v))
            (case map_of default_length_constraints channel of None \<Rightarrow> [] | Some d \<Rightarrow> d)
      in case supplied of
           JObj d \<Rightarrow> fold (\<lambda>(k, v) acc.
               case v of JInt i \<Rightarrow> if 0 < i then AList.update k (i, int_str i) acc else acc
               | JBool b \<Rightarrow> if b then AList.update k (1, ''True'') acc else acc
               | _ \<Rightarrow> acc) d defaults
         | _ \<Rightarrow> defaults)"

section \<open>The prompt\<close>

definition nl :: string where "nl = [char_of (10::nat)]"

definition build_prompt ::
  "string \<Rightarrow> string \<Rightarrow> string \<Rightarrow> json \<Rightarrow> json \<Rightarrow> budgets \<Rightarrow> json \<Rightarrow> (string \<times> int) list \<Rightarrow> string" where
  "build_prompt channel asset_type brief voice audience constraints seed tightening =
     py_join (nl @ nl)
       ([''You are writing '' @ asset_type @ '' copy for the '' @ channel @ '' channel.'', ''Brief:'' @ nl @ brief]
        @ (if truthy voice then [''Brand voice: '' @ py_str voice] else [])
        @ (if truthy audience then [''Audience: '' @ py_str audience] else [])
        @ (if seed = JNull then [] else [''Determinism seed (do not echo): '' @ py_str seed])
        @ [''Required output fields: '' @ py_join '', '' (case map_of required_fields channel of None \<Rightarrow> [] | Some fs \<Rightarrow> fs),
           ''Length budgets:'' @ nl @ py_join nl (map (\<lambda>(f, _, n). ''  - '' @ f @ '': <= '' @ n @ '' characters'') constraints)]
        @ (if tightening = [] then []
           else [''Your previous attempt exceeded the budget on: ''
                 @ py_join '', '' (map (\<lambda>(f, n). f @ '' by '' @ int_str n @ '' chars'') tightening)
                 @ ''. Tighten those fields this time.''])
        @ [''Respond with a SINGLE JSON object containing exactly the required ''
           @ ''fields above (string values only). No prose, no markdown, no code fences.''])"

section \<open>The answer\<close>

type_synonym client = "nat \<Rightarrow> string \<Rightarrow> rat \<Rightarrow> string option list res"

definition call_model :: "client \<Rightarrow> nat \<Rightarrow> string \<Rightarrow> json \<Rightarrow> string res" where
  "call_model client k prompt seed =
     (case client k prompt (if seed = JNull then 7/10 else 0) of
        Inl err \<Rightarrow> Inl err
      | Inr blocks \<Rightarrow> (case List.map_filter id blocks of [] \<Rightarrow> Inl CopywritingError | t # _ \<Rightarrow> Inr t))"

definition ticks :: string where "ticks = replicate 3 (char_of (96::nat))"

text \<open>The content of a fenced block that makes up the whole (stripped) text.\<close>

definition unfence :: "string \<Rightarrow> string" where
  "unfence t =
     (let r = drop 3 t; r' = (if take 4 r = ''json'' then drop 4 r else r); n = length r' - 3
      in if take 3 t = ticks \<and> 3 \<le> length r' \<and> drop n r' = ticks then py_strip (take n r') else t)"

definition parse_response :: "(string \<Rightarrow> json option) \<Rightarrow> string \<Rightarrow> string \<Rightarrow> (string \<times> string) list res" where
  "parse_response loads channel raw =
     (case loads (unfence (py_strip raw)) of
        Some (JObj d) \<Rightarrow>
          (let fs = List.map_filter (\<lambda>(k, v). map_option (Pair k) (as_str v)) d;
               missing = filter (\<lambda>f. map_of fs f \<in> {None, Some []})
                 (case map_of required_fields channel of None \<Rightarrow> [] | Some req \<Rightarrow> req)
           in if missing = [] then Inr fs else Inl CopywritingError)
      | _ \<Rightarrow> Inl CopywritingError)"

record copy_attempt =
  at_fields :: "(string \<times> string) list"
  at_length_metrics :: "(string \<times> int) list"
  at_over_limit :: "(string \<times> int) list"

definition measure_fields :: "(string \<times> string) list \<Rightarrow> budgets \<Rightarrow> copy_attempt" where
  "measure_fields fs constraints =
     \<lparr>at_fields = fs, at_length_metrics = map (\<lambda>(f, v). (f, int (length v))) fs,
      at_over_limit = List.map_filter (\<lambda>(f, b, _).
        case map_of fs f of
          None \<Rightarrow> None
        | Some v \<Rightarrow> if b < int (length v) then Some (f, int (length v) - b) else None) constraints\<rparr>"

definition overrun :: "copy_attempt \<Rightarrow> int" where
  "overrun a = sum_list (map snd (at_over_limit a))"

section \<open>The loop\<close>

record copy_brief =
  cb_channel :: string
  cb_asset_type :: string
  cb_brief :: string
  cb_voice :: json
  cb_audience :: json
  cb_constraints :: budgets
  cb_seed :: json

definition one_attempt ::
  "client \<Rightarrow> (string \<Rightarrow> json option) \<Rightarrow> copy_brief \<Rightarrow> nat \<Rightarrow> copy_attempt option \<Rightarrow> copy_attempt res" where
  "one_attempt client loads b k best =
     (let tightening = (case best of None \<Rightarrow> [] | Some a \<Rightarrow> if 0 < k then at_over_limit a else []);
          prompt = build_prompt (cb_channel b) (cb_asset_type b) (cb_brief b) (cb_voice b) (cb_audience b)
                     (cb_constraints b) (cb_seed b) tightening
      in case call_model client k prompt (cb_seed b) of
           Inl err \<Rightarrow> Inl err
         | Inr raw \<Rightarrow> map_sum id (\<lambda>fs. measure_fields fs (cb_constraints b)) (parse_response loads (cb_channel b) raw))"

definition better :: "copy_attempt \<Rightarrow> copy_attempt option \<Rightarrow> copy_attempt" where
  "better a best = (case best of None \<Rightarrow> a | Some c \<Rightarrow> if overrun a < overrun c then a else c)"

text \<open>\<open>n\<close> attempts are left, \<open>k\<close> have been made.\<close>

fun write_loop ::
  "client \<Rightarrow> (string \<Rightarrow> json option) \<Rightarrow> copy_brief \<Rightarrow> nat \<Rightarrow> nat \<Rightarrow> copy_attempt option \<Rightarrow> copy_attempt option res" where
  "write_loop client loads b 0 k best = Inr best"
| "write_loop client loads b (Suc n) k best =
     (case one_attempt client loads b k best of
        Inl err \<Rightarrow> Inl err
      | Inr a \<Rightarrow> if at_over_limit a = [] then Inr (Some a)
                 else write_loop client loads b n (Suc k) (Some (better a best)))"

definition copy_output :: "copy_attempt \<Rightarrow> dict" where
  "copy_output a =
     (let lens = (\<lambda>kvs. JObj (map (\<lambda>(k, n). (k, JInt n)) kvs));
          d = dict_set (map (\<lambda>(k, v). (k, JStr v)) (at_fields a)) ''length_metrics'' (lens (at_length_metrics a))
      in if at_over_limit a = [] then d else dict_set d ''length_warning'' (lens (at_over_limit a)))"

definition copy_brief_of :: "dict \<Rightarrow> copy_brief" where
  "copy_brief_of inputs =
     (let get = (\<lambda>k. py_str (dict_get_default inputs k (JStr []))); channel = py_lower (get ''channel'')
      in \<lparr>cb_channel = channel, cb_asset_type = get ''asset_type'', cb_brief = get ''brief'',
          cb_voice = dict_get inputs ''voice'', cb_audience = dict_get inputs ''audience_summary'',
          cb_constraints = resolve_constraints channel (dict_get inputs ''length_constraints''),
          cb_seed = dict_get inputs ''seed''\<rparr>)"

definition copywriting_call :: "client \<Rightarrow> (string \<Rightarrow> json option) \<Rightarrow> dict \<Rightarrow> dict res" where
  "copywriting_call client loads inputs =
     (let b = copy_brief_of (filter (\<lambda>(k, _). k \<noteq> ''__attempt__'') inputs)
      in if map_of required_fields (cb_channel b) = None then Inl CopywritingError
         else case write_loop client loads b (Suc max_rewrites) 0 None of
                Inl err \<Rightarrow> Inl err
              | Inr None \<Rightarrow> Inl AssertionError
              | Inr (Some a) \<Rightarrow> Inr (copy_output a))"

section \<open>What the loop returns\<close>

text \<open>An attempt made on the \<open>k\<close>-th answer: complete, and measured against the budgets.\<close>

definition attempt_of :: "client \<Rightarrow> (string \<Rightarrow> json option) \<Rightarrow> copy_brief \<Rightarrow> nat \<Rightarrow> copy_attempt \<Rightarrow> bool" where
  "attempt_of client loads b k a \<longleftrightarrow>
     (\<exists>prompt raw fs. call_model client k prompt (cb_seed b) = Inr raw \<and> parse_response loads (cb_channel b) raw = Inr fs
        \<and> a = measure_fields fs (cb_constraints b))"

lemma one_attempt_of: "one_attempt client loads b k best = Inr a \<Longrightarrow> attempt_of client loads b k a"
  by (auto simp: one_attempt_def attempt_of_def Let_def split: sum.splits)

text \<open>The attempts made so far are \<open>as\<close>, all too long, and \<open>best\<close> is the first of those with the least overrun.\<close>

definition loop_inv :: "client \<Rightarrow> (string \<Rightarrow> json option) \<Rightarrow> copy_brief \<Rightarrow> copy_attempt list \<Rightarrow> copy_attempt option \<Rightarrow> bool" where
  "loop_inv client loads b as best \<longleftrightarrow>
     (\<forall>k<length as. attempt_of client loads b k (as ! k) \<and> at_over_limit (as ! k) \<noteq> [])
     \<and> (case best of None \<Rightarrow> as = [] | Some c \<Rightarrow> c \<in> set as \<and> (\<forall>a\<in>set as. overrun c \<le> overrun a))"

lemma loop_inv_extend:
  assumes "loop_inv client loads b as best" "attempt_of client loads b (length as) a" "at_over_limit a \<noteq> []"
  shows "loop_inv client loads b (as @ [a]) (Some (better a best))"
proof -
  have "\<forall>k<length (as @ [a]). attempt_of client loads b k ((as @ [a]) ! k) \<and> at_over_limit ((as @ [a]) ! k) \<noteq> []"
    using assms by (auto simp: loop_inv_def nth_append less_Suc_eq)
  moreover have "better a best \<in> set (as @ [a]) \<and> (\<forall>x\<in>set (as @ [a]). overrun (better a best) \<le> overrun x)"
    using assms(1) by (cases best) (auto simp: loop_inv_def better_def)
  ultimately show ?thesis by (simp add: loop_inv_def)
qed

lemma write_loop_result:
  "write_loop client loads b n (length as) best = Inr r \<Longrightarrow> loop_inv client loads b as best \<Longrightarrow>
     (\<exists>a k. r = Some a \<and> length as \<le> k \<and> k < length as + n \<and> attempt_of client loads b k a \<and> at_over_limit a = [])
     \<or> (\<exists>as'. length as' = length as + n \<and> loop_inv client loads b as' r)"
proof (induction n arbitrary: as best)
  case 0
  then show ?case by auto
next
  case (Suc n)
  obtain a where a: "one_attempt client loads b (length as) best = Inr a"
    using Suc.prems(1) by (auto split: sum.splits)
  show ?case
  proof (cases "at_over_limit a = []")
    case True
    then have "r = Some a" using Suc.prems(1) a by simp
    then show ?thesis using one_attempt_of [OF a] True
      by (intro disjI1 exI [of _ a] exI [of _ "length as"]) simp
  next
    case False
    then have "write_loop client loads b n (length (as @ [a])) (Some (better a best)) = Inr r"
      using Suc.prems(1) a by simp
    from Suc.IH [OF this loop_inv_extend [OF Suc.prems(2) one_attempt_of [OF a] False]]
    show ?thesis by fastforce
  qed
qed

lemma parse_response_complete:
  assumes "parse_response loads channel raw = Inr fs" "map_of required_fields channel = Some req" "f \<in> set req"
  shows "\<exists>v. map_of fs f = Some v \<and> v \<noteq> []"
proof -
  have "filter (\<lambda>f. map_of fs f \<in> {None, Some []}) req = []"
    using assms(1,2) by (auto simp: parse_response_def Let_def split: option.splits json.splits if_splits)
  then show ?thesis using assms(3) by (cases "map_of fs f") (auto simp: filter_empty_conv)
qed

definition fits :: "copy_attempt \<Rightarrow> budgets \<Rightarrow> bool" where
  "fits a constraints \<longleftrightarrow> (\<forall>f b n v. (f, b, n) \<in> set constraints \<and> map_of (at_fields a) f = Some v \<longrightarrow> int (length v) \<le> b)"

lemma over_limit_iff:
  "a = measure_fields fs constraints \<Longrightarrow> at_over_limit a = [] \<longleftrightarrow> fits a constraints"
proof -
  assume a: "a = measure_fields fs constraints"
  have "at_over_limit a = [] \<longleftrightarrow> (\<forall>x. x \<notin> set (at_over_limit a))" by (cases "at_over_limit a") auto
  also have "\<dots> \<longleftrightarrow> fits a constraints"
    by (force simp: a measure_fields_def fits_def set_map_filter not_less split: option.splits if_splits)
  finally show ?thesis .
qed

text \<open>C20. The copywriting tool returns the best of at most three tries: when it succeeds, its output renders a
  complete answer of the model, one with every field the channel requires present and not empty. Either
  all fields of that answer keep their budgets, or all three answers overran theirs and none of them
  by less in total.\<close>

theorem copywriting_best_attempt:
  assumes run: "copywriting_call client loads inputs = Inr out"
    and b: "b = copy_brief_of (filter (\<lambda>(k, _). k \<noteq> ''__attempt__'') inputs)"
  shows "\<exists>a k. out = copy_output a \<and> k \<le> max_rewrites \<and> attempt_of client loads b k a
    \<and> (\<forall>req f. map_of required_fields (cb_channel b) = Some req \<and> f \<in> set req \<longrightarrow> (\<exists>v. map_of (at_fields a) f = Some v \<and> v \<noteq> []))
    \<and> (fits a (cb_constraints b) \<or>
        (\<exists>as. length as = Suc max_rewrites \<and> (\<forall>j<length as. attempt_of client loads b j (as ! j) \<and> \<not> fits (as ! j) (cb_constraints b)
            \<and> overrun a \<le> overrun (as ! j))))"
proof -
  obtain a where loop: "write_loop client loads b (Suc max_rewrites) 0 None = Inr (Some a)" and out: "out = copy_output a"
    using run by (auto simp: copywriting_call_def b Let_def split: if_splits sum.splits option.splits)
  have complete: "\<exists>v. map_of (at_fields a') f = Some v \<and> v \<noteq> []"
    if "attempt_of client loads b k a'" "map_of required_fields (cb_channel b) = Some req" "f \<in> set req" for k a' req f
    using that parse_response_complete by (fastforce simp: attempt_of_def measure_fields_def)
  have fit: "at_over_limit a' = [] \<longleftrightarrow> fits a' (cb_constraints b)" if "attempt_of client loads b k a'" for k a'
    using that over_limit_iff by (auto simp: attempt_of_def)
  have "loop_inv client loads b [] None" by (simp add: loop_inv_def)
  from write_loop_result [of client loads b "Suc max_rewrites" "[]" None, unfolded list.size, OF loop this, simplified less_Suc_eq_le]
  consider (ok) k where "k \<le> max_rewrites" "attempt_of client loads b k a" "at_over_limit a = []"
    | (long) as where "length as = Suc max_rewrites" "loop_inv client loads b as (Some a)"
    by (auto simp: less_Suc_eq_le)
  then show ?thesis
  proof cases
    case ok
    then show ?thesis using out complete fit by (intro exI [of _ a] exI [of _ k]) blast
  next
    case long
    have inv: "a \<in> set as" "\<forall>x\<in>set as. overrun a \<le> overrun x"
      "\<forall>k<length as. attempt_of client loads b k (as ! k) \<and> at_over_limit (as ! k) \<noteq> []"
      using long(2) by (simp_all add: loop_inv_def)
    obtain k where k: "k < length as" "as ! k = a" using inv(1) by (auto simp: in_set_conv_nth)
    have each: "attempt_of client loads b j (as ! j) \<and> \<not> fits (as ! j) (cb_constraints b) \<and> overrun a \<le> overrun (as ! j)"
      if "j < length as" for j using inv(2) nth_mem [OF that] inv(3) that fit by blast
    have "attempt_of client loads b k a" "k \<le> max_rewrites" using inv(3) k long(1) by auto
    then show ?thesis using out complete long(1) each by (intro exI [of _ a] exI [of _ k]) blast
  qed
qed

section \<open>A concrete instance\<close>

definition demo_client :: client where
  "demo_client k prompt temperature = Inr [None, Some ''{}'']"

definition demo_decoder :: "string \<Rightarrow> json option" where
  "demo_decoder t = Some (JObj [(''body'', JStr ''Sale today'')])"

definition sms_inputs :: dict where
  "sms_inputs = [(''channel'', JStr ''sms''), (''asset_type'', JStr ''sms''), (''brief'', JStr ''Sale'')]"

theorem copywriting_best_attempt_witness:
  "\<exists>out a. copywriting_call demo_client demo_decoder sms_inputs = Inr out \<and> out = copy_output a
     \<and> map_of (at_fields a) ''body'' = Some ''Sale today''"
proof -
  let ?b = "copy_brief_of (filter (\<lambda>(k, _). k \<noteq> ''__attempt__'') sms_inputs)"
  have b: "cb_channel ?b = ''sms''" "cb_constraints ?b = [(''body'', 160, int_str 160)]"
    by (simp_all add: copy_brief_of_def sms_inputs_def Let_def dict_get_default_def dict_get_def resolve_constraints_def
        default_length_constraints_def py_lower_def lower_char_def)
  have "one_attempt demo_client demo_decoder ?b 0 None = Inr (measure_fields [(''body'', ''Sale today'')] [(''body'', 160, int_str 160)])"
    by (simp add: one_attempt_def call_model_def demo_client_def parse_response_def demo_decoder_def b map_filter_simps
        required_fields_def Let_def)
  then have run: "copywriting_call demo_client demo_decoder sms_inputs
      = Inr (copy_output (measure_fields [(''body'', ''Sale today'')] [(''body'', 160, int_str 160)]))"
    by (simp add: copywriting_call_def b required_fields_def measure_fields_def map_filter_simps Let_def)
  from copywriting_best_attempt [OF run refl] obtain a k where "copy_output (measure_fields [(''body'', ''Sale today'')] [(''body'', 160, int_str 160)]) = copy_output a"
    "attempt_of demo_client demo_decoder ?b k a" by blast
  moreover from this(2) have "map_of (at_fields a) ''body'' = Some ''Sale today''"
    by (auto simp: attempt_of_def parse_response_def demo_decoder_def measure_fields_def map_filter_simps Let_def split: if_splits)
  ultimately show ?thesis using run by blast
qed

end
