(* ===== verification/Seo.thy ===== *)
theory Seo
  imports Compliance Content_Seeding "HOL-Library.Sublist"
begin

text \<open>
  The rule-based analyser of \<^verbatim>\<open>app/tools/seo.py\<close>. Keyword densities are Python floats: the quotient and
  the product are rounded to binary64, then to three decimals.
\<close>

section \<open>Text\<close>

text \<open>\<^verbatim>\<open>str.splitlines\<close>\<close>

definition line_break :: "char \<Rightarrow> bool" where
  "line_break c = (let n = of_char c :: nat in (10 \<le> n \<and> n \<le> 13) \<or> (28 \<le> n \<and> n \<le> 30))"

fun lines_of :: "string \<Rightarrow> string \<Rightarrow> string list" where
  "lines_of acc [] = (if acc = [] then [] else [rev acc])"
| "lines_of acc [c] = (if line_break c then [rev acc] else [rev (c # acc)])"
| "lines_of acc (c # d # cs) =
     (if of_char c = (13::nat) \<and> of_char d = (10::nat) then rev acc # lines_of [] cs
      else if line_break c then rev acc # lines_of [] (d # cs) else lines_of (c # acc) (d # cs))"

definition splitlines :: "string \<Rightarrow> string list" where
  "splitlines t = lines_of [] t"

text \<open>\<^verbatim>\<open>re.sub(r"^#+\s*", "", s)\<close>\<close>

definition drop_heading :: "string \<Rightarrow> string" where
  "drop_heading t = (case t of CHR ''#'' # _ \<Rightarrow> dropWhile is_space (dropWhile (\<lambda>c. c = CHR ''#'') t) | _ \<Rightarrow> t)"

text \<open>\<^verbatim>\<open>re.sub(r"\s+", " ", s)\<close>; the flag says whether the previous character was a space.\<close>

fun collapse :: "bool \<Rightarrow> string \<Rightarrow> string" where
  "collapse p [] = []"
| "collapse p (c # cs) =
     (if is_space c then (if p then collapse True cs else CHR '' '' # collapse True cs) else c # collapse False cs)"

section \<open>The analysis\<close>

definition min_words_for_score :: nat where "min_words_for_score = 50"
definition recommended_min_body_words :: nat where "recommended_min_body_words = 300"

definition split_title :: "string \<Rightarrow> json \<Rightarrow> string \<times> string" where
  "split_title draft supplied =
     (if (case supplied of JStr t \<Rightarrow> py_strip t \<noteq> [] | _ \<Rightarrow> False) then (draft, [])
      else case dropWhile (\<lambda>l. py_strip l = []) (splitlines draft) of
             [] \<Rightarrow> (draft, [])
           | l # rest \<Rightarrow> (py_join [char_of (10::nat)] rest, take 200 (drop_heading (py_strip l))))"

function count_phrase :: "string list \<Rightarrow> string list \<Rightarrow> nat" where
  "count_phrase haystack needle =
     (if needle = [] \<or> length haystack < length needle then 0
      else if take (length needle) haystack = needle then Suc (count_phrase (drop (length needle) haystack) needle)
      else count_phrase (tl haystack) needle)"
  by pat_completeness auto
termination
proof (relation "measure (length \<circ> fst)")
  fix haystack needle :: "string list"
  assume "\<not> (needle = [] \<or> length haystack < length needle)"
  then have "0 < length needle" "length needle \<le> length haystack" by auto
  then show "((drop (length needle) haystack, needle), haystack, needle) \<in> measure (length \<circ> fst)"
    and "((tl haystack, needle), haystack, needle) \<in> measure (length \<circ> fst)"
    by (simp_all add: diff_less del: length_greater_0_conv)
qed simp

declare count_phrase.simps [simp del]

definition density_of :: "string list \<Rightarrow> string \<Rightarrow> rat" where
  "density_of body_words kw =
     (let kw_words = word_runs [] (py_lower kw); total = length body_words
      in if total = 0 \<or> kw_words = [] then 0
         else of_int (round_half_even (1000 *
                float64 (float64 (of_nat (count_phrase body_words kw_words * length kw_words) / of_nat total) * 100))) / 1000)"

record title_assessment =
  ta_text :: string
  ta_in_range :: bool
  ta_matched :: "string list"

definition assess_title :: "string \<Rightarrow> string list \<Rightarrow> title_assessment" where
  "assess_title title keywords =
     \<lparr>ta_text = title, ta_in_range = (30 \<le> length title \<and> length title \<le> 60),
      ta_matched = filter (\<lambda>k. sublist (py_lower k) (py_lower title)) keywords\<rparr>"

definition title_issues :: "title_assessment \<Rightarrow> string list" where
  "title_issues ta =
     (if length (ta_text ta) < 30 then [''title_too_short''] else if 60 < length (ta_text ta) then [''title_too_long''] else [])
     @ (if ta_matched ta = [] then [''title_missing_target_keyword''] else [])"

definition title_dict :: "title_assessment \<Rightarrow> json" where
  "title_dict ta =
     JObj [(''text'', JStr (ta_text ta)), (''length'', JInt (int (length (ta_text ta)))), (''in_range'', JBool (ta_in_range ta)),
           (''contains_keyword'', JBool (ta_matched ta \<noteq> [])), (''matched_keywords'', JArr (map JStr (ta_matched ta))),
           (''issues'', JArr (map JStr (title_issues ta)))]"

definition resolve_meta :: "json \<Rightarrow> string \<Rightarrow> string" where
  "resolve_meta supplied body =
     (if (case supplied of JStr t \<Rightarrow> py_strip t \<noteq> [] | _ \<Rightarrow> False) then py_strip (py_str supplied)
      else let flat = py_strip (collapse False body)
           in if length flat \<le> 155 then flat
              else let cut = take 155 flat; front = rev (dropWhile (\<lambda>c. c \<noteq> CHR '' '') (rev cut))
                   in (if 1 < length front then butlast front else cut) @ ellipsis)"

text \<open>The penalty and the recommendation of one keyword.\<close>

definition keyword_penalty :: "string \<Rightarrow> rat \<Rightarrow> (int \<times> string) list" where
  "keyword_penalty kw d =
     (if d \<le> 0 then [(15, ''target keyword '' @ [CHR 0x27] @ kw @ [CHR 0x27] @ '' is missing from the body'')]
      else if 3 < d then [(10, ''keyword '' @ [CHR 0x27] @ kw @ [CHR 0x27] @ '' density is '' @ float_repr d @ ''% (over 3.0%) '' @ em_dash @ '' reduce repetition'')]
      else if d < 3/10 then [(5, ''keyword '' @ [CHR 0x27] @ kw @ [CHR 0x27] @ '' density is '' @ float_repr d @ ''% (under 0.3%) '' @ em_dash @ '' use it more'')]
      else [])"

definition penalties :: "string list \<Rightarrow> (string \<Rightarrow> rat) \<Rightarrow> title_assessment \<Rightarrow> nat \<Rightarrow> string \<Rightarrow> bool \<Rightarrow> (int \<times> string) list" where
  "penalties keywords density title word_count meta meta_supplied =
     concat (map (\<lambda>kw. keyword_penalty kw (density kw)) keywords)
     @ (if ta_in_range title then []
        else [(10, ''title is '' @ digits (length (ta_text title)) @
               (if length (ta_text title) < 30 then '' chars; aim for 30-60'' else '' chars; trim to 60 or fewer''))])
     @ (if ta_matched title \<noteq> [] then [] else [(10, ''title does not contain any target keyword'')])
     @ (if word_count < recommended_min_body_words
        then [(10, ''body has '' @ digits word_count @ '' words; aim for at least 300'')] else [])
     @ (if meta_supplied \<and> (length meta < 120 \<or> 160 < length meta)
        then [(5, ''meta_description is '' @ digits (length meta) @ '' chars; aim for 120-160'')] else [])"

definition seo_score :: "(int \<times> string) list \<Rightarrow> int" where
  "seo_score ps = max 0 (min 100 (100 - sum_list (map fst ps)))"

definition seo_keywords :: "json \<Rightarrow> string list" where
  "seo_keywords v =
     (case v of JArr ks \<Rightarrow> filter (\<lambda>k. k \<noteq> []) (map py_strip (List.map_filter as_str ks)) | _ \<Rightarrow> [])"

definition seo_call :: "dict \<Rightarrow> dict res" where
  "seo_call inputs =
     (let draft = py_str (dict_get_default inputs ''draft'' (JStr []));
          keywords = seo_keywords (dict_get inputs ''target_keywords'');
          locale = (let v = dict_get inputs ''locale'' in if truthy v then py_str v else ''en'');
          supplied_title = dict_get inputs ''title'';
          supplied_meta = dict_get inputs ''meta_description'';
          (body, extracted) = split_title draft supplied_title;
          title_text = (case supplied_title of JStr t \<Rightarrow> if py_strip t \<noteq> [] then py_strip t else extracted | _ \<Rightarrow> extracted);
          body_words = word_runs [] (py_lower body);
          n = length body_words;
          title = assess_title title_text keywords;
          meta = resolve_meta supplied_meta body
      in if keywords = [] then Inl SeoAnalysisError
         else if n < min_words_for_score then
           Inr [(''score'', JNull), (''reason'', JStr ''insufficient_length''),
                (''keyword_density'', JObj (fold (\<lambda>k d. dict_set d k (JFloat 0)) keywords [])),
                (''title_quality'', title_dict title), (''meta_description'', JStr meta),
                (''recommendations'', JArr [JStr (''draft has '' @ digits n @ '' words, need at least 50 to score'')]),
                (''word_count'', JInt (int n)), (''locale'', JStr locale)]
         else let ps = penalties keywords (density_of body_words) title n meta (truthy supplied_meta)
              in Inr [(''score'', JInt (seo_score ps)),
                      (''keyword_density'', JObj (fold (\<lambda>k d. dict_set d k (JFloat (density_of body_words k))) keywords [])),
                      (''title_quality'', title_dict title), (''meta_description'', JStr meta),
                      (''recommendations'', JArr (map (JStr \<circ> snd) ps)),
                      (''word_count'', JInt (int n)), (''locale'', JStr locale)])"

section \<open>Properties\<close>

lemma count_phrase_bound: "count_phrase haystack needle * length needle \<le> length haystack"
proof (induction haystack needle rule: count_phrase.induct)
  case (1 haystack needle)
  then show ?case by (subst count_phrase.simps) (auto simp: le_diff_conv2 intro: le_trans)
qed

lemma penalties_positive: "p \<in> set (penalties keywords density title n meta sup') \<Longrightarrow> 5 \<le> fst p"
  by (auto simp: penalties_def keyword_penalty_def split: if_splits)

lemma seo_score_bounds: "0 \<le> seo_score ps \<and> seo_score ps \<le> 100"
  by (simp add: seo_score_def)

lemma sum_positive: "\<forall>p\<in>set ps. 5 \<le> fst p \<Longrightarrow> (0::int) < sum_list (map fst ps) \<longleftrightarrow> ps \<noteq> []"
proof (cases ps)
  case (Cons p ps')
  assume "\<forall>p\<in>set ps. 5 \<le> fst p"
  moreover have "0 \<le> sum_list (map fst ps')" by (rule sum_list_nonneg) (use Cons calculation in force)
  ultimately show ?thesis using Cons by simp
qed simp

lemma perfect_score: "seo_score (penalties keywords density title n meta sup') = 100 \<longleftrightarrow> penalties keywords density title n meta sup' = []"
proof -
  let ?ps = "penalties keywords density title n meta sup'"
  have "0 < sum_list (map fst ?ps) \<longleftrightarrow> ?ps \<noteq> []" by (rule sum_positive) (use penalties_positive in blast)
  then show ?thesis by (cases "?ps = []") (auto simp: seo_score_def)
qed

text \<open>The score: an error exactly without keywords; no score for a draft of fewer than 50 words; otherwise
  a number from 0 to 100, which is 100 exactly when there is nothing to recommend.\<close>

theorem seo_call_score:
  "(seo_keywords (dict_get inputs ''target_keywords'') = [] \<longrightarrow> seo_call inputs = Inl SeoAnalysisError)
   \<and> (seo_keywords (dict_get inputs ''target_keywords'') \<noteq> [] \<longrightarrow> (\<exists>out. seo_call inputs = Inr out
        \<and> (dict_get out ''score'' = JNull \<and> dict_get out ''reason'' = JStr ''insufficient_length''
           \<or> (\<exists>n. dict_get out ''score'' = JInt n \<and> 0 \<le> n \<and> n \<le> 100
                \<and> (n = 100 \<longleftrightarrow> dict_get out ''recommendations'' = JArr [])))))"
proof -
  obtain body extracted where split: "split_title (py_str (dict_get_default inputs ''draft'' (JStr []))) (dict_get inputs ''title'') = (body, extracted)"
    by force
  show ?thesis
    by (simp add: seo_call_def split Let_def seo_score_bounds perfect_score dict_get_def [where d = "(_, _) # _"])
qed

end
