(* ===== verification/Generation.thy ===== *)
theory Generation
  imports Approvals Compliance Copywriting Seo
begin

text \<open>
  Content generation: \<^verbatim>\<open>generate_asset\<close> and \<^verbatim>\<open>_run_generation\<close> of \<^verbatim>\<open>app/agents/content_creator.py\<close>, the prompt and
  metadata assembly of \<^verbatim>\<open>app/agents/_content_planner.py\<close>, and the endpoints of \<^verbatim>\<open>app/api/content_assets.py\<close>.
  The tools are arguments, as in the code: \<open>copy k\<close> is the copywriting tool's \<open>k\<close>-th call, \<open>seo\<close> the SEO tool;
  \<open>rxc\<close> compiles a tenant's regular expression. Similarity scores are exact (their square is computed);
  rows that share an ordering key are read in table order.
\<close>

section \<open>Prompt and metadata\<close>

definition build_copywriting_inputs ::
  "asset_plan \<Rightarrow> string option \<Rightarrow> string \<Rightarrow> string option \<Rightarrow> nat \<Rightarrow> nat \<Rightarrow> string list option \<Rightarrow> string option \<Rightarrow> dict" where
  "build_copywriting_inputs plan brief audience_summary voice position total_touches keywords seed =
     (let parts = (case brief of Some (c # cs) \<Rightarrow> [py_strip (c # cs)] | _ \<Rightarrow> [])
            @ [''Touch '' @ digits position @ '' of '' @ digits total_touches @ '' on the '' @ plan_tool_channel plan @ '' channel.'']
            @ (case keywords of
                 Some (k # ks) \<Rightarrow> if plan_requires_seo plan then [''Target keywords: '' @ py_join '', '' (k # ks)] else []
               | _ \<Rightarrow> [])
      in [(''channel'', JStr (plan_tool_channel plan)), (''asset_type'', JStr (asset_type_value (plan_asset_type plan))),
          (''brief'', JStr (py_join (nl @ nl) parts))]
         @ (case voice of Some (c # cs) \<Rightarrow> [(''voice'', JStr (c # cs))] | _ \<Rightarrow> [])
         @ (if audience_summary = [] then [] else [(''audience_summary'', JStr audience_summary)])
         @ (case seed of None \<Rightarrow> [] | Some v \<Rightarrow> [(''seed'', JStr v)]))"

definition nonblank :: "json \<Rightarrow> string option" where
  "nonblank v = (case v of JStr t \<Rightarrow> if py_strip t = [] then None else Some (py_strip t) | _ \<Rightarrow> None)"

definition extract_title :: "dict \<Rightarrow> string option" where
  "extract_title out =
     (case List.map_filter (\<lambda>f. nonblank (dict_get out f)) [''title'', ''subject'', ''headline''] of
        t # _ \<Rightarrow> Some (take 300 t)
      | [] \<Rightarrow> map_option (\<lambda>b. take 300 (hd (splitlines b))) (nonblank (dict_get out ''body'')))"

definition bundle_metadata :: "dict \<Rightarrow> dict \<Rightarrow> dict option \<Rightarrow> dict" where
  "bundle_metadata out brand_check seo =
     [(''storage_uri'', JNull),
      (''fields'', JObj (filter (\<lambda>(k, v). k \<notin> {''length_metrics'', ''length_warning'', ''body''} \<and> as_str v \<noteq> None) out)),
      (''length_metrics'', dict_get_default out ''length_metrics'' (JObj [])), (''brand_check'', JObj brand_check)]
     @ (case map_of out ''length_warning'' of None \<Rightarrow> [] | Some w \<Rightarrow> [(''length_warning'', w)])
     @ (case seo of None \<Rightarrow> [] | Some p \<Rightarrow> [(''seo'', JObj p)])"

section \<open>What generation reads\<close>

definition load_active_voice :: "uuid \<Rightarrow> db \<Rightarrow> brand_voice option res" where
  "load_active_voice tenant s =
     (case scalar_one_or_none (filter (\<lambda>v. bv_tenant_id v = tenant \<and> bv_is_active v) (brand_voices s)) of
        None \<Rightarrow> Inl MultipleResultsFound | Some v \<Rightarrow> Inr v)"

definition load_audience :: "uuid \<Rightarrow> db \<Rightarrow> audience option" where
  "load_audience campaign s =
     (case sort_key (\<lambda>a. - aud_created_at a) (filter (\<lambda>a. aud_campaign_id a = campaign) (audiences s)) of
        [] \<Rightarrow> None | a # _ \<Rightarrow> Some a)"

definition summarise_audience :: "audience option \<Rightarrow> string" where
  "summarise_audience aud =
     (case aud of
        None \<Rightarrow> []
      | Some a \<Rightarrow> ''audience '' @ [CHR 0x27] @ aud_name a @ [CHR 0x27] @ '' (criteria: '' @ py_str (JObj (aud_criteria a)) @ '')'')"

definition target_keywords :: "campaign \<Rightarrow> string list" where
  "target_keywords camp =
     (case dict_get (camp_kpi_targets camp) ''target_keywords'' of
        JArr ks \<Rightarrow> filter (\<lambda>k. k \<noteq> []) (map py_strip (List.map_filter as_str ks)) | _ \<Rightarrow> [])"

definition load_compliance_rules :: "uuid \<Rightarrow> db \<Rightarrow> compliance_rule list" where
  "load_compliance_rules tenant s = filter (\<lambda>r. rule_tenant_id r = tenant) (compliance_rules s)"

text \<open>\<^verbatim>\<open>v == 0\<close> of a JSON value.\<close>

definition is_zero :: "json \<Rightarrow> bool" where
  "is_zero v \<longleftrightarrow> v \<in> {JInt 0, JBool False, JFloat 0}"

definition baseline_variant_body :: "content_asset \<Rightarrow> db \<Rightarrow> string option" where
  "baseline_variant_body asset s =
     (let group = dict_get (asset_metadata asset) ''ab_test_group_id''
      in if is_zero (dict_get_default (asset_metadata asset) ''variant_index'' (JInt 0)) \<or> \<not> truthy group then None
         else case filter (\<lambda>a. asset_campaign_id a = asset_campaign_id asset \<and> asset_id a \<noteq> asset_id asset
                \<and> dict_get (asset_metadata a) ''ab_test_group_id'' = group
                \<and> is_zero (dict_get (asset_metadata a) ''variant_index'')) (assets s) of
                [] \<Rightarrow> None | a # _ \<Rightarrow> asset_content a)"

definition brief_with_directives :: "string option \<Rightarrow> string list \<Rightarrow> string option" where
  "brief_with_directives brief directives =
     (let sections = (case brief of None \<Rightarrow> [] | Some b \<Rightarrow> if py_strip b = [] then [] else [py_strip b])
            @ filter (\<lambda>d. d \<noteq> []) directives
      in if sections = [] then None else Some (py_join (nl @ nl) sections))"

text \<open>\<^verbatim>\<open>ORDER BY scheduled_at ASC\<close> puts the unscheduled rows last.\<close>

definition schedule_order :: "content_asset \<Rightarrow> bool \<times> instant" where
  "schedule_order a = (case asset_scheduled_at a of None \<Rightarrow> (True, 0) | Some t \<Rightarrow> (False, t))"

fun position_in :: "uuid \<Rightarrow> uuid list \<Rightarrow> nat option" where
  "position_in i [] = None"
| "position_in i (j # js) = (if i = j then Some 0 else map_option Suc (position_in i js))"

definition channel_sibling_index :: "content_asset \<Rightarrow> db \<Rightarrow> nat \<times> nat" where
  "channel_sibling_index asset s =
     (let ids = map asset_id (sort_key schedule_order
            (filter (\<lambda>a. asset_campaign_id a = asset_campaign_id asset \<and> asset_type_of a = asset_type_of asset) (assets s)))
      in (case position_in (asset_id asset) ids of None \<Rightarrow> 1 | Some n \<Rightarrow> Suc n, max (length ids) 1))"

section \<open>The drafting loop\<close>

definition similarity_threshold :: rat where "similarity_threshold = 9/10"
definition sim_regen_max_retries :: nat where "sim_regen_max_retries = 2"

text \<open>What the loop uses of its surroundings.\<close>

record assignment =
  job_asset_id :: uuid
  job_plan :: asset_plan
  job_brief :: "string option"
  job_audience_summary :: string
  job_voice_prompt :: "string option"
  job_position :: nat
  job_total :: nat
  job_keywords :: "string list"
  job_rules :: "compliance_rule list"
  job_angle :: string
  job_variant_index :: json
  job_baseline :: "string option"

text \<open>What it carries from one round to the next, and what it ends with.\<close>

record draft =
  dr_output :: dict
  dr_hits :: "compliance_hit list"
  dr_rewritten :: bool
  dr_similarity_sq :: "rat option"
  dr_hints :: "string list"
  dr_differentiate :: bool

definition fresh_draft :: draft where
  "fresh_draft = \<lparr>dr_output = [], dr_hits = [], dr_rewritten = False, dr_similarity_sq = None, dr_hints = [],
     dr_differentiate = False\<rparr>"

definition draft_body :: "dict \<Rightarrow> string" where
  "draft_body out = py_str (dict_get_default out ''body'' (JStr []))"

definition directives :: "assignment \<Rightarrow> draft \<Rightarrow> string list" where
  "directives job d =
     (if job_angle job = [] then [] else [''Variant angle: '' @ job_angle job @ ''.''])
     @ (if dr_hints d = [] then []
        else [''Compliance rewrite required '' @ em_dash @ '' do NOT use these terms: ''
              @ py_join '', '' (sort (remdups (dr_hints d))) @ ''.''])
     @ (if dr_differentiate d
        then [''This variant is too similar to the baseline. Rewrite with a materially different opening, narrative ''
              @ ''structure, and CTA. Keep the channel and offer the same but change the angle.'']
        else [])"

definition round_inputs :: "assignment \<Rightarrow> nat \<Rightarrow> draft \<Rightarrow> dict" where
  "round_inputs job k d =
     build_copywriting_inputs (job_plan job) (brief_with_directives (job_brief job) (directives job d))
       (job_audience_summary job) (job_voice_prompt job) (job_position job) (job_total job)
       (if plan_requires_seo (job_plan job) then Some (job_keywords job) else None)
       (Some (uuid_str (job_asset_id job) @ ''-'' @ digits k))"

text \<open>\<^verbatim>\<open>isinstance(v, int) and v > 0\<close> (\<^verbatim>\<open>True\<close> is an integer).\<close>

fun positive_int :: "json \<Rightarrow> bool" where
  "positive_int (JInt i) = (0 < i)"
| "positive_int (JBool b) = b"
| "positive_int _ = False"

definition similarity_of :: "assignment \<Rightarrow> string \<Rightarrow> rat option" where
  "similarity_of job body =
     (case job_baseline job of
        Some (c # cs) \<Rightarrow> if positive_int (job_variant_index job) \<and> body \<noteq> []
                         then Some (body_cosine_similarity_sq (c # cs) body) else None
      | _ \<Rightarrow> None)"

definition too_similar :: "rat option \<Rightarrow> bool" where
  "too_similar sq = (case sq of None \<Rightarrow> False | Some q \<Rightarrow> similarity_threshold ^ 2 < q)"

text \<open>One round: the tool's answer, the compliance check and the similarity of its body.\<close>

definition draft_round ::
  "(nat \<Rightarrow> dict \<Rightarrow> dict res) \<Rightarrow> (string \<Rightarrow> (string \<Rightarrow> (nat \<times> nat) list) option) \<Rightarrow> assignment \<Rightarrow> nat \<Rightarrow> draft \<Rightarrow> draft res" where
  "draft_round copy rxc job k d =
     (case copy k (round_inputs job k d) of
        Inl err \<Rightarrow> Inl err
      | Inr out \<Rightarrow>
          (let body = draft_body out; sim = similarity_of job body
           in map_sum id (\<lambda>hits. d\<lparr>dr_output := out, dr_hits := hits,
                dr_similarity_sq := (case sim of None \<Rightarrow> dr_similarity_sq d | Some q \<Rightarrow> Some q)\<rparr>)
              (check_compliance rxc body (job_rules job))))"

text \<open>The directives of the next round.\<close>

definition with_hints :: "bool \<Rightarrow> draft \<Rightarrow> draft" where
  "with_hints differentiate d =
     (let ws = warn_keywords (dr_hits d)
      in d\<lparr>dr_hints := dr_hints d @ ws, dr_rewritten := (dr_rewritten d \<or> ws \<noteq> []), dr_differentiate := differentiate\<rparr>)"

text \<open>\<open>n\<close> retries are left after this round, the \<open>k\<close>-th.\<close>

fun draft_loop ::
  "(nat \<Rightarrow> dict \<Rightarrow> dict res) \<Rightarrow> (string \<Rightarrow> (string \<Rightarrow> (nat \<times> nat) list) option) \<Rightarrow> assignment \<Rightarrow> nat \<Rightarrow> nat \<Rightarrow> draft \<Rightarrow> draft res" where
  "draft_loop copy rxc job n k d =
     (case draft_round copy rxc job k d of
        Inl err \<Rightarrow> Inl err
      | Inr d' \<Rightarrow>
          (let differentiate = too_similar (similarity_of job (draft_body (dr_output d')))
           in case n of
                0 \<Rightarrow> Inr d'
              | Suc m \<Rightarrow> if warn_keywords (dr_hits d') = [] \<and> \<not> differentiate then Inr d'
                         else draft_loop copy rxc job m (Suc k) (with_hints differentiate d')))"

declare draft_loop.simps [simp del]

section \<open>Generation\<close>

definition brand_check_of :: "brand_voice option \<Rightarrow> string \<Rightarrow> dict" where
  "brand_check_of voice body =
     (let dont = (case voice of None \<Rightarrow> [] | Some v \<Rightarrow> bv_dont_words v); failing = check_dont_words body dont
      in [(''pass'', JBool (failing = [])), (''failing_words'', JArr (map JStr failing)),
          (''dont_words_checked'', JArr (map JStr dont))])"

text \<open>\<^verbatim>\<open>a or b\<close>.\<close>

definition py_or :: "json \<Rightarrow> json \<Rightarrow> json" where
  "py_or a b = (if truthy a then a else b)"

definition seo_payload_of :: "(dict \<Rightarrow> dict res) \<Rightarrow> assignment \<Rightarrow> dict \<Rightarrow> dict option res" where
  "seo_payload_of seo job out =
     (if \<not> plan_requires_seo (job_plan job) then Inr None
      else if job_keywords job = [] then Inr (Some [(''reason'', JStr ''no_target_keywords''), (''score'', JNull)])
      else map_sum id Some (seo [(''draft'', JStr (draft_body out)),
        (''target_keywords'', JArr (map JStr (job_keywords job))),
        (''title'', py_or (dict_get out ''title'') (py_or (dict_get out ''headline'') (JStr [])))]))"

definition similarity_metadata :: "rat option \<Rightarrow> dict" where
  "similarity_metadata sq =
     (case sq of None \<Rightarrow> []
      | Some q \<Rightarrow> [(''variant_similarity'', JObj [(''score'', JFloat (of_int (round4_sqrt q) / 10000)),
          (''threshold'', JFloat similarity_threshold), (''passed'', JBool (q \<le> similarity_threshold ^ 2))])])"

definition drafted :: "draft \<Rightarrow> dict \<Rightarrow> dict option \<Rightarrow> content_asset \<Rightarrow> content_asset" where
  "drafted d brand_check seo a =
     (let body = draft_body (dr_output d)
      in a\<lparr>asset_title := extract_title (dr_output d), asset_content := (if body = [] then None else Some body),
           asset_metadata := dict_merge (dict_merge (asset_metadata a) (bundle_metadata (dr_output d) brand_check seo))
             ((''compliance'', JObj (compliance_metadata (dr_rewritten d) (dr_hits d))) # similarity_metadata (dr_similarity_sq d)),
           asset_status_of := ADrafted\<rparr>)"

definition generation_summary :: "content_asset \<Rightarrow> draft \<Rightarrow> dict \<Rightarrow> dict option \<Rightarrow> dict" where
  "generation_summary a d brand_check seo =
     [(''asset_id'', JStr (uuid_str (asset_id a))), (''asset_type'', JStr (asset_type_value (asset_type_of a))),
      (''status'', JStr (asset_status_value ADrafted)), (''brand_check_pass'', dict_get brand_check ''pass''),
      (''length_warning'', dict_get (dr_output d) ''length_warning''),
      (''seo_score'', case seo of None \<Rightarrow> JNull | Some p \<Rightarrow> dict_get p ''score''),
      (''compliance_blocked'', JBool (blocked (dr_hits d))),
      (''variant_similarity'', dict_get (similarity_metadata (dr_similarity_sq d)) ''variant_similarity'')]"

definition assignment_of :: "content_asset \<Rightarrow> campaign \<Rightarrow> asset_plan \<Rightarrow> brand_voice option \<Rightarrow> db \<Rightarrow> assignment" where
  "assignment_of asset camp plan voice s =
     \<lparr>job_asset_id = asset_id asset, job_plan = plan, job_brief = camp_brief camp,
      job_audience_summary = summarise_audience (load_audience (camp_id camp) s),
      job_voice_prompt = map_option voice_prompt voice,
      job_position = fst (channel_sibling_index asset s), job_total = snd (channel_sibling_index asset s),
      job_keywords = target_keywords camp, job_rules = load_compliance_rules (camp_tenant_id camp) s,
      job_angle = (let v = dict_get (asset_metadata asset) ''variant_angle'' in if truthy v then py_str v else []),
      job_variant_index = dict_get (asset_metadata asset) ''variant_index'',
      job_baseline = baseline_variant_body asset s\<rparr>"

text \<open>The draft of \<^verbatim>\<open>_run_generation\<close>, its summary and the database it leaves; nothing is written before the end.\<close>

definition run_generation ::
  "(nat \<Rightarrow> dict \<Rightarrow> dict res) \<Rightarrow> (dict \<Rightarrow> dict res) \<Rightarrow> (string \<Rightarrow> (string \<Rightarrow> (nat \<times> nat) list) option) \<Rightarrow> env
     \<Rightarrow> content_asset \<Rightarrow> campaign \<Rightarrow> asset_plan \<Rightarrow> db \<Rightarrow> (dict \<times> db) res" where
  "run_generation copy seo rxc e asset camp plan s =
     (case load_active_voice (camp_tenant_id camp) s of
        Inl err \<Rightarrow> Inl err
      | Inr voice \<Rightarrow>
          (let job = assignment_of asset camp plan voice s
           in case draft_loop copy rxc job sim_regen_max_retries 0 fresh_draft of
                Inl err \<Rightarrow> Inl err
              | Inr d \<Rightarrow>
                  (let brand_check = brand_check_of voice (draft_body (dr_output d))
                   in map_sum id (\<lambda>payload. (generation_summary asset d brand_check payload,
                          modify_asset e (asset_id asset) (drafted d brand_check payload) s))
                        (seo_payload_of seo job (dr_output d)))))"

definition with_status :: "asset_status \<Rightarrow> content_asset \<Rightarrow> content_asset" where
  "with_status st a = a\<lparr>asset_status_of := st\<rparr>"

definition check_failed :: "string \<Rightarrow> content_asset \<Rightarrow> content_asset" where
  "check_failed message a =
     a\<lparr>asset_status_of := AFailed, asset_metadata := dict_set (asset_metadata a) ''compliance_error'' (JStr message)\<rparr>"

text \<open>
  \<^verbatim>\<open>generate_asset\<close>: the result, or the exception, with the session's view of the database at that point.
  The caller's transaction commits the one and rolls back the other. \<open>message\<close> is the text of the
  \<^verbatim>\<open>ComplianceCheckError\<close>.
\<close>

definition generate_asset ::
  "(nat \<Rightarrow> dict \<Rightarrow> dict res) \<Rightarrow> (dict \<Rightarrow> dict res) \<Rightarrow> (string \<Rightarrow> (string \<Rightarrow> (nat \<times> nat) list) option) \<Rightarrow> string \<Rightarrow> state_machine
     \<Rightarrow> env \<Rightarrow> uuid \<Rightarrow> db \<Rightarrow> dict res \<times> db" where
  "generate_asset copy seo rxc message sm e i s =
     (case get_asset i s of
        None \<Rightarrow> (Inl ContentCreatorError, s)
      | Some asset \<Rightarrow>
     (case get_campaign (asset_campaign_id asset) s of
        None \<Rightarrow> (Inl ContentCreatorError, s)
      | Some camp \<Rightarrow>
     (case plan_for_platform (py_lower (py_str (dict_get_default (asset_metadata asset) ''channel_platform'' (JStr [])))) of
        Inl _ \<Rightarrow> (Inl ContentCreatorError, modify_asset e i (with_status AFailed) s)
      | Inr plan \<Rightarrow>
          (let s1 = modify_asset e i (with_status AGenerating) s
           in case run_generation copy seo rxc e asset camp plan s1 of
                Inr (summary, s2) \<Rightarrow>
                  (case maybe_submit_for_approval sm e camp s2 of
                     Inl err \<Rightarrow> (Inl err, s2)
                   | Inr s3 \<Rightarrow> (Inr summary, s3))
              | Inl ComplianceCheckError \<Rightarrow>
                  (Inr [(''asset_id'', JStr (uuid_str i)), (''asset_type'', JStr (asset_type_value (asset_type_of asset))),
                        (''status'', JStr (asset_status_value AFailed)), (''error'', JStr ''compliance_check_failed''),
                        (''message'', JStr message)],
                   modify_asset e i (check_failed message) s1)
              | Inl err \<Rightarrow> (Inl err, modify_asset e i (with_status ARequested) s1)))))"

text \<open>What the worker's transaction makes of it.\<close>

definition committed :: "dict res \<times> db \<Rightarrow> (dict \<times> db) res" where
  "committed r = map_sum id (\<lambda>out. (out, snd r)) (fst r)"

section \<open>Endpoints\<close>

definition list_content_assets :: "app_user \<Rightarrow> uuid \<Rightarrow> asset_status option \<Rightarrow> db \<Rightarrow> content_asset list res" where
  "list_content_assets user campaign st s =
     map_sum id (\<lambda>_. sort_key schedule_order (filter (\<lambda>a. asset_campaign_id a = campaign
         \<and> asset_tenant_id a = user_tenant_id user \<and> (\<forall>x\<in>set_option st. asset_status_of a = x)) (assets s)))
       (require_role Viewer user)"

definition get_content_asset :: "app_user \<Rightarrow> uuid \<Rightarrow> db \<Rightarrow> content_asset res" where
  "get_content_asset user i s =
     (case require_role Viewer user of
        Inl err \<Rightarrow> Inl err
      | Inr _ \<Rightarrow> (case tenant_asset user i s of None \<Rightarrow> Inl (HTTPException 404) | Some a \<Rightarrow> Inr a))"

text \<open>\<open>configured\<close>: an \<^verbatim>\<open>ANTHROPIC_API_KEY\<close> is set. The answer is the campaign's status and the number of its assets.\<close>

definition start_content_production ::
  "state_machine \<Rightarrow> bool \<Rightarrow> instant \<Rightarrow> app_user \<Rightarrow> uuid \<Rightarrow> db \<Rightarrow> ((campaign_status \<times> nat) \<times> db) res" where
  "start_content_production sm configured now user i s =
     (case require_role Marketer user of
        Inl err \<Rightarrow> Inl err
      | Inr _ \<Rightarrow>
          if \<not> configured then Inl (HTTPException 503)
          else (case tenant_campaign user i s of
             None \<Rightarrow> Inl (HTTPException 404)
           | Some camp \<Rightarrow>
               (case apply_transition sm (user_env now user) camp ''start_content'' s of
                  Inl err \<Rightarrow> Inl (if err \<in> {UnknownTransitionError, GuardFailedError} then HTTPException 409
                                  else if err = ContentCreatorError then HTTPException 422 else err)
                | Inr (camp', s') \<Rightarrow>
                    Inr ((camp_status camp', length (filter (\<lambda>a. asset_campaign_id a = i) (assets s'))), s'))))"

definition regeneration_request :: "app_user \<Rightarrow> agent \<Rightarrow> content_asset \<Rightarrow> enqueue_request" where
  "regeneration_request user ag a =
     (request (asset_tenant_id a) (ag_id ag) ''content_creator.generate_asset''
        [(''asset_id'', JStr (uuid_str (asset_id a))), (''campaign_id'', JStr (uuid_str (asset_campaign_id a))),
         (''triggered_by_user_id'', JStr (uuid_str (user_id user)))])
       \<lparr>rq_campaign_id := Some (asset_campaign_id a)\<rparr>"

definition regenerate_asset :: "bool \<Rightarrow> instant \<Rightarrow> app_user \<Rightarrow> uuid \<Rightarrow> db \<Rightarrow> db res" where
  "regenerate_asset configured now user i s =
     (case require_role Marketer user of
        Inl err \<Rightarrow> Inl err
      | Inr _ \<Rightarrow>
          if \<not> configured then Inl (HTTPException 503)
          else (case load_asset_and_campaign user i s of
             Inl err \<Rightarrow> Inl err
           | Inr (a, camp) \<Rightarrow>
               if camp_status camp \<notin> {ContentInProduction, ApprovalPending} then Inl (HTTPException 409)
               else (case ensure_content_creator_agent (user_env now user) (asset_tenant_id a)
                            (modify_asset (user_env now user) i (with_status ARequested) s) of
                  Inl err \<Rightarrow> Inl err
                | Inr (ag, s1) \<Rightarrow> map_sum id snd (enqueue_task (user_env now user) (regeneration_request user ag a) s1))))"

definition cleared :: "app_user \<Rightarrow> dict \<Rightarrow> content_asset \<Rightarrow> content_asset" where
  "cleared user compliance a =
     a\<lparr>asset_metadata := dict_set (asset_metadata a) ''compliance''
       (JObj (dict_set (dict_set compliance ''blocked'' (JBool False)) ''cleared_by_user_id'' (JStr (uuid_str (user_id user)))))\<rparr>"

text \<open>\<^verbatim>\<open>len(compliance.get("hits", []))\<close>.\<close>

definition py_len :: "json \<Rightarrow> nat res" where
  "py_len v = (case v of JArr xs \<Rightarrow> Inr (length xs) | JObj d \<Rightarrow> Inr (length d) | JStr t \<Rightarrow> Inr (length t) | _ \<Rightarrow> Inl TypeError)"

definition clear_compliance_block :: "instant \<Rightarrow> app_user \<Rightarrow> uuid \<Rightarrow> db \<Rightarrow> (content_asset \<times> db) res" where
  "clear_compliance_block now user i s =
     (case require_role Manager user of
        Inl err \<Rightarrow> Inl err
      | Inr _ \<Rightarrow>
     (case tenant_asset user i s of
        None \<Rightarrow> Inl (HTTPException 404)
      | Some a \<Rightarrow>
          if \<not> is_compliance_blocked a then Inl (HTTPException 409)
          else (let compliance = as_dict (dict_get (asset_metadata a) ''compliance'');
                    e = user_env now user;
                    after = stamped e (cleared user compliance) a;
                    s1 = modify_asset e i (cleared user compliance) s
                in map_sum id (\<lambda>n. (after, write_audit e (asset_tenant_id a) ''content_asset'' i ''compliance_cleared''
                       (Some (SnapAsset a)) (Some (SnapAsset after)) [(''cleared_hit_count'', JInt (int n))] s1))
                     (py_len (dict_get_default compliance ''hits'' (JArr []))))))"

section \<open>What the loop returns\<close>

lemma draft_round_Inr:
  "draft_round copy rxc job k d = Inr d' \<longleftrightarrow>
     (\<exists>out hits. copy k (round_inputs job k d) = Inr out \<and> check_compliance rxc (draft_body out) (job_rules job) = Inr hits
        \<and> d' = d\<lparr>dr_output := out, dr_hits := hits,
              dr_similarity_sq := (case similarity_of job (draft_body out) of None \<Rightarrow> dr_similarity_sq d | Some q \<Rightarrow> Some q)\<rparr>)"
  by (auto simp: draft_round_def Let_def split: sum.splits)

text \<open>The last round's answer and its own check are what is kept, at most \<open>n\<close> rounds after the first; an answer
  that could be improved is kept only in the last one.\<close>

lemma draft_loop_Inr:
  "draft_loop copy rxc job n k d = Inr d' \<Longrightarrow>
     \<exists>j d0. k \<le> j \<and> j \<le> k + n \<and> copy j (round_inputs job j d0) = Inr (dr_output d')
       \<and> check_compliance rxc (draft_body (dr_output d')) (job_rules job) = Inr (dr_hits d')
       \<and> (j = k + n \<or> warn_keywords (dr_hits d') = [] \<and> \<not> too_similar (similarity_of job (draft_body (dr_output d'))))"
proof (induction n arbitrary: k d)
  case 0
  then have "draft_round copy rxc job k d = Inr d'"
    by (subst (asm) draft_loop.simps) (simp add: Let_def split: sum.splits)
  then show ?case by (auto simp: draft_round_Inr intro!: exI [of _ d])
next
  case (Suc n)
  from Suc.prems obtain d1 where d1: "draft_round copy rxc job k d = Inr d1"
    by (subst (asm) draft_loop.simps) (auto split: sum.splits)
  let ?diff = "too_similar (similarity_of job (draft_body (dr_output d1)))"
  show ?case
  proof (cases "warn_keywords (dr_hits d1) = [] \<and> \<not> ?diff")
    case True
    with Suc.prems d1 have "d' = d1" by (subst (asm) draft_loop.simps) (simp add: Let_def)
    with d1 True show ?thesis by (auto simp: draft_round_Inr intro!: exI [of _ k] exI [of _ d])
  next
    case False
    with Suc.prems d1 have "draft_loop copy rxc job n (Suc k) (with_hints ?diff d1) = Inr d'"
      by (subst (asm) draft_loop.simps) (simp add: Let_def split: if_splits)
    from Suc.IH [OF this] obtain j d0 where j: "Suc k \<le> j" "j \<le> Suc k + n"
      "copy j (round_inputs job j d0) = Inr (dr_output d')"
      "check_compliance rxc (draft_body (dr_output d')) (job_rules job) = Inr (dr_hits d')"
      "j = Suc k + n \<or> warn_keywords (dr_hits d') = [] \<and> \<not> too_similar (similarity_of job (draft_body (dr_output d')))"
      by blast
    show ?thesis by (rule exI [of _ j], rule exI [of _ d0]) (use j in auto)
  qed
qed

lemma run_generation_Inr:
  assumes "run_generation copy seo rxc e asset camp plan s = Inr (summary, s')"
  obtains voice d payload where "load_active_voice (camp_tenant_id camp) s = Inr voice"
    "draft_loop copy rxc (assignment_of asset camp plan voice s) sim_regen_max_retries 0 fresh_draft = Inr d"
    "summary = generation_summary asset d (brand_check_of voice (draft_body (dr_output d))) payload"
    "s' = modify_asset e (asset_id asset) (drafted d (brand_check_of voice (draft_body (dr_output d))) payload) s"
  using assms by (auto simp: run_generation_def Let_def split: sum.splits)

section \<open>What is recorded\<close>

lemma drafted_simps [simp]:
  "asset_id (drafted d bc p a) = asset_id a" "asset_status_of (drafted d bc p a) = ADrafted"
  "asset_campaign_id (drafted d bc p a) = asset_campaign_id a" "asset_is_required (drafted d bc p a) = asset_is_required a"
  "asset_tenant_id (drafted d bc p a) = asset_tenant_id a"
  by (simp_all add: drafted_def Let_def)

lemma with_status_simps [simp]:
  "asset_id (with_status st a) = asset_id a" "asset_status_of (with_status st a) = st"
  "asset_campaign_id (with_status st a) = asset_campaign_id a" "asset_is_required (with_status st a) = asset_is_required a"
  "asset_tenant_id (with_status st a) = asset_tenant_id a" "asset_metadata (with_status st a) = asset_metadata a"
  by (simp_all add: with_status_def)

lemma check_failed_simps [simp]:
  "asset_id (check_failed m a) = asset_id a" "asset_status_of (check_failed m a) = AFailed"
  by (simp_all add: check_failed_def)

lemma updated_stamp_simps [simp]:
  "asset_status_of (stamped e f a) = asset_status_of (f a)" "asset_metadata (stamped e f a) = asset_metadata (f a)"
  "asset_content (stamped e f a) = asset_content (f a)" "asset_campaign_id (stamped e f a) = asset_campaign_id (f a)"
  "asset_is_required (stamped e f a) = asset_is_required (f a)" "asset_tenant_id (stamped e f a) = asset_tenant_id (f a)"
  by (simp_all add: stamped_def)

lemma drafted_compliance:
  "dict_get (asset_metadata (drafted d bc p a)) ''compliance'' = JObj (compliance_metadata (dr_rewritten d) (dr_hits d))"
proof -
  have "distinct (map fst ((''compliance'', JObj (compliance_metadata (dr_rewritten d) (dr_hits d))) # similarity_metadata (dr_similarity_sq d)))"
    by (simp add: similarity_metadata_def split: option.splits)
  then show ?thesis
    by (simp add: drafted_def Let_def dict_get_def map_of_dict_merge)
qed

lemma compliance_metadata_blocked: "dict_get (compliance_metadata r hits) ''blocked'' = JBool (blocked hits)"
  by (simp add: compliance_metadata_def dict_get_def)

lemma compliance_metadata_hits: "dict_get_default (compliance_metadata r hits) ''hits'' v = JArr (map hit_dict hits)"
  by (simp add: compliance_metadata_def dict_get_default_def)

lemma drafted_blocked:
  "compliance_blocked (drafted d bc p a) = blocked (dr_hits d)"
  "is_compliance_blocked (drafted d bc p a) = blocked (dr_hits d)"
  by (simp_all add: compliance_blocked_def is_compliance_blocked_def drafted_compliance compliance_metadata_blocked)

lemma blocked_stamped [simp]:
  "compliance_blocked (stamped e f a) = compliance_blocked (f a)" "is_compliance_blocked (stamped e f a) = is_compliance_blocked (f a)"
  by (simp_all add: compliance_blocked_def is_compliance_blocked_def)

lemma get_modify_asset:
  "(\<And>a. asset_id (f a) = asset_id a) \<Longrightarrow>
     get_asset i (modify_asset e j f s) = (if i = j then map_option (stamped e f) (get_asset i s) else get_asset i s)"
  by (simp add: modify_asset_def asset_table.get_modify)

lemma generate_asset_Inr:
  assumes "generate_asset copy seo rxc message sm e i s = (Inr out, s')"
  obtains (not_checked) asset where "get_asset i s = Some asset"
      "s' = modify_asset e i (check_failed message) (modify_asset e i (with_status AGenerating) s)"
      "dict_get out ''compliance_blocked'' = JNull" "dict_get out ''status'' = JStr (asset_status_value AFailed)"
  | (drafted) asset camp plan s2 where "get_asset i s = Some asset" "get_campaign (asset_campaign_id asset) s = Some camp"
      "run_generation copy seo rxc e asset camp plan (modify_asset e i (with_status AGenerating) s) = Inr (out, s2)"
      "maybe_submit_for_approval sm e camp s2 = Inr s'"
proof -
  from assms obtain asset where a: "get_asset i s = Some asset"
    by (auto simp: generate_asset_def split: option.splits)
  from assms a obtain camp where c: "get_campaign (asset_campaign_id asset) s = Some camp"
    by (auto simp: generate_asset_def split: option.splits)
  from assms a c obtain plan where p:
    "plan_for_platform (py_lower (py_str (dict_get_default (asset_metadata asset) ''channel_platform'' (JStr [])))) = Inr plan"
    by (auto simp: generate_asset_def split: sum.splits)
  let ?s1 = "modify_asset e i (with_status AGenerating) s"
  show thesis
  proof (cases "run_generation copy seo rxc e asset camp plan ?s1")
    case (Inr r)
    obtain summary s2 where r: "r = (summary, s2)" by force
    from assms a c p Inr r have "summary = out \<and> maybe_submit_for_approval sm e camp s2 = Inr s'"
      by (auto simp: generate_asset_def Let_def split: sum.splits)
    with drafted a c Inr r show thesis by blast
  next
    case (Inl err)
    with assms a c p have "err = ComplianceCheckError"
      by (auto simp: generate_asset_def Let_def split: py_error.splits)
    with assms a c p Inl have "s' = modify_asset e i (check_failed message) ?s1"
      "dict_get out ''compliance_blocked'' = JNull" "dict_get out ''status'' = JStr (asset_status_value AFailed)"
      by (auto simp: generate_asset_def Let_def dict_get_def)
    with not_checked a show thesis by blast
  qed
qed

text \<open>The row of a draft that was not submitted along with it.\<close>

lemma generated_row:
  assumes "get_asset i s = Some asset" "i = asset_id asset"
    and "s2 = modify_asset e i (drafted d bc p) (modify_asset e i (with_status AGenerating) s)"
  shows "get_asset i s2 = Some (stamped e (drafted d bc p) (stamped e (with_status AGenerating) asset))"
  using assms by (simp add: get_modify_asset)

lemma get_asset_mem: "get_asset i s = Some a \<Longrightarrow> a \<in> set (assets s) \<and> asset_id a = i"
  by (auto simp: get_asset_def dest: find_row_Some)

lemma get_campaign_modify_asset [simp]: "get_campaign j (modify_asset e i f s) = get_campaign j s"
  by (simp add: get_campaign_def)

lemma submit_refused:
  assumes "a \<in> set (assets s)" "required_in camp a" "compliance_blocked a"
  shows "apply_transition (campaign_sm tc) e camp ''submit_for_approval'' s \<noteq> Inr r"
  using assms submit_guard(1) [of tc e camp s "fst r" "snd r"]
  by (cases r) (auto simp: all_required_assets_drafted_def any_required_False)

text \<open>Which errors refuse a transition before anything is written.\<close>

lemma blocked_not_submitted:
  assumes run: "maybe_submit_for_approval (campaign_sm tc) e camp s = Inr s'"
    and a: "a \<in> set (assets s)" "required_in camp a" "compliance_blocked a"
  shows "s' = s"
proof (cases "apply_transition (campaign_sm tc) e camp ''submit_for_approval'' s")
  case (Inl err)
  with run show ?thesis by (auto simp: maybe_submit_for_approval_def try_apply_def split: if_splits)
next
  case (Inr r)
  with submit_refused [OF a] show ?thesis by blast
qed

lemma rules_modify_asset [simp]:
  "load_compliance_rules tenant (modify_asset e i f s) = load_compliance_rules tenant s"
  by (simp add: load_compliance_rules_def modify_defs)

lemma job_rules_assignment: "job_rules (assignment_of asset camp plan voice s) = load_compliance_rules (camp_tenant_id camp) s"
  by (simp add: assignment_of_def)

lemma submitted_simps [simp]:
  "asset_id (submitted now snap a) = asset_id a" "asset_status_of (submitted now snap a) = APendingApproval"
  "asset_content (submitted now snap a) = asset_content a"
  "is_compliance_blocked (submitted now snap a) = is_compliance_blocked a"
  by (simp_all add: submitted_def set_meta_def is_compliance_blocked_def)

text \<open>The row of an asset after the attempt to submit its campaign.\<close>

lemma maybe_submit_row:
  assumes "maybe_submit_for_approval (campaign_sm tc) e camp s = Inr s'" "get_asset i s = Some a"
  obtains "get_asset i s' = Some a"
  | snap where "drafted_required camp a" "get_asset i s' = Some (stamped e (submitted (env_now e) snap) a)"
proof (cases "apply_transition (campaign_sm tc) e camp ''submit_for_approval'' s")
  case (Inl err)
  with assms have "s' = s" by (auto simp: maybe_submit_for_approval_def try_apply_def split: if_splits)
  with assms(2) that show thesis by simp
next
  case (Inr r)
  obtain camp' s2 where r: "r = (camp', s2)" by force
  from assms(1) Inr r have s': "s' = s \<or> s' = s2"
    by (auto simp: maybe_submit_for_approval_def try_apply_def split: if_splits)
  from Inr r obtain row where row: "assets s2 = update_where (drafted_required camp)
      (stamped e (submitted (env_now e) (threshold_snapshot (env_now e) row))) (assets s)"
    using submit_assets [of tc e camp s camp' s2] by blast
  have "get_asset i s2 = Some (if drafted_required camp a
      then stamped e (submitted (env_now e) (threshold_snapshot (env_now e) row)) a else a)"
    using assms(2) by (simp add: get_asset_def row find_row_update_where)
  with s' assms(2) that show thesis by (auto split: if_splits)
qed


text \<open>C6. A draft the compliance check blocks goes nowhere by itself: after generating it the asset of a required
  slot is drafted and marked, its campaign has not moved, no transition submits the campaign while it
  is so, and neither the approval endpoint nor a batch accepts it, whoever asks.\<close>

theorem blocked_draft_needs_clearance:
  assumes run: "generate_asset copy seo rxc message (campaign_sm tc) e i s = (Inr out, s')"
    and blocked: "dict_get out ''compliance_blocked'' = JBool True"
    and asset: "get_asset i s = Some asset" "asset_is_required asset"
  shows "(\<exists>a'. get_asset i s' = Some a' \<and> asset_status_of a' = ADrafted \<and> is_compliance_blocked a')
    \<and> campaigns s' = campaigns s
    \<and> (\<forall>e' camp r. camp_id camp = asset_campaign_id asset \<longrightarrow>
         apply_transition (campaign_sm tc) e' camp ''submit_for_approval'' s' \<noteq> Inr r)
    \<and> (\<forall>sm now user body r. approve_asset sm now user i body s' \<noteq> Inr r)
    \<and> (\<forall>user r. screen user i s' \<noteq> Inr (Inr r))"
  using run
proof (cases rule: generate_asset_Inr)
  case (not_checked b)
  with blocked show ?thesis by simp
next
  case (drafted b camp plan s2)
  then have b: "b = asset" using asset by simp
  have i: "asset_id asset = i" using get_asset_mem [OF asset(1)] by simp
  from drafted(3) [unfolded b] obtain voice d payload where
    out: "out = generation_summary asset d (brand_check_of voice (draft_body (dr_output d))) payload"
    and s2: "s2 = modify_asset e (asset_id asset) (Generation.drafted d (brand_check_of voice (draft_body (dr_output d))) payload)
        (modify_asset e i (with_status AGenerating) s)"
    by (rule run_generation_Inr)
  have bl: "Compliance.blocked (dr_hits d)" using blocked by (simp add: out generation_summary_def dict_get_def)
  let ?row = "stamped e (Generation.drafted d (brand_check_of voice (draft_body (dr_output d))) payload) (stamped e (with_status AGenerating) asset)"
  have row: "get_asset i s2 = Some ?row" unfolding s2 i by (simp add: get_modify_asset asset)
  then have mem: "?row \<in> set (assets s2)" using get_asset_mem by blast
  have comp: "compliance_blocked ?row" "is_compliance_blocked ?row" using bl by (simp_all add: drafted_blocked)
  have req: "camp_id c = asset_campaign_id asset \<Longrightarrow> required_in c ?row" for c
    using asset(2) by (simp add: required_in_def)
  have "camp_id camp = asset_campaign_id asset" using drafted(2) b campaign_table.get_key by simp
  then have s': "s' = s2" using blocked_not_submitted [OF drafted(4) mem req comp(1)] by blast
  have "campaigns s2 = campaigns s" by (simp add: s2)
  moreover have "apply_transition (campaign_sm tc) e' c ''submit_for_approval'' s2 \<noteq> Inr r"
    if "camp_id c = asset_campaign_id asset" for e' c r
    using submit_refused [OF mem req [OF that] comp(1)] by blast
  moreover have "approve_asset sm now user i body s2 \<noteq> Inr r" for sm now user body r
    using row comp(2) by (cases r) (auto elim!: approve_asset_Inr simp: permitted_def)
  moreover have "screen user i s2 \<noteq> Inr (Inr r)" for user r
    using row comp(2) by (auto simp: screen_def tenant_asset_Some split: option.splits if_splits sum.splits)
  ultimately show ?thesis using row comp(2) unfolding s' by simp
qed

text \<open>A manager can release a blocked draft, once: clearing a block that generation recorded succeeds for a
  manager of the tenant, leaves the text, the status and the list of hits as they are, lifts the mark both
  for the state machine and for the approval endpoints, touches no other asset and adds one audit entry
  that names the manager and counts the hits. Clearing again is refused.\<close>

theorem clear_compliance_releases:
  assumes asset: "get_asset i s = Some a" "asset_tenant_id a = user_tenant_id user"
    and role: "role_rank Manager \<le> role_rank (user_role_of user)"
    and mark: "dict_get (asset_metadata a) ''compliance'' = JObj (compliance_metadata rewritten hits)" "blocked hits"
  shows "\<exists>a' s'. clear_compliance_block now user i s = Inr (a', s') \<and> get_asset i s' = Some a'
    \<and> \<not> is_compliance_blocked a' \<and> \<not> compliance_blocked a'
    \<and> asset_content a' = asset_content a \<and> asset_status_of a' = asset_status_of a
    \<and> dict_get (as_dict (dict_get (asset_metadata a') ''compliance'')) ''hits'' = JArr (map hit_dict hits)
    \<and> (\<forall>j. j \<noteq> i \<longrightarrow> get_asset j s' = get_asset j s)
    \<and> (\<exists>entry. audit_log s' = audit_log s @ [entry] \<and> au_actor_id entry = Some (user_id user)
         \<and> au_before entry = Some (SnapAsset a) \<and> au_after entry = Some (SnapAsset a')
         \<and> dict_get (au_metadata entry) ''cleared_hit_count'' = JInt (int (length hits)))
    \<and> clear_compliance_block now' user i s' = Inl (HTTPException 409)"
proof -
  let ?c = "compliance_metadata rewritten hits" and ?e = "user_env now user"
  let ?a = "stamped ?e (cleared user ?c) a"
  let ?s = "write_audit ?e (asset_tenant_id a) ''content_asset'' i ''compliance_cleared'' (Some (SnapAsset a)) (Some (SnapAsset ?a))
      [(''cleared_hit_count'', JInt (int (length hits)))] (modify_asset ?e i (cleared user ?c) s)"
  have r: "require_role Manager user = Inr user" using role by (simp add: require_role_Inr)
  have t: "tenant_asset user i s = Some a" using asset by (simp add: tenant_asset_Some)
  have bl: "is_compliance_blocked a" using mark by (simp add: is_compliance_blocked_def compliance_metadata_blocked)
  have run: "clear_compliance_block now user i s = Inr (?a, ?s)"
    unfolding clear_compliance_block_def r t sum.case option.case
    using bl by (simp add: mark(1) Let_def compliance_metadata_hits py_len_def)
  have id: "asset_id (cleared user c x) = asset_id x" for c x by (simp add: cleared_def)
  have row: "get_asset j ?s = (if j = i then Some ?a else get_asset j s)" for j
    using asset(1) by (simp add: get_asset_def modify_asset_def put_asset_def write_audit_def)
      (simp add: find_row_update_key id)
  have free: "\<not> is_compliance_blocked ?a" "\<not> compliance_blocked ?a"
    by (simp_all add: is_compliance_blocked_def compliance_blocked_def cleared_def)
  have "tenant_asset user i ?s = Some ?a" using row [of i] asset(2) by (simp add: tenant_asset_Some cleared_def)
  then have again: "clear_compliance_block now' user i ?s = Inl (HTTPException 409)"
    unfolding clear_compliance_block_def r using free(1) by simp
  have hits: "dict_get (as_dict (dict_get (asset_metadata ?a) ''compliance'')) ''hits'' = JArr (map hit_dict hits)"
    by (simp add: cleared_def) (simp add: compliance_metadata_def dict_get_def)
  have same: "asset_content ?a = asset_content a" "asset_status_of ?a = asset_status_of a" by (simp_all add: cleared_def)
  have log: "\<exists>entry. audit_log ?s = audit_log s @ [entry] \<and> au_actor_id entry = Some (user_id user)
         \<and> au_before entry = Some (SnapAsset a) \<and> au_after entry = Some (SnapAsset ?a)
         \<and> dict_get (au_metadata entry) ''cleared_hit_count'' = JInt (int (length hits))"
    by (simp add: write_audit_def user_env_def dict_get_def)
  show ?thesis
    by (rule exI [of _ ?a], rule exI [of _ ?s]) (use run row free hits same log again in simp)
qed

section \<open>Regenerating during review\<close>

lemma regenerate_asset_Inr:
  assumes "regenerate_asset configured now user i s = Inr s'" and asset: "get_asset i s = Some a"
  shows "campaigns s' = campaigns s" and "get_asset i s' = Some (stamped (user_env now user) (with_status ARequested) a)"
proof -
  let ?e = "user_env now user"
  from assms obtain ag s1 where s1: "ensure_content_creator_agent ?e (asset_tenant_id a) (modify_asset ?e i (with_status ARequested) s) = Inr (ag, s1)"
    and q: "map_sum id snd (enqueue_task ?e (regeneration_request user ag a) s1) = Inr s'"
    by (auto simp: regenerate_asset_def load_Inr tenant_asset_Some split: if_splits sum.splits)
  have enq: "enqueue_task ?e (regeneration_request user ag a) s1 = Inr (insert_task ?e (regeneration_request user ag a) s1)"
    by (rule enqueue_without_key) (simp_all add: regeneration_request_def request_def)
  with q have s': "s' = snd (insert_task ?e (regeneration_request user ag a) s1)" by simp
  note frame = ensure_agent_frame [OF s1 [unfolded ensure_content_creator_agent_def]]
  show "campaigns s' = campaigns s" using frame by (simp add: s')
  have "assets s' = assets (modify_asset ?e i (with_status ARequested) s)" using frame by (simp add: s')
  then have "get_asset i s' = get_asset i (modify_asset ?e i (with_status ARequested) s)" by (simp add: get_asset_def)
  then show "get_asset i s' = Some (stamped ?e (with_status ARequested) a)" by (simp add: get_modify_asset asset)
qed

lemma not_pending_not_decided:
  assumes "get_asset i s = Some a" "asset_status_of a = ADrafted"
  shows "approve_asset sm now user i body s \<noteq> Inr r" and "reject_asset sm now user i rej s \<noteq> Inr r'"
proof -
  show "approve_asset sm now user i body s \<noteq> Inr r"
    using assms by (cases r) (auto elim!: approve_asset_Inr simp: permitted_def approvable_def)
  show "reject_asset sm now user i rej s \<noteq> Inr r'"
    using assms by (auto simp: reject_asset_def load_Inr tenant_asset_Some split: sum.splits if_splits)
qed

text \<open>Regenerating an asset while its campaign is under review takes it out of review for good: the endpoint
  accepts the request, the worker drafts the asset anew, but the campaign is already awaiting approval
  and is not submitted again; the asset stays drafted, cannot be approved, rejected or batch
  approved through the API, and a required one keeps the campaign from launching.\<close>

theorem regenerated_asset_leaves_review:
  assumes regen: "regenerate_asset configured now user i s = Inr s1"
    and asset: "get_asset i s = Some asset" and camp: "get_campaign (asset_campaign_id asset) s = Some camp"
      "camp_status camp = ApprovalPending"
    and gen: "generate_asset copy seo rxc message (campaign_sm tc) e i s1 = (Inr out, s2)"
    and drafted: "dict_get out ''status'' = JStr (asset_status_value ADrafted)"
  shows "(\<exists>a'. get_asset i s2 = Some a' \<and> asset_status_of a' = ADrafted)
    \<and> campaigns s2 = campaigns s
    \<and> (\<forall>sm now' user' body r. approve_asset sm now' user' i body s2 \<noteq> Inr r)
    \<and> (\<forall>sm now' user' rej r. reject_asset sm now' user' i rej s2 \<noteq> Inr r)
    \<and> (\<forall>user' r. screen user' i s2 \<noteq> Inr (Inr r))
    \<and> (asset_is_required asset \<longrightarrow>
         (\<forall>e' r. apply_transition (campaign_sm tc) e' camp ''start_launch'' s2 \<noteq> Inr r))"
proof -
  note s1 = regenerate_asset_Inr [OF regen asset]
  have s1c: "get_campaign j s1 = get_campaign j s" for j using s1(1) by (simp add: get_campaign_def)
  let ?row1 = "stamped (user_env now user) (with_status ARequested) asset"
  have i: "asset_id asset = i" using get_asset_mem [OF asset] by simp
  from gen have "\<exists>d bc p. s2 = modify_asset e i (Generation.drafted d bc p) (modify_asset e i (with_status AGenerating) s1)"
  proof (cases rule: generate_asset_Inr)
    case (not_checked b)
    with drafted show ?thesis by simp
  next
    case (drafted b c plan s3)
    then have b1: "b = ?row1" using s1(2) by simp
    then have b: "b = ?row1" "c = camp" using drafted(2) s1c camp(1) by simp_all
    have "s2 = s3" using drafted(4) camp(2) by (simp add: b maybe_submit_for_approval_def)
    moreover have "asset_id ?row1 = i" by (simp add: i)
    moreover obtain voice d payload where "s3 = modify_asset e (asset_id ?row1)
        (Generation.drafted d (brand_check_of voice (draft_body (dr_output d))) payload) (modify_asset e i (with_status AGenerating) s1)"
      using drafted(3) [unfolded b] by (rule run_generation_Inr)
    ultimately show ?thesis by metis
  qed
  then obtain d bc p where s2: "s2 = modify_asset e i (Generation.drafted d bc p) (modify_asset e i (with_status AGenerating) s1)" by blast
  let ?row = "stamped e (Generation.drafted d bc p) (stamped e (with_status AGenerating) ?row1)"
  have row: "get_asset i s2 = Some ?row" unfolding s2 by (simp add: get_modify_asset s1(2))
  have "campaigns s2 = campaigns s" by (simp add: s2 s1(1))
  moreover have "screen user' i s2 \<noteq> Inr (Inr r)" for user' r
    using row by (auto simp: screen_def tenant_asset_Some approvable_def split: option.splits if_splits sum.splits)
  moreover have "apply_transition (campaign_sm tc) e' camp ''start_launch'' s2 \<noteq> Inr r"
    if req: "asset_is_required asset" for e' r
  proof
    assume run: "apply_transition (campaign_sm tc) e' camp ''start_launch'' s2 = Inr r"
    have "camp_id camp = asset_campaign_id asset" using camp(1) campaign_table.get_key by simp
    with req have "required_in camp ?row" by (simp add: required_in_def)
    with start_launch_needs(2) [of tc e' camp s2 "fst r" "snd r"] run get_asset_mem [OF row] show False
      by (cases r) (auto simp: all_required_assets_approved_def any_required_False)
  qed
  ultimately show ?thesis using row not_pending_not_decided [OF row] by simp
qed

section \<open>Concrete instances\<close>

text \<open>A tool that always gives the same answer.\<close>

lemma constant_loop:
  assumes "check_compliance rxc (draft_body cw) (job_rules job) = Inr hits"
  shows "\<exists>d'. draft_loop (\<lambda>_ _. Inr cw) rxc job n k d = Inr d' \<and> dr_output d' = cw \<and> dr_hits d' = hits"
proof (induction n arbitrary: k d)
  case 0
  show ?case using assms by (subst draft_loop.simps) (simp add: draft_round_def Let_def)
next
  case (Suc n)
  let ?d = "d\<lparr>dr_output := cw, dr_hits := hits,
      dr_similarity_sq := (case similarity_of job (draft_body cw) of None \<Rightarrow> dr_similarity_sq d | Some q \<Rightarrow> Some q)\<rparr>"
  let ?diff = "too_similar (similarity_of job (draft_body cw))"
  have r: "draft_round (\<lambda>_ _. Inr cw) rxc job k d = Inr ?d" using assms by (simp add: draft_round_def Let_def)
  show ?case
  proof (cases "warn_keywords hits = [] \<and> \<not> ?diff")
    case True
    with r show ?thesis by (subst draft_loop.simps) (simp add: Let_def)
  next
    case False
    then have "draft_loop (\<lambda>_ _. Inr cw) rxc job (Suc n) k d
        = draft_loop (\<lambda>_ _. Inr cw) rxc job n (Suc k) (with_hints ?diff ?d)"
      using if_not_P [OF False] by (subst draft_loop.simps) (simp add: r Let_def del: de_Morgan_conj)
    then show ?thesis using Suc.IH by simp
  qed
qed

definition claim_copy :: dict where
  "claim_copy = [(''subject'', JStr ''Hi''), (''body'', JStr ''Results GUARANTEED.'')]"

definition request_meta :: dict where
  "request_meta = [(''channel_platform'', JStr ''email'')]"

lemma claim_hits: "\<exists>hits. check_compliance (\<lambda>_. None) ''Results GUARANTEED.'' [] = Inr hits \<and> blocked hits"
proof -
  have "occurs_at ''guaranteed'' ''Results GUARANTEED.'' 8" by code_simp
  moreover have "''guaranteed'' \<in> set absolute_claims" by (simp add: absolute_claims_def)
  ultimately have "\<exists>label r. (label, r, ''block'') \<in> set universal_patterns \<and> finditer r ''Results GUARANTEED.'' 0 \<noteq> []"
    by (rule absolute_claim_found [rotated])
  moreover have "check_compliance (\<lambda>_. None) ''Results GUARANTEED.'' [] = Inr (universal_hits ''Results GUARANTEED.'')"
    by (simp add: check_compliance_def)
  ultimately show ?thesis using check_compliance_blocked by blast
qed

text \<open>An email asset of a campaign that is not in content production, drafted with an absolute claim.\<close>

lemma claim_draft_runs:
  assumes row: "get_asset 20 s = Some a" "asset_metadata a = request_meta" "asset_campaign_id a = 7"
    and camp: "get_campaign 7 s = Some (demo_campaign st)" "st \<noteq> ContentInProduction"
    and tables: "brand_voices s = []" "compliance_rules s = []"
  shows "\<exists>out s'. generate_asset (\<lambda>_ _. Inr claim_copy) seo_call (\<lambda>_. None) [] sm e 20 s = (Inr out, s')
    \<and> dict_get out ''compliance_blocked'' = JBool True \<and> dict_get out ''status'' = JStr (asset_status_value ADrafted)"
proof -
  obtain hits where hits: "check_compliance (\<lambda>_. None) ''Results GUARANTEED.'' [] = Inr hits" "blocked hits"
    using claim_hits by blast
  obtain plan where plan: "plan_for_platform (py_lower (py_str (dict_get_default request_meta ''channel_platform'' (JStr [])))) = Inr plan"
    "\<not> plan_requires_seo plan"
  proof
    show "plan_for_platform (py_lower (py_str (dict_get_default request_meta ''channel_platform'' (JStr [])))) =
        Inr \<lparr>plan_asset_type = TEmail, plan_tool_channel = ''email'', plan_requires_seo = False\<rparr>" by code_simp
  qed simp
  let ?s1 = "modify_asset e 20 (with_status AGenerating) s"
  let ?job = "assignment_of a (demo_campaign st) plan None ?s1"
  have voice: "load_active_voice (camp_tenant_id (demo_campaign st)) ?s1 = Inr None"
    using tables by (simp add: load_active_voice_def modify_defs)
  have rules: "load_compliance_rules tenant s = []" for tenant using tables by (simp add: load_compliance_rules_def)
  have "draft_body claim_copy = ''Results GUARANTEED.''" by code_simp
  then have "check_compliance (\<lambda>_. None) (draft_body claim_copy) (job_rules ?job) = Inr hits"
    using hits rules by (simp add: job_rules_assignment)
  then obtain d where d: "draft_loop (\<lambda>_ _. Inr claim_copy) (\<lambda>_. None) ?job sim_regen_max_retries 0 fresh_draft = Inr d" "dr_hits d = hits"
    using constant_loop by blast
  have "seo_payload_of seo_call ?job (dr_output d) = Inr None"
    using plan(2) by (simp add: seo_payload_of_def assignment_of_def)
  then obtain summary s2 where run: "run_generation (\<lambda>_ _. Inr claim_copy) seo_call (\<lambda>_. None) e a (demo_campaign st) plan ?s1 = Inr (summary, s2)"
    and sum: "summary = generation_summary a d (brand_check_of None (draft_body (dr_output d))) None"
    using d(1) unfolding run_generation_def voice sum.case Let_def by simp
  have "generate_asset (\<lambda>_ _. Inr claim_copy) seo_call (\<lambda>_. None) [] sm e 20 s = (Inr summary, s2)"
    using row camp plan(1) run by (simp add: generate_asset_def Let_def maybe_submit_for_approval_def)
  then show ?thesis using hits(2) d(2) by (simp add: sum generation_summary_def dict_get_def)
qed

abbreviation claim_db :: "campaign_status \<Rightarrow> db" where
  "claim_db st \<equiv> demo_db st (demo_asset TEmail ARequested request_meta)"

lemma claim_db_runs:
  assumes "st \<noteq> ContentInProduction"
  shows "\<exists>out s'. generate_asset (\<lambda>_ _. Inr claim_copy) seo_call (\<lambda>_. None) [] sm e 20 (claim_db st) = (Inr out, s')
    \<and> dict_get out ''compliance_blocked'' = JBool True \<and> dict_get out ''status'' = JStr (asset_status_value ADrafted)"
  by (rule claim_draft_runs [OF _ _ _ _ assms, where a = "demo_asset TEmail ARequested request_meta"]) (simp_all add: demo_db_def empty_db_def get_asset_def get_campaign_def find_row_def)


theorem blocked_draft_needs_clearance_witness:
  "\<exists>out s'. generate_asset (\<lambda>_ _. Inr claim_copy) seo_call (\<lambda>_. None) [] (campaign_sm (\<lambda>_ _ _. False)) (worker_env 5) 20 (claim_db Live)
     = (Inr out, s') \<and> (\<exists>a'. get_asset 20 s' = Some a' \<and> is_compliance_blocked a')"
proof -
  obtain out s' where run: "generate_asset (\<lambda>_ _. Inr claim_copy) seo_call (\<lambda>_. None) [] (campaign_sm (\<lambda>_ _ _. False)) (worker_env 5) 20 (claim_db Live)
     = (Inr out, s')" and bl: "dict_get out ''compliance_blocked'' = JBool True" using claim_db_runs [of Live] by blast
  have row: "get_asset 20 (claim_db Live) = Some (demo_asset TEmail ARequested request_meta)" by simp
  from blocked_draft_needs_clearance [OF run bl row] run show ?thesis by auto
qed

definition blocked_meta :: dict where
  "blocked_meta = [(''compliance'', JObj (compliance_metadata False
     [\<lparr>hit_rule = ''medical_claim'', hit_severity = ''block'', hit_snippet = ''cures'', hit_pattern_kind = ''regex''\<rparr>]))]"

theorem clear_compliance_releases_witness:
  "\<exists>a' s'. clear_compliance_block 5 (demo_user Manager) 20 (demo_db ContentInProduction (demo_asset TEmail ADrafted blocked_meta)) = Inr (a', s')
     \<and> \<not> is_compliance_blocked a' \<and> asset_status_of a' = ADrafted"
proof -
  let ?a = "demo_asset TEmail ADrafted blocked_meta"
  have row: "get_asset 20 (demo_db ContentInProduction ?a) = Some ?a" "asset_tenant_id ?a = user_tenant_id (demo_user Manager)" by simp_all
  have role: "role_rank Manager \<le> role_rank (user_role_of (demo_user Manager))" by simp
  have mark: "dict_get (asset_metadata ?a) ''compliance'' = JObj (compliance_metadata False
     [\<lparr>hit_rule = ''medical_claim'', hit_severity = ''block'', hit_snippet = ''cures'', hit_pattern_kind = ''regex''\<rparr>])"
    "blocked [\<lparr>hit_rule = ''medical_claim'', hit_severity = ''block'', hit_snippet = ''cures'', hit_pattern_kind = ''regex''\<rparr>]"
    by (simp_all add: blocked_meta_def dict_get_def blocked_def)
  from clear_compliance_releases [OF row role mark, of 5 9] show ?thesis by auto
qed

definition review_db :: db where
  "review_db = (claim_db ApprovalPending)
     \<lparr>agents := [\<lparr>ag_id = 5, ag_tenant_id = 1, ag_name = ''Content Creator'', ag_type = ContentCreator\<rparr>]\<rparr>"

theorem regenerated_asset_leaves_review_witness:
  "\<exists>s1 out s2 a'. regenerate_asset True 5 (demo_user Marketer) 20 review_db = Inr s1
     \<and> generate_asset (\<lambda>_ _. Inr claim_copy) seo_call (\<lambda>_. None) [] (campaign_sm (\<lambda>_ _ _. False)) (worker_env 6) 20 s1 = (Inr out, s2)
     \<and> get_asset 20 s2 = Some a' \<and> asset_status_of a' = ADrafted"
proof -
  let ?a = "demo_asset TEmail ARequested request_meta"
  have rows: "get_asset 20 review_db = Some ?a" "get_campaign (asset_campaign_id ?a) review_db = Some (demo_campaign ApprovalPending)"
    "camp_status (demo_campaign ApprovalPending) = ApprovalPending"
    by (simp_all add: review_db_def get_asset_def get_campaign_def find_row_def)
  have load: "load_asset_and_campaign (demo_user Marketer) 20 review_db = Inr (?a, demo_campaign ApprovalPending)"
    using rows by (simp add: load_Inr tenant_asset_Some tenant_campaign_Some)
  let ?e = "user_env 5 (demo_user Marketer)"
  let ?s0 = "modify_asset ?e 20 (with_status ARequested) review_db"
  let ?ag = "\<lparr>ag_id = 5, ag_tenant_id = 1, ag_name = ''Content Creator'', ag_type = ContentCreator\<rparr>"
  have ag: "ensure_content_creator_agent ?e (asset_tenant_id ?a) ?s0 = Inr (?ag, ?s0)"
    by (rule ensure_agent_existing) (simp add: review_db_def)
  have enq: "enqueue_task ?e (regeneration_request (demo_user Marketer) ?ag ?a) ?s0
      = Inr (insert_task ?e (regeneration_request (demo_user Marketer) ?ag ?a) ?s0)"
    by (rule enqueue_without_key) (simp_all add: regeneration_request_def request_def)
  obtain s1 where regen: "regenerate_asset True 5 (demo_user Marketer) 20 review_db = Inr s1"
    and s1_eq: "s1 = snd (insert_task ?e (regeneration_request (demo_user Marketer) ?ag ?a) ?s0)"
    by (simp add: regenerate_asset_def require_role_def load) (simp add: ag [simplified] enq [simplified])
  note s1 = regenerate_asset_Inr [OF regen rows(1)]
  have "brand_voices s1 = [] \<and> compliance_rules s1 = []"
    by (simp add: s1_eq insert_task_def fresh_uuid_def Let_def modify_defs review_db_def demo_db_def empty_db_def)
  moreover have "get_campaign 7 s1 = Some (demo_campaign ApprovalPending)" using s1(1) rows(2) by (simp add: get_campaign_def)
  ultimately obtain out s2 where gen: "generate_asset (\<lambda>_ _. Inr claim_copy) seo_call (\<lambda>_. None) [] (campaign_sm (\<lambda>_ _ _. False)) (worker_env 6) 20 s1 = (Inr out, s2)"
    and dr: "dict_get out ''status'' = JStr (asset_status_value ADrafted)"
    using claim_draft_runs [OF s1(2), of ApprovalPending "campaign_sm (\<lambda>_ _ _. False)" "worker_env 6"] by auto
  from regenerated_asset_leaves_review [OF regen rows gen dr] regen gen show ?thesis by blast
qed

end
