(* ===== verification/Review_Channels.thy ===== *)
theory Review_Channels
  imports Generation
begin

text \<open>
  The other ways an asset is decided on: the review pages (\<^verbatim>\<open>app/api/ui/approvals.py\<close>) and the assistant's
  tools (\<^verbatim>\<open>app/assistant/tools.py\<close>), with the tools that pause, resume, complete and launch a campaign.
  A form is the dictionary of its text parts; a page is reduced to the message it shows.
  \<open>launched_at\<close> is not modelled.
\<close>

section \<open>Review pages\<close>

definition collect_edited_fields :: "(string \<times> string) list \<Rightarrow> (string \<times> string) list" where
  "collect_edited_fields form =
     List.map_filter (\<lambda>(k, v). if take 11 k = ''edit_field_'' \<and> py_strip v \<noteq> [] then Some (drop 11 k, v) else None) form"

definition form_text :: "(string \<times> string) list \<Rightarrow> string \<Rightarrow> string option" where
  "form_text form k =
     (case map_of form k of None \<Rightarrow> None | Some v \<Rightarrow> if py_strip v = [] then None else Some (py_strip v))"

definition form_request :: "(string \<times> string) list \<Rightarrow> approve_request" where
  "form_request form =
     \<lparr>ap_edited_content = form_text form ''edited_content'', ap_edited_fields = Some (collect_edited_fields form),
      ap_note = form_text form ''note''\<rparr>"

text \<open>Here a note alone counts as an edit.\<close>

definition ui_edited :: "approve_request \<Rightarrow> content_asset \<Rightarrow> (dict option \<times> content_asset) res" where
  "ui_edited body a =
     (if \<not> has_edits body \<and> ap_note body = None then Inr (None, a)
      else case edits_payload a body of
             Inl err \<Rightarrow> Inl err
           | Inr p \<Rightarrow> map_sum id (\<lambda>a'. (Some p, a')) (apply_edits body a))"

datatype page =
    Refused_Status asset_status
  | Refused_Compliance
  | Refused_No_Reason
  | Approved_Page "uuid" "bool" "bool"  \<comment> \<open>decision, with edits, campaign ready to launch\<close>
  | Rejected_Page "uuid" "rejection_category"

definition approve_via_ui ::
  "state_machine \<Rightarrow> instant \<Rightarrow> app_user \<Rightarrow> uuid \<Rightarrow> (string \<times> string) list \<Rightarrow> db \<Rightarrow> (page \<times> db) res" where
  "approve_via_ui sm now user i form s =
     (case require_role Manager user of
        Inl err \<Rightarrow> Inl err
      | Inr _ \<Rightarrow>
     (case load_asset_and_campaign user i s of
        Inl err \<Rightarrow> Inl err
      | Inr (a, camp) \<Rightarrow>
          if asset_status_of a \<notin> {APendingApproval, ARejected, ADrafted} then Inr (Refused_Status (asset_status_of a), s)
          else if is_compliance_blocked a then Inr (Refused_Compliance, s)
          else (case ui_edited (form_request form) a of
             Inl err \<Rightarrow> Inl err
           | Inr (edits, a') \<Rightarrow>
               (let (d, s1) = decide (user_env now user) user a'
                      (if edits = None then DApproved else DApprovedWithEdits) (form_text form ''note'') edits AApproved
                      (if edits = None then ''approved'' else ''approved_with_edits'') [(''via'', JStr ''ui'')] s
                in map_sum id (\<lambda>(advanced, s2). (Approved_Page (dec_id d) (edits \<noteq> None) (advanced = Some ReadyToLaunch), s2))
                     (try_advance_after_approval sm (user_env now user) camp s1)))))"

definition category_of :: "string \<Rightarrow> rejection_category" where
  "category_of c =
     (case List.find (\<lambda>k. category_value k = c) [RcOffVoice, RcInaccurate, RcWrongAudience, RcLength, RcCompliance, RcOther] of Some k \<Rightarrow> k | None \<Rightarrow> RcOther)"

text \<open>A rejection on the page drops the asset: it no longer counts as required.\<close>

definition dropped :: "content_asset \<Rightarrow> content_asset" where
  "dropped a = a\<lparr>asset_status_of := ARejected, asset_is_required := False\<rparr>"

definition reject_via_ui ::
  "state_machine \<Rightarrow> instant \<Rightarrow> app_user \<Rightarrow> uuid \<Rightarrow> string \<Rightarrow> string \<Rightarrow> db \<Rightarrow> (page \<times> db) res" where
  "reject_via_ui sm now user i reason category s =
     (case require_role Manager user of
        Inl err \<Rightarrow> Inl err
      | Inr _ \<Rightarrow>
          if py_strip reason = [] then Inr (Refused_No_Reason, s)
          else (case tenant_asset user i s of
             None \<Rightarrow> Inl (HTTPException 404)
           | Some a \<Rightarrow>
               if asset_status_of a \<notin> {APendingApproval, ADrafted} then Inr (Refused_Status (asset_status_of a), s)
               else
                 (let e = user_env now user;
                      cat = category_of category;
                      (di, s1) = fresh_uuid s;
                      d = \<lparr>dec_id = di, dec_asset_id = i, dec_reviewer_id = user_id user, dec_decision = DRejected,
                           dec_reason = Some (py_strip reason), dec_edits = Some [(''category'', JStr (category_value cat))],
                           dec_decided_at = now\<rparr>;
                      s2 = modify_asset e i dropped (s1\<lparr>decisions := decisions s1 @ [d]\<rparr>);
                      s3 = write_audit e (asset_tenant_id a) ''content_asset'' i ''rejected'' (Some (SnapAsset a))
                             (Some (SnapAsset (stamped e dropped a)))
                             [(''decision_id'', JStr (uuid_str di)), (''category'', JStr (category_value cat)), (''via'', JStr ''ui'')] s2
                  in case tenant_campaign user (asset_campaign_id a) s3 of
                       None \<Rightarrow> Inr (Rejected_Page di cat, s3)
                     | Some camp \<Rightarrow> map_sum id (\<lambda>(_, s4). (Rejected_Page di cat, s4)) (try_advance_after_approval sm e camp s3))))"

section \<open>The assistant's tools\<close>

record tool_result =
  tl_summary :: string
  tl_data :: dict
  tl_requires_confirmation :: bool

definition told :: "string \<Rightarrow> dict \<Rightarrow> tool_result" where
  "told summary data = \<lparr>tl_summary = summary, tl_data = data, tl_requires_confirmation = False\<rparr>"

definition ask :: "string \<Rightarrow> dict \<Rightarrow> tool_result" where
  "ask summary data = \<lparr>tl_summary = summary, tl_data = data, tl_requires_confirmation = True\<rparr>"

definition quoted :: "string \<Rightarrow> string" where
  "quoted t = [CHR 0x27] @ t @ [CHR 0x27]"

definition ticked :: "string \<Rightarrow> string" where
  "ticked t = [CHR 0x60] @ t @ [CHR 0x60]"

definition require_tool_role :: "app_user \<Rightarrow> user_role \<Rightarrow> unit res" where
  "require_tool_role user minimum =
     (if role_rank (user_role_of user) < role_rank minimum then Inl ToolPermissionError else Inr ())"

text \<open>The database's \<^verbatim>\<open>LIKE\<close>: \<^verbatim>\<open>%\<close> any text, \<^verbatim>\<open>_\<close> any character, a backslash quotes the next one.\<close>

fun like :: "string \<Rightarrow> string \<Rightarrow> bool" where
  "like [] t = (t = [])"
| "like (p # ps) t =
     (if p = CHR ''%'' then like ps t \<or> (case t of [] \<Rightarrow> False | c # cs \<Rightarrow> like (p # ps) cs)
      else if p = CHR 0x5C then (case (ps, t) of (q # qs, c # cs) \<Rightarrow> q = c \<and> like qs cs | _ \<Rightarrow> False)
      else (case t of [] \<Rightarrow> False | c # cs \<Rightarrow> (p = CHR ''_'' \<or> p = c) \<and> like ps cs))"

definition ilike :: "string \<Rightarrow> string \<Rightarrow> bool" where
  "ilike pat t = like (py_lower pat) (py_lower t)"

definition find_campaign :: "app_user \<Rightarrow> string \<Rightarrow> db \<Rightarrow> campaign res" where
  "find_campaign user identifier s =
     (case Option.bind (uuid_of_str identifier) (\<lambda>i. tenant_campaign user i s) of
        Some c \<Rightarrow> Inr c
      | None \<Rightarrow>
          (case filter (\<lambda>c. camp_tenant_id c = user_tenant_id user \<and> ilike (''%'' @ identifier @ ''%'') (camp_name c)) (campaigns s) of
             [c] \<Rightarrow> Inr c
           | _ \<Rightarrow> Inl ToolError))"

definition campaign_data :: "campaign \<Rightarrow> dict" where
  "campaign_data c = [(''campaign_id'', JStr (uuid_str (camp_id c)))]"

definition tool_pause_campaign :: "instant \<Rightarrow> app_user \<Rightarrow> string \<Rightarrow> bool \<Rightarrow> db \<Rightarrow> (tool_result \<times> db) res" where
  "tool_pause_campaign now user identifier confirm s =
     (case require_tool_role user Manager of
        Inl err \<Rightarrow> Inl err
      | Inr _ \<Rightarrow>
     (case find_campaign user identifier s of
        Inl err \<Rightarrow> Inl err
      | Inr c \<Rightarrow> Inr
          (if camp_status c = Paused then (told (''Campaign '' @ quoted (camp_name c) @ '' is already paused.'') [], s)
           else if \<not> confirm
             then (ask (''Confirm: pause '' @ quoted (camp_name c) @ ''? This cancels every queued dispatch task. Running tasks ''
                         @ ''finish. Reply '' @ quoted ''yes'' @ '' or include '' @ ticked ''confirm: true'' @ '' to proceed.'')
                     (campaign_data c @ [(''campaign_name'', JStr (camp_name c))]), s)
           else (told (''Paused '' @ quoted (camp_name c) @ ''. Queued dispatch tasks cancelled.'')
                   (campaign_data c @ [(''status'', JStr ''paused'')]),
                 pause_campaign (user_env now user) c ''manual_via_assistant'' [] s))))"

definition tool_resume_campaign :: "state_machine \<Rightarrow> instant \<Rightarrow> app_user \<Rightarrow> string \<Rightarrow> db \<Rightarrow> (tool_result \<times> db) res" where
  "tool_resume_campaign sm now user identifier s =
     (case require_tool_role user Manager of
        Inl err \<Rightarrow> Inl err
      | Inr _ \<Rightarrow>
     (case find_campaign user identifier s of
        Inl err \<Rightarrow> Inl err
      | Inr c \<Rightarrow>
          if camp_status c \<noteq> Paused then Inl ToolError
          else map_sum id (\<lambda>(c', s'). (told (''Resumed '' @ quoted (camp_name c) @ ''. Dispatch tasks re-enqueued.'')
                   (campaign_data c @ [(''status'', JStr (campaign_status_value (camp_status c')))]), s'))
                 (apply_transition sm (user_env now user) c ''resume'' s)))"

definition tool_complete_campaign :: "state_machine \<Rightarrow> instant \<Rightarrow> app_user \<Rightarrow> string \<Rightarrow> bool \<Rightarrow> db \<Rightarrow> (tool_result \<times> db) res" where
  "tool_complete_campaign sm now user identifier confirm s =
     (case require_tool_role user Manager of
        Inl err \<Rightarrow> Inl err
      | Inr _ \<Rightarrow>
     (case find_campaign user identifier s of
        Inl err \<Rightarrow> Inl err
      | Inr c \<Rightarrow>
          if camp_status c = Completed then Inr (told (quoted (camp_name c) @ '' is already completed.'') [], s)
          else if \<not> confirm
            then Inr (ask (''Confirm: mark '' @ quoted (camp_name c) @ '' completed? This auto-generates an end-of-campaign ''
                        @ ''report and locks spend after reconciliation. Reply '' @ quoted ''yes'' @ '' to proceed.'') (campaign_data c), s)
          else map_sum id (\<lambda>(c', s'). (told (''Marked '' @ quoted (camp_name c) @ '' completed. Report generated.'')
                   (campaign_data c @ [(''status'', JStr (campaign_status_value (camp_status c'))),
                      (''report_link'', JStr (''/ui/campaigns/'' @ uuid_str (camp_id c) @ ''/report''))]), s'))
                 (apply_transition sm (user_env now user) c ''complete_campaign'' s)))"

definition tool_launch_campaign :: "app_user \<Rightarrow> string \<Rightarrow> bool \<Rightarrow> db \<Rightarrow> (tool_result \<times> db) res" where
  "tool_launch_campaign user identifier confirm s =
     (case require_tool_role user Manager of
        Inl err \<Rightarrow> Inl err
      | Inr _ \<Rightarrow>
     (case find_campaign user identifier s of
        Inl err \<Rightarrow> Inl err
      | Inr c \<Rightarrow>
          if camp_status c = Live then Inr (told (quoted (camp_name c) @ '' is already live.'') [], s)
          else if camp_status c \<noteq> ReadyToLaunch then Inl ToolError
          else Inr (if \<not> confirm
            then (ask (''Launch '' @ quoted (camp_name c) @ '' now? Distribution starts immediately.'') (campaign_data c), s)
            else (told (quoted (camp_name c) @ '' is now LIVE. Watch the KPI dashboard for traffic.'')
                    (campaign_data c @ [(''status'', JStr ''live''), (''link'', JStr (''/ui/campaigns/'' @ uuid_str (camp_id c)))]),
                  modify_campaign (camp_id c) (\<lambda>r. r\<lparr>camp_status := Live\<rparr>) s))))"

definition open_draft :: "content_asset \<Rightarrow> bool" where
  "open_draft a \<longleftrightarrow> asset_status_of a \<in> {ADrafted, APendingApproval}"

definition status_after :: "uuid \<Rightarrow> db \<Rightarrow> json" where
  "status_after i s = opt_json (JStr \<circ> campaign_status_value \<circ> camp_status) (get_campaign i s)"

definition approve_all_content ::
  "state_machine \<Rightarrow> instant \<Rightarrow> app_user \<Rightarrow> string \<Rightarrow> bool \<Rightarrow> db \<Rightarrow> (tool_result \<times> db) res" where
  "approve_all_content sm now user identifier confirm s =
     (case require_tool_role user Manager of
        Inl err \<Rightarrow> Inl err
      | Inr _ \<Rightarrow>
     (case find_campaign user identifier s of
        Inl err \<Rightarrow> Inl err
      | Inr c \<Rightarrow>
          (let wanted = (\<lambda>a. asset_campaign_id a = camp_id c \<and> asset_tenant_id a = user_tenant_id user \<and> open_draft a);
               n = length (filter wanted (assets s)); e = user_env now user
           in if n = 0 then Inr (told (''No drafts to approve on '' @ quoted (camp_name c) @ ''.'') (campaign_data c @ [(''approved'', JInt 0)]), s)
              else if \<not> confirm
                then Inr (ask (''Approve all '' @ digits n @ '' draft asset(s) on '' @ quoted (camp_name c)
                           @ '' in one click? Each approval will land in the audit log.'') (campaign_data c @ [(''count'', JInt (int n))]), s)
              else map_sum id (\<lambda>(advanced, s'). (told (''Approved '' @ digits n @ '' asset(s). ''
                         @ (if advanced = Some ReadyToLaunch
                            then ''Campaign is now in '' @ ticked ''ready_to_launch'' @ '' '' @ em_dash @ '' ready to go live.''
                            else ''Campaign is in '' @ ticked (py_str (status_after (camp_id c) s')) @ ''.''))
                       (campaign_data c @ [(''approved'', JInt (int n)), (''campaign_status'', status_after (camp_id c) s')]), s'))
                     (try_advance_after_approval sm e c
                        (s\<lparr>assets := update_where wanted (stamped e (with_status AApproved)) (assets s)\<rparr>)))))"

text \<open>\<^verbatim>\<open>any(isinstance(f, dict) and f.get("severity") == "blocker" for f in (flags or []))\<close>.\<close>

definition has_blocker :: "json \<Rightarrow> bool res" where
  "has_blocker flags =
     (if \<not> truthy flags then Inr False
      else case py_iter flags of
             None \<Rightarrow> Inl TypeError
           | Some fs \<Rightarrow> Inr (list_ex (\<lambda>f. case f of JObj d \<Rightarrow> dict_get d ''severity'' = JStr ''blocker'' | _ \<Rightarrow> False) fs))"

definition display_name :: "content_asset \<Rightarrow> string" where
  "display_name a = (case asset_title a of Some (c # cs) \<Rightarrow> c # cs | _ \<Rightarrow> uuid_str (asset_id a))"

definition decision_data :: "content_asset \<Rightarrow> string \<Rightarrow> dict" where
  "decision_data a status =
     [(''asset_id'', JStr (uuid_str (asset_id a))), (''campaign_id'', JStr (uuid_str (asset_campaign_id a))), (''status'', JStr status)]"

definition tool_asset :: "app_user \<Rightarrow> string \<Rightarrow> db \<Rightarrow> content_asset res" where
  "tool_asset user identifier s =
     (case uuid_of_str identifier of
        None \<Rightarrow> Inl ToolError
      | Some i \<Rightarrow> (case tenant_asset user i s of None \<Rightarrow> Inl ToolError | Some a \<Rightarrow> Inr a))"

definition advance_if_loaded :: "state_machine \<Rightarrow> env \<Rightarrow> app_user \<Rightarrow> uuid \<Rightarrow> db \<Rightarrow> (campaign_status option \<times> db) res" where
  "advance_if_loaded sm e user i s =
     (case tenant_campaign user i s of None \<Rightarrow> Inr (None, s) | Some camp \<Rightarrow> try_advance_after_approval sm e camp s)"

definition tool_approve_asset :: "state_machine \<Rightarrow> instant \<Rightarrow> app_user \<Rightarrow> string \<Rightarrow> db \<Rightarrow> (tool_result \<times> db) res" where
  "tool_approve_asset sm now user identifier s =
     (case require_tool_role user Manager of
        Inl err \<Rightarrow> Inl err
      | Inr _ \<Rightarrow>
     (case tool_asset user identifier s of
        Inl err \<Rightarrow> Inl err
      | Inr a \<Rightarrow>
          if asset_status_of a \<notin> {ADrafted, APendingApproval, ARejected} then Inl ToolError
          else (case has_blocker (dict_get (asset_metadata a) ''compliance_violations'') of
             Inl err \<Rightarrow> Inl err
           | Inr blocker \<Rightarrow>
               if blocker then Inl ToolError
               else map_sum id (\<lambda>(advanced, s'). (told (''Approved '' @ quoted (display_name a) @ ''.''
                        @ (if advanced = Some ReadyToLaunch
                           then '' Every required asset is approved '' @ em_dash @ '' campaign is now ready to launch.'' else []))
                      (decision_data a ''approved'' @ [(''campaign_status'', status_after (asset_campaign_id a) s')]), s'))
                    (advance_if_loaded sm (user_env now user) user (asset_campaign_id a)
                       (modify_asset (user_env now user) (asset_id a) (with_status AApproved) s)))))"

definition tool_rejected :: "string option \<Rightarrow> content_asset \<Rightarrow> content_asset" where
  "tool_rejected reason a =
     (case reason of Some (c # cs) \<Rightarrow> set_meta ''last_rejection_reason'' (JStr (c # cs)) (dropped a) | _ \<Rightarrow> dropped a)"

definition tool_reject_asset :: "state_machine \<Rightarrow> instant \<Rightarrow> app_user \<Rightarrow> string \<Rightarrow> string option \<Rightarrow> db \<Rightarrow> (tool_result \<times> db) res" where
  "tool_reject_asset sm now user identifier reason s =
     (case require_tool_role user Manager of
        Inl err \<Rightarrow> Inl err
      | Inr _ \<Rightarrow>
     (case tool_asset user identifier s of
        Inl err \<Rightarrow> Inl err
      | Inr a \<Rightarrow>
          if \<not> open_draft a then Inl ToolError
          else map_sum id (\<lambda>(_, s'). (told (''Rejected '' @ quoted (display_name a) @ ''. ''
                      @ (case reason of Some (c # cs) \<Rightarrow> c # cs | _ \<Rightarrow> ''(no reason given)''))
                   (decision_data a ''rejected'' @ [(''reason'', opt_json JStr reason), (''campaign_status'', status_after (asset_campaign_id a) s')]), s'))
                 (advance_if_loaded sm (user_env now user) user (asset_campaign_id a)
                    (modify_asset (user_env now user) (asset_id a) (tool_rejected reason) s))))"

definition show_pending_approvals :: "app_user \<Rightarrow> db \<Rightarrow> content_asset list res" where
  "show_pending_approvals user s =
     map_sum id (\<lambda>_. take 20 (sort_key (\<lambda>a. - asset_updated_at a)
         (filter (\<lambda>a. asset_tenant_id a = user_tenant_id user \<and> asset_status_of a = APendingApproval) (assets s))))
       (require_tool_role user Viewer)"

section \<open>Looking things up\<close>

lemma find_campaign_by_id:
  "tenant_campaign user i s = Some c \<Longrightarrow> i < 2 ^ 128 \<Longrightarrow> find_campaign user (uuid_str i) s = Inr c"
  by (simp add: find_campaign_def uuid_roundtrip)

lemma tool_asset_by_id:
  "tenant_asset user i s = Some a \<Longrightarrow> i < 2 ^ 128 \<Longrightarrow> tool_asset user (uuid_str i) s = Inr a"
  by (simp add: tool_asset_def uuid_roundtrip)

lemma tool_role: "role_rank Manager \<le> role_rank (user_role_of user) \<Longrightarrow> require_tool_role user Manager = Inr ()"
  by (simp add: require_tool_role_def)

text \<open>Guards that refuse leave the database as it is.\<close>

lemma submit_guard_fails:
  assumes "camp_status camp = ContentInProduction" "\<not> all_required_assets_drafted e camp s"
  shows "apply_transition (campaign_sm tc) e camp ''submit_for_approval'' s = Inl GuardFailedError"
proof -
  have "map_of (campaign_sm tc) (camp_status camp, ''submit_for_approval'') = Some (transition_of ''submit_for_approval''
      ContentInProduction ApprovalPending (Some all_required_assets_drafted) (Some flip_drafted_assets_to_pending_approval))"
    by (simp add: assms(1) campaign_sm_lookup builtin_transitions_def transition_of_def)
  with assms(2) show ?thesis by (simp add: apply_transition_def transition_of_def)
qed

lemma tenant_campaign_modify_asset [simp]: "tenant_campaign user j (modify_asset e i f s) = tenant_campaign user j s"
  by (simp add: tenant_campaign_def)

section \<open>What the other channels skip\<close>

text \<open>C21. The assistant approves what the compliance check has blocked: generation records its verdict under
  \<open>compliance\<close>, the tool looks under \<open>compliance_violations\<close>, which nothing writes. For a required asset of a
  campaign in production, marked blocked and without that second key, a manager's approval through the
  assistant succeeds although the approval endpoint refuses it, and leaves neither a decision nor an audit entry.\<close>

theorem assistant_approves_blocked_draft:
  assumes asset: "get_asset i s = Some a" "asset_tenant_id a = user_tenant_id user" "i < 2 ^ 128"
    and state: "asset_status_of a \<in> {ADrafted, APendingApproval, ARejected}" "asset_is_required a"
    and mark: "is_compliance_blocked a" "compliance_blocked a" "dict_get (asset_metadata a) ''compliance_violations'' = JNull"
    and camp: "tenant_campaign user (asset_campaign_id a) s = Some camp" "camp_status camp = ContentInProduction"
    and role: "role_rank Manager \<le> role_rank (user_role_of user)"
  shows "(\<exists>r s' a'. tool_approve_asset (campaign_sm tc) now user (uuid_str i) s = Inr (r, s')
      \<and> get_asset i s' = Some a' \<and> asset_status_of a' = AApproved \<and> is_compliance_blocked a'
      \<and> decisions s' = decisions s \<and> audit_log s' = audit_log s)
    \<and> (\<forall>sm now' body r. approve_asset sm now' user i body s \<noteq> Inr r)"
proof (intro conjI allI)
  let ?e = "user_env now user"
  let ?s1 = "modify_asset ?e i (with_status AApproved) s"
  let ?a = "stamped ?e (with_status AApproved) a"
  have id: "asset_id a = i" using get_asset_mem [OF asset(1)] by simp
  have row: "get_asset i ?s1 = Some ?a" by (simp add: get_modify_asset asset(1))
  have bl: "compliance_blocked ?a" "is_compliance_blocked ?a"
    using mark by (simp_all add: compliance_blocked_def is_compliance_blocked_def)
  have "camp_id camp = asset_campaign_id a" using camp(1) campaign_table.get_key by (auto simp: tenant_campaign_Some)
  then have "required_in camp ?a" using state(2) by (simp add: required_in_def)
  then have "\<not> all_required_assets_drafted ?e camp ?s1"
    using get_asset_mem [OF row] bl(1) by (auto simp: all_required_assets_drafted_def any_required_False)
  then have "try_advance_after_approval (campaign_sm tc) ?e camp ?s1 = Inr (None, ?s1)"
    using camp(2) by (simp add: try_advance_after_approval_def try_apply_def submit_guard_fails)
  then have adv: "advance_if_loaded (campaign_sm tc) ?e user (asset_campaign_id a) ?s1 = Inr (None, ?s1)"
    using camp(1) by (simp add: advance_if_loaded_def)
  have load: "tool_asset user (uuid_str i) s = Inr a" using asset by (simp add: tool_asset_by_id tenant_asset_Some)
  have "\<exists>r. tool_approve_asset (campaign_sm tc) now user (uuid_str i) s = Inr (r, ?s1)"
    unfolding tool_approve_asset_def tool_role [OF role] load sum.case
    using state(1) mark(3) adv by (auto simp: has_blocker_def id)
  then show "\<exists>r s' a'. tool_approve_asset (campaign_sm tc) now user (uuid_str i) s = Inr (r, s')
      \<and> get_asset i s' = Some a' \<and> asset_status_of a' = AApproved \<and> is_compliance_blocked a'
      \<and> decisions s' = decisions s \<and> audit_log s' = audit_log s"
    using row bl(2) by (fastforce simp: modify_defs)
  fix sm now' body r
  show "approve_asset sm now' user i body s \<noteq> Inr r"
    using asset(1) mark(1) by (cases r) (auto elim!: approve_asset_Inr simp: permitted_def)
qed

text \<open>C22. The assistant can make any campaign live: its pause goes around the state machine and accepts every
  state, and resuming has no guard, so two confirmed commands of a manager turn a campaign in any state,
  drafted and completed ones included, live.\<close>

theorem assistant_makes_any_campaign_live:
  assumes camp: "tenant_campaign user i s = Some camp" "i < 2 ^ 128" "camp_status camp \<noteq> Paused"
    and role: "role_rank Manager \<le> role_rank (user_role_of user)"
    and ag: "scalar_one_or_none (filter (\<lambda>a. ag_tenant_id a = camp_tenant_id camp \<and> ag_type a = ChannelDistribution)
      (agents s)) = Some (Some ag)"
  shows "\<exists>r1 s1 r2 s2. tool_pause_campaign now user (uuid_str i) True s = Inr (r1, s1)
    \<and> tool_resume_campaign (campaign_sm tc) now' user (uuid_str i) s1 = Inr (r2, s2)
    \<and> get_campaign i s2 = Some (camp\<lparr>camp_status := Live\<rparr>)"
proof -
  let ?e = "user_env now user" and ?c = "camp\<lparr>camp_status := Paused\<rparr>"
  let ?s1 = "pause_campaign ?e camp ''manual_via_assistant'' [] s"
  have get: "get_campaign i s = Some camp" "camp_tenant_id camp = user_tenant_id user" using camp(1) by (simp_all add: tenant_campaign_Some)
  have id: "camp_id camp = i" using campaign_table.get_key [OF get(1)] .
  have pause: "\<exists>r1. tool_pause_campaign now user (uuid_str i) True s = Inr (r1, ?s1)"
    unfolding tool_pause_campaign_def tool_role [OF role] find_campaign_by_id [OF camp(1,2)] using camp(3) by simp
  have tables: "campaigns ?s1 = campaigns (modify_campaign i (\<lambda>c. c\<lparr>camp_status := Paused\<rparr>) s)" "agents ?s1 = agents s"
    using camp(3) by (simp_all add: pause_campaign_def id cancel_queued_for_campaign_def Let_def write_audit_def modify_campaign_def)
  have "get_campaign i ?s1 = Some ?c"
    using get(1) tables(1) campaign_table.get_modify_same [of "\<lambda>c. c\<lparr>camp_status := Paused\<rparr>" i s camp] by (simp add: get_campaign_def)
  then have paused: "tenant_campaign user i ?s1 = Some ?c" using get(2) by (simp add: tenant_campaign_Some)
  obtain s2 where s2: "apply_transition (campaign_sm tc) (user_env now' user) ?c ''resume'' ?s1 = Inr (?c\<lparr>camp_status := Live\<rparr>, s2)"
  proof -
    have "\<exists>s2. apply_transition (campaign_sm tc) (user_env now' user) ?c ''resume'' ?s1 = Inr (?c\<lparr>camp_status := Live\<rparr>, s2)"
    proof (rule apply_resume)
      fix s2 :: db
      assume "agents s2 = agents ?s1"
      with ag tables(2) show "\<exists>n s'. resume_distribution_for_campaign (user_env now' user) (?c\<lparr>camp_status := Live\<rparr>) s2 = Inr (n, s')"
        by (intro resume_runs_with_agent [where ag = ag]) simp
    qed simp
    then show thesis using that by blast
  qed
  have "\<exists>r2. tool_resume_campaign (campaign_sm tc) now' user (uuid_str i) ?s1 = Inr (r2, s2)"
    unfolding tool_resume_campaign_def tool_role [OF role] find_campaign_by_id [OF paused camp(2)] using s2 by simp
  moreover have "get_campaign i s2 = Some (camp\<lparr>camp_status := Live\<rparr>)"
    using apply_transition_row [OF s2] paused id by (simp add: tenant_campaign_Some)
  ultimately show ?thesis using pause by blast
qed

text \<open>The review page does not apply the spending threshold: for an asset whose recorded threshold asks for an
  admin, the approval endpoint answers 403 to a manager, and the same manager approves it on the page.\<close>

theorem ui_approval_ignores_threshold:
  assumes asset: "tenant_asset user i s = Some a" "asset_status_of a = APendingApproval" "\<not> is_compliance_blocked a"
    and camp: "tenant_campaign user (asset_campaign_id a) s = Some camp" "camp_status camp = ApprovalPending"
    and role: "role_rank Manager \<le> role_rank (user_role_of user)" "user_role_of user \<noteq> Admin"
    and limit: "spending_limit ''admin_required_above_amount'' a camp = Some q" "q < of_int (camp_budget_total camp) / 100"
    and other: "b \<in> set (assets s)" "required_in camp b" "asset_id b \<noteq> i" "asset_status_of b \<noteq> AApproved"
  shows "(\<forall>sm now' body. approve_asset sm now' user i body s = Inl (HTTPException 403))
    \<and> (\<exists>d s' a'. approve_via_ui (campaign_sm tc) now user i [] s = Inr (Approved_Page d False False, s')
         \<and> get_asset i s' = Some a' \<and> asset_status_of a' = AApproved)"
proof (intro conjI allI)
  fix sm now' body
  have "approvable a" using asset(2) by (simp add: approvable_def)
  then show "approve_asset sm now' user i body s = Inl (HTTPException 403)"
    using approve_forbidden [OF asset(1) camp(1) role(1) _ asset(3) limit role(2)] by blast
next
  let ?e = "user_env now user"
  have get: "get_asset i s = Some a" using asset(1) by (simp add: tenant_asset_Some)
  have id: "asset_id a = i" using get_asset_mem [OF get] by simp
  obtain d s1 where d: "decide ?e user a DApproved None None AApproved ''approved'' [(''via'', JStr ''ui'')] s = (d, s1)" by force
  then have s1: "s1 = snd (decide ?e user a DApproved None None AApproved ''approved'' [(''via'', JStr ''ui'')] s)" by simp
  have "b \<in> set (assets s1)" using other(1,3) by (auto simp: s1 decide_assets id set_update_where)
  then have "\<not> all_required_assets_approved ?e camp s1"
    using other(2,4) by (auto simp: all_required_assets_approved_def any_required_False)
  then have adv: "try_advance_after_approval (campaign_sm tc) ?e camp s1 = Inr (None, s1)"
    using camp(2) by (simp add: try_advance_after_approval_def try_start_launch_def try_apply_def launch_guard_fails)
  have none: "form_text [] k = None" for k by (simp add: form_text_def)
  have "ui_edited (form_request []) a = Inr (None, a)"
    by (simp add: ui_edited_def form_request_def has_edits_def none collect_edited_fields_def map_filter_simps)
  moreover have "load_asset_and_campaign user i s = Inr (a, camp)" using asset(1) camp(1) by (simp add: load_Inr)
  moreover have "require_role Manager user = Inr user" using role(1) by (simp add: require_role_Inr)
  ultimately have "approve_via_ui (campaign_sm tc) now user i [] s = Inr (Approved_Page (dec_id d) False False, s1)"
    using asset(2,3) by (simp add: approve_via_ui_def none d adv)
  moreover have "get_asset i s1 = Some (stamped ?e (decided a AApproved) a)"
    by (simp add: s1 decide_get_asset id get)
  ultimately show "\<exists>d s' a'. approve_via_ui (campaign_sm tc) now user i [] s = Inr (Approved_Page d False False, s')
         \<and> get_asset i s' = Some a' \<and> asset_status_of a' = AApproved"
    by (fastforce simp: decided_def)
qed

section \<open>Concrete instances\<close>

theorem assistant_approves_blocked_draft_witness:
  "\<exists>r s'. tool_approve_asset (campaign_sm (\<lambda>_ _ _. False)) 5 (demo_user Manager) (uuid_str 20)
      (demo_db ContentInProduction (demo_asset TEmail ADrafted blocked_meta)) = Inr (r, s') \<and> audit_log s' = []"
proof -
  let ?a = "demo_asset TEmail ADrafted blocked_meta"
  let ?s = "demo_db ContentInProduction ?a"
  have bl: "is_compliance_blocked ?a" "compliance_blocked ?a"
    by (simp_all add: is_compliance_blocked_def compliance_blocked_def blocked_meta_def compliance_metadata_def dict_get_def blocked_def)
  have "dict_get (asset_metadata ?a) ''compliance_violations'' = JNull" by (simp add: blocked_meta_def dict_get_def)
  from assistant_approves_blocked_draft [OF _ _ _ _ _ bl this, where i = 20 and s = ?s and user = "demo_user Manager"
      and camp = "demo_campaign ContentInProduction" and tc = "\<lambda>_ _ _. False" and now = 5]
  show ?thesis by auto
qed

definition archive_db :: db where
  "archive_db = (demo_db Completed (demo_asset TEmail APublished []))
     \<lparr>agents := [\<lparr>ag_id = 9, ag_tenant_id = 1, ag_name = ''Channel Distribution'', ag_type = ChannelDistribution\<rparr>]\<rparr>"

theorem assistant_makes_any_campaign_live_witness:
  "\<exists>r1 s1 r2 s2. tool_pause_campaign 5 (demo_user Manager) (uuid_str 7) True archive_db = Inr (r1, s1)
    \<and> tool_resume_campaign (campaign_sm (\<lambda>_ _ _. False)) 6 (demo_user Manager) (uuid_str 7) s1 = Inr (r2, s2)
    \<and> get_campaign 7 s2 = Some (demo_campaign Live)"
proof -
  have camp: "tenant_campaign (demo_user Manager) 7 archive_db = Some (demo_campaign Completed)"
    by (simp add: archive_db_def tenant_campaign_Some get_campaign_def find_row_def)
  have ag: "scalar_one_or_none (filter (\<lambda>a. ag_tenant_id a = camp_tenant_id (demo_campaign Completed) \<and> ag_type a = ChannelDistribution)
      (agents archive_db)) = Some (Some (hd (agents archive_db)))" by (simp add: archive_db_def)
  from assistant_makes_any_campaign_live [OF camp _ _ _ ag, of 5 "\<lambda>_ _ _. False" 6] show ?thesis by simp
qed

definition costly_meta :: dict where
  "costly_meta = [(''approval_threshold'', JObj [(''admin_required_above_amount'', JStr (money_str 100000)), (''currency'', JStr ''USD'')])]"

definition costly_db :: db where
  "costly_db = (demo_db ApprovalPending (demo_asset TEmail APendingApproval costly_meta))
     \<lparr>assets := [demo_asset TEmail APendingApproval costly_meta, (demo_asset TEmail APendingApproval [])\<lparr>asset_id := 21\<rparr>]\<rparr>"

theorem ui_approval_ignores_threshold_witness:
  "approve_asset (campaign_sm (\<lambda>_ _ _. False)) 5 (demo_user Manager) 20 plain_approval costly_db = Inl (HTTPException 403)
   \<and> (\<exists>d s' a'. approve_via_ui (campaign_sm (\<lambda>_ _ _. False)) 5 (demo_user Manager) 20 [] costly_db = Inr (Approved_Page d False False, s')
        \<and> get_asset 20 s' = Some a' \<and> asset_status_of a' = AApproved)"
proof -
  let ?a = "demo_asset TEmail APendingApproval costly_meta"
  let ?b = "(demo_asset TEmail APendingApproval [])\<lparr>asset_id := 21\<rparr>"
  have rows: "tenant_asset (demo_user Manager) 20 costly_db = Some ?a"
    "tenant_campaign (demo_user Manager) (asset_campaign_id ?a) costly_db = Some (demo_campaign ApprovalPending)"
    by (simp_all add: costly_db_def tenant_asset_Some tenant_campaign_Some get_asset_def get_campaign_def find_row_def)
  have nb: "\<not> is_compliance_blocked ?a" by (simp add: is_compliance_blocked_def costly_meta_def dict_get_def)
  have lim: "spending_limit ''admin_required_above_amount'' ?a (demo_campaign ApprovalPending) = Some (of_int 100000 / 100)"
    by (simp add: spending_limit_def costly_meta_def dict_get_def currency_of_def Let_def demo_campaign_def money_roundtrip)
  have b: "?b \<in> set (assets costly_db)" "required_in (demo_campaign ApprovalPending) ?b" "asset_id ?b \<noteq> 20" "asset_status_of ?b \<noteq> AApproved"
    by (simp_all add: costly_db_def required_in_def)
  have "(of_int 100000 / 100 :: rat) < of_int (camp_budget_total (demo_campaign ApprovalPending)) / 100" by (simp add: demo_campaign_def)
  from ui_approval_ignores_threshold [OF rows(1) _ nb rows(2) _ _ _ lim this b, where tc = "\<lambda>_ _ _. False" and now = 5]
  show ?thesis by simp
qed

end
