(* ===== verification/Worker.thy ===== *)
theory Worker
  imports Review_Channels Dispatch
begin

text \<open>
  The worker process: the skill registry (\<^verbatim>\<open>app/orchestrator/registry.py\<close>), the built-in handlers
  (\<^verbatim>\<open>app/orchestrator/handlers\<close>) with the tool registry (\<^verbatim>\<open>app/tools/base.py\<close>, \<^verbatim>\<open>app/tools/__init__.py\<close>) and the stub tools,
  and \<^verbatim>\<open>run_once\<close> (\<^verbatim>\<open>app/orchestrator/worker.py\<close>). \<open>agents\<close> holds what is outside or not modelled: the handlers
  of the audience and the strategist agents, the A/B-testing tool, the provider connections, the
  language model and whether a key for it is configured. \<open>describe\<close> is the text of an exception.
\<close>

section \<open>Registries\<close>

text \<open>
  A handler's outcome is what it returned or raised, with the database as its transaction left it: the
  changes of one that raised are rolled back unless it committed them itself.
\<close>

type_synonym handler = "env \<Rightarrow> task \<Rightarrow> db \<Rightarrow> dict res \<times> db"

type_synonym registry = "(string \<times> handler) list"

definition register_handler :: "string \<Rightarrow> handler \<Rightarrow> registry \<Rightarrow> registry" where
  "register_handler skill h reg = AList.update skill h reg"

definition get_handler :: "registry \<Rightarrow> string \<Rightarrow> handler option" where
  "get_handler reg skill = map_of reg skill"

definition registered_skills :: "registry \<Rightarrow> string list" where
  "registered_skills reg = sort (map fst reg)"

type_synonym tool = "dict \<Rightarrow> dict res"

definition register_tool :: "string \<times> tool \<Rightarrow> (string \<times> tool) list \<Rightarrow> (string \<times> tool) list res" where
  "register_tool t reg = (if map_of reg (fst t) \<noteq> None then Inl ValueError else Inr (reg @ [t]))"

section \<open>Tools and their handler\<close>

definition echo_tool :: tool where
  "echo_tool inputs = Inr (filter (\<lambda>(k, _). k \<noteq> ''__attempt__'') inputs)"

definition int_arg :: "json \<Rightarrow> int res" where
  "int_arg v = (case py_int v of Some i \<Rightarrow> Inr i | None \<Rightarrow> Inl (case v of JStr _ \<Rightarrow> ValueError | _ \<Rightarrow> TypeError))"

definition flaky_tool :: tool where
  "flaky_tool inputs =
     (case int_arg (dict_get_default inputs ''__attempt__'' (JInt 1)) of
        Inl err \<Rightarrow> Inl err
      | Inr attempt \<Rightarrow>
     (case int_arg (dict_get_default inputs ''fail_count'' (JInt 2)) of
        Inl err \<Rightarrow> Inl err
      | Inr fail_count \<Rightarrow>
          if attempt \<le> fail_count then Inl RuntimeError else Inr [(''succeeded_on_attempt'', JInt attempt)]))"

definition agent_log_emit :: "uuid \<Rightarrow> uuid \<Rightarrow> uuid option \<Rightarrow> string \<Rightarrow> dict \<Rightarrow> string \<Rightarrow> db \<Rightarrow> db" where
  "agent_log_emit tenant agent task action data severity s =
     s\<lparr>agent_logs := agent_logs s @ [\<lparr>al_tenant_id = tenant, al_agent_id = agent, al_task_id = task, al_action = action,
        al_log_data = data, al_severity = severity\<rparr>]\<rparr>"

text \<open>The handler of a tool commits its log row before it raises. \<open>latency\<close> is the measured duration.\<close>

definition tool_handler :: "(py_error \<Rightarrow> string) \<Rightarrow> int \<Rightarrow> string \<times> tool \<Rightarrow> handler" where
  "tool_handler describe latency = (\<lambda>(name, call) e t s.
     let inputs = dict_set (task_input_data t) ''__attempt__'' (JInt (task_attempt t));
         head = [(''tool'', JStr name), (''latency_ms'', JInt latency), (''attempt'', JInt (task_attempt t))]
     in case call inputs of
          Inl err \<Rightarrow> (Inl err, agent_log_emit (task_tenant_id t) (task_agent_id t) (Some (task_id t)) (''tool.'' @ name @ ''.failed'')
                       (head @ [(''error'', JStr (describe err))]) ''error'' s)
        | Inr out \<Rightarrow> (Inr out, agent_log_emit (task_tenant_id t) (task_agent_id t) (Some (task_id t)) (''tool.'' @ name @ ''.succeeded'')
                       (head @ [(''inputs'', JObj (filter (\<lambda>(k, _). k \<noteq> ''__attempt__'') inputs)), (''outputs'', JObj out)]) ''info'' s))"

section \<open>Handlers of the agents\<close>

record agents_env =
  ae_outside :: outside
  ae_configured :: bool  \<comment> \<open>a key for the language model is set\<close>
  ae_client :: "nat \<Rightarrow> client"  \<comment> \<open>the model, by drafting round\<close>
  ae_loads :: "string \<Rightarrow> json option"
  ae_regex :: "string \<Rightarrow> (string \<Rightarrow> (nat \<times> nat) list) option"
  ae_ab_testing :: tool
  ae_materialise :: handler
  ae_propose :: handler
  ae_describe :: "py_error \<Rightarrow> string"
  ae_latency :: int

text \<open>\<^verbatim>\<open>async with session.begin()\<close>: a transaction that raised leaves the database as it was.\<close>

definition in_transaction :: "db \<Rightarrow> dict res \<times> db \<Rightarrow> dict res \<times> db" where
  "in_transaction s r = (fst r, case fst r of Inl _ \<Rightarrow> s | Inr _ \<Rightarrow> snd r)"

definition echo_handler :: handler where
  "echo_handler e t s = (Inr (task_input_data t), s)"

text \<open>\<^verbatim>\<open>UUID(inputs["asset_id"])\<close>.\<close>

definition uuid_arg :: "dict \<Rightarrow> string \<Rightarrow> uuid res" where
  "uuid_arg inputs k =
     (case map_of inputs k of
        None \<Rightarrow> Inl KeyError
      | Some (JStr t) \<Rightarrow> (case uuid_of_str t of None \<Rightarrow> Inl ValueError | Some i \<Rightarrow> Inr i)
      | Some JNull \<Rightarrow> Inl TypeError
      | Some _ \<Rightarrow> Inl AttributeError)"

definition campaign_machine :: "agents_env \<Rightarrow> state_machine" where
  "campaign_machine ae = campaign_sm (out_typed_column (ae_outside ae))"

definition content_creator_generate_asset_handler :: "agents_env \<Rightarrow> handler" where
  "content_creator_generate_asset_handler ae e t s =
     (if \<not> ae_configured ae then (Inl NotConfiguredError, s)
      else case uuid_arg (task_input_data t) ''asset_id'' of
             Inl err \<Rightarrow> (Inl err, s)
           | Inr i \<Rightarrow> in_transaction s
               (generate_asset (\<lambda>k. copywriting_call (ae_client ae k) (ae_loads ae)) seo_call (ae_regex ae)
                  (ae_describe ae ComplianceCheckError) (campaign_machine ae) e i s))"

definition row_status :: "uuid \<Rightarrow> db \<Rightarrow> json" where
  "row_status i s = opt_json (JStr \<circ> asset_status_value \<circ> asset_status_of) (get_asset i s)"

definition outcome_head :: "uuid \<Rightarrow> db \<Rightarrow> dict" where
  "outcome_head i s = [(''asset_id'', JStr (uuid_str i)), (''status'', row_status i s)]"

definition email_output :: "uuid \<Rightarrow> dispatch_outcome \<times> db \<Rightarrow> dict" where
  "email_output i = (\<lambda>(r, s). outcome_head i s @
     (case r of Campaign_Paused \<Rightarrow> [(''error'', JStr ''campaign_paused'')] | Dispatched summary \<Rightarrow> [(''summary'', JObj summary)]))"

definition social_output :: "uuid \<Rightarrow> social_outcome \<times> db \<Rightarrow> dict" where
  "social_output i = (\<lambda>(r, s). outcome_head i s @
     (case r of
        Social_Paused \<Rightarrow> [(''error'', JStr ''campaign_paused'')]
      | Social_Revoked m \<Rightarrow> [(''error'', JStr ''oauth_revoked''), (''message'', JStr m)]
      | Social_Posted p u \<Rightarrow> [(''provider_post_id'', JStr p), (''url'', JStr u)]))"

definition ran :: "db \<Rightarrow> ('a \<times> db) res \<Rightarrow> ('a \<times> db \<Rightarrow> dict) \<Rightarrow> dict res \<times> db" where
  "ran s r out = (case r of Inl err \<Rightarrow> (Inl err, s) | Inr x \<Rightarrow> (Inr (out x), snd x))"

definition distribution_dispatch_email_handler :: "agents_env \<Rightarrow> handler" where
  "distribution_dispatch_email_handler ae e t s =
     (case uuid_arg (task_input_data t) ''asset_id'' of
        Inl err \<Rightarrow> (Inl err, s)
      | Inr i \<Rightarrow> ran s (dispatch_email_asset (ae_outside ae) e i s) (email_output i))"

definition distribution_dispatch_social_handler :: "agents_env \<Rightarrow> handler" where
  "distribution_dispatch_social_handler ae e t s =
     (case uuid_arg (task_input_data t) ''asset_id'' of
        Inl err \<Rightarrow> (Inl err, s)
      | Inr i \<Rightarrow> ran s (dispatch_social_asset (ae_outside ae) e i s) (social_output i))"

definition register_builtin_tools :: "agents_env \<Rightarrow> (string \<times> tool) list res" where
  "register_builtin_tools ae =
     for_each register_tool
       ([(''echo_tool'', echo_tool), (''flaky_tool'', flaky_tool), (''seo.analysis'', seo_call), (''ab.testing'', ae_ab_testing ae)]
        @ (if ae_configured ae then [(''copywriting.generate'', copywriting_call (ae_client ae 0) (ae_loads ae))] else [])) []"

definition register_tool_handlers :: "agents_env \<Rightarrow> (string \<times> tool) list \<Rightarrow> registry \<Rightarrow> registry" where
  "register_tool_handlers ae tools =
     fold (\<lambda>tl. register_handler (fst tl) (tool_handler (ae_describe ae) (ae_latency ae) tl)) tools"

definition register_builtin_handlers :: "agents_env \<Rightarrow> registry res" where
  "register_builtin_handlers ae =
     (let reg = fold (\<lambda>(skill, h). register_handler skill h)
            [(''echo'', echo_handler), (''audience_targeting.materialise'', ae_materialise ae),
             (''campaign_strategist.propose'', ae_propose ae),
             (''content_creator.generate_asset'', content_creator_generate_asset_handler ae),
             (''distribution.dispatch_email'', distribution_dispatch_email_handler ae),
             (''distribution.dispatch_social'', distribution_dispatch_social_handler ae)] []
      in map_sum id (\<lambda>tools. register_tool_handlers ae tools reg) (register_builtin_tools ae))"

section \<open>One round of the worker\<close>

text \<open>
  Three transactions: claim, handle, settle, at the times of \<open>e1\<close>, \<open>e2\<close>, \<open>e3\<close>; \<open>draw\<close> is the jitter of a retry and
  \<open>locked\<close> the rows other workers hold. The flag says whether a task was handled.
\<close>

definition settle_failure :: "env \<Rightarrow> rat \<Rightarrow> uuid \<Rightarrow> string \<Rightarrow> bool \<Rightarrow> db \<Rightarrow> (bool \<times> db) res" where
  "settle_failure e draw i err permanent s = map_sum id (\<lambda>(_, s'). (True, s')) (fail_task e draw i err permanent s)"

definition no_handler_message :: "string \<Rightarrow> string" where
  "no_handler_message skill = ''no handler registered for skill '' @ quoted skill"

definition run_once ::
  "registry \<Rightarrow> (py_error \<Rightarrow> string) \<Rightarrow> string \<Rightarrow> uuid set \<Rightarrow> rat \<Rightarrow> env \<Rightarrow> env \<Rightarrow> env \<Rightarrow> db \<Rightarrow> (bool \<times> db) res" where
  "run_once reg describe worker locked draw e1 e2 e3 s =
     (case claim_next e1 worker 300 locked s of
        (None, s1) \<Rightarrow> Inr (False, s1)
      | (Some t, s1) \<Rightarrow>
          (case get_handler reg (task_skill_name t) of
             None \<Rightarrow> settle_failure e2 draw (task_id t) (no_handler_message (task_skill_name t)) True s1
           | Some h \<Rightarrow>
               (case h e2 t s1 of
                  (Inl err, s2) \<Rightarrow> settle_failure e3 draw (task_id t) (describe err) False s2
                | (Inr out, s2) \<Rightarrow> Inr (True, complete e3 (task_id t) out s2))))"

text \<open>One round of the reaper beside it.\<close>

definition reap_once :: "env \<Rightarrow> db \<Rightarrow> db" where
  "reap_once e s = snd (reap_expired_leases e s)"

section \<open>The contract between the worker and its handlers\<close>

text \<open>
  What a handler may do to the task table: nothing, or cancel tasks that are still to be claimed.
\<close>

definition task_kept :: "task \<Rightarrow> task \<Rightarrow> bool" where
  "task_kept u u' \<longleftrightarrow> u' = u \<or> claimable (task_status_of u) \<and> task_id u' = task_id u
     \<and> task_skill_name u' = task_skill_name u \<and> task_status_of u' = TCancelled"

definition tasks_kept :: "db \<Rightarrow> db \<Rightarrow> bool" where
  "tasks_kept s s' \<longleftrightarrow> list_all2 task_kept (tasks s) (tasks s')"

lemma task_kept_refl [simp]: "task_kept u u"
  by (simp add: task_kept_def)

lemma tasks_kept_same: "tasks s' = tasks s \<Longrightarrow> tasks_kept s s'"
  by (simp add: tasks_kept_def list.rel_refl)

lemma tasks_kept_cancel:
  assumes "tasks s' = update_where (cancellable c) (cancelled e) (tasks s)"
  shows "tasks_kept s s'"
  unfolding tasks_kept_def assms update_where_def
  by (rule list_all2I) (auto simp: zip_map2 task_kept_def cancellable_def cancelled_def set_zip)

lemma get_task_kept:
  assumes "tasks_kept s s'" "get_task i s = Some u" "task_status_of u = TRunning"
  shows "get_task i s' = Some u"
proof -
  have "list_all2 task_kept xs ys \<Longrightarrow> find_row (\<lambda>t. task_id t = i) xs = Some u \<Longrightarrow> find_row (\<lambda>t. task_id t = i) ys = Some u" for xs ys
    by (induction rule: list_all2_induct)
      (use assms(3) in \<open>auto simp: find_row_def task_kept_def claimable_def split: if_splits\<close>)
  with assms(1,2) show ?thesis by (simp add: tasks_kept_def get_task_def)
qed

lemma tasks_kept_ids: "tasks_kept s s' \<Longrightarrow> map task_id (tasks s') = map task_id (tasks s)"
  unfolding tasks_kept_def by (induction rule: list_all2_induct) (auto simp: task_kept_def)

lemma tasks_kept_skills:
  "tasks_kept s s' \<Longrightarrow> map task_skill_name (tasks s') = map task_skill_name (tasks s)"
  unfolding tasks_kept_def by (induction rule: list_all2_induct) (auto simp: task_kept_def)

definition ready_count :: "instant \<Rightarrow> uuid set \<Rightarrow> db \<Rightarrow> nat" where
  "ready_count now locked s = length (filter (ready now locked) (tasks s))"

lemma ready_count_kept: "tasks_kept s s' \<Longrightarrow> ready_count now locked s' \<le> ready_count now locked s"
  unfolding tasks_kept_def ready_count_def
  by (induction rule: list_all2_induct) (auto simp: task_kept_def ready_def claimable_def)

text \<open>
  A handler keeps the running tasks, and one that raises leaves at most rows of the agent log behind.
\<close>

locale task_handler =
  fixes h :: handler
  assumes handler_keeps: "h e t s = (r, s') \<Longrightarrow> tasks_kept s s'"
    and handler_rolls_back: "h e t s = (Inl err, s') \<Longrightarrow> s' = s\<lparr>agent_logs := agent_logs s'\<rparr>"
begin

lemma leased_task_kept:
  "h e t s = (r, s') \<Longrightarrow> get_task i s = Some u \<Longrightarrow> task_status_of u = TRunning \<Longrightarrow> get_task i s' = Some u"
  using get_task_kept handler_keeps by blast

end

lemma in_transaction_Inl: "in_transaction s r = (Inl err, s') \<Longrightarrow> s' = s"
  by (auto simp: in_transaction_def)

lemma ran_Inl: "ran s r out = (Inl err, s') \<Longrightarrow> s' = s"
  by (auto simp: ran_def split: sum.splits)

interpretation echo: task_handler echo_handler
  by unfold_locales (auto simp: echo_handler_def tasks_kept_same)

interpretation tools: task_handler "tool_handler describe latency tl" for describe latency tl
  by unfold_locales
    (auto simp: tool_handler_def Let_def agent_log_emit_def tasks_kept_same split: prod.splits sum.splits)

lemma maybe_submit_tasks:
  assumes "maybe_submit_for_approval (campaign_sm tc) e camp s = Inr s'"
  shows "tasks s' = tasks s"
proof -
  have "tasks s1 = tasks s" if run: "apply_transition (campaign_sm tc) e camp ''submit_for_approval'' s = Inr (c, s1)" for c s1
  proof -
    from run obtain tr s2 where tr: "tr \<in> set (builtin_transitions tc)" "tr_name tr = ''submit_for_approval''"
      and s2: "s2 = write_audit e (camp_tenant_id camp) ''campaign'' (camp_id camp) ''transition_applied''
            (Some (status_dict (camp_status camp))) (Some (status_dict (tr_to tr))) [(''transition'', JStr ''submit_for_approval'')]
            (modify_campaign (camp_id camp) (\<lambda>c. c\<lparr>camp_status := tr_to tr\<rparr>) s)"
        "case tr_on_enter tr of None \<Rightarrow> s1 = s2 | Some h \<Rightarrow> h e c s2 = Inr s1"
      by (rule apply_transition_Inr)
    have "flip_drafted_assets_to_pending_approval e c s2 = Inr s1" using s2(2) builtin_named(1) [OF tr] by simp
    then have "tasks s1 = tasks s2" by (auto simp: flip_drafted_assets_to_pending_approval_def split: if_splits option.splits)
    then show ?thesis by (simp add: s2(1))
  qed
  then show ?thesis
    using assms by (auto simp: maybe_submit_for_approval_def try_apply_Some split: if_splits option.splits)
qed

lemma generate_asset_tasks:
  assumes "generate_asset copy seo rxc message (campaign_sm tc) e i s = (Inr out, s')"
  shows "tasks s' = tasks s"
  using assms
proof (cases rule: generate_asset_Inr)
  case (drafted asset camp plan s2)
  have "tasks s2 = tasks s" using drafted(3) by (rule run_generation_Inr) simp
  with maybe_submit_tasks [OF drafted(4)] show ?thesis by simp
qed simp

interpretation content: task_handler "content_creator_generate_asset_handler ae" for ae
proof unfold_locales
  fix e t s r s'
  assume run: "content_creator_generate_asset_handler ae e t s = (r, s')"
  have "tasks s' = tasks s"
  proof (cases r)
    case (Inl err)
    with run have "s' = s"
      by (auto simp: content_creator_generate_asset_handler_def in_transaction_def split: if_splits sum.splits)
    then show ?thesis by simp
  next
    case (Inr out)
    with run show ?thesis
      by (auto simp: content_creator_generate_asset_handler_def campaign_machine_def in_transaction_def
          split: if_splits sum.splits intro!: generate_asset_tasks prod_eqI)
  qed
  then show "tasks_kept s s'" by (rule tasks_kept_same)
next
  fix e t s err s'
  assume "content_creator_generate_asset_handler ae e t s = (Inl err, s')"
  then have "s' = s"
    by (auto simp: content_creator_generate_asset_handler_def in_transaction_def split: if_splits sum.splits)
  then show "s' = s\<lparr>agent_logs := agent_logs s'\<rparr>" by simp
qed

lemma dispatch_email_tasks:
  assumes "dispatch_email_asset out e i s = Inr (r, s')"
  shows "tasks s' = tasks s"
proof (cases r)
  case Campaign_Paused
  with assms show ?thesis
    by (auto simp: dispatch_email_asset_def split: option.splits if_splits sum.splits)
next
  case (Dispatched summary)
  from assms [unfolded Dispatched] obtain asset camp conn payload ms l f s2 where
    send: "send_to_audience out e conn payload asset ms f (s\<lparr>assignments := l\<rparr>) = Inr (summary, s2)"
    and live: "maybe_go_live (campaign_sm (out_typed_column out)) e camp s2 = Inr s'"
    by (rule dispatch_email_run)
  from send have "tasks s2 = tasks s" by (rule send_to_audience_run) (simp add: publish_asset_def)
  with maybe_go_live_frame [OF live] show ?thesis by simp
qed

interpretation email: task_handler "distribution_dispatch_email_handler ae" for ae
proof unfold_locales
  fix e t s r s'
  assume "distribution_dispatch_email_handler ae e t s = (r, s')"
  then have "tasks s' = tasks s"
    by (auto simp: distribution_dispatch_email_handler_def ran_def split: sum.splits dest: dispatch_email_tasks)
  then show "tasks_kept s s'" by (rule tasks_kept_same)
next
  fix e t s err s'
  assume "distribution_dispatch_email_handler ae e t s = (Inl err, s')"
  then have "s' = s" by (auto simp: distribution_dispatch_email_handler_def split: sum.splits dest: ran_Inl)
  then show "s' = s\<lparr>agent_logs := agent_logs s'\<rparr>" by simp
qed

lemma dispatch_social_tasks:
  assumes "dispatch_social_asset out e i s = Inr (r, s')"
  shows "tasks_kept s s'"
  using assms
proof (cases rule: dispatch_social_run)
  case (revoked asset camp ch message)
  have "tasks s' = update_where (cancellable (camp_id camp)) (cancelled e) (tasks s)"
    using revoked(3,5) by (simp add: pause_campaign_on_oauth_revoked_def pause_campaign_def cancel_queued_for_campaign_def Let_def
        modify_campaign_def write_audit_def)
  then show ?thesis by (rule tasks_kept_cancel)
next
  case (posted asset camp ch conn tok body rr)
  have "tasks s' = tasks (record_post e asset ch rr s)" using maybe_go_live_frame [OF posted(5)] by simp
  then show ?thesis by (intro tasks_kept_same) (simp add: record_post_def)
qed (simp add: tasks_kept_same)

interpretation social: task_handler "distribution_dispatch_social_handler ae" for ae
proof unfold_locales
  fix e t s r s'
  assume "distribution_dispatch_social_handler ae e t s = (r, s')"
  then show "tasks_kept s s'"
    by (auto simp: distribution_dispatch_social_handler_def ran_def tasks_kept_same split: sum.splits dest: dispatch_social_tasks)
next
  fix e t s err s'
  assume "distribution_dispatch_social_handler ae e t s = (Inl err, s')"
  then have "s' = s" by (auto simp: distribution_dispatch_social_handler_def split: sum.splits dest: ran_Inl)
  then show "s' = s\<lparr>agent_logs := agent_logs s'\<rparr>" by simp
qed

section \<open>The built-in registry\<close>

lemma get_register_handler:
  "get_handler (register_handler k h reg) k' = (if k = k' then Some h else get_handler reg k')"
  by (simp add: get_handler_def register_handler_def update_conv')

lemma get_fold_register:
  "get_handler (fold (\<lambda>x. register_handler (f x) (g x)) xs reg) k = Some h \<Longrightarrow>
     (\<exists>x\<in>set xs. f x = k \<and> h = g x) \<or> get_handler reg k = Some h"
  by (induction xs arbitrary: reg) (fastforce simp: get_register_handler split: if_splits)+

lemma get_fold_register_other:
  "k \<notin> f ` set xs \<Longrightarrow> get_handler (fold (\<lambda>x. register_handler (f x) (g x)) xs reg) k = get_handler reg k"
  by (induction xs arbitrary: reg) (auto simp: get_register_handler)

definition builtin_tools :: "agents_env \<Rightarrow> (string \<times> tool) list" where
  "builtin_tools ae =
     [(''echo_tool'', echo_tool), (''flaky_tool'', flaky_tool), (''seo.analysis'', seo_call), (''ab.testing'', ae_ab_testing ae)]
     @ (if ae_configured ae then [(''copywriting.generate'', copywriting_call (ae_client ae 0) (ae_loads ae))] else [])"

lemma register_builtin_tools_eq: "register_builtin_tools ae = Inr (builtin_tools ae)"
  by (simp add: register_builtin_tools_def builtin_tools_def register_tool_def)

definition agent_handlers :: "agents_env \<Rightarrow> (string \<times> handler) list" where
  "agent_handlers ae =
     [(''echo'', echo_handler), (''audience_targeting.materialise'', ae_materialise ae),
      (''campaign_strategist.propose'', ae_propose ae),
      (''content_creator.generate_asset'', content_creator_generate_asset_handler ae),
      (''distribution.dispatch_email'', distribution_dispatch_email_handler ae),
      (''distribution.dispatch_social'', distribution_dispatch_social_handler ae)]"

definition builtin_registry :: "agents_env \<Rightarrow> registry" where
  "builtin_registry ae = register_tool_handlers ae (builtin_tools ae)
     (fold (\<lambda>x. register_handler (fst x) (snd x)) (agent_handlers ae) [])"

text \<open>Registration cannot fail: the names of the tools are distinct.\<close>

lemma register_builtin_handlers_eq: "register_builtin_handlers ae = Inr (builtin_registry ae)"
  unfolding register_builtin_handlers_def Let_def register_builtin_tools_eq builtin_registry_def agent_handlers_def
  by (simp add: case_prod_beta)

definition unmodelled_skills :: "string set" where
  "unmodelled_skills = {''audience_targeting.materialise'', ''campaign_strategist.propose''}"

lemma builtin_contract:
  assumes "get_handler (builtin_registry ae) skill = Some h" "skill \<notin> unmodelled_skills"
  shows "task_handler h"
proof -
  have "(\<exists>tl\<in>set (builtin_tools ae). h = tool_handler (ae_describe ae) (ae_latency ae) tl)
      \<or> get_handler (fold (\<lambda>x. register_handler (fst x) (snd x)) (agent_handlers ae) []) skill = Some h"
    using get_fold_register [OF assms(1) [unfolded builtin_registry_def register_tool_handlers_def]] by blast
  moreover have "\<exists>x\<in>set (agent_handlers ae). fst x = skill \<and> h = snd x"
    if "get_handler (fold (\<lambda>x. register_handler (fst x) (snd x)) (agent_handlers ae) []) skill = Some h"
    using get_fold_register [OF that] by (simp add: get_handler_def)
  moreover have "task_handler (snd x)" if "x \<in> set (agent_handlers ae)" "fst x \<notin> unmodelled_skills" for x
    using that echo.task_handler_axioms content.task_handler_axioms email.task_handler_axioms social.task_handler_axioms
    by (auto simp: agent_handlers_def unmodelled_skills_def)
  ultimately show ?thesis using assms(2) tools.task_handler_axioms by blast
qed

lemma builtin_generate_handler:
  "get_handler (builtin_registry ae) ''content_creator.generate_asset'' = Some (content_creator_generate_asset_handler ae)"
  unfolding builtin_registry_def register_tool_handlers_def
  by (subst get_fold_register_other) (auto simp: builtin_tools_def agent_handlers_def get_register_handler)

section \<open>One round settles one task\<close>

lemma delay_positive: "0 \<le> draw \<Longrightarrow> 0 < compute_next_attempt_delay draw n"
proof -
  assume d: "0 \<le> draw"
  let ?delay = "min (backoff_base_seconds * 2 ^ nat n) backoff_max_seconds"
  have "(1::rat) \<le> 2 ^ nat n" by simp
  then have delay: "30 \<le> ?delay" by (simp add: backoff_base_seconds_def backoff_max_seconds_def)
  then have "0 \<le> draw * (?delay * backoff_jitter_fraction)" using d by (simp add: backoff_jitter_fraction_def)
  with delay have "30 \<le> ?delay + draw * (?delay * backoff_jitter_fraction)" by linarith
  moreover have "30 \<le> x \<Longrightarrow> of_int 1 \<le> x * of_int usec_per_sec" for x :: rat by simp
  ultimately have "of_int 1 \<le> (?delay + draw * (?delay * backoff_jitter_fraction)) * of_int usec_per_sec" by blast
  then have "round_half_even (of_int 1) \<le> compute_next_attempt_delay draw n"
    unfolding compute_next_attempt_delay_def Let_def by (rule round_half_even_mono)
  then show ?thesis unfolding round_half_even_of_int by simp
qed

text \<open>A task after its round: given up, done, or due again later; in any case no longer leased.\<close>

definition settled :: "instant \<Rightarrow> task \<Rightarrow> task \<Rightarrow> bool" where
  "settled now t t' \<longleftrightarrow> task_leased_until t' = None \<and> task_worker_id t' = None
     \<and> (task_status_of t' = TSucceeded \<or> task_status_of t' = TFailed
        \<or> task_status_of t' = TAwaitingRetry \<and> task_attempt t < task_max_attempts t \<and> now < task_scheduled_for t')"

lemma settled_updates:
  "settled now t (completed e out t)" "settled now t (failed_for_good e err t)"
  "task_attempt t < task_max_attempts t \<Longrightarrow> 0 < d \<Longrightarrow> settled (env_now e) t (retry_later e err d t)"
  by (simp_all add: settled_def completed_def failed_for_good_def retry_later_def)

lemma fail_task_settles:
  assumes "get_task i s = Some t" "0 \<le> draw"
  shows "\<exists>f. fail_task e draw i err perm s = Inr (f t, modify_task i f s) \<and> settled (env_now e) t (f t)
    \<and> task_status_of (f t) \<noteq> TSucceeded \<and> (\<forall>u. task_id (f u) = task_id u)
    \<and> (\<forall>u. task_skill_name (f u) = task_skill_name u) \<and> \<not> ready (env_now e) locked (f t)"
proof -
  let ?f = "if perm \<or> task_attempt t \<ge> task_max_attempts t then failed_for_good e err
                     else retry_later e err (compute_next_attempt_delay draw (task_attempt t))"
  have "fail_task e draw i err perm s = Inr (?f t, modify_task i ?f s)" using assms(1) by (simp add: fail_task_def Let_def)
  moreover have "settled (env_now e) t (?f t)" using settled_updates delay_positive [OF assms(2)] by simp
  moreover have "\<not> ready (env_now e) locked (?f t)" using delay_positive [OF assms(2), of "task_attempt t"]
    by (simp add: ready_def failed_for_good_def retry_later_def claimable_def)
  moreover have "task_status_of (?f t) \<noteq> TSucceeded" by (simp add: failed_for_good_def retry_later_def)
  moreover have "task_id (?f u) = task_id u \<and> task_skill_name (?f u) = task_skill_name u" for u
    by (simp add: failed_for_good_def retry_later_def)
  ultimately show ?thesis by (intro exI [of _ ?f]) simp
qed

text \<open>What is left of a round when a task was claimed.\<close>

lemma claimed_task:
  assumes "claim_next e w l locked s = (Some t, s1)" "distinct (map task_id (tasks s))"
  obtains t0 where "t0 \<in> set (tasks s)" "ready (env_now e) locked t0" "t = claimed e w l t0"
    "s1 = modify_task (task_id t) (claimed e w l) s" "get_task (task_id t) s1 = Some t"
proof -
  from assms(1) obtain t0 where t0: "t0 \<in> set (tasks s)" "ready (env_now e) locked t0" "t = claimed e w l t0"
    "s1 = modify_task (task_id t0) (claimed e w l) s" by (rule claim_next_Some)
  have "get_task (task_id t0) s = Some t0" using find_row_distinct [OF assms(2)] t0(1) by (simp add: get_task_def)
  then have "get_task (task_id t0) s1 = Some t" using t0(3,4) by (simp add: task_table.get_modify)
  with t0 that show thesis by simp
qed

lemma modify_task_running:
  "get_task j s = Some u \<Longrightarrow> j \<noteq> i \<Longrightarrow> (\<And>v. task_id (f v) = task_id v) \<Longrightarrow> get_task j (modify_task i f s) = Some u"
  by (simp add: task_table.get_modify)

text \<open>The three transactions of a round, put together.\<close>

lemma run_once_round:
  assumes claim: "claim_next e1 w 300 locked s = (Some t, s1)" and dist: "distinct (map task_id (tasks s))"
    and skill: "task_skill_name t \<notin> unmodelled_skills" and draw: "0 \<le> draw"
    and times: "env_now e1 \<le> now" "now \<le> env_now e2" "now \<le> env_now e3"
  obtains s2 f where "run_once (builtin_registry ae) describe w locked draw e1 e2 e3 s = Inr (True, modify_task (task_id t) f s2)"
    "tasks_kept s1 s2" "get_task (task_id t) s2 = Some t" "settled now t (f t)"
    "\<And>u. task_id (f u) = task_id u" "\<And>u. task_skill_name (f u) = task_skill_name u" "\<not> ready now locked (f t)"
    "task_status_of (f t) \<noteq> TSucceeded \<Longrightarrow> s2 = s1\<lparr>agent_logs := agent_logs s2\<rparr>"
proof -
  obtain t0 where t: "t = claimed e1 w 300 t0" "get_task (task_id t) s1 = Some t"
    using claimed_task [OF claim dist] by blast
  have running: "task_status_of t = TRunning" by (simp add: t(1) claimed_def)
  have later: "settled a u v \<Longrightarrow> now \<le> a \<Longrightarrow> settled now u v" for a u v by (auto simp: settled_def)
  have ready: "\<not> ready a locked v \<Longrightarrow> now \<le> a \<Longrightarrow> \<not> ready now locked v" for a v by (auto simp: ready_def)
  show thesis
  proof (cases "get_handler (builtin_registry ae) (task_skill_name t)")
    case None
    obtain f where f: "fail_task e2 draw (task_id t) (no_handler_message (task_skill_name t)) True s1
        = Inr (f t, modify_task (task_id t) f s1)" "settled (env_now e2) t (f t)" "\<forall>u. task_id (f u) = task_id u"
        "\<forall>u. task_skill_name (f u) = task_skill_name u" "\<not> ready (env_now e2) locked (f t)"
      using fail_task_settles [OF t(2) draw] by blast
    have "run_once (builtin_registry ae) describe w locked draw e1 e2 e3 s = Inr (True, modify_task (task_id t) f s1)"
      by (simp add: run_once_def claim None settle_failure_def f(1))
    then show thesis
      by (rule that [of f s1]) (use t f later [OF f(2) times(2)] ready [OF f(5) times(2)] in \<open>simp_all add: tasks_kept_same\<close>)
  next
    case (Some h)
    have th: "task_handler h" using builtin_contract [OF Some skill] .
    obtain r s2 where run: "h e2 t s1 = (r, s2)" by force
    have kept: "tasks_kept s1 s2" "get_task (task_id t) s2 = Some t"
      using task_handler.handler_keeps [OF th run] task_handler.leased_task_kept [OF th run t(2) running] by blast+
    show thesis
    proof (cases r)
      case (Inl err)
      obtain f where f: "fail_task e3 draw (task_id t) (describe err) False s2
          = Inr (f t, modify_task (task_id t) f s2)" "settled (env_now e3) t (f t)" "\<forall>u. task_id (f u) = task_id u"
          "\<forall>u. task_skill_name (f u) = task_skill_name u" "\<not> ready (env_now e3) locked (f t)"
        using fail_task_settles [OF kept(2) draw] by blast
      have "run_once (builtin_registry ae) describe w locked draw e1 e2 e3 s = Inr (True, modify_task (task_id t) f s2)"
        by (simp add: run_once_def claim Some run Inl settle_failure_def f(1))
      then show thesis
        by (rule that [of f s2])
          (use kept f later [OF f(2) times(3)] ready [OF f(5) times(3)] task_handler.handler_rolls_back [OF th run [unfolded Inl]] in simp_all)
    next
      case (Inr out)
      have "run_once (builtin_registry ae) describe w locked draw e1 e2 e3 s
          = Inr (True, modify_task (task_id t) (completed e3 out) s2)"
        by (simp add: run_once_def claim Some run Inr complete_def)
      then show thesis
        by (rule that [of "completed e3 out" s2])
          (use kept settled_updates(1) in \<open>simp_all add: completed_def ready_def claimable_def\<close>)
    qed
  qed
qed

text \<open>C5. A claimed task is always settled, and a failed one leaves no trace: for every skill with a built-in handler
  (the two agents that are not modelled apart) and every unknown skill, a round of the worker that
  claims a task ends with that task released, and either succeeded, failed for good, or due again later with
  attempts left; tasks other workers are running are untouched. Unless the task succeeded, the database is as
  before up to the task table and the agent log.\<close>

theorem run_once_settles:
  assumes reg: "register_builtin_handlers ae = Inr reg" and inv: "queue_inv s"
    and claim: "claim_next e1 w 300 locked s = (Some t, s1)" and skill: "task_skill_name t \<notin> unmodelled_skills"
    and draw: "0 \<le> draw" and times: "env_now e1 \<le> env_now e2" "env_now e2 \<le> env_now e3"
  shows "\<exists>s' t'. run_once reg describe w locked draw e1 e2 e3 s = Inr (True, s')
    \<and> get_task (task_id t) s' = Some t' \<and> settled (env_now e2) t t'
    \<and> (\<forall>j u. j \<noteq> task_id t \<and> get_task j s = Some u \<and> task_status_of u = TRunning \<longrightarrow> get_task j s' = Some u)
    \<and> (task_status_of t' \<noteq> TSucceeded \<longrightarrow> s' = s\<lparr>tasks := tasks s', agent_logs := agent_logs s'\<rparr>)"
proof -
  have r: "reg = builtin_registry ae" using reg by (simp add: register_builtin_handlers_eq)
  have dist: "distinct (map task_id (tasks s))" using inv by (simp add: queue_inv_def)
  obtain s2 f where run: "run_once (builtin_registry ae) describe w locked draw e1 e2 e3 s = Inr (True, modify_task (task_id t) f s2)"
    and kept: "tasks_kept s1 s2" "get_task (task_id t) s2 = Some t" and st: "settled (env_now e2) t (f t)"
    and f: "\<And>u. task_id (f u) = task_id u"
    and undone: "task_status_of (f t) \<noteq> TSucceeded \<Longrightarrow> s2 = s1\<lparr>agent_logs := agent_logs s2\<rparr>"
    by (rule run_once_round [OF claim dist skill draw times(1) order.refl times(2), of ae describe]) blast
  have s1: "s1 = modify_task (task_id t) (claimed e1 w 300) s" using claimed_task [OF claim dist] by blast
  let ?s' = "modify_task (task_id t) f s2"
  have row: "get_task (task_id t) ?s' = Some (f t)" using kept(2) f by (simp add: task_table.get_modify)
  have others: "get_task j ?s' = Some u" if "j \<noteq> task_id t" "get_task j s = Some u" "task_status_of u = TRunning" for j u
  proof -
    have "get_task j s1 = Some u" unfolding s1 by (rule modify_task_running [OF that(2,1)]) simp
    then have "get_task j s2 = Some u" using get_task_kept [OF kept(1)] that(3) by blast
    then show ?thesis using modify_task_running [OF _ that(1) f] by blast
  qed
  have trace: "?s' = s\<lparr>tasks := tasks ?s', agent_logs := agent_logs ?s'\<rparr>" if "task_status_of (f t) \<noteq> TSucceeded"
  proof -
    have "s2 = s\<lparr>tasks := tasks s1, agent_logs := agent_logs s2\<rparr>" using undone [OF that] by (simp add: s1 modify_task_def)
    then obtain a b where "s2 = s\<lparr>tasks := a, agent_logs := b\<rparr>" by blast
    then show ?thesis by (simp add: modify_task_def)
  qed
  show ?thesis unfolding r
    by (rule exI [of _ ?s'], rule exI [of _ "f t"]) (use run row st others trace in blast)
qed

section \<open>Draining the queue\<close>

text \<open>The inner part of \<^verbatim>\<open>run_loop\<close>: rounds until one finds nothing to do, at most \<open>n\<close> of them while the clock stands at
  \<open>e\<close>; \<open>draws\<close> are the jitters.\<close>

fun drain ::
  "registry \<Rightarrow> (py_error \<Rightarrow> string) \<Rightarrow> string \<Rightarrow> uuid set \<Rightarrow> (nat \<Rightarrow> rat) \<Rightarrow> env \<Rightarrow> nat \<Rightarrow> db \<Rightarrow> db res" where
  "drain reg describe w locked draws e 0 s = Inr s"
| "drain reg describe w locked draws e (Suc n) s =
     (case run_once reg describe w locked (draws n) e e e s of
        Inl err \<Rightarrow> Inl err
      | Inr (handled, s') \<Rightarrow> if handled then drain reg describe w locked draws e n s' else Inr s')"

lemma ready_count_modify:
  assumes "\<forall>u\<in>set (tasks s). task_id u = i \<longrightarrow> \<not> ready now locked (f u)"
  shows "ready_count now locked (modify_task i f s) \<le> ready_count now locked s"
    and "\<exists>u\<in>set (tasks s). task_id u = i \<and> ready now locked u \<Longrightarrow> ready_count now locked (modify_task i f s) < ready_count now locked s"
proof -
  have le: "\<forall>u\<in>set ts. task_id u = i \<longrightarrow> \<not> ready now locked (f u) \<Longrightarrow>
      length (filter (ready now locked) (update_where (\<lambda>t. task_id t = i) f ts)) \<le> length (filter (ready now locked) ts)" for ts
    by (induction ts) auto
  have lt: "\<forall>u\<in>set ts. task_id u = i \<longrightarrow> \<not> ready now locked (f u) \<Longrightarrow> \<exists>u\<in>set ts. task_id u = i \<and> ready now locked u \<Longrightarrow>
      length (filter (ready now locked) (update_where (\<lambda>t. task_id t = i) f ts)) < length (filter (ready now locked) ts)" for ts
  proof (induction ts)
    case (Cons a ts)
    then show ?case using le [of ts] by (cases "task_id a = i \<and> ready now locked a") (auto simp: less_Suc_eq_le)
  qed simp
  show "ready_count now locked (modify_task i f s) \<le> ready_count now locked s"
    using le [OF assms] by (simp add: ready_count_def modify_task_def)
  show "ready_count now locked (modify_task i f s) < ready_count now locked s"
    if "\<exists>u\<in>set (tasks s). task_id u = i \<and> ready now locked u"
    using lt [OF assms that] by (simp add: ready_count_def modify_task_def)
qed

definition drainable :: "db \<Rightarrow> bool" where
  "drainable s \<longleftrightarrow> distinct (map task_id (tasks s)) \<and> task_skill_name ` set (tasks s) \<inter> unmodelled_skills = {}"

lemma drainable_modify:
  "(\<And>u. task_id (f u) = task_id u) \<Longrightarrow> (\<And>u. task_skill_name (f u) = task_skill_name u) \<Longrightarrow> drainable s \<Longrightarrow> drainable (modify_task i f s)"
proof -
  assume f: "\<And>u. task_id (f u) = task_id u" "\<And>u. task_skill_name (f u) = task_skill_name u" and d: "drainable s"
  have "map task_id (tasks (modify_task i f s)) = map task_id (tasks s)"
    "map task_skill_name (tasks (modify_task i f s)) = map task_skill_name (tasks s)"
    using f by (simp_all add: modify_task_def map_update_where)
  then show ?thesis using d unfolding drainable_def by (metis list.set_map)
qed

lemma drainable_kept: "tasks_kept s s' \<Longrightarrow> drainable s \<Longrightarrow> drainable s'"
  unfolding drainable_def using tasks_kept_ids tasks_kept_skills by (metis list.set_map)

lemma round_progress:
  assumes d: "drainable s" and claim: "claim_next e w 300 locked s = (Some t, s1)" and draw: "0 \<le> draw"
  shows "\<exists>s'. run_once (builtin_registry ae) describe w locked draw e e e s = Inr (True, s') \<and> drainable s'
    \<and> ready_count (env_now e) locked s' < ready_count (env_now e) locked s"
proof -
  have dist: "distinct (map task_id (tasks s))" using d by (simp add: drainable_def)
  obtain t0 where t0: "t0 \<in> set (tasks s)" "ready (env_now e) locked t0" "t = claimed e w 300 t0"
    "s1 = modify_task (task_id t) (claimed e w 300) s" using claimed_task [OF claim dist] by blast
  have skill: "task_skill_name t \<notin> unmodelled_skills" using d t0(1,3) by (auto simp: drainable_def claimed_def)
  obtain s2 f where
    run: "run_once (builtin_registry ae) describe w locked draw e e e s = Inr (True, modify_task (task_id t) f s2)"
    and kept: "tasks_kept s1 s2" "get_task (task_id t) s2 = Some t"
    and f: "\<And>u. task_id (f u) = task_id u" "\<And>u. task_skill_name (f u) = task_skill_name u" "\<not> ready (env_now e) locked (f t)"
    by (rule run_once_round [OF claim dist skill draw order.refl order.refl order.refl, of ae describe]) blast
  have d1: "drainable s1" unfolding t0(4) by (rule drainable_modify [OF _ _ d]) (simp_all add: claimed_def)
  have d2: "drainable s2" using drainable_kept [OF kept(1) d1] .
  have "u = t" if "u \<in> set (tasks s2)" "task_id u = task_id t" for u
    using d2 that kept(2) find_row_distinct [of task_id "tasks s2" u] by (simp add: drainable_def get_task_def)
  then have "ready_count (env_now e) locked (modify_task (task_id t) f s2) \<le> ready_count (env_now e) locked s2"
    by (intro ready_count_modify(1)) (use f(3) in auto)
  moreover have "ready_count (env_now e) locked s1 < ready_count (env_now e) locked s"
    unfolding t0(4) by (rule ready_count_modify(2)) (use t0 in auto)
  ultimately show ?thesis using run drainable_modify [OF f(1,2) d2] ready_count_kept [OF kept(1)]
    by (meson le_less_trans le_trans)
qed

lemma drain_result:
  assumes "drainable s" "\<And>k. 0 \<le> draws k" "ready_count (env_now e) locked s \<le> n"
  shows "\<exists>s'. drain (builtin_registry ae) describe w locked draws e n s = Inr s' \<and> claim_next e w 300 locked s' = (None, s')"
  using assms(1,3)
proof (induction n arbitrary: s)
  case 0
  then show ?case by (simp add: claim_next_None ready_count_def filter_empty_conv)
next
  case (Suc n)
  show ?case
  proof (cases "claim_next e w 300 locked s")
    case (Pair r s1)
    show ?thesis
    proof (cases r)
      case None
      with Pair have "s1 = s" by (simp add: claim_next_None)
      with None Pair show ?thesis by (simp add: run_once_def)
    next
      case (Some t)
      obtain s' where run: "run_once (builtin_registry ae) describe w locked (draws n) e e e s = Inr (True, s')" "drainable s'"
        "ready_count (env_now e) locked s' < ready_count (env_now e) locked s"
        using round_progress [OF Suc.prems(1) Pair [unfolded Some] assms(2) [of n], of ae describe] by blast
      from run(3) Suc.prems(2) have "ready_count (env_now e) locked s' \<le> n" by simp
      from Suc.IH [OF run(2) this] run(1) show ?thesis by simp
    qed
  qed
qed

text \<open>C12. The worker empties the queue: as long as the clock stands still, as many rounds as there are ready tasks
  always run through and leave nothing to claim. No task keeps the worker busy forever, because a failed one
  is due again only later and no built-in handler adds tasks.\<close>

theorem drain_empties_queue:
  assumes reg: "register_builtin_handlers ae = Inr reg" and inv: "queue_inv s"
    and skills: "\<forall>t\<in>set (tasks s). task_skill_name t \<notin> unmodelled_skills" and draws: "\<And>k. 0 \<le> draws k"
  shows "\<exists>s'. drain reg describe w locked draws e (ready_count (env_now e) locked s) s = Inr s'
    \<and> claim_next e w 300 locked s' = (None, s')"
proof -
  have "reg = builtin_registry ae" using reg by (simp add: register_builtin_handlers_eq)
  moreover have "drainable s" using inv skills by (auto simp: drainable_def queue_inv_def)
  ultimately show ?thesis using drain_result draws by blast
qed

section \<open>What does not reach the database or the writer\<close>

text \<open>A generation that cannot start is not recorded on its asset: for an asset whose platform has no plan,
  \<open>generate_asset\<close> sets the status to failed and flushes it before it raises, but the worker's transaction is
  rolled back, so after the round the asset table is what it was.\<close>

theorem generation_failure_not_recorded:
  assumes reg: "register_builtin_handlers ae = Inr reg" "ae_configured ae" and inv: "queue_inv s"
    and claim: "claim_next e1 w 300 locked s = (Some t, s1)" "task_skill_name t = ''content_creator.generate_asset''"
      "uuid_arg (task_input_data t) ''asset_id'' = Inr i" and draw: "0 \<le> draw"
    and asset: "get_asset i s = Some asset" "get_campaign (asset_campaign_id asset) s = Some camp"
      "plan_for_platform (py_lower (py_str (dict_get_default (asset_metadata asset) ''channel_platform'' (JStr [])))) = Inl err"
  shows "(\<exists>a'. get_asset i (snd (generate_asset copy seo rxc message sm e2 i s1)) = Some a' \<and> asset_status_of a' = AFailed)
    \<and> (\<exists>s'. run_once reg describe w locked draw e1 e2 e3 s = Inr (True, s') \<and> assets s' = assets s)"
proof
  have dist: "distinct (map task_id (tasks s))" using inv by (simp add: queue_inv_def)
  have s1: "s1 = modify_task (task_id t) (claimed e1 w 300) s" "get_task (task_id t) s1 = Some t"
    using claimed_task [OF claim(1) dist] by blast+
  have rows: "get_asset i s1 = Some asset" "get_campaign (asset_campaign_id asset) s1 = Some camp"
    using asset by (simp_all add: s1(1) get_asset_def get_campaign_def)
  have gen: "generate_asset copy' seo' rxc' message' sm' e2 i s1 = (Inl ContentCreatorError, modify_asset e2 i (with_status AFailed) s1)"
    for copy' seo' rxc' message' sm' using rows asset(3) by (simp add: generate_asset_def)
  show "\<exists>a'. get_asset i (snd (generate_asset copy seo rxc message sm e2 i s1)) = Some a' \<and> asset_status_of a' = AFailed"
    by (simp add: gen get_modify_asset rows(1))
  have reg': "reg = builtin_registry ae" using reg(1) by (simp add: register_builtin_handlers_eq)
  have h: "content_creator_generate_asset_handler ae e2 t s1 = (Inl ContentCreatorError, s1)"
    using reg(2) claim(3) by (simp add: content_creator_generate_asset_handler_def in_transaction_def gen)
  obtain f where "fail_task e3 draw (task_id t) (describe ContentCreatorError) False s1 = Inr (f t, modify_task (task_id t) f s1)"
    using fail_task_settles [OF s1(2) draw] by blast
  then have "run_once reg describe w locked draw e1 e2 e3 s = Inr (True, modify_task (task_id t) f s1)"
    unfolding reg' run_once_def claim(1) prod.case option.case claim(2) builtin_generate_handler h sum.case settle_failure_def by simp
  then show "\<exists>s'. run_once reg describe w locked draw e1 e2 e3 s = Inr (True, s') \<and> assets s' = assets s"
    by (simp add: s1(1))
qed

text \<open>A rejection's reason does not reach the writer: the generation task carries it, but the handler reads only the
  asset's identifier, so with or without a reason and category it does the same.\<close>

theorem rejection_reason_is_ignored:
  "content_creator_generate_asset_handler ae e
     (t\<lparr>task_input_data := dict_set (dict_set inputs ''rejection_reason'' reason) ''rejection_category'' category\<rparr>) s
   = content_creator_generate_asset_handler ae e (t\<lparr>task_input_data := inputs\<rparr>) s"
  by (simp add: content_creator_generate_asset_handler_def uuid_arg_def map_of_dict_set)

section \<open>Concrete instances\<close>

definition demo_agents :: agents_env where
  "demo_agents = \<lparr>ae_outside = demo_outside ''id'', ae_configured = True, ae_client = (\<lambda>_. demo_client), ae_loads = demo_decoder,
     ae_regex = (\<lambda>_. None), ae_ab_testing = (\<lambda>_. Inl RuntimeError), ae_materialise = (\<lambda>e t s. (Inl RuntimeError, s)),
     ae_propose = (\<lambda>e t s. (Inl RuntimeError, s)), ae_describe = (\<lambda>_. ''failed''), ae_latency = 3\<rparr>"

definition queued_task :: "string \<Rightarrow> dict \<Rightarrow> task" where
  "queued_task skill input = new_task (worker_env 0) (request 1 5 skill input) 40"

definition queued_db :: "string \<Rightarrow> dict \<Rightarrow> db \<Rightarrow> db" where
  "queued_db skill input s = s\<lparr>tasks := [queued_task skill input]\<rparr>"

lemma queued_simps [simp]:
  "task_status_of (queued_task skill input) = TQueued" "task_id (queued_task skill input) = 40"
  "task_skill_name (queued_task skill input) = skill" "task_input_data (queued_task skill input) = input"
  "task_scheduled_for (queued_task skill input) = 0" "tasks (queued_db skill input s) = [queued_task skill input]"
  "assets (queued_db skill input s) = assets s" "campaigns (queued_db skill input s) = campaigns s"
  by (simp_all add: queued_task_def new_task_def request_def queued_db_def)

lemma queue_inv_queued: "queue_inv (queued_db skill input s)"
  by (simp add: queue_inv_def same_key_def task_ok_def queued_task_def new_task_def request_def)

lemma queued_claim:
  "\<exists>s1. claim_next (worker_env 5) w 300 {} (queued_db skill input s) = (Some (claimed (worker_env 5) w 300 (queued_task skill input)), s1)"
  by (simp add: claim_next_def ready_def claimable_def)

theorem run_once_settles_witness:
  "\<exists>s' t'. run_once (builtin_registry demo_agents) (\<lambda>_. ''failed'') ''w1'' {} 0 (worker_env 5) (worker_env 6) (worker_env 7)
      (queued_db ''flaky_tool'' [] empty_db) = Inr (True, s') \<and> get_task 40 s' = Some t' \<and> task_leased_until t' = None"
proof -
  let ?t = "claimed (worker_env 5) ''w1'' 300 (queued_task ''flaky_tool'' [])"
  obtain s1 where claim: "claim_next (worker_env 5) ''w1'' 300 {} (queued_db ''flaky_tool'' [] empty_db) = (Some ?t, s1)"
    using queued_claim by blast
  have skill: "task_skill_name ?t \<notin> unmodelled_skills" by (simp add: claimed_def unmodelled_skills_def)
  from run_once_settles [OF register_builtin_handlers_eq queue_inv_queued claim skill, of 0 "worker_env 6" "worker_env 7" demo_agents "\<lambda>_. ''failed''"]
  show ?thesis by (auto simp: settled_def)
qed

theorem drain_empties_queue_witness:
  "\<exists>s'. drain (builtin_registry demo_agents) (\<lambda>_. ''failed'') ''w1'' {} (\<lambda>_. 0) (worker_env 5) 1 (queued_db ''echo'' [] empty_db) = Inr s'
     \<and> claim_next (worker_env 5) ''w1'' 300 {} s' = (None, s')"
proof -
  have one: "ready_count (env_now (worker_env 5)) {} (queued_db ''echo'' [] empty_db) = 1"
    by (simp add: ready_count_def ready_def claimable_def)
  have skills: "\<forall>t\<in>set (tasks (queued_db ''echo'' [] empty_db)). task_skill_name t \<notin> unmodelled_skills"
    by (simp add: unmodelled_skills_def)
  from drain_empties_queue [OF register_builtin_handlers_eq queue_inv_queued skills, where draws = "\<lambda>_. 0" and e = "worker_env 5" and locked = "{}"
      and ae = demo_agents and describe = "\<lambda>_. ''failed''" and w = "''w1''"] one
  show ?thesis by simp
qed

theorem generation_failure_not_recorded_witness:
  "\<exists>s'. run_once (builtin_registry demo_agents) (\<lambda>_. ''failed'') ''w1'' {} 0 (worker_env 5) (worker_env 6) (worker_env 7)
      (queued_db ''content_creator.generate_asset'' [(''asset_id'', JStr (uuid_str 20))] (demo_db ContentInProduction (demo_asset TEmail ARequested [])))
    = Inr (True, s') \<and> assets s' = [demo_asset TEmail ARequested []]"
proof -
  let ?in = "[(''asset_id'', JStr (uuid_str 20))]" and ?skill = "''content_creator.generate_asset''" and ?a = "demo_asset TEmail ARequested []"
  let ?s = "queued_db ?skill ?in (demo_db ContentInProduction ?a)"
  let ?t = "claimed (worker_env 5) ''w1'' 300 (queued_task ?skill ?in)"
  obtain s1 where claim: "claim_next (worker_env 5) ''w1'' 300 {} ?s = (Some ?t, s1)" using queued_claim by blast
  have t: "task_skill_name ?t = ?skill" "uuid_arg (task_input_data ?t) ''asset_id'' = Inr 20"
    by (simp_all add: claimed_def uuid_arg_def uuid_roundtrip)
  have rows: "get_asset 20 ?s = Some ?a" "get_campaign (asset_campaign_id ?a) ?s = Some (demo_campaign ContentInProduction)"
    by (simp_all add: get_asset_def get_campaign_def find_row_def)
  have plan: "plan_for_platform (py_lower (py_str (dict_get_default (asset_metadata ?a) ''channel_platform'' (JStr [])))) = Inl PlannerError"
    by (simp add: dict_get_default_def) code_simp
  have conf: "ae_configured demo_agents" by (simp add: demo_agents_def)
  from generation_failure_not_recorded [OF register_builtin_handlers_eq conf queue_inv_queued claim t _ rows plan, where draw = 0
      and ?e2.0 = "worker_env 6" and ?e3.0 = "worker_env 7" and describe = "\<lambda>_. ''failed''"]
  show ?thesis by simp
qed

end
