(* ===== verification/Webhooks.thy ===== *)
theory Webhooks
  imports Unsubscribe Approvals
begin

text \<open>
  Inbound provider events: the uniform receiver (\<^verbatim>\<open>app/webhooks\<close>, \<^verbatim>\<open>app/api/webhooks.py\<close>) with its registry and
  handlers, the older e-mail receiver of \<^verbatim>\<open>app/api/integrations_email.py\<close>, and the parser of SendGrid events both
  share. \<open>decode\<close> is \<^verbatim>\<open>json.loads\<close> (\<open>None\<close> is \<^verbatim>\<open>JSONDecodeError\<close>). The ISO text of a time is kept as the
  instant it renders, since it is only printed to be read back. A receiver yields the outcome of the request and
  the database it committed; an uncaught exception commits nothing.
\<close>

section \<open>SendGrid events\<close>

definition sendgrid_event_map :: "(string \<times> string) list" where
  "sendgrid_event_map =
     [(''delivered'', ''delivered''), (''open'', ''open''), (''click'', ''click''), (''bounce'', ''bounce''),
      (''dropped'', ''bounce''), (''deferred'', ''other''), (''processed'', ''other''),
      (''spamreport'', ''spam_complaint''), (''unsubscribe'', ''unsubscribe''),
      (''group_unsubscribe'', ''unsubscribe''), (''group_resubscribe'', ''other'')]"

record email_webhook_event =
  we_provider_event_id :: string
  we_event_type :: string
  we_email :: "string option"
  we_occurred_at :: "instant option"
  we_payload :: dict

text \<open>\<^verbatim>\<open>datetime.fromtimestamp(t, tz=utc)\<close>: rounded half-even to microseconds, years 1 to 9999.\<close>

definition from_timestamp :: "rat \<Rightarrow> instant res" where
  "from_timestamp t =
     (let us = round_half_even (t * 1000000)
      in if - 62135596800 * usec_per_sec \<le> us \<and> us < 253402300800 * usec_per_sec then Inr us else Inl ValueError)"

fun occurred_at :: "json \<Rightarrow> instant option res" where
  "occurred_at (JInt i) = map_sum id Some (from_timestamp (of_int i))"
| "occurred_at (JFloat q) = map_sum id Some (from_timestamp (float64 q))"
| "occurred_at (JBool b) = map_sum id Some (from_timestamp (if b then 1 else 0))"
| "occurred_at _ = Inr None"

definition event_id_of :: "dict \<Rightarrow> json" where
  "event_id_of raw = (let i = dict_get raw ''sg_event_id'' in if truthy i then i else dict_get raw ''sg_message_id'')"

definition event_email :: "json \<Rightarrow> string option" where
  "event_email v = (case v of JStr e \<Rightarrow> if e \<noteq> [] then Some (py_lower e) else None | _ \<Rightarrow> None)"

definition normalised_type :: "dict \<Rightarrow> string" where
  "normalised_type raw =
     (case map_of sendgrid_event_map (py_lower (py_str (dict_get_default raw ''event'' (JStr [])))) of
        None \<Rightarrow> ''other'' | Some ty \<Rightarrow> ty)"

definition parse_event :: "dict \<Rightarrow> email_webhook_event option res" where
  "parse_event raw =
     (if \<not> truthy (event_id_of raw) then Inr None
      else map_sum id (\<lambda>tm. Some \<lparr>we_provider_event_id = py_str (event_id_of raw), we_event_type = normalised_type raw,
             we_email = event_email (dict_get raw ''email''), we_occurred_at = tm, we_payload = raw\<rparr>)
           (occurred_at (dict_get raw ''timestamp'')))"

fun parse_events :: "dict list \<Rightarrow> email_webhook_event list res" where
  "parse_events [] = Inr []"
| "parse_events (raw # raws) =
     (case parse_event raw of
        Inl err \<Rightarrow> Inl err
      | Inr ev \<Rightarrow> map_sum id (\<lambda>evs. (case ev of None \<Rightarrow> evs | Some x \<Rightarrow> x # evs)) (parse_events raws))"

definition event_objects :: "json \<Rightarrow> dict list" where
  "event_objects payload =
     (case payload of
        JArr xs \<Rightarrow> List.map_filter (\<lambda>x. case x of JObj d \<Rightarrow> Some d | _ \<Rightarrow> None) xs
      | JObj d \<Rightarrow> [d]
      | _ \<Rightarrow> [])"

definition parse_webhook :: "json \<Rightarrow> email_webhook_event list res" where
  "parse_webhook payload = parse_events (event_objects payload)"

section \<open>Provider handlers\<close>

record signature_check =
  sc_valid :: bool
  sc_reason :: "string option"

record mapped_event =
  me_provider_event_id :: string
  me_event_type :: string
  me_occurred_at :: "instant option"
  me_payload :: dict

record provider_handler =
  ph_provider :: string
  ph_verify :: "(string \<times> string) list \<Rightarrow> dict option \<Rightarrow> signature_check"
  ph_map :: "string \<Rightarrow> mapped_event list res"

abbreviation rejected :: "string \<Rightarrow> signature_check" where
  "rejected why \<equiv> \<lparr>sc_valid = False, sc_reason = Some why\<rparr>"

definition provided_secret :: "(string \<times> string) list \<Rightarrow> string option" where
  "provided_secret headers =
     (case map_of headers ''x-mas-webhook-secret'' of
        Some v \<Rightarrow> if v \<noteq> [] then Some v else map_of headers ''X-MAS-Webhook-Secret''
      | None \<Rightarrow> map_of headers ''X-MAS-Webhook-Secret'')"

definition sendgrid_verify :: "(string \<times> string) list \<Rightarrow> dict option \<Rightarrow> signature_check" where
  "sendgrid_verify headers credential =
     (case credential of
        None \<Rightarrow> rejected ''no_credential''
      | Some payload \<Rightarrow>
          (let expected = dict_get payload ''webhook_secret''
           in if \<not> truthy expected then rejected ''webhook_secret_not_configured''
              else case provided_secret headers of
                     None \<Rightarrow> rejected ''missing_header''
                   | Some v \<Rightarrow> if v = [] then rejected ''missing_header''
                               else if JStr v \<noteq> expected then rejected ''secret_mismatch''
                               else \<lparr>sc_valid = True, sc_reason = None\<rparr>))"

definition linkedin_verify :: "(string \<times> string) list \<Rightarrow> dict option \<Rightarrow> signature_check" where
  "linkedin_verify headers credential =
     (case credential of
        None \<Rightarrow> rejected ''no_credential''
      | Some payload \<Rightarrow>
          (let expected = dict_get payload ''webhook_secret''
           in if \<not> truthy expected then rejected ''webhook_secret_not_configured''
              else case provided_secret headers of
                     None \<Rightarrow> rejected ''secret_mismatch''
                   | Some v \<Rightarrow> if v = [] \<or> JStr v \<noteq> expected then rejected ''secret_mismatch''
                               else \<lparr>sc_valid = True, sc_reason = None\<rparr>))"

definition event_kind_for_normalised :: "(string \<times> string) list" where
  "event_kind_for_normalised =
     [(''delivered'', ''impression''), (''open'', ''open''), (''click'', ''click''), (''bounce'', ''bounce''),
      (''spam_complaint'', ''spam_complaint''), (''unsubscribe'', ''unsubscribe'')]"

definition mapped_of :: "email_webhook_event \<Rightarrow> mapped_event option" where
  "mapped_of ev =
     map_option (\<lambda>kind. \<lparr>me_provider_event_id = we_provider_event_id ev, me_event_type = kind,
         me_occurred_at = we_occurred_at ev, me_payload = we_payload ev\<rparr>)
       (map_of event_kind_for_normalised (we_event_type ev))"

definition body_json :: "(string \<Rightarrow> json option) \<Rightarrow> string \<Rightarrow> json option" where
  "body_json decode body = (if body = [] then Some (JArr []) else decode body)"

definition sendgrid_map :: "(string \<Rightarrow> json option) \<Rightarrow> string \<Rightarrow> mapped_event list res" where
  "sendgrid_map decode body =
     (case body_json decode body of
        None \<Rightarrow> Inr []
      | Some payload \<Rightarrow> map_sum id (List.map_filter mapped_of) (parse_webhook payload))"

definition sendgrid_handler :: "(string \<Rightarrow> json option) \<Rightarrow> provider_handler" where
  "sendgrid_handler decode = \<lparr>ph_provider = ''sendgrid'', ph_verify = sendgrid_verify, ph_map = sendgrid_map decode\<rparr>"

definition linkedin_handler :: provider_handler where
  "linkedin_handler = \<lparr>ph_provider = ''linkedin'', ph_verify = linkedin_verify, ph_map = (\<lambda>_. Inr [])\<rparr>"

section \<open>Registry\<close>

definition register_provider :: "provider_handler \<Rightarrow> provider_handler list \<Rightarrow> provider_handler list res" where
  "register_provider h hs =
     (if list_ex (\<lambda>x. ph_provider x = ph_provider h) hs then Inl ValueError else Inr (hs @ [h]))"

definition get_provider :: "provider_handler list \<Rightarrow> string \<Rightarrow> provider_handler res" where
  "get_provider hs provider =
     (case find_row (\<lambda>h. ph_provider h = py_lower (py_strip provider)) hs of
        None \<Rightarrow> Inl UnknownProviderError | Some h \<Rightarrow> Inr h)"

definition register_webhook_handlers ::
  "(string \<Rightarrow> json option) \<Rightarrow> provider_handler list \<Rightarrow> provider_handler list res" where
  "register_webhook_handlers decode hs =
     for_each (\<lambda>h hs. if list_ex (\<lambda>x. ph_provider x = ph_provider h) hs then Inr hs else register_provider h hs)
       [sendgrid_handler decode, linkedin_handler] hs"

definition default_registry :: "(string \<Rightarrow> json option) \<Rightarrow> provider_handler list" where
  "default_registry decode = (case register_webhook_handlers decode [] of Inl _ \<Rightarrow> [] | Inr hs \<Rightarrow> hs)"

section \<open>Dispatcher\<close>

definition normalise_headers :: "(string \<times> string) list \<Rightarrow> (string \<times> string) list" where
  "normalise_headers headers =
     map (\<lambda>(k, v). (k, if py_lower k \<in> {''x-mas-webhook-secret'', ''authorization'', ''cookie''}
                       then ''***redacted***'' else v)) headers"

definition load_credential_payload :: "uuid \<Rightarrow> string \<Rightarrow> db \<Rightarrow> dict option res" where
  "load_credential_payload tenant provider s =
     (case scalar_one_or_none (filter (\<lambda>c. cred_tenant_id c = tenant \<and> cred_provider c = provider) (credentials s)) of
        None \<Rightarrow> Inl MultipleResultsFound
      | Some row \<Rightarrow> Inr (map_option cred_payload row))"

text \<open>\<^verbatim>\<open>INSERT ... ON CONFLICT (tenant_id, provider_event_id) DO NOTHING RETURNING id\<close>.\<close>

definition recorded :: "uuid \<Rightarrow> string \<Rightarrow> db \<Rightarrow> bool" where
  "recorded tenant pid s \<longleftrightarrow> list_ex (\<lambda>ev. ev_tenant_id ev = tenant \<and> ev_provider_event_id ev = Some pid) (events s)"

definition insert_event ::
  "uuid \<Rightarrow> event_kind \<Rightarrow> dict \<Rightarrow> string \<Rightarrow> instant \<Rightarrow> db \<Rightarrow> uuid option \<times> db" where
  "insert_event tenant kind payload pid tm s =
     (if recorded tenant pid s then (None, s)
      else let (i, s1) = fresh_uuid s
           in (Some i, s1\<lparr>events := events s1 @ [\<lparr>ev_id = i, ev_tenant_id = tenant, ev_campaign_id = None,
                ev_channel_id = None, ev_type = kind, ev_metric_value = None, ev_payload = payload,
                ev_provider_event_id = Some pid, ev_at = tm\<rparr>]\<rparr>))"

definition time_or_now :: "env \<Rightarrow> instant option \<Rightarrow> instant" where
  "time_or_now e tm = (case tm of None \<Rightarrow> env_now e | Some t \<Rightarrow> t)"

record write_tally =
  wt_written :: nat
  wt_deduped :: nat
  wt_first :: "uuid option"

definition write_mapped :: "env \<Rightarrow> uuid \<Rightarrow> mapped_event \<Rightarrow> write_tally \<times> db \<Rightarrow> write_tally \<times> db" where
  "write_mapped e tenant ev = (\<lambda>(t, s).
     (case event_kind_of (me_event_type ev) of
        None \<Rightarrow> (t, s)
      | Some kind \<Rightarrow>
          (case insert_event tenant kind (me_payload ev) (me_provider_event_id ev) (time_or_now e (me_occurred_at ev)) s of
             (None, s') \<Rightarrow> (t\<lparr>wt_deduped := Suc (wt_deduped t)\<rparr>, s')
           | (Some i, s') \<Rightarrow> (t\<lparr>wt_written := Suc (wt_written t),
                 wt_first := (if wt_first t = None then Some i else wt_first t)\<rparr>, s'))))"

definition write_all :: "env \<Rightarrow> uuid \<Rightarrow> mapped_event list \<Rightarrow> db \<Rightarrow> write_tally \<times> db" where
  "write_all e tenant evs s =
     fold (write_mapped e tenant) evs (\<lparr>wt_written = 0, wt_deduped = 0, wt_first = None\<rparr>, s)"

record dispatch_result =
  dr_signature_valid :: bool
  dr_signature_reason :: "string option"
  dr_raw_webhook_id :: uuid
  dr_events_written :: nat
  dr_events_deduped :: nat
  dr_mapped_event_id :: "uuid option"

definition insert_raw ::
  "env \<Rightarrow> uuid \<Rightarrow> string \<Rightarrow> signature_check \<Rightarrow> (string \<times> string) list \<Rightarrow> string \<Rightarrow> db \<Rightarrow> uuid \<times> db" where
  "insert_raw e tenant provider sig headers body s =
     (let (i, s1) = fresh_uuid s
      in (i, s1\<lparr>raw_webhooks := raw_webhooks s1 @ [\<lparr>rw_id = i, rw_tenant_id = tenant, rw_provider = provider,
           rw_signature_valid = sc_valid sig, rw_signature_reason = sc_reason sig,
           rw_headers = normalise_headers headers, rw_payload = body, rw_mapped_event_id = None,
           rw_received_at = env_now e\<rparr>]\<rparr>))"

definition link_raw :: "uuid \<Rightarrow> uuid option \<Rightarrow> db \<Rightarrow> db" where
  "link_raw i first s =
     (case first of
        None \<Rightarrow> s
      | Some ev \<Rightarrow> s\<lparr>raw_webhooks := update_where (\<lambda>r. rw_id r = i) (\<lambda>r. r\<lparr>rw_mapped_event_id := Some ev\<rparr>) (raw_webhooks s)\<rparr>)"

definition dispatch_webhook ::
  "provider_handler list \<Rightarrow> env \<Rightarrow> string \<Rightarrow> uuid \<Rightarrow> (string \<times> string) list \<Rightarrow> string \<Rightarrow> db
     \<Rightarrow> dispatch_result res \<times> db" where
  "dispatch_webhook reg e provider tenant headers body s =
     (case get_provider reg provider of
        Inl err \<Rightarrow> (Inl err, s)
      | Inr h \<Rightarrow>
     (case load_credential_payload tenant (ph_provider h) s of
        Inl err \<Rightarrow> (Inl err, s)
      | Inr credential \<Rightarrow>
          (let sig = ph_verify h headers credential;
               (i, s1) = insert_raw e tenant (ph_provider h) sig headers body s
           in if \<not> sc_valid sig then
                (Inr \<lparr>dr_signature_valid = False, dr_signature_reason = sc_reason sig, dr_raw_webhook_id = i,
                   dr_events_written = 0, dr_events_deduped = 0, dr_mapped_event_id = None\<rparr>,
                 write_audit e tenant ''raw_webhook'' i ''webhook_signature_failed'' None None
                   [(''provider'', JStr (ph_provider h)),
                    (''reason'', JStr (case sc_reason sig of Some r \<Rightarrow> if r \<noteq> [] then r else ''invalid'' | None \<Rightarrow> ''invalid''))] s1)
              else (case ph_map h body of
                 Inl err \<Rightarrow> (Inl err, s)
               | Inr evs \<Rightarrow>
                   (let (t, s2) = write_all e tenant evs s1
                    in (Inr \<lparr>dr_signature_valid = True, dr_signature_reason = None, dr_raw_webhook_id = i,
                          dr_events_written = wt_written t, dr_events_deduped = wt_deduped t,
                          dr_mapped_event_id = wt_first t\<rparr>,
                        link_raw i (wt_first t) s2))))))"

definition receive_webhook ::
  "(string \<Rightarrow> json option) \<Rightarrow> env \<Rightarrow> string \<Rightarrow> uuid \<Rightarrow> (string \<times> string) list \<Rightarrow> string \<Rightarrow> db
     \<Rightarrow> dispatch_result res \<times> db" where
  "receive_webhook decode e provider tenant headers body s =
     (case get_provider (default_registry decode) provider of
        Inl _ \<Rightarrow> (Inl (HTTPException 404), s)
      | Inr _ \<Rightarrow>
          (case dispatch_webhook (default_registry decode) e provider tenant headers body s of
             (Inl err, s') \<Rightarrow> (Inl err, s')
           | (Inr r, s') \<Rightarrow> (if dr_signature_valid r then Inr r else Inl (HTTPException 401), s')))"

text \<open>The administrator's list of webhooks that gave no event (\<^verbatim>\<open>app/api/admin_unmapped_events.py\<close>).\<close>

definition list_unmapped_webhooks :: "app_user \<Rightarrow> string option \<Rightarrow> nat \<Rightarrow> db \<Rightarrow> (raw_webhook list \<times> nat) res" where
  "list_unmapped_webhooks user provider limit s =
     map_sum id (\<lambda>_.
       let rows = filter (\<lambda>r. rw_tenant_id r = user_tenant_id user \<and> rw_mapped_event_id r = None
                    \<and> (case provider of None \<Rightarrow> True | Some p \<Rightarrow> rw_provider r = p)) (raw_webhooks s)
       in (take limit (sort_key (\<lambda>r. - rw_received_at r) rows), length rows))
       (require_role Admin user)"

section \<open>The e-mail receiver\<close>

definition event_kind_for :: "string \<Rightarrow> event_kind option" where
  "event_kind_for ty = map_of
     [(''delivered'', EImpression), (''open'', EOpen), (''click'', EClick), (''bounce'', EBounce),
      (''spam_complaint'', ESpamComplaint), (''unsubscribe'', EUnsubscribe)] ty"

definition suppression_reason_for :: "string \<Rightarrow> string option" where
  "suppression_reason_for ty = map_of
     [(''bounce'', ''bounce''), (''spam_complaint'', ''complaint''), (''unsubscribe'', ''unsubscribe'')] ty"

definition insert_suppression ::
  "env \<Rightarrow> uuid \<Rightarrow> string \<Rightarrow> string \<Rightarrow> uuid \<Rightarrow> db \<Rightarrow> bool \<times> db" where
  "insert_suppression e tenant identifier reason source s =
     (if list_ex (same_entry tenant PEmail identifier) (suppressions s) then (False, s)
      else let (i, s1) = fresh_uuid s
           in (True, s1\<lparr>suppressions := suppressions s1 @ [\<lparr>sup_id = i, sup_tenant_id = tenant, sup_platform = PEmail,
                sup_identifier = identifier, sup_reason = reason, sup_suppressed_at = env_now e,
                sup_source_event_id = Some source\<rparr>]\<rparr>))"

record ingest_response =
  ir_received :: nat
  ir_written :: nat
  ir_deduped :: nat
  ir_suppression_writes :: nat

definition ingest_email_event :: "env \<Rightarrow> uuid \<Rightarrow> email_webhook_event \<Rightarrow> ingest_response \<times> db \<Rightarrow> ingest_response \<times> db" where
  "ingest_email_event e tenant ev = (\<lambda>(t, s).
     (case event_kind_for (we_event_type ev) of
        None \<Rightarrow> (t, s)
      | Some kind \<Rightarrow>
          (case insert_event tenant kind (we_payload ev) (we_provider_event_id ev) (time_or_now e (we_occurred_at ev)) s of
             (None, s') \<Rightarrow> (t\<lparr>ir_deduped := Suc (ir_deduped t)\<rparr>, s')
           | (Some i, s') \<Rightarrow>
               (let t' = t\<lparr>ir_written := Suc (ir_written t)\<rparr>
                in case (suppression_reason_for (we_event_type ev), we_email ev) of
                     (Some reason, Some email) \<Rightarrow>
                       (if email = [] then (t', s')
                        else (case insert_suppression e tenant email reason i s' of
                           (fresh, s'') \<Rightarrow> (if fresh then t'\<lparr>ir_suppression_writes := Suc (ir_suppression_writes t')\<rparr> else t', s'')))
                   | _ \<Rightarrow> (t', s')))))"

definition receive_email_webhook ::
  "(string \<Rightarrow> json option) \<Rightarrow> env \<Rightarrow> uuid \<Rightarrow> string option \<Rightarrow> string \<Rightarrow> db \<Rightarrow> ingest_response res \<times> db" where
  "receive_email_webhook decode e tenant header body s =
     (case load_credential_payload tenant ''sendgrid'' s of
        Inl err \<Rightarrow> (Inl err, s)
      | Inr None \<Rightarrow> (Inl (HTTPException 404), s)
      | Inr (Some payload) \<Rightarrow>
          (let expected = dict_get payload ''webhook_secret''
           in if \<not> truthy expected \<or> header = None \<or> header = Some [] \<or> opt_json JStr header \<noteq> expected
              then (Inl (HTTPException 401), s)
              else case body_json decode body of
                     None \<Rightarrow> (Inl (HTTPException 400), s)
                   | Some j \<Rightarrow>
                       (case parse_webhook j of
                          Inl err \<Rightarrow> (Inl err, s)
                        | Inr evs \<Rightarrow>
                            (let (t, s') = fold (ingest_email_event e tenant) evs
                                   (\<lparr>ir_received = length evs, ir_written = 0, ir_deduped = 0, ir_suppression_writes = 0\<rparr>, s)
                             in (Inr t, s')))))"

section \<open>Writing each event once\<close>

text \<open>
  What both receivers rely on: a writer appends at most events of its tenant, afterwards the event's key is
  recorded, and an event without a key or with a recorded one changes nothing.
\<close>

locale event_writer =
  fixes tenant :: uuid
    and key :: "'ev \<Rightarrow> string option"
    and put :: "'ev \<Rightarrow> 't \<times> db \<Rightarrow> 't \<times> db"
  assumes appends: "\<exists>new. events (snd (put ev (t, s))) = events s @ new
      \<and> (\<forall>x\<in>set new. ev_tenant_id x = tenant \<and> ev_channel_id x = None)"
    and writes: "key ev = Some pid \<Longrightarrow> recorded tenant pid (snd (put ev (t, s)))"
    and skips: "key ev = None \<or> (\<exists>pid. key ev = Some pid \<and> recorded tenant pid s) \<Longrightarrow> snd (put ev (t, s)) = s"
begin

lemma keeps_recorded: "recorded ten pid s \<Longrightarrow> recorded ten pid (snd (put ev (t, s)))"
  using appends [of ev t s] by (auto simp: recorded_def)

lemma fold_appends:
  "\<exists>new. events (snd (fold put evs (t, s))) = events s @ new
     \<and> (\<forall>x\<in>set new. ev_tenant_id x = tenant \<and> ev_channel_id x = None)"
proof (induction evs arbitrary: t s)
  case (Cons ev evs)
  obtain t1 s1 where 1: "put ev (t, s) = (t1, s1)" by force
  obtain new1 where new1: "events s1 = events s @ new1" "\<forall>x\<in>set new1. ev_tenant_id x = tenant \<and> ev_channel_id x = None"
    using appends [of ev t s] 1 by auto
  obtain new2 where "events (snd (fold put evs (t1, s1))) = events s1 @ new2"
      "\<forall>x\<in>set new2. ev_tenant_id x = tenant \<and> ev_channel_id x = None"
    using Cons by blast
  with new1 1 show ?case by (intro exI [of _ "new1 @ new2"]) auto
qed simp

lemma fold_keeps_recorded: "recorded ten pid s \<Longrightarrow> recorded ten pid (snd (fold put evs (t, s)))"
  using fold_appends [of evs t s] by (auto simp: recorded_def)

lemma fold_writes: "ev \<in> set evs \<Longrightarrow> key ev = Some pid \<Longrightarrow> recorded tenant pid (snd (fold put evs (t, s)))"
proof (induction evs arbitrary: t s)
  case (Cons ev' evs)
  obtain t1 s1 where 1: "put ev' (t, s) = (t1, s1)" by force
  show ?case
  proof (cases "ev = ev'")
    case True
    with writes [OF Cons.prems(2), of t s] 1 have "recorded tenant pid s1" by simp
    with 1 show ?thesis by (simp add: fold_keeps_recorded)
  next
    case False
    with Cons 1 show ?thesis by simp
  qed
qed simp

lemma fold_skips:
  "(\<And>ev pid. ev \<in> set evs \<Longrightarrow> key ev = Some pid \<Longrightarrow> recorded tenant pid s) \<Longrightarrow> snd (fold put evs (t, s)) = s"
proof (induction evs arbitrary: t)
  case (Cons ev evs)
  have "snd (put ev (t, s)) = s" by (rule skips) (use Cons.prems in \<open>cases "key ev", auto\<close>)
  then obtain t1 where 1: "put ev (t, s) = (t1, s)" by (cases "put ev (t, s)") auto
  have "snd (fold put evs (t1, s)) = s" by (rule Cons.IH) (use Cons.prems in auto)
  with 1 show ?case by simp
qed simp

end

lemma recorded_append: "recorded ten pid (s\<lparr>events := events s @ evs\<rparr>) \<longleftrightarrow>
    recorded ten pid s \<or> (\<exists>ev\<in>set evs. ev_tenant_id ev = ten \<and> ev_provider_event_id ev = Some pid)"
  by (auto simp: recorded_def list_ex_iff)

lemma insert_event_frame:
  assumes "insert_event ten kind payload pid tm s = (i, s')"
  shows "suppressions s' = suppressions s" "credentials s' = credentials s" "raw_webhooks s' = raw_webhooks s"
    "audit_log s' = audit_log s" "campaigns s' = campaigns s" "channels s' = channels s" "recorded ten pid s'"
    "i = None \<Longrightarrow> s' = s" "recorded ten pid s \<longleftrightarrow> i = None"
  using assms by (auto simp: insert_event_def Let_def fresh_uuid_def recorded_def split: if_splits)

lemma insert_event_appends:
  assumes "insert_event ten kind payload pid tm s = (i, s')"
  shows "\<exists>new. events s' = events s @ new \<and> (\<forall>x\<in>set new. ev_tenant_id x = ten \<and> ev_channel_id x = None)"
  using assms by (auto simp: insert_event_def Let_def fresh_uuid_def split: if_splits)

lemma insert_suppression_frame:
  assumes "insert_suppression e ten x reason i s = (b, s')"
  shows "events s' = events s" "credentials s' = credentials s" "list_ex (same_entry ten PEmail x) (suppressions s')"
  using assms by (auto simp: insert_suppression_def Let_def fresh_uuid_def same_entry_def split: if_splits)

definition mapped_key :: "mapped_event \<Rightarrow> string option" where
  "mapped_key ev = (if event_kind_of (me_event_type ev) = None then None else Some (me_provider_event_id ev))"

definition email_key :: "email_webhook_event \<Rightarrow> string option" where
  "email_key ev = (if event_kind_for (we_event_type ev) = None then None else Some (we_provider_event_id ev))"

lemma write_mapped_new:
  assumes "event_kind_of (me_event_type ev) = Some kind" "\<not> recorded tenant (me_provider_event_id ev) s"
  obtains t' s' i where "write_mapped e tenant ev (t, s) = (t', s')" "insert_event tenant kind (me_payload ev) (me_provider_event_id ev)
      (time_or_now e (me_occurred_at ev)) s = (Some i, s')" "wt_written t' = Suc (wt_written t)" "wt_deduped t' = wt_deduped t"
  using assms by (auto simp: write_mapped_def insert_event_def Let_def fresh_uuid_def)

lemma write_mapped_old:
  assumes "event_kind_of (me_event_type ev) = Some kind" "recorded tenant (me_provider_event_id ev) s"
  shows "write_mapped e tenant ev (t, s) = (t\<lparr>wt_deduped := Suc (wt_deduped t)\<rparr>, s)"
  using assms by (simp add: write_mapped_def insert_event_def)

lemma write_mapped_none:
  "event_kind_of (me_event_type ev) = None \<Longrightarrow> write_mapped e tenant ev (t, s) = (t, s)"
  by (simp add: write_mapped_def)

interpretation uniform: event_writer tenant mapped_key "write_mapped e tenant" for tenant e
proof
  fix ev :: mapped_event and t s pid
  show "\<exists>new. events (snd (write_mapped e tenant ev (t, s))) = events s @ new
      \<and> (\<forall>x\<in>set new. ev_tenant_id x = tenant \<and> ev_channel_id x = None)"
  proof (cases "event_kind_of (me_event_type ev)")
    case (Some kind)
    show ?thesis
    proof (cases "recorded tenant (me_provider_event_id ev) s")
      case False
      obtain t' s' i where "write_mapped e tenant ev (t, s) = (t', s')" "insert_event tenant kind (me_payload ev)
        (me_provider_event_id ev) (time_or_now e (me_occurred_at ev)) s = (Some i, s')"
        by (rule write_mapped_new [OF Some False])
      then show ?thesis using insert_event_appends by simp
    qed (simp add: write_mapped_old [OF Some])
  qed (simp add: write_mapped_none)
  show "recorded tenant pid (snd (write_mapped e tenant ev (t, s)))" if k: "mapped_key ev = Some pid"
  proof -
    from k obtain kind where kind: "event_kind_of (me_event_type ev) = Some kind" and pid: "me_provider_event_id ev = pid"
      by (auto simp: mapped_key_def split: if_splits)
    show ?thesis
    proof (cases "recorded tenant (me_provider_event_id ev) s")
      case False
      obtain t' s' i where "write_mapped e tenant ev (t, s) = (t', s')" "insert_event tenant kind (me_payload ev)
        (me_provider_event_id ev) (time_or_now e (me_occurred_at ev)) s = (Some i, s')"
        by (rule write_mapped_new [OF kind False])
      then show ?thesis using insert_event_frame(7) pid by simp
    qed (simp add: write_mapped_old [OF kind] pid)
  qed
  show "snd (write_mapped e tenant ev (t, s)) = s"
    if "mapped_key ev = None \<or> (\<exists>pid. mapped_key ev = Some pid \<and> recorded tenant pid s)"
    using that by (cases "event_kind_of (me_event_type ev)")
      (auto simp: mapped_key_def write_mapped_none write_mapped_old)
qed

lemma ingest_email_new:
  assumes "event_kind_for (we_event_type ev) = Some kind" "\<not> recorded tenant (we_provider_event_id ev) s"
  obtains t' s1 s' i where "ingest_email_event e tenant ev (t, s) = (t', s')" "insert_event tenant kind (we_payload ev)
      (we_provider_event_id ev) (time_or_now e (we_occurred_at ev)) s = (Some i, s1)" "events s' = events s1"
    "\<And>reason x. suppression_reason_for (we_event_type ev) = Some reason \<Longrightarrow> we_email ev = Some x \<Longrightarrow> x \<noteq> []
       \<Longrightarrow> list_ex (same_entry tenant PEmail x) (suppressions s')"
    "\<And>r. r \<in> set (suppressions s) \<Longrightarrow> r \<in> set (suppressions s')"
proof -
  obtain i s1 where 1: "insert_event tenant kind (we_payload ev) (we_provider_event_id ev) (time_or_now e (we_occurred_at ev)) s
      = (Some i, s1)" using assms(2) by (simp add: insert_event_def Let_def fresh_uuid_def)
  then have s1: "suppressions s1 = suppressions s" by (rule insert_event_frame)
  let ?t = "t\<lparr>ir_written := Suc (ir_written t)\<rparr>"
  show thesis
  proof (cases "\<exists>reason x. suppression_reason_for (we_event_type ev) = Some reason \<and> we_email ev = Some x \<and> x \<noteq> []")
    case True
    then obtain reason x where x: "suppression_reason_for (we_event_type ev) = Some reason" "we_email ev = Some x" "x \<noteq> []" by blast
    obtain b s2 where 2: "insert_suppression e tenant x reason i s1 = (b, s2)" by force
    have keep: "r \<in> set (suppressions s2)" if "r \<in> set (suppressions s1)" for r
      using 2 that by (auto simp: insert_suppression_def Let_def fresh_uuid_def split: if_splits)
    show thesis
      by (rule that [of "if b then ?t\<lparr>ir_suppression_writes := Suc (ir_suppression_writes ?t)\<rparr> else ?t" s2 i s1])
        (use assms 1 2 x s1 keep insert_suppression_frame [OF 2] in
          \<open>simp_all add: ingest_email_event_def\<close>)
  next
    case False
    then have "ingest_email_event e tenant ev (t, s) = (?t, s1)"
      using assms 1 by (auto simp: ingest_email_event_def Let_def split: option.split)
    then show thesis by (rule that [of ?t s1 i s1]) (use 1 s1 False in auto)
  qed
qed

lemma ingest_email_old:
  assumes "event_kind_for (we_event_type ev) = Some kind" "recorded tenant (we_provider_event_id ev) s"
  shows "ingest_email_event e tenant ev (t, s) = (t\<lparr>ir_deduped := Suc (ir_deduped t)\<rparr>, s)"
  using assms by (simp add: ingest_email_event_def insert_event_def)

lemma ingest_email_none:
  "event_kind_for (we_event_type ev) = None \<Longrightarrow> ingest_email_event e tenant ev (t, s) = (t, s)"
  by (simp add: ingest_email_event_def)

interpretation email_receiver: event_writer tenant email_key "ingest_email_event e tenant" for tenant e
proof
  fix ev :: email_webhook_event and t s pid
  show "\<exists>new. events (snd (ingest_email_event e tenant ev (t, s))) = events s @ new
      \<and> (\<forall>x\<in>set new. ev_tenant_id x = tenant \<and> ev_channel_id x = None)"
  proof (cases "event_kind_for (we_event_type ev)")
    case (Some kind)
    show ?thesis
    proof (cases "recorded tenant (we_provider_event_id ev) s")
      case False
      obtain t' s1 s' i where "ingest_email_event e tenant ev (t, s) = (t', s')" "insert_event tenant kind (we_payload ev)
        (we_provider_event_id ev) (time_or_now e (we_occurred_at ev)) s = (Some i, s1)" "events s' = events s1"
        by (rule ingest_email_new [OF Some False])
      then show ?thesis using insert_event_appends by simp
    qed (simp add: ingest_email_old [OF Some])
  qed (simp add: ingest_email_none)
  show "recorded tenant pid (snd (ingest_email_event e tenant ev (t, s)))" if k: "email_key ev = Some pid"
  proof -
    from k obtain kind where kind: "event_kind_for (we_event_type ev) = Some kind" and pid: "we_provider_event_id ev = pid"
      by (auto simp: email_key_def split: if_splits)
    show ?thesis
    proof (cases "recorded tenant (we_provider_event_id ev) s")
      case False
      obtain t' s1 s' i where "ingest_email_event e tenant ev (t, s) = (t', s')" "insert_event tenant kind (we_payload ev)
        (we_provider_event_id ev) (time_or_now e (we_occurred_at ev)) s = (Some i, s1)" "events s' = events s1"
        by (rule ingest_email_new [OF kind False])
      then show ?thesis using insert_event_frame(7) pid by (simp add: recorded_def)
    qed (simp add: ingest_email_old [OF kind] pid)
  qed
  show "snd (ingest_email_event e tenant ev (t, s)) = s"
    if "email_key ev = None \<or> (\<exists>pid. email_key ev = Some pid \<and> recorded tenant pid s)"
    using that by (cases "event_kind_for (we_event_type ev)")
      (auto simp: email_key_def ingest_email_none ingest_email_old)
qed

section \<open>The uniform receiver\<close>

lemma default_registry_eq: "default_registry decode = [sendgrid_handler decode, linkedin_handler]"
  by (simp add: default_registry_def register_webhook_handlers_def register_provider_def sendgrid_handler_def
      linkedin_handler_def)

lemma registered_handler:
  assumes "get_provider (default_registry decode) provider = Inr h"
  shows "ph_provider h = py_lower (py_strip provider) \<and> (h = sendgrid_handler decode \<or> h = linkedin_handler)"
  using assms by (auto simp: get_provider_def default_registry_eq find_row_def split: option.splits if_splits)

lemma insert_raw_frame:
  assumes "insert_raw e ten prov sig hs body s = (i, s1)"
  shows "events s1 = events s" "suppressions s1 = suppressions s" "credentials s1 = credentials s" "audit_log s1 = audit_log s"
    "\<exists>r. raw_webhooks s1 = raw_webhooks s @ [r] \<and> rw_id r = i \<and> rw_tenant_id r = ten \<and> rw_signature_valid r = sc_valid sig
       \<and> rw_payload r = body \<and> rw_headers r = normalise_headers hs"
  using assms by (auto simp: insert_raw_def Let_def fresh_uuid_def)

lemma link_raw_frame [simp]:
  "events (link_raw i f s) = events s" "suppressions (link_raw i f s) = suppressions s"
  "credentials (link_raw i f s) = credentials s"
  by (simp_all add: link_raw_def split: option.split)

lemma write_mapped_frame:
  "suppressions (snd (write_mapped e ten ev ts)) = suppressions (snd ts)
    \<and> credentials (snd (write_mapped e ten ev ts)) = credentials (snd ts)
    \<and> raw_webhooks (snd (write_mapped e ten ev ts)) = raw_webhooks (snd ts)"
  by (cases ts) (auto simp: write_mapped_def insert_event_def Let_def fresh_uuid_def split: option.split)

lemma write_all_frame:
  "suppressions (snd (write_all e ten evs s)) = suppressions s" "credentials (snd (write_all e ten evs s)) = credentials s"
  "raw_webhooks (snd (write_all e ten evs s)) = raw_webhooks s"
proof -
  have "suppressions (snd (fold (write_mapped e ten) evs ts)) = suppressions (snd ts)
    \<and> credentials (snd (fold (write_mapped e ten) evs ts)) = credentials (snd ts)
    \<and> raw_webhooks (snd (fold (write_mapped e ten) evs ts)) = raw_webhooks (snd ts)" for ts
    by (induction evs arbitrary: ts) (simp_all add: write_mapped_frame)
  then show "suppressions (snd (write_all e ten evs s)) = suppressions s" "credentials (snd (write_all e ten evs s)) = credentials s"
    "raw_webhooks (snd (write_all e ten evs s)) = raw_webhooks s"
    by (simp_all add: write_all_def)
qed

lemma write_all_counts:
  "wt_written (fst (write_all e ten evs s)) + wt_deduped (fst (write_all e ten evs s))
     = length (filter (\<lambda>ev. mapped_key ev \<noteq> None) evs)"
proof -
  have step: "wt_written (fst (write_mapped e ten ev ts)) + wt_deduped (fst (write_mapped e ten ev ts))
      = wt_written (fst ts) + wt_deduped (fst ts) + (if mapped_key ev \<noteq> None then 1 else 0)" for ev ts
    by (cases ts) (auto simp: write_mapped_def mapped_key_def insert_event_def Let_def fresh_uuid_def split: option.split)
  have "wt_written (fst (fold (write_mapped e ten) evs ts)) + wt_deduped (fst (fold (write_mapped e ten) evs ts))
      = wt_written (fst ts) + wt_deduped (fst ts) + length (filter (\<lambda>ev. mapped_key ev \<noteq> None) evs)" for ts
    by (induction evs arbitrary: ts) (simp_all add: step)
  then show ?thesis by (simp add: write_all_def)
qed

lemma write_all_again:
  assumes "\<And>ev pid. ev \<in> set evs \<Longrightarrow> mapped_key ev = Some pid \<Longrightarrow> recorded ten pid s"
  shows "snd (write_all e ten evs s) = s" "wt_written (fst (write_all e ten evs s)) = 0" "wt_first (fst (write_all e ten evs s)) = None"
proof -
  show "snd (write_all e ten evs s) = s" unfolding write_all_def by (rule uniform.fold_skips) (rule assms)
  have "wt_written (fst (fold (write_mapped e ten) evs (t, s))) = wt_written t
      \<and> wt_first (fst (fold (write_mapped e ten) evs (t, s))) = wt_first t" for t
    using assms
  proof (induction evs arbitrary: t)
    case (Cons ev evs)
    have "\<exists>t'. write_mapped e ten ev (t, s) = (t', s) \<and> wt_written t' = wt_written t \<and> wt_first t' = wt_first t"
      using Cons.prems [of ev] by (cases "event_kind_of (me_event_type ev)")
        (auto simp: mapped_key_def write_mapped_none write_mapped_old)
    then obtain t' where "write_mapped e ten ev (t, s) = (t', s)" "wt_written t' = wt_written t" "wt_first t' = wt_first t" by blast
    with Cons.IH [of t'] Cons.prems show ?case by auto
  qed simp
  then show "wt_written (fst (write_all e ten evs s)) = 0" "wt_first (fst (write_all e ten evs s)) = None"
    by (simp_all add: write_all_def)
qed

text \<open>How an accepted request went.\<close>

lemma receive_webhook_Inr:
  assumes "receive_webhook decode e provider ten headers body s = (Inr r, s')"
  obtains h payload evs i s1 where "get_provider (default_registry decode) provider = Inr h"
    "load_credential_payload ten (ph_provider h) s = Inr payload" "sc_valid (ph_verify h headers payload)"
    "insert_raw e ten (ph_provider h) (ph_verify h headers payload) headers body s = (i, s1)" "ph_map h body = Inr evs"
    "s' = link_raw i (wt_first (fst (write_all e ten evs s1))) (snd (write_all e ten evs s1))"
    "dr_events_written r = wt_written (fst (write_all e ten evs s1))"
    "dr_events_deduped r = wt_deduped (fst (write_all e ten evs s1))" "dr_mapped_event_id r = wt_first (fst (write_all e ten evs s1))"
proof -
  obtain h where h: "get_provider (default_registry decode) provider = Inr h"
    using assms by (cases "get_provider (default_registry decode) provider") (simp_all add: receive_webhook_def)
  obtain payload where p: "load_credential_payload ten (ph_provider h) s = Inr payload"
    using assms h by (cases "load_credential_payload ten (ph_provider h) s") (simp_all add: receive_webhook_def dispatch_webhook_def)
  let ?sig = "ph_verify h headers payload"
  obtain i s1 where raw: "insert_raw e ten (ph_provider h) ?sig headers body s = (i, s1)" by force
  have v: "sc_valid ?sig"
    by (rule ccontr) (use assms h p raw in \<open>simp add: receive_webhook_def dispatch_webhook_def Let_def\<close>)
  obtain evs where evs: "ph_map h body = Inr evs"
    using assms h p raw v by (cases "ph_map h body") (simp_all add: receive_webhook_def dispatch_webhook_def)
  show thesis
    by (rule that [OF h p v raw evs])
      (use assms h p raw v evs in \<open>auto simp: receive_webhook_def dispatch_webhook_def split_beta\<close>)
qed

text \<open>The run of a request on a state of which the outcome of every check is known.\<close>

lemma receive_webhook_run:
  assumes "get_provider (default_registry decode) provider = Inr h" "load_credential_payload ten (ph_provider h) s = Inr payload"
    "sc_valid (ph_verify h headers payload)" "ph_map h body = Inr evs"
    "insert_raw e ten (ph_provider h) (ph_verify h headers payload) headers body s = (i, s1)"
    "write_all e ten evs s1 = (t, s2)"
  shows "receive_webhook decode e provider ten headers body s =
    (Inr \<lparr>dr_signature_valid = True, dr_signature_reason = None, dr_raw_webhook_id = i, dr_events_written = wt_written t,
       dr_events_deduped = wt_deduped t, dr_mapped_event_id = wt_first t\<rparr>, link_raw i (wt_first t) s2)"
  using assms by (simp add: receive_webhook_def dispatch_webhook_def)

lemma recorded_after:
  assumes "ev \<in> set evs" "mapped_key ev = Some pid" "events s' = events (snd (write_all e ten evs s))"
  shows "recorded ten pid s'"
proof -
  have "recorded ten pid (snd (write_all e ten evs s))" unfolding write_all_def by (rule uniform.fold_writes [OF assms(1,2)])
  then show ?thesis using assms(3) by (simp add: recorded_def)
qed

text \<open>C28. A webhook that was accepted can be delivered again: the second delivery is accepted, writes no event, links
  none, and reports as duplicates all the events of the first delivery.\<close>

theorem webhook_replay_idempotent:
  assumes "receive_webhook decode e provider ten headers body s = (Inr r, s1)"
  shows "\<exists>r2 s2. receive_webhook decode e' provider ten headers body s1 = (Inr r2, s2) \<and> events s2 = events s1
    \<and> dr_events_written r2 = 0 \<and> dr_mapped_event_id r2 = None
    \<and> dr_events_deduped r2 = dr_events_written r + dr_events_deduped r"
proof -
  obtain h payload evs i s0 where run: "get_provider (default_registry decode) provider = Inr h"
    "load_credential_payload ten (ph_provider h) s = Inr payload" "sc_valid (ph_verify h headers payload)"
    "insert_raw e ten (ph_provider h) (ph_verify h headers payload) headers body s = (i, s0)" "ph_map h body = Inr evs"
    "s1 = link_raw i (wt_first (fst (write_all e ten evs s0))) (snd (write_all e ten evs s0))"
    "dr_events_written r = wt_written (fst (write_all e ten evs s0))"
    "dr_events_deduped r = wt_deduped (fst (write_all e ten evs s0))"
    by (rule receive_webhook_Inr [OF assms])
  obtain j s2 where raw: "insert_raw e' ten (ph_provider h) (ph_verify h headers payload) headers body s1 = (j, s2)" by force
  have cred: "load_credential_payload ten (ph_provider h) s1 = Inr payload"
    using run(2,6) insert_raw_frame(3) [OF run(4)] by (simp add: load_credential_payload_def write_all_frame)
  have ev2: "events s2 = events (snd (write_all e ten evs s0))"
    using insert_raw_frame(1) [OF raw] run(6) by simp
  have known: "recorded ten pid s2" if "ev \<in> set evs" "mapped_key ev = Some pid" for ev pid
    using recorded_after [OF that ev2] .
  obtain t where t: "write_all e' ten evs s2 = (t, s2)" "wt_written t = 0" "wt_first t = None"
    using write_all_again [of evs ten s2 e', OF known] by (cases "write_all e' ten evs s2") auto
  have "wt_deduped t = dr_events_written r + dr_events_deduped r"
    using write_all_counts [of e' ten evs s2] write_all_counts [of e ten evs s0] t run(7,8) by simp
  with receive_webhook_run [OF run(1) cred run(3,5) raw t(1)] t ev2 run(6) show ?thesis by simp
qed

lemma map_sum_id_Inl [simp]: "map_sum id f x = Inl err \<longleftrightarrow> x = Inl err"
  by (cases x) auto

lemma sendgrid_map_error: "sendgrid_map decode body = Inl err \<Longrightarrow> err = ValueError"
proof -
  have at: "occurred_at v = Inl err \<Longrightarrow> err = ValueError" for v
    by (cases v) (auto simp: from_timestamp_def Let_def split: if_splits)
  have "parse_event raw = Inl err \<Longrightarrow> err = ValueError" for raw
    using at by (auto simp: parse_event_def split: if_splits)
  then have "parse_events raws = Inl err \<Longrightarrow> err = ValueError" for raws
    by (induction raws) (auto split: sum.splits)
  then show "sendgrid_map decode body = Inl err \<Longrightarrow> err = ValueError"
    by (auto simp: sendgrid_map_def parse_webhook_def split: option.splits)
qed

text \<open>The three ways a request can go.\<close>

lemma receive_webhook_cases:
  assumes run: "receive_webhook decode e provider ten headers body s = (out, s')"
  obtains (failed) "s' = s" "out \<noteq> Inl (HTTPException 401)" "\<And>r. out \<noteq> Inr r"
  | (refused) prov sig i s1 meta where "insert_raw e ten prov sig headers body s = (i, s1)" "\<not> sc_valid sig"
      "out = Inl (HTTPException 401)" "s' = write_audit e ten ''raw_webhook'' i ''webhook_signature_failed'' None None meta s1"
  | (accepted) r where "out = Inr r"
proof (cases "get_provider (default_registry decode) provider")
  case (Inl err)
  with run show ?thesis by (intro failed) (auto simp: receive_webhook_def)
next
  case h: (Inr h)
  show ?thesis
  proof (cases "load_credential_payload ten (ph_provider h) s")
    case (Inl err)
    then have "err = MultipleResultsFound" by (auto simp: load_credential_payload_def split: option.splits)
    with Inl h run show ?thesis by (intro failed) (auto simp: receive_webhook_def dispatch_webhook_def)
  next
    case p: (Inr cred)
    obtain i s1 where raw: "insert_raw e ten (ph_provider h) (ph_verify h headers cred) headers body s = (i, s1)" by force
    show ?thesis
    proof (cases "sc_valid (ph_verify h headers cred)")
      case False
      with raw h p run show ?thesis by (intro refused [OF raw]) (auto simp: receive_webhook_def dispatch_webhook_def Let_def)
    next
      case True
      show ?thesis
      proof (cases "ph_map h body")
        case (Inl err)
        then have "err = ValueError"
          using registered_handler [OF h] sendgrid_map_error by (auto simp: sendgrid_handler_def linkedin_handler_def)
        with Inl h p raw True run show ?thesis by (intro failed) (auto simp: receive_webhook_def dispatch_webhook_def)
      next
        case (Inr evs)
        obtain t s2 where w: "write_all e ten evs s1 = (t, s2)" by force
        show ?thesis using receive_webhook_run [OF h p True Inr raw w] run by (intro accepted) simp
      qed
    qed
  qed
qed

definition secret_header :: "string \<Rightarrow> bool" where
  "secret_header k \<longleftrightarrow> py_lower k \<in> {''x-mas-webhook-secret'', ''authorization'', ''cookie''}"

definition clean_headers :: "(string \<times> string) list \<Rightarrow> bool" where
  "clean_headers hs \<longleftrightarrow> list_all (\<lambda>p. secret_header (fst p) \<longrightarrow> snd p = ''***redacted***'') hs"

definition redacted :: "db \<Rightarrow> bool" where
  "redacted s \<longleftrightarrow> list_all (\<lambda>r. clean_headers (rw_headers r)) (raw_webhooks s)"

lemma redacted_raw:
  assumes "insert_raw e ten prov sig hs body s = (i, s1)" "redacted s"
  shows "redacted s1"
proof -
  have "clean_headers (normalise_headers hs)"
    by (auto simp: clean_headers_def normalise_headers_def secret_header_def list_all_iff)
  then show ?thesis using insert_raw_frame(5) [OF assms(1)] assms(2) by (auto simp: redacted_def)
qed

lemma redacted_link: "redacted s \<Longrightarrow> redacted (link_raw i f s)"
  by (auto simp: redacted_def link_raw_def list_all_iff set_update_where split: option.split)

text \<open>A request is authentic if it carries the webhook secret configured for the tenant and the provider.\<close>

definition authentic :: "(string \<times> string) list \<Rightarrow> uuid \<Rightarrow> string \<Rightarrow> db \<Rightarrow> bool" where
  "authentic headers ten provider s \<longleftrightarrow> (\<exists>c\<in>set (credentials s). \<exists>v. cred_tenant_id c = ten \<and> cred_provider c = provider
     \<and> provided_secret headers = Some v \<and> v \<noteq> [] \<and> dict_get (cred_payload c) ''webhook_secret'' = JStr v)"

lemma verify_exact:
  assumes "h = sendgrid_handler decode \<or> h = linkedin_handler"
  shows "sc_valid (ph_verify h headers cred) \<longleftrightarrow> (\<exists>payload v. cred = Some payload \<and> provided_secret headers = Some v \<and> v \<noteq> []
    \<and> dict_get payload ''webhook_secret'' = JStr v)"
  using assms by (auto simp: sendgrid_handler_def linkedin_handler_def sendgrid_verify_def linkedin_verify_def Let_def
      split: option.splits if_splits)

lemma verify_authentic:
  assumes "h = sendgrid_handler decode \<or> h = linkedin_handler" "load_credential_payload ten prov s = Inr cred"
  shows "sc_valid (ph_verify h headers cred) \<longleftrightarrow> authentic headers ten prov s"
proof -
  let ?rows = "filter (\<lambda>c. cred_tenant_id c = ten \<and> cred_provider c = prov) (credentials s)"
  have auth: "authentic headers ten prov s \<longleftrightarrow> (\<exists>c\<in>set ?rows. \<exists>v. provided_secret headers = Some v \<and> v \<noteq> []
      \<and> dict_get (cred_payload c) ''webhook_secret'' = JStr v)"
    by (auto simp: authentic_def)
  from assms(2) consider "?rows = []" "cred = None" | c where "?rows = [c]" "cred = Some (cred_payload c)"
    by (auto simp: load_credential_payload_def scalar_one_or_none_Some_Some split: option.splits) (metis option.exhaust scalar_one_or_none_Some_None scalar_one_or_none_Some_Some)
  then show ?thesis by cases (simp_all add: auth verify_exact [OF assms(1)])
qed

lemma known_provider:
  "(\<exists>h. get_provider (default_registry decode) provider = Inr h) \<longleftrightarrow> py_lower (py_strip provider) \<in> {''sendgrid'', ''linkedin''}"
  by (auto simp: get_provider_def default_registry_eq find_row_def sendgrid_handler_def linkedin_handler_def split: option.splits)

lemma credential_loads:
  "(\<exists>cred. load_credential_payload ten prov s = Inr cred)
   \<longleftrightarrow> length (filter (\<lambda>c. cred_tenant_id c = ten \<and> cred_provider c = prov) (credentials s)) \<le> 1"
  by (auto simp: load_credential_payload_def scalar_one_or_none_cases le_Suc_eq)

text \<open>The second state is the first with events of the tenant appended.\<close>

definition only_events :: "uuid \<Rightarrow> db \<Rightarrow> db \<Rightarrow> bool" where
  "only_events ten s s' \<longleftrightarrow> (\<exists>new q. s' = s\<lparr>events := events s @ new, db_seq := q\<rparr> \<and> (\<forall>x\<in>set new. ev_tenant_id x = ten))"

lemma only_events_refl: "only_events ten s s"
  unfolding only_events_def by (intro exI [of _ "[]"] exI [of _ "db_seq s"]) simp

lemma only_events_trans:
  assumes "only_events ten s s1" "only_events ten s1 s2"
  shows "only_events ten s s2"
proof -
  obtain n1 q1 n2 q2 where "s1 = s\<lparr>events := events s @ n1, db_seq := q1\<rparr>" "\<forall>x\<in>set n1. ev_tenant_id x = ten"
    "s2 = s1\<lparr>events := events s1 @ n2, db_seq := q2\<rparr>" "\<forall>x\<in>set n2. ev_tenant_id x = ten"
    using assms unfolding only_events_def by blast
  then show ?thesis unfolding only_events_def by (intro exI [of _ "n1 @ n2"] exI [of _ q2]) auto
qed

lemma insert_event_only: "only_events ten s (snd (insert_event ten kind payload pid tm s))"
proof (cases "recorded ten pid s")
  case False
  then show ?thesis unfolding only_events_def
    by (intro exI [of _ "[last (events (snd (insert_event ten kind payload pid tm s)))]"] exI [of _ "Suc (db_seq s)"])
      (simp add: insert_event_def fresh_uuid_def)
qed (simp add: insert_event_def only_events_refl)

lemma write_all_only_events: "only_events ten s (snd (write_all e ten evs s))"
proof -
  have step: "only_events ten (snd ts) (snd (write_mapped e ten ev ts))" for ev ts
  proof (cases "event_kind_of (me_event_type ev)")
    case (Some kind)
    have "snd (write_mapped e ten ev ts) = snd (insert_event ten kind (me_payload ev) (me_provider_event_id ev)
        (time_or_now e (me_occurred_at ev)) (snd ts))"
      using Some by (cases ts) (simp add: write_mapped_def split: option.split prod.split)
    then show ?thesis by (simp add: insert_event_only)
  qed (cases ts, simp add: write_mapped_def only_events_refl)
  have "only_events ten (snd ts) (snd (fold (write_mapped e ten) evs ts))" for ts
  proof (induction evs arbitrary: ts)
    case (Cons ev evs)
    show ?case using only_events_trans [OF step Cons.IH] by simp
  qed (simp add: only_events_refl)
  then show ?thesis unfolding write_all_def by (metis snd_conv)
qed

text \<open>C29. The uniform receiver trusts only authentic requests. A request to a known provider (whose credential is
  unique) is answered with 401 exactly when it does not carry the secret configured for the tenant and the provider of its
  address; it then leaves its raw row, marked invalid, and one audit entry, and nothing else in the database. Under any
  other answer the database is unchanged, or the request was authentic and accepted, and what is new is its raw row and
  events of that tenant. No stored header keeps a secret, an authorization or a cookie.\<close>

theorem webhook_events_authentic:
  assumes run: "receive_webhook decode e provider ten headers body s = (out, s')" and prov: "prov = py_lower (py_strip provider)"
  shows "(out = Inl (HTTPException 401) \<longleftrightarrow> prov \<in> {''sendgrid'', ''linkedin''}
        \<and> length (filter (\<lambda>c. cred_tenant_id c = ten \<and> cred_provider c = prov) (credentials s)) \<le> 1 \<and> \<not> authentic headers ten prov s)
    \<and> (out = Inl (HTTPException 401) \<longrightarrow> (\<exists>raw entry.
          s' = s\<lparr>raw_webhooks := raw_webhooks s @ [raw], audit_log := audit_log s @ [entry], db_seq := db_seq s'\<rparr>
          \<and> rw_tenant_id raw = ten \<and> rw_payload raw = body \<and> \<not> rw_signature_valid raw \<and> rw_mapped_event_id raw = None
          \<and> au_action entry = ''webhook_signature_failed'' \<and> au_entity_id entry = rw_id raw \<and> au_tenant_id entry = ten))
    \<and> (out \<noteq> Inl (HTTPException 401) \<and> s' \<noteq> s \<longrightarrow> authentic headers ten prov s \<and> (\<exists>r. out = Inr r)
          \<and> length (raw_webhooks s') = Suc (length (raw_webhooks s))
          \<and> (\<exists>new. s' = s\<lparr>raw_webhooks := raw_webhooks s', events := events s @ new, db_seq := db_seq s'\<rparr>
               \<and> (\<forall>x\<in>set new. ev_tenant_id x = ten)))
    \<and> (redacted s \<longrightarrow> redacted s')"
proof (cases "\<exists>h cred. get_provider (default_registry decode) provider = Inr h \<and> load_credential_payload ten (ph_provider h) s = Inr cred")
  case False
  have p: "ph_provider h = prov" if "get_provider (default_registry decode) provider = Inr h" for h
    using registered_handler [OF that] prov by simp
  have "s' = s" "out \<noteq> Inl (HTTPException 401)"
    using run False by (auto simp: receive_webhook_def dispatch_webhook_def load_credential_payload_def split: sum.splits option.splits)
  moreover have "\<not> (prov \<in> {''sendgrid'', ''linkedin''}
        \<and> length (filter (\<lambda>c. cred_tenant_id c = ten \<and> cred_provider c = prov) (credentials s)) \<le> 1)"
    using False p unfolding prov known_provider [symmetric, of _ decode] credential_loads [symmetric] by (metis prov)
  ultimately show ?thesis by blast
next
  case True
  then obtain h cred where h: "get_provider (default_registry decode) provider = Inr h"
    and c0: "load_credential_payload ten (ph_provider h) s = Inr cred" by blast
  have hp: "ph_provider h = prov" "h = sendgrid_handler decode \<or> h = linkedin_handler" using registered_handler [OF h] prov by simp_all
  note c = c0 [unfolded hp(1)]
  have known: "prov \<in> {''sendgrid'', ''linkedin''}" "length (filter (\<lambda>c. cred_tenant_id c = ten \<and> cred_provider c = prov) (credentials s)) \<le> 1"
    using known_provider [of decode provider] h credential_loads [of ten prov s] c prov by auto
  note auth = verify_authentic [OF hp(2) c, of headers]
  from run show ?thesis
  proof (cases rule: receive_webhook_cases)
    case failed
    have "authentic headers ten prov s"
    proof (rule ccontr)
      assume "\<not> authentic headers ten prov s"
      then have "out = Inl (HTTPException 401)"
        using run h c0 auth by (auto simp: receive_webhook_def dispatch_webhook_def Let_def split: prod.splits)
      with failed(2) show False by simp
    qed
    with failed show ?thesis by simp
  next
    case (refused prov' sig i s1 meta)
    have na: "\<not> authentic headers ten prov s"
    proof
      assume "authentic headers ten prov s"
      then have "out \<noteq> Inl (HTTPException 401)"
        using run h c0 auth registered_handler [OF h]
        by (auto dest: sendgrid_map_error simp: receive_webhook_def dispatch_webhook_def Let_def sendgrid_handler_def linkedin_handler_def split: prod.splits sum.splits)
      with refused(3) show False by simp
    qed
    have red: "redacted s \<longrightarrow> redacted s'" using redacted_raw [OF refused(1)] refused(4) by (simp add: redacted_def write_audit_def)
    let ?raw = "last (raw_webhooks s')" and ?entry = "last (audit_log s')"
    have "s' = s\<lparr>raw_webhooks := raw_webhooks s @ [?raw], audit_log := audit_log s @ [?entry], db_seq := db_seq s'\<rparr>"
      "rw_tenant_id ?raw = ten" "rw_payload ?raw = body" "\<not> rw_signature_valid ?raw" "rw_mapped_event_id ?raw = None"
      "au_action ?entry = ''webhook_signature_failed''" "au_entity_id ?entry = rw_id ?raw" "au_tenant_id ?entry = ten"
      using refused(1,2,4) by (auto simp: insert_raw_def fresh_uuid_def write_audit_def Let_def)
    then show ?thesis using refused(3) known na red by blast
  next
    case (accepted r)
    obtain h' payload evs i s1 where a: "get_provider (default_registry decode) provider = Inr h'"
      "load_credential_payload ten (ph_provider h') s = Inr payload" "sc_valid (ph_verify h' headers payload)"
      "insert_raw e ten (ph_provider h') (ph_verify h' headers payload) headers body s = (i, s1)" "ph_map h' body = Inr evs"
      "s' = link_raw i (wt_first (fst (write_all e ten evs s1))) (snd (write_all e ten evs s1))"
      by (rule receive_webhook_Inr [OF run [unfolded accepted]])
    have "h' = h" "payload = cred" using a(1,2) h c0 by auto
    then have au: "authentic headers ten prov s" using a(3) auth by simp
    obtain new q where new: "snd (write_all e ten evs s1) = s1\<lparr>events := events s1 @ new, db_seq := q\<rparr>"
      "\<forall>x\<in>set new. ev_tenant_id x = ten" using write_all_only_events unfolding only_events_def by blast
    have s': "s' = s\<lparr>raw_webhooks := raw_webhooks s', events := events s @ new, db_seq := db_seq s'\<rparr>"
      using a(4,6) new(1) by (auto simp: insert_raw_def fresh_uuid_def Let_def link_raw_def split: option.splits)
    have len: "length (raw_webhooks s') = Suc (length (raw_webhooks s))"
      using a(4,6) write_all_frame(3) [of e ten evs s1]
      by (auto simp: insert_raw_def fresh_uuid_def Let_def link_raw_def split: option.splits)
    have "redacted s \<longrightarrow> redacted s'"
      using redacted_link redacted_raw [OF a(4)] a(6) write_all_frame(3) [of e ten evs s1] by (simp add: redacted_def)
    with au accepted len s' new(2) show ?thesis by blast
  qed
qed

section \<open>The two receivers compared\<close>

lemma kind_of_mapped:
  "event_kind_for ty \<noteq> None \<longleftrightarrow> map_of event_kind_for_normalised ty \<noteq> None"
  "map_of event_kind_for_normalised ty = Some k \<Longrightarrow> event_kind_of k \<noteq> None"
  by (auto simp: event_kind_for_def event_kind_for_normalised_def event_kind_of_def split: if_splits)

lemma mapped_covers:
  assumes "ev \<in> set evs" "email_key ev = Some pid"
  shows "\<exists>m\<in>set (List.map_filter mapped_of evs). mapped_key m = Some pid"
proof -
  from assms(2) have "event_kind_for (we_event_type ev) \<noteq> None" and pid: "pid = we_provider_event_id ev"
    by (auto simp: email_key_def split: if_splits)
  then obtain k where k: "map_of event_kind_for_normalised (we_event_type ev) = Some k" using kind_of_mapped(1) by blast
  let ?m = "\<lparr>me_provider_event_id = we_provider_event_id ev, me_event_type = k, me_occurred_at = we_occurred_at ev,
    me_payload = we_payload ev\<rparr>"
  have "mapped_of ev = Some ?m" by (simp add: mapped_of_def k)
  with assms(1) have "?m \<in> set (List.map_filter mapped_of evs)" by (auto simp: set_map_filter)
  moreover have "mapped_key ?m = Some pid" using kind_of_mapped(2) [OF k] by (simp add: mapped_key_def pid)
  ultimately show ?thesis by blast
qed

lemma receive_email_webhook_Inr:
  assumes "receive_email_webhook decode e ten header body s = (Inr resp, s')"
  obtains j evs where "body_json decode body = Some j" "parse_webhook j = Inr evs"
    "(resp, s') = fold (ingest_email_event e ten) evs
       (\<lparr>ir_received = length evs, ir_written = 0, ir_deduped = 0, ir_suppression_writes = 0\<rparr>, s)"
proof -
  obtain payload where p: "load_credential_payload ten ''sendgrid'' s = Inr (Some payload)"
    using assms by (auto simp: receive_email_webhook_def split: sum.splits option.splits)
  obtain j where j: "body_json decode body = Some j"
    using assms p by (auto simp: receive_email_webhook_def Let_def split: option.splits if_splits)
  obtain evs where evs: "parse_webhook j = Inr evs"
    using assms p j by (auto simp: receive_email_webhook_def Let_def split: sum.splits if_splits)
  show thesis by (rule that [OF j evs])
    (use assms p j evs in \<open>auto simp: receive_email_webhook_def Let_def split: if_splits prod.splits\<close>)
qed

text \<open>The older receiver suppresses the address of every new bounce, complaint and unsubscription.\<close>

lemma ingest_keeps_suppressions:
  "r \<in> set (suppressions s) \<Longrightarrow> r \<in> set (suppressions (snd (fold (ingest_email_event e ten) evs (t, s))))"
proof (induction evs arbitrary: t s)
  case (Cons ev evs)
  have "r \<in> set (suppressions (snd (ingest_email_event e ten ev (t, s))))"
  proof (cases "event_kind_for (we_event_type ev)")
    case (Some kind)
    show ?thesis
    proof (cases "recorded ten (we_provider_event_id ev) s")
      case False
      then show ?thesis by (rule ingest_email_new [OF Some, of ten s e t]) (use Cons.prems in auto)
    qed (use Cons.prems in \<open>simp add: ingest_email_old [OF Some]\<close>)
  qed (use Cons.prems in \<open>simp add: ingest_email_none\<close>)
  with Cons.IH show ?case by (cases "ingest_email_event e ten ev (t, s)") simp
qed simp

lemma ingest_suppresses:
  assumes "ev \<in> set evs" "we_event_type ev \<in> {''bounce'', ''spam_complaint'', ''unsubscribe''}" "we_email ev = Some x" "x \<noteq> []"
    and "distinct (map we_provider_event_id evs)" "\<not> recorded ten (we_provider_event_id ev) s"
  shows "list_ex (same_entry ten PEmail x) (suppressions (snd (fold (ingest_email_event e ten) evs (t, s))))"
  using assms(1,5,6)
proof (induction evs arbitrary: t s)
  case (Cons ev' evs)
  obtain t1 s1 where 1: "ingest_email_event e ten ev' (t, s) = (t1, s1)" by force
  obtain kind reason where k: "event_kind_for (we_event_type ev) = Some kind" "suppression_reason_for (we_event_type ev) = Some reason"
    using assms(2) by (auto simp: event_kind_for_def suppression_reason_for_def)
  show ?case
  proof (cases "ev = ev'")
    case True
    have "list_ex (same_entry ten PEmail x) (suppressions s1)"
      by (rule ingest_email_new [OF k(1) Cons.prems(3), of e t]) (use k(2) assms(3,4) True 1 in auto)
    then obtain r where "r \<in> set (suppressions s1)" "same_entry ten PEmail x r" by (auto simp: list_ex_iff)
    with ingest_keeps_suppressions [of r s1 e ten evs t1] 1 show ?thesis by (auto simp: list_ex_iff)
  next
    case False
    then have in': "ev \<in> set evs" "distinct (map we_provider_event_id evs)" using Cons.prems by auto
    have other: "we_provider_event_id ev' \<noteq> we_provider_event_id ev" using Cons.prems(2) in' by force
    have "\<not> recorded ten (we_provider_event_id ev) s1"
    proof (cases "event_kind_for (we_event_type ev')")
      case (Some kind')
      show ?thesis
      proof (cases "recorded ten (we_provider_event_id ev') s")
        case new: False
        obtain t' s0 s' i where n: "ingest_email_event e ten ev' (t, s) = (t', s')" "insert_event ten kind' (we_payload ev')
          (we_provider_event_id ev') (time_or_now e (we_occurred_at ev')) s = (Some i, s0)" "events s' = events s0"
          by (rule ingest_email_new [OF Some new])
        then show ?thesis using 1 Cons.prems(3) other
          by (auto simp: insert_event_def Let_def fresh_uuid_def recorded_def split: if_splits)
      qed (use 1 Cons.prems(3) in \<open>simp add: ingest_email_old [OF Some]\<close>)
    qed (use 1 Cons.prems(3) in \<open>simp add: ingest_email_none\<close>)
    from Cons.IH [OF in' this, of t1] 1 show ?thesis by simp
  qed
qed simp

text \<open>C37. The two SendGrid receivers are said to be interchangeable, but only the older one suppresses: whatever the
  uniform receiver accepts leaves the suppression list as it was, and afterwards the older receiver, given the same
  body, takes every event for a duplicate and suppresses nobody. Had the older one received the body first, the address
  of each new bounce, complaint or unsubscription would be suppressed.\<close>

theorem uniform_receiver_loses_unsubscribes:
  assumes uniform: "receive_webhook decode e ''sendgrid'' ten headers body s = (Inr r, s1)"
    and later: "receive_email_webhook decode e' ten header body s1 = (Inr resp, s2)"
    and direct: "receive_email_webhook decode e ten header body s = (Inr resp', s3)"
    and parsed: "body_json decode body = Some j" "parse_webhook j = Inr evs" "distinct (map we_provider_event_id evs)"
    and event: "ev \<in> set evs" "we_event_type ev \<in> {''bounce'', ''spam_complaint'', ''unsubscribe''}" "we_email ev = Some x"
      "x \<noteq> []" "\<not> recorded ten (we_provider_event_id ev) s"
  shows "suppressions s1 = suppressions s \<and> suppressions s2 = suppressions s
    \<and> recorded ten (we_provider_event_id ev) s1 \<and> list_ex (same_entry ten PEmail x) (suppressions s3)"
proof -
  obtain h payload evs' i s0 where u: "get_provider (default_registry decode) ''sendgrid'' = Inr h"
    "insert_raw e ten (ph_provider h) (ph_verify h headers payload) headers body s = (i, s0)" "ph_map h body = Inr evs'"
    "s1 = link_raw i (wt_first (fst (write_all e ten evs' s0))) (snd (write_all e ten evs' s0))"
    by (rule receive_webhook_Inr [OF uniform])
  have "h = sendgrid_handler decode"
    using u(1) by (simp add: get_provider_def default_registry_eq find_row_def sendgrid_handler_def py_strip_def is_space_def
        py_lower_def lower_char_def)
  with u(3) parsed have evs': "evs' = List.map_filter mapped_of evs" by (simp add: sendgrid_handler_def sendgrid_map_def)
  have known: "recorded ten pid s1" if "ev \<in> set evs" "email_key ev = Some pid" for ev pid
    using mapped_covers [OF that] recorded_after [of _ evs' pid s1 e ten s0] u(4) evs' by auto
  have "suppressions s1 = suppressions s" using u(4) insert_raw_frame(2) [OF u(2)] by (simp add: write_all_frame)
  moreover have "s2 = s1"
  proof -
    obtain j' evs'' where l: "body_json decode body = Some j'" "parse_webhook j' = Inr evs''"
      "(resp, s2) = fold (ingest_email_event e' ten) evs''
         (\<lparr>ir_received = length evs'', ir_written = 0, ir_deduped = 0, ir_suppression_writes = 0\<rparr>, s1)"
      by (rule receive_email_webhook_Inr [OF later])
    then have "evs'' = evs" using parsed by simp
    then show ?thesis using email_receiver.fold_skips [of evs ten s1 e'] known l(3) by (metis snd_conv)
  qed
  moreover have "list_ex (same_entry ten PEmail x) (suppressions s3)"
  proof -
    obtain j' evs'' where l: "body_json decode body = Some j'" "parse_webhook j' = Inr evs''"
      "(resp', s3) = fold (ingest_email_event e ten) evs''
         (\<lparr>ir_received = length evs'', ir_written = 0, ir_deduped = 0, ir_suppression_writes = 0\<rparr>, s)"
      by (rule receive_email_webhook_Inr [OF direct])
    then have "evs'' = evs" using parsed by simp
    then show ?thesis using ingest_suppresses [OF event(1-4) parsed(3) event(5)] l(3) by (metis snd_conv)
  qed
  moreover have "recorded ten (we_provider_event_id ev) s1"
    using known [OF event(1)] event(2) by (auto simp: email_key_def event_kind_for_def)
  ultimately show ?thesis by simp
qed

section \<open>A concrete instance\<close>

definition demo_hook_event :: dict where
  "demo_hook_event = [(''event'', JStr ''group_unsubscribe''), (''sg_event_id'', JStr ''e1''), (''email'', JStr ''Ann@corp.io'')]"

definition demo_decode :: "string \<Rightarrow> json option" where
  "demo_decode body = (if body = ''b'' then Some (JArr [JObj demo_hook_event]) else None)"

definition hook_db :: db where
  "hook_db = empty_db\<lparr>credentials := [\<lparr>cred_tenant_id = 1, cred_channel_id = None, cred_provider = ''sendgrid'',
     cred_payload = [(''webhook_secret'', JStr ''k'')]\<rparr>]\<rparr>"

definition hook_headers :: "(string \<times> string) list" where
  "hook_headers = [(''x-mas-webhook-secret'', ''k'')]"

lemma demo_hook_runs:
  obtains r s1 where "receive_webhook demo_decode (worker_env 5) ''sendgrid'' 1 hook_headers ''b'' hook_db = (Inr r, s1)"
    "dr_events_written r = 1" "events s1 \<noteq> events hook_db"
proof -
  have "\<not> isl (fst (receive_webhook demo_decode (worker_env 5) ''sendgrid'' 1 hook_headers ''b'' hook_db))"
    "dr_events_written (projr (fst (receive_webhook demo_decode (worker_env 5) ''sendgrid'' 1 hook_headers ''b'' hook_db))) = 1"
    "length (events (snd (receive_webhook demo_decode (worker_env 5) ''sendgrid'' 1 hook_headers ''b'' hook_db))) = 1"
    "length (events hook_db) = 0"
    by code_simp+
  then show thesis
    by (cases "receive_webhook demo_decode (worker_env 5) ''sendgrid'' 1 hook_headers ''b'' hook_db"; cases "fst (receive_webhook demo_decode (worker_env 5) ''sendgrid'' 1 hook_headers ''b'' hook_db)")
      (auto intro: that)
qed

theorem webhook_replay_idempotent_witness:
  "\<exists>r s1 r2 s2. receive_webhook demo_decode (worker_env 5) ''sendgrid'' 1 hook_headers ''b'' hook_db = (Inr r, s1)
     \<and> dr_events_written r = 1
     \<and> receive_webhook demo_decode (worker_env 9) ''sendgrid'' 1 hook_headers ''b'' s1 = (Inr r2, s2)
     \<and> events s2 = events s1 \<and> dr_events_deduped r2 = 1 + dr_events_deduped r"
proof (rule demo_hook_runs)
  fix r s1
  assume 1: "receive_webhook demo_decode (worker_env 5) ''sendgrid'' 1 hook_headers ''b'' hook_db = (Inr r, s1)"
    "dr_events_written r = 1"
  obtain r2 s2 where "receive_webhook demo_decode (worker_env 9) ''sendgrid'' 1 hook_headers ''b'' s1 = (Inr r2, s2)"
    "events s2 = events s1" "dr_events_deduped r2 = dr_events_written r + dr_events_deduped r"
    using webhook_replay_idempotent [OF 1(1), of "worker_env 9"] by blast
  with 1 show ?thesis by (intro exI [of _ r] exI [of _ s1] exI [of _ r2] exI [of _ s2]) simp
qed

theorem webhook_events_authentic_witness:
  "\<exists>s1 raw entry. receive_webhook demo_decode (worker_env 5) '' SendGrid'' 1 [] ''b'' hook_db = (Inl (HTTPException 401), s1)
     \<and> s1 = hook_db\<lparr>raw_webhooks := [raw], audit_log := [entry], db_seq := db_seq s1\<rparr> \<and> redacted s1"
proof -
  obtain out s1 where run: "receive_webhook demo_decode (worker_env 5) '' SendGrid'' 1 [] ''b'' hook_db = (out, s1)" by force
  have prov: "''sendgrid'' = py_lower (py_strip '' SendGrid'')" by code_simp
  have one: "length (filter (\<lambda>c. cred_tenant_id c = 1 \<and> cred_provider c = ''sendgrid'') (credentials hook_db)) \<le> 1"
    by (simp add: hook_db_def)
  have na: "\<not> authentic [] 1 ''sendgrid'' hook_db" by (simp add: authentic_def provided_secret_def)
  have db: "redacted hook_db" "raw_webhooks hook_db = []" "audit_log hook_db = []"
    by (simp_all add: redacted_def hook_db_def empty_db_def)
  note T = webhook_events_authentic [OF run prov]
  have out: "out = Inl (HTTPException 401)" using T one na by blast
  with T obtain raw entry where
    "s1 = hook_db\<lparr>raw_webhooks := raw_webhooks hook_db @ [raw], audit_log := audit_log hook_db @ [entry], db_seq := db_seq s1\<rparr>" by blast
  moreover have "redacted s1" using T db(1) by blast
  ultimately show ?thesis using run out db(2,3) by auto
qed

theorem uniform_receiver_loses_unsubscribes_witness:
  "\<exists>r s1 resp s2 resp' s3. receive_webhook demo_decode (worker_env 5) ''sendgrid'' 1 hook_headers ''b'' hook_db = (Inr r, s1)
     \<and> receive_email_webhook demo_decode (worker_env 6) 1 (Some ''k'') ''b'' s1 = (Inr resp, s2) \<and> suppressions s2 = []
     \<and> receive_email_webhook demo_decode (worker_env 5) 1 (Some ''k'') ''b'' hook_db = (Inr resp', s3)
     \<and> list_ex (same_entry 1 PEmail ''ann@corp.io'') (suppressions s3)"
proof (rule demo_hook_runs)
  fix r s1
  assume 1: "receive_webhook demo_decode (worker_env 5) ''sendgrid'' 1 hook_headers ''b'' hook_db = (Inr r, s1)"
  have "\<not> isl (fst (receive_email_webhook demo_decode (worker_env 6) 1 (Some ''k'') ''b''
      (snd (receive_webhook demo_decode (worker_env 5) ''sendgrid'' 1 hook_headers ''b'' hook_db))))" by code_simp
  then obtain resp s2 where 2: "receive_email_webhook demo_decode (worker_env 6) 1 (Some ''k'') ''b'' s1 = (Inr resp, s2)"
    unfolding 1 snd_conv by (cases "receive_email_webhook demo_decode (worker_env 6) 1 (Some ''k'') ''b'' s1"; cases "fst (receive_email_webhook demo_decode (worker_env 6) 1 (Some ''k'') ''b'' s1)") auto
  have "\<not> isl (fst (receive_email_webhook demo_decode (worker_env 5) 1 (Some ''k'') ''b'' hook_db))" by code_simp
  then obtain resp' s3 where 3: "receive_email_webhook demo_decode (worker_env 5) 1 (Some ''k'') ''b'' hook_db = (Inr resp', s3)"
    by (cases "receive_email_webhook demo_decode (worker_env 5) 1 (Some ''k'') ''b'' hook_db"; cases "fst (receive_email_webhook demo_decode (worker_env 5) 1 (Some ''k'') ''b'' hook_db)") auto
  let ?ev = "\<lparr>we_provider_event_id = ''e1'', we_event_type = ''unsubscribe'', we_email = Some ''ann@corp.io'',
    we_occurred_at = None, we_payload = demo_hook_event\<rparr>"
  have "parse_webhook (JArr [JObj demo_hook_event]) = Inr [?ev]" by code_simp
  moreover have "body_json demo_decode ''b'' = Some (JArr [JObj demo_hook_event])" by (simp add: body_json_def demo_decode_def)
  moreover have "\<not> recorded 1 ''e1'' hook_db" "suppressions hook_db = []" by (simp_all add: recorded_def hook_db_def empty_db_def)
  ultimately show ?thesis
    using uniform_receiver_loses_unsubscribes [OF 1 2 3, of "JArr [JObj demo_hook_event]" "[?ev]" ?ev "''ann@corp.io''"] 1 2 3
    by auto
qed

end
