(* ===== verification/Py_Decimal.thy ===== *)
theory Py_Decimal
  imports Models Py_Values
begin

text \<open>
  Arithmetic of \<^verbatim>\<open>decimal.Decimal\<close> with the default context, and of \<^verbatim>\<open>NUMERIC\<close> columns. The result of an
  operation is the exact result rounded half-even to 28 significant digits (\<open>dec28\<close>); \<^verbatim>\<open>quantize\<close> rounds half-even
  to a number of fractional digits, a column rounds half away from zero.
\<close>

fun num_digits :: "nat \<Rightarrow> nat" where
  "num_digits n = (if n < 10 then 1 else Suc (num_digits (n div 10)))"

declare num_digits.simps [simp del]

definition dec28 :: "rat \<Rightarrow> rat" where
  "dec28 q = (if q = 0 then 0 else
     let (n, d) = quotient_of \<bar>q\<bar>;
         e = int (num_digits (nat n)) - int (num_digits (nat d)) - 28;
         e' = (if \<bar>q\<bar> / pow10 e < 10 ^ 28 then e else e + 1)
     in sgn q * of_int (round_half_even (\<bar>q\<bar> / pow10 e')) * pow10 e')"

definition quantize :: "nat \<Rightarrow> rat \<Rightarrow> rat" where
  "quantize k q = of_int (round_half_even (q * 10 ^ k)) / 10 ^ k"

text \<open>A value stored in a \<^verbatim>\<open>NUMERIC(_, k)\<close> column.\<close>

definition pg_numeric :: "nat \<Rightarrow> rat \<Rightarrow> rat" where
  "pg_numeric k q = sgn q * of_int \<lfloor>\<bar>q\<bar> * 10 ^ k + 1/2\<rfloor> / 10 ^ k"

text \<open>\<^verbatim>\<open>NUMERIC(14, 2)\<close> as a number of cents.\<close>

definition pg_cents :: "rat \<Rightarrow> money" where
  "pg_cents q = (if q < 0 then - \<lfloor>\<bar>q\<bar> * 100 + 1/2\<rfloor> else \<lfloor>\<bar>q\<bar> * 100 + 1/2\<rfloor>)"

text \<open>\<^verbatim>\<open>quantize\<close> raises when the result has more than 28 digits.\<close>

definition quantize_res :: "nat \<Rightarrow> rat \<Rightarrow> rat res" where
  "quantize_res k q = (if 10 ^ 28 \<le> \<bar>round_half_even (q * 10 ^ k)\<bar> then Inl InvalidOperation else Inr (quantize k q))"

text \<open>\<^verbatim>\<open>quantize(..., ROUND_HALF_UP)\<close>\<close>

definition quantize_up_res :: "nat \<Rightarrow> rat \<Rightarrow> rat res" where
  "quantize_up_res k q = (if 10 ^ 28 \<le> \<lfloor>\<bar>q\<bar> * 10 ^ k + 1/2\<rfloor> then Inl InvalidOperation else Inr (pg_numeric k q))"

section \<open>Text of a Decimal\<close>

text \<open>Sign, digits and exponent of a finite numeral.\<close>

definition dec_parts :: "string \<Rightarrow> (bool \<times> string \<times> int) option" where
  "dec_parts s =
     (let (neg, b) = split_sign (filter (\<lambda>c. c \<noteq> CHR ''_'') (py_strip s));
          ip = takeWhile is_digit b;
          r = dropWhile is_digit b;
          point = (r \<noteq> [] \<and> hd r = CHR ''.'');
          fp = (if point then takeWhile is_digit (tl r) else []);
          r2 = (if point then dropWhile is_digit (tl r) else r);
          ds = dropWhile (\<lambda>c. c = CHR ''0'') (ip @ fp)
      in if ip = [] \<and> fp = [] then None
         else map_option (\<lambda>ex. (neg, (if ds = [] then ''0'' else ds), ex - int (length fp))) (exponent_part r2))"

definition dec_print :: "bool \<times> string \<times> int \<Rightarrow> string" where
  "dec_print = (\<lambda>(neg, ds, ex).
     (let n = int (length ds);
          left = ex + n;
          dot = (if ex \<le> 0 \<and> - 6 < left then left else 1);
          body = (if dot \<le> 0 then ''0.'' @ replicate (nat (- dot)) (CHR ''0'') @ ds
                  else if n \<le> dot then ds @ replicate (nat (dot - n)) (CHR ''0'')
                  else take (nat dot) ds @ ''.'' @ drop (nat dot) ds);
          expo = (if left = dot then [] else ''E'' @ (if dot \<le> left then ''+'' else []) @ int_str (left - dot))
      in (if neg then ''-'' else []) @ body @ expo))"

text \<open>The exponent a value carries, and the text of a number with a given exponent.\<close>

definition dec_exponent :: "json \<Rightarrow> int" where
  "dec_exponent v = (case dec_parts (py_str v) of Some (_, _, ex) \<Rightarrow> ex | None \<Rightarrow> 0)"

definition dec_str :: "rat \<Rightarrow> int \<Rightarrow> string" where
  "dec_str q ex = dec_print (q < 0, digits (nat \<lfloor>\<bar>q\<bar> * pow10 (- ex)\<rfloor>), ex)"

definition decimal_str :: "decimal \<Rightarrow> int \<Rightarrow> string" where
  "decimal_str d ex =
     (case d of DNum q \<Rightarrow> dec_str q ex | DInf neg \<Rightarrow> (if neg then ''-Infinity'' else ''Infinity'') | DNaN \<Rightarrow> ''NaN'')"

section \<open>Rounding to 28 digits\<close>

lemma pow10_powi: "pow10 k = 10 powi k"
  by (simp add: pow10_def power_int_def inverse_eq_divide power_one_over)

lemma pow10_pos [simp]: "0 < pow10 k" "0 \<le> pow10 k"
  by (simp_all add: pow10_powi)

lemma pow10_neq_0 [simp]: "pow10 k \<noteq> 0"
  using pow10_pos(1) [of k] by linarith

lemma pow10_add: "pow10 (a + b) = pow10 a * pow10 b"
  by (simp add: pow10_powi power_int_add)

lemma pow10_nat: "pow10 (int n) = 10 ^ n"
  by (simp add: pow10_def)

lemma num_digits_bounds: "10 ^ num_digits n \<le> 10 * max 1 n \<and> n < 10 ^ num_digits n"
proof (induction n rule: num_digits.induct)
  case (1 n)
  show ?case
  proof (cases "n < 10")
    case True
    then show ?thesis by (simp add: num_digits.simps)
  next
    case False
    then have 2: "10 ^ num_digits (n div 10) \<le> 10 * max 1 (n div 10)" "n div 10 < 10 ^ num_digits (n div 10)"
      using 1 by simp_all
    have "max 1 (n div 10) * 10 \<le> n" using False by auto
    then have "10 * 10 ^ num_digits (n div 10) \<le> 10 * n" using 2(1) by linarith
    moreover have "n < 10 * 10 ^ num_digits (n div 10)" using 2(2) by linarith
    ultimately show ?thesis using False by (simp add: num_digits.simps [of n] max_def)
  qed
qed

lemma dec28_scale:
  assumes "q \<noteq> 0"
  obtains e where "dec28 q = sgn q * of_int (round_half_even (\<bar>q\<bar> / pow10 e)) * pow10 e" "10 ^ 27 \<le> \<bar>q\<bar> / pow10 e"
proof -
  obtain n d where nd: "quotient_of \<bar>q\<bar> = (n, d)" by force
  have d: "0 < d" using quotient_of_denom_pos [OF nd] .
  have q: "\<bar>q\<bar> = of_int n / of_int d" using quotient_of_div [OF nd] .
  have n: "0 < n" using assms d q by (metis abs_of_nonpos less_le_not_le linorder_not_le neg_0_le_iff_le of_int_0_le_iff of_int_0_less_iff
      zero_less_abs_iff zero_less_divide_iff)
  let ?N = "num_digits (nat n)" and ?D = "num_digits (nat d)"
  let ?e = "int ?N - int ?D - 28"
  have "10 ^ ?N \<le> 10 * max 1 (nat n)" "nat d < 10 ^ ?D" using num_digits_bounds by blast+
  then have "int (10 ^ ?N) \<le> int (10 * max 1 (nat n))" "int (nat d) < int (10 ^ ?D)" by (simp_all only: of_nat_le_iff of_nat_less_iff)
  then have "10 ^ ?N \<le> 10 * n" "d < 10 ^ ?D" using n d by simp_all
  then have "(of_int (10 ^ ?N) :: rat) \<le> of_int (10 * n)" "(of_int d :: rat) \<le> of_int (10 ^ ?D)"
    by (simp_all only: of_int_le_iff less_imp_le)
  then have b: "(10 :: rat) ^ ?N \<le> 10 * of_int n" "(of_int d :: rat) \<le> 10 ^ ?D" by simp_all
  have e: "pow10 ?e = 10 ^ ?N / (10 ^ ?D * 10 ^ 28)"
  proof -
    have "pow10 ?e * pow10 (int ?D) * pow10 28 = pow10 (int ?N)" by (simp flip: pow10_add)
    then show ?thesis using pow10_nat [of 28] by (simp add: pow10_nat field_simps)
  qed
  have "10 ^ 27 * (10 ^ ?N * of_int d) \<le> 10 ^ 27 * (10 * of_int n * 10 ^ ?D :: rat)"
    using b d n by (intro mult_left_mono mult_mono) auto
  then have low: "10 ^ 27 \<le> \<bar>q\<bar> / pow10 ?e"
    unfolding q e using d by (simp add: field_simps)
  show thesis
  proof (cases "\<bar>q\<bar> / pow10 ?e < 10 ^ 28")
    case True
    then show thesis using that [of ?e] assms nd low by (simp add: dec28_def Let_def)
  next
    case False
    have p: "pow10 (?e + 1) = pow10 ?e * 10" using pow10_add [of ?e 1] by (simp add: pow10_def)
    have "10 ^ 28 * pow10 ?e \<le> \<bar>q\<bar>" using False by (simp add: field_simps)
    then have "10 ^ 27 * pow10 (?e + 1) \<le> \<bar>q\<bar>" unfolding p by simp
    then have "10 ^ 27 \<le> \<bar>q\<bar> / pow10 (?e + 1)" by (subst pos_le_divide_eq) simp_all
    moreover have "dec28 q = sgn q * of_int (round_half_even (\<bar>q\<bar> / pow10 (?e + 1))) * pow10 (?e + 1)"
      using False assms nd by (simp add: dec28_def Let_def)
    ultimately show thesis by (rule that [rotated])
  qed
qed

text \<open>The error is below one unit in the 28th digit; numbers of at most 28 digits are exact.\<close>

lemma dec28_error: "\<bar>dec28 q - q\<bar> \<le> \<bar>q\<bar> / (2 * 10 ^ 27)"
proof (cases "q = 0")
  case False
  obtain e where e: "dec28 q = sgn q * of_int (round_half_even (\<bar>q\<bar> / pow10 e)) * pow10 e" "10 ^ 27 \<le> \<bar>q\<bar> / pow10 e"
    by (rule dec28_scale [OF False])
  let ?x = "\<bar>q\<bar> / pow10 e" and ?m = "of_int (round_half_even (\<bar>q\<bar> / pow10 e)) :: rat"
  have m: "\<bar>?m - ?x\<bar> \<le> 1/2" using round_half_even_bounds [of ?x] by linarith
  have "dec28 q - q = sgn q * ((?m - ?x) * pow10 e)"
    unfolding e(1) by (simp add: left_diff_distrib right_diff_distrib sgn_mult_abs mult.assoc)
  then have "\<bar>dec28 q - q\<bar> = \<bar>?m - ?x\<bar> * pow10 e" using False by (simp add: abs_mult abs_sgn_eq less_imp_le)
  also have "\<dots> \<le> 1/2 * pow10 e" using m by (intro mult_right_mono) (simp_all add: less_imp_le)
  also have "\<dots> \<le> \<bar>q\<bar> / (2 * 10 ^ 27)" using e(2) by (simp add: field_simps)
  finally show ?thesis .
qed (simp add: dec28_def)

lemma dec28_exact:
  assumes "\<bar>n\<bar> < 10 ^ 28"
  shows "dec28 (of_int n / 10 ^ k) = of_int n / 10 ^ k"
proof (cases "n = 0")
  case False
  let ?q = "of_int n / 10 ^ k :: rat"
  have q0: "?q \<noteq> 0" using False by simp
  obtain e where e: "dec28 ?q = sgn ?q * of_int (round_half_even (\<bar>?q\<bar> / pow10 e)) * pow10 e" "10 ^ 27 \<le> \<bar>?q\<bar> / pow10 e"
    by (rule dec28_scale [OF q0])
  have x: "\<bar>?q\<bar> / pow10 e = of_int \<bar>n\<bar> * pow10 (- int k - e)"
    by (simp add: pow10_powi power_int_diff power_int_minus field_simps abs_divide)
  have "0 \<le> - int k - e"
  proof (rule ccontr)
    assume neg: "\<not> 0 \<le> - int k - e"
    have "pow10 (- int k - e) \<le> pow10 (- 1)" unfolding pow10_powi using neg by (intro power_int_increasing) auto
    then have "pow10 (- int k - e) \<le> 1 / 10" by (simp add: pow10_def)
    then have "of_int \<bar>n\<bar> * pow10 (- int k - e) \<le> of_int \<bar>n\<bar> * (1 / 10)" by (intro mult_left_mono) auto
    moreover have "of_int \<bar>n\<bar> < (10 ^ 28 :: rat)" using assms by (metis of_int_less_iff of_int_numeral of_int_power)
    ultimately show False using e(2) unfolding x by simp
  qed
  then have "\<bar>?q\<bar> / pow10 e = of_int (\<bar>n\<bar> * 10 ^ nat (- int k - e))" unfolding x by (simp add: pow10_def)
  then have "of_int (round_half_even (\<bar>?q\<bar> / pow10 e)) = \<bar>?q\<bar> / pow10 e" by (simp only: round_half_even_of_int)
  then show ?thesis unfolding e(1) by (simp only: times_divide_eq_right nonzero_divide_mult_cancel_right) (simp add: sgn_mult_abs)
qed (simp add: dec28_def)

lemma dec28_nonneg: "0 \<le> q \<Longrightarrow> 0 \<le> dec28 q"
proof -
  assume q: "0 \<le> q"
  have "\<bar>q\<bar> / (2 * 10 ^ 27) \<le> q" using q by (simp add: field_simps)
  with dec28_error [of q] show ?thesis by linarith
qed

lemma dec28_pos: "0 < q \<Longrightarrow> 0 < dec28 q"
proof -
  assume q: "0 < q"
  have "\<bar>q\<bar> / (2 * 10 ^ 27) < q" using q by (simp add: field_simps)
  with dec28_error [of q] show ?thesis by linarith
qed

lemma quantize_error: "\<bar>quantize k q - q\<bar> \<le> 1 / (2 * 10 ^ k)"
proof -
  have "\<bar>of_int (round_half_even (q * 10 ^ k)) - q * 10 ^ k\<bar> / 10 ^ k \<le> (1/2) / 10 ^ k"
    using round_half_even_bounds [of "q * 10 ^ k"] by (intro divide_right_mono) (linarith, simp)
  moreover have "quantize k q - q = (of_int (round_half_even (q * 10 ^ k)) - q * 10 ^ k) / 10 ^ k"
    by (simp add: quantize_def diff_divide_distrib)
  then have "\<bar>quantize k q - q\<bar> = \<bar>of_int (round_half_even (q * 10 ^ k)) - q * 10 ^ k\<bar> / 10 ^ k"
    by (simp only: abs_divide) simp
  ultimately show ?thesis by simp
qed

lemma quantize_exact: "quantize k (of_int n / 10 ^ k) = of_int n / 10 ^ k"
  by (simp add: quantize_def)

lemma quantize_mono: "p \<le> q \<Longrightarrow> quantize k p \<le> quantize k q"
  by (simp add: quantize_def divide_right_mono round_half_even_mono mult_right_mono)

lemma pg_cents_exact [simp]: "pg_cents (of_int m / 100) = m"
proof -
  have "\<lfloor>\<bar>of_int m / 100 :: rat\<bar> * 100 + 1/2\<rfloor> = \<bar>m\<bar>" by (rule floor_unique) (simp_all add: abs_divide)
  then show ?thesis unfolding pg_cents_def by (simp only: if_split) (auto simp: divide_less_0_iff)
qed


lemma quantize_res_Inr: "quantize_res k q = Inr r \<Longrightarrow> r = quantize k q"
  by (simp add: quantize_res_def split: if_splits)

lemma quantize_res_int: "\<bar>n * 10 ^ k\<bar> < 10 ^ 28 \<Longrightarrow> quantize_res k (of_int n) = Inr (of_int n)"
proof -
  assume n: "\<bar>n * 10 ^ k\<bar> < 10 ^ 28"
  have "round_half_even (of_int n * 10 ^ k) = n * 10 ^ k" using round_half_even_of_int [of "n * 10 ^ k"] by simp
  then show ?thesis using n by (simp add: quantize_res_def quantize_def)
qed

end
