(* ===== verification/Web_Ingest.thy ===== *)
theory Web_Ingest
  imports Webhooks Py_Decimal
begin

text \<open>
  Ingestion of web analytics (\<^verbatim>\<open>app/integrations/web_analytics\<close>): the Plausible breakdown read as events, the
  attribution of UTM names to campaigns, and the bulk insert that drops duplicates. \<open>results\<close> is the decoded answer
  of the provider. A campaign name that matches several campaigns takes the first in table order.
\<close>

record web_event =
  wa_provider_event_id :: string
  wa_event_type :: event_kind
  wa_metric_value :: rat
  wa_event_at :: instant
  wa_utm_campaign :: "string option"
  wa_utm_source :: "string option"
  wa_utm_medium :: "string option"
  wa_payload :: dict

section \<open>Plausible\<close>

text \<open>\<^verbatim>\<open>float(x or 0)\<close>; the infinities and NaN are not counts.\<close>

definition count_of :: "json \<Rightarrow> rat res" where
  "count_of v =
     (if \<not> truthy v then Inr 0
      else case v of
             JInt i \<Rightarrow> Inr (float64 (of_int i))
           | JFloat q \<Rightarrow> Inr (float64 q)
           | JBool b \<Rightarrow> Inr 1
           | JStr t \<Rightarrow> (case decimal_of_str t of Some (DNum q) \<Rightarrow> Inr (float64 q) | Some _ \<Rightarrow> Inl DataError | None \<Rightarrow> Inl ValueError)
           | _ \<Rightarrow> Inl TypeError)"

definition bucket_utm :: "dict \<Rightarrow> json" where
  "bucket_utm row = (let u = dict_get row ''visit:utm_campaign'' in if truthy u then u else dict_get row ''utm_campaign'')"

definition base_id :: "string \<Rightarrow> date \<Rightarrow> date \<Rightarrow> json \<Rightarrow> string" where
  "base_id site since until utm =
     ''plausible:'' @ site @ '':'' @ date_iso since @ '':'' @ date_iso until @ '':'' @ (if truthy utm then py_str utm else ''none'')"

text \<open>The two events of a bucket: its page views and its visitors.\<close>

definition bucket_events :: "string \<Rightarrow> instant \<Rightarrow> instant \<Rightarrow> dict \<Rightarrow> web_event list res" where
  "bucket_events site since until row =
     (let utm = bucket_utm row;
          base = base_id site (date_of since) (date_of until) utm;
          ev = (\<lambda>suffix kind n. \<lparr>wa_provider_event_id = base @ suffix, wa_event_type = kind, wa_metric_value = n,
                  wa_event_at = until, wa_utm_campaign = as_str utm, wa_utm_source = None, wa_utm_medium = None,
                  wa_payload = [(''utm_campaign'', utm), (''raw'', JObj row)]\<rparr>)
      in case count_of (dict_get row ''pageviews'') of
           Inl err \<Rightarrow> Inl err
         | Inr p \<Rightarrow> map_sum id (\<lambda>v. [ev '':pageviews'' EImpression p, ev '':visitors'' EClick v])
                     (count_of (dict_get row ''visitors'')))"

fun fetch_rows :: "string \<Rightarrow> instant \<Rightarrow> instant \<Rightarrow> json list \<Rightarrow> web_event list res" where
  "fetch_rows site since until [] = Inr []"
| "fetch_rows site since until (r # rs) =
     (case r of
        JObj row \<Rightarrow>
          (case bucket_events site since until row of
             Inl err \<Rightarrow> Inl err
           | Inr evs \<Rightarrow> map_sum id ((@) evs) (fetch_rows site since until rs))
      | _ \<Rightarrow> Inl AttributeError)"

definition fetch_events :: "string \<Rightarrow> dict \<Rightarrow> instant \<Rightarrow> instant \<Rightarrow> web_event list res" where
  "fetch_events site results since until =
     (case py_iter (dict_get_default results ''results'' (JArr [])) of
        None \<Rightarrow> Inl TypeError | Some rows \<Rightarrow> fetch_rows site since until rows)"

section \<open>Attribution\<close>

definition resolve_campaign_by_utm :: "uuid \<Rightarrow> string option \<Rightarrow> db \<Rightarrow> uuid option" where
  "resolve_campaign_by_utm tenant utm s =
     (case utm of
        None \<Rightarrow> None
      | Some u \<Rightarrow> if u = [] then None
                  else map_option camp_id (find_row (\<lambda>c. camp_tenant_id c = tenant \<and> ilike u (camp_name c)) (campaigns s)))"

definition utm_key :: "web_event \<Rightarrow> string" where
  "utm_key ev = py_lower (py_strip (case wa_utm_campaign ev of None \<Rightarrow> [] | Some u \<Rightarrow> u))"

definition has_utm :: "web_event \<Rightarrow> bool" where
  "has_utm ev \<longleftrightarrow> (case wa_utm_campaign ev of None \<Rightarrow> False | Some u \<Rightarrow> u \<noteq> [])"

definition utm_cache :: "uuid \<Rightarrow> web_event list \<Rightarrow> db \<Rightarrow> (string \<times> uuid option) list" where
  "utm_cache tenant evs s =
     fold (\<lambda>ev cache. if has_utm ev \<and> map_of cache (utm_key ev) = None
             then cache @ [(utm_key ev, resolve_campaign_by_utm tenant (wa_utm_campaign ev) s)] else cache) evs []"

definition campaign_of :: "(string \<times> uuid option) list \<Rightarrow> web_event \<Rightarrow> uuid option" where
  "campaign_of cache ev = (if has_utm ev then (case map_of cache (utm_key ev) of None \<Rightarrow> None | Some c \<Rightarrow> c) else None)"

section \<open>Bulk insert\<close>

definition setdefault :: "string \<Rightarrow> string option \<Rightarrow> dict \<Rightarrow> dict" where
  "setdefault k v d =
     (case v of None \<Rightarrow> d | Some x \<Rightarrow> if x = [] \<or> map_of d k \<noteq> None then d else d @ [(k, JStr x)])"

definition web_payload :: "web_event \<Rightarrow> dict" where
  "web_payload ev = setdefault ''utm_medium'' (wa_utm_medium ev)
     (setdefault ''utm_source'' (wa_utm_source ev) (setdefault ''utm_campaign'' (wa_utm_campaign ev) (wa_payload ev)))"

definition insert_web_event :: "uuid \<Rightarrow> (string \<times> uuid option) list \<Rightarrow> web_event \<Rightarrow> nat \<times> db \<Rightarrow> nat \<times> db" where
  "insert_web_event tenant cache ev = (\<lambda>(n, s).
     if recorded tenant (wa_provider_event_id ev) s then (n, s)
     else let (i, s1) = fresh_uuid s
          in (Suc n, s1\<lparr>events := events s1 @ [\<lparr>ev_id = i, ev_tenant_id = tenant, ev_campaign_id = campaign_of cache ev,
               ev_channel_id = None, ev_type = wa_event_type ev, ev_metric_value = Some (pg_numeric 4 (wa_metric_value ev)),
               ev_payload = web_payload ev, ev_provider_event_id = Some (wa_provider_event_id ev),
               ev_at = wa_event_at ev\<rparr>]\<rparr>))"

record ingest_summary =
  is_imported :: nat
  is_duplicates :: nat
  is_unattributed :: nat

definition ingest_events :: "uuid \<Rightarrow> web_event list \<Rightarrow> db \<Rightarrow> ingest_summary \<times> db" where
  "ingest_events tenant evs s =
     (let cache = utm_cache tenant evs s;
          (n, s') = fold (insert_web_event tenant cache) evs (0, s)
      in (\<lparr>is_imported = n, is_duplicates = length evs - n,
           is_unattributed = length (filter (\<lambda>ev. campaign_of cache ev = None) evs)\<rparr>, s'))"

text \<open>\<^verbatim>\<open>POST /api/integrations/plausible/sync\<close> with its breadcrumb task.\<close>

definition sync_task :: "env \<Rightarrow> app_user \<Rightarrow> agent \<Rightarrow> string \<Rightarrow> int \<Rightarrow> nat \<Rightarrow> ingest_summary \<Rightarrow> uuid \<Rightarrow> task" where
  "sync_task e user ag site n_days fetched sm i =
     \<lparr>task_id = i, task_tenant_id = user_tenant_id user, task_campaign_id = None, task_agent_id = ag_id ag,
      task_parent_id = None, task_skill_name = ''ingest.web_analytics.plausible'', task_status_of = TSucceeded,
      task_priority = 5, task_attempt = 1, task_max_attempts = 3, task_idempotency_key = None,
      task_leased_until = None, task_worker_id = None,
      task_input_data = [(''days'', JInt n_days), (''window_start'', JStr (isoformat (env_now e - Prelude.days n_days))),
         (''window_end'', JStr (isoformat (env_now e))), (''site_id'', JStr site)],
      task_output_data = [(''fetched'', JInt (int fetched)), (''imported'', JInt (int (is_imported sm))),
         (''duplicates'', JInt (int (is_duplicates sm))), (''unattributed'', JInt (int (is_unattributed sm)))],
      task_error_message = None, task_scheduled_for = env_now e, task_started_at = Some (env_now e),
      task_completed_at = Some (env_now e)\<rparr>"

definition plausible_sync ::
  "string \<Rightarrow> string \<Rightarrow> (instant \<Rightarrow> instant \<Rightarrow> dict) \<Rightarrow> instant \<Rightarrow> app_user \<Rightarrow> int \<Rightarrow> db \<Rightarrow> (ingest_summary \<times> db) res" where
  "plausible_sync token site respond now user n_days s =
     (case require_role Admin user of
        Inl err \<Rightarrow> Inl err
      | Inr _ \<Rightarrow>
          if token = [] \<or> site = [] then Inl (HTTPException 503)
          else (let since = now - Prelude.days n_days in
            case fetch_events site (respond since now) since now of
              Inl err \<Rightarrow> Inl err
            | Inr evs \<Rightarrow>
                (let (sm, s1) = ingest_events (user_tenant_id user) evs s; e = user_env now user
                 in case ensure_orchestrator_agent e (user_tenant_id user) s1 of
                      Inl err \<Rightarrow> Inl err
                    | Inr (ag, s2) \<Rightarrow>
                        (let (i, s3) = fresh_uuid s2
                         in Inr (sm, s3\<lparr>tasks := tasks s3 @ [sync_task e user ag site n_days (length evs) sm i]\<rparr>)))))"

section \<open>Each event once\<close>

lemma insert_web_new:
  assumes "\<not> recorded tenant (wa_provider_event_id ev) s"
  obtains s' x where "insert_web_event tenant cache ev (n, s) = (Suc n, s')" "events s' = events s @ [x]" "ev_tenant_id x = tenant"
    "ev_channel_id x = None" "ev_campaign_id x = campaign_of cache ev" "ev_type x = wa_event_type ev"
    "ev_provider_event_id x = Some (wa_provider_event_id ev)" "campaigns s' = campaigns s" "attempts s' = attempts s" "assets s' = assets s"
  using assms by (auto simp: insert_web_event_def fresh_uuid_def)

lemma insert_web_old:
  "recorded tenant (wa_provider_event_id ev) s \<Longrightarrow> insert_web_event tenant cache ev (n, s) = (n, s)"
  by (simp add: insert_web_event_def)

interpretation web_writer: event_writer tenant "\<lambda>ev. Some (wa_provider_event_id ev)" "insert_web_event tenant cache" for tenant cache
proof
  fix ev :: web_event and t :: nat and s pid
  show "\<exists>new. events (snd (insert_web_event tenant cache ev (t, s))) = events s @ new
      \<and> (\<forall>x\<in>set new. ev_tenant_id x = tenant \<and> ev_channel_id x = None)"
  proof (cases "recorded tenant (wa_provider_event_id ev) s")
    case False
    then show ?thesis by (rule insert_web_new [of tenant ev s cache t]) simp
  qed (simp add: insert_web_old)
  show "recorded tenant pid (snd (insert_web_event tenant cache ev (t, s)))" if "Some (wa_provider_event_id ev) = Some pid"
  proof (cases "recorded tenant (wa_provider_event_id ev) s")
    case False
    then show ?thesis by (rule insert_web_new [of tenant ev s cache t]) (use that in \<open>simp add: recorded_def\<close>)
  qed (use that in \<open>simp add: insert_web_old\<close>)
  show "snd (insert_web_event tenant cache ev (t, s)) = s"
    if "Some (wa_provider_event_id ev) = None \<or> (\<exists>pid. Some (wa_provider_event_id ev) = Some pid \<and> recorded tenant pid s)"
    using that by (auto simp: insert_web_old)
qed

lemma ingest_events_appends:
  "\<exists>new. events (snd (ingest_events tenant evs s)) = events s @ new
     \<and> (\<forall>x\<in>set new. ev_tenant_id x = tenant \<and> ev_channel_id x = None)"
  unfolding ingest_events_def Let_def split_beta snd_conv by (rule web_writer.fold_appends)

lemma ingest_counts:
  "fst (fold (insert_web_event tenant cache) evs (n, s)) + length (events s)
     = n + length (events (snd (fold (insert_web_event tenant cache) evs (n, s))))"
proof (induction evs arbitrary: n s)
  case (Cons ev evs)
  show ?case
  proof (cases "recorded tenant (wa_provider_event_id ev) s")
    case False
    obtain s' x where "insert_web_event tenant cache ev (n, s) = (Suc n, s')" "events s' = events s @ [x]"
      by (rule insert_web_new [OF False])
    with Cons [of "Suc n" s'] show ?thesis by simp
  qed (simp add: insert_web_old Cons)
qed simp

text \<open>Ingesting the same web analytics a second time writes nothing and reports all of it as duplicates.\<close>

theorem web_ingest_idempotent:
  assumes "ingest_events tenant evs s = (sm, s1)"
  shows "\<exists>sm2. ingest_events tenant evs s1 = (sm2, s1) \<and> is_imported sm2 = 0 \<and> is_duplicates sm2 = length evs
    \<and> is_imported sm = length (events s1) - length (events s)"
proof -
  let ?c = "utm_cache tenant evs s" and ?c1 = "utm_cache tenant evs s1"
  have s1: "s1 = snd (fold (insert_web_event tenant ?c) evs (0, s))" and n: "is_imported sm = fst (fold (insert_web_event tenant ?c) evs (0, s))"
    using assms by (auto simp: ingest_events_def Let_def split_beta)
  have "recorded tenant pid s1" if "ev \<in> set evs" "Some (wa_provider_event_id ev) = Some pid" for ev pid
    unfolding s1 by (rule web_writer.fold_writes [OF that])
  then have again: "snd (fold (insert_web_event tenant ?c1) evs (0, s1)) = s1" by (rule web_writer.fold_skips)
  with ingest_counts [of tenant ?c1 evs 0 s1] have "fst (fold (insert_web_event tenant ?c1) evs (0, s1)) = 0" by simp
  moreover have "is_imported sm = length (events s1) - length (events s)"
    using ingest_counts [of tenant ?c evs 0 s] n s1 by simp
  ultimately show ?thesis using again by (simp add: ingest_events_def Let_def split_beta)
qed

end
