(* ===== verification/Kpi_Rollup.thy ===== *)
theory Kpi_Rollup
  imports Web_Ingest
begin

text \<open>
  The live dashboard's rollup (\<^verbatim>\<open>app/analytics/kpi_rollup.py\<close>) and its endpoint (\<^verbatim>\<open>app/api/analytics_kpis.py\<close>):
  attribution of events to a campaign with the channel and asset filters, counts per kind, spend, derived rates and the
  freshness of each source. Groups of a \<^verbatim>\<open>GROUP BY\<close> come in order of first appearance.
\<close>

section \<open>Attribution\<close>

definition sg_message_id :: "analytic_event \<Rightarrow> string option" where
  "sg_message_id ev = json_text (dict_get (ev_payload ev) ''sg_message_id'')"

text \<open>An attempt of the tenant carries the event's message id.\<close>

definition attempt_names :: "uuid \<Rightarrow> analytic_event \<Rightarrow> dispatch_attempt \<Rightarrow> bool" where
  "attempt_names tenant ev att \<longleftrightarrow> att_tenant_id att = tenant \<and> att_provider_message_id att \<noteq> None
     \<and> sg_message_id ev = att_provider_message_id att"

definition via_asset :: "uuid \<Rightarrow> (content_asset \<Rightarrow> bool) \<Rightarrow> db \<Rightarrow> analytic_event \<Rightarrow> bool" where
  "via_asset tenant P s ev \<longleftrightarrow>
     list_ex (\<lambda>att. attempt_names tenant ev att \<and> list_ex (\<lambda>a. asset_id a = att_asset_id att \<and> P a) (assets s)) (attempts s)"

definition base_filter :: "uuid \<Rightarrow> uuid \<Rightarrow> uuid option \<Rightarrow> uuid option \<Rightarrow> db \<Rightarrow> analytic_event \<Rightarrow> bool" where
  "base_filter tenant camp channel asset s ev \<longleftrightarrow>
     ev_tenant_id ev = tenant
     \<and> (ev_campaign_id ev = Some camp \<or> via_asset tenant (\<lambda>a. asset_tenant_id a = tenant \<and> asset_campaign_id a = camp) s ev)
     \<and> (case channel of None \<Rightarrow> True
        | Some ch \<Rightarrow> ev_channel_id ev = Some ch
            \<or> via_asset tenant (\<lambda>a. asset_tenant_id a = tenant \<and> asset_campaign_id a = camp \<and> asset_channel_id a = Some ch) s ev)
     \<and> (case asset of None \<Rightarrow> True
        | Some i \<Rightarrow> list_ex (\<lambda>att. attempt_names tenant ev att \<and> att_asset_id att = i) (attempts s))"

section \<open>Counts\<close>

record campaign_kpis =
  k_impressions :: nat
  k_opens :: nat
  k_clicks :: nat
  k_replies :: nat
  k_conversions :: nat
  k_unsubscribes :: nat
  k_bounces :: nat
  k_spam_complaints :: nat
  k_spend :: rat

definition kind_count :: "event_kind \<Rightarrow> analytic_event list \<Rightarrow> nat" where
  "kind_count k evs = length (filter (\<lambda>ev. ev_type ev = k) evs)"

definition metric_sum :: "analytic_event list \<Rightarrow> rat" where
  "metric_sum evs = sum_list (List.map_filter ev_metric_value evs)"

definition kpis_of :: "analytic_event list \<Rightarrow> campaign_kpis" where
  "kpis_of evs = \<lparr>k_impressions = kind_count EImpression evs, k_opens = kind_count EOpen evs, k_clicks = kind_count EClick evs,
     k_replies = kind_count EReply evs, k_conversions = kind_count EConversion evs,
     k_unsubscribes = kind_count EUnsubscribe evs, k_bounces = kind_count EBounce evs,
     k_spam_complaints = kind_count ESpamComplaint evs,
     k_spend = metric_sum (filter (\<lambda>ev. ev_type ev = ESpend) evs)\<rparr>"

section \<open>Derived metrics\<close>

definition rate :: "nat \<Rightarrow> nat \<Rightarrow> rat" where
  "rate part whole = (if whole \<noteq> 0 then quantize 4 (dec28 (of_nat part / of_nat whole)) else 0)"

definition cost_per :: "rat \<Rightarrow> nat \<Rightarrow> rat option" where
  "cost_per spend n = (if n \<noteq> 0 then Some (quantize 2 (dec28 (spend / of_nat n))) else None)"

definition kpis_as_dict :: "campaign_kpis \<Rightarrow> dict" where
  "kpis_as_dict k =
     [(''impressions'', JInt (int (k_impressions k))), (''opens'', JInt (int (k_opens k))), (''clicks'', JInt (int (k_clicks k))),
      (''replies'', JInt (int (k_replies k))), (''conversions'', JInt (int (k_conversions k))),
      (''unsubscribes'', JInt (int (k_unsubscribes k))), (''bounces'', JInt (int (k_bounces k))),
      (''spam_complaints'', JInt (int (k_spam_complaints k))),
      (''spend'', JStr (if k_spend k = 0 then ''0'' else numeric_str 4 (k_spend k))),
      (''derived'', JObj
        [(''ctr'', JStr (numeric_str 4 (rate (k_clicks k) (k_impressions k)))),
         (''open_rate'', JStr (numeric_str 4 (rate (k_opens k) (k_impressions k)))),
         (''click_to_open'', JStr (numeric_str 4 (rate (k_clicks k) (k_opens k)))),
         (''unsubscribe_rate'', JStr (numeric_str 4 (rate (k_unsubscribes k) (k_impressions k)))),
         (''cpl'', opt_json (JStr \<circ> numeric_str 2) (cost_per (k_spend k) (k_conversions k))),
         (''cpa'', opt_json (JStr \<circ> numeric_str 2) (cost_per (k_spend k) (k_conversions k)))])]"

section \<open>Freshness\<close>

definition documented_latency_seconds :: "string \<Rightarrow> int" where
  "documented_latency_seconds name =
     (case map_of [(''plausible'', 300), (''sendgrid'', 60), (''linkedin'', 600), (''csv_upload'', 0), (''unknown'', 0)] name of
        None \<Rightarrow> 0 | Some n \<Rightarrow> n)"

definition source_of :: "analytic_event \<Rightarrow> string" where
  "source_of ev =
     (if sg_message_id ev \<noteq> None then ''sendgrid''
      else case ev_provider_event_id ev of
             Some pid \<Rightarrow> if has_prefix ''plausible:'' pid then ''plausible'' else ''unknown''
           | None \<Rightarrow> ''unknown'')"

record source_freshness =
  sf_name :: string
  sf_last_event_at :: instant
  sf_freshness_seconds :: int
  sf_documented :: int

definition freshness_of :: "instant \<Rightarrow> analytic_event list \<Rightarrow> source_freshness list" where
  "freshness_of now evs =
     map (\<lambda>name. let last = Max (ev_at ` set (filter (\<lambda>ev. source_of ev = name) evs))
        in \<lparr>sf_name = name, sf_last_event_at = last, sf_freshness_seconds = max 0 ((now - last) div usec_per_sec),
            sf_documented = documented_latency_seconds name\<rparr>)
       (rev (remdups (rev (map source_of evs))))"

record kpi_snapshot =
  ks_campaign_id :: uuid
  ks_kpis :: campaign_kpis
  ks_sources :: "source_freshness list"
  ks_generated_at :: instant

definition compute_campaign_kpis ::
  "instant \<Rightarrow> uuid \<Rightarrow> uuid \<Rightarrow> uuid option \<Rightarrow> uuid option \<Rightarrow> db \<Rightarrow> kpi_snapshot" where
  "compute_campaign_kpis now tenant camp channel asset s =
     (let evs = filter (base_filter tenant camp channel asset s) (events s)
      in \<lparr>ks_campaign_id = camp, ks_kpis = kpis_of evs, ks_sources = freshness_of now evs, ks_generated_at = now\<rparr>)"

definition get_campaign_kpis ::
  "instant \<Rightarrow> app_user \<Rightarrow> uuid \<Rightarrow> uuid option \<Rightarrow> uuid option \<Rightarrow> db \<Rightarrow> (dict \<times> source_freshness list) res" where
  "get_campaign_kpis now user camp channel asset s =
     (case require_role Viewer user of
        Inl err \<Rightarrow> Inl err
      | Inr _ \<Rightarrow>
          (case tenant_campaign user camp s of
             None \<Rightarrow> Inl (HTTPException 404)
           | Some _ \<Rightarrow>
               (let snap = compute_campaign_kpis now (user_tenant_id user) camp channel asset s
                in Inr (kpis_as_dict (ks_kpis snap), ks_sources snap))))"

section \<open>Dashboard and report agree\<close>

text \<open>The tenant of an asset is the tenant of the attempts made for it.\<close>

definition attempts_in_tenant :: "db \<Rightarrow> bool" where
  "attempts_in_tenant s \<longleftrightarrow> (\<forall>att\<in>set (attempts s). \<forall>a\<in>set (assets s). asset_id a = att_asset_id att \<longrightarrow> asset_tenant_id a = att_tenant_id att)"

lemma base_filter_attributed:
  assumes "attempts_in_tenant s"
  shows "base_filter tenant camp None None s ev \<longleftrightarrow> attributed tenant camp s ev"
proof -
  have "via_asset tenant (\<lambda>a. asset_tenant_id a = tenant \<and> asset_campaign_id a = camp) s ev = indirect_link tenant camp s ev"
    unfolding via_asset_def indirect_link_def attempt_names_def sg_message_id_def list_ex_iff
    using assms unfolding attempts_in_tenant_def by (intro bex_cong) auto
  then show ?thesis by (simp add: base_filter_def attributed_def)
qed

lemma metric_sum_report:
  "metric_sum evs = sum_list (map (\<lambda>ev. case ev_metric_value ev of None \<Rightarrow> 0 | Some q \<Rightarrow> q) evs)"
  by (induction evs) (auto simp: metric_sum_def List.map_filter_def)

definition metric_fields :: "(string \<times> (campaign_kpis \<Rightarrow> nat)) list" where
  "metric_fields = [(''impression'', k_impressions), (''open'', k_opens), (''click'', k_clicks), (''reply'', k_replies),
     (''conversion'', k_conversions), (''unsubscribe'', k_unsubscribes), (''bounce'', k_bounces),
     (''spam_complaint'', k_spam_complaints)]"

text \<open>C32. The dashboard and the end-of-campaign report agree, where every dispatch attempt has the tenant of its asset: as
  soon as any event is attributed to the campaign, the report gives a value for every metric and for the spend, and it is
  the dashboard's number (zero for a kind that has no events, where the docstring of \<^verbatim>\<open>_kpis_vs_target\<close> announces null);
  with no event at all the report says that there is no data, and all of the dashboard's numbers are zero.\<close>

theorem rollup_matches_report:
  assumes "attempts_in_tenant s"
  shows "let k = ks_kpis (compute_campaign_kpis now tenant camp None None s);
             no_data = (attributed_events tenant camp s = [])
    in (\<forall>(m, field)\<in>set metric_fields.
          count_metric tenant camp (JStr m) s = (if no_data then None else Some (int (field k))) \<and> (no_data \<longrightarrow> field k = 0))
      \<and> spend_total tenant camp s = (if no_data then None else Some (if k_spend k = 0 then ''0'' else numeric_str 4 (k_spend k)))
      \<and> (no_data \<longrightarrow> k_spend k = 0)"
proof -
  let ?evs = "attributed_events tenant camp s"
  have k: "ks_kpis (compute_campaign_kpis now tenant camp None None s) = kpis_of ?evs"
  proof -
    have "base_filter tenant camp None None s = attributed tenant camp s"
      by (rule ext) (rule base_filter_attributed [OF assms])
    then show ?thesis unfolding compute_campaign_kpis_def attributed_events_def Let_def by simp
  qed
  have 1: "\<forall>(m, field)\<in>set metric_fields. count_metric tenant camp (JStr m) s = (if ?evs = [] then None else Some (int (field (kpis_of ?evs))))
      \<and> (?evs = [] \<longrightarrow> field (kpis_of ?evs) = 0)"
    by (simp add: metric_fields_def count_metric_def kpis_of_def kind_count_def event_kind_of_def Let_def)
  moreover have "spend_total tenant camp s = (if ?evs = [] then None
      else Some (if k_spend (kpis_of ?evs) = 0 then ''0'' else numeric_str 4 (k_spend (kpis_of ?evs))))"
    unfolding spend_total_def spend_str_def kpis_of_def Let_def by (simp add: metric_sum_report)
  moreover have "?evs = [] \<longrightarrow> k_spend (kpis_of ?evs) = 0" by (simp add: kpis_of_def metric_sum_def)
  ultimately show ?thesis unfolding Let_def k by (intro conjI 1)
qed

section \<open>Aggregated events\<close>

lemma base_filter_frame:
  "attempts s' = attempts s \<Longrightarrow> assets s' = assets s \<Longrightarrow> base_filter tenant camp ch a s' = base_filter tenant camp ch a s"
  by (rule ext) (simp add: base_filter_def via_asset_def [abs_def] cong: option.case_cong)

text \<open>A web analytics event stands for a whole bucket of page views, but the dashboard counts it as a single
  impression: importing a bucket that is attributed to the campaign raises the impressions by one, whatever number of
  page views it carries.\<close>

theorem bucket_counts_as_one_impression:
  assumes "wa_event_type ev = EImpression" "\<not> recorded tenant (wa_provider_event_id ev) s"
    and "has_utm ev" "resolve_campaign_by_utm tenant (wa_utm_campaign ev) s = Some camp"
    and "ingest_events tenant [ev\<lparr>wa_metric_value := pageviews\<rparr>] s = (sm, s')"
  shows "k_impressions (ks_kpis (compute_campaign_kpis now' tenant camp None None s'))
    = Suc (k_impressions (ks_kpis (compute_campaign_kpis now tenant camp None None s)))"
proof -
  let ?ev = "ev\<lparr>wa_metric_value := pageviews\<rparr>"
  let ?cache = "utm_cache tenant [?ev] s"
  have utm: "has_utm ?ev" "utm_key ?ev = utm_key ev" using assms(3) by (simp_all add: has_utm_def utm_key_def)
  have camp: "campaign_of ?cache ?ev = Some camp" using utm assms(4) by (simp add: campaign_of_def utm_cache_def)
  have new: "\<not> recorded tenant (wa_provider_event_id ?ev) s" using assms(2) by simp
  obtain s1 x where 1: "insert_web_event tenant ?cache ?ev (0, s) = (Suc 0, s1)" "events s1 = events s @ [x]" "ev_tenant_id x = tenant"
    "ev_campaign_id x = campaign_of ?cache ?ev" "ev_type x = wa_event_type ?ev" "attempts s1 = attempts s" "assets s1 = assets s"
    by (rule insert_web_new [OF new])
  have "s' = s1" using assms(5) 1(1) by (simp add: ingest_events_def Let_def)
  moreover have "base_filter tenant camp None None s x" using 1(3,4) camp by (simp add: base_filter_def)
  ultimately show ?thesis
    using 1(2,5) assms(1) by (simp add: compute_campaign_kpis_def base_filter_frame [OF 1(6,7)] kpis_of_def kind_count_def Let_def)
qed

section \<open>A concrete instance\<close>

definition demo_bucket :: web_event where
  "demo_bucket = \<lparr>wa_provider_event_id = ''plausible:x'', wa_event_type = EImpression, wa_metric_value = 0, wa_event_at = 3,
     wa_utm_campaign = Some ''spring'', wa_utm_source = None, wa_utm_medium = None, wa_payload = []\<rparr>"

theorem bucket_counts_as_one_impression_witness:
  "k_impressions (ks_kpis (compute_campaign_kpis 9 1 7 None None
     (snd (ingest_events 1 [demo_bucket\<lparr>wa_metric_value := 500\<rparr>] (empty_db\<lparr>campaigns := [demo_campaign Live]\<rparr>))))) = 1"
proof -
  let ?s = "empty_db\<lparr>campaigns := [demo_campaign Live]\<rparr>"
  have "wa_event_type demo_bucket = EImpression" "\<not> recorded 1 (wa_provider_event_id demo_bucket) ?s" "has_utm demo_bucket"
    by (simp_all add: demo_bucket_def recorded_def empty_db_def has_utm_def)
  moreover have "resolve_campaign_by_utm 1 (wa_utm_campaign demo_bucket) ?s = Some 7" by code_simp
  moreover have "k_impressions (ks_kpis (compute_campaign_kpis 9 1 7 None None ?s)) = 0"
    by (simp add: compute_campaign_kpis_def kpis_of_def kind_count_def empty_db_def)
  moreover obtain sm s' where "ingest_events 1 [demo_bucket\<lparr>wa_metric_value := 500\<rparr>] ?s = (sm, s')" by force
  ultimately show ?thesis
    using bucket_counts_as_one_impression [of demo_bucket 1 ?s 7 500 sm s' 9 9] by simp
qed

theorem rollup_matches_report_witness:
  "count_metric 1 7 (JStr ''click'') (empty_db\<lparr>events := [click_event]\<rparr>)
     = Some (int (k_clicks (ks_kpis (compute_campaign_kpis 9 1 7 None None (empty_db\<lparr>events := [click_event]\<rparr>)))))"
proof -
  let ?s = "empty_db\<lparr>events := [click_event]\<rparr>"
  have ok: "attempts_in_tenant ?s" by (simp add: attempts_in_tenant_def empty_db_def)
  have "attributed_events 1 7 ?s \<noteq> []" by (simp add: attributed_events_def attributed_def click_event_def)
  moreover have "(''click'', k_clicks) \<in> set metric_fields" by (simp add: metric_fields_def)
  ultimately show ?thesis using rollup_matches_report [OF ok, of 9 1 7] unfolding Let_def by fastforce
qed

end
