(* ===== verification/Anomaly.thy ===== *)
theory Anomaly
  imports Kpi_Rollup
begin

text \<open>
  Anomaly detection of \<^verbatim>\<open>app/analytics/anomaly.py\<close> and its endpoints in \<^verbatim>\<open>app/api/analytics.py\<close>: the daily series
  of a metric, the comparison of its last day with the median of the days before, the rows it writes with their
  notification, automatic pausing and dismissal. The population deviation is compared through its exact square; the
  stored deviation and sigma are the square roots rounded to the digits of their columns. Days are UTC days.
\<close>

section \<open>Statistics\<close>

fun isqrt :: "nat \<Rightarrow> nat" where
  "isqrt n = (if n = 0 then 0 else let r = 2 * isqrt (n div 4) in if Suc r * Suc r \<le> n then Suc r else r)"

declare isqrt.simps [simp del]

text \<open>The square root of a rational, rounded to \<open>k\<close> digits.\<close>

definition root_round :: "nat \<Rightarrow> rat \<Rightarrow> rat" where
  "root_round k v =
     (let n = nat \<lfloor>v * 100 ^ k\<rfloor>; r = isqrt n
      in of_nat (if (of_nat r + 1/2) ^ 2 \<le> v * 100 ^ k then Suc r else r) / 10 ^ k)"

definition median :: "nat list \<Rightarrow> rat" where
  "median xs =
     (let ys = sort xs; n = length ys
      in if odd n then of_nat (ys ! (n div 2)) else (of_nat (ys ! (n div 2 - 1)) + of_nat (ys ! (n div 2))) / 2)"

definition pvariance :: "nat list \<Rightarrow> rat" where
  "pvariance xs =
     (let n = of_nat (length xs); m = sum_list (map of_nat xs) / n
      in sum_list (map (\<lambda>x. (of_nat x - m) ^ 2) xs) / n)"

section \<open>Detection\<close>

definition critical_metrics :: "event_kind list" where
  "critical_metrics = [EUnsubscribe, EBounce, ESpamComplaint]"

definition hot_metrics :: "event_kind list" where
  "hot_metrics = [EOpen, EClick, EReply, EConversion, EUnsubscribe, EBounce, ESpamComplaint]"

definition baseline_days :: nat where "baseline_days = 14"

definition sigma_threshold :: rat where "sigma_threshold = 3"

definition silence_between_fires :: duration where "silence_between_fires = hours 24"

definition daily_counts :: "instant \<Rightarrow> uuid \<Rightarrow> uuid \<Rightarrow> event_kind \<Rightarrow> db \<Rightarrow> (date \<times> nat) list" where
  "daily_counts now tenant camp metric s =
     (let evs = filter (\<lambda>ev. ev_type ev = metric \<and> now - days (int baseline_days) \<le> ev_at ev) (attributed_events tenant camp s)
      in map (\<lambda>d. (d, length (filter (\<lambda>ev. date_of (ev_at ev) = d) evs))) (sort (remdups (map (\<lambda>ev. date_of (ev_at ev)) evs))))"

record detected_anomaly =
  da_metric :: event_kind
  da_window_start :: instant
  da_window_end :: instant
  da_observed :: nat
  da_median :: rat
  da_variance :: rat
  da_sigma :: rat  \<comment> \<open>to four digits\<close>
  da_severity :: string

text \<open>\<^verbatim>\<open>sigma > 3\<close>, where a constant baseline counts any other value as 9999 deviations.\<close>

definition deviates :: "rat \<Rightarrow> rat \<Rightarrow> rat \<Rightarrow> bool" where
  "deviates var med obs \<longleftrightarrow> (if var = 0 then obs \<noteq> med else sigma_threshold ^ 2 * var < (obs - med) ^ 2)"

definition sigma_of :: "rat \<Rightarrow> rat \<Rightarrow> rat \<Rightarrow> rat" where
  "sigma_of var med obs = (if var = 0 then 9999 else root_round 4 ((obs - med) ^ 2 / var))"

definition detect_one :: "instant \<Rightarrow> uuid \<Rightarrow> uuid \<Rightarrow> event_kind \<Rightarrow> db \<Rightarrow> detected_anomaly option" where
  "detect_one now tenant camp metric s =
     (let series = daily_counts now tenant camp metric s
      in if length series < baseline_days then None
         else let baseline = map snd (butlast series);
                  (day, obs) = last series;
                  med = median baseline;
                  var = pvariance baseline
              in if \<not> deviates var med (of_nat obs) then None
                 else Some \<lparr>da_metric = metric, da_window_start = day * usec_per_day,
                        da_window_end = day * usec_per_day + days 1, da_observed = obs, da_median = med,
                        da_variance = var, da_sigma = sigma_of var med (of_nat obs),
                        da_severity = (if metric \<in> set critical_metrics then ''critical'' else ''warning'')\<rparr>)"

definition silenced :: "instant \<Rightarrow> uuid \<Rightarrow> uuid \<Rightarrow> event_kind \<Rightarrow> db \<Rightarrow> bool" where
  "silenced now tenant camp metric s \<longleftrightarrow>
     list_ex (\<lambda>a. an_tenant_id a = tenant \<and> an_campaign_id a = camp \<and> an_metric a = event_kind_value metric
       \<and> now - silence_between_fires \<le> an_created_at a \<and> an_dismissed_at a = None) (anomalies s)"

text \<open>The insert; a sigma of 10000 or more does not fit \<^verbatim>\<open>NUMERIC(8, 4)\<close>.\<close>

definition insert_anomaly :: "env \<Rightarrow> uuid \<Rightarrow> uuid \<Rightarrow> detected_anomaly \<Rightarrow> db \<Rightarrow> (metric_anomaly \<times> db) res" where
  "insert_anomaly e tenant camp d s =
     (if 10000 \<le> da_sigma d then Inl DataError
      else let (i, s1) = fresh_uuid s;
               row = \<lparr>an_id = i, an_tenant_id = tenant, an_campaign_id = camp, an_metric = event_kind_value (da_metric d),
                      an_window_start = da_window_start d, an_window_end = da_window_end d,
                      an_observed = of_nat (da_observed d), an_median = quantize 6 (da_median d),
                      an_stddev = root_round 6 (da_variance d), an_sigma = da_sigma d, an_severity = da_severity d,
                      an_dismissed_at = None, an_dismissed_by = None, an_created_at = env_now e\<rparr>
           in Inr (row, s1\<lparr>anomalies := anomalies s1 @ [row]\<rparr>))"

definition notify_critical_anomaly :: "env \<Rightarrow> metric_anomaly \<Rightarrow> db \<Rightarrow> db" where
  "notify_critical_anomaly e a s =
     (let recipients = (case get_campaign (an_campaign_id a) s of
            None \<Rightarrow> []
          | Some c \<Rightarrow> (case camp_owner_id c of None \<Rightarrow> [] | Some o' \<Rightarrow> [JStr (uuid_str o')]))
      in write_audit e (an_tenant_id a) ''metric_anomaly'' (an_id a) ''anomaly_notification_dispatched'' None None
           [(''metric'', JStr (an_metric a)), (''severity'', JStr (an_severity a)), (''recipients'', JArr recipients),
            (''campaign_id'', JStr (uuid_str (an_campaign_id a)))] s)"

definition detect_metric ::
  "env \<Rightarrow> uuid \<Rightarrow> uuid \<Rightarrow> event_kind \<Rightarrow> metric_anomaly list \<times> db \<Rightarrow> (metric_anomaly list \<times> db) res" where
  "detect_metric e tenant camp metric = (\<lambda>(out, s).
     (case detect_one (env_now e) tenant camp metric s of
        None \<Rightarrow> Inr (out, s)
      | Some d \<Rightarrow>
          if silenced (env_now e) tenant camp metric s then Inr (out, s)
          else (case insert_anomaly e tenant camp d s of
             Inl err \<Rightarrow> Inl err
           | Inr (row, s1) \<Rightarrow>
               Inr (out @ [row], if da_severity d = ''critical'' then notify_critical_anomaly e row s1 else s1))))"

definition detect_anomalies :: "env \<Rightarrow> uuid \<Rightarrow> uuid \<Rightarrow> db \<Rightarrow> (metric_anomaly list \<times> db) res" where
  "detect_anomalies e tenant camp s = for_each (detect_metric e tenant camp) hot_metrics ([], s)"

section \<open>Automatic pause and dismissal\<close>

definition recent_anomalies :: "uuid \<Rightarrow> uuid \<Rightarrow> event_kind \<Rightarrow> db \<Rightarrow> metric_anomaly list" where
  "recent_anomalies tenant camp metric s =
     take 2 (sort_key (\<lambda>a. - an_created_at a) (filter (\<lambda>a. an_tenant_id a = tenant \<and> an_campaign_id a = camp
       \<and> an_metric a = event_kind_value metric \<and> an_dismissed_at a = None) (anomalies s)))"

definition should_auto_pause :: "uuid \<Rightarrow> uuid \<Rightarrow> db \<Rightarrow> bool res" where
  "should_auto_pause tenant camp s =
     (case compliance_row tenant s of
        Inl err \<Rightarrow> Inl err
      | Inr None \<Rightarrow> Inr False
      | Inr (Some row) \<Rightarrow>
          Inr (cs_auto_pause row \<and> list_ex (\<lambda>m. length (recent_anomalies tenant camp m s) \<ge> 2
             \<and> list_all (\<lambda>a. an_severity a = ''critical'') (recent_anomalies tenant camp m s)) critical_metrics))"

definition dismissed :: "instant \<Rightarrow> uuid \<Rightarrow> metric_anomaly \<Rightarrow> metric_anomaly" where
  "dismissed now who a = a\<lparr>an_dismissed_at := Some now, an_dismissed_by := Some who\<rparr>"

definition dismiss_anomaly :: "instant \<Rightarrow> uuid \<Rightarrow> uuid \<Rightarrow> db \<Rightarrow> (metric_anomaly \<times> db) res" where
  "dismiss_anomaly now i who s =
     (case find_row (\<lambda>a. an_id a = i) (anomalies s) of
        None \<Rightarrow> Inl LookupError
      | Some a \<Rightarrow> Inr (dismissed now who a,
          s\<lparr>anomalies := update_where (\<lambda>a. an_id a = i) (dismissed now who) (anomalies s)\<rparr>))"

definition list_anomalies :: "app_user \<Rightarrow> uuid \<Rightarrow> bool \<Rightarrow> db \<Rightarrow> metric_anomaly list res" where
  "list_anomalies user camp include_dismissed s =
     (case require_role Viewer user of
        Inl err \<Rightarrow> Inl err
      | Inr _ \<Rightarrow>
          (case tenant_campaign user camp s of
             None \<Rightarrow> Inl (HTTPException 404)
           | Some _ \<Rightarrow> Inr (sort_key (\<lambda>a. - an_created_at a) (filter (\<lambda>a. an_tenant_id a = user_tenant_id user
               \<and> an_campaign_id a = camp \<and> (include_dismissed \<or> an_dismissed_at a = None)) (anomalies s)))))"

definition dismiss_anomaly_endpoint :: "instant \<Rightarrow> app_user \<Rightarrow> uuid \<Rightarrow> db \<Rightarrow> (metric_anomaly \<times> db) res" where
  "dismiss_anomaly_endpoint now user i s =
     (case require_role Admin user of
        Inl err \<Rightarrow> Inl err
      | Inr _ \<Rightarrow>
          (case find_row (\<lambda>a. an_id a = i \<and> an_tenant_id a = user_tenant_id user) (anomalies s) of
             None \<Rightarrow> Inl (HTTPException 404)
           | Some a \<Rightarrow> if an_dismissed_at a \<noteq> None then Inr (a, s) else dismiss_anomaly now i (user_id user) s))"

section \<open>One pass\<close>

lemma attributed_frame:
  "attempts s' = attempts s \<Longrightarrow> assets s' = assets s \<Longrightarrow> attributed tenant camp s' = attributed tenant camp s"
  by (rule ext) (simp add: attributed_def indirect_link_def)

lemma detect_one_frame:
  assumes "attempts s' = attempts s" "assets s' = assets s" "events s' = events s"
  shows "detect_one now tenant camp m s' = detect_one now tenant camp m s"
  unfolding detect_one_def daily_counts_def attributed_events_def attributed_frame [OF assms(1,2)] assms(3) ..

lemma event_kind_value_eq [simp]: "event_kind_value k = event_kind_value l \<longleftrightarrow> k = l"
  by (cases k; cases l) simp_all

lemma silenced_append:
  assumes "anomalies s' = anomalies s @ rows" "\<forall>r\<in>set rows. an_metric r \<noteq> event_kind_value m"
  shows "silenced now tenant camp m s' = silenced now tenant camp m s"
  using assms by (auto simp: silenced_def list_ex_iff)

text \<open>The metrics that fire in a pass.\<close>

definition fires :: "instant \<Rightarrow> uuid \<Rightarrow> uuid \<Rightarrow> db \<Rightarrow> event_kind \<Rightarrow> bool" where
  "fires now tenant camp s m \<longleftrightarrow> detect_one now tenant camp m s \<noteq> None \<and> \<not> silenced now tenant camp m s"

text \<open>A row as a pass writes it.\<close>

definition row_of_pass :: "env \<Rightarrow> uuid \<Rightarrow> uuid \<Rightarrow> db \<Rightarrow> event_kind \<Rightarrow> metric_anomaly \<Rightarrow> bool" where
  "row_of_pass e tenant camp s m a \<longleftrightarrow>
     an_tenant_id a = tenant \<and> an_campaign_id a = camp \<and> an_metric a = event_kind_value m \<and> an_created_at a = env_now e
     \<and> an_dismissed_at a = None
     \<and> (\<exists>d. detect_one (env_now e) tenant camp m s = Some d \<and> da_sigma d < 10000 \<and> an_observed a = of_nat (da_observed d)
          \<and> an_severity a = da_severity d)"

lemma write_audit_anomalies [simp]: "anomalies (write_audit e ten k i act b a m s) = anomalies s"
  "events (write_audit e ten k i act b a m s) = events s"
  by (simp_all add: write_audit_def)

lemma notify_frame [simp]:
  "anomalies (notify_critical_anomaly e a s) = anomalies s" "events (notify_critical_anomaly e a s) = events s"
  "attempts (notify_critical_anomaly e a s) = attempts s" "assets (notify_critical_anomaly e a s) = assets s"
  by (simp_all add: notify_critical_anomaly_def Let_def)

lemma insert_anomaly_Inr:
  assumes "insert_anomaly e tenant camp d s = Inr (row, s1)"
  shows "da_sigma d < 10000" "anomalies s1 = anomalies s @ [row]" "events s1 = events s" "attempts s1 = attempts s"
    "assets s1 = assets s" "an_tenant_id row = tenant" "an_campaign_id row = camp"
    "an_metric row = event_kind_value (da_metric d)" "an_created_at row = env_now e" "an_dismissed_at row = None"
    "an_observed row = of_nat (da_observed d)" "an_severity row = da_severity d"
  using assms by (auto simp: insert_anomaly_def fresh_uuid_def Let_def split: if_splits)

lemma detect_one_metric: "detect_one now tenant camp m s = Some d \<Longrightarrow> da_metric d = m"
  by (auto simp: detect_one_def Let_def split: if_splits prod.splits)

lemma detect_metric_step:
  assumes "detect_metric e tenant camp m (out, s) = Inr (out', s')"
  obtains rows where "out' = out @ rows" "anomalies s' = anomalies s @ rows" "events s' = events s"
    "attempts s' = attempts s" "assets s' = assets s" "list_all2 (row_of_pass e tenant camp s) (filter (fires (env_now e) tenant camp s) [m]) rows"
proof (cases "detect_one (env_now e) tenant camp m s")
  case None
  then show thesis using assms that [of "[]"] by (simp add: detect_metric_def fires_def)
next
  case (Some d)
  show thesis
  proof (cases "silenced (env_now e) tenant camp m s")
    case True
    then show thesis using assms Some that [of "[]"] by (simp add: detect_metric_def fires_def)
  next
    case False
    then obtain row s1 where row: "insert_anomaly e tenant camp d s = Inr (row, s1)" "out' = out @ [row]"
      "s' = (if da_severity d = ''critical'' then notify_critical_anomaly e row s1 else s1)"
      using assms Some by (auto simp: detect_metric_def split: sum.splits)
    show thesis
      using insert_anomaly_Inr [OF row(1)] row(2,3) Some False detect_one_metric [OF Some]
      by (intro that [of "[row]"]) (auto simp: fires_def row_of_pass_def)
  qed
qed

lemma row_of_pass_frame:
  assumes "attempts s' = attempts s" "assets s' = assets s" "events s' = events s"
  shows "row_of_pass e tenant camp s' m a = row_of_pass e tenant camp s m a"
  by (simp add: row_of_pass_def detect_one_frame [OF assms])

lemma detect_loop:
  "for_each (detect_metric e tenant camp) ms (out, s) = Inr (out', s') \<Longrightarrow> distinct ms \<Longrightarrow>
   \<exists>rows. out' = out @ rows \<and> anomalies s' = anomalies s @ rows \<and> events s' = events s \<and> attempts s' = attempts s
     \<and> assets s' = assets s \<and> list_all2 (row_of_pass e tenant camp s) (filter (fires (env_now e) tenant camp s) ms) rows"
proof (induction ms arbitrary: out s)
  case (Cons m ms)
  obtain out1 s1 where 1: "detect_metric e tenant camp m (out, s) = Inr (out1, s1)"
    and 2: "for_each (detect_metric e tenant camp) ms (out1, s1) = Inr (out', s')"
    using Cons.prems(1) by (auto split: sum.splits)
  obtain rows1 where r1: "out1 = out @ rows1" "anomalies s1 = anomalies s @ rows1" "events s1 = events s"
    "attempts s1 = attempts s" "assets s1 = assets s"
    "list_all2 (row_of_pass e tenant camp s) (filter (fires (env_now e) tenant camp s) [m]) rows1"
    by (rule detect_metric_step [OF 1])
  obtain rows2 where r2: "out' = out1 @ rows2" "anomalies s' = anomalies s1 @ rows2" "events s' = events s1"
    "attempts s' = attempts s1" "assets s' = assets s1"
    "list_all2 (row_of_pass e tenant camp s1) (filter (fires (env_now e) tenant camp s1) ms) rows2"
    using Cons.IH [OF 2] Cons.prems(2) by auto
  have rows1: "an_metric r = event_kind_value m" if "r \<in> set rows1" for r
    using that r1(6) by (auto simp: row_of_pass_def list_all2_Cons1 split: if_splits)
  have "fires (env_now e) tenant camp s1 m' = fires (env_now e) tenant camp s m'" if m': "m' \<in> set ms" for m'
  proof -
    have "m' \<noteq> m" using m' Cons.prems(2) by auto
    then have "silenced (env_now e) tenant camp m' s1 = silenced (env_now e) tenant camp m' s"
      using rows1 by (intro silenced_append [OF r1(2)]) auto
    then show ?thesis by (simp add: fires_def detect_one_frame [OF r1(4,5,3)])
  qed
  then have "filter (fires (env_now e) tenant camp s1) ms = filter (fires (env_now e) tenant camp s) ms"
    by (auto intro: filter_cong)
  then have 3: "list_all2 (row_of_pass e tenant camp s) (filter (fires (env_now e) tenant camp s) ms) rows2"
    using r2(6) by (auto simp: row_of_pass_frame [OF r1(4,5,3)] elim!: list_all2_mono)
  have "filter (fires (env_now e) tenant camp s) (m # ms)
      = filter (fires (env_now e) tenant camp s) [m] @ filter (fires (env_now e) tenant camp s) ms" by simp
  then have "list_all2 (row_of_pass e tenant camp s) (filter (fires (env_now e) tenant camp s) (m # ms)) (rows1 @ rows2)"
    using list_all2_appendI [OF r1(6) 3] by simp
  with r1 r2 show ?case by auto
qed simp

lemma distinct_hot_metrics [simp]: "distinct hot_metrics"
  by (simp add: hot_metrics_def)

lemma detect_anomalies_rows:
  assumes "detect_anomalies e tenant camp s = Inr (rows, s')"
  shows "anomalies s' = anomalies s @ rows" "events s' = events s" "attempts s' = attempts s" "assets s' = assets s"
    "list_all2 (row_of_pass e tenant camp s) (filter (fires (env_now e) tenant camp s) hot_metrics) rows"
  using detect_loop [OF assms [unfolded detect_anomalies_def]] by auto

lemma detect_quiet:
  "(\<forall>m\<in>set ms. \<not> fires (env_now e) tenant camp s m) \<Longrightarrow> for_each (detect_metric e tenant camp) ms (out, s) = Inr (out, s)"
  by (induction ms) (auto simp: detect_metric_def fires_def split: option.splits)

lemma pass_row_fires:
  assumes "detect_anomalies e tenant camp s = Inr (rows, s')" "a \<in> set rows"
  obtains m where "m \<in> set hot_metrics" "fires (env_now e) tenant camp s m" "row_of_pass e tenant camp s m a"
proof -
  obtain m where "m \<in> set (filter (fires (env_now e) tenant camp s) hot_metrics)" "row_of_pass e tenant camp s m a"
    using detect_anomalies_rows(5) [OF assms(1)] assms(2) by (metis in_set_conv_nth list_all2_conv_all_nth)
  then show thesis using that by auto
qed

lemma pass_fires_row:
  assumes "detect_anomalies e tenant camp s = Inr (rows, s')" "m \<in> set hot_metrics" "fires (env_now e) tenant camp s m"
  obtains a where "a \<in> set rows" "row_of_pass e tenant camp s m a"
proof -
  have "m \<in> set (filter (fires (env_now e) tenant camp s) hot_metrics)" using assms(2,3) by simp
  then show thesis using detect_anomalies_rows(5) [OF assms(1)] that by (metis in_set_conv_nth list_all2_conv_all_nth)
qed

text \<open>After a pass, every metric that deviates is silenced, and a metric has one row of it.\<close>

lemma pass_silences:
  assumes "detect_anomalies e tenant camp s = Inr (rows, s')" "m \<in> set hot_metrics"
  shows "silenced (env_now e) tenant camp m s' \<or> detect_one (env_now e) tenant camp m s = None"
proof (cases "fires (env_now e) tenant camp s m")
  case True
  obtain a where "a \<in> set rows" "row_of_pass e tenant camp s m a" by (rule pass_fires_row [OF assms True])
  then show ?thesis
    using detect_anomalies_rows(1) [OF assms(1)]
    by (auto simp: silenced_def list_ex_iff row_of_pass_def silence_between_fires_def hours_def)
next
  case False
  then show ?thesis using detect_anomalies_rows(1) [OF assms(1)] by (auto simp: fires_def silenced_def)
qed

lemma pass_metric_unique:
  assumes "detect_anomalies e tenant camp s = Inr (rows, s')" "a \<in> set rows" "b \<in> set rows" "an_metric a = an_metric b"
  shows "a = b"
proof -
  let ?ms = "filter (fires (env_now e) tenant camp s) hot_metrics"
  obtain i j where ij: "i < length rows" "rows ! i = a" "j < length rows" "rows ! j = b"
    using assms(2,3) by (auto simp: in_set_conv_nth)
  have all: "row_of_pass e tenant camp s (?ms ! i) a" "row_of_pass e tenant camp s (?ms ! j) b" "length ?ms = length rows"
    using detect_anomalies_rows(5) [OF assms(1)] ij by (auto simp: list_all2_conv_all_nth)
  then have "?ms ! i = ?ms ! j" using assms(4) by (auto simp: row_of_pass_def)
  then have "i = j" using all(3) ij nth_eq_iff_index_eq [of ?ms i j] by simp
  then show ?thesis using ij by simp
qed

text \<open>A detection pass is idempotent: after a pass that succeeded, another pass over the same data at the same time
  finds every deviating metric already reported and writes nothing.\<close>

theorem detect_anomalies_idempotent:
  assumes "detect_anomalies e tenant camp s = Inr (rows, s')"
  shows "detect_anomalies e tenant camp s' = Inr ([], s')"
proof -
  note pass = detect_anomalies_rows [OF assms]
  have "\<not> fires (env_now e) tenant camp s' m" if "m \<in> set hot_metrics" for m
    using pass_silences [OF assms that] detect_one_frame [OF pass(3,4,2)] by (auto simp: fires_def)
  then show ?thesis unfolding detect_anomalies_def by (intro detect_quiet) blast
qed

section \<open>What the detector cannot see\<close>

lemma daily_counts_pos: "(d, n) \<in> set (daily_counts now tenant camp m s) \<Longrightarrow> 0 < n"
  by (auto simp: daily_counts_def Let_def filter_empty_conv)

lemma detect_one_observed:
  assumes "detect_one now tenant camp m s = Some d"
  shows "0 < da_observed d"
proof -
  let ?series = "daily_counts now tenant camp m s"
  have "?series \<noteq> []" using assms by (auto simp: detect_one_def baseline_days_def)
  then have "last ?series \<in> set ?series" by simp
  moreover have "da_observed d = snd (last ?series)"
    using assms by (auto simp: detect_one_def Let_def split: if_splits prod.splits)
  ultimately show ?thesis using daily_counts_pos by (metis prod.collapse)
qed

text \<open>An engagement that stops altogether is never reported: days without an event are missing from the series
  instead of counting as zero, so every anomaly a pass writes has an observed value of at least one.\<close>

theorem drop_to_zero_unnoticed:
  assumes "detect_anomalies e tenant camp s = Inr (rows, s')" "a \<in> set rows"
  shows "1 \<le> an_observed a"
proof -
  obtain m where "row_of_pass e tenant camp s m a" by (rule pass_row_fires [OF assms])
  then obtain d where "detect_one (env_now e) tenant camp m s = Some d" "an_observed a = of_nat (da_observed d)"
    by (auto simp: row_of_pass_def)
  then show ?thesis using detect_one_observed by fastforce
qed

section \<open>Dismissal\<close>

lemma dismissed_simps [simp]:
  "an_id (dismissed now who a) = an_id a" "an_metric (dismissed now who a) = an_metric a"
  "an_tenant_id (dismissed now who a) = an_tenant_id a" "an_campaign_id (dismissed now who a) = an_campaign_id a"
  "an_created_at (dismissed now who a) = an_created_at a" "an_dismissed_at (dismissed now who a) = Some now"
  by (simp_all add: dismissed_def)

lemma detect_loop_fires:
  assumes "m \<in> set ms" "distinct ms" "fires (env_now e) tenant camp s m" "detect_one (env_now e) tenant camp m s = Some d" "da_sigma d < 10000"
    and "\<forall>m'\<in>set ms. m' \<noteq> m \<longrightarrow> \<not> fires (env_now e) tenant camp s m'"
  shows "\<exists>row s'. for_each (detect_metric e tenant camp) ms ([], s) = Inr ([row], s') \<and> row_of_pass e tenant camp s m row"
  using assms(1,2,6)
proof (induction ms)
  case (Cons x xs)
  show ?case
  proof (cases "x = m")
    case True
    obtain row s1 where row: "insert_anomaly e tenant camp d s = Inr (row, s1)" using assms(5) by (auto simp: insert_anomaly_def fresh_uuid_def Let_def)
    let ?s2 = "if da_severity d = ''critical'' then notify_critical_anomaly e row s1 else s1"
    have step: "detect_metric e tenant camp m ([], s) = Inr ([row], ?s2)"
      using row assms(3,4) by (simp add: detect_metric_def fires_def)
    note ins = insert_anomaly_Inr [OF row]
    have "\<not> fires (env_now e) tenant camp ?s2 m'" if "m' \<in> set xs" for m'
    proof -
      have "m' \<noteq> m" "\<not> fires (env_now e) tenant camp s m'" using that Cons.prems True by auto
      moreover have "silenced (env_now e) tenant camp m' ?s2 = silenced (env_now e) tenant camp m' s"
        using ins(2,8) detect_one_metric [OF assms(4)] \<open>m' \<noteq> m\<close> by (intro silenced_append [of _ _ "[row]"]) auto
      moreover have "detect_one (env_now e) tenant camp m' ?s2 = detect_one (env_now e) tenant camp m' s"
        using ins(3-5) by (intro detect_one_frame) auto
      ultimately show ?thesis by (simp add: fires_def)
    qed
    then have "for_each (detect_metric e tenant camp) xs ([row], ?s2) = Inr ([row], ?s2)" by (intro detect_quiet) blast
    moreover have "row_of_pass e tenant camp s m row"
      using ins detect_one_metric [OF assms(4)] assms(4,5) by (auto simp: row_of_pass_def)
    ultimately show ?thesis using True step by auto
  next
    case False
    then have "detect_metric e tenant camp x ([], s) = Inr ([], s)"
      using Cons.prems by (auto simp: detect_metric_def fires_def split: option.splits)
    then show ?thesis using Cons False by auto
  qed
qed simp

lemma dismiss_anomaly_Inr:
  assumes "dismiss_anomaly now i who s = Inr (a', s')"
  shows "attempts s' = attempts s" "assets s' = assets s" "events s' = events s"
    "anomalies s' = update_where (\<lambda>x. an_id x = i) (dismissed now who) (anomalies s)"
  using assms by (auto simp: dismiss_anomaly_def split: option.splits)

lemma silenced_dismiss_other:
  assumes "dismiss_anomaly now i who s = Inr (a', s')" "\<forall>x\<in>set (anomalies s). an_id x = i \<longrightarrow> an_metric x \<noteq> event_kind_value m"
  shows "silenced t tenant camp m s' = silenced t tenant camp m s"
  using assms(2) unfolding silenced_def dismiss_anomaly_Inr(4) [OF assms(1)] list_ex_iff update_where_def by auto

lemma silenced_dismiss_same:
  assumes "dismiss_anomaly now i who s = Inr (a', s')"
    and "\<And>x. x \<in> set (anomalies s) \<Longrightarrow> an_id x \<noteq> i \<Longrightarrow> an_tenant_id x = tenant \<Longrightarrow> an_campaign_id x = camp \<Longrightarrow>
      an_metric x = event_kind_value m \<Longrightarrow> an_dismissed_at x = None \<Longrightarrow> an_created_at x < t - silence_between_fires"
  shows "\<not> silenced t tenant camp m s'"
  unfolding silenced_def dismiss_anomaly_Inr(4) [OF assms(1)] list_ex_iff update_where_def
  using assms(2) by (fastforce split: if_splits)

text \<open>Dismissing an anomaly does not silence its metric, although the endpoint promises 24 hours of silence: the next
  pass over the same data, even at the same moment, reports the metric again (only undismissed rows count towards the
  silence window).\<close>

theorem dismissed_anomaly_refires:
  assumes "detect_anomalies e tenant camp s = Inr (rows, s1)" "a \<in> set rows" "distinct (map an_id (anomalies s1))"
    and "dismiss_anomaly (env_now e) (an_id a) who s1 = Inr (a', s2)"
  shows "\<exists>row s3. detect_anomalies e tenant camp s2 = Inr ([row], s3) \<and> an_metric row = an_metric a"
proof -
  note pass = detect_anomalies_rows [OF assms(1)] and dis = dismiss_anomaly_Inr [OF assms(4)]
  obtain m where m: "m \<in> set hot_metrics" "fires (env_now e) tenant camp s m" "row_of_pass e tenant camp s m a"
    by (rule pass_row_fires [OF assms(1,2)])
  obtain d where d: "detect_one (env_now e) tenant camp m s = Some d" "da_sigma d < 10000" using m(3) by (auto simp: row_of_pass_def)
  have one: "detect_one (env_now e) tenant camp m' s2 = detect_one (env_now e) tenant camp m' s" for m'
    by (rule detect_one_frame) (simp_all add: dis pass)
  have a: "an_metric a = event_kind_value m" using m(3) by (simp add: row_of_pass_def)
  have ins: "a \<in> set (anomalies s1)" using assms(2) pass(1) by simp
  have inj: "inj_on an_id (set (anomalies s1))" using assms(3) by (simp only: distinct_map)
  have same: "x = a" if "x \<in> set (anomalies s1)" "an_id x = an_id a" for x
    by (rule inj_onD [OF inj that(2,1) ins])
  have "\<not> silenced (env_now e) tenant camp m s2"
  proof (rule silenced_dismiss_same [OF assms(4)])
    fix x assume x: "x \<in> set (anomalies s1)" "an_id x \<noteq> an_id a" "an_tenant_id x = tenant" "an_campaign_id x = camp"
      "an_metric x = event_kind_value m" "an_dismissed_at x = None"
    then have "x \<notin> set rows" using pass_metric_unique [OF assms(1) _ assms(2), of x] a by auto
    then have old: "x \<in> set (anomalies s)" using x(1) pass(1) by simp
    show "an_created_at x < env_now e - silence_between_fires"
    proof (rule ccontr)
      assume "\<not> an_created_at x < env_now e - silence_between_fires"
      then have "silenced (env_now e) tenant camp m s" using old x by (auto simp: silenced_def list_ex_iff not_less)
      then show False using m(2) by (simp add: fires_def)
    qed
  qed
  then have f: "fires (env_now e) tenant camp s2 m" using d one by (simp add: fires_def)
  have quiet: "\<not> fires (env_now e) tenant camp s2 m'" if "m' \<in> set hot_metrics" "m' \<noteq> m" for m'
  proof -
    have "silenced (env_now e) tenant camp m' s2 = silenced (env_now e) tenant camp m' s1"
    proof (rule silenced_dismiss_other [OF assms(4)], intro ballI impI)
      fix x assume "x \<in> set (anomalies s1)" "an_id x = an_id a"
      then have "x = a" by (rule same)
      then show "an_metric x \<noteq> event_kind_value m'" using a that(2) by simp
    qed
    then show ?thesis using pass_silences [OF assms(1) that(1)] one by (auto simp: fires_def)
  qed
  have "detect_one (env_now e) tenant camp m s2 = Some d" using d one by simp
  then obtain row s3 where row: "detect_anomalies e tenant camp s2 = Inr ([row], s3)" "row_of_pass e tenant camp s2 m row"
    using detect_loop_fires [OF m(1) distinct_hot_metrics f _ d(2)] quiet unfolding detect_anomalies_def by blast
  then show ?thesis using a by (auto simp: row_of_pass_def)
qed

text \<open>A deviation of 10000 or more baseline deviations (a mailing after two weeks of one or two opens a day) aborts the
  whole pass, since the column cannot hold it.\<close>

lemma for_each_detect_error: "for_each (detect_metric e tenant camp) ms st = Inl err \<Longrightarrow> err = DataError"
  by (induction ms arbitrary: st)
    (auto simp: detect_metric_def insert_anomaly_def fresh_uuid_def Let_def split: sum.splits option.splits if_splits prod.splits)

lemma huge_deviation_aborts:
  assumes "m \<in> set hot_metrics" "fires (env_now e) tenant camp s m" "detect_one (env_now e) tenant camp m s = Some d" "10000 \<le> da_sigma d"
  shows "detect_anomalies e tenant camp s = Inl DataError"
proof (cases "detect_anomalies e tenant camp s")
  case (Inl err)
  then show ?thesis using for_each_detect_error unfolding detect_anomalies_def by metis
next
  case (Inr r)
  then obtain rows s' where "detect_anomalies e tenant camp s = Inr (rows, s')" by (cases r) simp
  from pass_fires_row [OF this assms(1,2)] obtain a where "row_of_pass e tenant camp s m a" by blast
  then show ?thesis using assms(3,4) by (auto simp: row_of_pass_def)
qed

section \<open>A concrete instance\<close>

text \<open>One click a day for 13 days, then five.\<close>

definition demo_click :: "int \<Rightarrow> analytic_event" where
  "demo_click day = \<lparr>ev_id = 0, ev_tenant_id = 1, ev_campaign_id = Some 7, ev_channel_id = None, ev_type = EClick,
     ev_metric_value = None, ev_payload = [], ev_provider_event_id = None, ev_at = day * usec_per_day\<rparr>"

definition demo_clicks :: db where
  "demo_clicks = empty_db\<lparr>events := map demo_click [0, 1, 2, 3, 4, 5, 6, 7, 8, 9, 10, 11, 12, 13, 13, 13, 13, 13]\<rparr>"

definition demo_noon :: env where
  "demo_noon = worker_env (13 * usec_per_day + hours 12)"

lemma demo_pass:
  "case detect_anomalies demo_noon 1 7 demo_clicks of Inl _ \<Rightarrow> False
   | Inr (rows, s') \<Rightarrow> length rows = 1 \<and> distinct (map an_id (anomalies s'))
       \<and> \<not> isl (dismiss_anomaly (env_now demo_noon) (an_id (hd rows)) 3 s')"
  by code_simp

lemma demo_passE:
  obtains a s1 a' s2 where "detect_anomalies demo_noon 1 7 demo_clicks = Inr ([a], s1)" "distinct (map an_id (anomalies s1))"
    "dismiss_anomaly (env_now demo_noon) (an_id a) 3 s1 = Inr (a', s2)"
proof -
  obtain rows s1 where 1: "detect_anomalies demo_noon 1 7 demo_clicks = Inr (rows, s1)" "length rows = 1" "distinct (map an_id (anomalies s1))"
    "\<not> isl (dismiss_anomaly (env_now demo_noon) (an_id (hd rows)) 3 s1)"
    using demo_pass by (auto split: sum.splits)
  then obtain a where "rows = [a]" by (auto simp: length_Suc_conv)
  moreover obtain a' s2 where "dismiss_anomaly (env_now demo_noon) (an_id (hd rows)) 3 s1 = Inr (a', s2)"
    using 1(4) by (cases "dismiss_anomaly (env_now demo_noon) (an_id (hd rows)) 3 s1") auto
  ultimately show thesis using that 1 by simp
qed

theorem detect_anomalies_idempotent_witness:
  "\<exists>a s1. detect_anomalies demo_noon 1 7 demo_clicks = Inr ([a], s1) \<and> detect_anomalies demo_noon 1 7 s1 = Inr ([], s1)"
proof -
  obtain a s1 where "detect_anomalies demo_noon 1 7 demo_clicks = Inr ([a], s1)" by (rule demo_passE)
  then show ?thesis using detect_anomalies_idempotent by blast
qed

theorem drop_to_zero_unnoticed_witness:
  "\<exists>a s1. detect_anomalies demo_noon 1 7 demo_clicks = Inr ([a], s1) \<and> 1 \<le> an_observed a"
proof -
  obtain a s1 where 1: "detect_anomalies demo_noon 1 7 demo_clicks = Inr ([a], s1)" by (rule demo_passE)
  then show ?thesis using drop_to_zero_unnoticed [OF 1, of a] by auto
qed

theorem dismissed_anomaly_refires_witness:
  "\<exists>a s1 a' s2 row s3. detect_anomalies demo_noon 1 7 demo_clicks = Inr ([a], s1)
     \<and> dismiss_anomaly (env_now demo_noon) (an_id a) 3 s1 = Inr (a', s2)
     \<and> detect_anomalies demo_noon 1 7 s2 = Inr ([row], s3) \<and> an_metric row = an_metric a"
proof -
  obtain a s1 a' s2 where 1: "detect_anomalies demo_noon 1 7 demo_clicks = Inr ([a], s1)" "distinct (map an_id (anomalies s1))"
    "dismiss_anomaly (env_now demo_noon) (an_id a) 3 s1 = Inr (a', s2)" by (rule demo_passE)
  then show ?thesis using dismissed_anomaly_refires [OF 1(1) _ 1(2,3)] by auto
qed

end
