(* ===== verification/Recommendations.thy ===== *)
theory Recommendations
  imports Anomaly Py_Decimal
begin

text \<open>
  Optimisation recommendations (\<^verbatim>\<open>app/analytics/recommendations.py\<close>), their endpoints in \<^verbatim>\<open>app/api/analytics.py\<close> and
  the nightly pass of \<^verbatim>\<open>app/agents/analytics.py\<close>: per-channel metrics, the choice of leader and laggard by cost per
  outcome, the size of a budget shift with its clamps, and what accepting one writes. A float written as text of at
  most 15 digits is that text's value. A \<^verbatim>\<open>NaN\<close> amount is refused by the budget table.
\<close>

section \<open>Conversions\<close>

text \<open>\<^verbatim>\<open>_as_decimal\<close>: the value together with the text \<^verbatim>\<open>str\<close> gives of it.\<close>

definition as_decimal :: "json \<Rightarrow> (decimal \<times> string) option" where
  "as_decimal v =
     (if v = JNull then None
      else map_option (\<lambda>d. (d, case dec_parts (py_str v) of Some p \<Rightarrow> dec_print p | None \<Rightarrow> py_str v)) (decimal_of v))"

text \<open>\<^verbatim>\<open>float(v)\<close>\<close>

definition py_float :: "json \<Rightarrow> decimal res" where
  "py_float v =
     (case v of
        JInt i \<Rightarrow> if 2 ^ 1024 \<le> \<bar>i\<bar> then Inl OverflowError else Inr (DNum (of_int i))
      | JFloat q \<Rightarrow> Inr (DNum q)
      | JBool b \<Rightarrow> Inr (DNum (if b then 1 else 0))
      | JStr s \<Rightarrow> (case decimal_of_str s of None \<Rightarrow> Inl ValueError | Some d \<Rightarrow> Inr d)
      | _ \<Rightarrow> Inl TypeError)"

section \<open>Channel metrics\<close>

definition min_data_days :: nat where "min_data_days = 5"

record channel_metric =
  cm_channel_id :: uuid
  cm_name :: string
  cm_spend :: rat
  cm_clicks :: nat
  cm_impressions :: nat
  cm_conversions :: nat
  cm_min_daily_spend :: "(decimal \<times> string) option"

datatype outcome = Conversion | Click

fun outcome_value :: "outcome \<Rightarrow> string" where
  "outcome_value Conversion = ''conversion''"
| "outcome_value Click = ''click''"

definition outcomes :: "outcome \<Rightarrow> channel_metric \<Rightarrow> nat" where
  "outcomes oc m = (case oc of Conversion \<Rightarrow> cm_conversions m | Click \<Rightarrow> cm_clicks m)"

definition cost_per_outcome :: "outcome \<Rightarrow> channel_metric \<Rightarrow> rat" where
  "cost_per_outcome oc m =
     (if cm_spend m \<le> 0 then 0 else if outcomes oc m = 0 then 0 else dec28 (cm_spend m / of_nat (outcomes oc m)))"

definition channel_metric_of :: "db \<Rightarrow> analytic_event list \<Rightarrow> uuid \<Rightarrow> channel_metric" where
  "channel_metric_of s evs ch =
     (let mine = filter (\<lambda>ev. ev_channel_id ev = Some ch) evs
      in \<lparr>cm_channel_id = ch, cm_name = channel_name s (Some ch),
          cm_spend = dec28 (metric_sum (filter (\<lambda>ev. ev_type ev = ESpend) mine)),
          cm_clicks = kind_count EClick mine, cm_impressions = kind_count EImpression mine,
          cm_conversions = kind_count EConversion mine,
          cm_min_daily_spend = (case find_row (\<lambda>c. ch_id c = ch) (channels s) of
              None \<Rightarrow> None | Some c \<Rightarrow> as_decimal (dict_get (ch_api_config c) ''min_daily_spend''))\<rparr>)"

definition channel_metrics :: "uuid \<Rightarrow> uuid \<Rightarrow> instant \<Rightarrow> db \<Rightarrow> channel_metric list" where
  "channel_metrics tenant camp since s =
     (let evs = filter (\<lambda>ev. since \<le> ev_at ev) (attributed_events tenant camp s)
      in map (channel_metric_of s evs) (rev (remdups (rev (List.map_filter ev_channel_id evs)))))"

section \<open>The accepted strategy's allocations\<close>

text \<open>One entry of the dictionary: the percentage and the raw amount of a channel name.\<close>

type_synonym allocation = "decimal \<times> json"

definition allocation_step :: "json \<Rightarrow> (string \<times> allocation) list \<Rightarrow> (string \<times> allocation) list res" where
  "allocation_step c out =
     (case c of
        JObj d \<Rightarrow>
          (let name = dict_get d ''name''
           in if \<not> truthy name then Inr out
              else (case py_float (dict_get_default d ''allocation_pct'' (JInt 0)) of
                 Inl err \<Rightarrow> Inl err
               | Inr pct \<Rightarrow>
                   (case name of
                      JStr n \<Rightarrow> Inr (AList.update n (pct, dict_get d ''allocation_amount'') out)
                    | JArr _ \<Rightarrow> Inl TypeError
                    | JObj _ \<Rightarrow> Inl TypeError
                    | _ \<Rightarrow> Inr out)))
      | _ \<Rightarrow> Inl AttributeError)"

definition accepted_of_tenant :: "uuid \<Rightarrow> uuid \<Rightarrow> db \<Rightarrow> strategy_proposal option" where
  "accepted_of_tenant tenant camp s =
     (case sort_key (\<lambda>p. - prop_version p)
        (filter (\<lambda>p. prop_tenant_id p = tenant \<and> prop_campaign_id p = camp \<and> prop_is_accepted p) (proposals s)) of
        [] \<Rightarrow> None | p # _ \<Rightarrow> Some p)"

definition resolve_strategy_allocations :: "uuid \<Rightarrow> uuid \<Rightarrow> db \<Rightarrow> (string \<times> allocation) list res" where
  "resolve_strategy_allocations tenant camp s =
     (case accepted_of_tenant tenant camp s of
        None \<Rightarrow> Inr []
      | Some p \<Rightarrow>
          (let raw = dict_get (prop_payload p) ''channels''
           in if \<not> truthy raw then Inr []
              else (case py_iter raw of None \<Rightarrow> Inl TypeError | Some xs \<Rightarrow> for_each allocation_step xs [])))"

section \<open>The size of a shift\<close>

definition shift_default :: rat where "shift_default = 3 / 10"
definition shift_floor :: rat where "shift_floor = 1 / 10"
definition shift_ceiling :: rat where "shift_ceiling = 1 / 2"
definition min_ratio :: rat where "min_ratio = 12 / 10"

text \<open>The amount before the band is applied, and whether the minimum daily spend reduced it.\<close>

definition clamped_amount :: "rat \<Rightarrow> decimal option \<Rightarrow> (rat \<times> bool) res" where
  "clamped_amount alloc min_daily =
     (let proposed = dec28 (alloc * shift_default)
      in case min_daily of
           None \<Rightarrow> Inr (proposed, False)
         | Some DNaN \<Rightarrow> Inl InvalidOperation
         | Some (DInf neg) \<Rightarrow> Inr (if neg then (proposed, False) else (0, True))
         | Some (DNum f) \<Rightarrow>
             Inr (if 0 < f \<and> dec28 (alloc - f) < proposed then (max (dec28 (alloc - f)) 0, True) else (proposed, False)))"

definition shift_amount :: "rat \<Rightarrow> decimal option \<Rightarrow> (rat \<times> rat \<times> bool) option res" where
  "shift_amount alloc min_daily =
     (case clamped_amount alloc min_daily of
        Inl err \<Rightarrow> Inl err
      | Inr (amount, clamped) \<Rightarrow>
          (let pct = dec28 (amount / alloc)
           in Inr (if pct < shift_floor then None
                   else if shift_ceiling < pct then Some (dec28 (alloc * shift_ceiling), shift_ceiling, clamped)
                   else Some (amount, pct, clamped))))"

definition confidence_label :: "rat \<Rightarrow> string" where
  "confidence_label ratio = (if 2 \<le> ratio then ''high'' else if 15 / 10 \<le> ratio then ''medium'' else ''low'')"

definition predicted_uplift_of :: "rat \<Rightarrow> rat \<Rightarrow> rat \<Rightarrow> nat \<Rightarrow> rat" where
  "predicted_uplift_of amount leader_cpo laggard_cpo current =
     (let extra = dec28 (dec28 (amount / leader_cpo) - dec28 (amount / laggard_cpo));
          uplift = (if 0 < current then dec28 (extra / of_nat current) else 0)
      in max 0 (min uplift (99999 / 10000)))"

section \<open>The budget rule\<close>

definition pick_channels :: "channel_metric list \<Rightarrow> (outcome \<times> channel_metric \<times> channel_metric) option" where
  "pick_channels metrics =
     (if length metrics < 2 then None
      else let oc = (if 0 < sum_list (map cm_conversions metrics) then Conversion else Click);
               eligible = filter (\<lambda>m. 0 < cm_spend m \<and> 0 < outcomes oc m) metrics;
               ranked = sort_key (cost_per_outcome oc) eligible
           in if length eligible < 2 then None else Some (oc, hd ranked, last ranked))"

text \<open>\<^verbatim>\<open>ProposalBundle\<close>; \<open>pb_storable\<close> tells whether its floats are numbers JSONB accepts.\<close>

record proposal_bundle =
  pb_kind :: string
  pb_proposal :: dict
  pb_rationale :: string
  pb_predicted_uplift :: rat
  pb_supporting :: dict
  pb_storable :: bool

definition float_json :: "decimal \<Rightarrow> json" where
  "float_json d = (case d of DNum q \<Rightarrow> JFloat q | _ \<Rightarrow> JNull)"

definition cents_text :: "rat \<Rightarrow> string" where
  "cents_text q = money_str \<lfloor>q * 100\<rfloor>"

definition shift_rationale ::
  "outcome \<Rightarrow> channel_metric \<Rightarrow> channel_metric \<Rightarrow> rat \<Rightarrow> rat \<Rightarrow> rat \<Rightarrow> string \<Rightarrow> rat \<Rightarrow> bool \<Rightarrow> string" where
  "shift_rationale oc leader laggard leader_cpo laggard_cpo ratio amount uplift clamped =
     (let q = [CHR 0x27]; fixed = (\<lambda>k x. numeric_str k (quantize k x))
      in ''Channel '' @ q @ cm_name leader @ q @ '' cost-per-'' @ outcome_value oc @ '' is '' @ fixed 4 leader_cpo @ '' vs '' @ q
         @ cm_name laggard @ q @ '' at '' @ fixed 4 laggard_cpo @ '' over the last '' @ digits min_data_days @ '' days (''
         @ fixed 2 ratio @ [CHR 0xC3, CHR 0x97] @ '' ratio, confidence: '' @ confidence_label ratio @ ''). Shifting '' @ amount @ '' of '' @ q
         @ cm_name laggard @ q @ ''s budget to '' @ q @ cm_name leader @ q @ '' is projected to lift total ''
         @ outcome_value oc @ ''s by '' @ fixed 2 (uplift * 100) @ ''%.''
         @ (if clamped then '' Shift clamped to keep '' @ q @ cm_name laggard @ q @ '' above its minimum daily spend floor of ''
              @ (case cm_min_daily_spend laggard of Some (_, t) \<Rightarrow> t | None \<Rightarrow> []) @ ''.'' else []))"

text \<open>The leader's new amount as text; a \<^verbatim>\<open>NaN\<close> allocation stays one, an infinite one cannot be quantised.\<close>

definition leader_amounts :: "json \<Rightarrow> rat \<Rightarrow> (string \<times> string) res" where
  "leader_amounts raw amount =
     (case as_decimal raw of
        Some (DNaN, t) \<Rightarrow> Inr (t, ''NaN'')
      | Some (DInf _, t) \<Rightarrow> Inl InvalidOperation
      | Some (DNum b, t) \<Rightarrow>
          map_sum id (\<lambda>n. (if b = 0 then ''0'' else t, cents_text n)) (quantize_res 2 (dec28 (b + amount)))
      | None \<Rightarrow> map_sum id (\<lambda>n. (''0'', cents_text n)) (quantize_res 2 (dec28 amount)))"

definition shift_side :: "channel_metric \<Rightarrow> decimal \<Rightarrow> string \<Rightarrow> string \<Rightarrow> json" where
  "shift_side m pct old new =
     JObj [(''channel'', JStr (cm_name m)), (''channel_id'', JStr (uuid_str (cm_channel_id m))),
       (''allocation_pct'', float_json pct), (''allocation_amount'', JStr old), (''new_allocation_amount'', JStr new)]"

definition is_number :: "decimal \<Rightarrow> bool" where
  "is_number d = (case d of DNum _ \<Rightarrow> True | _ \<Rightarrow> False)"

definition shift_bundle ::
  "channel_metric list \<Rightarrow> outcome \<Rightarrow> channel_metric \<Rightarrow> channel_metric \<Rightarrow> rat \<Rightarrow> rat \<times> string \<Rightarrow> decimal \<Rightarrow> allocation
   \<Rightarrow> rat \<times> rat \<times> bool \<Rightarrow> proposal_bundle res" where
  "shift_bundle metrics oc leader laggard ratio from from_pct to shift =
     (let (alloc, alloc_text) = from;
          (to_pct, to_raw) = to;
          (amount, pct, clamped) = shift;
          leader_cpo = cost_per_outcome oc leader;
          laggard_cpo = cost_per_outcome oc laggard;
          uplift = predicted_uplift_of amount leader_cpo laggard_cpo (sum_list (map (outcomes oc) metrics))
      in case quantize_res 2 (dec28 (alloc - amount)) of
           Inl err \<Rightarrow> Inl err
         | Inr new_from \<Rightarrow>
             (case leader_amounts to_raw amount of
                Inl err \<Rightarrow> Inl err
              | Inr (to_text, new_to) \<Rightarrow>
                  (case quantize_res 2 amount of
                     Inl err \<Rightarrow> Inl err
                   | Inr shown \<Rightarrow>
                       (case quantize_res 4 ratio of
                          Inl err \<Rightarrow> Inl err
                        | Inr ratio4 \<Rightarrow>
                            Inr \<lparr>pb_kind = ''budget_shift'',
                              pb_proposal = [(''from'', shift_side laggard from_pct alloc_text (cents_text new_from)),
                                (''to'', shift_side leader to_pct to_text new_to),
                                (''proposed_amount'', JStr (cents_text shown)),
                                (''shift_pct'', JFloat (quantize 2 (dec28 (pct * 100)))),
                                (''confidence'', JStr (confidence_label ratio)), (''outcome'', JStr (outcome_value oc)),
                                (''clamped_to_floor'', JBool clamped)],
                              pb_rationale = shift_rationale oc leader laggard leader_cpo laggard_cpo ratio (cents_text shown) uplift clamped,
                              pb_predicted_uplift = uplift,
                              pb_supporting = [(''leader_outcomes'', JInt (int (outcomes oc leader))),
                                (''leader_spend'', JStr (numeric_str 4 (cm_spend leader))),
                                (''laggard_outcomes'', JInt (int (outcomes oc laggard))),
                                (''laggard_spend'', JStr (numeric_str 4 (cm_spend laggard))),
                                (''ratio'', JStr (numeric_str 4 ratio4))],
                              pb_storable = (is_number from_pct \<and> is_number to_pct)\<rparr>))))"

definition try_budget_shift :: "instant \<Rightarrow> uuid \<Rightarrow> uuid \<Rightarrow> db \<Rightarrow> proposal_bundle option res" where
  "try_budget_shift now tenant camp s =
     (let metrics = channel_metrics tenant camp (now - days (int min_data_days)) s
      in case pick_channels metrics of
           None \<Rightarrow> Inr None
         | Some (oc, leader, laggard) \<Rightarrow>
             (let ratio = dec28 (cost_per_outcome oc laggard / cost_per_outcome oc leader)
              in if cost_per_outcome oc leader \<le> 0 \<or> ratio < min_ratio then Inr None
                 else (case resolve_strategy_allocations tenant camp s of
                    Inl err \<Rightarrow> Inl err
                  | Inr allocs \<Rightarrow>
                      (case (map_of allocs (cm_name laggard), map_of allocs (cm_name leader)) of
                         (Some (from_pct, from_raw), Some to) \<Rightarrow>
                           (case as_decimal from_raw of
                              None \<Rightarrow> Inr None
                            | Some (DNaN, _) \<Rightarrow> Inl InvalidOperation
                            | Some (DInf neg, _) \<Rightarrow> if neg then Inr None else Inl InvalidOperation
                            | Some (DNum alloc, alloc_text) \<Rightarrow>
                                if alloc \<le> 0 then Inr None
                                else (case shift_amount alloc (map_option fst (cm_min_daily_spend laggard)) of
                                   Inl err \<Rightarrow> Inl err
                                 | Inr None \<Rightarrow> Inr None
                                 | Inr (Some shift) \<Rightarrow>
                                     map_sum id Some (shift_bundle metrics oc leader laggard ratio (alloc, alloc_text) from_pct to shift)))
                       | _ \<Rightarrow> Inr None))))"

definition already_pending :: "uuid \<Rightarrow> uuid \<Rightarrow> string \<Rightarrow> dict \<Rightarrow> db \<Rightarrow> bool" where
  "already_pending tenant camp kind target s \<longleftrightarrow>
     (let side = (\<lambda>d k. dict_get (as_dict (dict_get d k)) ''channel'')
      in list_ex (\<lambda>r. rec_tenant_id r = tenant \<and> rec_campaign_id r = camp \<and> rec_kind r = kind \<and> rec_status r = ''pending''
           \<and> side (rec_proposal r) ''from'' = side target ''from'' \<and> side (rec_proposal r) ''to'' = side target ''to'')
         (recommendations s))"

definition insert_recommendation :: "env \<Rightarrow> uuid \<Rightarrow> uuid \<Rightarrow> proposal_bundle \<Rightarrow> db \<Rightarrow> (recommendation \<times> db) res" where
  "insert_recommendation e tenant camp b s =
     (if \<not> pb_storable b then Inl DataError
      else let (i, s1) = fresh_uuid s;
               r = \<lparr>rec_id = i, rec_tenant_id = tenant, rec_campaign_id = camp, rec_kind = pb_kind b, rec_proposal = pb_proposal b,
                    rec_rationale = Some (pb_rationale b), rec_predicted_uplift = Some (pg_numeric 4 (pb_predicted_uplift b)),
                    rec_status = ''pending'', rec_applied_at = None, rec_applied_by = None, rec_created_at = env_now e\<rparr>
           in Inr (r, s1\<lparr>recommendations := recommendations s1 @ [r]\<rparr>))"

definition generate_recommendations :: "env \<Rightarrow> uuid \<Rightarrow> uuid \<Rightarrow> db \<Rightarrow> (recommendation list \<times> db) res" where
  "generate_recommendations e tenant camp s =
     (case get_campaign camp s of
        None \<Rightarrow> Inr ([], s)
      | Some c \<Rightarrow>
          if camp_tenant_id c \<noteq> tenant then Inr ([], s)
          else if env_now e - camp_start_date c * usec_per_day < days (int min_data_days) then Inr ([], s)
          else (case try_budget_shift (env_now e) tenant camp s of
             Inl err \<Rightarrow> Inl err
           | Inr None \<Rightarrow> Inr ([], s)
           | Inr (Some b) \<Rightarrow>
               if already_pending tenant camp (pb_kind b) (pb_proposal b) s then Inr ([], s)
               else map_sum id (\<lambda>(r, s1). ([r], s1)) (insert_recommendation e tenant camp b s)))"

section \<open>Endpoints\<close>

definition list_recommendations :: "app_user \<Rightarrow> uuid \<Rightarrow> rat \<Rightarrow> bool \<Rightarrow> db \<Rightarrow> recommendation list res" where
  "list_recommendations user camp min_uplift include_low s =
     (case require_role Viewer user of
        Inl err \<Rightarrow> Inl err
      | Inr _ \<Rightarrow>
          (case tenant_campaign user camp s of
             None \<Rightarrow> Inl (HTTPException 404)
           | Some _ \<Rightarrow> Inr (sort_key (\<lambda>r. - rec_created_at r) (filter (\<lambda>r. rec_tenant_id r = user_tenant_id user
               \<and> rec_campaign_id r = camp
               \<and> (include_low \<or> (case rec_predicted_uplift r of None \<Rightarrow> True | Some u \<Rightarrow> min_uplift \<le> u))) (recommendations s)))))"

text \<open>\<^verbatim>\<open>INSERT ... ON CONFLICT DO UPDATE\<close>.\<close>

definition upsert_row :: "('r \<Rightarrow> bool) \<Rightarrow> ('r \<Rightarrow> 'r) \<Rightarrow> 'r \<Rightarrow> 'r list \<Rightarrow> 'r list" where
  "upsert_row P f new rows = (if list_ex P rows then update_where P f rows else rows @ [new])"

lemma find_upsert_same:
  assumes "\<And>r. P r \<Longrightarrow> P (f r)" "P new"
  shows "find_row P (upsert_row P f new rows) = Some (case find_row P rows of None \<Rightarrow> new | Some r \<Rightarrow> f r)"
  using assms by (induction rows) (auto simp: upsert_row_def find_row_def update_where_def split: option.split)

lemma find_upsert_other:
  assumes "\<And>r. P r \<Longrightarrow> \<not> Q r \<and> \<not> Q (f r)" "\<not> Q new"
  shows "find_row Q (upsert_row P f new rows) = find_row Q rows"
proof -
  have "find_row Q (update_where P f rows) = find_row Q rows"
    using assms(1) by (induction rows) (auto simp: find_row_def)
  moreover have "find_row Q (rows @ [new]) = find_row Q rows"
    using assms(2) by (induction rows) (auto simp: find_row_def)
  ultimately show ?thesis by (simp add: upsert_row_def)
qed

text \<open>The upsert of one allocation, with the table's check and the width of its column.\<close>

definition upsert_allocated :: "uuid \<Rightarrow> uuid \<times> decimal \<Rightarrow> db \<Rightarrow> db res" where
  "upsert_allocated camp = (\<lambda>(ch, amount) s.
     (case amount of
        DNum q \<Rightarrow>
          (let m = pg_cents q; mine = (\<lambda>b. cb_campaign_id b = camp \<and> cb_channel_id b = ch)
           in if 10 ^ 14 \<le> \<bar>m\<bar> then Inl DataError
              else if m < 0 then Inl IntegrityError
              else Inr (s\<lparr>channel_budgets := upsert_row mine (\<lambda>b. b\<lparr>cb_allocated := m\<rparr>)
                     \<lparr>cb_campaign_id = camp, cb_channel_id = ch, cb_allocated = m, cb_spent = 0\<rparr> (channel_budgets s)\<rparr>))
      | _ \<Rightarrow> Inl DataError))"

definition new_amount :: "dict \<Rightarrow> decimal res" where
  "new_amount side =
     (let raw = dict_get side ''new_allocation_amount''
      in case decimal_of (if truthy raw then raw else JStr ''0'') of None \<Rightarrow> Inl InvalidOperation | Some d \<Rightarrow> Inr d)"

definition apply_budget_shift :: "recommendation \<Rightarrow> db \<Rightarrow> db res" where
  "apply_budget_shift r s =
     (let from = as_dict (dict_get (rec_proposal r) ''from'');
          to = as_dict (dict_get (rec_proposal r) ''to'')
      in case (dict_get from ''channel_id'', dict_get to ''channel_id'') of
           (JStr f, JStr t) \<Rightarrow>
             if f = [] \<or> t = [] then Inr s
             else (case (uuid_of_str f, uuid_of_str t) of
                (Some from_id, Some to_id) \<Rightarrow>
                  (case new_amount from of
                     Inl err \<Rightarrow> Inl err
                   | Inr new_from \<Rightarrow>
                       (case new_amount to of
                          Inl err \<Rightarrow> Inl err
                        | Inr new_to \<Rightarrow>
                            for_each (upsert_allocated (rec_campaign_id r)) [(from_id, new_from), (to_id, new_to)] s))
              | _ \<Rightarrow> Inr s)
         | (a, b) \<Rightarrow> if truthy a \<and> truthy b then Inl AttributeError else Inr s)"

definition set_recommendation :: "uuid \<Rightarrow> (recommendation \<Rightarrow> recommendation) \<Rightarrow> db \<Rightarrow> db" where
  "set_recommendation i f s = s\<lparr>recommendations := update_where (\<lambda>r. rec_id r = i) f (recommendations s)\<rparr>"

definition pending_recommendation :: "app_user \<Rightarrow> uuid \<Rightarrow> db \<Rightarrow> recommendation res" where
  "pending_recommendation user i s =
     (case require_role Marketer user of
        Inl err \<Rightarrow> Inl err
      | Inr _ \<Rightarrow>
          (case find_row (\<lambda>r. rec_id r = i \<and> rec_tenant_id r = user_tenant_id user) (recommendations s) of
             None \<Rightarrow> Inl (HTTPException 404)
           | Some r \<Rightarrow> if rec_status r \<noteq> ''pending'' then Inl (HTTPException 409) else Inr r))"

definition accept_recommendation :: "instant \<Rightarrow> app_user \<Rightarrow> uuid \<Rightarrow> db \<Rightarrow> (recommendation \<times> db) res" where
  "accept_recommendation now user i s =
     (case pending_recommendation user i s of
        Inl err \<Rightarrow> Inl err
      | Inr r \<Rightarrow>
          (case (if rec_kind r = ''budget_shift'' then apply_budget_shift r s else Inr s) of
             Inl err \<Rightarrow> Inl err
           | Inr s1 \<Rightarrow>
               (let f = (\<lambda>r. r\<lparr>rec_status := ''applied'', rec_applied_at := Some now, rec_applied_by := Some (user_id user)\<rparr>)
                in Inr (f r, write_audit (user_env now user) (rec_tenant_id r) ''optimisation_recommendation'' (rec_id r)
                     ''recommendation_accepted'' None None
                     [(''kind'', JStr (rec_kind r)),
                      (''predicted_uplift'', JStr (case rec_predicted_uplift r of None \<Rightarrow> ''None'' | Some u \<Rightarrow> numeric_str 4 u))]
                     (set_recommendation i f s1)))))"

definition reject_recommendation :: "instant \<Rightarrow> app_user \<Rightarrow> uuid \<Rightarrow> db \<Rightarrow> (recommendation \<times> db) res" where
  "reject_recommendation now user i s =
     (case pending_recommendation user i s of
        Inl err \<Rightarrow> Inl err
      | Inr r \<Rightarrow>
          (let f = (\<lambda>r. r\<lparr>rec_status := ''rejected''\<rparr>)
           in Inr (f r, write_audit (user_env now user) (rec_tenant_id r) ''optimisation_recommendation'' (rec_id r)
                ''recommendation_rejected'' None None [(''kind'', JStr (rec_kind r))] (set_recommendation i f s))))"

section \<open>The nightly pass\<close>

definition ensure_analytics_agent :: "env \<Rightarrow> uuid \<Rightarrow> db \<Rightarrow> (agent \<times> db) res" where
  "ensure_analytics_agent e tenant s = ensure_agent e AnalyticsOptimisation ''Analytics & Optimisation'' tenant s"

record analysis_result =
  ar_campaign_id :: uuid
  ar_anomalies :: "metric_anomaly list"
  ar_recommendations :: "recommendation list"
  ar_auto_paused :: bool

definition auto_pause :: "env \<Rightarrow> uuid \<Rightarrow> uuid \<Rightarrow> metric_anomaly list \<Rightarrow> db \<Rightarrow> (bool \<times> db) res" where
  "auto_pause e tenant camp found s =
     (if found = [] then Inr (False, s)
      else (case should_auto_pause tenant camp s of
         Inl err \<Rightarrow> Inl err
       | Inr False \<Rightarrow> Inr (False, s)
       | Inr True \<Rightarrow>
           (case get_campaign camp s of
              None \<Rightarrow> Inr (False, s)
            | Some c \<Rightarrow>
                if camp_status c = Paused then Inr (False, s)
                else Inr (True, write_audit e tenant ''campaign'' camp ''campaign_auto_paused''
                       (Some (status_dict (camp_status c))) (Some (status_dict Paused))
                       [(''trigger'', JStr ''analytics_auto_pause''), (''anomaly_ids'', JArr (map (JStr \<circ> uuid_str \<circ> an_id) found))]
                       (modify_campaign camp (\<lambda>c. c\<lparr>camp_status := Paused\<rparr>) s)))))"

definition analyse_campaign :: "env \<Rightarrow> uuid \<Rightarrow> uuid \<Rightarrow> db \<Rightarrow> (analysis_result \<times> db) res" where
  "analyse_campaign e tenant camp s =
     (case detect_anomalies e tenant camp s of
        Inl err \<Rightarrow> Inl err
      | Inr (found, s1) \<Rightarrow>
          (case generate_recommendations e tenant camp s1 of
             Inl err \<Rightarrow> Inl err
           | Inr (recs, s2) \<Rightarrow>
               map_sum id (\<lambda>(paused, s3).
                   (\<lparr>ar_campaign_id = camp, ar_anomalies = found, ar_recommendations = recs, ar_auto_paused = paused\<rparr>, s3))
                 (auto_pause e tenant camp found s2)))"

section \<open>The band of a shift\<close>

lemma dec28_le: "0 \<le> q \<Longrightarrow> dec28 q \<le> q + q / (2 * 10 ^ 27)"
  using dec28_error [of q] by linarith

text \<open>A share below a tenth of an amount in cents is not rounded up to a tenth.\<close>

lemma dec28_tenth:
  assumes "0 < a" "a < 10 ^ 14" "0 \<le> k" "k < a"
  shows "dec28 (of_int k / (10 * of_int a)) < 1 / 10"
proof -
  let ?x = "of_int k / (10 * of_int a) :: rat"
  have "of_int k + 1 \<le> (of_int a :: rat)" using assms(4) by (metis of_int_1 of_int_add of_int_le_iff zless_imp_add1_zle)
  then have x: "?x \<le> 1 / 10 - 1 / (10 * of_int a)" using assms(1) by (simp add: field_simps)
  have "of_int a < (10 ^ 14 :: rat)" using assms(2) by (metis of_int_less_iff of_int_numeral of_int_power)
  then have "1 / 10 ^ 15 < 1 / (10 * of_int a :: rat)" using assms(1) by (intro divide_strict_left_mono) auto
  moreover have "0 \<le> ?x" using assms by simp
  then have "dec28 ?x \<le> ?x + ?x / (2 * 10 ^ 27)" by (rule dec28_le)
  moreover have "?x / (2 * 10 ^ 27) \<le> 1 / 10 ^ 27" using x assms(1) by (simp add: field_simps)
  ultimately show ?thesis using x by simp
qed

lemma cents_exact: "\<bar>n\<bar> < 10 ^ 28 \<Longrightarrow> dec28 (of_int n / 100) = of_int n / 100"
  using dec28_exact [of n 2] by simp

lemma mills_exact: "\<bar>n\<bar> < 10 ^ 28 \<Longrightarrow> dec28 (of_int n / 1000) = of_int n / 1000"
  using dec28_exact [of n 3] by simp

definition cents_or_none :: "decimal option \<Rightarrow> bool" where
  "cents_or_none d = (case d of Some (DNum f) \<Rightarrow> \<exists>n. f = of_int n / 100 \<and> \<bar>n\<bar> < 10 ^ 14 | _ \<Rightarrow> True)"

text \<open>The clamped amount in tenths of a cent.\<close>

lemma clamped_amount_cases:
  assumes "clamped_amount (of_int a / 100) min_daily = Inr (amount, c)" "0 < a" "a < 10 ^ 14" "cents_or_none min_daily"
  obtains k where "amount = of_int k / 1000" "0 \<le> k" "k \<le> 3 * a"
    "\<forall>f. min_daily = Some (DNum f) \<and> 0 < f \<and> 0 < k \<longrightarrow> f \<le> of_int a / 100 - amount"
    "min_daily = Some (DInf False) \<longrightarrow> k = 0"
proof -
  have p: "dec28 (of_int a / 100 * shift_default) = of_int (3 * a) / 1000"
    using mills_exact [of "3 * a"] assms(2,3) by (simp add: shift_default_def mult.commute)
  show thesis
  proof (cases min_daily)
    case None
    then show thesis using assms(1,2) p by (intro that [of "3 * a"]) (auto simp: clamped_amount_def)
  next
    case (Some d)
    show thesis
    proof (cases d)
      case (DNum f)
      then obtain n where n: "f = of_int n / 100" "\<bar>n\<bar> < 10 ^ 14" using Some assms(4) by (auto simp: cents_or_none_def)
      have m: "dec28 (of_int a / 100 - f) = of_int (10 * (a - n)) / 1000"
      proof -
        have "\<bar>a - n\<bar> < 10 ^ 28" using n(2) assms(2,3) by simp
        then show ?thesis unfolding n(1) using cents_exact [of "a - n"] by (simp add: diff_divide_distrib)
      qed
      show thesis
      proof (cases "0 < f \<and> dec28 (of_int a / 100 - f) < of_int (3 * a) / 1000")
        case True
        then have "10 * (a - n) < 3 * a" unfolding m by (simp add: divide_less_cancel flip: of_int_less_iff [where 'a = rat])
        moreover have "amount = of_int (max (10 * (a - n)) 0) / 1000"
          using assms(1) Some DNum True p m by (auto simp: clamped_amount_def Let_def max_def divide_le_0_iff)
        ultimately show thesis using Some DNum n assms(2)
          by (intro that [of "max (10 * (a - n)) 0"]) (auto simp: max_def field_simps)
      next
        case False
        have "amount = of_int (3 * a) / 1000" using assms(1) Some DNum False p by (auto simp: clamped_amount_def Let_def)
        then show thesis using Some DNum False m n assms(2) by (intro that [of "3 * a"]) (auto simp: field_simps)
      qed
    next
      case (DInf neg)
      then show thesis using assms(1,2) Some p
        by (intro that [of "if neg then 3 * a else 0"]) (auto simp: clamped_amount_def Let_def)
    next
      case DNaN
      then show thesis using assms(1) Some by (simp add: clamped_amount_def Let_def)
    qed
  qed
qed

text \<open>The amount of a shift: between a tenth and three tenths of the allocation, leaving the minimum daily spend.\<close>

lemma shift_amount_band:
  assumes "shift_amount (of_int a / 100) min_daily = Inr (Some (amount, pct, c))" "0 < a" "a < 10 ^ 14" "cents_or_none min_daily"
  obtains k where "amount = of_int k / 1000" "a \<le> k" "k \<le> 3 * a" "min_daily \<noteq> Some (DInf False)"
    "\<forall>f. min_daily = Some (DNum f) \<and> 0 < f \<longrightarrow> f \<le> of_int a / 100 - amount"
proof -
  obtain am cl where cl: "clamped_amount (of_int a / 100) min_daily = Inr (am, cl)"
    using assms(1) by (auto simp: shift_amount_def split: sum.splits)
  obtain k where k: "am = of_int k / 1000" "0 \<le> k" "k \<le> 3 * a"
    "\<forall>f. min_daily = Some (DNum f) \<and> 0 < f \<and> 0 < k \<longrightarrow> f \<le> of_int a / 100 - am" "min_daily = Some (DInf False) \<longrightarrow> k = 0"
    by (rule clamped_amount_cases [OF cl assms(2-4)])
  have share: "am / (of_int a / 100) = of_int k / (10 * of_int a)" unfolding k(1) by (simp add: field_simps)
  have "of_int k \<le> (3 * of_int a :: rat)" using k(3) by (metis of_int_le_iff of_int_mult of_int_numeral)
  then have x: "of_int k / (10 * of_int a :: rat) \<le> 3 / 10" "0 \<le> of_int k / (10 * of_int a :: rat)"
    using assms(2) k(2) by (simp_all add: field_simps)
  then have "dec28 (of_int k / (10 * of_int a)) \<le> 3 / 10 + 3 / 10 / (2 * 10 ^ 27)"
    using dec28_le [OF x(2)] by (simp add: field_simps)
  then have top: "\<not> shift_ceiling < dec28 (am / (of_int a / 100))" unfolding share by (simp add: shift_ceiling_def)
  have low: "\<not> dec28 (am / (of_int a / 100)) < shift_floor" and am: "amount = am"
    using assms(1) cl top by (auto simp: shift_amount_def Let_def split: if_splits)
  have "\<not> k < a" using dec28_tenth [OF assms(2,3) k(2)] low unfolding share shift_floor_def by blast
  then show thesis using k assms(2) am by (intro that [of k]) auto
qed

section \<open>What accepting a shift does\<close>

definition allocated_of :: "uuid \<Rightarrow> uuid \<Rightarrow> db \<Rightarrow> money option" where
  "allocated_of camp ch s =
     map_option cb_allocated (find_row (\<lambda>b. cb_campaign_id b = camp \<and> cb_channel_id b = ch) (channel_budgets s))"

lemma upsert_allocated_lookup:
  assumes "upsert_allocated camp (ch, DNum (of_int m / 100)) s = Inr s'"
  shows "allocated_of camp ch s' = Some m" "(camp', ch') \<noteq> (camp, ch) \<Longrightarrow> allocated_of camp' ch' s' = allocated_of camp' ch' s"
proof -
  have s': "s' = s\<lparr>channel_budgets := upsert_row (\<lambda>b. cb_campaign_id b = camp \<and> cb_channel_id b = ch) (\<lambda>b. b\<lparr>cb_allocated := m\<rparr>)
      \<lparr>cb_campaign_id = camp, cb_channel_id = ch, cb_allocated = m, cb_spent = 0\<rparr> (channel_budgets s)\<rparr>"
    using assms by (simp add: upsert_allocated_def Let_def split: if_splits)
  show "allocated_of camp ch s' = Some m"
    unfolding s' allocated_of_def by (simp add: find_upsert_same split: option.split)
  show "allocated_of camp' ch' s' = allocated_of camp' ch' s" if "(camp', ch') \<noteq> (camp, ch)"
  proof -
    have "channel_budgets s' = upsert_row (\<lambda>b. cb_campaign_id b = camp \<and> cb_channel_id b = ch) (\<lambda>b. b\<lparr>cb_allocated := m\<rparr>)
      \<lparr>cb_campaign_id = camp, cb_channel_id = ch, cb_allocated = m, cb_spent = 0\<rparr> (channel_budgets s)" unfolding s' by simp
    then have "find_row (\<lambda>b. cb_campaign_id b = camp' \<and> cb_channel_id b = ch') (channel_budgets s')
        = find_row (\<lambda>b. cb_campaign_id b = camp' \<and> cb_channel_id b = ch') (channel_budgets s)"
      by (simp only:) (rule find_upsert_other, use that in auto)
    then show ?thesis by (simp add: allocated_of_def)
  qed
qed

lemma distinct_hd_last: "distinct (map f xs) \<Longrightarrow> 2 \<le> length xs \<Longrightarrow> f (hd xs) \<noteq> f (last xs)"
  by (cases xs; cases "tl xs") (auto simp: image_iff dest: last_in_set split: if_splits)

lemma pick_channels_distinct:
  assumes "pick_channels metrics = Some (oc, leader, laggard)" "distinct (map cm_channel_id metrics)"
  shows "cm_channel_id leader \<noteq> cm_channel_id laggard" "leader \<in> set metrics" "laggard \<in> set metrics"
proof -
  let ?el = "filter (\<lambda>m. 0 < cm_spend m \<and> 0 < outcomes oc m) metrics"
  let ?r = "sort_key (cost_per_outcome oc) ?el"
  have r: "2 \<le> length ?el" "leader = hd ?r" "laggard = last ?r"
    using assms(1) by (auto simp: pick_channels_def Let_def split: if_splits)
  then have len: "2 \<le> length ?r" by simp
  then have ne: "?r \<noteq> []" by (metis list.size(3) not_numeral_le_zero)
  have "mset (map cm_channel_id ?r) = mset (map cm_channel_id ?el)" by simp
  moreover have "distinct (map cm_channel_id ?el)" using assms(2) by (rule distinct_map_filter)
  ultimately have d: "distinct (map cm_channel_id ?r)" using mset_eq_imp_distinct_iff by blast
  then show "cm_channel_id leader \<noteq> cm_channel_id laggard" unfolding r(2,3) by (rule distinct_hd_last [OF _ len])
  show "leader \<in> set metrics" "laggard \<in> set metrics"
    using hd_in_set [OF ne] last_in_set [OF ne] r by auto
qed

text \<open>The two channels that the rule picks: the cheapest and the dearest of those with spend and outcomes.\<close>

definition eligible :: "outcome \<Rightarrow> channel_metric \<Rightarrow> bool" where
  "eligible oc m \<longleftrightarrow> 0 < cm_spend m \<and> 0 < outcomes oc m"

lemma sorted_hd_last: "sorted (map f xs) \<Longrightarrow> x \<in> set xs \<Longrightarrow> f (hd xs) \<le> f x \<and> f x \<le> f (last xs)"
  by (induction xs) (auto split: if_splits)

lemma pick_channels_ranked:
  assumes "pick_channels metrics = Some (oc, leader, laggard)"
  shows "oc = (if \<exists>m\<in>set metrics. 0 < cm_conversions m then Conversion else Click)" "eligible oc leader" "eligible oc laggard"
    "\<And>m. m \<in> set metrics \<Longrightarrow> eligible oc m
       \<Longrightarrow> cost_per_outcome oc leader \<le> cost_per_outcome oc m \<and> cost_per_outcome oc m \<le> cost_per_outcome oc laggard"
proof -
  let ?el = "filter (\<lambda>m. 0 < cm_spend m \<and> 0 < outcomes oc m) metrics"
  let ?r = "sort_key (cost_per_outcome oc) ?el"
  have some: "0 < sum_list (map cm_conversions metrics) \<longleftrightarrow> (\<exists>m\<in>set metrics. 0 < cm_conversions m)"
    by (induction metrics) auto
  have len: "2 \<le> length ?el" and r: "leader = hd ?r" "laggard = last ?r"
    using assms by (auto simp: pick_channels_def Let_def split: if_splits)
  define oc0 where "oc0 = (if 0 < sum_list (map cm_conversions metrics) then Conversion else Click)"
  have "oc = oc0" using assms unfolding pick_channels_def Let_def oc0_def [symmetric] by (auto split: if_splits)
  then show "oc = (if \<exists>m\<in>set metrics. 0 < cm_conversions m then Conversion else Click)" by (simp only: oc0_def some)
  have ne: "?r \<noteq> []" using len by (metis length_sort list.size(3) not_numeral_le_zero)
  have "leader \<in> set ?r" "laggard \<in> set ?r" unfolding r using hd_in_set [OF ne] last_in_set [OF ne] by blast+
  then show "eligible oc leader" "eligible oc laggard" by (auto simp: eligible_def)
  fix m assume "m \<in> set metrics" "eligible oc m"
  then have m: "m \<in> set ?r" by (simp add: eligible_def)
  have "sorted (map (cost_per_outcome oc) ?r)" by simp
  from sorted_hd_last [OF this m]
  show "cost_per_outcome oc leader \<le> cost_per_outcome oc m \<and> cost_per_outcome oc m \<le> cost_per_outcome oc laggard" unfolding r .
qed

text \<open>The ratio of the rounded costs says the same of the exact costs, up to the rounding to 28 digits.\<close>

lemma ratio_of_costs:
  assumes "eligible oc leader" "eligible oc laggard"
    and "min_ratio \<le> dec28 (cost_per_outcome oc laggard / cost_per_outcome oc leader)"
  shows "(6 / 5 - 1 / 10 ^ 20) * (cm_spend leader / of_nat (outcomes oc leader)) \<le> cm_spend laggard / of_nat (outcomes oc laggard)"
proof -
  let ?c = "cm_spend leader / of_nat (outcomes oc leader)" and ?d = "cm_spend laggard / of_nat (outcomes oc laggard)"
  have pos: "0 < ?c" "0 < ?d" using assms(1,2) by (simp_all add: eligible_def)
  have cpo: "cost_per_outcome oc leader = dec28 ?c" "cost_per_outcome oc laggard = dec28 ?d"
    using assms(1,2) by (simp_all add: cost_per_outcome_def eligible_def)
  have q: "0 < dec28 ?c" "0 < dec28 ?d" using pos dec28_pos by blast+
  have "6 / 5 \<le> dec28 ?d / dec28 ?c + (dec28 ?d / dec28 ?c) / (2 * 10 ^ 27)"
    using assms(3) dec28_le [of "dec28 ?d / dec28 ?c"] q unfolding cpo min_ratio_def by simp
  then have "6 / 5 * dec28 ?c \<le> (dec28 ?d / dec28 ?c + (dec28 ?d / dec28 ?c) / (2 * 10 ^ 27)) * dec28 ?c"
    using q(1) by (intro mult_right_mono) simp_all
  also have "\<dots> = dec28 ?d * (1 + 1 / (2 * 10 ^ 27))" using q(1) by (simp add: field_simps)
  finally have "6 / 5 * dec28 ?c \<le> dec28 ?d * (1 + 1 / (2 * 10 ^ 27))" .
  moreover have "\<bar>dec28 ?c - ?c\<bar> \<le> ?c / (2 * 10 ^ 27)" "\<bar>dec28 ?d - ?d\<bar> \<le> ?d / (2 * 10 ^ 27)"
    using dec28_error [of ?c] dec28_error [of ?d] pos by simp_all
  ultimately show ?thesis using pos by (simp add: abs_le_iff algebra_simps)
qed

lemma cents_text_quantize: "cents_text (quantize 2 q) = money_str (round_half_even (q * 100))"
  by (simp add: cents_text_def quantize_def)

text \<open>The two new amounts of a bundle, in cents.\<close>

lemma shift_bundle_amounts:
  assumes "shift_bundle metrics oc leader laggard ratio (of_int a / 100, t) from_pct (to_pct, JStr (money_str m)) (of_int k / 1000, pct, c) = Inr b"
    and "0 \<le> a" "a < 10 ^ 14" "0 \<le> m" "m < 10 ^ 14" "0 \<le> k" "k \<le> 3 * a"
  obtains old where "dict_get (pb_proposal b) ''from'' =
      shift_side laggard from_pct t (money_str (round_half_even (of_int a - of_int k / 10)))"
    "dict_get (pb_proposal b) ''to'' = shift_side leader to_pct old (money_str (round_half_even (of_int m + of_int k / 10)))"
proof -
  have "dec28 (of_int (10 * a - k) / 1000) = of_int (10 * a - k) / 1000" using assms(2-7) by (intro mills_exact) auto
  moreover have "of_int a / 100 - of_int k / 1000 = (of_int (10 * a - k) / 1000 :: rat)" by (simp add: field_simps)
  ultimately have f: "dec28 (of_int a / 100 - of_int k / 1000) = (of_int a - of_int k / 10) / 100" by (simp add: field_simps)
  have "dec28 (of_int (10 * m + k) / 1000) = of_int (10 * m + k) / 1000" using assms(2-7) by (intro mills_exact) auto
  moreover have "of_int m / 100 + of_int k / 1000 = (of_int (10 * m + k) / 1000 :: rat)" by (simp add: field_simps)
  ultimately have g: "dec28 (of_int m / 100 + of_int k / 1000) = (of_int m + of_int k / 10) / 100" by (simp add: field_simps)
  have gen: "cents_text (quantize 2 (y / 100)) = money_str (round_half_even y)" for y by (simp add: cents_text_quantize)
  have l: "new = money_str (round_half_even (of_int m + of_int k / 10))"
    if "leader_amounts (JStr (money_str m)) (of_int k / 1000) = Inr (old, new)" for old new
  proof -
    have "new = cents_text (quantize 2 (dec28 (of_int m / 100 + of_int k / 1000)))"
      using that by (auto simp: leader_amounts_def as_decimal_def money_roundtrip dest!: quantize_res_Inr split: if_splits)
    then show ?thesis unfolding g gen .
  qed
  obtain new_from old new_to shown ratio4 where 1: "quantize_res 2 (dec28 (of_int a / 100 - of_int k / 1000)) = Inr new_from"
    "leader_amounts (JStr (money_str m)) (of_int k / 1000) = Inr (old, new_to)"
    "quantize_res 2 (of_int k / 1000) = Inr shown" "quantize_res 4 ratio = Inr ratio4"
    using assms(1) by (auto simp: shift_bundle_def Let_def split: sum.splits)
  have 2: "cents_text new_from = money_str (round_half_even (of_int a - of_int k / 10))"
    using quantize_res_Inr [OF 1(1)] unfolding f by (simp only: gen)
  have "dict_get (pb_proposal b) ''from'' = shift_side laggard from_pct t (cents_text new_from)"
    "dict_get (pb_proposal b) ''to'' = shift_side leader to_pct old new_to"
    using assms(1) unfolding shift_bundle_def Let_def prod.case 1 sum.case by (auto simp: dict_get_def)
  then show thesis unfolding 2 l [OF 1(2)] by (rule that)
qed

lemma apply_budget_shift_eq:
  assumes "dict_get (rec_proposal r) ''from'' = shift_side laggard p1 t1 (money_str x)"
    and "dict_get (rec_proposal r) ''to'' = shift_side leader p2 t2 (money_str y)"
    and "cm_channel_id laggard < 2 ^ 128" "cm_channel_id leader < 2 ^ 128"
  shows "apply_budget_shift r s = for_each (upsert_allocated (rec_campaign_id r))
      [(cm_channel_id laggard, DNum (of_int x / 100)), (cm_channel_id leader, DNum (of_int y / 100))] s"
proof -
  have ne: "uuid_str u \<noteq> []" for u by (simp add: uuid_str_def Let_def)
  have m: "money_str z \<noteq> []" for z by (simp add: money_str_def Let_def)
  have amount: "new_amount [(''channel'', c), (''channel_id'', i), (''allocation_pct'', p), (''allocation_amount'', o'),
      (''new_allocation_amount'', JStr (money_str z))] = Inr (DNum (of_int z / 100))" for c i p o' z
    by (simp add: new_amount_def dict_get_def m money_roundtrip)
  show ?thesis
    unfolding apply_budget_shift_def assms(1,2) shift_side_def Let_def as_dict.simps amount
    by (simp add: dict_get_def ne uuid_roundtrip [OF assms(3)] uuid_roundtrip [OF assms(4)])
qed

lemma apply_budget_shift_amounts:
  assumes "dict_get (rec_proposal r) ''from'' = shift_side laggard p1 t1 (money_str x)"
    and "dict_get (rec_proposal r) ''to'' = shift_side leader p2 t2 (money_str y)"
    and "cm_channel_id laggard < 2 ^ 128" "cm_channel_id leader < 2 ^ 128" "cm_channel_id leader \<noteq> cm_channel_id laggard"
    and "apply_budget_shift r s = Inr s'"
  shows "allocated_of (rec_campaign_id r) (cm_channel_id laggard) s' = Some x"
    "allocated_of (rec_campaign_id r) (cm_channel_id leader) s' = Some y"
    "camp \<noteq> rec_campaign_id r \<or> ch \<notin> {cm_channel_id laggard, cm_channel_id leader} \<Longrightarrow> allocated_of camp ch s' = allocated_of camp ch s"
proof -
  obtain s1 where 1: "upsert_allocated (rec_campaign_id r) (cm_channel_id laggard, DNum (of_int x / 100)) s = Inr s1"
    and 2: "upsert_allocated (rec_campaign_id r) (cm_channel_id leader, DNum (of_int y / 100)) s1 = Inr s'"
    using assms(6) unfolding apply_budget_shift_eq [OF assms(1-4)] by (auto split: sum.splits)
  show "allocated_of (rec_campaign_id r) (cm_channel_id leader) s' = Some y" by (rule upsert_allocated_lookup(1) [OF 2])
  show "allocated_of (rec_campaign_id r) (cm_channel_id laggard) s' = Some x"
    using upsert_allocated_lookup(1) [OF 1] upsert_allocated_lookup(2) [OF 2, of _ "cm_channel_id laggard"] assms(5) by simp
  show "allocated_of camp ch s' = allocated_of camp ch s" if "camp \<noteq> rec_campaign_id r \<or> ch \<notin> {cm_channel_id laggard, cm_channel_id leader}"
    using upsert_allocated_lookup(2) [OF 1, of camp ch] upsert_allocated_lookup(2) [OF 2, of camp ch] that by auto
qed

lemma apply_budget_shift_runs:
  assumes "dict_get (rec_proposal r) ''from'' = shift_side laggard p1 t1 (money_str x)"
    and "dict_get (rec_proposal r) ''to'' = shift_side leader p2 t2 (money_str y)"
    and "cm_channel_id laggard < 2 ^ 128" "cm_channel_id leader < 2 ^ 128" "0 \<le> x" "x < 10 ^ 14" "0 \<le> y" "y < 10 ^ 14"
  shows "\<exists>s'. apply_budget_shift r s = Inr s'"
  unfolding apply_budget_shift_eq [OF assms(1-4)] using assms(5-8) by (simp add: upsert_allocated_def Let_def)

text \<open>Allocations of a strategy whose amounts are money texts, as the planner's schema asks for.\<close>

definition cents_amounts :: "(string \<times> allocation) list \<Rightarrow> bool" where
  "cents_amounts allocs \<longleftrightarrow> list_all (\<lambda>(_, _, raw). \<exists>m. raw = JStr (money_str m) \<and> 0 \<le> m \<and> m < 10 ^ 14) allocs"

lemma cents_amounts_lookup:
  "cents_amounts allocs \<Longrightarrow> map_of allocs n = Some (p, raw) \<Longrightarrow> \<exists>m. raw = JStr (money_str m) \<and> 0 \<le> m \<and> m < 10 ^ 14"
  by (auto simp: cents_amounts_def list_all_iff dest!: map_of_SomeD)

lemma distinct_metrics: "distinct (map cm_channel_id (channel_metrics tenant camp since s))"
  by (simp add: channel_metrics_def Let_def channel_metric_of_def comp_def)

lemma metric_in_events:
  "m \<in> set (channel_metrics tenant camp since s) \<Longrightarrow> \<exists>ev\<in>set (events s). ev_channel_id ev = Some (cm_channel_id m)"
  by (auto simp: channel_metrics_def Let_def channel_metric_of_def attributed_events_def set_map_filter)

lemma metric_min_daily:
  assumes "m \<in> set (channel_metrics tenant camp since s)" "\<forall>c\<in>set (channels s). cents_or_none (map_option fst (as_decimal (dict_get (ch_api_config c) ''min_daily_spend'')))"
  shows "cents_or_none (map_option fst (cm_min_daily_spend m))"
proof -
  obtain evs ch where m: "m = channel_metric_of s evs ch" using assms(1) by (auto simp: channel_metrics_def Let_def)
  show ?thesis
  proof (cases "find_row (\<lambda>c. ch_id c = ch) (channels s)")
    case None
    have "cm_min_daily_spend m = None" unfolding m channel_metric_of_def Let_def None by simp
    then show ?thesis by (simp add: cents_or_none_def)
  next
    case (Some c)
    then have "c \<in> set (channels s)" by (auto dest: find_row_Some)
    moreover have "cm_min_daily_spend m = as_decimal (dict_get (ch_api_config c) ''min_daily_spend'')"
      by (simp add: m channel_metric_of_def Some Let_def)
    ultimately show ?thesis using assms(2) by simp
  qed
qed

text \<open>What a proposal was computed from.\<close>

lemma try_budget_shift_Some:
  assumes "try_budget_shift now tenant camp s = Inr (Some b)" "resolve_strategy_allocations tenant camp s = Inr allocs"
  obtains oc leader laggard ratio from_pct from_raw to alloc t shift where
    "pick_channels (channel_metrics tenant camp (now - days (int min_data_days)) s) = Some (oc, leader, laggard)"
    "min_ratio \<le> dec28 (cost_per_outcome oc laggard / cost_per_outcome oc leader)"
    "map_of allocs (cm_name laggard) = Some (from_pct, from_raw)" "map_of allocs (cm_name leader) = Some to"
    "as_decimal from_raw = Some (DNum alloc, t)" "0 < alloc"
    "shift_amount alloc (map_option fst (cm_min_daily_spend laggard)) = Inr (Some shift)"
    "shift_bundle (channel_metrics tenant camp (now - days (int min_data_days)) s) oc leader laggard ratio (alloc, t) from_pct to shift = Inr b"
  using assms unfolding try_budget_shift_def Let_def
  by (auto split: option.splits prod.splits if_splits decimal.splits sum.splits)

lemma rounded_shift:
  fixes a k m :: int and f :: rat
  assumes "a \<le> k" "k \<le> 3 * a"
  defines "x \<equiv> round_half_even (of_int a - of_int k / 10)" and "y \<equiv> round_half_even (of_int m + of_int k / 10)"
  shows "\<bar>x + y - (a + m)\<bar> \<le> 1" "7 * a - 5 \<le> 10 * x" "10 * x \<le> 9 * a + 5"
    "f \<le> of_int a / 100 - of_int k / 1000 \<Longrightarrow> f \<le> of_int x / 100 + 1 / 200"
proof -
  have rx: "\<bar>of_int x - (of_int a - of_int k / 10 :: rat)\<bar> \<le> 1 / 2"
    unfolding x_def using round_half_even_bounds [of "of_int a - of_int k / 10"] by linarith
  have ry: "\<bar>of_int y - (of_int m + of_int k / 10 :: rat)\<bar> \<le> 1 / 2"
    unfolding y_def using round_half_even_bounds [of "of_int m + of_int k / 10"] by linarith
  have k1: "of_int a \<le> (of_int k :: rat)" using assms(1) by (simp only: of_int_le_iff)
  have k2: "of_int k \<le> (3 * of_int a :: rat)" using assms(2) by (metis of_int_le_iff of_int_mult of_int_numeral)
  have "of_int \<bar>x + y - (a + m)\<bar> \<le> (of_int 1 :: rat)" unfolding of_int_abs of_int_diff of_int_add of_int_1 using rx ry by linarith
  then show "\<bar>x + y - (a + m)\<bar> \<le> 1" by (simp only: of_int_le_iff)
  have "of_int (7 * a - 5) \<le> (of_int (10 * x) :: rat)" "of_int (10 * x) \<le> (of_int (9 * a + 5) :: rat)"
    unfolding of_int_diff of_int_add of_int_mult of_int_numeral using rx k1 k2 by linarith+
  then show "7 * a - 5 \<le> 10 * x" "10 * x \<le> 9 * a + 5" by (simp_all only: of_int_le_iff)
  show "f \<le> of_int a / 100 - of_int k / 1000 \<Longrightarrow> f \<le> of_int x / 100 + 1 / 200" using rx by linarith
qed

lemma generated_recommendation:
  assumes "generate_recommendations e tenant camp s = Inr ([r], sg)"
  obtains b where "try_budget_shift (env_now e) tenant camp s = Inr (Some b)" "rec_proposal r = pb_proposal b" "rec_kind r = pb_kind b"
    "rec_campaign_id r = camp"
  using assms
  by (auto simp: generate_recommendations_def insert_recommendation_def Let_def split: option.splits if_splits sum.splits prod.splits)

lemma accepted_recommendation:
  assumes "accept_recommendation now user (rec_id r) s = Inr (row, s')" "r \<in> set (recommendations s)"
    and "distinct (map rec_id (recommendations s))" "rec_kind r = ''budget_shift''"
  obtains s1 where "apply_budget_shift r s = Inr s1" "\<And>camp ch. allocated_of camp ch s' = allocated_of camp ch s1"
    "rec_status row = ''applied''"
proof -
  obtain q where q: "pending_recommendation user (rec_id r) s = Inr q"
    using assms(1) by (cases "pending_recommendation user (rec_id r) s") (simp_all add: accept_recommendation_def)
  then have "q \<in> set (recommendations s)" "rec_id q = rec_id r"
    by (auto simp: pending_recommendation_def dest!: find_row_Some split: sum.splits option.splits if_splits)
  then have "q = r" using assms(2,3) by (auto simp: distinct_map inj_on_def)
  note q = q [unfolded this]
  obtain s1 where s1: "apply_budget_shift r s = Inr s1"
    using assms(1,4) by (cases "apply_budget_shift r s") (simp_all add: accept_recommendation_def q)
  show thesis
    by (rule that [OF s1])
      (use assms(1,4) in \<open>auto simp: accept_recommendation_def q s1 Let_def allocated_of_def write_audit_def set_recommendation_def\<close>)
qed

text \<open>C33. An accepted budget shift moves money from the dear channel to the cheap one and keeps the budget. When a
  recommendation that the rule generated is accepted, the channel that gives has the highest and the channel that receives
  the lowest cost per outcome (conversions if there are any, else clicks) of all channels with spend and outcomes, and the
  former is at least 1.2 times the latter, up to the rounding to 28 digits. Of the amounts that the accepted strategy
  allocates to the two channels, the dear one is left with between seven and nine tenths of its own, and the two recorded
  allocations add up to the two amounts of the strategy, each up to the rounding to cents; a minimum daily spend of the
  dear channel stays covered; no other recorded allocation changes.\<close>

theorem applied_shift_keeps_budget:
  assumes gen: "generate_recommendations e tenant camp s = Inr ([r], sg)" and allocs: "resolve_strategy_allocations tenant camp s = Inr allocs"
    and cents: "cents_amounts allocs"
      "\<forall>c\<in>set (channels s). cents_or_none (map_option fst (as_decimal (dict_get (ch_api_config c) ''min_daily_spend'')))"
    and ids: "\<forall>ev\<in>set (events s). \<forall>ch. ev_channel_id ev = Some ch \<longrightarrow> ch < 2 ^ 128"
    and stored: "r \<in> set (recommendations s1)" "distinct (map rec_id (recommendations s1))"
    and accept: "accept_recommendation now user (rec_id r) s1 = Inr (row, s2)"
  shows "\<exists>ms oc laggard leader p1 p2 a m x y. ms = channel_metrics tenant camp (env_now e - days (int min_data_days)) s
    \<and> laggard \<in> set ms \<and> leader \<in> set ms \<and> eligible oc laggard \<and> eligible oc leader
    \<and> oc = (if \<exists>c\<in>set ms. 0 < cm_conversions c then Conversion else Click)
    \<and> (\<forall>c\<in>set ms. eligible oc c \<longrightarrow> cost_per_outcome oc leader \<le> cost_per_outcome oc c \<and> cost_per_outcome oc c \<le> cost_per_outcome oc laggard)
    \<and> (6 / 5 - 1 / 10 ^ 20) * (cm_spend leader / of_nat (outcomes oc leader)) \<le> cm_spend laggard / of_nat (outcomes oc laggard)
    \<and> map_of allocs (cm_name laggard) = Some (p1, JStr (money_str a)) \<and> map_of allocs (cm_name leader) = Some (p2, JStr (money_str m))
    \<and> allocated_of camp (cm_channel_id laggard) s2 = Some x \<and> allocated_of camp (cm_channel_id leader) s2 = Some y
    \<and> \<bar>x + y - (a + m)\<bar> \<le> 1 \<and> 7 * a - 5 \<le> 10 * x \<and> 10 * x \<le> 9 * a + 5
    \<and> (\<forall>f t. cm_min_daily_spend laggard = Some (DNum f, t) \<and> 0 < f \<longrightarrow> f \<le> of_int x / 100 + 1 / 200)
    \<and> (\<forall>c ch. c \<noteq> camp \<or> ch \<notin> {cm_channel_id laggard, cm_channel_id leader} \<longrightarrow> allocated_of c ch s2 = allocated_of c ch s1)
    \<and> rec_status row = ''applied''"
proof -
  let ?ms = "channel_metrics tenant camp (env_now e - days (int min_data_days)) s"
  obtain b where b: "try_budget_shift (env_now e) tenant camp s = Inr (Some b)" "rec_proposal r = pb_proposal b" "rec_kind r = pb_kind b"
    and rc: "rec_campaign_id r = camp" using gen by (rule generated_recommendation)
  obtain oc leader laggard ratio from_pct from_raw to alloc t shift where
    1: "pick_channels ?ms = Some (oc, leader, laggard)"
    "min_ratio \<le> dec28 (cost_per_outcome oc laggard / cost_per_outcome oc leader)"
    "map_of allocs (cm_name laggard) = Some (from_pct, from_raw)"
    "map_of allocs (cm_name leader) = Some to" "as_decimal from_raw = Some (DNum alloc, t)" "0 < alloc"
    "shift_amount alloc (map_option fst (cm_min_daily_spend laggard)) = Inr (Some shift)"
    "shift_bundle ?ms oc leader laggard ratio (alloc, t) from_pct to shift = Inr b"
    by (rule try_budget_shift_Some [OF b(1) allocs])
  have "rec_kind r = ''budget_shift''"
    using 1(8) by (auto simp: b(3) shift_bundle_def Let_def split: prod.splits sum.splits)
  then obtain sa where sa: "apply_budget_shift r s1 = Inr sa" "\<And>c ch. allocated_of c ch s2 = allocated_of c ch sa"
    and applied: "rec_status row = ''applied''" using accepted_recommendation [OF accept stored] by metis
  note ch = pick_channels_distinct [OF 1(1) distinct_metrics] and ranked = pick_channels_ranked [OF 1(1)]
  obtain a where a: "from_raw = JStr (money_str a)" "0 \<le> a" "a < 10 ^ 14" using cents_amounts_lookup [OF cents(1) 1(3)] by blast
  obtain p2 raw where to: "to = (p2, raw)" by force
  obtain m where m: "raw = JStr (money_str m)" "0 \<le> m" "m < 10 ^ 14" using cents_amounts_lookup [OF cents(1)] 1(4) to by blast
  have alloc: "alloc = of_int a / 100" using 1(5) a(1) by (simp add: as_decimal_def money_roundtrip)
  have pos: "0 < a" using 1(6) alloc by simp
  obtain amount pct c where sh: "shift = (amount, pct, c)" by (cases shift)
  obtain k where k: "amount = of_int k / 1000" "a \<le> k" "k \<le> 3 * a"
    "\<forall>f. map_option fst (cm_min_daily_spend laggard) = Some (DNum f) \<and> 0 < f \<longrightarrow> f \<le> of_int a / 100 - amount"
    by (rule shift_amount_band [OF 1(7) [unfolded alloc sh] pos a(3) metric_min_daily [OF ch(3) cents(2)]])
  let ?x = "round_half_even (of_int a - of_int k / 10)" and ?y = "round_half_even (of_int m + of_int k / 10)"
  obtain old where side: "dict_get (pb_proposal b) ''from'' = shift_side laggard from_pct t (money_str ?x)"
    "dict_get (pb_proposal b) ''to'' = shift_side leader p2 old (money_str ?y)"
    using shift_bundle_amounts [OF 1(8) [unfolded alloc sh to m(1) k(1)]] a m k pos by auto
  have small: "cm_channel_id laggard < 2 ^ 128" "cm_channel_id leader < 2 ^ 128"
    using metric_in_events [OF ch(3)] metric_in_events [OF ch(2)] ids by blast+
  note fin = apply_budget_shift_amounts [OF side [folded b(2)] small ch(1) sa(1), unfolded rc, folded sa(2)]
  note rnd = rounded_shift(1) [OF k(2,3), of m] rounded_shift(2-4) [OF k(2,3)]
  have min: "\<forall>f t. cm_min_daily_spend laggard = Some (DNum f, t) \<and> 0 < f \<longrightarrow> f \<le> of_int ?x / 100 + 1 / 200"
    using k(4) rnd(4) unfolding k(1) by auto
  note cost = ratio_of_costs [OF ranked(2,3) 1(2)]
  have all: "\<forall>c\<in>set ?ms. eligible oc c \<longrightarrow> cost_per_outcome oc leader \<le> cost_per_outcome oc c \<and> cost_per_outcome oc c \<le> cost_per_outcome oc laggard"
    using ranked(4) by blast
  have rest: "\<forall>c ch. c \<noteq> camp \<or> ch \<notin> {cm_channel_id laggard, cm_channel_id leader} \<longrightarrow> allocated_of c ch s2 = allocated_of c ch s1"
    using fin(3) by blast
  show ?thesis
    by (rule exI [of _ ?ms], rule exI [of _ oc], rule exI [of _ laggard], rule exI [of _ leader], rule exI [of _ from_pct],
        rule exI [of _ p2], rule exI [of _ a], rule exI [of _ m], rule exI [of _ ?x], rule exI [of _ ?y])
      (intro conjI refl ch(2,3) ranked(1-3) all cost fin(1,2) rnd(1-3) min rest applied
        1(3) [unfolded a(1)] 1(4) [unfolded to m(1)])
qed

text \<open>The rule reads the amounts of the accepted strategy, never the allocations that earlier shifts have recorded: the
  proposal is the same whatever the table of allocations holds, so that a second shift starts again from the strategy.\<close>

theorem shift_ignores_applied_shifts:
  "try_budget_shift now tenant camp (s\<lparr>channel_budgets := bs\<rparr>) = try_budget_shift now tenant camp s"
proof -
  have "channel_metrics tenant camp since (s\<lparr>channel_budgets := bs\<rparr>) = channel_metrics tenant camp since s" for since
    by (simp add: channel_metrics_def channel_metric_of_def [abs_def] attributed_events_def attributed_def [abs_def] indirect_link_def
        channel_name_def [abs_def] cong: option.case_cong)
  moreover have "resolve_strategy_allocations tenant camp (s\<lparr>channel_budgets := bs\<rparr>) = resolve_strategy_allocations tenant camp s"
    by (simp add: resolve_strategy_allocations_def accepted_of_tenant_def)
  ultimately show ?thesis unfolding try_budget_shift_def by (simp only:)
qed

section \<open>Recorded events name no channel\<close>

text \<open>The three operations that record analytic events.\<close>

inductive event_step :: "(string \<Rightarrow> json option) \<Rightarrow> db \<Rightarrow> db \<Rightarrow> bool" for decode where
  uniform_hook: "receive_webhook decode e provider ten headers body s = (out, s') \<Longrightarrow> event_step decode s s'"
| email_hook: "receive_email_webhook decode e ten header body s = (out, s') \<Longrightarrow> event_step decode s s'"
| web_import: "ingest_events ten evs s = (sm, s') \<Longrightarrow> event_step decode s s'"

definition channelless :: "db \<Rightarrow> bool" where
  "channelless s \<longleftrightarrow> (\<forall>ev\<in>set (events s). ev_channel_id ev = None)"

lemma channelless_append:
  "channelless s \<Longrightarrow> \<exists>new. events s' = events s @ new \<and> (\<forall>x\<in>set new. ev_tenant_id x = ten \<and> ev_channel_id x = None) \<Longrightarrow> channelless s'"
  by (auto simp: channelless_def)

lemma receive_webhook_channelless:
  assumes "receive_webhook decode e provider ten headers body s = (out, s')" "channelless s"
  shows "channelless s'"
  using assms(1)
proof (cases rule: receive_webhook_cases)
  case failed
  then show ?thesis using assms(2) by simp
next
  case (refused prov sig i s1 meta)
  then show ?thesis using assms(2) insert_raw_frame(1) [OF refused(1)] by (simp add: channelless_def)
next
  case (accepted r)
  obtain h payload evs i s1 where "get_provider (default_registry decode) provider = Inr h"
    and 1: "insert_raw e ten (ph_provider h) (ph_verify h headers payload) headers body s = (i, s1)"
    "s' = link_raw i (wt_first (fst (write_all e ten evs s1))) (snd (write_all e ten evs s1))"
    by (rule receive_webhook_Inr [OF assms(1) [unfolded accepted]])
  have "channelless s1" using assms(2) insert_raw_frame(1) [OF 1(1)] by (simp add: channelless_def)
  moreover have "\<exists>new. events s' = events s1 @ new \<and> (\<forall>x\<in>set new. ev_tenant_id x = ten \<and> ev_channel_id x = None)"
    unfolding 1(2) link_raw_frame write_all_def by (rule uniform.fold_appends)
  ultimately show ?thesis by (rule channelless_append)
qed

lemma receive_email_webhook_channelless:
  assumes "receive_email_webhook decode e ten header body s = (out, s')" "channelless s"
  shows "channelless s'"
proof (cases out)
  case (Inl err)
  then have "s' = s"
    using assms(1) by (auto simp: receive_email_webhook_def Let_def split: sum.splits option.splits if_splits prod.splits)
  then show ?thesis using assms(2) by simp
next
  case (Inr resp)
  obtain evs where "(resp, s') = fold (ingest_email_event e ten) evs
      (\<lparr>ir_received = length evs, ir_written = 0, ir_deduped = 0, ir_suppression_writes = 0\<rparr>, s)"
    by (rule receive_email_webhook_Inr [OF assms(1) [unfolded Inr]])
  then have s': "s' = snd (fold (ingest_email_event e ten) evs
      (\<lparr>ir_received = length evs, ir_written = 0, ir_deduped = 0, ir_suppression_writes = 0\<rparr>, s))" by (metis snd_conv)
  show ?thesis unfolding s' by (rule channelless_append [OF assms(2) email_receiver.fold_appends])
qed

lemma event_step_channelless: "event_step decode s s' \<Longrightarrow> channelless s \<Longrightarrow> channelless s'"
proof (induction rule: event_step.induct)
  case (web_import ten evs s sm s')
  then have "s' = snd (ingest_events ten evs s)" by simp
  then show ?case using channelless_append [OF web_import(2) ingest_events_appends] by simp
qed (blast intro: receive_webhook_channelless receive_email_webhook_channelless)+

lemma channelless_metrics: "channelless s \<Longrightarrow> channel_metrics tenant camp since s = []"
proof -
  assume c: "channelless s"
  have "List.map_filter ev_channel_id evs = []" if "set evs \<subseteq> set (events s)" for evs
    using that c by (induction evs) (auto simp: channelless_def map_filter_simps)
  then show ?thesis by (auto simp: channel_metrics_def Let_def attributed_events_def)
qed

lemma channelless_no_recommendation:
  assumes "channelless s"
  shows "generate_recommendations e tenant camp s = Inr ([], s)"
proof -
  have "try_budget_shift now tenant camp s = Inr None" for now
    using assms by (simp add: try_budget_shift_def channelless_metrics pick_channels_def)
  then show ?thesis by (simp add: generate_recommendations_def split: option.split)
qed

text \<open>From the events the system records no recommendation can come: however many webhooks and analytics imports
  are processed, none of the recorded events names a channel, so the budget rule sees no channel to compare and the
  generator writes nothing.\<close>

theorem recorded_events_yield_no_recommendation:
  assumes "(event_step decode)\<^sup>*\<^sup>* s s'" "channelless s"
  shows "generate_recommendations e tenant camp s' = Inr ([], s')"
proof -
  have "channelless s'" using assms by (induction rule: rtranclp_induct) (auto intro: event_step_channelless)
  then show ?thesis by (rule channelless_no_recommendation)
qed

section \<open>Automatic pause\<close>

lemma generate_recommendations_frame:
  assumes "generate_recommendations e tenant camp s = Inr (recs, s')"
  shows "campaigns s' = campaigns s" "tasks s' = tasks s"
  using assms by (auto simp: generate_recommendations_def insert_recommendation_def fresh_uuid_def Let_def
      split: option.splits sum.splits if_splits)

lemma detect_anomalies_frame:
  assumes "detect_anomalies e tenant camp s = Inr (rows, s')"
  shows "campaigns s' = campaigns s" "tasks s' = tasks s" "compliance_settings_rows s' = compliance_settings_rows s"
proof -
  have step: "campaigns s' = campaigns s \<and> tasks s' = tasks s
      \<and> compliance_settings_rows s' = compliance_settings_rows s" if "detect_metric e tenant camp m (out, s) = Inr (out', s')" for m out s out' s'
    using that by (auto simp: detect_metric_def insert_anomaly_def notify_critical_anomaly_def write_audit_def fresh_uuid_def Let_def
        split: option.splits sum.splits if_splits)
  have "for_each (detect_metric e tenant camp) ms (out, s) = Inr (out', s') \<Longrightarrow> campaigns s' = campaigns s \<and> tasks s' = tasks s
      \<and> compliance_settings_rows s' = compliance_settings_rows s" for ms out out' s s'
  proof (induction ms arbitrary: out s)
    case (Cons m ms)
    obtain out1 s1 where "detect_metric e tenant camp m (out, s) = Inr (out1, s1)" "for_each (detect_metric e tenant camp) ms (out1, s1) = Inr (out', s')"
      using Cons.prems by (auto split: sum.splits)
    then show ?case using Cons.IH step by metis
  qed simp
  then show "campaigns s' = campaigns s" "tasks s' = tasks s" "compliance_settings_rows s' = compliance_settings_rows s" using assms unfolding detect_anomalies_def by blast+
qed

text \<open>The automatic pause goes around the state machine: it sets a campaign of any status to paused, one that is
  completed included, from where the state machine lets it be resumed; it refuses that pause itself; and the queued
  tasks that its own pause cancels stay as they are.\<close>

theorem auto_pause_bypasses_state_machine:
  assumes "analyse_campaign e tenant camp s = Inr (res, s')" "ar_auto_paused res" "get_campaign camp s = Some c"
  shows "get_campaign camp s' = Some (c\<lparr>camp_status := Paused\<rparr>) \<and> tasks s' = tasks s
    \<and> (camp_status c = Completed \<longrightarrow> apply_transition (campaign_sm tc) e c ''pause'' s = Inl UnknownTransitionError)
    \<and> map_of (campaign_sm tc) (Paused, ''resume'') = Some (transition_of ''resume'' Paused Live None (Some resume_distribution))"
proof -
  obtain found s1 recs s2 paused where 1: "detect_anomalies e tenant camp s = Inr (found, s1)"
    "generate_recommendations e tenant camp s1 = Inr (recs, s2)" "auto_pause e tenant camp found s2 = Inr (paused, s')" "ar_auto_paused res = paused"
    using assms(1) by (auto simp: analyse_campaign_def split: sum.splits)
  have f: "campaigns s2 = campaigns s" "tasks s2 = tasks s"
    using detect_anomalies_frame(1,2) [OF 1(1)] generate_recommendations_frame [OF 1(2)] by simp_all
  have c: "get_campaign camp s2 = Some c" using assms(3) f by (simp add: get_campaign_def)
  obtain meta where s': "s' = write_audit e tenant ''campaign'' camp ''campaign_auto_paused'' (Some (status_dict (camp_status c)))
      (Some (status_dict Paused)) meta (modify_campaign camp (\<lambda>c. c\<lparr>camp_status := Paused\<rparr>) s2)"
    using 1(3,4) assms(2) c by (auto simp: auto_pause_def split: if_splits sum.splits bool.splits)
  have "get_campaign camp s' = Some (c\<lparr>camp_status := Paused\<rparr>)"
    using campaign_table.get_modify_same [OF _ c, of "\<lambda>c. c\<lparr>camp_status := Paused\<rparr>"] unfolding s' by (simp add: get_campaign_def)
  moreover have "tasks s' = tasks s" unfolding s' using f(2) by (simp add: modify_campaign_def)
  ultimately show ?thesis
    by (auto simp: apply_transition_def campaign_sm_eq builtin_transitions_def transition_of_def keyed_def)
qed

section \<open>Concrete instances\<close>

text \<open>Two channels, the second four times as expensive per click, and an accepted strategy over both.\<close>

definition demo_event :: "uuid \<Rightarrow> event_kind \<Rightarrow> rat option \<Rightarrow> analytic_event" where
  "demo_event ch k v = \<lparr>ev_id = 0, ev_tenant_id = 1, ev_campaign_id = Some 7, ev_channel_id = Some ch, ev_type = k,
     ev_metric_value = v, ev_payload = [], ev_provider_event_id = None, ev_at = 20 * usec_per_day\<rparr>"

definition demo_channel :: "uuid \<Rightarrow> string \<Rightarrow> channel" where
  "demo_channel i n = \<lparr>ch_id = i, ch_tenant_id = 1, ch_name = n, ch_platform = PEmail, ch_is_active = True, ch_api_config = []\<rparr>"

definition demo_allocation :: "string \<Rightarrow> money \<Rightarrow> json" where
  "demo_allocation n m = JObj [(''name'', JStr n), (''allocation_pct'', JInt 50), (''allocation_amount'', JStr (money_str m))]"

definition demo_plan :: strategy_proposal where
  "demo_plan = \<lparr>prop_id = 40, prop_tenant_id = 1, prop_campaign_id = 7, prop_version = 1,
     prop_payload = [(''channels'', JArr [demo_allocation ''mail'' 250000, demo_allocation ''ads'' 250000])], prop_is_accepted = True,
     prop_created_by_kind = ''user'', prop_created_by_id = None, prop_warnings = []\<rparr>"

definition demo_shift_db :: db where
  "demo_shift_db = empty_db\<lparr>campaigns := [demo_campaign Live], channels := [demo_channel 2 ''mail'', demo_channel 3 ''ads''],
     proposals := [demo_plan],
     events := [demo_event 2 ESpend (Some 100), demo_event 2 EClick None, demo_event 3 ESpend (Some 400), demo_event 3 EClick None]\<rparr>"

definition demo_metric :: "uuid \<Rightarrow> string \<Rightarrow> rat \<Rightarrow> channel_metric" where
  "demo_metric i n q = \<lparr>cm_channel_id = i, cm_name = n, cm_spend = q, cm_clicks = 1, cm_impressions = 0, cm_conversions = 0,
     cm_min_daily_spend = None\<rparr>"

lemma demo_metric_simps [simp]:
  "cm_name (demo_metric i n q) = n" "cm_spend (demo_metric i n q) = q" "cm_min_daily_spend (demo_metric i n q) = None"
  "outcomes Click (demo_metric i n q) = 1" "cm_conversions (demo_metric i n q) = 0" "cm_channel_id (demo_metric i n q) = i"
  by (simp_all add: demo_metric_def outcomes_def)

lemma dec28_int: "\<bar>n\<bar> < 10 ^ 28 \<Longrightarrow> dec28 (of_int n) = of_int n"
  using dec28_exact [of n 0] by simp

lemma demo_decimals: "dec28 4 = 4" "dec28 100 = 100" "dec28 400 = 400" "dec28 750 = 750" "dec28 1750 = 1750" "dec28 3250 = 3250"
  "dec28 (3 / 10) = 3 / 10"
  using dec28_int [of 4] dec28_int [of 100] dec28_int [of 400] dec28_int [of 750] dec28_int [of 1750] dec28_int [of 3250]
    dec28_exact [of 3 1] by simp_all

lemma demo_amounts: "shift_amount 2500 None = Inr (Some (750, 3 / 10, False))"
  by (simp add: shift_amount_def clamped_amount_def shift_default_def shift_floor_def shift_ceiling_def demo_decimals)

lemma demo_costs: "cost_per_outcome Click (demo_metric i n 100) = 100" "cost_per_outcome Click (demo_metric i n 400) = 400"
  by (simp_all add: cost_per_outcome_def demo_decimals)

lemma demo_pick:
  "pick_channels [demo_metric 2 ''mail'' 100, demo_metric 3 ''ads'' 400] = Some (Click, demo_metric 2 ''mail'' 100, demo_metric 3 ''ads'' 400)"
  by (simp add: pick_channels_def demo_costs)

lemma demo_metrics:
  "channel_metrics 1 7 (21 * usec_per_day - days (int min_data_days)) demo_shift_db = [demo_metric 2 ''mail'' 100, demo_metric 3 ''ads'' 400]"
  by (simp add: channel_metrics_def demo_shift_db_def attributed_events_def attributed_def demo_event_def days_def min_data_days_def
      channel_metric_of_def channel_name_def find_row_def demo_channel_def dict_get_def as_decimal_def kind_count_def metric_sum_def
      map_filter_simps demo_metric_def demo_decimals)

lemma demo_quantized: "quantize_res 2 1750 = Inr 1750" "quantize_res 2 3250 = Inr 3250" "quantize_res 2 750 = Inr 750" "quantize_res 4 4 = Inr 4"
  using quantize_res_int [of 1750 2] quantize_res_int [of 3250 2] quantize_res_int [of 750 2] quantize_res_int [of 4 4] by simp_all

lemma demo_allocations:
  "resolve_strategy_allocations 1 7 demo_shift_db =
     Inr [(''mail'', DNum 50, JStr (money_str 250000)), (''ads'', DNum 50, JStr (money_str 250000))]"
  by (simp add: resolve_strategy_allocations_def accepted_of_tenant_def demo_shift_db_def demo_plan_def demo_allocation_def
      dict_get_def dict_get_default_def allocation_step_def py_float_def)

lemma demo_amount: "\<exists>t. as_decimal (JStr (money_str 250000)) = Some (DNum 2500, t)"
  by (simp add: as_decimal_def money_roundtrip)

lemma demo_shift:
  obtains b t where "try_budget_shift (21 * usec_per_day) 1 7 demo_shift_db = Inr (Some b)"
    "dict_get (pb_proposal b) ''from'' = shift_side (demo_metric 3 ''ads'' 400) (DNum 50) t (money_str 175000)"
    "dict_get (pb_proposal b) ''to'' = shift_side (demo_metric 2 ''mail'' 100) (DNum 50) t (money_str 325000)"
    "pb_kind b = ''budget_shift''" "pb_storable b"
proof -
  obtain t where t: "as_decimal (JStr (money_str 250000)) = Some (DNum 2500, t)" using demo_amount by blast
  have l: "leader_amounts (JStr (money_str 250000)) 750 = Inr (t, cents_text 3250)"
    unfolding leader_amounts_def t by (simp add: demo_quantized demo_decimals)
  have "\<exists>b. try_budget_shift (21 * usec_per_day) 1 7 demo_shift_db = Inr (Some b)
    \<and> dict_get (pb_proposal b) ''from'' = shift_side (demo_metric 3 ''ads'' 400) (DNum 50) t (money_str 175000)
    \<and> dict_get (pb_proposal b) ''to'' = shift_side (demo_metric 2 ''mail'' 100) (DNum 50) t (money_str 325000)
    \<and> pb_kind b = ''budget_shift'' \<and> pb_storable b"
    unfolding try_budget_shift_def demo_metrics Let_def demo_pick option.case prod.case demo_costs demo_allocations sum.case
    by (simp add: min_ratio_def t demo_decimals demo_amounts shift_bundle_def l demo_quantized Let_def dict_get_def cents_text_def is_number_def)
  then show thesis using that by blast
qed

lemma demo_generated:
  obtains t r sg where "generate_recommendations (worker_env (21 * usec_per_day)) 1 7 demo_shift_db = Inr ([r], sg)"
    "dict_get (rec_proposal r) ''from'' = shift_side (demo_metric 3 ''ads'' 400) (DNum 50) t (money_str 175000)"
    "dict_get (rec_proposal r) ''to'' = shift_side (demo_metric 2 ''mail'' 100) (DNum 50) t (money_str 325000)"
    "recommendations sg = [r]" "rec_tenant_id r = 1" "rec_status r = ''pending''" "rec_kind r = ''budget_shift''"
proof -
  obtain b t where b: "try_budget_shift (21 * usec_per_day) 1 7 demo_shift_db = Inr (Some b)"
    "dict_get (pb_proposal b) ''from'' = shift_side (demo_metric 3 ''ads'' 400) (DNum 50) t (money_str 175000)"
    "dict_get (pb_proposal b) ''to'' = shift_side (demo_metric 2 ''mail'' 100) (DNum 50) t (money_str 325000)"
    "pb_kind b = ''budget_shift''" "pb_storable b" by (rule demo_shift)
  obtain r sg where ins: "insert_recommendation (worker_env (21 * usec_per_day)) 1 7 b demo_shift_db = Inr (r, sg)"
    "rec_proposal r = pb_proposal b" "recommendations sg = [r]" "rec_tenant_id r = 1" "rec_status r = ''pending''"
    "rec_kind r = ''budget_shift''"
    using b(4,5) by (simp add: insert_recommendation_def fresh_uuid_def demo_shift_db_def empty_db_def Let_def)
  have "get_campaign 7 demo_shift_db = Some (demo_campaign Live)" "recommendations demo_shift_db = []"
    by (simp_all add: get_campaign_def find_row_def demo_shift_db_def demo_campaign_def empty_db_def)
  then have "generate_recommendations (worker_env (21 * usec_per_day)) 1 7 demo_shift_db = Inr ([r], sg)"
    using b(1) ins(1) by (simp add: generate_recommendations_def already_pending_def worker_env_def demo_campaign_def min_data_days_def days_def)
  then show thesis using that ins b(2,3) by simp
qed

theorem applied_shift_keeps_budget_witness:
  "\<exists>r sg row s2 laggard leader x y a m. generate_recommendations (worker_env (21 * usec_per_day)) 1 7 demo_shift_db = Inr ([r], sg)
     \<and> accept_recommendation 5 (demo_user Manager) (rec_id r) sg = Inr (row, s2) \<and> rec_status row = ''applied''
     \<and> cm_spend leader / of_nat (outcomes Click leader) < cm_spend laggard / of_nat (outcomes Click laggard)
     \<and> allocated_of 7 (cm_channel_id laggard) s2 = Some x \<and> allocated_of 7 (cm_channel_id leader) s2 = Some y
     \<and> \<bar>x + y - (a + m)\<bar> \<le> 1 \<and> 7 * a - 5 \<le> 10 * x \<and> 10 * x \<le> 9 * a + 5"
proof -
  obtain t r sg where g: "generate_recommendations (worker_env (21 * usec_per_day)) 1 7 demo_shift_db = Inr ([r], sg)"
    "dict_get (rec_proposal r) ''from'' = shift_side (demo_metric 3 ''ads'' 400) (DNum 50) t (money_str 175000)"
    "dict_get (rec_proposal r) ''to'' = shift_side (demo_metric 2 ''mail'' 100) (DNum 50) t (money_str 325000)"
    and rows: "recommendations sg = [r]" and r: "rec_tenant_id r = 1" "rec_status r = ''pending''" "rec_kind r = ''budget_shift''"
    by (rule demo_generated)
  obtain sa where sa: "apply_budget_shift r sg = Inr sa" using apply_budget_shift_runs [OF g(2,3)] by auto
  have "pending_recommendation (demo_user Manager) (rec_id r) sg = Inr r"
    by (simp add: pending_recommendation_def require_role_def rows r find_row_def)
  then obtain row s2 where acc: "accept_recommendation 5 (demo_user Manager) (rec_id r) sg = Inr (row, s2)"
    using sa r(3) by (simp add: accept_recommendation_def)
  have hyps: "cents_amounts [(''mail'', DNum 50, JStr (money_str 250000)), (''ads'', DNum 50, JStr (money_str 250000))]"
    "\<forall>c\<in>set (channels demo_shift_db). cents_or_none (map_option fst (as_decimal (dict_get (ch_api_config c) ''min_daily_spend'')))"
    "\<forall>ev\<in>set (events demo_shift_db). \<forall>ch. ev_channel_id ev = Some ch \<longrightarrow> ch < 2 ^ 128"
    "r \<in> set (recommendations sg)" "distinct (map rec_id (recommendations sg))"
    by (auto simp: cents_amounts_def demo_shift_db_def demo_channel_def dict_get_def as_decimal_def cents_or_none_def demo_event_def rows)
  have ms: "channel_metrics 1 7 (env_now (worker_env (21 * usec_per_day)) - days (int min_data_days)) demo_shift_db
      = [demo_metric 2 ''mail'' 100, demo_metric 3 ''ads'' 400]" using demo_metrics by (simp add: worker_env_def)
  from applied_shift_keeps_budget [OF g(1) demo_allocations hyps acc, unfolded ms] obtain oc laggard leader a m x y where
    o: "oc = (if \<exists>c\<in>set [demo_metric 2 ''mail'' 100, demo_metric 3 ''ads'' 400]. 0 < cm_conversions c then Conversion else Click)"
    and el: "eligible oc laggard" "eligible oc leader"
    and c: "(6 / 5 - 1 / 10 ^ 20) * (cm_spend leader / of_nat (outcomes oc leader)) \<le> cm_spend laggard / of_nat (outcomes oc laggard)"
    and al: "allocated_of 7 (cm_channel_id laggard) s2 = Some x" "allocated_of 7 (cm_channel_id leader) s2 = Some y"
    "\<bar>x + y - (a + m)\<bar> \<le> 1" "7 * a - 5 \<le> 10 * x" "10 * x \<le> 9 * a + 5" "rec_status row = ''applied''" by blast
  have "oc = Click" using o by simp
  moreover have "0 < cm_spend leader / of_nat (outcomes oc leader)" using el(2) by (simp add: eligible_def)
  then have "cm_spend leader / of_nat (outcomes oc leader) < cm_spend laggard / of_nat (outcomes oc laggard)"
    using c by (simp add: algebra_simps)
  ultimately show ?thesis using g(1) acc al by blast
qed

theorem recorded_events_yield_no_recommendation_witness:
  "let s = empty_db\<lparr>campaigns := [demo_campaign Live]\<rparr>; s' = snd (ingest_events 1 [demo_bucket] s)
   in events s' \<noteq> [] \<and> generate_recommendations (worker_env (50 * usec_per_day)) 1 7 s' = Inr ([], s')"
proof -
  let ?s = "empty_db\<lparr>campaigns := [demo_campaign Live]\<rparr>"
  let ?s' = "snd (ingest_events 1 [demo_bucket] ?s)"
  have "event_step (\<lambda>_. None) ?s ?s'" by (rule web_import [of 1 "[demo_bucket]" _ "fst (ingest_events 1 [demo_bucket] ?s)"]) simp
  then have "(event_step (\<lambda>_. None))\<^sup>*\<^sup>* ?s ?s'" by blast
  moreover have "channelless ?s" by (simp add: channelless_def empty_db_def)
  ultimately have "generate_recommendations (worker_env (50 * usec_per_day)) 1 7 ?s' = Inr ([], ?s')"
    by (rule recorded_events_yield_no_recommendation)
  moreover have "length (events ?s') = 1" by code_simp
  ultimately show ?thesis unfolding Let_def by auto
qed

text \<open>A completed campaign of a tenant with the automatic pause switched on, an open critical anomaly of unsubscriptions
  two days old, and a second spike today.\<close>

definition demo_unsub :: "int \<Rightarrow> analytic_event" where
  "demo_unsub day = (demo_click day)\<lparr>ev_type := EUnsubscribe\<rparr>"

definition old_anomaly :: metric_anomaly where
  "old_anomaly = \<lparr>an_id = 80, an_tenant_id = 1, an_campaign_id = 7, an_metric = ''unsubscribe'', an_window_start = 0, an_window_end = 0,
     an_observed = 4, an_median = 1, an_stddev = 0, an_sigma = 9999, an_severity = ''critical'', an_dismissed_at = None,
     an_dismissed_by = None, an_created_at = 11 * usec_per_day\<rparr>"

definition spike_db :: db where
  "spike_db = empty_db\<lparr>campaigns := [demo_campaign Completed], anomalies := [old_anomaly],
     compliance_settings_rows := [\<lparr>cs_tenant_id = 1, cs_postal_address = None, cs_unsubscribe_secret = None, cs_auto_pause = True\<rparr>],
     events := map demo_unsub [0, 1, 2, 3, 4, 5, 6, 7, 8, 9, 10, 11, 12, 13, 13, 13, 13, 13]\<rparr>"

lemma spike_fires:
  "map (\<lambda>m. map_option (\<lambda>d. (da_sigma d, da_severity d)) (detect_one (env_now demo_noon) 1 7 m spike_db)) hot_metrics
     = [None, None, None, None, Some (9999, ''critical''), None, None]"
  "\<not> silenced (env_now demo_noon) 1 7 EUnsubscribe spike_db"
  by code_simp+

lemma spike_pass:
  obtains row s1 where "detect_anomalies demo_noon 1 7 spike_db = Inr ([row], s1)" "row_of_pass demo_noon 1 7 spike_db EUnsubscribe row"
    "an_severity row = ''critical''"
proof -
  obtain d where d: "detect_one (env_now demo_noon) 1 7 EUnsubscribe spike_db = Some d" "da_sigma d = 9999" "da_severity d = ''critical''"
    using spike_fires(1) by (auto simp: hot_metrics_def)
  have f: "fires (env_now demo_noon) 1 7 spike_db EUnsubscribe" using d spike_fires(2) by (simp add: fires_def)
  have "\<forall>m'\<in>set hot_metrics. m' \<noteq> EUnsubscribe \<longrightarrow> \<not> fires (env_now demo_noon) 1 7 spike_db m'"
    using spike_fires(1) by (auto simp: hot_metrics_def fires_def)
  then obtain row s1 where "detect_anomalies demo_noon 1 7 spike_db = Inr ([row], s1)" "row_of_pass demo_noon 1 7 spike_db EUnsubscribe row"
    using detect_loop_fires [OF _ distinct_hot_metrics f d(1)] d(2) unfolding detect_anomalies_def by (auto simp: hot_metrics_def)
  then show thesis using that d by (auto simp: row_of_pass_def)
qed

theorem auto_pause_bypasses_state_machine_witness:
  "\<exists>res s'. analyse_campaign demo_noon 1 7 spike_db = Inr (res, s') \<and> ar_auto_paused res
     \<and> get_campaign 7 spike_db = Some (demo_campaign Completed) \<and> get_campaign 7 s' = Some (demo_campaign Completed\<lparr>camp_status := Paused\<rparr>)"
proof -
  obtain row s1 where 1: "detect_anomalies demo_noon 1 7 spike_db = Inr ([row], s1)" "row_of_pass demo_noon 1 7 spike_db EUnsubscribe row"
    "an_severity row = ''critical''" by (rule spike_pass)
  have "channelless s1" using detect_anomalies_rows(2) [OF 1(1)]
    by (auto simp: channelless_def spike_db_def demo_unsub_def demo_click_def)
  then have 2: "generate_recommendations demo_noon 1 7 s1 = Inr ([], s1)"
    by (rule channelless_no_recommendation)
  have rows: "anomalies s1 = [old_anomaly, row]" using detect_anomalies_rows(1) [OF 1(1)] by (simp add: spike_db_def)
  have "recent_anomalies 1 7 EUnsubscribe s1 = [row, old_anomaly]"
    using 1(2) by (auto simp: recent_anomalies_def rows old_anomaly_def row_of_pass_def demo_noon_def hours_def)
  then have pause: "should_auto_pause 1 7 s1 = Inr True"
    using 1(3) detect_anomalies_frame(3) [OF 1(1)]
    by (simp add: should_auto_pause_def compliance_row_def spike_db_def critical_metrics_def old_anomaly_def)
  have c: "get_campaign 7 spike_db = Some (demo_campaign Completed)" by (simp add: get_campaign_def spike_db_def find_row_def)
  have c1: "get_campaign 7 s1 = Some (demo_campaign Completed)"
    using c detect_anomalies_frame(1) [OF 1(1)] by (simp add: get_campaign_def)
  have "\<exists>res s'. analyse_campaign demo_noon 1 7 spike_db = Inr (res, s') \<and> ar_auto_paused res"
    unfolding analyse_campaign_def 1(1) sum.case prod.case 2 auto_pause_def pause c1 by simp
  then obtain res s' where run: "analyse_campaign demo_noon 1 7 spike_db = Inr (res, s')" "ar_auto_paused res" by blast
  then show ?thesis using auto_pause_bypasses_state_machine [OF run c] c by blast
qed

end
