(* ===== verification/Reconciliation.thy ===== *)
theory Reconciliation
  imports Recommendations
begin

text \<open>
  Spend ingest and reconciliation (\<^verbatim>\<open>app/analytics/spend_reconciliation.py\<close>) and the endpoints of
  \<^verbatim>\<open>app/api/custom_kpis.py\<close>: amounts are Decimals, the tables hold cents and percentages of four digits whose columns
  refuse what does not fit.
\<close>

section \<open>Spend ingest\<close>

text \<open>\<^verbatim>\<open>ChannelSpend\<close>: a channel and the amount the platform reports.\<close>

type_synonym channel_spend = "uuid \<times> rat"

definition is_spend_read_only :: "campaign \<Rightarrow> db \<Rightarrow> bool" where
  "is_spend_read_only c s \<longleftrightarrow>
     camp_status c = Completed
     \<and> (case sort_key (\<lambda>r. - sr_period_end r) (filter (\<lambda>r. sr_campaign_id r = camp_id c) (reconciliations s)) of
          [] \<Rightarrow> False | r # _ \<Rightarrow> sr_status r = ''matched'')"

text \<open>A value for a \<^verbatim>\<open>NUMERIC(14, 2)\<close> column.\<close>

definition cents_column :: "rat \<Rightarrow> money res" where
  "cents_column q = (if 10 ^ 14 \<le> \<bar>pg_cents q\<bar> then Inl DataError else Inr (pg_cents q))"

definition budget_key :: "uuid \<Rightarrow> uuid \<Rightarrow> channel_budget \<Rightarrow> bool" where
  "budget_key camp ch b \<longleftrightarrow> cb_campaign_id b = camp \<and> cb_channel_id b = ch"

definition upsert_spent :: "uuid \<Rightarrow> channel_spend \<Rightarrow> db \<Rightarrow> db res" where
  "upsert_spent camp = (\<lambda>(ch, amount) s.
     (case cents_column amount of
        Inl err \<Rightarrow> Inl err
      | Inr m \<Rightarrow>
          if m < 0 then Inl IntegrityError
          else Inr (s\<lparr>channel_budgets := upsert_row (budget_key camp ch) (\<lambda>b. b\<lparr>cb_spent := m\<rparr>)
                 \<lparr>cb_campaign_id = camp, cb_channel_id = ch, cb_allocated = 0, cb_spent = m\<rparr> (channel_budgets s)\<rparr>)))"

definition ingest_platform_spend :: "uuid \<Rightarrow> uuid \<Rightarrow> channel_spend list \<Rightarrow> db \<Rightarrow> db res" where
  "ingest_platform_spend tenant camp records s =
     (case get_campaign camp s of
        None \<Rightarrow> Inl LookupError
      | Some c \<Rightarrow>
          if camp_tenant_id c \<noteq> tenant then Inl LookupError
          else if is_spend_read_only c s then Inl SpendReadOnlyError
          else for_each (upsert_spent camp) records s)"

section \<open>Reconciliation\<close>

definition match_threshold_pct :: rat where "match_threshold_pct = 1"

definition committed_total :: "uuid \<Rightarrow> db \<Rightarrow> money" where
  "committed_total camp s = sum_list (map cb_spent (filter (\<lambda>b. cb_campaign_id b = camp) (channel_budgets s)))"

definition spend_delta_pct :: "rat \<Rightarrow> rat \<Rightarrow> rat res" where
  "spend_delta_pct committed invoiced =
     (if committed = 0 then Inr (if invoiced \<noteq> 0 then 100 else 0)
      else quantize_res 4 (dec28 (dec28 (dec28 (invoiced - committed) / committed) * 100)))"

definition delta_status :: "rat \<Rightarrow> string" where
  "delta_status delta = (if \<bar>delta\<bar> \<le> match_threshold_pct then ''matched'' else ''pending'')"

definition same_period :: "uuid \<Rightarrow> uuid \<Rightarrow> date \<Rightarrow> date \<Rightarrow> spend_reconciliation \<Rightarrow> bool" where
  "same_period tenant camp from to r \<longleftrightarrow>
     sr_tenant_id r = tenant \<and> sr_campaign_id r = camp \<and> sr_period_start r = from \<and> sr_period_end r = to"

definition upsert_reconciliation ::
  "uuid \<Rightarrow> uuid \<Rightarrow> date \<Rightarrow> date \<Rightarrow> rat \<Rightarrow> rat \<Rightarrow> rat \<Rightarrow> string \<Rightarrow> db \<Rightarrow> (spend_reconciliation \<times> db) res" where
  "upsert_reconciliation tenant camp from to committed invoiced delta status s =
     (case cents_column committed of
        Inl err \<Rightarrow> Inl err
      | Inr com \<Rightarrow>
          (case cents_column invoiced of
             Inl err \<Rightarrow> Inl err
           | Inr amt \<Rightarrow>
               if 10000 \<le> \<bar>delta\<bar> then Inl DataError
               else let f = (\<lambda>r. r\<lparr>sr_committed := com, sr_invoiced := amt, sr_delta_pct := delta, sr_status := status\<rparr>);
                        (i, s1) = fresh_uuid s;
                        new = \<lparr>sr_id = i, sr_tenant_id = tenant, sr_campaign_id = camp, sr_period_start = from, sr_period_end = to,
                               sr_committed = com, sr_invoiced = amt, sr_delta_pct = delta, sr_status = status, sr_note = None,
                               sr_resolved_at = None, sr_resolved_by = None\<rparr>
                    in Inr (case find_row (same_period tenant camp from to) (reconciliations s) of None \<Rightarrow> new | Some r \<Rightarrow> f r,
                         s1\<lparr>reconciliations := upsert_row (same_period tenant camp from to) f new (reconciliations s)\<rparr>)))"

definition reconcile_one ::
  "uuid \<Rightarrow> date \<Rightarrow> date \<Rightarrow> uuid \<times> rat \<Rightarrow> spend_reconciliation list \<times> db \<Rightarrow> (spend_reconciliation list \<times> db) res" where
  "reconcile_one tenant from to = (\<lambda>(camp, invoiced) (out, s).
     (case get_campaign camp s of
        None \<Rightarrow> Inr (out, s)
      | Some c \<Rightarrow>
          if camp_tenant_id c \<noteq> tenant then Inr (out, s)
          else let committed = of_int (committed_total camp s) / 100
               in case spend_delta_pct committed invoiced of
                    Inl err \<Rightarrow> Inl err
                  | Inr delta \<Rightarrow>
                      map_sum id (\<lambda>(row, s1). (out @ [row], s1))
                        (upsert_reconciliation tenant camp from to committed invoiced delta (delta_status delta) s)))"

definition run_reconciliation ::
  "uuid \<Rightarrow> date \<Rightarrow> date \<Rightarrow> (uuid \<times> rat) list \<Rightarrow> db \<Rightarrow> (spend_reconciliation list \<times> db) res" where
  "run_reconciliation tenant from to invoices s = for_each (reconcile_one tenant from to) invoices ([], s)"

definition resolved :: "string \<Rightarrow> string option \<Rightarrow> instant \<Rightarrow> uuid \<Rightarrow> spend_reconciliation \<Rightarrow> spend_reconciliation" where
  "resolved status note now who r =
     r\<lparr>sr_status := status, sr_note := note, sr_resolved_at := Some now, sr_resolved_by := Some who\<rparr>"

definition mark_resolved ::
  "string \<Rightarrow> uuid \<Rightarrow> uuid \<Rightarrow> string option \<Rightarrow> instant \<Rightarrow> db \<Rightarrow> (spend_reconciliation \<times> db) res" where
  "mark_resolved status i who note now s =
     (case find_row (\<lambda>r. sr_id r = i) (reconciliations s) of
        None \<Rightarrow> Inl LookupError
      | Some r \<Rightarrow> Inr (resolved status note now who r,
          s\<lparr>reconciliations := update_where (\<lambda>r. sr_id r = i) (resolved status note now who) (reconciliations s)\<rparr>))"

definition mark_explained :: "uuid \<Rightarrow> uuid \<Rightarrow> string \<Rightarrow> instant \<Rightarrow> db \<Rightarrow> (spend_reconciliation \<times> db) res" where
  "mark_explained i who note now s = mark_resolved ''explained'' i who (Some note) now s"

definition mark_disputed :: "uuid \<Rightarrow> uuid \<Rightarrow> string option \<Rightarrow> instant \<Rightarrow> db \<Rightarrow> (spend_reconciliation \<times> db) res" where
  "mark_disputed i who note now s = mark_resolved ''disputed'' i who note now s"

section \<open>Reconciliation endpoints\<close>

definition run_spend_reconciliation ::
  "instant \<Rightarrow> app_user \<Rightarrow> date \<Rightarrow> date \<Rightarrow> (uuid \<times> rat) list \<Rightarrow> db \<Rightarrow> (spend_reconciliation list \<times> db) res" where
  "run_spend_reconciliation now user from to invoices s =
     (case require_role Admin user of
        Inl err \<Rightarrow> Inl err
      | Inr _ \<Rightarrow>
          map_sum id (\<lambda>(rows, s1). (rows, write_audit (user_env now user) (user_tenant_id user) ''spend_reconciliation'' (user_id user)
              ''reconciliation_run'' None None
              [(''period_start'', JStr (date_iso from)), (''period_end'', JStr (date_iso to)), (''campaigns'', JInt (int (length invoices)))] s1))
            (run_reconciliation (user_tenant_id user) from to invoices s))"

definition list_campaign_reconciliation :: "app_user \<Rightarrow> uuid \<Rightarrow> db \<Rightarrow> spend_reconciliation list res" where
  "list_campaign_reconciliation user camp s =
     (case require_role Viewer user of
        Inl err \<Rightarrow> Inl err
      | Inr _ \<Rightarrow>
          (case tenant_campaign user camp s of
             None \<Rightarrow> Inl (HTTPException 404)
           | Some _ \<Rightarrow> Inr (sort_key (\<lambda>r. - sr_period_end r)
               (filter (\<lambda>r. sr_campaign_id r = camp \<and> sr_tenant_id r = user_tenant_id user) (reconciliations s)))))"

definition tenant_reconciliation :: "app_user \<Rightarrow> uuid \<Rightarrow> db \<Rightarrow> spend_reconciliation res" where
  "tenant_reconciliation user i s =
     (case require_role Admin user of
        Inl err \<Rightarrow> Inl err
      | Inr _ \<Rightarrow>
          (case find_row (\<lambda>r. sr_id r = i) (reconciliations s) of
             None \<Rightarrow> Inl (HTTPException 404)
           | Some r \<Rightarrow> if sr_tenant_id r \<noteq> user_tenant_id user then Inl (HTTPException 404) else Inr r))"

definition explain_reconciliation :: "instant \<Rightarrow> app_user \<Rightarrow> uuid \<Rightarrow> string \<Rightarrow> db \<Rightarrow> (spend_reconciliation \<times> db) res" where
  "explain_reconciliation now user i note s =
     (case tenant_reconciliation user i s of Inl err \<Rightarrow> Inl err | Inr _ \<Rightarrow> mark_explained i (user_id user) note now s)"

definition dispute_reconciliation :: "instant \<Rightarrow> app_user \<Rightarrow> uuid \<Rightarrow> string option \<Rightarrow> db \<Rightarrow> (spend_reconciliation \<times> db) res" where
  "dispute_reconciliation now user i note s =
     (case tenant_reconciliation user i s of Inl err \<Rightarrow> Inl err | Inr _ \<Rightarrow> mark_disputed i (user_id user) note now s)"

section \<open>Custom KPI endpoints\<close>

definition create_custom_kpi :: "instant \<Rightarrow> app_user \<Rightarrow> string \<Rightarrow> uuid option \<Rightarrow> dict \<Rightarrow> db \<Rightarrow> (custom_kpi \<times> db) res" where
  "create_custom_kpi now user name camp formula s =
     (if name = [] \<or> 200 < length name then Inl (HTTPException 422)
      else case require_role Marketer user of
             Inl err \<Rightarrow> Inl err
           | Inr _ \<Rightarrow>
               if (case camp of None \<Rightarrow> False | Some c \<Rightarrow> tenant_campaign user c s = None) then Inl (HTTPException 422)
               else if \<not> truthy (dict_get formula ''event_type'') then Inl (HTTPException 422)
               else let (i, s1) = fresh_uuid s;
                        k = \<lparr>kpi_id = i, kpi_tenant_id = user_tenant_id user, kpi_campaign_id = camp, kpi_name = name, kpi_formula = formula,
                             kpi_deleted_at = None, kpi_created_by = Some (user_id user), kpi_created_at = now\<rparr>
                    in Inr (k, s1\<lparr>custom_kpis := custom_kpis s1 @ [k]\<rparr>))"

definition kpis_visible :: "app_user \<Rightarrow> uuid option \<Rightarrow> bool \<Rightarrow> db \<Rightarrow> custom_kpi list" where
  "kpis_visible user camp include_deleted s =
     filter (\<lambda>k. kpi_tenant_id k = user_tenant_id user
       \<and> (camp = None \<or> kpi_campaign_id k = camp \<or> kpi_campaign_id k = None)
       \<and> (include_deleted \<or> kpi_deleted_at k = None)) (custom_kpis s)"

definition list_custom_kpis :: "app_user \<Rightarrow> uuid option \<Rightarrow> bool \<Rightarrow> db \<Rightarrow> custom_kpi list res" where
  "list_custom_kpis user camp include_deleted s =
     (case require_role Viewer user of
        Inl err \<Rightarrow> Inl err
      | Inr _ \<Rightarrow> Inr (sort_key (\<lambda>k. - kpi_created_at k) (kpis_visible user camp include_deleted s)))"

definition delete_custom_kpi :: "instant \<Rightarrow> app_user \<Rightarrow> uuid \<Rightarrow> db \<Rightarrow> (custom_kpi \<times> db) res" where
  "delete_custom_kpi now user i s =
     (case require_role Marketer user of
        Inl err \<Rightarrow> Inl err
      | Inr _ \<Rightarrow>
          (case find_row (\<lambda>k. kpi_id k = i) (custom_kpis s) of
             None \<Rightarrow> Inl (HTTPException 404)
           | Some k \<Rightarrow>
               if kpi_tenant_id k \<noteq> user_tenant_id user then Inl (HTTPException 404)
               else if kpi_deleted_at k \<noteq> None then Inr (k, s)
               else Inr (k\<lparr>kpi_deleted_at := Some now\<rparr>,
                 s\<lparr>custom_kpis := update_where (\<lambda>k. kpi_id k = i) (\<lambda>k. k\<lparr>kpi_deleted_at := Some now\<rparr>) (custom_kpis s)\<rparr>)))"

fun evaluations ::
  "(string \<Rightarrow> kpi_op \<Rightarrow> analytic_event \<Rightarrow> bool) \<Rightarrow> instant \<Rightarrow> uuid \<Rightarrow> db \<Rightarrow> custom_kpi list \<Rightarrow> (uuid \<times> string \<times> evaluation_result) list res" where
  "evaluations typed_column now camp s [] = Inr []"
| "evaluations typed_column now camp s (kpi # kpis) =
     (case evaluate_custom_kpi typed_column now kpi camp s of
        Inl err \<Rightarrow> Inl err
      | Inr r \<Rightarrow> map_sum id (\<lambda>rest. (kpi_id kpi, kpi_name kpi, r) # rest) (evaluations typed_column now camp s kpis))"

definition list_evaluated_custom_kpis ::
  "(string \<Rightarrow> kpi_op \<Rightarrow> analytic_event \<Rightarrow> bool) \<Rightarrow> instant \<Rightarrow> app_user \<Rightarrow> uuid \<Rightarrow> bool \<Rightarrow> db
   \<Rightarrow> (uuid \<times> string \<times> evaluation_result) list res" where
  "list_evaluated_custom_kpis typed_column now user camp include_deleted s =
     (case require_role Viewer user of
        Inl err \<Rightarrow> Inl err
      | Inr _ \<Rightarrow>
          (case tenant_campaign user camp s of
             None \<Rightarrow> Inl (HTTPException 404)
           | Some _ \<Rightarrow> evaluations typed_column now camp s (kpis_visible user (Some camp) include_deleted s)))"

section \<open>The tolerance\<close>

text \<open>The percentage before it is rounded to four digits, up to the 28 digits of the context.\<close>

lemma raw_delta_bounds:
  fixes x :: rat
  shows "\<bar>dec28 (dec28 x * 100) - x * 100\<bar> \<le> \<bar>x\<bar> / 10 ^ 24"
proof -
  define t where "t = \<bar>x\<bar> / (2 * 10 ^ 27)"
  have t: "0 \<le> t" "t \<le> \<bar>x\<bar>" "\<bar>x\<bar> / 10 ^ 24 = 2000 * t" "200 * \<bar>x\<bar> / (2 * 10 ^ 27) = 200 * t" by (simp_all add: t_def)
  have 1: "\<bar>dec28 x - x\<bar> \<le> t" unfolding t_def by (rule dec28_error)
  have "\<bar>dec28 x\<bar> \<le> 2 * \<bar>x\<bar>" using 1 t(2) by linarith
  then have "\<bar>dec28 x * 100\<bar> \<le> 200 * \<bar>x\<bar>" by (simp add: abs_mult)
  then have "\<bar>dec28 x * 100\<bar> / (2 * 10 ^ 27) \<le> 200 * \<bar>x\<bar> / (2 * 10 ^ 27)" by (rule divide_right_mono) simp
  then have "\<bar>dec28 (dec28 x * 100) - dec28 x * 100\<bar> \<le> 200 * t" using dec28_error [of "dec28 x * 100"] t(4) by linarith
  then show ?thesis unfolding t(3) using 1 t(1) by linarith
qed

lemma spend_delta_cents:
  assumes "0 < c" "c < 10 ^ 14" "\<bar>v\<bar> < 10 ^ 14" "spend_delta_pct (of_int c / 100) (of_int v / 100) = Inr d"
  obtains y where "d = quantize 4 y" "\<bar>y - of_int (v - c) / of_int c * 100\<bar> \<le> \<bar>of_int (v - c) / of_int c\<bar> / 10 ^ 24"
proof -
  have "dec28 (of_int (v - c) / 100) = of_int (v - c) / 100" using assms(1-3) by (intro cents_exact) auto
  then have e: "dec28 (of_int v / 100 - of_int c / 100) / (of_int c / 100) = of_int (v - c) / of_int c"
    using assms(1) by (simp add: diff_divide_distrib [symmetric])
  have "d = quantize 4 (dec28 (dec28 (of_int (v - c) / of_int c) * 100))"
    using assms(1,4) e quantize_res_Inr by (simp add: spend_delta_pct_def)
  then show thesis using raw_delta_bounds that by blast
qed

lemma quantize4_le: "\<bar>y\<bar> < 1 + 1 / 20000 \<Longrightarrow> \<bar>quantize 4 y\<bar> \<le> 1"
proof -
  assume y: "\<bar>y\<bar> < 1 + 1 / 20000"
  let ?r = "round_half_even (y * 10000)"
  have "\<bar>of_int ?r - y * 10000\<bar> \<le> (1 / 2 :: rat)" using round_half_even_bounds [of "y * 10000"] by linarith
  then have "of_int \<bar>?r\<bar> < (10001 :: rat)" unfolding of_int_abs using y by linarith
  then have "\<bar>?r\<bar> < 10001" by (metis of_int_less_iff of_int_numeral)
  then have "\<bar>?r\<bar> \<le> 10000" by linarith
  then have "of_int \<bar>?r\<bar> \<le> (10000 :: rat)" by (metis of_int_le_iff of_int_numeral)
  then show ?thesis by (simp add: quantize_def abs_divide)
qed

text \<open>The one per cent rule of the reconciliation: an invoice that differs from the tracked spend by at most one per
  cent is matched, and a matched one differs by at most one per cent up to the rounding of the percentage to four
  digits.\<close>

theorem reconciliation_tolerance:
  assumes "0 < c" "c < 10 ^ 14" "\<bar>v\<bar> < 10 ^ 14" "spend_delta_pct (of_int c / 100) (of_int v / 100) = Inr d"
  shows "(100 * \<bar>v - c\<bar> \<le> c \<longrightarrow> delta_status d = ''matched'')
    \<and> (delta_status d = ''matched'' \<longrightarrow> 1000000 * \<bar>v - c\<bar> \<le> 10001 * c)"
proof -
  define x :: rat where "x = of_int (v - c) / of_int c"
  obtain y where y: "d = quantize 4 y" "\<bar>y - x * 100\<bar> \<le> \<bar>x\<bar> / 10 ^ 24" unfolding x_def by (rule spend_delta_cents [OF assms])
  have ax: "\<bar>x\<bar> = of_int \<bar>v - c\<bar> / of_int c" using assms(1) by (simp add: abs_divide x_def)
  have tiny: "\<bar>x\<bar> / 10 ^ 24 \<le> \<bar>x\<bar> / 1000000" by (rule divide_left_mono) auto
  have "delta_status d = ''matched''" if "100 * \<bar>v - c\<bar> \<le> c"
  proof -
    have "(100 * of_int \<bar>v - c\<bar> :: rat) \<le> of_int c" using that by (metis of_int_le_iff of_int_mult of_int_numeral)
    then have "\<bar>x\<bar> \<le> 1 / 100" unfolding ax using assms(1) by (simp add: field_simps)
    then have "\<bar>y\<bar> < 1 + 1 / 20000" using y(2) tiny by linarith
    then show ?thesis using quantize4_le y(1) by (simp add: delta_status_def match_threshold_pct_def)
  qed
  moreover have "1000000 * \<bar>v - c\<bar> \<le> 10001 * c" if "delta_status d = ''matched''"
  proof -
    have "\<bar>quantize 4 y\<bar> \<le> 1" using that y(1) by (simp add: delta_status_def match_threshold_pct_def split: if_splits)
    moreover have "\<bar>quantize 4 y - y\<bar> \<le> 1 / 20000" using quantize_error [of 4 y] by simp
    ultimately have "\<bar>y\<bar> \<le> 1 + 1 / 20000" by linarith
    then have "\<bar>x\<bar> \<le> 10001 / 1000000" using y(2) tiny by linarith
    then have "1000000 * of_int \<bar>v - c\<bar> \<le> (10001 * of_int c :: rat)" unfolding ax using assms(1) by (simp add: field_simps)
    then show ?thesis by (metis of_int_le_iff of_int_mult of_int_numeral)
  qed
  ultimately show ?thesis by blast
qed

section \<open>One row per period\<close>

lemma upsert_reconciliation_Inr:
  assumes "upsert_reconciliation tenant camp from to committed invoiced delta status s = Inr (row, s')"
  shows "\<bar>delta\<bar> < 10000" "find_row (same_period tenant camp from to) (reconciliations s') = Some row" "sr_status row = status"
    "campaigns s' = campaigns s" "channel_budgets s' = channel_budgets s"
    "find_row (same_period tenant camp from to) (reconciliations s) = Some r \<Longrightarrow>
       sr_id row = sr_id r \<and> sr_note row = sr_note r \<and> sr_resolved_at row = sr_resolved_at r \<and> sr_resolved_by row = sr_resolved_by r"
proof -
  obtain com amt where m: "cents_column committed = Inr com" "cents_column invoiced = Inr amt" and d: "\<bar>delta\<bar> < 10000"
    using assms by (auto simp: upsert_reconciliation_def split: sum.splits if_splits)
  obtain i s1 where i: "fresh_uuid s = (i, s1)" by force
  let ?f = "\<lambda>r. r\<lparr>sr_committed := com, sr_invoiced := amt, sr_delta_pct := delta, sr_status := status\<rparr>"
  let ?new = "\<lparr>sr_id = i, sr_tenant_id = tenant, sr_campaign_id = camp, sr_period_start = from, sr_period_end = to,
     sr_committed = com, sr_invoiced = amt, sr_delta_pct = delta, sr_status = status, sr_note = None,
     sr_resolved_at = None, sr_resolved_by = None\<rparr>"
  have row: "row = (case find_row (same_period tenant camp from to) (reconciliations s) of None \<Rightarrow> ?new | Some r \<Rightarrow> ?f r)"
    and s': "s' = s1\<lparr>reconciliations := upsert_row (same_period tenant camp from to) ?f ?new (reconciliations s)\<rparr>"
    using assms m d i by (auto simp: upsert_reconciliation_def Let_def)
  show "\<bar>delta\<bar> < 10000" by (rule d)
  have "find_row (same_period tenant camp from to) (upsert_row (same_period tenant camp from to) ?f ?new (reconciliations s)) = Some row"
    unfolding row by (rule find_upsert_same) (auto simp: same_period_def)
  then show "find_row (same_period tenant camp from to) (reconciliations s') = Some row" unfolding s' by simp
  show "sr_status row = status" unfolding row by (simp split: option.split)
  show "campaigns s' = campaigns s" "channel_budgets s' = channel_budgets s" using i unfolding s' by (auto simp: fresh_uuid_def)
  show "sr_id row = sr_id r \<and> sr_note row = sr_note r \<and> sr_resolved_at row = sr_resolved_at r \<and> sr_resolved_by row = sr_resolved_by r"
    if "find_row (same_period tenant camp from to) (reconciliations s) = Some r"
    unfolding row that by simp
qed

lemma reconcile_one_Inr:
  assumes "reconcile_one tenant from to (camp, invoiced) (out, s) = Inr (out', s')" "get_campaign camp s = Some c" "camp_tenant_id c = tenant"
  obtains row delta where "out' = out @ [row]" "spend_delta_pct (of_int (committed_total camp s) / 100) invoiced = Inr delta"
    "upsert_reconciliation tenant camp from to (of_int (committed_total camp s) / 100) invoiced delta (delta_status delta) s = Inr (row, s')"
  using assms by (auto simp: reconcile_one_def Let_def split: sum.splits)

text \<open>Running the reconciliation of a period again discards what an administrator decided: a row that was explained or
  disputed goes back to matched or pending, while the note and the name of who resolved it stay on it.\<close>

theorem rerun_discards_resolution:
  assumes "run_reconciliation tenant from to [(camp, invoiced)] s = Inr (rows, s')" "get_campaign camp s = Some c" "camp_tenant_id c = tenant"
    and "find_row (same_period tenant camp from to) (reconciliations s) = Some r"
    and "sr_status r = ''disputed'' \<or> sr_status r = ''explained''"
  shows "\<exists>row. rows = [row] \<and> find_row (same_period tenant camp from to) (reconciliations s') = Some row \<and> sr_id row = sr_id r
    \<and> sr_status row \<in> {''matched'', ''pending''} \<and> sr_note row = sr_note r \<and> sr_resolved_by row = sr_resolved_by r"
proof -
  have one: "reconcile_one tenant from to (camp, invoiced) ([], s) = Inr (rows, s')"
    using assms(1) by (auto simp: run_reconciliation_def split: sum.splits)
  obtain row delta where row: "rows = [] @ [row]"
    "upsert_reconciliation tenant camp from to (of_int (committed_total camp s) / 100) invoiced delta (delta_status delta) s = Inr (row, s')"
    by (rule reconcile_one_Inr [OF one assms(2,3)])
  note u = upsert_reconciliation_Inr [OF row(2)]
  show ?thesis using row(1) u(2,3) u(6) [OF assms(4)] by (auto simp: delta_status_def)
qed

section \<open>A large deviation\<close>

lemma reconcile_one_frame:
  assumes "reconcile_one tenant from to p (out, s) = Inr (out', s')"
  shows "campaigns s' = campaigns s" "channel_budgets s' = channel_budgets s"
proof -
  obtain camp invoiced where p: "p = (camp, invoiced)" by force
  have "campaigns s' = campaigns s \<and> channel_budgets s' = channel_budgets s"
    using assms upsert_reconciliation_Inr(4,5) unfolding p
    by (auto simp: reconcile_one_def Let_def split: option.splits if_splits sum.splits)
  then show "campaigns s' = campaigns s" "channel_budgets s' = channel_budgets s" by simp_all
qed

lemma large_delta:
  assumes "0 < c" "c < 10 ^ 14" "\<bar>v\<bar> < 10 ^ 14" "102 * c \<le> v" "spend_delta_pct (of_int c / 100) (of_int v / 100) = Inr d"
  shows "10000 \<le> \<bar>d\<bar>"
proof -
  define x :: rat where "x = of_int (v - c) / of_int c"
  obtain y where y: "d = quantize 4 y" "\<bar>y - x * 100\<bar> \<le> \<bar>x\<bar> / 10 ^ 24" unfolding x_def by (rule spend_delta_cents [OF assms(1-3,5)])
  have tiny: "\<bar>x\<bar> / 10 ^ 24 \<le> \<bar>x\<bar> / 1000" by (rule divide_left_mono) auto
  have "(102 * of_int c :: rat) \<le> of_int v" using assms(4) by (metis of_int_le_iff of_int_mult of_int_numeral)
  then have "101 \<le> x" using assms(1) by (simp add: x_def field_simps)
  then have "10001 \<le> y" using y(2) tiny by linarith
  moreover have "\<bar>quantize 4 y - y\<bar> \<le> 1 / 20000" using quantize_error [of 4 y] by simp
  ultimately show ?thesis using y(1) by linarith
qed

text \<open>One invoice far off aborts the reconciliation of the whole period: when a campaign is billed 102 times its tracked
  spend or more, the percentage does not fit its column, so the run fails for every campaign in it instead of flagging
  that one as pending.\<close>

theorem large_deviation_aborts_run:
  assumes "(camp, of_int v / 100) \<in> set invoices" "get_campaign camp s = Some c" "camp_tenant_id c = tenant"
    and "0 < committed_total camp s" "committed_total camp s < 10 ^ 14" "v < 10 ^ 14" "102 * committed_total camp s \<le> v"
  shows "isl (run_reconciliation tenant from to invoices s)"
proof -
  have "isl (for_each (reconcile_one tenant from to) xs (out, t))"
    if "(camp, of_int v / 100) \<in> set xs" "campaigns t = campaigns s" "channel_budgets t = channel_budgets s" for xs out t
    using that
  proof (induction xs arbitrary: out t)
    case (Cons p xs)
    show ?case
    proof (cases "reconcile_one tenant from to p (out, t)")
      case (Inr r)
      obtain out1 t1 where r: "r = (out1, t1)" by force
      have same: "get_campaign camp t = Some c" "committed_total camp t = committed_total camp s"
        using Cons.prems(2,3) assms(2) by (simp_all add: get_campaign_def committed_total_def)
      have "p \<noteq> (camp, of_int v / 100)"
      proof
        assume p: "p = (camp, of_int v / 100)"
        obtain row delta where "spend_delta_pct (of_int (committed_total camp t) / 100) (of_int v / 100) = Inr delta"
          "upsert_reconciliation tenant camp from to (of_int (committed_total camp t) / 100) (of_int v / 100) delta (delta_status delta) t = Inr (row, t1)"
          by (rule reconcile_one_Inr [OF Inr [unfolded p r] same(1) assms(3)])
        then show False using large_delta [of "committed_total camp s" v delta] upsert_reconciliation_Inr(1) assms(4-7) same(2) by force
      qed
      then have "(camp, of_int v / 100) \<in> set xs" using Cons.prems(1) by simp
      moreover have "campaigns t1 = campaigns s" "channel_budgets t1 = channel_budgets s"
        using reconcile_one_frame [OF Inr [unfolded r]] Cons.prems(2,3) by simp_all
      ultimately have "isl (for_each (reconcile_one tenant from to) xs (out1, t1))" by (rule Cons.IH)
      then show ?thesis using Inr r by simp
    qed simp
  qed simp
  then show ?thesis unfolding run_reconciliation_def using assms(1) by blast
qed

section \<open>Ingesting a window again\<close>

lemma filter_update_same: "(\<And>r. P r \<Longrightarrow> P (f r)) \<Longrightarrow> filter P (update_where P f rows) = map f (filter P rows)"
  by (induction rows) auto

lemma filter_upsert_same:
  "(\<And>r. P r \<Longrightarrow> P (f r)) \<Longrightarrow> P new \<Longrightarrow>
   filter P (upsert_row P f new rows) = (if filter P rows = [] then [new] else map f (filter P rows))"
  by (auto simp: upsert_row_def filter_update_same list_ex_iff filter_empty_conv)

lemma filter_upsert_other:
  "(\<And>r. P r \<Longrightarrow> \<not> Q r \<and> \<not> Q (f r)) \<Longrightarrow> \<not> Q new \<Longrightarrow> filter Q (upsert_row P f new rows) = filter Q rows"
  by (simp add: upsert_row_def filter_update_where_out)

definition spent_is :: "uuid \<Rightarrow> uuid \<Rightarrow> money \<Rightarrow> db \<Rightarrow> bool" where
  "spent_is camp ch m s \<longleftrightarrow> (let bs = filter (budget_key camp ch) (channel_budgets s) in bs \<noteq> [] \<and> list_all (\<lambda>b. cb_spent b = m) bs)"

lemma budget_key_simps [simp]:
  "budget_key camp ch (b\<lparr>cb_spent := m\<rparr>) = budget_key camp ch b"
  "budget_key camp ch \<lparr>cb_campaign_id = camp', cb_channel_id = ch', cb_allocated = x, cb_spent = y\<rparr> \<longleftrightarrow> camp' = camp \<and> ch' = ch"
  "budget_key camp ch b \<Longrightarrow> budget_key camp ch' b \<longleftrightarrow> ch' = ch"
  by (auto simp: budget_key_def)

lemma upsert_spent_Inr:
  assumes "upsert_spent camp (ch, amount) s = Inr s'"
  obtains m where "cents_column amount = Inr m" "0 \<le> m" "spent_is camp ch m s'" "campaigns s' = campaigns s"
    "reconciliations s' = reconciliations s" "\<forall>ch' m'. ch' \<noteq> ch \<longrightarrow> spent_is camp ch' m' s \<longrightarrow> spent_is camp ch' m' s'"
proof -
  obtain m where m: "cents_column amount = Inr m" "0 \<le> m"
    and s': "s' = s\<lparr>channel_budgets := upsert_row (budget_key camp ch) (\<lambda>b. b\<lparr>cb_spent := m\<rparr>)
       \<lparr>cb_campaign_id = camp, cb_channel_id = ch, cb_allocated = 0, cb_spent = m\<rparr> (channel_budgets s)\<rparr>"
    using assms by (auto simp: upsert_spent_def split: sum.splits if_splits)
  have "spent_is camp ch m s'" unfolding s' spent_is_def by (simp add: filter_upsert_same list_all_iff)
  moreover have "spent_is camp ch' m' s'" if "ch' \<noteq> ch" "spent_is camp ch' m' s" for ch' m'
    using that unfolding s' spent_is_def by (simp add: filter_upsert_other)
  ultimately show thesis using that m s' by auto
qed

lemma upsert_spent_again:
  assumes "spent_is camp ch m s" "cents_column amount = Inr m" "0 \<le> m"
  shows "upsert_spent camp (ch, amount) s = Inr s"
proof -
  have "update_where (budget_key camp ch) (\<lambda>b. b\<lparr>cb_spent := m\<rparr>) (channel_budgets s) = channel_budgets s"
    unfolding update_where_def using assms(1) by (intro map_idI) (auto simp: spent_is_def list_all_iff)
  moreover have "list_ex (budget_key camp ch) (channel_budgets s)" using assms(1) by (auto simp: spent_is_def list_ex_iff filter_empty_conv Let_def)
  ultimately show ?thesis using assms by (simp add: upsert_spent_def upsert_row_def)
qed

lemma ingest_loop:
  "for_each (upsert_spent camp) records s = Inr s' \<Longrightarrow> distinct (map fst records) \<Longrightarrow>
   campaigns s' = campaigns s \<and> reconciliations s' = reconciliations s
   \<and> (\<forall>ch m. ch \<notin> fst ` set records \<longrightarrow> spent_is camp ch m s \<longrightarrow> spent_is camp ch m s')
   \<and> (\<forall>(ch, amount)\<in>set records. \<exists>m. cents_column amount = Inr m \<and> 0 \<le> m \<and> spent_is camp ch m s')"
proof (induction records arbitrary: s)
  case (Cons p records)
  obtain ch amount where p: "p = (ch, amount)" by force
  obtain s1 where 1: "upsert_spent camp (ch, amount) s = Inr s1" "for_each (upsert_spent camp) records s1 = Inr s'"
    using Cons.prems(1) unfolding p by (auto split: sum.splits)
  obtain m where m: "cents_column amount = Inr m" "0 \<le> m" "spent_is camp ch m s1" "campaigns s1 = campaigns s"
    "reconciliations s1 = reconciliations s" "\<forall>ch' m'. ch' \<noteq> ch \<longrightarrow> spent_is camp ch' m' s \<longrightarrow> spent_is camp ch' m' s1"
    by (rule upsert_spent_Inr [OF 1(1)])
  have d: "ch \<notin> fst ` set records" "distinct (map fst records)" using Cons.prems(2) p by simp_all
  note IH = Cons.IH [OF 1(2) d(2)]
  have "spent_is camp ch m s'" using IH d(1) m(3) by blast
  then show ?case using IH m unfolding p by auto
qed simp

lemma ingest_loop_again:
  "\<forall>(ch, amount)\<in>set records. \<exists>m. cents_column amount = Inr m \<and> 0 \<le> m \<and> spent_is camp ch m s \<Longrightarrow>
   for_each (upsert_spent camp) records s = Inr s"
  by (induction records) (auto simp: upsert_spent_again)

text \<open>Spend ingest replaces, it does not add: ingesting the same report of a campaign a second time succeeds and changes
  nothing.\<close>

theorem spend_ingest_idempotent:
  assumes "ingest_platform_spend tenant camp records s = Inr s'" "distinct (map fst records)"
  shows "ingest_platform_spend tenant camp records s' = Inr s'"
proof -
  obtain c where c: "get_campaign camp s = Some c" "camp_tenant_id c = tenant" "\<not> is_spend_read_only c s"
    and run: "for_each (upsert_spent camp) records s = Inr s'"
    using assms(1) by (auto simp: ingest_platform_spend_def split: option.splits if_splits)
  note loop = ingest_loop [OF run assms(2)]
  have "for_each (upsert_spent camp) records s' = Inr s'" using loop by (intro ingest_loop_again) blast
  moreover have "get_campaign camp s' = Some c" "\<not> is_spend_read_only c s'"
    using c loop by (simp_all add: get_campaign_def is_spend_read_only_def)
  ultimately show ?thesis using c(2) by (simp add: ingest_platform_spend_def)
qed

section \<open>Concrete instances\<close>

definition ledger_db :: db where
  "ledger_db = empty_db\<lparr>campaigns := [demo_campaign Live],
     channel_budgets := [\<lparr>cb_campaign_id = 7, cb_channel_id = 2, cb_allocated = 500, cb_spent = 100\<rparr>],
     reconciliations := [\<lparr>sr_id = 90, sr_tenant_id = 1, sr_campaign_id = 7, sr_period_start = 0, sr_period_end = 30, sr_committed = 100,
       sr_invoiced = 150, sr_delta_pct = 50, sr_status = ''disputed'', sr_note = Some ''double billing'', sr_resolved_at = Some 5,
       sr_resolved_by = Some 3\<rparr>]\<rparr>"

theorem spend_ingest_idempotent_witness:
  "\<exists>s'. ingest_platform_spend 1 7 [(2, 3), (4, 5)] ledger_db = Inr s' \<and> ingest_platform_spend 1 7 [(2, 3), (4, 5)] s' = Inr s'"
proof -
  have "\<not> isl (ingest_platform_spend 1 7 [(2, 3), (4, 5)] ledger_db)" by code_simp
  then obtain s' where "ingest_platform_spend 1 7 [(2, 3), (4, 5)] ledger_db = Inr s'"
    by (cases "ingest_platform_spend 1 7 [(2, 3), (4, 5)] ledger_db") auto
  then show ?thesis using spend_ingest_idempotent [of 1 7 "[(2, 3), (4, 5)]" ledger_db s'] by auto
qed

lemma demo_delta: "spend_delta_pct 1 (201 / 200) = Inr (1 / 2)" "spend_delta_pct 1 1 = Inr 0"
  by code_simp+

theorem reconciliation_tolerance_witness: "delta_status 0 = ''matched''"
  using reconciliation_tolerance [of 100 100 0] demo_delta(2) by simp

theorem rerun_discards_resolution_witness:
  "\<exists>row s'. run_reconciliation 1 0 30 [(7, 1)] ledger_db = Inr ([row], s') \<and> sr_status row \<in> {''matched'', ''pending''}
     \<and> sr_note row = Some ''double billing''"
proof -
  let ?r = "hd (reconciliations ledger_db)"
  have "\<not> isl (run_reconciliation 1 0 30 [(7, 1)] ledger_db)" by code_simp
  then obtain rows s' where run: "run_reconciliation 1 0 30 [(7, 1)] ledger_db = Inr (rows, s')"
    by (cases "run_reconciliation 1 0 30 [(7, 1)] ledger_db") auto
  have h: "get_campaign 7 ledger_db = Some (demo_campaign Live)" "camp_tenant_id (demo_campaign Live) = 1"
    "find_row (same_period 1 7 0 30) (reconciliations ledger_db) = Some ?r" "sr_status ?r = ''disputed'' \<or> sr_status ?r = ''explained''"
    "sr_note ?r = Some ''double billing''"
    by (simp_all add: get_campaign_def ledger_db_def find_row_def same_period_def)
  show ?thesis using rerun_discards_resolution [OF run h(1-4)] run h(5) by auto
qed

theorem large_deviation_aborts_run_witness: "isl (run_reconciliation 1 0 30 [(7, 102)] ledger_db)"
proof -
  have "get_campaign 7 ledger_db = Some (demo_campaign Live)" "camp_tenant_id (demo_campaign Live) = 1" "committed_total 7 ledger_db = 100"
    by (simp_all add: get_campaign_def ledger_db_def find_row_def committed_total_def)
  then show ?thesis using large_deviation_aborts_run [of 7 10200 "[(7, 102)]" ledger_db "demo_campaign Live" 1 0 30] by simp
qed

end
