(* ===== verification/Strategist_Planner.thy ===== *)
theory Strategist_Planner
  imports Content_Seeding Copywriting Py_Decimal
begin

text \<open>
  The planner of the campaign strategist (\<^verbatim>\<open>app/agents/_strategist_planner.py\<close>): the prompt, the parsing of the
  answer, the validator, which is the contract of a plan, and the loop that asks again while there are violations. The
  language model and \<^verbatim>\<open>json.loads\<close> of its answer are parameters. Percentages and amounts of a plan are Decimals with
  at most 28 digits.
\<close>

section \<open>Inputs\<close>

definition planner_max_retries :: nat where "planner_max_retries = 2"

definition allocation_pct_tolerance :: rat where "allocation_pct_tolerance = 1"

definition budget_per_channel_tolerance :: rat where "budget_per_channel_tolerance = 1 / 2"

text \<open>A Decimal together with the exponent it is written with.\<close>

type_synonym pydec = "decimal \<times> int"

definition pydec_of :: "json \<Rightarrow> pydec option" where
  "pydec_of v = map_option (\<lambda>d. (d, dec_exponent v)) (decimal_of v)"

definition pydec_str :: "pydec \<Rightarrow> string" where
  "pydec_str d = decimal_str (fst d) (snd d)"

record human_override_row =
  ho_platform :: string
  ho_pct :: pydec
  ho_amount :: pydec

record strategy_context =
  sc_name :: string
  sc_type :: string
  sc_objective :: string
  sc_brief :: "string option"
  sc_budget :: money
  sc_currency :: string
  sc_start :: string
  sc_end :: string
  sc_audience_size :: int
  sc_audience_summary :: string
  sc_channels :: "(string \<times> string) list"  \<comment> \<open>platform and name\<close>
  sc_forbidden :: "string list"
  sc_hard_caps :: "dict list"
  sc_overrides :: "human_override_row list"

text \<open>A violation: its kind and its detail.\<close>

type_synonym violation = "string \<times> string"

definition violation_json :: "violation \<Rightarrow> json" where
  "violation_json v = JObj [(''kind'', JStr (fst v)), (''detail'', JStr (snd v))]"

record planner_result =
  pr_payload :: dict
  pr_warnings :: "violation list"
  pr_attempts :: nat

definition allowed_platforms :: "strategy_context \<Rightarrow> string list" where
  "allowed_platforms ctx =
     filter (\<lambda>p. p \<notin> set (map py_lower (sc_forbidden ctx))) (map (py_lower \<circ> fst) (sc_channels ctx))"

section \<open>The prompt\<close>

text \<open>\<^verbatim>\<open>json.dumps\<close>, which escapes everything outside ASCII.\<close>

definition json_char :: "char \<Rightarrow> string" where
  "json_char c =
     (let n = of_char c :: nat; bs = char_of (92::nat)
      in if c = bs \<or> n = 34 then [bs, c]
         else if n = 10 then bs # ''n'' else if n = 13 then bs # ''r'' else if n = 9 then bs # ''t''
         else if n = 8 then bs # ''b'' else if n = 12 then bs # ''f''
         else if n < 32 \<or> 127 < n then bs # ''u00'' @ [hex_char (n div 16), hex_char (n mod 16)]
         else [c])"

definition json_quote :: "string \<Rightarrow> string" where
  "json_quote s = [char_of (34::nat)] @ concat (map json_char s) @ [char_of (34::nat)]"

fun json_dumps :: "json \<Rightarrow> string" where
  "json_dumps JNull = ''null''"
| "json_dumps (JBool b) = (if b then ''true'' else ''false'')"
| "json_dumps (JInt i) = int_str i"
| "json_dumps (JFloat q) = float_repr q"
| "json_dumps (JStr s) = json_quote s"
| "json_dumps (JArr xs) = ''['' @ py_join '', '' (map json_dumps xs) @ '']''"
| "json_dumps (JObj d) = ''{'' @ py_join '', '' (map (\<lambda>(k, v). json_quote k @ '': '' @ json_dumps v) d) @ ''}''"

definition bullet_block :: "string list \<Rightarrow> string" where
  "bullet_block xs = (if xs = [] then ''  (none)'' else py_join nl (map (\<lambda>x. ''  - '' @ x) xs))"

definition plus_minus :: string where "plus_minus = [CHR 0xC2, CHR 0xB1]"

definition dq :: string where "dq = [char_of (34::nat)]"

definition schema_lines :: "string list" where
  "schema_lines =
     [[], ''Respond with a SINGLE JSON object. No prose, no markdown, no code fences.'', ''Schema:'', ''{'',
      ''  '' @ dq @ ''channels'' @ dq @ '': ['', ''    {'',
      ''      '' @ dq @ ''platform'' @ dq @ '': '' @ dq @ ''<one of the active channel platforms>'' @ dq @ '','',
      ''      '' @ dq @ ''name'' @ dq @ '': '' @ dq @ ''<friendly label>'' @ dq @ '','',
      ''      '' @ dq @ ''allocation_pct'' @ dq @ '': <number 0-100>,'',
      ''      '' @ dq @ ''allocation_amount'' @ dq @ '': '' @ dq @ ''<decimal string matching pct * budget_total / 100>'' @ dq @ '','',
      ''      '' @ dq @ ''rationale'' @ dq @ '': '' @ dq @ ''<one sentence>'' @ dq @ '','',
      ''      '' @ dq @ ''human_override'' @ dq @ '': <bool>'', ''    }'', ''  ],'',
      ''  '' @ dq @ ''kpis'' @ dq @ '': {'',
      ''    '' @ dq @ ''primary'' @ dq @ '': {'' @ dq @ ''metric'' @ dq @ '': '' @ dq @ ''<metric_id>'' @ dq @ '', '' @ dq @ ''target'' @ dq
        @ '': <number>, '' @ dq @ ''rationale'' @ dq @ '': '' @ dq @ ''<one sentence>'' @ dq @ ''},'',
      ''    '' @ dq @ ''secondary'' @ dq @ '': [{'' @ dq @ ''metric'' @ dq @ '': '' @ dq @ ''<metric_id>'' @ dq @ '', '' @ dq @ ''target'' @ dq
        @ '': <number>, '' @ dq @ ''rationale'' @ dq @ '': '' @ dq @ ''<one sentence>'' @ dq @ ''}]'',
      ''  },'', ''  '' @ dq @ ''summary_rationale'' @ dq @ '': '' @ dq @ ''<2-3 sentences explaining the overall plan>'' @ dq, ''}'', [],
      ''Constraints:'',
      ''  - allocation_pct values across channels MUST sum to 100 ('' @ plus_minus @ ''1 for rounding).'',
      ''  - allocation_amount per channel MUST equal allocation_pct/100 * budget_total.'',
      ''  - Every channel rationale MUST be non-empty.'', ''  - primary KPI must have a non-empty rationale.'']"

definition build_strategy_prompt :: "strategy_context \<Rightarrow> violation list \<Rightarrow> string" where
  "build_strategy_prompt ctx retry =
     py_join nl
       ([''You are the Campaign Strategist agent. Propose a concrete plan: channel mix, '',
         ''budget allocation, and KPI targets. Every choice needs a one-sentence rationale.'', [],
         ''Campaign: '' @ sc_name ctx, ''Type: '' @ sc_type ctx, ''Objective: '' @ sc_objective ctx]
        @ (case sc_brief ctx of None \<Rightarrow> [] | Some b \<Rightarrow> if b = [] then [] else [''Brief: '' @ b])
        @ [''Dates: '' @ sc_start ctx @ '' to '' @ sc_end ctx,
           ''Budget total: '' @ money_str (sc_budget ctx) @ '' '' @ sc_currency ctx,
           ''Audience: '' @ int_str (sc_audience_size ctx) @ '' contacts '' @ em_dash @ '' '' @ sc_audience_summary ctx, [],
           ''Active channels (you may only propose these):'',
           bullet_block (map (\<lambda>(p, n). p @ '' ('' @ n @ '')'') (sc_channels ctx)), [],
           ''Forbidden channels (NEVER propose these):'', bullet_block (sc_forbidden ctx), [],
           ''Hard caps (for context '' @ em_dash @ '' calendar enforcement lands later):'',
           bullet_block (map (json_dumps \<circ> JObj) (sc_hard_caps ctx)), [],
           ''Human overrides (MUST appear in your plan at these allocations, '' @ ''marked human_override=true):'',
           bullet_block (map (\<lambda>ov. ho_platform ov @ '': allocation_pct='' @ pydec_str (ho_pct ov) @ '', '' @ ''allocation_amount=''
             @ pydec_str (ho_amount ov)) (sc_overrides ctx))]
        @ (if retry = [] then []
           else [[], ''Your previous attempt violated these rules '' @ em_dash @ '' fix them this time:'']
             @ map (\<lambda>(k, d). ''  - '' @ k @ '': '' @ d) retry)
        @ schema_lines)"

section \<open>The answer\<close>

definition call_strategy_model :: "client \<Rightarrow> nat \<Rightarrow> string \<Rightarrow> string res" where
  "call_strategy_model client k prompt =
     (case client k prompt (4 / 10) of
        Inl err \<Rightarrow> Inl err
      | Inr blocks \<Rightarrow> (case List.map_filter id blocks of [] \<Rightarrow> Inl StrategistError | t # _ \<Rightarrow> Inr t))"

definition parse_plan :: "(string \<Rightarrow> json option) \<Rightarrow> string \<Rightarrow> dict res" where
  "parse_plan loads raw = (case loads (unfence (py_strip raw)) of Some (JObj d) \<Rightarrow> Inr d | _ \<Rightarrow> Inl StrategistError)"

section \<open>The validator\<close>

definition channel_at :: "nat \<Rightarrow> string" where
  "channel_at i = ''channels['' @ digits i @ '']''"

definition in_quotes :: "string \<Rightarrow> string" where
  "in_quotes t = [CHR 0x27] @ t @ [CHR 0x27]"

definition plan_platform :: "dict \<Rightarrow> string" where
  "plan_platform d = py_lower (py_str (dict_get_default d ''platform'' (JStr [])))"

definition is_negative :: "decimal \<Rightarrow> bool" where
  "is_negative d = (case d of DNum q \<Rightarrow> q < 0 | DInf neg \<Rightarrow> neg | DNaN \<Rightarrow> False)"

definition amount_off :: "decimal \<Rightarrow> rat \<Rightarrow> bool" where
  "amount_off amount expected = (case amount of DNum a \<Rightarrow> budget_per_channel_tolerance < \<bar>dec28 (a - expected)\<bar> | _ \<Rightarrow> True)"

text \<open>The checks of a channel's two numbers and its rationale. A NaN makes a comparison raise, an infinite percentage the
  rounding of the expected amount.\<close>

definition comparable_pct :: "decimal \<Rightarrow> decimal \<Rightarrow> rat res" where
  "comparable_pct pct amount =
     (case (pct, amount) of
        (DNum p, DNum _) \<Rightarrow> Inr p
      | (DNum p, DInf _) \<Rightarrow> Inr p
      | _ \<Rightarrow> Inl InvalidOperation)"

definition expected_amount :: "money \<Rightarrow> rat \<Rightarrow> rat res" where
  "expected_amount budget p = quantize_up_res 2 (dec28 (dec28 (of_int budget / 100 * p) / 100))"

definition number_violations :: "nat \<Rightarrow> dict \<Rightarrow> pydec \<Rightarrow> pydec \<Rightarrow> rat \<Rightarrow> rat \<Rightarrow> violation list" where
  "number_violations i d pct amount p expected =
     (if p < 0 \<or> 100 < p
      then [(''out_of_range'', channel_at i @ ''.allocation_pct='' @ pydec_str pct @ '' outside 0..100'')] else [])
     @ (if is_negative (fst amount)
        then [(''out_of_range'', channel_at i @ ''.allocation_amount='' @ pydec_str amount @ '' negative'')] else [])
     @ (if amount_off (fst amount) expected
        then [(''amount_mismatch'', channel_at i @ ''.allocation_amount='' @ pydec_str amount @ '' does not match ''
               @ ''pct*budget_total='' @ money_str \<lfloor>expected * 100\<rfloor>)] else [])
     @ (if py_strip (py_str (dict_get_default d ''rationale'' (JStr []))) = []
        then [(''missing_rationale'', channel_at i @ ''.rationale is empty'')] else [])"

definition check_numbers :: "strategy_context \<Rightarrow> nat \<Rightarrow> dict \<Rightarrow> pydec \<Rightarrow> pydec \<Rightarrow> (violation list \<times> rat) res" where
  "check_numbers ctx i d pct amount =
     (case comparable_pct (fst pct) (fst amount) of
        Inl err \<Rightarrow> Inl err
      | Inr p \<Rightarrow>
          (case expected_amount (sc_budget ctx) p of
             Inl err \<Rightarrow> Inl err
           | Inr expected \<Rightarrow> Inr (number_violations i d pct amount p expected, p)))"

text \<open>The running total of the amounts, which is never read; infinities of opposite signs do not add up.\<close>

definition add_amount :: "decimal \<Rightarrow> decimal \<Rightarrow> decimal res" where
  "add_amount total_amount amount =
     (case (total_amount, amount) of
        (DNum x, DNum y) \<Rightarrow> Inr (DNum (dec28 (x + y)))
      | (DInf m, DInf n) \<Rightarrow> if m = n then Inr (DInf m) else Inl InvalidOperation
      | (DInf m, _) \<Rightarrow> Inr (DInf m)
      | (_, a) \<Rightarrow> Inr a)"

text \<open>One turn of the channel loop over the violations, the platforms seen and the running totals.\<close>

record validation =
  va_violations :: "violation list"
  va_seen :: "string list"
  va_total :: rat
  va_exponent :: int
  va_amount :: decimal

definition violate :: "violation \<Rightarrow> validation \<Rightarrow> validation" where
  "violate v st = st\<lparr>va_violations := va_violations st @ [v]\<rparr>"

definition check_channel :: "strategy_context \<Rightarrow> nat \<times> json \<Rightarrow> validation \<Rightarrow> validation res" where
  "check_channel ctx = (\<lambda>(i, ch) st.
     (case ch of
        JObj d \<Rightarrow>
          (let platform = plan_platform d; seen = st\<lparr>va_seen := platform # va_seen st\<rparr>
           in if platform = [] then Inr (violate (''shape'', channel_at i @ ''.platform is required'') st)
              else if platform \<in> set (map py_lower (sc_forbidden ctx))
              then Inr (violate (''forbidden_channel'', channel_at i @ ''.platform '' @ in_quotes platform @ '' is forbidden'') st)
              else if platform \<notin> set (allowed_platforms ctx)
              then Inr (violate (''unknown_channel'', channel_at i @ ''.platform '' @ in_quotes platform
                          @ '' is not an active '' @ ''channel for this tenant'') st)
              else if platform \<in> set (va_seen st)
              then Inr (violate (''duplicate_channel'', channel_at i @ ''.platform '' @ in_quotes platform @ '' is listed twice'') st)
              else (case (pydec_of (dict_get d ''allocation_pct''), pydec_of (dict_get d ''allocation_amount'')) of
                 (Some pct, Some amount) \<Rightarrow>
                   (case check_numbers ctx i d pct amount of
                      Inl err \<Rightarrow> Inl err
                    | Inr (vs, p) \<Rightarrow>
                        (case add_amount (va_amount st) (fst amount) of
                           Inl err \<Rightarrow> Inl err
                         | Inr t \<Rightarrow>
                             Inr (seen\<lparr>va_violations := va_violations st @ vs, va_total := dec28 (va_total st + p),
                                    va_exponent := min (va_exponent st) (snd pct), va_amount := t\<rparr>)))
               | _ \<Rightarrow> Inr (violate (''shape'', channel_at i @ '' allocation_pct/amount must be numeric'') seen)))
      | _ \<Rightarrow> Inr (violate (''shape'', channel_at i @ '' must be an object'') st)))"

text \<open>\<^verbatim>\<open>abs(a - b) > 1\<close> on Decimals.\<close>

definition differs :: "decimal \<Rightarrow> decimal \<Rightarrow> bool res" where
  "differs a b =
     (case (a, b) of
        (DNum x, DNum y) \<Rightarrow> Inr (allocation_pct_tolerance < \<bar>dec28 (x - y)\<bar>)
      | (DInf m, DInf n) \<Rightarrow> if m = n then Inl InvalidOperation else Inr True
      | (DNum _, DInf _) \<Rightarrow> Inr True
      | (DInf _, DNum _) \<Rightarrow> Inr True
      | _ \<Rightarrow> Inl InvalidOperation)"

definition channel_for :: "string \<Rightarrow> json list \<Rightarrow> dict option" where
  "channel_for platform chs =
     (case List.find (\<lambda>ch. case ch of JObj d \<Rightarrow> plan_platform d = platform | _ \<Rightarrow> False) chs of
        Some (JObj d) \<Rightarrow> Some d | _ \<Rightarrow> None)"

definition check_override :: "json list \<Rightarrow> human_override_row \<Rightarrow> violation list \<Rightarrow> violation list res" where
  "check_override chs ov vs =
     (let target = py_lower (ho_platform ov)
      in case channel_for target chs of
           None \<Rightarrow> Inr (vs @ [(''missing_override'', ''human override for '' @ in_quotes target @ '' was dropped '' @ em_dash @ '' ''
                              @ ''must appear in the plan'')])
         | Some d \<Rightarrow>
             (case pydec_of (dict_get d ''allocation_pct'') of
                None \<Rightarrow> Inr vs
              | Some pct \<Rightarrow>
                  (case differs (fst pct) (fst (ho_pct ov)) of
                     Inl err \<Rightarrow> Inl err
                   | Inr far \<Rightarrow>
                       Inr (vs
                         @ (if far then [(''override_drift'', ''override '' @ in_quotes target @ '' allocation_pct='' @ pydec_str pct @ '' ''
                              @ ''differs from required '' @ pydec_str (ho_pct ov))] else [])
                         @ (if \<not> truthy (dict_get d ''human_override'')
                            then [(''override_unflagged'', ''channel '' @ in_quotes target @ '' is an override but ''
                              @ ''human_override flag is not true'')] else [])))))"

definition check_kpis :: "json \<Rightarrow> violation list" where
  "check_kpis kpis =
     (case kpis of
        JObj k \<Rightarrow>
          (case dict_get k ''primary'' of
             JObj p \<Rightarrow>
               (if py_strip (py_str (dict_get_default p ''metric'' (JStr []))) = [] then [(''shape'', ''kpis.primary.metric is required'')] else [])
               @ (if dict_get p ''target'' = JNull then [(''shape'', ''kpis.primary.target is required'')] else [])
               @ (if py_strip (py_str (dict_get_default p ''rationale'' (JStr []))) = []
                  then [(''missing_rationale'', ''kpis.primary.rationale is empty'')] else [])
           | _ \<Rightarrow> [(''shape'', ''kpis.primary must be an object'')])
      | _ \<Rightarrow> [(''shape'', ''kpis must be an object'')])"

definition validate_plan :: "strategy_context \<Rightarrow> dict \<Rightarrow> violation list res" where
  "validate_plan ctx payload =
     (case dict_get payload ''channels'' of
        JArr (ch # chs) \<Rightarrow>
          (case for_each (check_channel ctx) (enumerate 0 (ch # chs))
              \<lparr>va_violations = [], va_seen = [], va_total = 0, va_exponent = 0, va_amount = DNum 0\<rparr> of
             Inl err \<Rightarrow> Inl err
           | Inr st \<Rightarrow>
               (let vs = va_violations st
                  @ (if allocation_pct_tolerance < \<bar>dec28 (va_total st - 100)\<bar>
                     then [(''allocation_sum'', ''allocation_pct sum is '' @ dec_str (va_total st) (va_exponent st)
                            @ '', must be 100 ('' @ plus_minus @ ''1)'')] else [])
                in map_sum id (\<lambda>vs'. vs' @ check_kpis (dict_get payload ''kpis''))
                     (for_each (check_override (ch # chs)) (sc_overrides ctx) vs)))
      | _ \<Rightarrow> Inr [(''shape'', ''channels must be a non-empty list'')])"

section \<open>The loop\<close>

definition one_plan :: "client \<Rightarrow> (string \<Rightarrow> json option) \<Rightarrow> strategy_context \<Rightarrow> nat \<Rightarrow> violation list \<Rightarrow> (dict \<times> violation list) res" where
  "one_plan client loads ctx k last_violations =
     (case call_strategy_model client k (build_strategy_prompt ctx last_violations) of
        Inl err \<Rightarrow> Inl err
      | Inr raw \<Rightarrow>
          (case parse_plan loads raw of
             Inl err \<Rightarrow> Inl err
           | Inr payload \<Rightarrow> map_sum id (Pair payload) (validate_plan ctx payload)))"

definition better_plan :: "dict \<times> violation list \<Rightarrow> (dict \<times> violation list) option \<Rightarrow> dict \<times> violation list" where
  "better_plan a best =
     (case best of None \<Rightarrow> a | Some b \<Rightarrow> if length (snd a) < length (snd b) then a else b)"

text \<open>\<open>left\<close> calls remain after \<open>k\<close> were made.\<close>

fun plan_loop ::
  "client \<Rightarrow> (string \<Rightarrow> json option) \<Rightarrow> strategy_context \<Rightarrow> nat \<Rightarrow> nat \<Rightarrow> (dict \<times> violation list) option \<Rightarrow> violation list
   \<Rightarrow> planner_result res" where
  "plan_loop client loads ctx k 0 best last_violations =
     (case best of
        None \<Rightarrow> Inl AssertionError
      | Some (payload, vs) \<Rightarrow> Inr \<lparr>pr_payload = payload, pr_warnings = vs, pr_attempts = k\<rparr>)"
| "plan_loop client loads ctx k (Suc left) best last_violations =
     (case one_plan client loads ctx k last_violations of
        Inl err \<Rightarrow> Inl err
      | Inr (payload, vs) \<Rightarrow>
          if vs = [] then Inr \<lparr>pr_payload = payload, pr_warnings = [], pr_attempts = Suc k\<rparr>
          else plan_loop client loads ctx (Suc k) left (Some (better_plan (payload, vs) best)) vs)"

definition planner_propose :: "client \<Rightarrow> (string \<Rightarrow> json option) \<Rightarrow> strategy_context \<Rightarrow> planner_result res" where
  "planner_propose client loads ctx =
     (if sc_channels ctx = [] then Inl StrategistError
      else if sc_budget ctx \<le> 0 then Inl StrategistError
      else if allowed_platforms ctx = [] then Inl StrategistError
      else plan_loop client loads ctx 0 (Suc planner_max_retries) None [])"

section \<open>What a plan without violations satisfies\<close>

text \<open>A channel row with its two numbers: active and not forbidden, a percentage, and an amount within 51 cents of its
  share of the budget.\<close>

definition good_channel :: "strategy_context \<Rightarrow> dict \<times> rat \<times> rat \<Rightarrow> bool" where
  "good_channel ctx = (\<lambda>(d, p, a).
     plan_platform d \<in> set (allowed_platforms ctx)
     \<and> decimal_of (dict_get d ''allocation_pct'') = Some (DNum p) \<and> decimal_of (dict_get d ''allocation_amount'') = Some (DNum a)
     \<and> 0 \<le> p \<and> p \<le> 100 \<and> 0 \<le> a \<and> \<bar>a - of_int (sc_budget ctx) / 100 * p / 100\<bar> \<le> 51 / 100
     \<and> py_strip (py_str (dict_get_default d ''rationale'' (JStr []))) \<noteq> [])"

lemma pg_numeric_error: "\<bar>pg_numeric k q - q\<bar> \<le> 1 / (2 * 10 ^ k)"
proof (cases "q = 0")
  case False
  let ?n = "\<lfloor>\<bar>q\<bar> * 10 ^ k + 1/2\<rfloor>"
  have "\<bar>of_int ?n - \<bar>q\<bar> * 10 ^ k\<bar> \<le> 1 / 2" by linarith
  then have 1: "\<bar>of_int ?n - \<bar>q\<bar> * 10 ^ k\<bar> / 10 ^ k \<le> (1 / 2) / 10 ^ k" by (rule divide_right_mono) simp
  have "pg_numeric k q - q = sgn q * ((of_int ?n - \<bar>q\<bar> * 10 ^ k) / 10 ^ k)"
    by (simp add: pg_numeric_def diff_divide_distrib right_diff_distrib sgn_mult_abs)
  then have "\<bar>pg_numeric k q - q\<bar> = \<bar>of_int ?n - \<bar>q\<bar> * 10 ^ k\<bar> / 10 ^ k" using False by (simp only: abs_mult abs_divide) (simp add: abs_sgn_eq)
  then show ?thesis using 1 by simp
qed (simp add: pg_numeric_def)

lemma expected_amount_error:
  assumes "expected_amount budget p = Inr x" "0 \<le> p" "p \<le> 100" "0 < budget" "budget < 10 ^ 14"
  shows "\<bar>x - of_int budget / 100 * p / 100\<bar> \<le> 1 / 200 + 1 / 10 ^ 10"
proof -
  define y :: rat where "y = of_int budget / 100 * p"
  have b: "of_int budget < (10 ^ 14 :: rat)" using assms(5) by (metis of_int_less_iff of_int_numeral of_int_power)
  have y0: "0 \<le> y" using assms(2,4) by (simp add: y_def)
  have "y \<le> 10 ^ 14 / 100 * 100" unfolding y_def using b assms(2,3,4) by (intro mult_mono divide_right_mono) auto
  then have y1: "y \<le> 10 ^ 14" by simp
  have e1: "\<bar>dec28 y - y\<bar> \<le> 1 / 10 ^ 11"
  proof -
    have "\<bar>y\<bar> / (2 * 10 ^ 27) \<le> 10 ^ 14 / (2 * 10 ^ 27)" using y0 y1 by (intro divide_right_mono) auto
    also have "\<dots> \<le> 1 / 10 ^ 11" by simp
    finally show ?thesis using dec28_error [of y] by linarith
  qed
  have one: "1 / 10 ^ 11 \<le> (1 :: rat)" "(1 :: rat) \<le> 10 ^ 14" "1 / 10 ^ 11 + 1 / 10 ^ 11 \<le> (1 / 10 ^ 10 :: rat)" by simp_all
  have "\<bar>dec28 y\<bar> \<le> 2 * 10 ^ 14" using e1 y0 y1 one by linarith
  then have z: "\<bar>dec28 y / 100\<bar> \<le> 10 ^ 14" by (simp add: abs_divide)
  have e2: "\<bar>dec28 (dec28 y / 100) - dec28 y / 100\<bar> \<le> 1 / 10 ^ 11"
  proof -
    have "\<bar>dec28 y / 100\<bar> / (2 * 10 ^ 27) \<le> 10 ^ 14 / (2 * 10 ^ 27)" using z by (intro divide_right_mono) auto
    also have "\<dots> \<le> 1 / 10 ^ 11" by simp
    finally show ?thesis using dec28_error [of "dec28 y / 100"] by linarith
  qed
  have "x = pg_numeric 2 (dec28 (dec28 y / 100))"
    using assms(1) by (simp add: expected_amount_def quantize_up_res_def y_def split: if_splits)
  then have e3: "\<bar>x - dec28 (dec28 y / 100)\<bar> \<le> 1 / 200" using pg_numeric_error [of 2] by simp
  have "\<bar>dec28 y / 100 - y / 100\<bar> \<le> 1 / 10 ^ 11" using e1 by linarith
  then show ?thesis using e2 e3 one(3) unfolding y_def [symmetric] by linarith
qed

lemma number_violations_Nil:
  assumes "number_violations i d pct amount p x = []" "expected_amount (sc_budget ctx) p = Inr x"
    and "0 < sc_budget ctx" "sc_budget ctx < 10 ^ 14"
  obtains a where "fst amount = DNum a" "0 \<le> p" "p \<le> 100" "0 \<le> a" "\<bar>a - of_int (sc_budget ctx) / 100 * p / 100\<bar> \<le> 51 / 100"
    "py_strip (py_str (dict_get_default d ''rationale'' (JStr []))) \<noteq> []"
proof -
  have p: "0 \<le> p" "p \<le> 100" and n: "\<not> is_negative (fst amount)" "\<not> amount_off (fst amount) x"
    and r: "py_strip (py_str (dict_get_default d ''rationale'' (JStr []))) \<noteq> []"
    using assms(1) by (auto simp: number_violations_def split: if_splits)
  obtain a where a: "fst amount = DNum a" "0 \<le> a" "\<bar>dec28 (a - x)\<bar> \<le> 1 / 2"
    using n by (auto simp: is_negative_def amount_off_def budget_per_channel_tolerance_def split: decimal.splits)
  have x: "\<bar>x - of_int (sc_budget ctx) / 100 * p / 100\<bar> \<le> 1 / 200 + 1 / 10 ^ 10"
    by (rule expected_amount_error [OF assms(2) p assms(3,4)])
  define z where "z = a - x"
  have "\<bar>z\<bar> / (2 * 10 ^ 27) \<le> \<bar>z\<bar> / 1000" by (rule divide_left_mono) auto
  then have "\<bar>dec28 z - z\<bar> \<le> \<bar>z\<bar> / 1000" using dec28_error [of z] by linarith
  then have "\<bar>a - x\<bar> \<le> 501 / 1000" using a(3) unfolding z_def [symmetric] by linarith
  moreover have "1 / 10 ^ 10 \<le> (1 / 1000 :: rat)" by simp
  ultimately have "\<bar>a - of_int (sc_budget ctx) / 100 * p / 100\<bar> \<le> 51 / 100" using x by linarith
  then show thesis using that a p r by blast
qed

text \<open>A turn of the loop that adds no violation.\<close>

lemma check_channel_violations:
  "check_channel ctx (i, ch) st = Inr st' \<Longrightarrow> \<exists>vs. va_violations st' = va_violations st @ vs"
  by (auto simp: check_channel_def violate_def Let_def split: json.splits if_splits option.splits sum.splits)

lemma check_channel_clean:
  assumes "check_channel ctx (i, ch) st = Inr st'" "va_violations st' = []" "0 < sc_budget ctx" "sc_budget ctx < 10 ^ 14"
  obtains d p a where "ch = JObj d" "good_channel ctx (d, p, a)" "plan_platform d \<notin> set (va_seen st)" "va_violations st = []"
    "va_seen st' = plan_platform d # va_seen st" "va_total st' = dec28 (va_total st + p)"
proof -
  obtain d where d: "ch = JObj d" using assms(1,2) by (cases ch) (auto simp: check_channel_def violate_def)
  have pl: "plan_platform d \<in> set (allowed_platforms ctx)" "plan_platform d \<notin> set (va_seen st)"
    using assms(1,2) by (auto simp: d check_channel_def violate_def Let_def split: if_splits)
  obtain pct amount where n: "pydec_of (dict_get d ''allocation_pct'') = Some pct" "pydec_of (dict_get d ''allocation_amount'') = Some amount"
    using assms(1,2) by (auto simp: d check_channel_def violate_def Let_def split: if_splits option.splits)
  obtain vs p where vs: "check_numbers ctx i d pct amount = Inr (vs, p)" "va_violations st @ vs = []"
    "va_seen st' = plan_platform d # va_seen st" "va_total st' = dec28 (va_total st + p)"
    using assms(1,2) n by (auto simp: d check_channel_def violate_def Let_def split: if_splits sum.splits)
  obtain x where x: "comparable_pct (fst pct) (fst amount) = Inr p" "expected_amount (sc_budget ctx) p = Inr x" "number_violations i d pct amount p x = []"
    using vs(1,2) by (auto simp: check_numbers_def split: sum.splits)
  have fp: "fst pct = DNum p" using x(1) by (auto simp: comparable_pct_def split: decimal.splits)
  obtain a where a: "fst amount = DNum a" "0 \<le> p" "p \<le> 100" "0 \<le> a" "\<bar>a - of_int (sc_budget ctx) / 100 * p / 100\<bar> \<le> 51 / 100"
    "py_strip (py_str (dict_get_default d ''rationale'' (JStr []))) \<noteq> []"
    by (rule number_violations_Nil [OF x(3,2) assms(3,4)])
  have "good_channel ctx (d, p, a)" using pl n fp a by (auto simp: good_channel_def pydec_of_def)
  then show thesis using that d pl(2) vs by simp
qed

lemma check_channels_clean:
  assumes "for_each (check_channel ctx) (enumerate i chs) st = Inr st'" "va_violations st' = []" "0 < sc_budget ctx" "sc_budget ctx < 10 ^ 14"
  shows "va_violations st = [] \<and> (\<exists>rows. chs = map (JObj \<circ> fst) rows \<and> list_all (good_channel ctx) rows
    \<and> distinct (map (plan_platform \<circ> fst) rows) \<and> (\<forall>r\<in>set rows. plan_platform (fst r) \<notin> set (va_seen st))
    \<and> va_total st' = foldl (\<lambda>t (d, p, a). dec28 (t + p)) (va_total st) rows)"
  using assms(1)
proof (induction chs arbitrary: i st)
  case Nil
  then show ?case using assms(2) by (auto intro: exI [of _ "[]"])
next
  case (Cons ch chs)
  obtain st1 where 1: "check_channel ctx (i, ch) st = Inr st1" "for_each (check_channel ctx) (enumerate (Suc i) chs) st1 = Inr st'"
    using Cons.prems by (auto split: sum.splits)
  obtain rows where IH: "va_violations st1 = []" "chs = map (JObj \<circ> fst) rows" "list_all (good_channel ctx) rows"
    "distinct (map (plan_platform \<circ> fst) rows)" "\<forall>r\<in>set rows. plan_platform (fst r) \<notin> set (va_seen st1)"
    "va_total st' = foldl (\<lambda>t (d, p, a). dec28 (t + p)) (va_total st1) rows"
    using Cons.IH [OF 1(2)] by blast
  obtain d p a where c: "ch = JObj d" "good_channel ctx (d, p, a)" "plan_platform d \<notin> set (va_seen st)" "va_violations st = []"
    "va_seen st1 = plan_platform d # va_seen st" "va_total st1 = dec28 (va_total st + p)"
    by (rule check_channel_clean [OF 1(1) IH(1) assms(3,4)])
  show ?case
    using IH c by (intro conjI exI [of _ "(d, p, a) # rows"]) (auto simp: comp_def)
qed

text \<open>Overrides.\<close>

definition override_kept :: "json list \<Rightarrow> human_override_row \<Rightarrow> bool" where
  "override_kept chs ov \<longleftrightarrow>
     (\<exists>d. channel_for (py_lower (ho_platform ov)) chs = Some d
        \<and> (case pydec_of (dict_get d ''allocation_pct'') of None \<Rightarrow> True
           | Some pct \<Rightarrow> differs (fst pct) (fst (ho_pct ov)) = Inr False \<and> truthy (dict_get d ''human_override'')))"

lemma check_overrides_clean:
  "for_each (check_override chs) ovs vs = Inr [] \<Longrightarrow> vs = [] \<and> list_all (override_kept chs) ovs"
proof (induction ovs arbitrary: vs)
  case (Cons ov ovs)
  obtain vs1 where 1: "check_override chs ov vs = Inr vs1" "for_each (check_override chs) ovs vs1 = Inr []"
    using Cons.prems by (auto split: sum.splits)
  have "vs1 = []" "list_all (override_kept chs) ovs" using Cons.IH [OF 1(2)] by auto
  moreover from this 1(1) have "vs = []" "override_kept chs ov"
    by (auto simp: check_override_def override_kept_def Let_def split: option.splits sum.splits if_splits)
  ultimately show ?case by simp
qed simp

definition kpis_kept :: "json \<Rightarrow> bool" where
  "kpis_kept kpis \<longleftrightarrow>
     (\<exists>k p. kpis = JObj k \<and> dict_get k ''primary'' = JObj p \<and> dict_get p ''target'' \<noteq> JNull
        \<and> py_strip (py_str (dict_get_default p ''metric'' (JStr []))) \<noteq> []
        \<and> py_strip (py_str (dict_get_default p ''rationale'' (JStr []))) \<noteq> [])"

lemma check_kpis_clean: "check_kpis kpis = [] \<Longrightarrow> kpis_kept kpis"
  by (auto simp: check_kpis_def kpis_kept_def split: json.splits if_splits)

text \<open>The rounding of a running percentage of at most a thousand channels is below a thousandth.\<close>

lemma total_step:
  assumes "\<bar>t\<bar> \<le> 101 * of_nat k" "0 \<le> p" "p \<le> 100" "k \<le> 1000"
  shows "\<bar>dec28 (t + p) - (t + p)\<bar> \<le> 1 / 10 ^ 6" "\<bar>dec28 (t + p)\<bar> \<le> 101 * of_nat (Suc k)"
proof -
  define z where "z = t + p"
  have k: "of_nat k \<le> (1000 :: rat)" using assms(4) by (metis of_nat_le_iff of_nat_numeral)
  have z: "\<bar>z\<bar> \<le> 101 * of_nat k + 100" using assms(1-3) unfolding z_def by linarith
  then have "\<bar>z\<bar> \<le> 10 ^ 6" using k by simp
  then have "\<bar>z\<bar> / (2 * 10 ^ 27) \<le> 10 ^ 6 / (2 * 10 ^ 27)" by (intro divide_right_mono) auto
  also have "\<dots> \<le> 1 / 10 ^ 6" by simp
  finally have e: "\<bar>dec28 z - z\<bar> \<le> 1 / 10 ^ 6" using dec28_error [of z] by linarith
  then show "\<bar>dec28 (t + p) - (t + p)\<bar> \<le> 1 / 10 ^ 6" unfolding z_def .
  have "1 / 10 ^ 6 \<le> (1 :: rat)" by simp
  then have "\<bar>dec28 z - z\<bar> \<le> 1" using e by linarith
  moreover have "101 * of_nat (Suc k) = (101 * of_nat k + 101 :: rat)" by simp
  ultimately show "\<bar>dec28 (t + p)\<bar> \<le> 101 * of_nat (Suc k)" using z unfolding z_def [symmetric] by linarith
qed

lemma total_error:
  assumes "\<bar>t\<bar> \<le> 101 * of_nat k" "k + length rows \<le> 1000" "\<forall>(d, p, a) \<in> set rows. 0 \<le> p \<and> p \<le> 100"
  shows "\<bar>foldl (\<lambda>t (d, p, a). dec28 (t + p)) t rows - (t + (\<Sum>(d, p, a) \<leftarrow> rows. p))\<bar> \<le> of_nat (length rows) / 10 ^ 6"
  using assms
proof (induction rows arbitrary: t k)
  case (Cons r rows)
  obtain d p a where r: "r = (d, p, a)" by (cases r)
  have p: "0 \<le> p" "p \<le> 100" using Cons.prems(3) r by auto
  define u where "u = dec28 (t + p)"
  define f where "f = foldl (\<lambda>t (d, p, a). dec28 (t + p)) u rows"
  define q where "q = (\<Sum>(d, p, a) \<leftarrow> rows. p)"
  define n where "n = (of_nat (length rows) :: rat) / 10 ^ 6"
  have u: "\<bar>u - (t + p)\<bar> \<le> 1 / 10 ^ 6" "\<bar>u\<bar> \<le> 101 * of_nat (Suc k)"
    using total_step [OF Cons.prems(1) p] Cons.prems(2) unfolding u_def by auto
  have IH: "\<bar>f - (u + q)\<bar> \<le> n" unfolding f_def q_def n_def
    by (rule Cons.IH [OF u(2)]) (use Cons.prems(2,3) in auto)
  have "\<bar>f - (t + (p + q))\<bar> \<le> 1 / 10 ^ 6 + n" using u(1) IH by linarith
  also have "\<dots> = of_nat (length (r # rows)) / 10 ^ 6" by (simp add: n_def add_divide_distrib)
  finally show ?case by (simp add: r f_def q_def u_def)
qed simp

lemma validate_plan_clean:
  assumes "validate_plan ctx payload = Inr []" "0 < sc_budget ctx" "sc_budget ctx < 10 ^ 14"
  obtains rows where "dict_get payload ''channels'' = JArr (map (JObj \<circ> fst) rows)" "rows \<noteq> []" "list_all (good_channel ctx) rows"
    "distinct (map (plan_platform \<circ> fst) rows)"
    "\<bar>dec28 (foldl (\<lambda>t (d, p, a). dec28 (t + p)) 0 rows - 100)\<bar> \<le> 1"
    "list_all (override_kept (map (JObj \<circ> fst) rows)) (sc_overrides ctx)" "kpis_kept (dict_get payload ''kpis'')"
proof -
  obtain ch chs st vs where c: "dict_get payload ''channels'' = JArr (ch # chs)"
    "for_each (check_channel ctx) (enumerate 0 (ch # chs)) \<lparr>va_violations = [], va_seen = [], va_total = 0, va_exponent = 0, va_amount = DNum 0\<rparr> = Inr st"
    "for_each (check_override (ch # chs)) (sc_overrides ctx) vs = Inr []" "check_kpis (dict_get payload ''kpis'') = []"
    "vs = va_violations st @ (if allocation_pct_tolerance < \<bar>dec28 (va_total st - 100)\<bar>
       then [(''allocation_sum'', ''allocation_pct sum is '' @ dec_str (va_total st) (va_exponent st) @ '', must be 100 ('' @ plus_minus @ ''1)'')] else [])"
    using assms(1)
    by (auto simp: validate_plan_def Let_def simp del: enumerate_simps for_each.simps split: json.splits list.splits sum.splits)
  have o: "vs = []" "list_all (override_kept (ch # chs)) (sc_overrides ctx)" using check_overrides_clean [OF c(3)] by auto
  have v: "va_violations st = []" "\<bar>dec28 (va_total st - 100)\<bar> \<le> 1"
    using o(1) c(5) by (auto simp: allocation_pct_tolerance_def split: if_splits)
  obtain rows where "ch # chs = map (JObj \<circ> fst) rows" "list_all (good_channel ctx) rows" "distinct (map (plan_platform \<circ> fst) rows)"
    "va_total st = foldl (\<lambda>t (d, p, a). dec28 (t + p)) 0 rows"
    using check_channels_clean [OF c(2) v(1) assms(2,3)] by (simp only: validation.simps) (elim conjE exE, rule that)
  then show thesis using that [of rows] c(1,4) o(2) v(2) check_kpis_clean by auto
qed

lemma good_channel_sums:
  assumes "list_all (good_channel ctx) rows"
  shows "\<bar>(\<Sum>(d, p, a) \<leftarrow> rows. a) - of_int (sc_budget ctx) / 100 * (\<Sum>(d, p, a) \<leftarrow> rows. p) / 100\<bar> \<le> 51 / 100 * of_nat (length rows)"
  using assms
proof (induction rows)
  case (Cons r rows)
  obtain d p a where r: "r = (d, p, a)" by (cases r)
  define B where "B = (of_int (sc_budget ctx) / 100 :: rat)"
  have 1: "\<bar>a - B * p / 100\<bar> \<le> 51 / 100" using Cons.prems by (simp add: r good_channel_def B_def)
  define A where "A = (\<Sum>(d, p, a) \<leftarrow> rows. a)"
  define P where "P = (\<Sum>(d, p, a) \<leftarrow> rows. p)"
  have 2: "\<bar>A - B * P / 100\<bar> \<le> 51 / 100 * of_nat (length rows)" using Cons by (simp add: A_def P_def B_def)
  have "B * (p + P) / 100 = B * p / 100 + B * P / 100" by (simp add: distrib_left add_divide_distrib)
  then have "\<bar>(a + A) - B * (p + P) / 100\<bar> \<le> 51 / 100 + 51 / 100 * of_nat (length rows)" using 1 2 by linarith
  also have "\<dots> = 51 / 100 * of_nat (length (r # rows))" by (simp add: distrib_left)
  finally show ?case unfolding B_def [symmetric] by (simp add: r A_def P_def)
qed simp

text \<open>A plan with no violations plans the whole budget.\<close>

lemma validate_plan_totals:
  assumes "list_all (good_channel ctx) rows" "distinct (map (plan_platform \<circ> fst) rows)" "length (sc_channels ctx) \<le> 1000"
    and "\<bar>dec28 (foldl (\<lambda>t (d, p, a). dec28 (t + p)) 0 rows - 100)\<bar> \<le> 1"
  shows "\<bar>(\<Sum>(d, p, a) \<leftarrow> rows. p) - 100\<bar> \<le> 101 / 100"
proof -
  have "set (map (plan_platform \<circ> fst) rows) \<subseteq> set (allowed_platforms ctx)"
    using assms(1) by (auto simp: list_all_iff good_channel_def)
  then have "card (set (map (plan_platform \<circ> fst) rows)) \<le> length (allowed_platforms ctx)"
    by (meson List.finite_set card_length card_mono le_trans)
  also have "length (allowed_platforms ctx) \<le> length (sc_channels ctx)"
    unfolding allowed_platforms_def by (metis length_filter_le length_map)
  finally have n: "length rows \<le> 1000" using assms(3) distinct_card [OF assms(2)] by simp
  define T where "T = foldl (\<lambda>t (d, p, a). dec28 (t + p)) (0 :: rat) rows"
  define P where "P = (\<Sum>(d, p, a) \<leftarrow> rows. p)"
  have "\<bar>T - (0 + P)\<bar> \<le> of_nat (length rows) / 10 ^ 6"
    unfolding T_def P_def by (rule total_error [where k = 0]) (use n assms(1) in \<open>auto simp: list_all_iff good_channel_def\<close>)
  moreover have "of_nat (length rows) \<le> (1000 :: rat)" using n by (metis of_nat_le_iff of_nat_numeral)
  then have "of_nat (length rows) / 10 ^ 6 \<le> (1 / 1000 :: rat)" by simp
  ultimately have 1: "\<bar>T - P\<bar> \<le> 1 / 1000" by linarith
  define z where "z = T - 100"
  have "\<bar>z\<bar> / (2 * 10 ^ 27) \<le> \<bar>z\<bar> / 1000" by (rule divide_left_mono) auto
  then have "\<bar>dec28 z - z\<bar> \<le> \<bar>z\<bar> / 1000" using dec28_error [of z] by linarith
  then have "\<bar>z\<bar> \<le> 1 + 1 / 500" using assms(4) unfolding T_def [symmetric] z_def [symmetric] by linarith
  then have "\<bar>P - 100\<bar> \<le> 101 / 100" using 1 unfolding z_def by linarith
  then show ?thesis unfolding P_def .
qed

lemma plan_loop_result:
  assumes "plan_loop client loads ctx k n best vs0 = Inr r"
    and "\<forall>payload vs. best = Some (payload, vs) \<longrightarrow> validate_plan ctx payload = Inr vs \<and> vs \<noteq> []"
  shows "validate_plan ctx (pr_payload r) = Inr (pr_warnings r) \<and> pr_attempts r \<le> k + n
    \<and> (if n = 0 then pr_attempts r = k else k < pr_attempts r) \<and> (pr_warnings r \<noteq> [] \<longrightarrow> pr_attempts r = k + n)"
  using assms
proof (induction n arbitrary: k best vs0)
  case 0
  then show ?case by (auto split: option.splits)
next
  case (Suc n)
  obtain payload vs where o: "one_plan client loads ctx k vs0 = Inr (payload, vs)"
    using Suc.prems(1) by (cases "one_plan client loads ctx k vs0") auto
  have v: "validate_plan ctx payload = Inr vs" using o by (auto simp: one_plan_def split: sum.splits)
  show ?case
  proof (cases "vs = []")
    case True
    then show ?thesis using Suc.prems(1) o v by auto
  next
    case False
    have l: "plan_loop client loads ctx (Suc k) n (Some (better_plan (payload, vs) best)) vs = Inr r"
      using Suc.prems(1) o False by simp
    have "\<forall>p w. Some (better_plan (payload, vs) best) = Some (p, w) \<longrightarrow> validate_plan ctx p = Inr w \<and> w \<noteq> []"
      using v False Suc.prems(2) by (auto simp: better_plan_def split: option.splits if_splits)
    then show ?thesis using Suc.IH [OF l] by (auto split: if_splits)
  qed
qed

lemma planner_propose_loop:
  assumes "planner_propose client loads ctx = Inr r"
  shows "0 < sc_budget ctx" "validate_plan ctx (pr_payload r) = Inr (pr_warnings r)" "1 \<le> pr_attempts r" "pr_attempts r \<le> Suc planner_max_retries"
    "pr_warnings r \<noteq> [] \<Longrightarrow> pr_attempts r = Suc planner_max_retries"
proof -
  have l: "plan_loop client loads ctx 0 (Suc planner_max_retries) None [] = Inr r" and b: "0 < sc_budget ctx"
    using assms by (auto simp: planner_propose_def simp del: plan_loop.simps split: if_splits)
  show "0 < sc_budget ctx" by (rule b)
  show "validate_plan ctx (pr_payload r) = Inr (pr_warnings r)" "1 \<le> pr_attempts r" "pr_attempts r \<le> Suc planner_max_retries"
    "pr_warnings r \<noteq> [] \<Longrightarrow> pr_attempts r = Suc planner_max_retries"
    using plan_loop_result [OF l] by auto
qed

text \<open>C27. A plan the strategist proposes without warnings keeps the contract of its prompt: its channels are active channels
  that are not forbidden, each listed once with a percentage, a rationale and an amount within 51 cents of its share, the
  percentages add up to 100 within the tolerance and the amounts to the budget, every human override is kept and flagged,
  and the primary KPI has a metric, a target and a rationale. The budget fits its column and there are at most a thousand
  channels.\<close>

theorem unwarned_plan_sound:
  assumes "planner_propose client loads ctx = Inr r" "pr_warnings r = []"
    and "sc_budget ctx < 10 ^ 14" "length (sc_channels ctx) \<le> 1000"
  shows "\<exists>rows. dict_get (pr_payload r) ''channels'' = JArr (map (JObj \<circ> fst) rows) \<and> rows \<noteq> []
    \<and> list_all (good_channel ctx) rows \<and> distinct (map (plan_platform \<circ> fst) rows)
    \<and> \<bar>(\<Sum>(d, p, a) \<leftarrow> rows. p) - 100\<bar> \<le> 101 / 100
    \<and> \<bar>(\<Sum>(d, p, a) \<leftarrow> rows. a) - of_int (sc_budget ctx) / 100\<bar>
        \<le> 51 / 100 * of_nat (length rows) + 101 / 10000 * (of_int (sc_budget ctx) / 100)
    \<and> list_all (override_kept (map (JObj \<circ> fst) rows)) (sc_overrides ctx)
    \<and> kpis_kept (dict_get (pr_payload r) ''kpis'')"
proof -
  note l = planner_propose_loop [OF assms(1)]
  have v: "validate_plan ctx (pr_payload r) = Inr []" using l(2) assms(2) by simp
  obtain rows where r: "dict_get (pr_payload r) ''channels'' = JArr (map (JObj \<circ> fst) rows)" "rows \<noteq> []" "list_all (good_channel ctx) rows"
    "distinct (map (plan_platform \<circ> fst) rows)" "\<bar>dec28 (foldl (\<lambda>t (d, p, a). dec28 (t + p)) 0 rows - 100)\<bar> \<le> 1"
    "list_all (override_kept (map (JObj \<circ> fst) rows)) (sc_overrides ctx)" "kpis_kept (dict_get (pr_payload r) ''kpis'')"
    by (rule validate_plan_clean [OF v l(1) assms(3)])
  note t = validate_plan_totals [OF r(3,4) assms(4) r(5)]
  define B where "B = (of_int (sc_budget ctx) / 100 :: rat)"
  define P where "P = (\<Sum>(d, p, a) \<leftarrow> rows. p)"
  have "0 \<le> B" using l(1) by (simp add: B_def)
  then have "\<bar>B / 100 * (P - 100)\<bar> \<le> B / 100 * (101 / 100)"
    unfolding abs_mult using t by (intro mult_mono) (auto simp: P_def)
  moreover have "B / 100 * (P - 100) = B * P / 100 - B" by (simp add: right_diff_distrib)
  ultimately have "\<bar>(\<Sum>(d, p, a) \<leftarrow> rows. a) - B\<bar> \<le> 51 / 100 * of_nat (length rows) + 101 / 10000 * B"
    using good_channel_sums [OF r(3)] unfolding B_def [symmetric] P_def [symmetric] by linarith
  then show ?thesis using r(1-4,6,7) t unfolding B_def by blast
qed

text \<open>The planner answers after one to three calls of the model, and a plan it returns with warnings carries exactly
  the violations the validator finds in it and has used all three calls.\<close>

theorem planner_attempts:
  assumes "planner_propose client loads ctx = Inr r"
  shows "1 \<le> pr_attempts r \<and> pr_attempts r \<le> 3 \<and> validate_plan ctx (pr_payload r) = Inr (pr_warnings r)
    \<and> (pr_warnings r = [] \<or> pr_attempts r = 3)"
  using planner_propose_loop(2-5) [OF assms] by (auto simp: planner_max_retries_def)

text \<open>A concrete run: one channel that takes the whole budget, proposed at the first call.\<close>

definition example_context :: strategy_context where
  "example_context = \<lparr>sc_name = ''Launch'', sc_type = ''email'', sc_objective = ''leads'', sc_brief = None, sc_budget = 10000,
     sc_currency = ''EUR'', sc_start = ''2026-01-01'', sc_end = ''2026-01-31'', sc_audience_size = 10, sc_audience_summary = ''all'',
     sc_channels = [(''email'', ''Newsletter'')], sc_forbidden = [''linkedin''], sc_hard_caps = [], sc_overrides = []\<rparr>"

definition example_channel :: dict where
  "example_channel = [(''platform'', JStr ''Email''), (''allocation_pct'', JInt 100), (''allocation_amount'', JInt 100), (''rationale'', JStr ''reach'')]"

definition example_plan :: dict where
  "example_plan = [(''channels'', JArr [JObj example_channel]),
     (''kpis'', JObj [(''primary'', JObj [(''metric'', JStr ''leads''), (''target'', JInt 5), (''rationale'', JStr ''goal'')])])]"

lemma example_dec28: "dec28 0 = 0" "dec28 100 = 100" "dec28 10000 = 10000"
  using dec28_exact [of 0 0] dec28_exact [of 100 0] dec28_exact [of 10000 0] by simp_all

lemma full_share_numbers:
  assumes "sc_budget ctx = 10000" "py_strip (py_str (dict_get_default d ''rationale'' (JStr []))) \<noteq> []"
  shows "check_numbers ctx 0 d (DNum 100, 0) (DNum 100, 0) = Inr ([], 100)"
proof -
  have "\<lfloor>20001 / 2 :: rat\<rfloor> = 10000" by (rule floor_unique) simp_all
  then have e: "expected_amount 10000 100 = Inr 100"
    by (simp add: expected_amount_def example_dec28 quantize_up_res_def pg_numeric_def)
  show ?thesis
    using assms by (simp add: check_numbers_def comparable_pct_def e number_violations_def is_negative_def
        amount_off_def example_dec28 budget_per_channel_tolerance_def)
qed

text \<open>A plan whose only channel takes the whole budget of a hundred.\<close>

lemma full_share_validates:
  assumes "sc_budget ctx = 10000" "plan_platform d = pl" "pl \<noteq> []" "pl \<notin> set (map py_lower (sc_forbidden ctx))" "pl \<in> set (allowed_platforms ctx)"
    and "pydec_of (dict_get d ''allocation_pct'') = Some (DNum 100, 0)" "pydec_of (dict_get d ''allocation_amount'') = Some (DNum 100, 0)"
    and "py_strip (py_str (dict_get_default d ''rationale'' (JStr []))) \<noteq> []"
    and "dict_get payload ''channels'' = JArr [JObj d]" "check_kpis (dict_get payload ''kpis'') = []"
    and "for_each (check_override [JObj d]) (sc_overrides ctx) [] = Inr []"
  shows "validate_plan ctx payload = Inr []"
  using assms full_share_numbers [OF assms(1,8)]
  by (simp add: validate_plan_def check_channel_def add_amount_def example_dec28 allocation_pct_tolerance_def)

lemma example_validates: "validate_plan example_context example_plan = Inr []"
  by (rule full_share_validates [of _ example_channel "''email''"]; code_simp)

lemma example_proposal:
  "planner_propose (\<lambda>k prompt t. Inr [Some ''plan'']) (\<lambda>t. Some (JObj example_plan)) example_context
     = Inr \<lparr>pr_payload = example_plan, pr_warnings = [], pr_attempts = 1\<rparr>"
proof -
  have "sc_channels example_context \<noteq> []" "\<not> sc_budget example_context \<le> 0" "allowed_platforms example_context \<noteq> []" by code_simp+
  then show ?thesis
    by (simp add: planner_propose_def one_plan_def call_strategy_model_def parse_plan_def example_validates map_filter_simps)
qed

theorem unwarned_plan_sound_witness:
  "\<exists>rows. dict_get example_plan ''channels'' = JArr (map (JObj \<circ> fst) rows) \<and> rows \<noteq> [] \<and> list_all (good_channel example_context) rows"
  using unwarned_plan_sound [OF example_proposal] by (simp add: example_context_def) blast

theorem planner_attempts_witness:
  "validate_plan example_context example_plan = Inr []"
  using planner_attempts [OF example_proposal] by simp

end
