(* ===== verification/Strategy.thy ===== *)
theory Strategy
  imports Strategist_Planner Calendar Worker Approvals
begin

text \<open>
  The campaign strategist around its planner: the agent that builds the planner's context and stores the proposal
  (\<^verbatim>\<open>app/agents/strategist.py\<close>), its queue handler, and the endpoints that review, override and accept a proposal and
  move the touchpoints of its calendar (\<^verbatim>\<open>app/api/strategy.py\<close>). The rows of a campaign belong to its tenant, so a query
  that is restricted to a campaign is not restricted to the tenant again. The time stamps of proposals and touchpoints
  are not kept.
\<close>

section \<open>Rows\<close>

definition proposals_of :: "uuid \<Rightarrow> db \<Rightarrow> strategy_proposal list" where
  "proposals_of camp s = filter (\<lambda>p. prop_campaign_id p = camp) (proposals s)"

definition touches_of :: "uuid \<Rightarrow> db \<Rightarrow> strategy_touchpoint list" where
  "touches_of proposal s = filter (\<lambda>t. tp_proposal_id t = proposal) (touchpoints s)"

text \<open>The first of the rows in a descending order.\<close>

definition latest_by :: "('a \<Rightarrow> int) \<Rightarrow> 'a list \<Rightarrow> 'a option" where
  "latest_by key rows = (case sort_key (\<lambda>r. - key r) rows of [] \<Rightarrow> None | r # _ \<Rightarrow> Some r)"

definition latest_audience :: "uuid \<Rightarrow> db \<Rightarrow> audience option" where
  "latest_audience camp s = latest_by aud_created_at (filter (\<lambda>a. aud_campaign_id a = camp) (audiences s))"

definition constraints_of :: "uuid \<Rightarrow> string \<Rightarrow> db \<Rightarrow> dict list" where
  "constraints_of tenant kind s =
     map tcn_payload (filter (\<lambda>c. tcn_tenant_id c = tenant \<and> tcn_kind c = kind) (tenant_constraints s))"

definition hard_caps_of :: "uuid \<Rightarrow> db \<Rightarrow> dict list" where
  "hard_caps_of tenant s = constraints_of tenant ''hard_cap'' s"

section \<open>The agent\<close>

definition ensure_strategist_agent :: "env \<Rightarrow> uuid \<Rightarrow> db \<Rightarrow> (agent \<times> db) res" where
  "ensure_strategist_agent e tenant s = ensure_agent e CampaignStrategist ''Campaign Strategist'' tenant s"

definition active_channels :: "uuid \<Rightarrow> db \<Rightarrow> channel list" where
  "active_channels tenant s = filter (\<lambda>c. ch_tenant_id c = tenant \<and> ch_is_active c) (channels s)"

definition assert_preconditions :: "campaign \<Rightarrow> db \<Rightarrow> unit res" where
  "assert_preconditions camp s =
     (if py_strip (camp_objective camp) = [] then Inl StrategistPreconditionError
      else if filter (\<lambda>a. aud_campaign_id a = camp_id camp) (audiences s) = [] then Inl StrategistPreconditionError
      else if active_channels (camp_tenant_id camp) s = [] then Inl StrategistPreconditionError
      else Inr ())"

definition audience_summary :: "audience option \<Rightarrow> string" where
  "audience_summary a =
     (case a of
        None \<Rightarrow> ''no audience materialised''
      | Some aud \<Rightarrow> ''audience '' @ in_quotes (aud_name aud) @ '' (criteria: '' @ py_repr (JObj (aud_criteria aud)) @ '')'')"

text \<open>\<^verbatim>\<open>actual_size or estimated_size or 0\<close>.\<close>

definition audience_size :: "audience \<Rightarrow> int" where
  "audience_size a =
     (case aud_actual_size a of
        Some n \<Rightarrow> if n \<noteq> 0 then n else (case aud_estimated_size a of Some m \<Rightarrow> m | None \<Rightarrow> 0)
      | None \<Rightarrow> (case aud_estimated_size a of Some m \<Rightarrow> m | None \<Rightarrow> 0))"

text \<open>A channel row that a human pinned; rows without numbers are skipped.\<close>

definition override_of :: "json \<Rightarrow> human_override_row option" where
  "override_of ch =
     (case ch of
        JObj d \<Rightarrow>
          if \<not> truthy (dict_get d ''human_override'') then None
          else (case (map_of d ''platform'', map_of d ''allocation_pct'', map_of d ''allocation_amount'') of
             (Some p, Some pct, Some amount) \<Rightarrow>
               (case (pydec_of pct, pydec_of amount) of
                  (Some x, Some y) \<Rightarrow> Some \<lparr>ho_platform = py_str p, ho_pct = x, ho_amount = y\<rparr>
                | _ \<Rightarrow> None)
           | _ \<Rightarrow> None)
      | _ \<Rightarrow> None)"

definition carry_overrides :: "uuid \<Rightarrow> db \<Rightarrow> human_override_row list res" where
  "carry_overrides camp s =
     (case latest_by prop_version (proposals_of camp s) of
        None \<Rightarrow> Inr []
      | Some p \<Rightarrow>
          (case py_iter (dict_get_default (prop_payload p) ''channels'' (JArr [])) of
             None \<Rightarrow> Inl TypeError
           | Some chs \<Rightarrow> Inr (List.map_filter override_of chs)))"

definition forbidden_platforms :: "uuid \<Rightarrow> db \<Rightarrow> string list" where
  "forbidden_platforms tenant s =
     map (\<lambda>d. py_lower (py_str (dict_get_default d ''platform'' (JStr []))))
       (filter (\<lambda>d. truthy (dict_get d ''platform'')) (constraints_of tenant ''forbid_channel'' s))"

definition build_context :: "campaign \<Rightarrow> db \<Rightarrow> strategy_context res" where
  "build_context camp s =
     (let aud = latest_audience (camp_id camp) s; tenant = camp_tenant_id camp
      in map_sum id (\<lambda>ovs.
           \<lparr>sc_name = camp_name camp, sc_type = campaign_type_value (camp_type camp), sc_objective = camp_objective camp,
            sc_brief = camp_brief camp, sc_budget = camp_budget_total camp, sc_currency = camp_currency camp,
            sc_start = date_iso (camp_start_date camp), sc_end = date_iso (camp_end_date camp),
            sc_audience_size = (case aud of None \<Rightarrow> 0 | Some a \<Rightarrow> audience_size a),
            sc_audience_summary = audience_summary aud,
            sc_channels = map (\<lambda>c. (platform_value (ch_platform c), ch_name c)) (sort_key ch_name (active_channels tenant s)),
            sc_forbidden = forbidden_platforms tenant s, sc_hard_caps = hard_caps_of tenant s, sc_overrides = ovs\<rparr>)
           (carry_overrides (camp_id camp) s))"

definition next_proposal_version :: "uuid \<Rightarrow> db \<Rightarrow> int" where
  "next_proposal_version camp s = (case map prop_version (proposals_of camp s) of [] \<Rightarrow> 1 | v # vs \<Rightarrow> fold max vs v + 1)"

text \<open>Who asked for the proposal: the user, else the agent row.\<close>

definition proposal_actor :: "env \<Rightarrow> uuid \<Rightarrow> uuid option \<Rightarrow> db \<Rightarrow> ((string \<times> uuid) \<times> db) res" where
  "proposal_actor e tenant triggered_by s =
     (case triggered_by of
        Some u \<Rightarrow> Inr ((''user'', u), s)
      | None \<Rightarrow> map_sum id (\<lambda>(ag, s1). ((''agent'', ag_id ag), s1)) (ensure_strategist_agent e tenant s))"

definition insert_proposal :: "campaign \<Rightarrow> int \<Rightarrow> planner_result \<Rightarrow> string \<times> uuid \<Rightarrow> db \<Rightarrow> strategy_proposal \<times> db" where
  "insert_proposal camp version result actor s =
     (let (i, s1) = fresh_uuid s;
          p = \<lparr>prop_id = i, prop_tenant_id = camp_tenant_id camp, prop_campaign_id = camp_id camp, prop_version = version,
               prop_payload = pr_payload result, prop_is_accepted = False, prop_created_by_kind = fst actor,
               prop_created_by_id = Some (snd actor), prop_warnings = map violation_json (pr_warnings result)\<rparr>
      in (p, s1\<lparr>proposals := proposals s1 @ [p]\<rparr>))"

definition propose_summary :: "strategy_proposal \<Rightarrow> planner_result \<Rightarrow> dict" where
  "propose_summary p result =
     [(''proposal_id'', JStr (uuid_str (prop_id p))), (''campaign_id'', JStr (uuid_str (prop_campaign_id p))),
      (''version'', JInt (prop_version p)), (''warnings_count'', JInt (int (length (pr_warnings result)))),
      (''attempts'', JInt (int (pr_attempts result)))]"

definition propose ::
  "client \<Rightarrow> (string \<Rightarrow> json option) \<Rightarrow> env \<Rightarrow> uuid \<Rightarrow> uuid option \<Rightarrow> db \<Rightarrow> (dict \<times> db) res" where
  "propose client loads e camp_i triggered_by s =
     (case get_campaign camp_i s of
        None \<Rightarrow> Inl StrategistPreconditionError
      | Some camp \<Rightarrow>
          (case assert_preconditions camp s of
             Inl err \<Rightarrow> Inl err
           | Inr _ \<Rightarrow>
               (case build_context camp s of
                  Inl err \<Rightarrow> Inl err
                | Inr ctx \<Rightarrow>
                    (case planner_propose client loads ctx of
                       Inl err \<Rightarrow> Inl err
                     | Inr result \<Rightarrow>
                         (case proposal_actor e (camp_tenant_id camp) triggered_by s of
                            Inl err \<Rightarrow> Inl err
                          | Inr (actor, s1) \<Rightarrow>
                              let (p, s2) = insert_proposal camp (next_proposal_version (camp_id camp) s) result actor s1
                              in Inr (propose_summary p result, s2))))))"

definition campaign_strategist_propose_handler ::
  "bool \<Rightarrow> client \<Rightarrow> (string \<Rightarrow> json option) \<Rightarrow> handler" where
  "campaign_strategist_propose_handler configured client loads e t s =
     (let inputs = task_input_data t
      in if \<not> configured then (Inl NotConfiguredError, s)
         else case uuid_arg inputs ''campaign_id'' of
           Inl err \<Rightarrow> (Inl err, s)
         | Inr camp_i \<Rightarrow>
             (case (if truthy (dict_get inputs ''triggered_by_user_id'')
                    then map_sum id Some (uuid_arg inputs ''triggered_by_user_id'') else Inr None) of
                Inl err \<Rightarrow> (Inl err, s)
              | Inr by_user \<Rightarrow> ran s (propose client loads e camp_i by_user s) fst))"

section \<open>The calendar of a proposal\<close>

text \<open>The column holds forty characters; the bytes that continue a character do not count.\<close>

definition characters :: "string \<Rightarrow> nat" where
  "characters t = length (filter (\<lambda>c. \<not> (128 \<le> (of_char c :: nat) \<and> (of_char c :: nat) < 192)) t)"

definition touchpoint_row :: "uuid \<Rightarrow> uuid \<Rightarrow> planned_touchpoint \<Rightarrow> uuid \<Rightarrow> strategy_touchpoint" where
  "touchpoint_row tenant proposal t i =
     \<lparr>tp_id = i, tp_tenant_id = tenant, tp_proposal_id = proposal, tp_channel_platform = pt_channel_platform t,
      tp_audience_id = pt_audience_id t, tp_scheduled_at = pt_scheduled_at t, tp_position = pt_position t,
      tp_human_override = pt_human_override t, tp_frequency_warning = pt_frequency_warning t\<rparr>"

definition insert_touchpoint :: "uuid \<Rightarrow> uuid \<Rightarrow> planned_touchpoint \<Rightarrow> db \<Rightarrow> db res" where
  "insert_touchpoint tenant proposal t s =
     (if 40 < characters (pt_channel_platform t) then Inl DataError
      else let (i, s1) = fresh_uuid s
           in Inr (s1\<lparr>touchpoints := touchpoints s1 @ [touchpoint_row tenant proposal t i]\<rparr>))"

definition default_frequency_cap :: nat where "default_frequency_cap = 3"

definition default_frequency_window :: duration where "default_frequency_window = days 7"

definition seed_calendar :: "strategy_proposal \<Rightarrow> db \<Rightarrow> calendar_error + db" where
  "seed_calendar p s =
     (case get_campaign (prop_campaign_id p) s of
        None \<Rightarrow> Inl (CalendarRaises CalendarSeedError)
      | Some camp \<Rightarrow>
          (case latest_audience (camp_id camp) s of
             None \<Rightarrow> Inl (CalendarRaises CalendarSeedError)
           | Some aud \<Rightarrow>
               (case generate_calendar (prop_payload p) (camp_start_date camp) (camp_end_date camp) (aud_id aud)
                   (hard_caps_of (camp_tenant_id camp) s) of
                  Inl err \<Rightarrow> Inl err
                | Inr planned \<Rightarrow>
                    map_sum CalendarRaises id
                      (for_each (insert_touchpoint (camp_tenant_id camp) (prop_id p))
                         (detect_frequency_warnings default_frequency_cap default_frequency_window planned) s))))"

definition get_accepted_calendar :: "uuid \<Rightarrow> db \<Rightarrow> strategy_touchpoint list res" where
  "get_accepted_calendar camp s =
     (case scalar_one_or_none (filter prop_is_accepted (proposals_of camp s)) of
        None \<Rightarrow> Inl MultipleResultsFound
      | Some None \<Rightarrow> Inr []
      | Some (Some p) \<Rightarrow> Inr (calendar_of (prop_id p) s))"

definition planned_of :: "strategy_touchpoint \<Rightarrow> planned_touchpoint" where
  "planned_of r =
     \<lparr>pt_channel_platform = tp_channel_platform r, pt_audience_id = tp_audience_id r, pt_scheduled_at = tp_scheduled_at r,
      pt_position = tp_position r, pt_human_override = tp_human_override r, pt_frequency_warning = None\<rparr>"

definition modify_touchpoint :: "uuid \<Rightarrow> (strategy_touchpoint \<Rightarrow> strategy_touchpoint) \<Rightarrow> db \<Rightarrow> db" where
  "modify_touchpoint i f s = s\<lparr>touchpoints := update_where (\<lambda>t. tp_id t = i) f (touchpoints s)\<rparr>"

definition re_evaluate_warnings :: "uuid \<Rightarrow> db \<Rightarrow> db" where
  "re_evaluate_warnings proposal s =
     (let rows = sort_key tp_scheduled_at (touches_of proposal s);
          planned = detect_frequency_warnings default_frequency_cap default_frequency_window (map planned_of rows)
      in fold (\<lambda>(row, fresh). modify_touchpoint (tp_id row) (\<lambda>t. t\<lparr>tp_frequency_warning := pt_frequency_warning fresh\<rparr>))
           (zip rows planned) s)"

section \<open>Endpoints\<close>

definition task_ref :: "task \<Rightarrow> uuid \<times> string \<times> task_status" where
  "task_ref t = (task_id t, task_skill_name t, task_status_of t)"

definition enqueue_strategy_propose ::
  "bool \<Rightarrow> env \<Rightarrow> app_user \<Rightarrow> uuid \<Rightarrow> db \<Rightarrow> ((uuid \<times> string \<times> task_status) \<times> db) res" where
  "enqueue_strategy_propose configured e user camp_i s =
     (case require_role Marketer user of
        Inl err \<Rightarrow> Inl err
      | Inr _ \<Rightarrow>
          if \<not> configured then Inl (HTTPException 503)
          else case tenant_campaign user camp_i s of
            None \<Rightarrow> Inl (HTTPException 404)
          | Some camp \<Rightarrow>
              if isl (assert_preconditions camp s) then Inl (HTTPException 422)
              else case ensure_strategist_agent e (user_tenant_id user) s of
                Inl err \<Rightarrow> Inl err
              | Inr (ag, s1) \<Rightarrow>
                  map_sum id (map_prod task_ref id)
                    (enqueue_task e
                      ((request (user_tenant_id user) (ag_id ag) ''campaign_strategist.propose''
                          [(''campaign_id'', JStr (uuid_str camp_i)), (''triggered_by_user_id'', JStr (uuid_str (user_id user)))])
                         \<lparr>rq_campaign_id := Some camp_i\<rparr>) s1))"

definition tenant_proposals :: "app_user \<Rightarrow> uuid \<Rightarrow> db \<Rightarrow> strategy_proposal list" where
  "tenant_proposals user camp s = filter (\<lambda>p. prop_tenant_id p = user_tenant_id user) (proposals_of camp s)"

definition get_latest_strategy :: "app_user \<Rightarrow> uuid \<Rightarrow> db \<Rightarrow> strategy_proposal res" where
  "get_latest_strategy user camp s =
     (case require_role Viewer user of
        Inl err \<Rightarrow> Inl err
      | Inr _ \<Rightarrow> (case latest_by prop_version (tenant_proposals user camp s) of None \<Rightarrow> Inl (HTTPException 404) | Some p \<Rightarrow> Inr p))"

definition list_strategy_history :: "app_user \<Rightarrow> uuid \<Rightarrow> db \<Rightarrow> (strategy_proposal list \<times> nat) res" where
  "list_strategy_history user camp s =
     (case require_role Viewer user of
        Inl err \<Rightarrow> Inl err
      | Inr _ \<Rightarrow> (let rows = sort_key (\<lambda>p. - prop_version p) (tenant_proposals user camp s) in Inr (rows, length rows)))"

definition tenant_proposal :: "app_user \<Rightarrow> uuid \<Rightarrow> db \<Rightarrow> strategy_proposal option" where
  "tenant_proposal user i s = find_row (\<lambda>p. prop_id p = i \<and> prop_tenant_id p = user_tenant_id user) (proposals s)"

definition modify_proposal :: "uuid \<Rightarrow> (strategy_proposal \<Rightarrow> strategy_proposal) \<Rightarrow> db \<Rightarrow> db" where
  "modify_proposal i f s = s\<lparr>proposals := update_where (\<lambda>p. prop_id p = i) f (proposals s)\<rparr>"

text \<open>\<^verbatim>\<open>PATCH\<close> body: the percentage is a float between 0 and 100.\<close>

record channel_override =
  co_platform :: string
  co_pct :: "rat option"
  co_amount :: "string option"
  co_human_override :: bool

definition override_valid :: "channel_override \<Rightarrow> bool" where
  "override_valid ov \<longleftrightarrow> co_platform ov \<noteq> [] \<and> (case co_pct ov of None \<Rightarrow> True | Some p \<Rightarrow> 0 \<le> p \<and> p \<le> 100)"

text \<open>The last row of a platform wins.\<close>

definition channels_by_platform :: "json list \<Rightarrow> (string \<times> nat) list" where
  "channels_by_platform chs =
     fold (\<lambda>(i, ch) out. case ch of JObj d \<Rightarrow> AList.update (plan_platform d) i out | _ \<Rightarrow> out) (enumerate 0 chs) []"

definition overridden :: "channel_override \<Rightarrow> dict \<Rightarrow> dict res" where
  "overridden ov d =
     (let d1 = (case co_pct ov of None \<Rightarrow> d | Some p \<Rightarrow> dict_set d ''allocation_pct'' (JFloat p))
      in case co_amount ov of
           None \<Rightarrow> Inr (dict_set d1 ''human_override'' (JBool (co_human_override ov)))
         | Some t \<Rightarrow>
             if decimal_of (JStr t) = None then Inl (HTTPException 422)
             else Inr (dict_set (dict_set d1 ''allocation_amount'' (JStr t)) ''human_override'' (JBool (co_human_override ov))))"

definition apply_override :: "(string \<times> nat) list \<Rightarrow> channel_override \<Rightarrow> json list \<Rightarrow> json list res" where
  "apply_override by_platform ov chs =
     (case map_of by_platform (py_lower (co_platform ov)) of
        None \<Rightarrow> Inl (HTTPException 422)
      | Some i \<Rightarrow> (case chs ! i of JObj d \<Rightarrow> map_sum id (\<lambda>d'. chs[i := JObj d']) (overridden ov d) | _ \<Rightarrow> Inl ValueError))"

definition patch_strategy_overrides ::
  "env \<Rightarrow> app_user \<Rightarrow> uuid \<Rightarrow> channel_override list \<Rightarrow> db \<Rightarrow> (strategy_proposal \<times> db) res" where
  "patch_strategy_overrides e user i overrides s =
     (case require_role Marketer user of
        Inl err \<Rightarrow> Inl err
      | Inr _ \<Rightarrow>
          if overrides = [] \<or> \<not> list_all override_valid overrides then Inl (HTTPException 422)
          else case tenant_proposal user i s of
            None \<Rightarrow> Inl (HTTPException 404)
          | Some p \<Rightarrow>
              if prop_is_accepted p then Inl (HTTPException 409)
              else case py_iter (dict_get_default (prop_payload p) ''channels'' (JArr [])) of
                None \<Rightarrow> Inl TypeError
              | Some chs \<Rightarrow>
                  (case for_each (apply_override (channels_by_platform chs)) overrides chs of
                     Inl err \<Rightarrow> Inl err
                   | Inr chs' \<Rightarrow>
                       let stamp = (\<lambda>q. q\<lparr>prop_payload := dict_set (prop_payload p) ''channels'' (JArr chs')\<rparr>)
                       in Inr (stamp p,
                            write_audit e (prop_tenant_id p) ''strategy_proposal'' (prop_id p) ''overridden''
                              (Some (SnapProposal p)) (Some (SnapProposal (stamp p)))
                              [(''channels'', JArr (map (JStr \<circ> py_lower \<circ> co_platform) overrides))]
                              (modify_proposal (prop_id p) stamp s))))"

definition clear_accepted :: "strategy_proposal \<Rightarrow> db \<Rightarrow> db" where
  "clear_accepted p s = s\<lparr>proposals := update_where
     (\<lambda>q. prop_campaign_id q = prop_campaign_id p \<and> prop_is_accepted q \<and> prop_id q \<noteq> prop_id p)
     (\<lambda>q. q\<lparr>prop_is_accepted := False\<rparr>) (proposals s)\<rparr>"

definition drop_calendars :: "strategy_proposal \<Rightarrow> db \<Rightarrow> db" where
  "drop_calendars p s = s\<lparr>touchpoints := filter
     (\<lambda>t. \<not> list_ex (\<lambda>q. prop_id q = tp_proposal_id t \<and> prop_campaign_id q = prop_campaign_id p \<and> prop_id q \<noteq> prop_id p) (proposals s))
     (touchpoints s)\<rparr>"

definition accepted_proposal :: "strategy_proposal \<Rightarrow> strategy_proposal" where
  "accepted_proposal p = p\<lparr>prop_is_accepted := True\<rparr>"

definition calendar_http :: "calendar_error \<Rightarrow> py_error" where
  "calendar_http err =
     (case err of
        HardCapViolation _ \<Rightarrow> HTTPException 422
      | CalendarRaises CalendarSeedError \<Rightarrow> HTTPException 422
      | CalendarRaises x \<Rightarrow> x)"

definition advance_to_strategy_set :: "state_machine \<Rightarrow> env \<Rightarrow> campaign \<Rightarrow> db \<Rightarrow> db res" where
  "advance_to_strategy_set sm e camp s =
     (if camp_status camp \<noteq> AudienceBuilt then Inr s
      else case apply_transition sm e camp ''set_strategy'' s of
        Inr (_, s') \<Rightarrow> Inr s'
      | Inl err \<Rightarrow> Inl (if err = UnknownTransitionError \<or> err = GuardFailedError then HTTPException 409 else err))"

definition accept_strategy :: "state_machine \<Rightarrow> env \<Rightarrow> app_user \<Rightarrow> uuid \<Rightarrow> db \<Rightarrow> (strategy_proposal \<times> db) res" where
  "accept_strategy sm e user i s =
     (case require_role Marketer user of
        Inl err \<Rightarrow> Inl err
      | Inr _ \<Rightarrow>
          (case tenant_proposal user i s of
             None \<Rightarrow> Inl (HTTPException 404)
           | Some p \<Rightarrow>
               if prop_is_accepted p then Inr (p, s)
               else case tenant_campaign user (prop_campaign_id p) s of
                 None \<Rightarrow> Inl (HTTPException 404)
               | Some camp \<Rightarrow>
                   (case seed_calendar (accepted_proposal p)
                       (modify_proposal (prop_id p) accepted_proposal (drop_calendars p (clear_accepted p s))) of
                      Inl err \<Rightarrow> Inl (calendar_http err)
                    | Inr s1 \<Rightarrow>
                        map_sum id (Pair (accepted_proposal p))
                          (advance_to_strategy_set sm e camp
                             (write_audit e (prop_tenant_id p) ''strategy_proposal'' (prop_id p) ''accepted''
                                (Some (SnapProposal p)) (Some (SnapProposal (accepted_proposal p)))
                                [(''campaign_id'', JStr (uuid_str (prop_campaign_id p))), (''version'', JInt (prop_version p))] s1)))))"

definition get_campaign_calendar :: "app_user \<Rightarrow> uuid \<Rightarrow> db \<Rightarrow> (uuid \<times> strategy_touchpoint list \<times> nat) res" where
  "get_campaign_calendar user camp s =
     (case require_role Viewer user of
        Inl err \<Rightarrow> Inl err
      | Inr _ \<Rightarrow>
          (case scalar_one_or_none (filter prop_is_accepted (tenant_proposals user camp s)) of
             None \<Rightarrow> Inl MultipleResultsFound
           | Some None \<Rightarrow> Inl (HTTPException 404)
           | Some (Some p) \<Rightarrow> (let rows = calendar_of (prop_id p) s in Inr (prop_id p, rows, length rows))))"

definition moved :: "instant \<Rightarrow> bool \<Rightarrow> strategy_touchpoint \<Rightarrow> strategy_touchpoint" where
  "moved when by_human t = t\<lparr>tp_scheduled_at := when, tp_human_override := by_human\<rparr>"

definition patch_touchpoint ::
  "env \<Rightarrow> app_user \<Rightarrow> uuid \<Rightarrow> instant \<Rightarrow> bool \<Rightarrow> db \<Rightarrow> (strategy_touchpoint \<times> db) res" where
  "patch_touchpoint e user i when by_human s =
     (case require_role Marketer user of
        Inl err \<Rightarrow> Inl err
      | Inr _ \<Rightarrow>
          (case find_row (\<lambda>t. tp_id t = i \<and> tp_tenant_id t = user_tenant_id user) (touchpoints s) of
             None \<Rightarrow> Inl (HTTPException 404)
           | Some t \<Rightarrow>
               (case tenant_proposal user (tp_proposal_id t) s of
                  None \<Rightarrow> Inl (HTTPException 404)
                | Some p \<Rightarrow>
                    (let s1 = modify_touchpoint i (moved when by_human) s
                     in case enforce_hard_caps (map planned_of (touches_of (tp_proposal_id t) s1))
                            (hard_caps_of (prop_tenant_id p) s1) of
                          Inl _ \<Rightarrow> Inl (HTTPException 422)
                        | Inr _ \<Rightarrow>
                            (let s2 = re_evaluate_warnings (tp_proposal_id t) s1
                             in case find_row (\<lambda>r. tp_id r = i) (touchpoints s2) of
                                  None \<Rightarrow> Inl LookupError
                                | Some t' \<Rightarrow>
                                    Inr (t', write_audit e (tp_tenant_id t) ''strategy_touchpoint'' (tp_id t) ''moved''
                                      (Some (SnapTouchpoint t)) (Some (SnapTouchpoint t'))
                                      [(''proposal_id'', JStr (uuid_str (tp_proposal_id t)))] s2))))))"

section \<open>What the operations do\<close>

lemma fold_max_ge: "x = v \<or> x \<in> set vs \<Longrightarrow> x \<le> fold max vs (v :: int)"
proof (induction vs arbitrary: x v)
  case (Cons w vs)
  have IH: "x = max w v \<or> x \<in> set vs \<Longrightarrow> x \<le> fold max vs (max w v)" for x using Cons.IH by fastforce
  show ?case
  proof (cases "x \<in> set vs")
    case False
    then have "x \<le> max w v" using Cons.prems by auto
    also have "max w v \<le> fold max vs (max w v)" by (rule IH) simp
    finally show ?thesis by simp
  qed (use IH in simp)
qed simp

lemma proposal_version_above:
  assumes "q \<in> set (proposals s)" "prop_campaign_id q = camp"
  shows "prop_version q < next_proposal_version camp s"
proof (cases "map prop_version (proposals_of camp s)")
  case Nil
  then show ?thesis using assms by (auto simp: proposals_of_def filter_empty_conv)
next
  case (Cons v vs)
  have "prop_version q \<in> set (map prop_version (proposals_of camp s))" using assms by (auto simp: proposals_of_def)
  then show ?thesis using Cons fold_max_ge [of "prop_version q" v vs] by (simp add: next_proposal_version_def)
qed

lemma ensure_agent_gen: "ensure_agent e kind name ten s = Inr (ag, s') \<Longrightarrow> db_gen s' = db_gen s \<and> db_seq s \<le> db_seq s'"
  by (auto simp: ensure_agent_def insert_agent_def Let_def fresh_uuid_def write_audit_def split: option.splits if_splits)

lemma proposal_actor_frame:
  "proposal_actor e tenant u s = Inr (actor, s') \<Longrightarrow> proposals s' = proposals s \<and> touchpoints s' = touchpoints s
     \<and> campaigns s' = campaigns s \<and> db_gen s' = db_gen s \<and> db_seq s \<le> db_seq s'"
  by (auto simp: proposal_actor_def ensure_strategist_agent_def split: option.splits dest: ensure_agent_frame ensure_agent_gen)

text \<open>The proposal a run appends.\<close>

definition new_proposal :: "campaign \<Rightarrow> planner_result \<Rightarrow> db \<Rightarrow> strategy_proposal \<Rightarrow> bool" where
  "new_proposal camp r s p \<longleftrightarrow>
     prop_campaign_id p = camp_id camp \<and> prop_tenant_id p = camp_tenant_id camp \<and> \<not> prop_is_accepted p
     \<and> prop_version p = next_proposal_version (camp_id camp) s \<and> prop_payload p = pr_payload r
     \<and> prop_warnings p = map violation_json (pr_warnings r) \<and> (\<exists>n\<ge>db_seq s. prop_id p = db_gen s n)"

lemma propose_cases:
  assumes "propose client loads e camp_i triggered_by s = Inr (out, s')"
  obtains camp ctx r actor s1 p where "get_campaign camp_i s = Some camp" "assert_preconditions camp s = Inr ()" "build_context camp s = Inr ctx"
    "planner_propose client loads ctx = Inr r" "proposal_actor e (camp_tenant_id camp) triggered_by s = Inr (actor, s1)"
    "insert_proposal camp (next_proposal_version (camp_id camp) s) r actor s1 = (p, s')" "out = propose_summary p r"
proof -
  obtain camp where 1: "get_campaign camp_i s = Some camp" using assms by (cases "get_campaign camp_i s") (simp_all add: propose_def)
  have 2: "assert_preconditions camp s = Inr ()" using assms 1 by (cases "assert_preconditions camp s") (simp_all add: propose_def)
  obtain ctx where 3: "build_context camp s = Inr ctx" using assms 1 2 by (cases "build_context camp s") (simp_all add: propose_def)
  obtain r where 4: "planner_propose client loads ctx = Inr r" using assms 1 2 3 by (cases "planner_propose client loads ctx") (simp_all add: propose_def)
  obtain actor s1 where 5: "proposal_actor e (camp_tenant_id camp) triggered_by s = Inr (actor, s1)"
    using assms 1 2 3 4 by (cases "proposal_actor e (camp_tenant_id camp) triggered_by s") (auto simp: propose_def)
  obtain p s2 where 6: "insert_proposal camp (next_proposal_version (camp_id camp) s) r actor s1 = (p, s2)" by force
  then show thesis using that [OF 1 2 3 4 5] assms 1 2 3 4 5 by (simp add: propose_def)
qed

lemma propose_effect:
  assumes "propose client loads e camp_i triggered_by s = Inr (out, s')"
  obtains camp ctx r p where "get_campaign camp_i s = Some camp" "assert_preconditions camp s = Inr ()" "build_context camp s = Inr ctx"
    "planner_propose client loads ctx = Inr r" "out = propose_summary p r" "new_proposal camp r s p"
    "proposals s' = proposals s @ [p]" "touchpoints s' = touchpoints s" "campaigns s' = campaigns s"
proof -
  obtain camp ctx r actor s1 p where c: "get_campaign camp_i s = Some camp" "assert_preconditions camp s = Inr ()" "build_context camp s = Inr ctx"
    "planner_propose client loads ctx = Inr r" "proposal_actor e (camp_tenant_id camp) triggered_by s = Inr (actor, s1)"
    and i: "insert_proposal camp (next_proposal_version (camp_id camp) s) r actor s1 = (p, s')" "out = propose_summary p r"
    by (rule propose_cases [OF assms])
  note f = proposal_actor_frame [OF c(5)]
  have "new_proposal camp r s p" "proposals s' = proposals s @ [p]" "touchpoints s' = touchpoints s" "campaigns s' = campaigns s"
    using i(1) f by (auto simp: insert_proposal_def Let_def fresh_uuid_def new_proposal_def)
  then show thesis using that c i(2) by blast
qed

lemma patch_overrides_effect:
  assumes "patch_strategy_overrides e user i overrides s = Inr (p', s')"
  obtains p payload where "p \<in> set (proposals s)" "prop_id p = i" "\<not> prop_is_accepted p" "p' = p\<lparr>prop_payload := payload\<rparr>"
    "proposals s' = update_where (\<lambda>q. prop_id q = i) (\<lambda>q. q\<lparr>prop_payload := payload\<rparr>) (proposals s)"
    "touchpoints s' = touchpoints s" "campaigns s' = campaigns s"
proof -
  obtain p chs' where p: "tenant_proposal user i s = Some p" "\<not> prop_is_accepted p"
    and r: "p' = p\<lparr>prop_payload := dict_set (prop_payload p) ''channels'' (JArr chs')\<rparr>"
    "s' = write_audit e (prop_tenant_id p) ''strategy_proposal'' (prop_id p) ''overridden'' (Some (SnapProposal p)) (Some (SnapProposal p'))
       [(''channels'', JArr (map (JStr \<circ> py_lower \<circ> co_platform) overrides))]
       (modify_proposal (prop_id p) (\<lambda>q. q\<lparr>prop_payload := dict_set (prop_payload p) ''channels'' (JArr chs')\<rparr>) s)"
    using assms by (auto simp: patch_strategy_overrides_def Let_def split: option.splits sum.splits if_splits)
  have "p \<in> set (proposals s)" "prop_id p = i" using p(1) by (auto simp: tenant_proposal_def dest: find_row_Some)
  then show thesis using that [of p] p(2) r by (simp add: modify_proposal_def)
qed

definition seeded_row :: "uuid \<Rightarrow> uuid \<Rightarrow> planned_touchpoint \<Rightarrow> strategy_touchpoint \<Rightarrow> bool" where
  "seeded_row tenant proposal t r \<longleftrightarrow> r = touchpoint_row tenant proposal t (tp_id r)"

lemma insert_touchpoints_effect:
  "for_each (insert_touchpoint tenant proposal) ts s = Inr s' \<Longrightarrow>
     \<exists>n rows. s' = s\<lparr>db_seq := n, touchpoints := touchpoints s @ rows\<rparr> \<and> list_all2 (seeded_row tenant proposal) ts rows"
proof (induction ts arbitrary: s)
  case Nil
  then show ?case by (intro exI [of _ "db_seq s"] exI [of _ "[]"]) simp
next
  case (Cons t ts)
  let ?r = "touchpoint_row tenant proposal t (db_gen s (db_seq s))"
  obtain s1 where 1: "insert_touchpoint tenant proposal t s = Inr s1" "for_each (insert_touchpoint tenant proposal) ts s1 = Inr s'"
    using Cons.prems by (auto split: sum.splits)
  have "s1 = s\<lparr>db_seq := Suc (db_seq s), touchpoints := touchpoints s @ [?r]\<rparr>"
    using 1(1) by (auto simp: insert_touchpoint_def fresh_uuid_def split: if_splits)
  with 1(2) have "for_each (insert_touchpoint tenant proposal) ts (s\<lparr>db_seq := Suc (db_seq s), touchpoints := touchpoints s @ [?r]\<rparr>) = Inr s'"
    by simp
  from Cons.IH [OF this] obtain n rows where
    "s' = s\<lparr>db_seq := n, touchpoints := touchpoints s @ ?r # rows\<rparr>" "list_all2 (seeded_row tenant proposal) ts rows" by auto
  moreover have "seeded_row tenant proposal t ?r" by (simp add: seeded_row_def touchpoint_row_def)
  ultimately show ?case by (intro exI [of _ n] exI [of _ "?r # rows"]) simp
qed

lemma seed_calendar_effect:
  assumes "seed_calendar p s = Inr s'"
  obtains camp aud planned n rows where "get_campaign (prop_campaign_id p) s = Some camp" "latest_audience (camp_id camp) s = Some aud"
    "generate_calendar (prop_payload p) (camp_start_date camp) (camp_end_date camp) (aud_id aud) (hard_caps_of (camp_tenant_id camp) s) = Inr planned"
    "s' = s\<lparr>db_seq := n, touchpoints := touchpoints s @ rows\<rparr>"
    "list_all2 (seeded_row (camp_tenant_id camp) (prop_id p)) (detect_frequency_warnings default_frequency_cap default_frequency_window planned) rows"
proof -
  obtain camp aud planned where c: "get_campaign (prop_campaign_id p) s = Some camp" "latest_audience (camp_id camp) s = Some aud"
    "generate_calendar (prop_payload p) (camp_start_date camp) (camp_end_date camp) (aud_id aud) (hard_caps_of (camp_tenant_id camp) s) = Inr planned"
    and l: "for_each (insert_touchpoint (camp_tenant_id camp) (prop_id p))
       (detect_frequency_warnings default_frequency_cap default_frequency_window planned) s = Inr s'"
    using assms by (auto simp: seed_calendar_def map_sum_def split: option.splits sum.splits)
  from insert_touchpoints_effect [OF l] show thesis using that c by blast
qed

lemma set_strategy_lookup:
  "map_of (campaign_sm tc) (AudienceBuilt, ''set_strategy'') = Some (transition_of ''set_strategy'' AudienceBuilt StrategySet (Some has_accepted_strategy) None)"
  by (simp add: campaign_sm_lookup builtin_transitions_def transition_of_def)

lemma advance_effect:
  assumes "advance_to_strategy_set (campaign_sm tc) e camp s = Inr s'"
  shows "proposals s' = proposals s" "touchpoints s' = touchpoints s"
    "campaigns s' = (if camp_status camp = AudienceBuilt
       then update_where (\<lambda>c. camp_id c = camp_id camp) (\<lambda>c. c\<lparr>camp_status := StrategySet\<rparr>) (campaigns s) else campaigns s)"
  using assms set_strategy_lookup [of tc]
  by (auto simp: advance_to_strategy_set_def apply_transition_def transition_of_def modify_campaign_def Let_def split: if_splits)

lemma advance_total:
  "has_accepted_strategy e camp s \<Longrightarrow> \<exists>s'. advance_to_strategy_set (campaign_sm tc) e camp s = Inr s'"
  using set_strategy_lookup [of tc] by (auto simp: advance_to_strategy_set_def apply_transition_def transition_of_def Let_def)

text \<open>The rows a query of the calendar reads are left alone by the statements before it.\<close>

definition prepared :: "strategy_proposal \<Rightarrow> db \<Rightarrow> db" where
  "prepared p s = modify_proposal (prop_id p) accepted_proposal (drop_calendars p (clear_accepted p s))"

lemma prepared_frame [simp]:
  "get_campaign c (prepared p s) = get_campaign c s" "latest_audience c (prepared p s) = latest_audience c s"
  "hard_caps_of ten (prepared p s) = hard_caps_of ten s" "campaigns (prepared p s) = campaigns s"
  by (simp_all add: prepared_def modify_proposal_def drop_calendars_def clear_accepted_def get_campaign_def latest_audience_def
      hard_caps_of_def constraints_of_def)

text \<open>What an acceptance is: the proposal \<open>p\<close> of campaign \<open>camp\<close> becomes the accepted one with the touches \<open>rows\<close>.\<close>

definition acceptance ::
  "strategy_proposal \<Rightarrow> campaign \<Rightarrow> audience \<Rightarrow> planned_touchpoint list \<Rightarrow> strategy_touchpoint list \<Rightarrow> db \<Rightarrow> db \<Rightarrow> bool" where
  "acceptance p camp aud planned rows s s' \<longleftrightarrow>
     get_campaign (prop_campaign_id p) s = Some camp \<and> latest_audience (camp_id camp) s = Some aud
     \<and> generate_calendar (prop_payload p) (camp_start_date camp) (camp_end_date camp) (aud_id aud) (hard_caps_of (camp_tenant_id camp) s) = Inr planned
     \<and> list_all2 (seeded_row (camp_tenant_id camp) (prop_id p)) (detect_frequency_warnings default_frequency_cap default_frequency_window planned) rows
     \<and> proposals s' = proposals (prepared p s) \<and> touchpoints s' = touchpoints (prepared p s) @ rows
     \<and> campaigns s' = (if camp_status camp = AudienceBuilt
         then update_where (\<lambda>c. camp_id c = camp_id camp) (\<lambda>c. c\<lparr>camp_status := StrategySet\<rparr>) (campaigns s) else campaigns s)"

lemma accept_effect:
  assumes "accept_strategy (campaign_sm tc) e user i s = Inr (p', s')" "tenant_proposal user i s = Some p" "\<not> prop_is_accepted p"
  obtains camp aud planned rows where "p' = accepted_proposal p" "acceptance p camp aud planned rows s s'"
proof -
  obtain camp s1 where c: "tenant_campaign user (prop_campaign_id p) s = Some camp" "seed_calendar (accepted_proposal p) (prepared p s) = Inr s1"
    and a: "advance_to_strategy_set (campaign_sm tc) e camp (write_audit e (prop_tenant_id p) ''strategy_proposal'' (prop_id p) ''accepted''
       (Some (SnapProposal p)) (Some (SnapProposal (accepted_proposal p)))
       [(''campaign_id'', JStr (uuid_str (prop_campaign_id p))), (''version'', JInt (prop_version p))] s1) = Inr s'"
    and p': "p' = accepted_proposal p"
  proof -
    note d = assms(1) [unfolded accept_strategy_def assms(2) prepared_def [symmetric]]
    obtain u where 1: "require_role Marketer user = Inr u" using d by (cases "require_role Marketer user") simp_all
    obtain camp where 2: "tenant_campaign user (prop_campaign_id p) s = Some camp"
      using d 1 assms(3) by (cases "tenant_campaign user (prop_campaign_id p) s") simp_all
    obtain s1 where 3: "seed_calendar (accepted_proposal p) (prepared p s) = Inr s1"
      using d 1 2 assms(3) by (cases "seed_calendar (accepted_proposal p) (prepared p s)") simp_all
    show thesis using that [OF 2 3] d 1 2 3 assms(3) by simp
  qed
  have g: "get_campaign (prop_campaign_id p) s = Some camp" using c(1) by (auto simp: tenant_campaign_def split: option.splits if_splits)
  have ap: "prop_campaign_id (accepted_proposal p) = prop_campaign_id p" "prop_payload (accepted_proposal p) = prop_payload p"
    "prop_id (accepted_proposal p) = prop_id p" by (simp_all add: accepted_proposal_def)
  obtain camp' aud planned n rows where l: "get_campaign (prop_campaign_id p) s = Some camp'" "latest_audience (camp_id camp') s = Some aud"
    "generate_calendar (prop_payload p) (camp_start_date camp') (camp_end_date camp') (aud_id aud) (hard_caps_of (camp_tenant_id camp') s) = Inr planned"
    "s1 = (prepared p s)\<lparr>db_seq := n, touchpoints := touchpoints (prepared p s) @ rows\<rparr>"
    "list_all2 (seeded_row (camp_tenant_id camp') (prop_id p)) (detect_frequency_warnings default_frequency_cap default_frequency_window planned) rows"
    by (rule seed_calendar_effect [OF c(2), unfolded ap prepared_frame])
  have "camp' = camp" using l(1) g by simp
  then have "acceptance p camp aud planned rows s s'"
    unfolding acceptance_def using l advance_effect [OF a] by simp
  then show thesis using that p' by blast
qed

section \<open>Calendars keep the hard caps\<close>

definition caps_kept :: "dict list \<Rightarrow> planned_touchpoint list \<Rightarrow> bool" where
  "caps_kept caps tps \<longleftrightarrow>
     (\<forall>cap\<in>set caps. \<forall>p w l start. cap_terms cap = Some (p, w, l) \<longrightarrow> int (touches_in p w start tps) \<le> l)"

lemma enforced_caps_kept:
  assumes "enforce_hard_caps tps caps = Inr x"
  shows "caps_kept caps tps"
proof (cases "tps = [] \<or> caps = []")
  case True
  then show ?thesis by (auto simp: caps_kept_def touches_in_def cap_terms_def split: option.splits if_splits)
next
  case False
  then have "List.map_filter (cap_violation tps) caps = []"
    using assms by (auto simp: enforce_hard_caps_def split: list.splits)
  then have "\<not> (\<exists>cap\<in>set caps. cap_violation tps cap \<noteq> None)" by (simp add: map_filter_eq_Nil)
  then show ?thesis unfolding caps_kept_def cap_violation_iff by (meson not_le)
qed

text \<open>The caps look at platforms and times only.\<close>

abbreviation slot :: "planned_touchpoint \<Rightarrow> string \<times> instant" where
  "slot t \<equiv> (pt_channel_platform t, pt_scheduled_at t)"

lemma touches_in_slots: "touches_in p w start tps = length (filter (\<lambda>(q, x). q = p \<and> start \<le> x \<and> x < start + w) (map slot tps))"
  by (induction tps) (auto simp: touches_in_def)

lemma caps_kept_slots: "map slot tps = map slot tps' \<Longrightarrow> caps_kept caps tps = caps_kept caps tps'"
  by (simp add: caps_kept_def touches_in_slots)

lemma detect_slots [simp]: "map slot (detect_frequency_warnings cap w tps) = map slot tps"
proof (rule nth_equalityI)
  show "length (map slot (detect_frequency_warnings cap w tps)) = length (map slot tps)" by (simp add: detect_frequency_warnings_def)
next
  fix i assume "i < length (map slot (detect_frequency_warnings cap w tps))"
  then have i: "i < length tps" by (simp add: detect_frequency_warnings_def)
  obtain n where "detect_frequency_warnings cap w tps ! i =
      (tps ! i)\<lparr>pt_frequency_warning := (if cap < neighbours tps w i then Some (frequency_warning cap w n) else None)\<rparr>"
    using detect_at [OF i] .
  then show "map slot (detect_frequency_warnings cap w tps) ! i = map slot tps ! i"
    using i by (simp add: detect_frequency_warnings_def)
qed

lemma seeded_row_fields:
  assumes "seeded_row tenant proposal t r"
  shows "tp_proposal_id r = proposal" "tp_channel_platform r = pt_channel_platform t" "tp_scheduled_at r = pt_scheduled_at t"
    "tp_audience_id r = pt_audience_id t" "tp_frequency_warning r = pt_frequency_warning t"
proof -
  obtain i where "r = touchpoint_row tenant proposal t i" using assms unfolding seeded_row_def by blast
  then show "tp_proposal_id r = proposal" "tp_channel_platform r = pt_channel_platform t" "tp_scheduled_at r = pt_scheduled_at t"
    "tp_audience_id r = pt_audience_id t" "tp_frequency_warning r = pt_frequency_warning t"
    by (simp_all add: touchpoint_row_def)
qed

lemma seeded_slots: "list_all2 (seeded_row tenant proposal) ts rows \<Longrightarrow> map slot (map planned_of rows) = map slot ts"
  by (induction rule: list_all2_induct) (simp_all add: seeded_row_fields planned_of_def)

lemma generated_caps_kept: "generate_calendar payload sd ed a caps = Inr out \<Longrightarrow> caps_kept caps out"
  by (auto simp: generate_calendar_def Let_def split: option.splits sum.splits dest: enforced_caps_kept)

section \<open>Proposals of a campaign\<close>

text \<open>The table's invariant: identifiers and the versions of a campaign are unique, a campaign has at most one accepted
  proposal, and only accepted proposals have a calendar.\<close>

definition strategy_inv :: "db \<Rightarrow> bool" where
  "strategy_inv s \<longleftrightarrow> distinct (map prop_id (proposals s))
     \<and> distinct (map (\<lambda>p. (prop_campaign_id p, prop_version p)) (proposals s))
     \<and> (\<forall>p\<in>set (proposals s). \<forall>q\<in>set (proposals s). prop_is_accepted p \<longrightarrow> prop_is_accepted q
          \<longrightarrow> prop_campaign_id p = prop_campaign_id q \<longrightarrow> prop_id p = prop_id q)
     \<and> (\<forall>t\<in>set (touchpoints s). \<exists>p\<in>set (proposals s). prop_id p = tp_proposal_id t \<and> prop_is_accepted p)"

datatype strategy_op =
    SoPropose uuid
  | SoOverride uuid "channel_override list"
  | SoAccept uuid
  | SoMove uuid instant bool

text \<open>One committed request or task; the identifier generator delivers unused identifiers.\<close>

inductive strategy_step :: "strategy_op \<Rightarrow> db \<Rightarrow> db \<Rightarrow> bool" where
  step_propose: "propose client loads e camp triggered_by s = Inr (out, s') \<Longrightarrow> \<forall>n\<ge>db_seq s. db_gen s n \<notin> prop_id ` set (proposals s)
    \<Longrightarrow> strategy_step (SoPropose camp) s s'"
| step_override: "patch_strategy_overrides e user i overrides s = Inr (p, s') \<Longrightarrow> strategy_step (SoOverride i overrides) s s'"
| step_accept: "accept_strategy (campaign_sm tc) e user i s = Inr (p, s') \<Longrightarrow> strategy_step (SoAccept i) s s'"
| step_move: "patch_touchpoint e user i when by_human s = Inr (t, s') \<Longrightarrow> strategy_step (SoMove i when by_human) s s'"

lemma prepared_proposals:
  "proposals (prepared p s) = map (\<lambda>q. if prop_id q = prop_id p then accepted_proposal q
     else if prop_campaign_id q = prop_campaign_id p then q\<lparr>prop_is_accepted := False\<rparr> else q) (proposals s)"
proof -
  have u: "q = q\<lparr>prop_is_accepted := False\<rparr>" if "\<not> prop_is_accepted q" for q :: strategy_proposal using that by (cases q) simp
  show ?thesis
    by (auto simp: prepared_def modify_proposal_def drop_calendars_def clear_accepted_def update_where_def intro: u)
qed

lemma list_ex_update_where: "(\<And>r. P (f r) = P r) \<Longrightarrow> list_ex P (update_where Q f rows) = list_ex P rows"
  by (induction rows) auto

lemma prepared_touchpoints:
  "t \<in> set (touchpoints (prepared p s)) \<longleftrightarrow> t \<in> set (touchpoints s)
     \<and> (\<forall>q\<in>set (proposals s). prop_id q = tp_proposal_id t \<longrightarrow> prop_campaign_id q = prop_campaign_id p \<longrightarrow> prop_id q = prop_id p)"
  by (simp add: prepared_def modify_proposal_def drop_calendars_def clear_accepted_def list_ex_update_where) (auto simp: list_ex_iff)

lemma fold_modify_touchpoint:
  "distinct (map tp_id rows) \<Longrightarrow> length rows = length fs \<Longrightarrow>
   touchpoints (fold (\<lambda>(row, fresh). modify_touchpoint (tp_id row) (\<lambda>t. t\<lparr>tp_frequency_warning := pt_frequency_warning fresh\<rparr>)) (zip rows fs) s)
     = map (\<lambda>t. case map_of (zip (map tp_id rows) fs) (tp_id t) of None \<Rightarrow> t | Some f \<Rightarrow> t\<lparr>tp_frequency_warning := pt_frequency_warning f\<rparr>) (touchpoints s)"
proof (induction rows arbitrary: fs s)
  case (Cons r rows)
  obtain f fs' where fs: "fs = f # fs'" using Cons.prems(2) by (cases fs) auto
  have d: "distinct (map tp_id rows)" "length rows = length fs'" "tp_id r \<notin> set (map tp_id rows)" using Cons.prems fs by auto
  then have n: "map_of (zip (map tp_id rows) fs') (tp_id r) = None" by simp
  show ?case unfolding fs using Cons.IH [OF d(1,2)] n
    by (auto simp: modify_touchpoint_def update_where_def split: option.splits)
qed simp

lemma fold_modify_touchpoint_frame:
  "proposals (fold (\<lambda>(row, fresh). modify_touchpoint (tp_id row) (\<lambda>t. t\<lparr>tp_frequency_warning := pt_frequency_warning fresh\<rparr>)) zs s) = proposals s"
  "campaigns (fold (\<lambda>(row, fresh). modify_touchpoint (tp_id row) (\<lambda>t. t\<lparr>tp_frequency_warning := pt_frequency_warning fresh\<rparr>)) zs s) = campaigns s"
  "tenant_constraints (fold (\<lambda>(row, fresh). modify_touchpoint (tp_id row) (\<lambda>t. t\<lparr>tp_frequency_warning := pt_frequency_warning fresh\<rparr>)) zs s) = tenant_constraints s"
  by (induction zs arbitrary: s) (auto simp: modify_touchpoint_def)

lemma re_evaluate_frame [simp]:
  "proposals (re_evaluate_warnings i s) = proposals s" "campaigns (re_evaluate_warnings i s) = campaigns s"
  "tenant_constraints (re_evaluate_warnings i s) = tenant_constraints s"
  by (simp_all add: re_evaluate_warnings_def Let_def fold_modify_touchpoint_frame)

text \<open>Without distinct identifiers: a re-evaluation changes warnings only.\<close>

definition unwarned :: "strategy_touchpoint \<Rightarrow> strategy_touchpoint" where
  "unwarned t = t\<lparr>tp_frequency_warning := None\<rparr>"

lemma re_evaluate_unwarned: "map unwarned (touchpoints (re_evaluate_warnings i s)) = map unwarned (touchpoints s)"
proof -
  have "map unwarned (touchpoints (fold (\<lambda>(row, fresh). modify_touchpoint (tp_id row) (\<lambda>t. t\<lparr>tp_frequency_warning := pt_frequency_warning fresh\<rparr>)) zs s))
      = map unwarned (touchpoints s)" for zs s
    by (induction zs arbitrary: s) (auto simp: modify_touchpoint_def update_where_def unwarned_def)
  then show ?thesis by (simp add: re_evaluate_warnings_def Let_def)
qed

lemma map_filter_agree:
  assumes "map f xs = map f ys" "\<And>x y. f x = f y \<Longrightarrow> P x = P y \<and> g x = g y"
  shows "map g (filter P xs) = map g (filter P ys)"
  using map_eq_imp_length_eq [OF assms(1)] assms(1) by (induction xs ys rule: list_induct2) (auto dest: assms(2))

lemma unwarned_eq:
  "unwarned x = unwarned y \<Longrightarrow> tp_id x = tp_id y \<and> tp_proposal_id x = tp_proposal_id y \<and> tp_tenant_id x = tp_tenant_id y
     \<and> tp_audience_id x = tp_audience_id y \<and> tp_scheduled_at x = tp_scheduled_at y \<and> tp_human_override x = tp_human_override y
     \<and> planned_of x = planned_of y"
  by (cases x; cases y) (simp add: unwarned_def planned_of_def)

lemma patch_touchpoint_effect:
  assumes "patch_touchpoint e user i when by_human s = Inr (t', s')"
  obtains t p where "t \<in> set (touchpoints s)" "tp_id t = i" "tenant_proposal user (tp_proposal_id t) s = Some p"
    "caps_kept (hard_caps_of (prop_tenant_id p) s) (map planned_of (touches_of (tp_proposal_id t) (modify_touchpoint i (moved when by_human) s)))"
    "touchpoints s' = touchpoints (re_evaluate_warnings (tp_proposal_id t) (modify_touchpoint i (moved when by_human) s))"
    "find_row (\<lambda>r. tp_id r = i) (touchpoints s') = Some t'" "proposals s' = proposals s" "campaigns s' = campaigns s"
proof -
  let ?s1 = "modify_touchpoint i (moved when by_human) s"
  note d = assms [unfolded patch_touchpoint_def Let_def]
  obtain u where 1: "require_role Marketer user = Inr u" using d by (cases "require_role Marketer user") simp_all
  obtain t where 2: "find_row (\<lambda>t. tp_id t = i \<and> tp_tenant_id t = user_tenant_id user) (touchpoints s) = Some t"
    using d 1 by (cases "find_row (\<lambda>t. tp_id t = i \<and> tp_tenant_id t = user_tenant_id user) (touchpoints s)") simp_all
  obtain p where 3: "tenant_proposal user (tp_proposal_id t) s = Some p"
    using d 1 2 by (cases "tenant_proposal user (tp_proposal_id t) s") simp_all
  obtain x where 4: "enforce_hard_caps (map planned_of (touches_of (tp_proposal_id t) ?s1)) (hard_caps_of (prop_tenant_id p) ?s1) = Inr x"
    using d 1 2 3 by (cases "enforce_hard_caps (map planned_of (touches_of (tp_proposal_id t) ?s1)) (hard_caps_of (prop_tenant_id p) ?s1)") simp_all
  obtain r where 5: "find_row (\<lambda>r. tp_id r = i) (touchpoints (re_evaluate_warnings (tp_proposal_id t) ?s1)) = Some r"
    using d 1 2 3 4 by (cases "find_row (\<lambda>r. tp_id r = i) (touchpoints (re_evaluate_warnings (tp_proposal_id t) ?s1))") simp_all
  have r: "r = t'" and s': "s' = write_audit e (tp_tenant_id t) ''strategy_touchpoint'' (tp_id t) ''moved'' (Some (SnapTouchpoint t)) (Some (SnapTouchpoint t'))
      [(''proposal_id'', JStr (uuid_str (tp_proposal_id t)))] (re_evaluate_warnings (tp_proposal_id t) ?s1)"
    using d 1 2 3 4 5 by auto
  have "hard_caps_of ten ?s1 = hard_caps_of ten s" for ten by (simp add: hard_caps_of_def constraints_of_def modify_touchpoint_def)
  then have c: "caps_kept (hard_caps_of (prop_tenant_id p) s) (map planned_of (touches_of (tp_proposal_id t) ?s1))"
    using enforced_caps_kept [OF 4] by simp
  have t: "t \<in> set (touchpoints s)" "tp_id t = i" using find_row_Some [OF 2] by auto
  show thesis by (rule that [OF t 3 c]) (use s' r 5 in \<open>simp_all add: modify_touchpoint_def\<close>)
qed

section \<open>Warnings after a move\<close>

lemma length_filter_nth: "length (filter (\<lambda>j. P (xs ! j)) [0..<length xs]) = length (filter P xs)"
proof -
  have "filter P xs = filter P (map (nth xs) [0..<length xs])" by (simp add: map_nth)
  also have "\<dots> = map (nth xs) (filter (\<lambda>j. P (xs ! j)) [0..<length xs])" by (simp add: filter_map comp_def)
  finally show ?thesis by simp
qed

lemma neighbours_rows:
  assumes "k < length rows"
  shows "neighbours (map planned_of rows) w k
    = length (filter (\<lambda>r. tp_audience_id r = tp_audience_id (rows ! k) \<and> \<bar>tp_scheduled_at r - tp_scheduled_at (rows ! k)\<bar> < w) rows)"
proof -
  have "neighbours (map planned_of rows) w k = length (filter (\<lambda>j. tp_audience_id (rows ! j) = tp_audience_id (rows ! k)
      \<and> \<bar>tp_scheduled_at (rows ! j) - tp_scheduled_at (rows ! k)\<bar> < w) [0..<length rows])"
    unfolding neighbours_def using assms by (intro arg_cong [where f = length] filter_cong) (auto simp: near_def planned_of_def)
  then show ?thesis
    using length_filter_nth [of "\<lambda>r. tp_audience_id r = tp_audience_id (rows ! k) \<and> \<bar>tp_scheduled_at r - tp_scheduled_at (rows ! k)\<bar> < w" rows] by simp
qed

text \<open>The touches of an audience less than a window away from \<open>t\<close>.\<close>

definition crowd :: "duration \<Rightarrow> strategy_touchpoint list \<Rightarrow> strategy_touchpoint \<Rightarrow> nat" where
  "crowd w rows t = length (filter (\<lambda>r. tp_audience_id r = tp_audience_id t \<and> \<bar>tp_scheduled_at r - tp_scheduled_at t\<bar> < w) rows)"

lemma re_evaluate_exact:
  assumes "distinct (map tp_id (touchpoints s))" "t \<in> set (touches_of i (re_evaluate_warnings i s))"
  shows "tp_frequency_warning t \<noteq> None \<longleftrightarrow> default_frequency_cap < crowd default_frequency_window (touches_of i (re_evaluate_warnings i s)) t"
proof -
  let ?rows = "sort_key tp_scheduled_at (touches_of i s)"
  let ?fs = "detect_frequency_warnings default_frequency_cap default_frequency_window (map planned_of ?rows)"
  define W :: "strategy_touchpoint \<Rightarrow> strategy_touchpoint" where "W = (\<lambda>t. case map_of (zip (map tp_id ?rows) ?fs) (tp_id t) of None \<Rightarrow> t | Some f \<Rightarrow> t\<lparr>tp_frequency_warning := pt_frequency_warning f\<rparr>)"
  have d: "distinct (map tp_id ?rows)" using assms(1) by (simp add: touches_of_def distinct_map inj_on_def)
  have l: "length ?rows = length ?fs" by (simp add: detect_frequency_warnings_def)
  have Weq: "touchpoints (re_evaluate_warnings i s) = map W (touchpoints s)"
    unfolding re_evaluate_warnings_def Let_def W_def by (rule fold_modify_touchpoint [OF d l])
  have Wf: "tp_proposal_id (W r) = tp_proposal_id r" "tp_audience_id (W r) = tp_audience_id r" "tp_scheduled_at (W r) = tp_scheduled_at r" for r
    by (auto simp: W_def split: option.splits)
  have to: "touches_of i (re_evaluate_warnings i s) = map W (touches_of i s)"
    unfolding touches_of_def Weq by (simp add: filter_map comp_def Wf)
  then obtain r where r: "r \<in> set (touches_of i s)" "t = W r" using assms(2) by auto
  then obtain k where k: "k < length ?rows" "?rows ! k = r" by (metis in_set_conv_nth set_sort)
  have "map_of (zip (map tp_id ?rows) ?fs) (map tp_id ?rows ! k) = Some (?fs ! k)" by (rule map_of_zip_nth) (use d l k in auto)
  then have m: "map_of (zip (map tp_id ?rows) ?fs) (tp_id r) = Some (?fs ! k)" using k by (simp del: length_sort)
  have kp: "k < length (map planned_of ?rows)" using k by simp
  obtain n where "?fs ! k = (map planned_of ?rows ! k)\<lparr>pt_frequency_warning :=
      (if default_frequency_cap < neighbours (map planned_of ?rows) default_frequency_window k then Some (frequency_warning default_frequency_cap default_frequency_window n) else None)\<rparr>"
    using detect_at [OF kp] .
  then have "tp_frequency_warning t \<noteq> None \<longleftrightarrow> default_frequency_cap < neighbours (map planned_of ?rows) default_frequency_window k"
    using r(2) m by (simp add: W_def)
  also have "neighbours (map planned_of ?rows) default_frequency_window k = crowd default_frequency_window ?rows r"
    unfolding neighbours_rows [OF k(1)] k(2) crowd_def ..
  also have "crowd default_frequency_window ?rows r = crowd default_frequency_window (touches_of i s) r"
    by (simp add: crowd_def filter_sort)
  also have "\<dots> = crowd default_frequency_window (touches_of i (re_evaluate_warnings i s)) t"
    unfolding to r(2) crowd_def by (simp add: filter_map comp_def Wf)
  finally show ?thesis .
qed

section \<open>The theorems\<close>

lemma strategy_inv_ids:
  assumes "strategy_inv s" "p \<in> set (proposals s)" "q \<in> set (proposals s)" "prop_id p = prop_id q"
  shows "p = q"
  using assms by (auto simp: strategy_inv_def distinct_map inj_on_def)

lemma tenant_proposal_row: "tenant_proposal user i s = Some p \<Longrightarrow> p \<in> set (proposals s) \<and> prop_id p = i"
  by (auto simp: tenant_proposal_def dest: find_row_Some)

lemma no_calendar_before:
  assumes "strategy_inv s" "p \<in> set (proposals s)" "\<not> prop_is_accepted p"
  shows "touches_of (prop_id p) s = []"
proof (rule ccontr)
  assume "touches_of (prop_id p) s \<noteq> []"
  then obtain t where t: "t \<in> set (touchpoints s)" "tp_proposal_id t = prop_id p" by (auto simp: touches_of_def filter_empty_conv)
  then obtain q where "q \<in> set (proposals s)" "prop_id q = prop_id p" "prop_is_accepted q" using assms(1) unfolding strategy_inv_def by metis
  then show False using strategy_inv_ids [OF assms(1,2)] assms(3) by metis
qed

lemma acceptance_accepted:
  assumes "strategy_inv s" "p \<in> set (proposals s)" "acceptance p camp aud planned rows s s'"
  shows "q \<in> set (proposals s') \<and> prop_is_accepted q \<and> prop_campaign_id q = prop_campaign_id p \<longleftrightarrow> q = accepted_proposal p"
proof -
  have P: "proposals s' = map (\<lambda>q. if prop_id q = prop_id p then accepted_proposal q
     else if prop_campaign_id q = prop_campaign_id p then q\<lparr>prop_is_accepted := False\<rparr> else q) (proposals s)"
    using assms(3) by (simp add: acceptance_def prepared_proposals)
  show ?thesis
  proof
    assume "q \<in> set (proposals s') \<and> prop_is_accepted q \<and> prop_campaign_id q = prop_campaign_id p"
    then obtain q0 where q0: "q0 \<in> set (proposals s)" "prop_id q0 = prop_id p" "q = accepted_proposal q0"
      unfolding P by (auto split: if_splits)
    then show "q = accepted_proposal p" using strategy_inv_ids [OF assms(1) q0(1) assms(2)] by simp
  next
    assume "q = accepted_proposal p"
    then show "q \<in> set (proposals s') \<and> prop_is_accepted q \<and> prop_campaign_id q = prop_campaign_id p"
      unfolding P using assms(2) by (auto simp: accepted_proposal_def image_iff)
  qed
qed

lemma acceptance_touches:
  assumes "strategy_inv s" "p \<in> set (proposals s)" "\<not> prop_is_accepted p" "acceptance p camp aud planned rows s s'"
  shows "touches_of (prop_id p) s' = rows"
    and "\<forall>q\<in>set (proposals s). prop_campaign_id q = prop_campaign_id p \<longrightarrow> prop_id q \<noteq> prop_id p \<longrightarrow> touches_of (prop_id q) s' = []"
proof -
  have T: "touchpoints s' = touchpoints (prepared p s) @ rows" and l: "list_all2 (seeded_row (camp_tenant_id camp) (prop_id p))
      (detect_frequency_warnings default_frequency_cap default_frequency_window planned) rows"
    using assms(4) by (simp_all add: acceptance_def)
  have own: "\<forall>r\<in>set rows. tp_proposal_id r = prop_id p"
    using l by (auto simp: list_all2_conv_all_nth in_set_conv_nth dest!: seeded_row_fields(1))
  have "touches_of (prop_id p) (prepared p s) = []"
    using no_calendar_before [OF assms(1-3)] by (auto simp: touches_of_def filter_empty_conv prepared_touchpoints)
  then show "touches_of (prop_id p) s' = rows" using own by (simp add: touches_of_def T)
  show "\<forall>q\<in>set (proposals s). prop_campaign_id q = prop_campaign_id p \<longrightarrow> prop_id q \<noteq> prop_id p \<longrightarrow> touches_of (prop_id q) s' = []"
    using own by (auto simp: touches_of_def T filter_empty_conv prepared_touchpoints)
qed

text \<open>C25. Accepting a proposal makes it the only accepted one of its campaign, removes the calendars of the campaign's other
  proposals, and gives it exactly the touches the calendar generator lays out for the latest audience, with the frequency
  warnings of the detector and within every hard cap of the tenant. A campaign whose audience was built moves on to
  strategy set, a campaign further along keeps its status.\<close>

theorem accept_strategy_correct:
  assumes "accept_strategy (campaign_sm tc) e user i s = Inr (p', s')" "tenant_proposal user i s = Some p" "\<not> prop_is_accepted p"
    and "strategy_inv s"
  shows "\<exists>camp aud planned. get_campaign (prop_campaign_id p) s = Some camp \<and> latest_audience (camp_id camp) s = Some aud
    \<and> (\<forall>q. q \<in> set (proposals s') \<and> prop_is_accepted q \<and> prop_campaign_id q = prop_campaign_id p \<longleftrightarrow> q = p') \<and> p' = accepted_proposal p
    \<and> (\<forall>q\<in>set (proposals s). prop_campaign_id q = prop_campaign_id p \<longrightarrow> prop_id q \<noteq> i \<longrightarrow> touches_of (prop_id q) s' = [])
    \<and> generate_calendar (prop_payload p) (camp_start_date camp) (camp_end_date camp) (aud_id aud) (hard_caps_of (camp_tenant_id camp) s) = Inr planned
    \<and> list_all2 (seeded_row (camp_tenant_id camp) i) (detect_frequency_warnings default_frequency_cap default_frequency_window planned) (touches_of i s')
    \<and> caps_kept (hard_caps_of (camp_tenant_id camp) s) (map planned_of (touches_of i s'))
    \<and> campaigns s' = (if camp_status camp = AudienceBuilt
        then update_where (\<lambda>c. camp_id c = camp_id camp) (\<lambda>c. c\<lparr>camp_status := StrategySet\<rparr>) (campaigns s) else campaigns s)"
proof -
  note p = tenant_proposal_row [OF assms(2)]
  obtain camp aud planned rows where p': "p' = accepted_proposal p" and a: "acceptance p camp aud planned rows s s'"
    by (rule accept_effect [OF assms(1-3)])
  note t = acceptance_touches [OF assms(4) _ assms(3) a]
  have rows: "touches_of i s' = rows" using t(1) p by blast
  have l: "list_all2 (seeded_row (camp_tenant_id camp) i) (detect_frequency_warnings default_frequency_cap default_frequency_window planned) rows"
    and g: "generate_calendar (prop_payload p) (camp_start_date camp) (camp_end_date camp) (aud_id aud) (hard_caps_of (camp_tenant_id camp) s) = Inr planned"
    using a p by (simp_all add: acceptance_def)
  have "caps_kept (hard_caps_of (camp_tenant_id camp) s) (map planned_of rows)"
    using generated_caps_kept [OF g] caps_kept_slots [OF seeded_slots [OF l, unfolded detect_slots]] by simp
  then show ?thesis
    using a p p' g l t(2) acceptance_accepted [OF assms(4) _ a] rows
    by (intro exI [of _ camp] exI [of _ aud] exI [of _ planned]) (simp add: acceptance_def)
qed

text \<open>C30. Dragging a touchpoint moves that touchpoint and no other, keeps every hard cap of the tenant, and leaves each touch of
  the proposal flagged exactly when more than three touches of its audience lie within seven days of it.\<close>

theorem patch_touchpoint_correct:
  assumes "patch_touchpoint e user i when by_human s = Inr (t', s')" "distinct (map tp_id (touchpoints s))"
  shows "tp_id t' = i \<and> tp_scheduled_at t' = when \<and> tp_human_override t' = by_human
    \<and> map unwarned (touchpoints s') = map (\<lambda>t. if tp_id t = i then unwarned (moved when by_human t) else unwarned t) (touchpoints s)
    \<and> (\<exists>p\<in>set (proposals s). prop_id p = tp_proposal_id t'
         \<and> caps_kept (hard_caps_of (prop_tenant_id p) s) (map planned_of (touches_of (prop_id p) s')))
    \<and> (\<forall>t\<in>set (touches_of (tp_proposal_id t') s'). tp_frequency_warning t \<noteq> None \<longleftrightarrow> 3 < crowd (days 7) (touches_of (tp_proposal_id t') s') t)"
proof -
  let ?s1 = "modify_touchpoint i (moved when by_human) s"
  obtain t p where t: "t \<in> set (touchpoints s)" "tp_id t = i" "tenant_proposal user (tp_proposal_id t) s = Some p"
    and c: "caps_kept (hard_caps_of (prop_tenant_id p) s) (map planned_of (touches_of (tp_proposal_id t) ?s1))"
    and T: "touchpoints s' = touchpoints (re_evaluate_warnings (tp_proposal_id t) ?s1)" and f: "find_row (\<lambda>r. tp_id r = i) (touchpoints s') = Some t'"
    by (rule patch_touchpoint_effect [OF assms(1)])
  have s1: "touchpoints ?s1 = map (\<lambda>t. if tp_id t = i then moved when by_human t else t) (touchpoints s)"
    by (simp add: modify_touchpoint_def update_where_def)
  have u: "map unwarned (touchpoints s') = map unwarned (touchpoints ?s1)" unfolding T by (rule re_evaluate_unwarned)
  have "t' \<in> set (touchpoints s')" "tp_id t' = i" using find_row_Some [OF f] by auto
  then obtain r where r: "r \<in> set (touchpoints ?s1)" "unwarned r = unwarned t'"
    using u by (metis (no_types, lifting) imageE image_eqI list.set_map)
  then obtain t0 where t0: "t0 \<in> set (touchpoints s)" "tp_id t0 = i" "r = moved when by_human t0"
    using unwarned_eq [OF r(2)] \<open>tp_id t' = i\<close> unfolding s1 by (auto simp: moved_def split: if_splits)
  have "t0 = t" using t0(1,2) t(1,2) assms(2) by (auto simp: distinct_map inj_on_def)
  then have t': "tp_id t' = i" "tp_scheduled_at t' = when" "tp_human_override t' = by_human" "tp_proposal_id t' = tp_proposal_id t"
    using unwarned_eq [OF r(2)] t0(2,3) by (simp_all add: moved_def)
  have d: "distinct (map tp_id (touchpoints ?s1))"
    using assms(2) unfolding s1 by (simp add: comp_def moved_def if_distrib cong: if_cong)
  have pl: "map planned_of (touches_of (tp_proposal_id t) s') = map planned_of (touches_of (tp_proposal_id t) ?s1)"
    unfolding touches_of_def by (rule map_filter_agree [OF u]) (use unwarned_eq in metis)
  have to: "touches_of j s' = touches_of j (re_evaluate_warnings (tp_proposal_id t) ?s1)" for j by (simp add: touches_of_def T)
  have "tp_frequency_warning x \<noteq> None \<longleftrightarrow> 3 < crowd (days 7) (touches_of (tp_proposal_id t) s') x" if "x \<in> set (touches_of (tp_proposal_id t) s')" for x
    using re_evaluate_exact [OF d that [unfolded to]] unfolding to default_frequency_cap_def default_frequency_window_def .
  moreover have "map unwarned (touchpoints ?s1) = map (\<lambda>t. if tp_id t = i then unwarned (moved when by_human t) else unwarned t) (touchpoints s)"
    unfolding s1 by simp
  moreover have "p \<in> set (proposals s)" "prop_id p = tp_proposal_id t" using tenant_proposal_row [OF t(3)] by auto
  ultimately show ?thesis unfolding t' using u c pl by (intro conjI bexI [of _ p]) simp_all
qed

lemma strategy_inv_propose:
  assumes "strategy_inv s" "new_proposal camp r s p" "proposals s' = proposals s @ [p]" "touchpoints s' = touchpoints s"
    and "\<forall>n\<ge>db_seq s. db_gen s n \<notin> prop_id ` set (proposals s)"
  shows "strategy_inv s'"
proof -
  note d = assms(1) [unfolded strategy_inv_def]
  have i: "prop_id p \<notin> prop_id ` set (proposals s)" using assms(2,5) unfolding new_proposal_def by metis
  have n: "\<not> prop_is_accepted p" using assms(2) by (simp add: new_proposal_def)
  have "prop_version q \<noteq> prop_version p" if "q \<in> set (proposals s)" "prop_campaign_id q = prop_campaign_id p" for q
    using proposal_version_above [OF that(1)] that(2) assms(2) by (force simp: new_proposal_def)
  then have v: "(prop_campaign_id p, prop_version p) \<notin> (\<lambda>p. (prop_campaign_id p, prop_version p)) ` set (proposals s)" by force
  have t: "\<forall>t\<in>set (touchpoints s). \<exists>q\<in>set (proposals s @ [p]). prop_id q = tp_proposal_id t \<and> prop_is_accepted q"
    using d unfolding set_append by blast
  have a: "\<forall>q\<in>set (proposals s @ [p]). \<forall>q'\<in>set (proposals s @ [p]). prop_is_accepted q \<longrightarrow> prop_is_accepted q'
      \<longrightarrow> prop_campaign_id q = prop_campaign_id q' \<longrightarrow> prop_id q = prop_id q'"
    using d n unfolding set_append list.set by blast
  have ids: "distinct (map prop_id (proposals s))" "distinct (map (\<lambda>p. (prop_campaign_id p, prop_version p)) (proposals s))"
    using d by blast+
  have "distinct (map prop_id (proposals s @ [p]))" "distinct (map (\<lambda>p. (prop_campaign_id p, prop_version p)) (proposals s @ [p]))"
    using ids i v by simp_all
  then show ?thesis unfolding strategy_inv_def assms(3,4) using a t by blast
qed

lemma strategy_inv_same:
  assumes "strategy_inv s" "proposals s' = map f (proposals s)"
    and "\<And>q. prop_id (f q) = prop_id q \<and> prop_campaign_id (f q) = prop_campaign_id q \<and> prop_version (f q) = prop_version q"
    and "\<And>p q. p \<in> set (proposals s) \<Longrightarrow> q \<in> set (proposals s) \<Longrightarrow> prop_is_accepted (f p) \<Longrightarrow> prop_is_accepted (f q)
      \<Longrightarrow> prop_campaign_id p = prop_campaign_id q \<Longrightarrow> prop_id p = prop_id q"
    and "\<And>t. t \<in> set (touchpoints s') \<Longrightarrow> \<exists>p\<in>set (proposals s). prop_id p = tp_proposal_id t \<and> prop_is_accepted (f p)"
  shows "strategy_inv s'"
proof -
  note d = assms(1) [unfolded strategy_inv_def]
  have ids: "map prop_id (map f (proposals s)) = map prop_id (proposals s)"
    "map (\<lambda>p. (prop_campaign_id p, prop_version p)) (map f (proposals s)) = map (\<lambda>p. (prop_campaign_id p, prop_version p)) (proposals s)"
    using assms(3) by simp_all
  have "\<forall>p\<in>set (map f (proposals s)). \<forall>q\<in>set (map f (proposals s)). prop_is_accepted p \<longrightarrow> prop_is_accepted q
      \<longrightarrow> prop_campaign_id p = prop_campaign_id q \<longrightarrow> prop_id p = prop_id q"
    unfolding set_map ball_simps(9) using assms(3,4) by metis
  moreover have "\<forall>t\<in>set (touchpoints s'). \<exists>p\<in>set (map f (proposals s)). prop_id p = tp_proposal_id t \<and> prop_is_accepted p"
    unfolding set_map bex_simps(7) using assms(3,5) by metis
  ultimately show ?thesis unfolding strategy_inv_def assms(2) ids using d by blast
qed

lemma strategy_inv_accept:
  assumes "strategy_inv s" "p \<in> set (proposals s)" "\<not> prop_is_accepted p" "acceptance p camp aud planned rows s s'"
  shows "strategy_inv s'"
proof (rule strategy_inv_same [OF assms(1)])
  let ?f = "\<lambda>q. if prop_id q = prop_id p then accepted_proposal q
     else if prop_campaign_id q = prop_campaign_id p then q\<lparr>prop_is_accepted := False\<rparr> else q"
  show "proposals s' = map ?f (proposals s)" using assms(4) by (simp add: acceptance_def prepared_proposals)
  show "prop_id (?f q) = prop_id q \<and> prop_campaign_id (?f q) = prop_campaign_id q \<and> prop_version (?f q) = prop_version q" for q
    by (simp add: accepted_proposal_def)
  show "prop_id q1 = prop_id q2" if "q1 \<in> set (proposals s)" "q2 \<in> set (proposals s)" "prop_is_accepted (?f q1)" "prop_is_accepted (?f q2)"
      "prop_campaign_id q1 = prop_campaign_id q2" for q1 q2
  proof -
    have same: "prop_campaign_id q = prop_campaign_id p" if "q \<in> set (proposals s)" "prop_id q = prop_id p" for q
      using strategy_inv_ids [OF assms(1) that(1) assms(2) that(2)] by simp
    show ?thesis
    proof (cases "prop_campaign_id q1 = prop_campaign_id p")
      case True
      then have "prop_id q1 = prop_id p" "prop_id q2 = prop_id p" using that(3-5) by (auto split: if_splits)
      then show ?thesis by simp
    next
      case False
      then have "prop_is_accepted q1" "prop_is_accepted q2" using that same [OF that(1)] same [OF that(2)] by (auto split: if_splits)
      then show ?thesis using that(1,2,5) assms(1) unfolding strategy_inv_def by metis
    qed
  qed
  fix t assume t: "t \<in> set (touchpoints s')"
  show "\<exists>q\<in>set (proposals s). prop_id q = tp_proposal_id t \<and> prop_is_accepted (?f q)"
  proof (cases "tp_proposal_id t = prop_id p")
    case True
    then show ?thesis using assms(2) by (intro bexI [of _ p]) (auto simp: accepted_proposal_def)
  next
    case False
    then have "t \<notin> set rows" using acceptance_touches(1) [OF assms] by (auto simp: touches_of_def)
    then have old: "t \<in> set (touchpoints (prepared p s))" using t assms(4) by (auto simp: acceptance_def)
    then obtain q where q: "q \<in> set (proposals s)" "prop_id q = tp_proposal_id t" "prop_is_accepted q"
      using assms(1) unfolding prepared_touchpoints strategy_inv_def by metis
    then have "prop_campaign_id q \<noteq> prop_campaign_id p" using old False unfolding prepared_touchpoints by auto
    then show ?thesis using q False by (intro bexI [of _ q]) auto
  qed
qed

lemma strategy_inv_one: "strategy_inv s \<Longrightarrow> p \<in> set (proposals s) \<Longrightarrow> q \<in> set (proposals s) \<Longrightarrow> prop_is_accepted p \<Longrightarrow> prop_is_accepted q
    \<Longrightarrow> prop_campaign_id p = prop_campaign_id q \<Longrightarrow> prop_id p = prop_id q"
  unfolding strategy_inv_def by blast

lemma strategy_inv_touch: "strategy_inv s \<Longrightarrow> t \<in> set (touchpoints s) \<Longrightarrow> \<exists>p\<in>set (proposals s). prop_id p = tp_proposal_id t \<and> prop_is_accepted p"
  unfolding strategy_inv_def by blast

lemma strategy_inv_override:
  assumes "strategy_inv s" "patch_strategy_overrides e user i overrides s = Inr (p, s')"
  shows "strategy_inv s'"
proof -
  obtain payload where P: "proposals s' = update_where (\<lambda>q. prop_id q = i) (\<lambda>q. q\<lparr>prop_payload := payload\<rparr>) (proposals s)" "touchpoints s' = touchpoints s"
    by (rule patch_overrides_effect [OF assms(2)])
  define f where "f = (\<lambda>q :: strategy_proposal. if prop_id q = i then q\<lparr>prop_payload := payload\<rparr> else q)"
  have f: "prop_is_accepted (f q) = prop_is_accepted q" "prop_id (f q) = prop_id q" "prop_campaign_id (f q) = prop_campaign_id q"
    "prop_version (f q) = prop_version q" for q by (simp_all add: f_def)
  show ?thesis
  proof (rule strategy_inv_same [OF assms(1)])
    show "proposals s' = map f (proposals s)" using P(1) by (simp add: update_where_def f_def)
    show "prop_id (f q) = prop_id q \<and> prop_campaign_id (f q) = prop_campaign_id q \<and> prop_version (f q) = prop_version q" for q using f by simp
    show "prop_id p = prop_id q" if "p \<in> set (proposals s)" "q \<in> set (proposals s)" "prop_is_accepted (f p)" "prop_is_accepted (f q)"
      "prop_campaign_id p = prop_campaign_id q" for p q
      using strategy_inv_one [OF assms(1) that(1,2)] that(3-5) unfolding f by blast
    show "\<exists>p\<in>set (proposals s). prop_id p = tp_proposal_id t \<and> prop_is_accepted (f p)" if "t \<in> set (touchpoints s')" for t
      unfolding f by (rule strategy_inv_touch [OF assms(1)]) (use that P(2) in simp)
  qed
qed

lemma strategy_inv_move:
  assumes "strategy_inv s" "patch_touchpoint e user i when by_human s = Inr (t, s')"
  shows "strategy_inv s'"
proof -
  obtain t0 :: strategy_touchpoint where m: "touchpoints s' = touchpoints (re_evaluate_warnings (tp_proposal_id t0) (modify_touchpoint i (moved when by_human) s))"
    "proposals s' = proposals s"
    by (rule patch_touchpoint_effect [OF assms(2)])
  have u: "map tp_proposal_id xs = map tp_proposal_id ys" if "map unwarned xs = map unwarned ys" for xs ys
  proof -
    have "map tp_proposal_id (filter (\<lambda>_. True) xs) = map tp_proposal_id (filter (\<lambda>_. True) ys)"
      by (rule map_filter_agree [OF that]) (use unwarned_eq in metis)
    then show ?thesis by simp
  qed
  have "map tp_proposal_id (touchpoints s') = map tp_proposal_id (touchpoints (modify_touchpoint i (moved when by_human) s))"
    unfolding m(1) by (rule u [OF re_evaluate_unwarned])
  also have "\<dots> = map tp_proposal_id (touchpoints s)" by (simp add: modify_touchpoint_def update_where_def moved_def)
  finally have "tp_proposal_id ` set (touchpoints s') = tp_proposal_id ` set (touchpoints s)" by (metis list.set_map)
  then have "\<exists>p\<in>set (proposals s). prop_id p = tp_proposal_id t \<and> prop_is_accepted p" if "t \<in> set (touchpoints s')" for t
    using that strategy_inv_touch [OF assms(1)] by (metis imageE imageI)
  then show ?thesis using assms(1) unfolding strategy_inv_def m(2) by blast
qed

lemma strategy_inv_accepted:
  assumes "strategy_inv s" "accept_strategy (campaign_sm tc) e user i s = Inr (p', s')"
  shows "strategy_inv s'"
proof -
  note d = assms(2) [unfolded accept_strategy_def]
  obtain u where 1: "require_role Marketer user = Inr u" using d by (cases "require_role Marketer user") simp_all
  obtain p where 2: "tenant_proposal user i s = Some p" using d 1 by (cases "tenant_proposal user i s") simp_all
  show ?thesis
  proof (cases "prop_is_accepted p")
    case True
    then have "s' = s" using d 1 2 by simp
    then show ?thesis using assms(1) by simp
  next
    case False
    obtain camp aud planned rows where "acceptance p camp aud planned rows s s'" by (rule accept_effect [OF assms(2) 2 False])
    then show ?thesis using strategy_inv_accept [OF assms(1) _ False] tenant_proposal_row [OF 2] by blast
  qed
qed

lemma strategy_step_inv:
  assumes "strategy_step a s s'" "strategy_inv s"
  shows "strategy_inv s'"
  using assms(1)
proof cases
  case (step_propose client loads e camp triggered_by out)
  obtain c r p where "new_proposal c r s p" "proposals s' = proposals s @ [p]" "touchpoints s' = touchpoints s"
    by (rule propose_effect [OF step_propose(2)])
  then show ?thesis using strategy_inv_propose [OF assms(2) _ _ _ step_propose(3)] by blast
next
  case (step_override e user i overrides p)
  show ?thesis by (rule strategy_inv_override [OF assms(2) step_override(2)])
next
  case (step_accept tc e user i p)
  show ?thesis by (rule strategy_inv_accepted [OF assms(2) step_accept(2)])
next
  case step_move
  show ?thesis by (rule strategy_inv_move [OF assms(2) step_move(2)])
qed

interpretation strategy_runs: invariant_steps strategy_step strategy_inv "\<lambda>_. True"
  by unfold_locales (rule strategy_step_inv)

text \<open>C26. Whatever sequence of proposals, overrides, acceptances and moves runs, a campaign's proposals keep unique identifiers and
  versions, at most one of them is accepted, and every touchpoint belongs to an accepted proposal.\<close>

theorem strategy_inv_reachable:
  assumes "steps strategy_step s ops s'" "strategy_inv s"
  shows "strategy_inv s'"
  using strategy_runs.steps_inv [OF assms(1) _ assms(2)] by (simp add: list_all_iff)

text \<open>The queue handler keeps the task table, and one that raises leaves nothing behind.\<close>

lemma propose_tasks:
  assumes "propose client loads e camp_i triggered_by s = Inr (out, s')"
  shows "tasks s' = tasks s"
proof -
  obtain camp r actor s1 p where "proposal_actor e (camp_tenant_id camp) triggered_by s = Inr (actor, s1)"
    "insert_proposal camp (next_proposal_version (camp_id camp) s) r actor s1 = (p, s')"
    by (rule propose_cases [OF assms])
  then show ?thesis
    by (auto simp: proposal_actor_def ensure_strategist_agent_def insert_proposal_def fresh_uuid_def Let_def split: option.splits
        dest: ensure_agent_frame)
qed

interpretation strategist: task_handler "campaign_strategist_propose_handler configured client loads" for configured client loads
  by unfold_locales
    (auto simp: campaign_strategist_propose_handler_def Let_def ran_def split: if_splits sum.splits
      intro!: tasks_kept_same dest: propose_tasks)

text \<open>A run of the strategist appends exactly one proposal, not accepted, with a version above every earlier one of the
  campaign, the planner's payload and one warning per violation the validator found in it; calendars and campaigns stay as
  they were.\<close>

theorem propose_correct:
  assumes "propose client loads e camp_i triggered_by s = Inr (out, s')"
  shows "\<exists>camp ctx r p. get_campaign camp_i s = Some camp \<and> build_context camp s = Inr ctx
    \<and> planner_propose client loads ctx = Inr r \<and> proposals s' = proposals s @ [p] \<and> prop_campaign_id p = camp_i
    \<and> \<not> prop_is_accepted p \<and> (\<forall>q\<in>set (proposals s). prop_campaign_id q = camp_i \<longrightarrow> prop_version q < prop_version p)
    \<and> prop_payload p = pr_payload r \<and> validate_plan ctx (prop_payload p) = Inr (pr_warnings r)
    \<and> prop_warnings p = map violation_json (pr_warnings r) \<and> touchpoints s' = touchpoints s \<and> campaigns s' = campaigns s"
proof -
  obtain camp ctx r p where c: "get_campaign camp_i s = Some camp" "build_context camp s = Inr ctx" "planner_propose client loads ctx = Inr r"
    and n: "new_proposal camp r s p" and s': "proposals s' = proposals s @ [p]" "touchpoints s' = touchpoints s" "campaigns s' = campaigns s"
    by (rule propose_effect [OF assms])
  have i: "camp_id camp = camp_i" using c(1) by (rule campaign_table.get_key)
  have "\<forall>q\<in>set (proposals s). prop_campaign_id q = camp_i \<longrightarrow> prop_version q < prop_version p"
    using n proposal_version_above i by (auto simp: new_proposal_def)
  then show ?thesis
    using c n s' i planner_propose_loop(2) [OF c(3)]
    by (intro exI [of _ camp] exI [of _ ctx] exI [of _ r] exI [of _ p]) (simp add: new_proposal_def)
qed

lemma channel_for_row: "channel_for platform chs = Some d \<Longrightarrow> JObj d \<in> set chs \<and> plan_platform d = platform"
  by (induction chs) (auto simp: channel_for_def split: json.splits if_splits)

text \<open>C31. A channel a human pinned survives a new plan: when the latest proposal has a channel row flagged as override and the
  strategist's next proposal has no warnings, that proposal has a row of the same platform, flagged again, with a percentage
  the code does not tell apart from the pinned one by more than a point.\<close>

theorem pinned_channel_survives:
  assumes "propose client loads e camp_i triggered_by s = Inr (out, s')" "prop_warnings (last (proposals s')) = []"
    and "latest_by prop_version (proposals_of camp_i s) = Some q" "dict_get_default (prop_payload q) ''channels'' (JArr []) = JArr chs"
    and "ch \<in> set chs" "override_of ch = Some ov" "\<forall>c\<in>set (campaigns s). camp_budget_total c < 10 ^ 14"
  shows "\<exists>chs' d pct. dict_get (prop_payload (last (proposals s'))) ''channels'' = JArr chs' \<and> JObj d \<in> set chs'
    \<and> plan_platform d = py_lower (ho_platform ov) \<and> truthy (dict_get d ''human_override'')
    \<and> decimal_of (dict_get d ''allocation_pct'') = Some pct \<and> differs pct (fst (ho_pct ov)) = Inr False"
proof -
  obtain camp ctx r p where c: "get_campaign camp_i s = Some camp" "build_context camp s = Inr ctx" "planner_propose client loads ctx = Inr r"
    and n: "new_proposal camp r s p" and s': "proposals s' = proposals s @ [p]"
    by (rule propose_effect [OF assms(1)])
  have i: "camp_id camp = camp_i" using c(1) by (rule campaign_table.get_key)
  have p: "last (proposals s') = p" "prop_payload p = pr_payload r" "pr_warnings r = []"
    using s' n assms(2) by (auto simp: new_proposal_def)
  have "carry_overrides camp_i s = Inr (List.map_filter override_of chs)" using assms(3,4) by (simp add: carry_overrides_def)
  then have ctx: "sc_overrides ctx = List.map_filter override_of chs" "sc_budget ctx = camp_budget_total camp"
    using c(2) i by (auto simp: build_context_def Let_def)
  have "camp \<in> set (campaigns s)" using c(1) by (auto simp: get_campaign_def dest: find_row_Some)
  then have b: "sc_budget ctx < 10 ^ 14" using assms(7) ctx(2) by simp
  note l = planner_propose_loop [OF c(3)]
  have v: "validate_plan ctx (pr_payload r) = Inr []" using l(2) p(3) by simp
  obtain rows where rows: "dict_get (pr_payload r) ''channels'' = JArr (map (JObj \<circ> fst) rows)" "list_all (good_channel ctx) rows"
    "list_all (override_kept (map (JObj \<circ> fst) rows)) (sc_overrides ctx)"
    by (rule validate_plan_clean [OF v l(1) b])
  have "ov \<in> set (sc_overrides ctx)" using assms(5,6) unfolding ctx(1) by (force simp: set_map_filter)
  then have "override_kept (map (JObj \<circ> fst) rows) ov" using rows(3) by (simp add: list_all_iff)
  then obtain d where d: "channel_for (py_lower (ho_platform ov)) (map (JObj \<circ> fst) rows) = Some d"
    "case pydec_of (dict_get d ''allocation_pct'') of None \<Rightarrow> True
       | Some pct \<Rightarrow> differs (fst pct) (fst (ho_pct ov)) = Inr False \<and> truthy (dict_get d ''human_override'')"
    unfolding override_kept_def by blast
  note dr = channel_for_row [OF d(1)]
  then obtain x a where "good_channel ctx (d, x, a)" using rows(2) by (auto simp: list_all_iff)
  then have dec: "decimal_of (dict_get d ''allocation_pct'') = Some (DNum x)" by (simp add: good_channel_def)
  then have "differs (DNum x) (fst (ho_pct ov)) = Inr False" "truthy (dict_get d ''human_override'')"
    using d(2) by (simp_all add: pydec_of_def)
  then show ?thesis using dr dec rows(1) unfolding p(1,2) by blast
qed

section \<open>Warnings do not stop an acceptance\<close>

lemma plan_channel_some:
  assumes "py_lower (py_strip (py_str (dict_get_default d ''platform'' (JStr [])))) = platform" "platform \<noteq> []"
    and "decimal_of (dict_get_default d ''allocation_pct'' (JInt 0)) = Some (DNum a)" "0 < a"
  obtains n where "plan_channel caps dur (JObj d) = Inr (Some (platform, n))" "1 \<le> n"
  using assms by (simp add: plan_channel_def Let_def)

lemma generated_covers:
  assumes "generate_calendar payload sd ed aud caps = Inr planned" "dict_get_default payload ''channels'' (JArr []) = JArr chs" "ch \<in> set chs"
    and "\<And>caps dur. \<exists>n\<ge>1. plan_channel caps dur ch = Inr (Some (platform, n))"
  shows "\<exists>t\<in>set planned. pt_channel_platform t = platform"
proof -
  obtain laid where laid: "lay_out (index_hard_caps caps) sd ed aud 0 chs = Inr laid" "planned = sort_key (\<lambda>t. (pt_scheduled_at t, pt_position t)) laid"
    using assms(1,2) by (auto simp: generate_calendar_def Let_def split: sum.splits)
  obtain n where n: "1 \<le> n" "plan_channel (index_hard_caps caps) (max 1 (ed - sd + 1)) ch = Inr (Some (platform, n))" using assms(4) by blast
  have "n \<le> int (length (filter (\<lambda>t. pt_channel_platform t = platform) laid))" by (rule lay_out_covers [OF laid(1) assms(3) n(2)])
  then have "filter (\<lambda>t. pt_channel_platform t = platform) laid \<noteq> []" using n(1) by auto
  then show ?thesis unfolding laid(2) by (auto simp: filter_empty_conv)
qed

text \<open>Accepting never looks at the warnings or the tenant's forbidden channels: a proposal with a channel row on a forbidden
  platform, once accepted, has touches on that platform, although the story promises that a forbidden channel is never
  included.\<close>

theorem forbidden_channel_reaches_calendar:
  assumes "accept_strategy (campaign_sm tc) e user i s = Inr (p', s')" "tenant_proposal user i s = Some p" "\<not> prop_is_accepted p"
    and "strategy_inv s" "dict_get_default (prop_payload p) ''channels'' (JArr []) = JArr chs" "JObj d \<in> set chs"
    and "py_lower (py_strip (py_str (dict_get_default d ''platform'' (JStr [])))) = platform" "platform \<noteq> []"
    and "decimal_of (dict_get_default d ''allocation_pct'' (JInt 0)) = Some (DNum a)" "0 < a"
    and "platform \<in> set (forbidden_platforms (prop_tenant_id p) s)"
  shows "\<exists>t\<in>set (touches_of i s'). tp_channel_platform t = platform"
proof -
  note p = tenant_proposal_row [OF assms(2)]
  obtain camp aud planned rows where a: "acceptance p camp aud planned rows s s'" by (rule accept_effect [OF assms(1-3)])
  have rows: "touches_of i s' = rows" using acceptance_touches(1) [OF assms(4) _ assms(3) a] p by blast
  have g: "generate_calendar (prop_payload p) (camp_start_date camp) (camp_end_date camp) (aud_id aud) (hard_caps_of (camp_tenant_id camp) s) = Inr planned"
    and r: "list_all2 (seeded_row (camp_tenant_id camp) (prop_id p)) (detect_frequency_warnings default_frequency_cap default_frequency_window planned) rows"
    using a unfolding acceptance_def by blast+
  have l: "map slot (map planned_of rows) = map slot planned" using seeded_slots [OF r] unfolding detect_slots .
  have pc: "\<exists>n\<ge>1. plan_channel caps dur (JObj d) = Inr (Some (platform, n))" for caps dur
    by (rule plan_channel_some [OF assms(7-10), of caps dur]) blast
  have "\<exists>t\<in>set planned. pt_channel_platform t = platform" by (rule generated_covers [OF g assms(5,6) pc])
  then have "platform \<in> fst ` set (map slot planned)" by force
  then show ?thesis unfolding l [symmetric] rows by (auto simp: planned_of_def)
qed

section \<open>When an acceptance succeeds\<close>

lemma insert_touchpoints_total:
  "\<forall>t\<in>set ts. characters (pt_channel_platform t) \<le> 40 \<Longrightarrow> \<exists>s'. for_each (insert_touchpoint tenant proposal) ts s = Inr s'"
proof (rule for_each_Inr_total)
  fix t s assume "\<forall>t\<in>set ts. characters (pt_channel_platform t) \<le> 40" "t \<in> set ts"
  then have "\<not> 40 < characters (pt_channel_platform t)" by auto
  then show "\<exists>s'. insert_touchpoint tenant proposal t s = Inr s'" by (simp add: insert_touchpoint_def fresh_uuid_def)
qed

lemma detect_platforms: "pt_channel_platform ` set (detect_frequency_warnings cap w tps) = pt_channel_platform ` set tps"
proof -
  have "pt_channel_platform ` set xs = fst ` set (map slot xs)" for xs by force
  then show ?thesis by (metis detect_slots)
qed

lemma accept_succeeds:
  assumes "role_rank Marketer \<le> role_rank (user_role_of user)" "tenant_proposal user i s = Some p" "\<not> prop_is_accepted p"
    and "tenant_campaign user (prop_campaign_id p) s = Some camp" "latest_audience (camp_id camp) s = Some aud"
    and "generate_calendar (prop_payload p) (camp_start_date camp) (camp_end_date camp) (aud_id aud) (hard_caps_of (camp_tenant_id camp) s) = Inr planned"
    and "\<forall>t\<in>set planned. characters (pt_channel_platform t) \<le> 40"
  shows "\<exists>s'. accept_strategy (campaign_sm tc) e user i s = Inr (accepted_proposal p, s')"
proof -
  have r: "require_role Marketer user = Inr user" using assms(1) by (simp add: require_role_Inr)
  have g: "get_campaign (prop_campaign_id p) s = Some camp" using assms(4) by (auto simp: tenant_campaign_def split: option.splits if_splits)
  have ap: "prop_campaign_id (accepted_proposal p) = prop_campaign_id p" "prop_payload (accepted_proposal p) = prop_payload p"
    "prop_id (accepted_proposal p) = prop_id p" by (simp_all add: accepted_proposal_def)
  have "\<forall>t\<in>set (detect_frequency_warnings default_frequency_cap default_frequency_window planned). characters (pt_channel_platform t) \<le> 40"
    using assms(7) detect_platforms [of default_frequency_cap default_frequency_window planned] by (metis imageE imageI)
  from insert_touchpoints_total [OF this, of "camp_tenant_id camp" "prop_id p" "prepared p s"] obtain s1 where
    l: "for_each (insert_touchpoint (camp_tenant_id camp) (prop_id p)) (detect_frequency_warnings default_frequency_cap default_frequency_window planned) (prepared p s) = Inr s1"
    by blast
  have s1: "seed_calendar (accepted_proposal p) (prepared p s) = Inr s1"
    using g assms(5,6) l by (simp add: seed_calendar_def ap)
  have "proposals s1 = proposals (prepared p s)" using insert_touchpoints_effect [OF l] by auto
  moreover have "\<exists>q\<in>set (proposals (prepared p s)). prop_campaign_id q = camp_id camp \<and> prop_is_accepted q"
    using tenant_proposal_row [OF assms(2)] campaign_table.get_key [OF g]
    by (intro bexI [of _ "accepted_proposal p"]) (auto simp: prepared_proposals accepted_proposal_def)
  ultimately have "has_accepted_strategy e camp (write_audit e ten k j act b a m s1)" for ten k j act b a m
    by (auto simp: has_accepted_strategy_def list_ex_iff)
  from advance_total [OF this] show ?thesis
    unfolding accept_strategy_def prepared_def [symmetric] using r assms(2-4) s1 by (simp add: prepared_def [symmetric])
qed

section \<open>Concrete instances\<close>

definition marketer :: app_user where
  "marketer = \<lparr>user_id = 3, user_tenant_id = 1, user_role_of = Marketer\<rparr>"

definition review_campaign :: campaign where
  "review_campaign = (demo_campaign AudienceBuilt)\<lparr>camp_end_date := 9, camp_budget_total := 10000\<rparr>"

definition review_proposal :: strategy_proposal where
  "review_proposal = demo_proposal\<lparr>prop_payload := demo_payload, prop_is_accepted := False\<rparr>"

definition review_audience :: audience where
  "review_audience = \<lparr>aud_id = 1, aud_tenant_id = 1, aud_campaign_id = 7, aud_name = ''all'', aud_criteria = [], aud_actual_size = None,
     aud_estimated_size = Some 10, aud_created_at = 0\<rparr>"

definition mail_channel :: channel where
  "mail_channel = \<lparr>ch_id = 2, ch_tenant_id = 1, ch_name = ''Mail'', ch_platform = PEmail, ch_is_active = True, ch_api_config = []\<rparr>"

definition planning_db :: db where
  "planning_db = empty_db\<lparr>campaigns := [review_campaign], proposals := [review_proposal], audiences := [review_audience], channels := [mail_channel],
     tenant_constraints := [\<lparr>tcn_tenant_id = 1, tcn_kind = ''hard_cap'', tcn_payload = weekly_cap\<rparr>,
       \<lparr>tcn_tenant_id = 1, tcn_kind = ''forbid_channel'', tcn_payload = [(''platform'', JStr ''email'')]\<rparr>]\<rparr>"

lemma review_facts:
  "tenant_proposal marketer 11 planning_db = Some review_proposal" "\<not> prop_is_accepted review_proposal"
  "tenant_campaign marketer (prop_campaign_id review_proposal) planning_db = Some review_campaign"
  "latest_audience (camp_id review_campaign) planning_db = Some review_audience" "hard_caps_of (camp_tenant_id review_campaign) planning_db = [weekly_cap]"
  by (simp_all add: tenant_proposal_def find_row_def planning_db_def review_proposal_def demo_proposal_def marketer_def tenant_campaign_def
      get_campaign_def review_campaign_def demo_campaign_def latest_audience_def latest_by_def review_audience_def hard_caps_of_def constraints_of_def)

lemma review_inv: "strategy_inv planning_db"
  by (simp add: strategy_inv_def planning_db_def empty_db_def review_proposal_def)

lemma review_accept: "\<exists>s'. accept_strategy (campaign_sm tc) e marketer 11 planning_db = Inr (accepted_proposal review_proposal, s')"
proof (rule accept_succeeds [OF _ review_facts(1-4)])
  show "role_rank Marketer \<le> role_rank (user_role_of marketer)" by (simp add: marketer_def)
  show "generate_calendar (prop_payload review_proposal) (camp_start_date review_campaign) (camp_end_date review_campaign) (aud_id review_audience)
      (hard_caps_of (camp_tenant_id review_campaign) planning_db) = Inr [demo_touch (days 5 + hours 9)]"
    unfolding review_facts(5) using demo_calendar by (simp add: review_proposal_def review_campaign_def demo_campaign_def review_audience_def)
  show "\<forall>t\<in>set [demo_touch (days 5 + hours 9)]. characters (pt_channel_platform t) \<le> 40"
    by (simp add: demo_touch_def characters_def)
qed

theorem accept_strategy_correct_witness:
  "\<exists>s'. accept_strategy (campaign_sm (\<lambda>_ _ _. False)) (worker_env 5) marketer 11 planning_db = Inr (accepted_proposal review_proposal, s')
     \<and> caps_kept [weekly_cap] (map planned_of (touches_of 11 s'))"
proof -
  obtain s' where a: "accept_strategy (campaign_sm (\<lambda>_ _ _. False)) (worker_env 5) marketer 11 planning_db = Inr (accepted_proposal review_proposal, s')"
    using review_accept by blast
  have "get_campaign (prop_campaign_id review_proposal) planning_db = Some review_campaign"
    using review_facts(3) by (auto simp: tenant_campaign_def split: option.splits if_splits)
  then have "caps_kept [weekly_cap] (map planned_of (touches_of 11 s'))"
    using accept_strategy_correct [OF a review_facts(1,2) review_inv] review_facts(5) by (elim exE conjE) simp
  then show ?thesis using a by blast
qed

theorem forbidden_channel_reaches_calendar_witness:
  "\<exists>p' s'. accept_strategy (campaign_sm (\<lambda>_ _ _. False)) (worker_env 5) marketer 11 planning_db = Inr (p', s')
     \<and> (\<exists>t\<in>set (touches_of 11 s'). tp_channel_platform t = ''email'')"
proof -
  let ?d = "[(''platform'', JStr '' Email ''), (''allocation_pct'', JInt 60)]"
  obtain s' where a: "accept_strategy (campaign_sm (\<lambda>_ _ _. False)) (worker_env 5) marketer 11 planning_db = Inr (accepted_proposal review_proposal, s')"
    using review_accept by blast
  have c: "dict_get_default (prop_payload review_proposal) ''channels'' (JArr []) = JArr [JObj ?d]" by code_simp
  have d: "py_lower (py_strip (py_str (dict_get_default ?d ''platform'' (JStr [])))) = ''email''"
    "decimal_of (dict_get_default ?d ''allocation_pct'' (JInt 0)) = Some (DNum 60)" by code_simp+
  have f: "''email'' \<in> set (forbidden_platforms (prop_tenant_id review_proposal) planning_db)" by code_simp
  show ?thesis using forbidden_channel_reaches_calendar [OF a review_facts(1,2) review_inv c _ d(1) _ d(2) _ f] a by auto
qed

text \<open>A model whose answer is an empty object: three attempts, one warning.\<close>

lemma empty_plan_stored:
  assumes "sc_channels ctx \<noteq> []" "0 < sc_budget ctx" "allowed_platforms ctx \<noteq> []"
  shows "planner_propose (\<lambda>k prompt t. Inr [Some ''plan'']) (\<lambda>t. Some (JObj [])) ctx
     = Inr \<lparr>pr_payload = [], pr_warnings = [(''shape'', ''channels must be a non-empty list'')], pr_attempts = 3\<rparr>"
proof -
  have "validate_plan ctx [] = Inr [(''shape'', ''channels must be a non-empty list'')]" by (simp add: validate_plan_def dict_get_def)
  then have "one_plan (\<lambda>k prompt t. Inr [Some ''plan'']) (\<lambda>t. Some (JObj [])) ctx k vs = Inr ([], [(''shape'', ''channels must be a non-empty list'')])" for k vs
    by (simp add: one_plan_def call_strategy_model_def parse_plan_def map_filter_simps)
  then show ?thesis using assms by (simp add: planner_propose_def planner_max_retries_def better_plan_def numeral_2_eq_2 numeral_3_eq_3)
qed

definition open_db :: db where
  "open_db = planning_db\<lparr>tenant_constraints := []\<rparr>"

lemma open_propose: "\<exists>out s'. propose (\<lambda>k prompt t. Inr [Some ''plan'']) (\<lambda>t. Some (JObj [])) (worker_env 5) 7 (Some 3) open_db = Inr (out, s')"
proof -
  have g: "get_campaign 7 open_db = Some review_campaign" by (simp add: get_campaign_def open_db_def planning_db_def find_row_def review_campaign_def)
  have p: "assert_preconditions review_campaign open_db = Inr ()" by code_simp
  have "\<not> isl (build_context review_campaign open_db)" by (simp add: build_context_def) code_simp
  then obtain ctx where ctx: "build_context review_campaign open_db = Inr ctx" by (cases "build_context review_campaign open_db") auto
  have c: "sc_channels ctx = [(''email'', ''Mail'')]" "sc_budget ctx = 10000" "sc_forbidden ctx = []"
    using ctx by (auto simp: build_context_def Let_def active_channels_def open_db_def planning_db_def empty_db_def review_campaign_def
        demo_campaign_def mail_channel_def forbidden_platforms_def constraints_of_def)
  have "allowed_platforms ctx = [''email'']" unfolding allowed_platforms_def c by code_simp
  then show ?thesis using g p ctx empty_plan_stored [of ctx] c by (simp add: propose_def proposal_actor_def case_prod_beta)
qed

theorem propose_correct_witness:
  "\<exists>out s' p. propose (\<lambda>k prompt t. Inr [Some ''plan'']) (\<lambda>t. Some (JObj [])) (worker_env 5) 7 (Some 3) open_db = Inr (out, s')
     \<and> proposals s' = [review_proposal, p] \<and> prop_version review_proposal < prop_version p"
proof -
  obtain out s' where r: "propose (\<lambda>k prompt t. Inr [Some ''plan'']) (\<lambda>t. Some (JObj [])) (worker_env 5) 7 (Some 3) open_db = Inr (out, s')"
    using open_propose by blast
  have o: "proposals open_db = [review_proposal]" "prop_campaign_id review_proposal = 7"
    by (simp_all add: open_db_def planning_db_def review_proposal_def demo_proposal_def)
  show ?thesis using propose_correct [OF r] r unfolding o(1) by (elim exE conjE) (simp add: o(2))
qed

theorem strategy_inv_reachable_witness:
  "\<exists>s'. steps strategy_step planning_db [SoAccept 11] s' \<and> strategy_inv s'"
proof -
  obtain s' where a: "accept_strategy (campaign_sm (\<lambda>_ _ _. False)) (worker_env 5) marketer 11 planning_db = Inr (accepted_proposal review_proposal, s')"
    using review_accept by blast
  then have "strategy_step (SoAccept 11) planning_db s'" by (rule step_accept)
  then have "steps strategy_step planning_db [SoAccept 11] s'" by (auto intro: steps.intros)
  then show ?thesis using strategy_inv_reachable [OF _ review_inv] by (intro exI [of _ s'] conjI)
qed

definition moved_db :: db where
  "moved_db = planning_db\<lparr>proposals := [accepted_proposal review_proposal], touchpoints := [demo_touchpoint, demo_touchpoint\<lparr>tp_id := 31, tp_scheduled_at := days 20\<rparr>]\<rparr>"

theorem patch_touchpoint_correct_witness:
  "\<exists>t' s'. patch_touchpoint (worker_env 5) marketer 30 (days 3) True moved_db = Inr (t', s') \<and> tp_scheduled_at t' = days 3"
proof -
  have "\<not> isl (patch_touchpoint (worker_env 5) marketer 30 (days 3) True moved_db)" by code_simp
  then obtain t' s' where r: "patch_touchpoint (worker_env 5) marketer 30 (days 3) True moved_db = Inr (t', s')"
    by (cases "patch_touchpoint (worker_env 5) marketer 30 (days 3) True moved_db") auto
  have "distinct (map tp_id (touchpoints moved_db))" by code_simp
  from patch_touchpoint_correct [OF r this] r show ?thesis by blast
qed

text \<open>A plan that keeps the pinned channel of the proposal before it.\<close>

definition pinned_channel :: dict where
  "pinned_channel = example_channel @ [(''human_override'', JBool True)]"

definition pinned_plan :: dict where
  "pinned_plan = dict_set example_plan ''channels'' (JArr [JObj pinned_channel])"

definition pinned_override :: human_override_row where
  "pinned_override = \<lparr>ho_platform = ''Email'', ho_pct = (DNum 100, 0), ho_amount = (DNum 100, 0)\<rparr>"

definition pinned_db :: db where
  "pinned_db = open_db\<lparr>proposals := [review_proposal\<lparr>prop_payload := pinned_plan\<rparr>]\<rparr>"

lemma pinned_facts:
  "override_of (JObj pinned_channel) = Some pinned_override"
  "dict_get_default pinned_plan ''channels'' (JArr []) = JArr [JObj pinned_channel]"
  by code_simp+

lemma pinned_kept: "for_each (check_override [JObj pinned_channel]) [pinned_override] [] = Inr []"
proof -
  have "plan_platform pinned_channel = ''email''" "py_lower (ho_platform pinned_override) = ''email''" "ho_pct pinned_override = (DNum 100, 0)"
    "pydec_of (dict_get pinned_channel ''allocation_pct'') = Some (DNum 100, 0)" "truthy (dict_get pinned_channel ''human_override'')" by code_simp+
  then show ?thesis
    by (simp add: check_override_def channel_for_def differs_def allocation_pct_tolerance_def example_dec28)
qed

theorem pinned_channel_survives_witness:
  "\<exists>out s'. propose (\<lambda>k prompt t. Inr [Some ''plan'']) (\<lambda>t. Some (JObj pinned_plan)) (worker_env 5) 7 (Some 3) pinned_db = Inr (out, s')
     \<and> (\<exists>chs d. dict_get (prop_payload (last (proposals s'))) ''channels'' = JArr chs \<and> JObj d \<in> set chs \<and> plan_platform d = ''email''
          \<and> truthy (dict_get d ''human_override''))"
proof -
  let ?propose = "propose (\<lambda>k prompt t. Inr [Some ''plan'']) (\<lambda>t. Some (JObj pinned_plan)) (worker_env 5) 7 (Some 3) pinned_db"
  have g: "get_campaign 7 pinned_db = Some review_campaign"
    by (simp add: get_campaign_def pinned_db_def open_db_def planning_db_def find_row_def review_campaign_def)
  have p: "assert_preconditions review_campaign pinned_db = Inr ()" by code_simp
  have q: "latest_by prop_version (proposals_of 7 pinned_db) = Some (review_proposal\<lparr>prop_payload := pinned_plan\<rparr>)"
    by (simp add: latest_by_def proposals_of_def pinned_db_def review_proposal_def demo_proposal_def)
  have o: "carry_overrides 7 pinned_db = Inr [pinned_override]"
    using q by (simp add: carry_overrides_def pinned_facts map_filter_simps)
  then obtain ctx where ctx: "build_context review_campaign pinned_db = Inr ctx" and ov: "sc_overrides ctx = [pinned_override]"
    by (simp add: build_context_def Let_def review_campaign_def)
  have c: "sc_channels ctx = [(''email'', ''Mail'')]" "sc_budget ctx = 10000" "sc_forbidden ctx = []"
    using ctx by (auto simp: build_context_def Let_def active_channels_def pinned_db_def open_db_def planning_db_def empty_db_def review_campaign_def
        demo_campaign_def mail_channel_def forbidden_platforms_def constraints_of_def)
  have al: "allowed_platforms ctx = [''email'']" unfolding allowed_platforms_def c by code_simp
  have d: "plan_platform pinned_channel = ''email''" "pydec_of (dict_get pinned_channel ''allocation_pct'') = Some (DNum 100, 0)"
    "pydec_of (dict_get pinned_channel ''allocation_amount'') = Some (DNum 100, 0)"
    "py_strip (py_str (dict_get_default pinned_channel ''rationale'' (JStr []))) \<noteq> []"
    "dict_get pinned_plan ''channels'' = JArr [JObj pinned_channel]" "check_kpis (dict_get pinned_plan ''kpis'') = []" by code_simp+
  have v: "validate_plan ctx pinned_plan = Inr []"
    by (rule full_share_validates [of _ pinned_channel "''email''"]) (use c al d ov pinned_kept in simp_all)
  then have pl: "planner_propose (\<lambda>k prompt t. Inr [Some ''plan'']) (\<lambda>t. Some (JObj pinned_plan)) ctx
      = Inr \<lparr>pr_payload = pinned_plan, pr_warnings = [], pr_attempts = 1\<rparr>"
    using c al by (simp add: planner_propose_def one_plan_def call_strategy_model_def parse_plan_def map_filter_simps)
  obtain out s' where r: "?propose = Inr (out, s')" and w: "prop_warnings (last (proposals s')) = []"
    using g p ctx pl by (simp add: propose_def proposal_actor_def insert_proposal_def Let_def case_prod_beta)
  have e: "py_lower (ho_platform pinned_override) = ''email''" by code_simp
  have b: "\<forall>c\<in>set (campaigns pinned_db). camp_budget_total c < 10 ^ 14"
    by (simp add: pinned_db_def open_db_def planning_db_def review_campaign_def)
  have "\<exists>chs d. dict_get (prop_payload (last (proposals s'))) ''channels'' = JArr chs \<and> JObj d \<in> set chs \<and> plan_platform d = ''email'' \<and> truthy (dict_get d ''human_override'')"
    using pinned_channel_survives [OF r w q _ _ pinned_facts(1) b] pinned_facts(2) e by auto
  then show ?thesis using r by blast
qed

end
