(* ===== verification/Ab_Statistics.thy ===== *)
theory Ab_Statistics
  imports Models
begin

text \<open>
  The \<^verbatim>\<open>ab.testing\<close> tool (\<^verbatim>\<open>app/tools/ab_testing.py\<close>): the two-proportion z-test, Welch's test and the decision drawn from
  them. Floating-point numbers are exact: counts, rates and the lift are rationals, what goes through a square root, a
  logarithm or the error function is real. The error function of the C library is the parameter \<open>erf\<close>; no law of it is
  used. The square root of a negative number raises, as \<^verbatim>\<open>math.sqrt\<close> does.
\<close>

section \<open>The normal distribution\<close>

definition py_sqrt :: "real \<Rightarrow> real res" where
  "py_sqrt x = (if x < 0 then Inl ValueError else Inr (sqrt x))"

definition normal_cdf :: "(real \<Rightarrow> real) \<Rightarrow> real \<Rightarrow> real" where
  "normal_cdf erf z = 0.5 * (1 + erf (z / sqrt 2))"

definition horner :: "real list \<Rightarrow> real \<Rightarrow> real" where
  "horner coeffs x = foldl (\<lambda>acc c. acc * x + c) 0 coeffs"

text \<open>The quantile of a tail, with the coefficients \<^verbatim>\<open>c\<close> and \<^verbatim>\<open>d\<close>.\<close>

definition tail_quantile :: "real \<Rightarrow> real" where
  "tail_quantile q =
     horner [-0.007784894002430293, -0.3223964580411365, -2.400758277161838, -2.549732539343734, 4.374664141464968,
             2.938163982698783] q
     / horner [0.007784695709041462, 0.3224671290700398, 2.445134137142996, 3.754408661907416, 1] q"

text \<open>The quantile of the middle region, with the coefficients \<^verbatim>\<open>a\<close> and \<^verbatim>\<open>b\<close>.\<close>

definition central_quantile :: "real \<Rightarrow> real" where
  "central_quantile q =
     (let r = q * q
      in horner [-39.69683028665376, 220.9460984245205, -275.9285104469687, 138.3577518672690, -30.66479806614716,
                 2.506628277459239] r * q
         / horner [-54.47609879822406, 161.5858368580409, -155.6989798598866, 66.80131188771972, -13.28068155288572, 1] r)"

definition inv_norm_cdf :: "real \<Rightarrow> real res" where
  "inv_norm_cdf p =
     (let p_low = 0.02425; p_high = 1 - p_low
      in if \<not> (0 < p \<and> p < 1) then Inl ValueError
         else if p < p_low then Inr (tail_quantile (sqrt (- 2 * ln p)))
         else if p \<le> p_high then Inr (central_quantile (p - 0.5))
         else Inr (- tail_quantile (sqrt (- 2 * ln (1 - p)))))"

definition z_critical :: "rat \<Rightarrow> real res" where
  "z_critical confidence =
     (let alpha = 1 - of_rat confidence in inv_norm_cdf (1 - alpha / 2))"

definition two_tailed_p_from_z :: "(real \<Rightarrow> real) \<Rightarrow> real \<Rightarrow> real" where
  "two_tailed_p_from_z erf z = 2 * (1 - normal_cdf erf \<bar>z\<bar>)"

section \<open>Results\<close>

text \<open>The lift is \<^verbatim>\<open>float("inf")\<close> when only the first arm has no success.\<close>

datatype lift = Finite rat | Infinite

record ab_result =
  ar_p_value :: real
  ar_lift :: lift
  ar_confidence_interval :: "real \<times> real"
  ar_decision :: string
  ar_winner_arm :: "string option"
  ar_min_n_for_power :: "int option"
  ar_reason :: "string option"
  ar_degrees_of_freedom :: "rat option"

definition inconclusive :: "string \<Rightarrow> ab_result" where
  "inconclusive reason = \<lparr>ar_p_value = 1, ar_lift = Finite 0, ar_confidence_interval = (0, 0),
     ar_decision = ''inconclusive'', ar_winner_arm = None, ar_min_n_for_power = None, ar_reason = Some reason,
     ar_degrees_of_freedom = None\<rparr>"

section \<open>Rates\<close>

definition min_n_for_proportion_power :: "rat \<Rightarrow> rat \<Rightarrow> rat \<Rightarrow> int res" where
  "min_n_for_proportion_power p_a p_b confidence =
     (if p_a = p_b then Inr 10000000
      else case z_critical confidence of
        Inl err \<Rightarrow> Inl err
      | Inr z_alpha \<Rightarrow>
     (case inv_norm_cdf 0.8 of
        Inl err \<Rightarrow> Inl err
      | Inr z_beta \<Rightarrow>
          (let pooled = (p_a + p_b) / 2
           in case py_sqrt (of_rat (2 * pooled * (1 - pooled))) of
                Inl err \<Rightarrow> Inl err
              | Inr spread \<Rightarrow>
             (case py_sqrt (of_rat (p_a * (1 - p_a) + p_b * (1 - p_b))) of
                Inl err \<Rightarrow> Inl err
              | Inr spread' \<Rightarrow>
                  (let numerator = (z_alpha * spread + z_beta * spread') ^ 2; denom = of_rat ((p_a - p_b) ^ 2)
                   in Inr (max 1 \<lceil>numerator / denom\<rceil>))))))"

definition arm_rate :: "rat \<Rightarrow> int \<Rightarrow> rat" where
  "arm_rate x n = x / of_int n"

definition rate_lift :: "rat \<Rightarrow> rat \<Rightarrow> lift" where
  "rate_lift p_a p_b = (if 0 < p_a then Finite ((p_b - p_a) / p_a) else if 0 < p_b then Infinite else Finite 0)"

definition pooled_variance :: "int \<Rightarrow> rat \<Rightarrow> int \<Rightarrow> rat \<Rightarrow> rat" where
  "pooled_variance n_a x_a n_b x_b =
     (let pooled = (x_a + x_b) / of_int (n_a + n_b)
      in max (pooled * (1 - pooled) * (1 / of_int n_a + 1 / of_int n_b)) 0)"

definition unpooled_variance :: "int \<Rightarrow> rat \<Rightarrow> int \<Rightarrow> rat \<Rightarrow> rat" where
  "unpooled_variance n_a p_a n_b p_b = p_a * (1 - p_a) / of_int n_a + p_b * (1 - p_b) / of_int n_b"

definition two_proportion_test :: "(real \<Rightarrow> real) \<Rightarrow> int \<Rightarrow> rat \<Rightarrow> int \<Rightarrow> rat \<Rightarrow> rat \<Rightarrow> ab_result res" where
  "two_proportion_test erf n_a x_a n_b x_b confidence =
     (if n_a \<le> 0 \<or> n_b \<le> 0 then Inr (inconclusive ''zero_sample'')
      else let p_a = arm_rate x_a n_a; p_b = arm_rate x_b n_b; denom = sqrt (of_rat (pooled_variance n_a x_a n_b x_b))
           in if denom = 0 then Inr (inconclusive ''degenerate'')
              else let z = of_rat (p_b - p_a) / denom; p_value = two_tailed_p_from_z erf z
                   in case z_critical confidence of
                        Inl err \<Rightarrow> Inl err
                      | Inr z_alpha \<Rightarrow>
                     (case py_sqrt (of_rat (unpooled_variance n_a p_a n_b p_b)) of
                        Inl err \<Rightarrow> Inl err
                      | Inr se_unpooled \<Rightarrow>
                          (let delta = of_rat (p_b - p_a);
                               res = \<lparr>ar_p_value = p_value, ar_lift = rate_lift p_a p_b,
                                 ar_confidence_interval = (delta - z_alpha * se_unpooled, delta + z_alpha * se_unpooled),
                                 ar_decision = ''loser'', ar_winner_arm = None, ar_min_n_for_power = None, ar_reason = None,
                                 ar_degrees_of_freedom = None\<rparr>
                           in if p_value < 1 - of_rat confidence \<and> z \<noteq> 0
                              then Inr (res\<lparr>ar_decision := ''winner'', ar_winner_arm := Some (if p_a < p_b then ''b'' else ''a'')\<rparr>)
                              else case min_n_for_proportion_power p_a p_b confidence of
                                Inl err \<Rightarrow> Inl err
                              | Inr min_n \<Rightarrow>
                                  Inr (if n_a < min_n \<or> n_b < min_n
                                       then res\<lparr>ar_decision := ''inconclusive'', ar_min_n_for_power := Some min_n\<rparr>
                                       else res))))"

section \<open>Continuous metrics\<close>

definition welch_df :: "int \<Rightarrow> rat \<Rightarrow> int \<Rightarrow> rat \<Rightarrow> rat" where
  "welch_df n_a var_a n_b var_b =
     (let a = var_a / of_int n_a; b = var_b / of_int n_b; den = a ^ 2 / of_int (n_a - 1) + b ^ 2 / of_int (n_b - 1)
      in if 0 < den then (a + b) ^ 2 / den else of_int (max n_a n_b))"

definition welch_t_test ::
  "(real \<Rightarrow> real) \<Rightarrow> int \<Rightarrow> rat \<Rightarrow> rat \<Rightarrow> int \<Rightarrow> rat \<Rightarrow> rat \<Rightarrow> rat \<Rightarrow> ab_result res" where
  "welch_t_test erf n_a mean_a var_a n_b mean_b var_b confidence =
     (if n_a < 2 \<or> n_b < 2 then Inr (inconclusive ''too_few_observations'')
      else case py_sqrt (of_rat (var_a / of_int n_a + var_b / of_int n_b)) of
        Inl err \<Rightarrow> Inl err
      | Inr se \<Rightarrow>
          if se = 0 then Inr ((inconclusive ''zero_variance'')\<lparr>ar_lift := Finite (mean_b - mean_a)\<rparr>)
          else let t = of_rat (mean_b - mean_a) / se; p_value = two_tailed_p_from_z erf t
               in case z_critical confidence of
                    Inl err \<Rightarrow> Inl err
                  | Inr z_alpha \<Rightarrow>
                      (let delta = of_rat (mean_b - mean_a);
                           res = \<lparr>ar_p_value = p_value, ar_lift = Finite (mean_b - mean_a),
                             ar_confidence_interval = (delta - z_alpha * se, delta + z_alpha * se),
                             ar_decision = (if max n_a n_b < 30 then ''inconclusive'' else ''loser''), ar_winner_arm = None,
                             ar_min_n_for_power = None, ar_reason = None,
                             ar_degrees_of_freedom = Some (welch_df n_a var_a n_b var_b)\<rparr>
                       in Inr (if p_value < 1 - of_rat confidence \<and> t \<noteq> 0
                               then res\<lparr>ar_decision := ''winner'',
                                        ar_winner_arm := Some (if mean_a < mean_b then ''b'' else ''a'')\<rparr>
                               else res)))"

section \<open>The tool\<close>

text \<open>An arm as the callers build it; a field the caller leaves out is 0.\<close>

record arm =
  arm_n :: int
  arm_x :: rat
  arm_mean :: rat
  arm_variance :: rat

definition ab_testing_call :: "(real \<Rightarrow> real) \<Rightarrow> arm \<Rightarrow> arm \<Rightarrow> string \<Rightarrow> rat \<Rightarrow> ab_result res" where
  "ab_testing_call erf arm_a arm_b metric_kind confidence =
     (if metric_kind = ''rate''
      then two_proportion_test erf (arm_n arm_a) (arm_x arm_a) (arm_n arm_b) (arm_x arm_b) confidence
      else if metric_kind = ''continuous''
      then welch_t_test erf (arm_n arm_a) (arm_mean arm_a) (arm_variance arm_a) (arm_n arm_b) (arm_mean arm_b)
             (arm_variance arm_b) confidence
      else Inr (inconclusive (''unsupported_metric_kind:'' @ metric_kind)))"

section \<open>Facts about the tests\<close>

lemma inv_norm_cdf_antisymmetric:
  assumes "0 < p" "p < 1"
  shows "inv_norm_cdf (1 - p) = map_sum id uminus (inv_norm_cdf p)"
proof -
  have central: "central_quantile (- q) = - central_quantile q" for q
    by (simp add: central_quantile_def Let_def)
  have "central_quantile (1 / 2 - p) = - central_quantile (p - 1 / 2)" using central [of "p - 1 / 2"] by simp
  then show ?thesis using assms by (auto simp: inv_norm_cdf_def Let_def)
qed

lemma two_tailed_even: "two_tailed_p_from_z erf (- z) = two_tailed_p_from_z erf z"
  by (simp add: two_tailed_p_from_z_def)

lemma variance_swap:
  "pooled_variance n_b x_b n_a x_a = pooled_variance n_a x_a n_b x_b"
  "unpooled_variance n_b p_b n_a p_a = unpooled_variance n_a p_a n_b p_b"
  by (simp_all add: pooled_variance_def unpooled_variance_def Let_def add.commute)

lemma min_n_swap: "min_n_for_proportion_power p_b p_a confidence = min_n_for_proportion_power p_a p_b confidence"
proof -
  have sq: "(p_b - p_a)\<^sup>2 = (p_a - p_b)\<^sup>2" by (rule power2_commute)
  have com: "p_b + p_a = p_a + p_b" "p_b * (1 - p_b) + p_a * (1 - p_a) = p_a * (1 - p_a) + p_b * (1 - p_b)" by simp_all
  show ?thesis unfolding min_n_for_proportion_power_def com sq by auto
qed

text \<open>A result with the two arms exchanged, the lift aside.\<close>

definition mirrored :: "ab_result \<Rightarrow> ab_result" where
  "mirrored r = r\<lparr>ar_lift := Finite 0,
     ar_confidence_interval := (- snd (ar_confidence_interval r), - fst (ar_confidence_interval r)),
     ar_winner_arm := map_option (\<lambda>a. if a = ''a'' then ''b'' else ''a'') (ar_winner_arm r)\<rparr>"

text \<open>The test of two proportions does not depend on which arm is called first: with the arms exchanged it raises in the
  same cases and otherwise gives the same p-value, decision and required sample, the mirrored confidence interval, and
  the same arm as winner.\<close>

theorem two_proportion_test_symmetric:
  "map_sum id (ar_lift_update (\<lambda>_. Finite 0)) (two_proportion_test erf n_b x_b n_a x_a confidence)
   = map_sum id mirrored (two_proportion_test erf n_a x_a n_b x_b confidence)"
proof (cases "n_a \<le> 0 \<or> n_b \<le> 0 \<or> pooled_variance n_a x_a n_b x_b = 0")
  case True
  then show ?thesis by (auto simp: two_proportion_test_def variance_swap inconclusive_def mirrored_def)
next
  case False
  define p_a p_b where p: "p_a = arm_rate x_a n_a" "p_b = arm_rate x_b n_b"
  define d where "d = sqrt (of_rat (pooled_variance n_a x_a n_b x_b))"
  define z where "z = of_rat (p_b - p_a) / d"
  define u where "u = unpooled_variance n_a p_a n_b p_b"
  have z: "of_rat (p_a - p_b) / d = - z" by (simp add: z_def of_rat_diff diff_divide_distrib)
  have ends: "of_rat (p_a - p_b) - x = - (of_rat (p_b - p_a) + x)" "of_rat (p_a - p_b) + x = - (of_rat (p_b - p_a) - x)"
    for x :: real by (simp_all add: of_rat_diff)
  have win: "p_b < p_a \<longleftrightarrow> \<not> p_a < p_b" if "z \<noteq> 0" using that by (auto simp: z_def)
  have guard: "\<not> (n_a \<le> 0 \<or> n_b \<le> 0)" "\<not> (n_b \<le> 0 \<or> n_a \<le> 0)" "d \<noteq> 0" using False by (auto simp: d_def)
  have orders: "n_b < k \<or> n_a < k \<longleftrightarrow> n_a < k \<or> n_b < k" for k by auto
  note unfolded = two_proportion_test_def p [symmetric] variance_swap(1) [of n_b x_b n_a x_a] d_def [symmetric]
    variance_swap(2) [of n_b p_b n_a p_a] u_def [symmetric] min_n_swap [of p_b p_a] Let_def z z_def [symmetric]
    two_tailed_even if_not_P [OF guard(1)] if_not_P [OF guard(2)] if_not_P [OF guard(3)] ends orders neg_equal_0_iff_equal
  show ?thesis
  proof (cases "z_critical confidence")
    case (Inr z_alpha)
    note za = this
    show ?thesis
    proof (cases "py_sqrt (of_rat u)")
      case (Inr se)
      show ?thesis
      proof (cases "two_tailed_p_from_z erf z < 1 - of_rat confidence \<and> z \<noteq> 0")
        case True
        show ?thesis unfolding unfolded za Inr sum.case if_P [OF True] using win True by (simp add: mirrored_def)
      next
        case False
        show ?thesis unfolding unfolded za Inr sum.case if_not_P [OF False]
          by (cases "min_n_for_proportion_power p_a p_b confidence") (simp_all add: mirrored_def)
      qed
    qed (simp only: unfolded za sum.case map_sum.simps)
  qed (simp only: unfolded sum.case map_sum.simps)
qed

lemma two_proportion_winner:
  assumes "two_proportion_test erf n_a x_a n_b x_b confidence = Inr r" "ar_decision r = ''winner''"
  shows "0 < n_a" "0 < n_b" "ar_winner_arm r = Some (if arm_rate x_a n_a < arm_rate x_b n_b then ''b'' else ''a'')"
    "arm_rate x_a n_a \<noteq> arm_rate x_b n_b" "ar_p_value r < 1 - of_rat confidence" "ar_lift r = rate_lift (arm_rate x_a n_a) (arm_rate x_b n_b)"
    "-1 < confidence" "confidence < 1"
proof -
  define p_a p_b where p: "p_a = arm_rate x_a n_a" "p_b = arm_rate x_b n_b"
  define d where "d = sqrt (of_rat (pooled_variance n_a x_a n_b x_b))"
  define z where "z = of_rat (p_b - p_a) / d"
  define u where "u = unpooled_variance n_a p_a n_b p_b"
  note run = assms(1) [unfolded two_proportion_test_def p [symmetric] d_def [symmetric] Let_def u_def [symmetric] z_def [symmetric]]
  have open_arms: "\<not> (n_a \<le> 0 \<or> n_b \<le> 0)"
  proof
    assume "n_a \<le> 0 \<or> n_b \<le> 0"
    then show False using run assms(2) by (simp only: if_True) (auto simp: inconclusive_def)
  qed
  then show "0 < n_a" "0 < n_b" by auto
  note run = run [unfolded if_not_P [OF open_arms]]
  have d: "d \<noteq> 0"
  proof
    assume "d = 0"
    then show False using run assms(2) by (simp only: if_True) (auto simp: inconclusive_def)
  qed
  note run = run [unfolded if_not_P [OF d]]
  obtain z_alpha where za: "z_critical confidence = Inr z_alpha" using run by (cases "z_critical confidence") simp_all
  then have "real_of_rat (-1) < of_rat confidence \<and> real_of_rat confidence < of_rat 1"
    by (auto simp: z_critical_def inv_norm_cdf_def Let_def split: if_splits)
  then show "-1 < confidence" "confidence < 1" by (simp_all only: of_rat_less)
  note run = run [unfolded za sum.case]
  obtain se where se: "py_sqrt (of_rat u) = Inr se" using run by (cases "py_sqrt (of_rat u)") simp_all
  note run = run [unfolded se sum.case]
  have sig: "two_tailed_p_from_z erf z < 1 - of_rat confidence \<and> z \<noteq> 0"
  proof (rule ccontr)
    assume "\<not> ?thesis"
    note run = run [unfolded if_not_P [OF this]]
    then show False using assms(2) by (cases "min_n_for_proportion_power p_a p_b confidence") (auto split: if_splits)
  qed
  note run = run [unfolded if_P [OF sig]]
  show "ar_winner_arm r = Some (if arm_rate x_a n_a < arm_rate x_b n_b then ''b'' else ''a'')"
    "arm_rate x_a n_a \<noteq> arm_rate x_b n_b" "ar_p_value r < 1 - of_rat confidence" "ar_lift r = rate_lift (arm_rate x_a n_a) (arm_rate x_b n_b)"
    using run sig unfolding p [symmetric] by (auto simp: z_def)
qed

text \<open>As many successes as there are recipients leave no variance: the pooled rate is at least one.\<close>

lemma saturated_is_degenerate:
  assumes "0 < n_a" "0 < n_b" "of_int (n_a + n_b) \<le> x_a + x_b"
  shows "two_proportion_test erf n_a x_a n_b x_b confidence = Inr (inconclusive ''degenerate'')"
proof -
  define pooled where "pooled = (x_a + x_b) / of_int (n_a + n_b)"
  have "1 \<le> pooled" using assms by (simp add: pooled_def le_divide_eq)
  moreover have "0 \<le> 1 / rat_of_int n_a + 1 / of_int n_b" using assms by simp
  ultimately have "pooled * (1 - pooled) * (1 / of_int n_a + 1 / of_int n_b) \<le> 0"
    by (intro mult_nonpos_nonneg mult_nonneg_nonpos) simp_all
  then have "pooled_variance n_a x_a n_b x_b = 0" by (simp add: pooled_variance_def Let_def pooled_def)
  then show ?thesis using assms by (simp add: two_proportion_test_def)
qed

text \<open>The confidence interval takes the square root of the two arms' own variances, which are negative for an arm with more
  successes than recipients.\<close>

lemma oversubscribed_arm_raises:
  assumes "0 < n_a" "0 < n_b" "pooled_variance n_a x_a n_b x_b \<noteq> 0"
    and "unpooled_variance n_a (arm_rate x_a n_a) n_b (arm_rate x_b n_b) < 0"
  shows "two_proportion_test erf n_a x_a n_b x_b confidence = Inl ValueError"
proof -
  define d where "d = sqrt (of_rat (pooled_variance n_a x_a n_b x_b))"
  have "\<not> (n_a \<le> 0 \<or> n_b \<le> 0)" "d \<noteq> 0" using assms(1-3) by (simp_all add: d_def)
  moreover have "py_sqrt (of_rat (unpooled_variance n_a (arm_rate x_a n_a) n_b (arm_rate x_b n_b))) = Inl ValueError"
    using assms(4) by (simp add: py_sqrt_def)
  moreover have "z_critical confidence = Inl err \<Longrightarrow> err = ValueError" for err
    by (auto simp: z_critical_def inv_norm_cdf_def Let_def split: if_splits)
  ultimately show ?thesis
    by (cases "z_critical confidence") (simp_all only: two_proportion_test_def d_def [symmetric] Let_def if_False sum.case, simp)
qed

lemma zero_baseline_lift:
  assumes "two_proportion_test erf n_a 0 n_b x_b confidence = Inr r" "0 < n_a" "0 < n_b" "0 < x_b" "x_b < of_int (n_a + n_b)"
  shows "ar_lift r = Infinite"
proof -
  define pooled where "pooled = x_b / of_int (n_a + n_b)"
  have pooled: "0 < pooled" "pooled < 1" using assms(2-5) by (simp_all add: pooled_def)
  have "0 < 1 / rat_of_int n_a + 1 / of_int n_b" using assms(2,3) by (simp add: add_pos_pos)
  then have "0 < pooled * (1 - pooled) * (1 / of_int n_a + 1 / of_int n_b)" using pooled by (intro mult_pos_pos) simp_all
  moreover have "pooled_variance n_a 0 n_b x_b = max (pooled * (1 - pooled) * (1 / of_int n_a + 1 / of_int n_b)) 0"
    by (simp only: pooled_variance_def Let_def pooled_def add_0)
  ultimately have var: "pooled_variance n_a 0 n_b x_b \<noteq> 0" by linarith
  define d where "d = sqrt (of_rat (pooled_variance n_a 0 n_b x_b))"
  have d: "d \<noteq> 0" "\<not> (n_a \<le> 0 \<or> n_b \<le> 0)" using var assms(2,3) by (simp_all add: d_def)
  have l: "rate_lift (arm_rate 0 n_a) (arm_rate x_b n_b) = Infinite" using assms(3,4) by (simp add: rate_lift_def arm_rate_def)
  note run = assms(1) [unfolded two_proportion_test_def d_def [symmetric] Let_def if_not_P [OF d(2)] if_not_P [OF d(1)] l]
  then show ?thesis
    by (cases "z_critical confidence"; cases "py_sqrt (of_rat (unpooled_variance n_a (arm_rate 0 n_a) n_b (arm_rate x_b n_b)))";
        cases "min_n_for_proportion_power (arm_rate 0 n_a) (arm_rate x_b n_b) confidence") (simp_all only: sum.case, auto split: if_splits)
qed

end
