(* ===== verification/Ab_Tests.thy ===== *)
theory Ab_Tests
  imports Kpi_Rollup Content_Seeding Dispatch Ab_Statistics
begin

text \<open>
  The A/B test endpoints (\<^verbatim>\<open>app/api/ab_tests.py\<close>) and the significance evaluator (\<^verbatim>\<open>app/ab_testing/significance.py\<close>): a test is
  designed, launched once its variants are approved, evaluated from the recorded assignments and events, and stopped or
  promoted. A session of a request sees the rows of the user's tenant only; a row the database refuses when the session
  commits makes the operation fail as a whole.
\<close>

section \<open>Access\<close>

definition get_ab_test :: "uuid \<Rightarrow> db \<Rightarrow> ab_test option" where
  "get_ab_test i s = find_row (\<lambda>t. ab_id t = i) (ab_tests s)"

definition modify_ab_test :: "uuid \<Rightarrow> (ab_test \<Rightarrow> ab_test) \<Rightarrow> db \<Rightarrow> db" where
  "modify_ab_test i f s = s\<lparr>ab_tests := update_where (\<lambda>t. ab_id t = i) f (ab_tests s)\<rparr>"

interpretation ab_test_table: keyed_table get_ab_test modify_ab_test ab_id
  by unfold_locales
    (auto simp: get_ab_test_def modify_ab_test_def find_row_update_key update_where_update_key dest: find_row_Some)

definition tenant_ab_test :: "app_user \<Rightarrow> uuid \<Rightarrow> db \<Rightarrow> ab_test option" where
  "tenant_ab_test user i s =
     (case get_ab_test i s of None \<Rightarrow> None | Some t \<Rightarrow> if ab_tenant_id t = user_tenant_id user then Some t else None)"

definition list_variants :: "app_user \<Rightarrow> uuid \<Rightarrow> db \<Rightarrow> content_asset list" where
  "list_variants user i s = filter (\<lambda>a. asset_tenant_id a = user_tenant_id user
     \<and> json_text (dict_get (asset_metadata a) ''ab_test_group_id'') = Some (uuid_str i)) (assets s)"

definition list_variant_ids :: "app_user \<Rightarrow> uuid \<Rightarrow> db \<Rightarrow> uuid list" where
  "list_variant_ids user i s = map asset_id (list_variants user i s)"

text \<open>The linked variants, or the canonical pair when none is linked.\<close>

definition variants_or_pair :: "app_user \<Rightarrow> ab_test \<Rightarrow> db \<Rightarrow> content_asset list" where
  "variants_or_pair user t s =
     (case list_variants user (ab_id t) s of
        [] \<Rightarrow> filter (\<lambda>a. asset_tenant_id a = user_tenant_id user
                \<and> (ab_variant_a_id t = Some (asset_id a) \<or> ab_variant_b_id t = Some (asset_id a))) (assets s)
      | vs \<Rightarrow> vs)"

section \<open>Reading\<close>

definition list_ab_tests :: "app_user \<Rightarrow> uuid \<Rightarrow> db \<Rightarrow> (ab_test list \<times> nat) res" where
  "list_ab_tests user camp s =
     (case require_role Viewer user of
        Inl err \<Rightarrow> Inl err
      | Inr _ \<Rightarrow>
          (let rows = sort_key ab_created_at
                 (filter (\<lambda>t. ab_tenant_id t = user_tenant_id user \<and> ab_campaign_id t = camp) (ab_tests s))
           in Inr (rows, length rows)))"

definition ab_test_detail :: "app_user \<Rightarrow> uuid \<Rightarrow> db \<Rightarrow> (ab_test \<times> uuid list) res" where
  "ab_test_detail user i s =
     (case require_role Viewer user of
        Inl err \<Rightarrow> Inl err
      | Inr _ \<Rightarrow>
          (case tenant_ab_test user i s of
             None \<Rightarrow> Inl (HTTPException 404)
           | Some t \<Rightarrow> Inr (t, list_variant_ids user i s)))"

section \<open>Adding a variant\<close>

text \<open>\<^verbatim>\<open>int(v.extra_metadata.get("variant_index", 0))\<close>.\<close>

definition variant_index :: "content_asset \<Rightarrow> int res" where
  "variant_index a =
     (let v = dict_get_default (asset_metadata a) ''variant_index'' (JInt 0)
      in case py_int v of
           Some k \<Rightarrow> Inr k
         | None \<Rightarrow> Inl (case v of JStr _ \<Rightarrow> ValueError | _ \<Rightarrow> TypeError))"

definition next_variant_index :: "content_asset list \<Rightarrow> int res" where
  "next_variant_index existing =
     map_sum id (\<lambda>ks. Max (set ks) + 1)
       (fold (\<lambda>a acc. case acc of Inl err \<Rightarrow> Inl err | Inr ks \<Rightarrow> map_sum id (\<lambda>k. k # ks) (variant_index a)) existing (Inr []))"

definition cloned_variant :: "env \<Rightarrow> uuid \<Rightarrow> content_asset \<Rightarrow> int \<Rightarrow> uuid \<Rightarrow> content_asset" where
  "cloned_variant e test tpl idx i =
     \<lparr>asset_id = i, asset_tenant_id = asset_tenant_id tpl, asset_campaign_id = asset_campaign_id tpl,
      asset_channel_id = asset_channel_id tpl, asset_type_of = asset_type_of tpl, asset_status_of = ARequested,
      asset_title = None, asset_content = None,
      asset_metadata = [(''touchpoint_id'', dict_get (asset_metadata tpl) ''touchpoint_id''),
        (''channel_platform'', dict_get (asset_metadata tpl) ''channel_platform''),
        (''ab_test_group_id'', JStr (uuid_str test)), (''variant_index'', JInt idx),
        (''variant_angle'', JStr (angle_for_index idx)), (''is_baseline'', JBool False)],
      asset_is_required = False, asset_scheduled_at = asset_scheduled_at tpl, asset_published_at = None,
      asset_updated_at = env_now e\<rparr>"

record add_variant_response =
  av_ab_test_id :: uuid
  av_variant_id :: uuid
  av_variant_index :: int
  av_task_id :: uuid

definition add_variant :: "bool \<Rightarrow> env \<Rightarrow> app_user \<Rightarrow> uuid \<Rightarrow> db \<Rightarrow> (add_variant_response \<times> db) res" where
  "add_variant configured e user i s =
     (case require_role Marketer user of
        Inl err \<Rightarrow> Inl err
      | Inr _ \<Rightarrow>
          if \<not> configured then Inl (HTTPException 503)
          else case tenant_ab_test user i s of
            None \<Rightarrow> Inl (HTTPException 404)
          | Some _ \<Rightarrow>
              (let existing = list_variants user i s
               in if existing = [] \<or> max_variants \<le> int (length existing) then Inl (HTTPException 409)
                  else case next_variant_index existing of
                    Inl err \<Rightarrow> Inl err
                  | Inr idx \<Rightarrow>
                      (let (a, s1) = insert_asset (cloned_variant e i (hd existing) idx) s
                       in case ensure_content_creator_agent e (asset_tenant_id a) s1 of
                            Inl err \<Rightarrow> Inl err
                          | Inr (ag, s2) \<Rightarrow>
                         (case enqueue_task e
                             ((request (asset_tenant_id a) (ag_id ag) ''content_creator.generate_asset''
                                 [(''asset_id'', JStr (uuid_str (asset_id a))),
                                  (''campaign_id'', JStr (uuid_str (asset_campaign_id a))),
                                  (''triggered_by_user_id'', JStr (uuid_str (user_id user)))])
                                \<lparr>rq_campaign_id := Some (asset_campaign_id a)\<rparr>) s2 of
                            Inl err \<Rightarrow> Inl err
                          | Inr (t, s3) \<Rightarrow>
                              Inr (\<lparr>av_ab_test_id = i, av_variant_id = asset_id a, av_variant_index = idx,
                                    av_task_id = task_id t\<rparr>, s3)))))"

section \<open>Defining a test\<close>

record create_ab_test_request =
  cr_name :: string
  cr_hypothesis :: "string option"
  cr_primary_metric :: string
  cr_variant_ids :: "uuid list"
  cr_traffic_split :: "(uuid \<times> int) list"
  cr_min_runtime_hours :: "int option"
  cr_max_runtime_hours :: "int option"

definition runtime_within :: "int \<Rightarrow> int option \<Rightarrow> bool" where
  "runtime_within m h \<longleftrightarrow> (case h of None \<Rightarrow> True | Some k \<Rightarrow> 1 \<le> k \<and> k \<le> m)"

text \<open>The field constraints of the request; a dictionary has distinct keys.\<close>

definition create_request_valid :: "create_ab_test_request \<Rightarrow> bool" where
  "create_request_valid body \<longleftrightarrow>
     1 \<le> length (cr_name body) \<and> length (cr_name body) \<le> 200
     \<and> 1 \<le> length (cr_primary_metric body) \<and> length (cr_primary_metric body) \<le> 50
     \<and> 2 \<le> length (cr_variant_ids body) \<and> length (cr_variant_ids body) \<le> 5
     \<and> distinct (map fst (cr_traffic_split body))
     \<and> runtime_within (24 * 30) (cr_min_runtime_hours body) \<and> runtime_within (24 * 60) (cr_max_runtime_hours body)"

definition active_test :: "ab_test \<Rightarrow> bool" where
  "active_test t \<longleftrightarrow> ab_status t = ABDesigning \<or> ab_status t = ABRunning"

text \<open>The partial unique index \<^verbatim>\<open>uq_ab_test_active_per_variant_a\<close>.\<close>

definition active_on :: "uuid \<Rightarrow> uuid \<Rightarrow> db \<Rightarrow> bool" where
  "active_on tenant a s \<longleftrightarrow> list_ex (\<lambda>t. ab_tenant_id t = tenant \<and> ab_variant_a_id t = Some a \<and> active_test t) (ab_tests s)"

definition designed_test :: "env \<Rightarrow> app_user \<Rightarrow> uuid \<Rightarrow> create_ab_test_request \<Rightarrow> uuid \<Rightarrow> ab_test" where
  "designed_test e user camp body i =
     \<lparr>ab_id = i, ab_tenant_id = user_tenant_id user, ab_campaign_id = camp, ab_name = cr_name body,
      ab_hypothesis = cr_hypothesis body, ab_primary_metric = cr_primary_metric body, ab_status = ABDesigning,
      ab_variant_a_id = Some (cr_variant_ids body ! 0), ab_variant_b_id = Some (cr_variant_ids body ! 1),
      ab_winner_id = None, ab_confidence = None, ab_lift = None, ab_last_evaluated_at = None,
      ab_traffic_split = JObj (map (\<lambda>(k, v). (uuid_str k, JInt v)) (cr_traffic_split body)),
      ab_min_runtime_hours = cr_min_runtime_hours body, ab_max_runtime_hours = cr_max_runtime_hours body,
      ab_started_at = None, ab_stopped_at = None, ab_created_at = env_now e\<rparr>"

definition create_ab_test ::
  "env \<Rightarrow> app_user \<Rightarrow> uuid \<Rightarrow> create_ab_test_request \<Rightarrow> db \<Rightarrow> (ab_test \<times> db) res" where
  "create_ab_test e user camp body s =
     (case require_role Marketer user of
        Inl err \<Rightarrow> Inl err
      | Inr _ \<Rightarrow>
          if \<not> create_request_valid body then Inl (HTTPException 422)
          else case tenant_campaign user camp s of
            None \<Rightarrow> Inl (HTTPException 404)
          | Some _ \<Rightarrow>
              (let ids = cr_variant_ids body;
                   variants = filter (\<lambda>a. asset_id a \<in> set ids \<and> asset_tenant_id a = user_tenant_id user) (assets s)
               in if \<not> distinct ids \<or> sum_list (map snd (cr_traffic_split body)) \<noteq> 100
                     \<or> set (map fst (cr_traffic_split body)) \<noteq> set ids \<or> length variants \<noteq> length ids
                     \<or> list_ex (\<lambda>a. asset_campaign_id a \<noteq> camp) variants
                  then Inl (HTTPException 422)
                  else if active_on (user_tenant_id user) (ids ! 0) s then Inl (HTTPException 409)
                  else let (i, s1) = fresh_uuid s; t = designed_test e user camp body i
                       in Inr (t, fold (\<lambda>a. modify_asset e (asset_id a) (link_variant t)) variants
                                    (s1\<lparr>ab_tests := ab_tests s1 @ [t]\<rparr>))))"

section \<open>Launching, stopping and promoting\<close>

definition launch_ready :: "asset_status \<Rightarrow> bool" where
  "launch_ready st \<longleftrightarrow> st = AApproved \<or> st = AScheduled"

definition started :: "instant \<Rightarrow> ab_test \<Rightarrow> ab_test" where
  "started now t = t\<lparr>ab_status := ABRunning, ab_started_at := Some now\<rparr>"

definition launch_ab_test :: "env \<Rightarrow> app_user \<Rightarrow> uuid \<Rightarrow> db \<Rightarrow> (ab_test \<times> db) res" where
  "launch_ab_test e user i s =
     (case require_role Marketer user of
        Inl err \<Rightarrow> Inl err
      | Inr _ \<Rightarrow>
          (case tenant_ab_test user i s of
             None \<Rightarrow> Inl (HTTPException 404)
           | Some t \<Rightarrow>
               if ab_status t \<noteq> ABDesigning then Inl (HTTPException 409)
               else let variants = variants_or_pair user t s
                    in if variants = [] \<or> list_ex (\<lambda>v. \<not> launch_ready (asset_status_of v)) variants
                       then Inl (HTTPException 409)
                       else Inr (started (env_now e) t, modify_ab_test i (started (env_now e)) s)))"

definition stopped :: "instant \<Rightarrow> ab_test \<Rightarrow> ab_test" where
  "stopped now t = t\<lparr>ab_status := ABStopped, ab_stopped_at := Some now\<rparr>"

definition stop_ab_test :: "env \<Rightarrow> app_user \<Rightarrow> uuid \<Rightarrow> db \<Rightarrow> (ab_test \<times> db) res" where
  "stop_ab_test e user i s =
     (case require_role Manager user of
        Inl err \<Rightarrow> Inl err
      | Inr _ \<Rightarrow>
          (case tenant_ab_test user i s of
             None \<Rightarrow> Inl (HTTPException 404)
           | Some t \<Rightarrow>
               if \<not> active_test t then Inl (HTTPException 409)
               else Inr (stopped (env_now e) t, modify_ab_test i (stopped (env_now e)) s)))"

definition compliance_flags :: "content_asset \<Rightarrow> json" where
  "compliance_flags a =
     (let v = dict_get (asset_metadata a) ''compliance_violations'' in if truthy v then v else JArr [])"

definition archived_loser :: "content_asset \<Rightarrow> content_asset" where
  "archived_loser v = v\<lparr>asset_status_of := AArchived\<rparr>"

definition archives :: "content_asset \<Rightarrow> content_asset \<Rightarrow> bool" where
  "archives winner v \<longleftrightarrow> asset_id v \<noteq> asset_id winner \<and> asset_status_of v \<noteq> AArchived \<and> asset_status_of v \<noteq> APublished"

definition promoted :: "uuid \<Rightarrow> ab_test \<Rightarrow> ab_test" where
  "promoted w t = t\<lparr>ab_traffic_split := JObj [(uuid_str w, JInt 100)]\<rparr>"

definition promote_ab_test :: "env \<Rightarrow> app_user \<Rightarrow> uuid \<Rightarrow> db \<Rightarrow> (ab_test \<times> db) res" where
  "promote_ab_test e user i s =
     (case require_role Marketer user of
        Inl err \<Rightarrow> Inl err
      | Inr _ \<Rightarrow>
          (case tenant_ab_test user i s of
             None \<Rightarrow> Inl (HTTPException 404)
           | Some t \<Rightarrow>
          (case (ab_status t, ab_winner_id t) of
             (ABSignificant, Some w) \<Rightarrow>
               (case tenant_asset user w s of
                  None \<Rightarrow> Inl (HTTPException 409)
                | Some winner \<Rightarrow>
                    (let flags = compliance_flags winner
                     in if truthy flags \<and> role_rank (user_role_of user) < role_rank Manager then Inl (HTTPException 409)
                        else let s1 = fold (\<lambda>v. modify_asset e (asset_id v) archived_loser)
                                        (filter (archives winner) (variants_or_pair user t s)) s
                             in Inr (promoted w t,
                                  write_audit e (ab_tenant_id t) ''ab_test'' (ab_id t) ''ab_test_promoted'' None None
                                    [(''winner_id'', JStr (uuid_str w)), (''prior_split'', ab_traffic_split t),
                                     (''compliance_violations'', flags)]
                                    (modify_ab_test i (promoted w) s1))))
           | _ \<Rightarrow> Inl (HTTPException 409))))"

section \<open>Evaluation\<close>

definition eval_throttle :: duration where "eval_throttle = 15 * 60 * usec_per_sec"

definition metric_to_event_kind :: "(string \<times> event_kind) list" where
  "metric_to_event_kind =
     [(''open'', EOpen), (''open_rate'', EOpen), (''click'', EClick), (''click_rate'', EClick), (''ctr'', EClick),
      (''conversion'', EConversion), (''conversion_rate'', EConversion), (''reply'', EReply),
      (''unsubscribe'', EUnsubscribe)]"

record eval_result =
  er_ab_test_id :: uuid
  er_status :: ab_test_status
  er_skipped :: bool
  er_skip_reason :: "string option"
  er_decision :: "string option"
  er_winner_id :: "uuid option"
  er_p_value :: "real option"
  er_lift :: "lift option"
  er_sample_a :: "(nat \<times> nat) option"
  er_sample_b :: "(nat \<times> nat) option"

definition eval_skipped :: "uuid \<Rightarrow> ab_test_status \<Rightarrow> string \<Rightarrow> eval_result" where
  "eval_skipped i st reason = \<lparr>er_ab_test_id = i, er_status = st, er_skipped = True, er_skip_reason = Some reason,
     er_decision = None, er_winner_id = None, er_p_value = None, er_lift = None, er_sample_a = None, er_sample_b = None\<rparr>"

text \<open>The recipients assigned to a variant, and the events that belong to a message of it.\<close>

definition arm_sample :: "uuid \<Rightarrow> uuid \<Rightarrow> uuid \<Rightarrow> event_kind \<Rightarrow> db \<Rightarrow> nat \<times> nat" where
  "arm_sample tenant test variant kind s =
     (length (filter (\<lambda>a. asg_tenant_id a = tenant \<and> asg_ab_test_id a = test \<and> asg_variant_id a = variant) (assignments s)),
      length (filter (\<lambda>ev. ev_tenant_id ev = tenant \<and> ev_type ev = kind
        \<and> list_ex (\<lambda>att. attempt_names tenant ev att \<and> att_asset_id att = variant) (attempts s)) (events s)))"

definition sample_arm :: "nat \<times> nat \<Rightarrow> arm" where
  "sample_arm p = \<lparr>arm_n = int (fst p), arm_x = of_nat (snd p), arm_mean = 0, arm_variance = 0\<rparr>"

text \<open>\<^verbatim>\<open>round(x, 4)\<close>, and the column \<^verbatim>\<open>lift\<close>, a \<^verbatim>\<open>Numeric(8, 4)\<close>, which holds no infinite value and none from ten thousand on.\<close>

definition round4 :: "rat \<Rightarrow> rat" where
  "round4 q = of_int (round_half_even (q * 10000)) / 10000"

definition lift_column :: "lift \<Rightarrow> rat res" where
  "lift_column l =
     (case l of
        Infinite \<Rightarrow> Inl DataError
      | Finite q \<Rightarrow> if 10000 \<le> \<bar>round4 q\<bar> then Inl DataError else Inr (round4 q))"

definition timed_out :: "instant \<Rightarrow> ab_test \<Rightarrow> bool" where
  "timed_out now t \<longleftrightarrow>
     (case (ab_max_runtime_hours t, ab_started_at t) of (Some h, Some st) \<Rightarrow> hours h \<le> now - st | _ \<Rightarrow> False)"

definition winner_of :: "uuid \<Rightarrow> uuid \<Rightarrow> ab_result \<Rightarrow> uuid option" where
  "winner_of a b r = (if ar_decision r = ''winner'' then Some (if ar_winner_arm r = Some ''b'' then b else a) else None)"

definition evaluated :: "instant \<Rightarrow> rat \<Rightarrow> rat \<Rightarrow> uuid option \<Rightarrow> ab_test \<Rightarrow> ab_test" where
  "evaluated now confidence l win t =
     (let t1 = t\<lparr>ab_last_evaluated_at := Some now, ab_lift := Some l\<rparr>
      in case win of
           Some w \<Rightarrow> t1\<lparr>ab_status := ABSignificant, ab_winner_id := Some w, ab_confidence := Some (round4 confidence)\<rparr>
         | None \<Rightarrow> if timed_out now t then t1\<lparr>ab_status := ABInconclusive\<rparr> else t1)"

definition evaluate_running ::
  "(real \<Rightarrow> real) \<Rightarrow> instant \<Rightarrow> rat \<Rightarrow> ab_test \<Rightarrow> uuid \<Rightarrow> uuid \<Rightarrow> event_kind \<Rightarrow> db \<Rightarrow> (eval_result \<times> db) res" where
  "evaluate_running erf now confidence t a b kind s =
     (let sample_a = arm_sample (ab_tenant_id t) (ab_id t) a kind s; sample_b = arm_sample (ab_tenant_id t) (ab_id t) b kind s
      in case ab_testing_call erf (sample_arm sample_a) (sample_arm sample_b) ''rate'' confidence of
           Inl err \<Rightarrow> Inl err
         | Inr r \<Rightarrow>
        (case lift_column (ar_lift r) of
           Inl err \<Rightarrow> Inl err
         | Inr l \<Rightarrow>
             (let t' = evaluated now confidence l (winner_of a b r)
              in Inr (\<lparr>er_ab_test_id = ab_id t, er_status = ab_status (t' t), er_skipped = False, er_skip_reason = None,
                    er_decision = Some (ar_decision r), er_winner_id = winner_of a b r, er_p_value = Some (ar_p_value r),
                    er_lift = Some (ar_lift r), er_sample_a = Some sample_a, er_sample_b = Some sample_b\<rparr>,
                  modify_ab_test (ab_id t) t' s))))"

definition evaluate_test :: "(real \<Rightarrow> real) \<Rightarrow> uuid \<Rightarrow> instant \<Rightarrow> rat \<Rightarrow> db \<Rightarrow> (eval_result \<times> db) res" where
  "evaluate_test erf i now confidence s =
     (case get_ab_test i s of
        None \<Rightarrow> Inr (eval_skipped i ABDesigning ''not_found'', s)
      | Some t \<Rightarrow>
          (let skip = (\<lambda>reason. Inr (eval_skipped i (ab_status t) reason, s))
           in if ab_status t = ABStopped \<or> ab_status t = ABSignificant
              then skip (''already_'' @ ab_status_value (ab_status t))
              else if ab_status t \<noteq> ABRunning then skip (''status_'' @ ab_status_value (ab_status t))
              else if (case ab_last_evaluated_at t of None \<Rightarrow> False | Some at0 \<Rightarrow> now - at0 < eval_throttle) then skip ''throttled''
              else case (ab_variant_a_id t, ab_variant_b_id t) of
                (Some a, Some b) \<Rightarrow>
                  (case map_of metric_to_event_kind (ab_primary_metric t) of
                     None \<Rightarrow> skip (''unsupported_metric:'' @ ab_primary_metric t)
                   | Some kind \<Rightarrow> evaluate_running erf now confidence t a b kind s)
              | _ \<Rightarrow> skip ''single_variant_test''))"

section \<open>Effects\<close>

lemma fold_modify_asset_tests: "ab_tests (fold (\<lambda>a. modify_asset e (asset_id a) f) vs s) = ab_tests s"
  by (induction vs arbitrary: s) (simp_all add: modify_frame)

lemma tenant_ab_test_Some:
  "tenant_ab_test user i s = Some t \<longleftrightarrow> get_ab_test i s = Some t \<and> ab_tenant_id t = user_tenant_id user"
  by (auto simp: tenant_ab_test_def split: option.splits if_splits)

lemma create_ab_test_Inr:
  assumes "create_ab_test e user camp body s = Inr (t, s')"
  shows "t = designed_test e user camp body (db_gen s (db_seq s))" "ab_tests s' = ab_tests s @ [t]"
    "\<not> active_on (user_tenant_id user) (cr_variant_ids body ! 0) s" "create_request_valid body"
    "sum_list (map snd (cr_traffic_split body)) = 100" "set (map fst (cr_traffic_split body)) = set (cr_variant_ids body)"
  using assms
  by (auto simp: create_ab_test_def require_role_def fresh_uuid_def Let_def fold_modify_asset_tests split: if_splits option.splits)

lemma add_variant_Inr:
  assumes "add_variant configured e user i s = Inr (r, s')"
  obtains idx s1 ag s2 t where "list_variants user i s \<noteq> []" "int (length (list_variants user i s)) < max_variants"
    "next_variant_index (list_variants user i s) = Inr idx"
    "s1 = s\<lparr>db_seq := Suc (db_seq s), assets := assets s @ [cloned_variant e i (hd (list_variants user i s)) idx (db_gen s (db_seq s))]\<rparr>"
    "ensure_content_creator_agent e (asset_tenant_id (hd (list_variants user i s))) s1 = Inr (ag, s2)"
    "enqueue_task e ((request (asset_tenant_id (hd (list_variants user i s))) (ag_id ag) ''content_creator.generate_asset''
        [(''asset_id'', JStr (uuid_str (db_gen s (db_seq s)))),
         (''campaign_id'', JStr (uuid_str (asset_campaign_id (hd (list_variants user i s))))),
         (''triggered_by_user_id'', JStr (uuid_str (user_id user)))])
       \<lparr>rq_campaign_id := Some (asset_campaign_id (hd (list_variants user i s)))\<rparr>) s2 = Inr (t, s')"
    "av_variant_id r = db_gen s (db_seq s)" "av_task_id r = task_id t"
  using assms
  by (auto simp: add_variant_def require_role_def insert_asset_def fresh_uuid_def cloned_variant_def Let_def
      split: if_splits option.splits sum.splits prod.splits)

lemma launch_ab_test_Inr:
  assumes "launch_ab_test e user i s = Inr (t', s')"
  obtains t where "get_ab_test i s = Some t" "ab_tenant_id t = user_tenant_id user" "ab_status t = ABDesigning"
    "variants_or_pair user t s \<noteq> []" "\<forall>v\<in>set (variants_or_pair user t s). launch_ready (asset_status_of v)"
    "t' = started (env_now e) t" "s' = modify_ab_test i (started (env_now e)) s"
  using assms
  by (auto simp: launch_ab_test_def require_role_def Let_def tenant_ab_test_Some list_ex_iff split: if_splits option.splits)

lemma stop_ab_test_Inr:
  assumes "stop_ab_test e user i s = Inr (t', s')"
  obtains t where "get_ab_test i s = Some t" "active_test t" "s' = modify_ab_test i (stopped (env_now e)) s"
  using assms
  by (auto simp: stop_ab_test_def require_role_def tenant_ab_test_Some split: if_splits option.splits)

lemma promote_ab_test_Inr:
  assumes "promote_ab_test e user i s = Inr (t', s')"
  obtains t w winner s1 where "get_ab_test i s = Some t" "ab_status t = ABSignificant" "ab_winner_id t = Some w"
    "tenant_asset user w s = Some winner"
    "truthy (compliance_flags winner) \<longrightarrow> role_rank Manager \<le> role_rank (user_role_of user)"
    "s1 = fold (\<lambda>v. modify_asset e (asset_id v) archived_loser) (filter (archives winner) (variants_or_pair user t s)) s"
    "s' = write_audit e (ab_tenant_id t) ''ab_test'' (ab_id t) ''ab_test_promoted'' None None
            [(''winner_id'', JStr (uuid_str w)), (''prior_split'', ab_traffic_split t),
             (''compliance_violations'', compliance_flags winner)] (modify_ab_test i (promoted w) s1)"
  using assms
  by (auto simp: promote_ab_test_def require_role_def Let_def tenant_ab_test_Some
      split: if_splits option.splits ab_test_status.splits)

lemma evaluate_test_Inr:
  assumes "evaluate_test erf i now confidence s = Inr (r, s')"
  obtains (skipped) "er_skipped r" "er_winner_id r = None" "s' = s"
  | (run) t a b kind where "get_ab_test i s = Some t" "ab_status t = ABRunning"
    "\<forall>at0. ab_last_evaluated_at t = Some at0 \<longrightarrow> eval_throttle \<le> now - at0" "ab_variant_a_id t = Some a" "ab_variant_b_id t = Some b"
    "map_of metric_to_event_kind (ab_primary_metric t) = Some kind" "evaluate_running erf now confidence t a b kind s = Inr (r, s')"
  using assms
  by (auto simp: evaluate_test_def Let_def eval_skipped_def split: if_splits option.splits)

lemma evaluate_running_Inr:
  assumes "evaluate_running erf now confidence t a b kind s = Inr (r, s')"
  obtains res l n_a x_a n_b x_b where
    "arm_sample (ab_tenant_id t) (ab_id t) a kind s = (n_a, x_a)" "arm_sample (ab_tenant_id t) (ab_id t) b kind s = (n_b, x_b)"
    "two_proportion_test erf (int n_a) (of_nat x_a) (int n_b) (of_nat x_b) confidence = Inr res" "lift_column (ar_lift res) = Inr l"
    "er_winner_id r = winner_of a b res" "er_p_value r = Some (ar_p_value res)" "er_sample_a r = Some (n_a, x_a)" "er_sample_b r = Some (n_b, x_b)" "\<not> er_skipped r"
    "er_status r = ab_status (evaluated now confidence l (winner_of a b res) t)"
    "s' = modify_ab_test (ab_id t) (evaluated now confidence l (winner_of a b res)) s"
  using assms
  by (cases "arm_sample (ab_tenant_id t) (ab_id t) a kind s"; cases "arm_sample (ab_tenant_id t) (ab_id t) b kind s")
    (auto simp: evaluate_running_def ab_testing_call_def sample_arm_def Let_def split: sum.splits)

section \<open>The state of the tests\<close>

definition test_ok :: "ab_test \<Rightarrow> bool" where
  "test_ok t \<longleftrightarrow> (ab_winner_id t \<noteq> None \<longleftrightarrow> ab_status t = ABSignificant)
     \<and> (ab_winner_id t = None \<or> ab_winner_id t = ab_variant_a_id t \<or> ab_winner_id t = ab_variant_b_id t)
     \<and> (ab_started_at t = None \<longrightarrow> ab_status t = ABDesigning \<or> ab_status t = ABStopped)
     \<and> (ab_status t = ABDesigning \<longrightarrow> ab_started_at t = None)
     \<and> (ab_stopped_at t \<noteq> None \<longleftrightarrow> ab_status t = ABStopped)"

definition same_family :: "ab_test \<Rightarrow> ab_test \<Rightarrow> bool" where
  "same_family t t' \<longleftrightarrow> ab_tenant_id t = ab_tenant_id t' \<and> ab_variant_a_id t \<noteq> None \<and> ab_variant_a_id t = ab_variant_a_id t'"

definition ab_inv :: "db \<Rightarrow> bool" where
  "ab_inv s \<longleftrightarrow> distinct (map ab_id (ab_tests s)) \<and> (\<forall>t\<in>set (ab_tests s). test_ok t)
     \<and> (\<forall>t\<in>set (ab_tests s). \<forall>t'\<in>set (ab_tests s). active_test t \<and> active_test t' \<and> same_family t t' \<longrightarrow> ab_id t = ab_id t')"

datatype ab_op = AbCreate create_ab_test_request | AbAddVariant uuid | AbLaunch uuid | AbStop uuid | AbPromote uuid
  | AbEvaluate uuid | AbSeed

text \<open>
  One operation on the tests. Identifiers are fresh, and the rows of a touchpoint that content seeding links to a new
  test are assets it has just inserted, which no test names yet.
\<close>

inductive ab_step :: "ab_op \<Rightarrow> db \<Rightarrow> db \<Rightarrow> bool" where
  step_create: "create_ab_test e user camp body s = Inr (t, s') \<Longrightarrow> db_gen s (db_seq s) \<notin> ab_id ` set (ab_tests s)
    \<Longrightarrow> ab_step (AbCreate body) s s'"
| step_add: "add_variant configured e user i s = Inr (r, s') \<Longrightarrow> ab_step (AbAddVariant i) s s'"
| step_launch: "launch_ab_test e user i s = Inr (t, s') \<Longrightarrow> ab_step (AbLaunch i) s s'"
| step_stop: "stop_ab_test e user i s = Inr (t, s') \<Longrightarrow> ab_step (AbStop i) s s'"
| step_promote: "promote_ab_test e user i s = Inr (t, s') \<Longrightarrow> ab_step (AbPromote i) s s'"
| step_evaluate: "evaluate_test erf i now confidence s = Inr (er, s') \<Longrightarrow> ab_step (AbEvaluate i) s s'"
| step_seed: "s' = seed_ab_test e camp (Some sp, row # rows) s \<Longrightarrow> db_gen s (db_seq s) \<notin> ab_id ` set (ab_tests s)
    \<Longrightarrow> \<forall>t\<in>set (ab_tests s). ab_variant_a_id t \<noteq> Some (asset_id row) \<Longrightarrow> ab_step AbSeed s s'"

lemma ab_inv_same: "ab_inv s \<Longrightarrow> ab_tests s' = ab_tests s \<Longrightarrow> ab_inv s'"
  by (simp add: ab_inv_def)

lemma ab_inv_append:
  assumes "ab_inv s" "ab_tests s' = ab_tests s @ [t]" "ab_id t \<notin> ab_id ` set (ab_tests s)" "test_ok t"
    and "\<And>u. u \<in> set (ab_tests s) \<Longrightarrow> active_test u \<Longrightarrow> \<not> same_family u t"
  shows "ab_inv s'"
proof -
  have "\<not> same_family t u" if "u \<in> set (ab_tests s)" "active_test u" for u
    using assms(5) [OF that] by (auto simp: same_family_def)
  with assms show ?thesis unfolding ab_inv_def by auto
qed

lemma ab_inv_modify:
  assumes inv: "ab_inv s" and t: "get_ab_test i s = Some t" and ok: "test_ok (f t)"
    and keeps: "\<And>u. ab_id (f u) = ab_id u" "ab_tenant_id (f t) = ab_tenant_id t" "ab_variant_a_id (f t) = ab_variant_a_id t"
    and active: "active_test (f t) \<Longrightarrow> active_test t"
    and tests: "ab_tests s' = ab_tests (modify_ab_test i f s)"
  shows "ab_inv s'"
proof -
  have mem: "t \<in> set (ab_tests s)" "ab_id t = i" using t by (auto simp: get_ab_test_def dest: find_row_Some)
  have uniq: "u = t" if "u \<in> set (ab_tests s)" "ab_id u = i" for u
    using inv mem that by (auto simp: ab_inv_def distinct_map inj_on_def)
  have rows: "\<exists>u\<in>set (ab_tests s). ab_id r = ab_id u \<and> ab_tenant_id r = ab_tenant_id u
      \<and> ab_variant_a_id r = ab_variant_a_id u \<and> (active_test r \<longrightarrow> active_test u) \<and> test_ok r" if "r \<in> set (ab_tests s')" for r
  proof -
    from that obtain u where u: "u \<in> set (ab_tests s)" "r = (if ab_id u = i then f u else u)"
      by (auto simp: tests modify_ab_test_def update_where_def)
    then show ?thesis using uniq [of u] ok keeps active inv by (cases "ab_id u = i") (auto simp: ab_inv_def intro!: bexI [of _ u])
  qed
  have "map ab_id (ab_tests s') = map ab_id (ab_tests s)"
    by (simp add: tests modify_ab_test_def map_update_where keeps)
  moreover have "ab_id r = ab_id r'" if "r \<in> set (ab_tests s')" "r' \<in> set (ab_tests s')" "active_test r" "active_test r'" "same_family r r'"
    for r r'
    using rows [OF that(1)] rows [OF that(2)] that(3-5) inv unfolding ab_inv_def same_family_def by metis
  ultimately show ?thesis using inv rows unfolding ab_inv_def by auto
qed

lemma add_variant_tests: "add_variant configured e user i s = Inr (r, s') \<Longrightarrow> ab_tests s' = ab_tests s"
proof (erule add_variant_Inr)
  fix idx s1 ag s2 t
  assume s1: "s1 = s\<lparr>db_seq := Suc (db_seq s), assets := assets s @ [cloned_variant e i (hd (list_variants user i s)) idx (db_gen s (db_seq s))]\<rparr>"
    and ag: "ensure_content_creator_agent e (asset_tenant_id (hd (list_variants user i s))) s1 = Inr (ag, s2)"
    and en: "enqueue_task e ((request (asset_tenant_id (hd (list_variants user i s))) (ag_id ag) ''content_creator.generate_asset''
        [(''asset_id'', JStr (uuid_str (db_gen s (db_seq s)))),
         (''campaign_id'', JStr (uuid_str (asset_campaign_id (hd (list_variants user i s))))),
         (''triggered_by_user_id'', JStr (uuid_str (user_id user)))])
       \<lparr>rq_campaign_id := Some (asset_campaign_id (hd (list_variants user i s)))\<rparr>) s2 = Inr (t, s')"
  have "ab_tests s' = ab_tests s2" using en by (auto simp: enqueue_task_def request_def insert_task_def fresh_uuid_def Let_def)
  also have "\<dots> = ab_tests s1" using ensure_agent_frame [OF ag [unfolded ensure_content_creator_agent_def]] by simp
  finally show ?thesis by (simp add: s1)
qed

lemma seed_ab_test_tests:
  "ab_tests (seed_ab_test e camp (Some sp, row # rows) s) = ab_tests s @ [fst (insert_ab_test e camp sp (row # rows) s)]"
  by (simp add: seed_ab_test_def insert_ab_test_def fresh_uuid_def Let_def fold_modify_asset_tests modify_frame)

lemma active_on_iff:
  "active_on ten a s \<longleftrightarrow> (\<exists>t\<in>set (ab_tests s). ab_tenant_id t = ten \<and> ab_variant_a_id t = Some a \<and> active_test t)"
  by (auto simp: active_on_def list_ex_iff)

lemma evaluated_keeps [simp]:
  "ab_id (evaluated now c l win t) = ab_id t" "ab_tenant_id (evaluated now c l win t) = ab_tenant_id t"
  "ab_variant_a_id (evaluated now c l win t) = ab_variant_a_id t" "ab_variant_b_id (evaluated now c l win t) = ab_variant_b_id t"
  by (simp_all add: evaluated_def Let_def split: option.split)

lemma ab_inv_evaluate:
  assumes "ab_inv s" "evaluate_test erf i now confidence s = Inr (er, s')"
  shows "ab_inv s'"
  using assms(2)
proof (cases rule: evaluate_test_Inr)
  case skipped
  with assms(1) show ?thesis by simp
next
  case (run t a b kind)
  from run(7) obtain res l where s': "s' = modify_ab_test (ab_id t) (evaluated now confidence l (winner_of a b res)) s"
    by (rule evaluate_running_Inr)
  have t: "test_ok t" "get_ab_test (ab_id t) s = Some t" using run(1) assms(1)
    by (auto simp: get_ab_test_def ab_inv_def dest: find_row_Some)
  have "test_ok (evaluated now confidence l (winner_of a b res) t)"
    using t(1) run(2,4,5) by (auto simp: test_ok_def evaluated_def winner_of_def Let_def split: option.splits)
  then show ?thesis
    by (rule ab_inv_modify [OF assms(1) t(2)]) (simp_all add: run(2) s' active_test_def)
qed

lemma ab_step_inv: "ab_step op s s' \<Longrightarrow> True \<Longrightarrow> ab_inv s \<Longrightarrow> ab_inv s'"
proof (induction rule: ab_step.induct)
  case (step_create e user camp body s t s')
  note c = create_ab_test_Inr [OF step_create(1)]
  show ?case
    by (rule ab_inv_append [OF step_create(4) c(2)])
      (use step_create(2) c(1,3) in \<open>auto simp: designed_test_def test_ok_def same_family_def active_on_iff\<close>)
next
  case (step_add configured e user i s r s')
  then show ?case using ab_inv_same add_variant_tests by blast
next
  case (step_launch e user i s t' s')
  from step_launch(1) obtain t where t: "get_ab_test i s = Some t" "ab_status t = ABDesigning" "s' = modify_ab_test i (started (env_now e)) s"
    by (rule launch_ab_test_Inr)
  have "test_ok t" using t(1) step_launch(3) by (auto simp: get_ab_test_def ab_inv_def dest: find_row_Some)
  then show ?case
    by (intro ab_inv_modify [OF step_launch(3) t(1)]) (use t(2,3) in \<open>auto simp: started_def test_ok_def active_test_def\<close>)
next
  case (step_stop e user i s t' s')
  from step_stop(1) obtain t where t: "get_ab_test i s = Some t" "active_test t" "s' = modify_ab_test i (stopped (env_now e)) s"
    by (rule stop_ab_test_Inr)
  have "test_ok t" using t(1) step_stop(3) by (auto simp: get_ab_test_def ab_inv_def dest: find_row_Some)
  then show ?case
    by (intro ab_inv_modify [OF step_stop(3) t(1)]) (use t(2,3) in \<open>auto simp: stopped_def test_ok_def active_test_def\<close>)
next
  case (step_promote e user i s t' s')
  from step_promote(1) obtain t w winner s1 where t: "get_ab_test i s = Some t"
    and s1: "s1 = fold (\<lambda>v. modify_asset e (asset_id v) archived_loser) (filter (archives winner) (variants_or_pair user t s)) s"
    and s': "s' = write_audit e (ab_tenant_id t) ''ab_test'' (ab_id t) ''ab_test_promoted'' None None
            [(''winner_id'', JStr (uuid_str w)), (''prior_split'', ab_traffic_split t),
             (''compliance_violations'', compliance_flags winner)] (modify_ab_test i (promoted w) s1)"
    by (rule promote_ab_test_Inr)
  have "test_ok t" using t step_promote(3) by (auto simp: get_ab_test_def ab_inv_def dest: find_row_Some)
  moreover have "ab_tests s' = ab_tests (modify_ab_test i (promoted w) s)"
    by (simp add: s' write_audit_frame modify_ab_test_def s1 fold_modify_asset_tests)
  ultimately show ?case
    by (intro ab_inv_modify [OF step_promote(3) t]) (auto simp: promoted_def test_ok_def active_test_def)
next
  case (step_evaluate erf i now confidence s er s')
  then show ?case using ab_inv_evaluate by blast
next
  case (step_seed s' e camp sp row rows s)
  show ?case
    by (rule ab_inv_append [OF step_seed(5)])
      (use step_seed(1-3) in \<open>auto simp: seed_ab_test_tests insert_ab_test_def fresh_uuid_def Let_def test_ok_def same_family_def\<close>)
qed

interpretation ab_runs: invariant_steps ab_step ab_inv "\<lambda>_. True"
  by unfold_locales (rule ab_step_inv)

text \<open>C34. Whatever sequence of definitions, added variants, launches, stops, promotions, evaluations and seedings runs, the
  tests keep unique identifiers, no two active tests share a first variant, and each row is coherent: it has a winner exactly
  when it is significant, and that is one of its two variants; it has a start unless it is designing or was stopped
  before one, and a stop exactly when it is stopped.\<close>

theorem ab_tests_keep_inv: "steps ab_step s ops s' \<Longrightarrow> ab_inv s \<Longrightarrow> ab_inv s'"
  using ab_runs.steps_inv by (simp add: list_all_iff)

section \<open>What an evaluation decides\<close>

lemma evaluated_winner:
  "evaluated now c l (Some w) t = t\<lparr>ab_last_evaluated_at := Some now, ab_lift := Some l, ab_status := ABSignificant,
     ab_winner_id := Some w, ab_confidence := Some (round4 c)\<rparr>"
  by (simp add: evaluated_def)

lemma rate_less_iff:
  assumes "0 < n_a" "0 < n_b"
  shows "arm_rate (of_nat x_a) (int n_a) < arm_rate (of_nat x_b) (int n_b) \<longleftrightarrow> x_a * n_b < x_b * n_a"
proof -
  have "arm_rate (of_nat x_a) (int n_a) < arm_rate (of_nat x_b) (int n_b) \<longleftrightarrow> rat_of_nat (x_a * n_b) < of_nat (x_b * n_a)"
    using assms by (simp add: arm_rate_def divide_less_eq less_divide_eq field_simps)
  then show ?thesis by (simp only: of_nat_less_iff)
qed

text \<open>The specification of an arm's sample: the recipients of the test who were assigned the variant, and the events of the
  metric's kind that answer a message of this variant.\<close>

definition recipients_of :: "ab_test \<Rightarrow> uuid \<Rightarrow> db \<Rightarrow> nat" where
  "recipients_of t variant s = length (filter (\<lambda>g. asg_variant_id g = variant)
     (filter (\<lambda>g. asg_ab_test_id g = ab_id t \<and> asg_tenant_id g = ab_tenant_id t) (assignments s)))"

definition reactions_of :: "ab_test \<Rightarrow> uuid \<Rightarrow> event_kind \<Rightarrow> db \<Rightarrow> nat" where
  "reactions_of t variant kind s = length (filter (\<lambda>ev. ev_type ev = kind \<and> ev_tenant_id ev = ab_tenant_id t
     \<and> (\<exists>att\<in>set (attempts s). att_asset_id att = variant \<and> attempt_names (ab_tenant_id t) ev att)) (events s))"

lemma arm_sample_exact:
  "arm_sample (ab_tenant_id t) (ab_id t) variant kind s = (recipients_of t variant s, reactions_of t variant kind s)"
proof -
  have "filter (\<lambda>g. asg_tenant_id g = ab_tenant_id t \<and> asg_ab_test_id g = ab_id t \<and> asg_variant_id g = variant) (assignments s)
      = filter (\<lambda>g. asg_variant_id g = variant) (filter (\<lambda>g. asg_ab_test_id g = ab_id t \<and> asg_tenant_id g = ab_tenant_id t) (assignments s))"
    unfolding filter_filter by (rule filter_cong) auto
  moreover have "filter (\<lambda>ev. ev_tenant_id ev = ab_tenant_id t \<and> ev_type ev = kind
        \<and> list_ex (\<lambda>att. attempt_names (ab_tenant_id t) ev att \<and> att_asset_id att = variant) (attempts s)) (events s)
      = filter (\<lambda>ev. ev_type ev = kind \<and> ev_tenant_id ev = ab_tenant_id t
        \<and> (\<exists>att\<in>set (attempts s). att_asset_id att = variant \<and> attempt_names (ab_tenant_id t) ev att)) (events s)"
    by (rule filter_cong) (auto simp: list_ex_iff)
  ultimately show ?thesis by (simp only: arm_sample_def recipients_of_def reactions_of_def)
qed

text \<open>C35. An evaluation names a winner only for a running test that was not evaluated in the last fifteen minutes, and only
  the variant with the strictly higher observed rate of the primary metric's event among its own recipients, both
  variants having recipients and the p-value of the two samples being below the level; the test is then significant with
  this winner, and no other test and no other table changes. (For the metric \<open>unsubscribe\<close> too the higher rate wins.)\<close>

theorem evaluate_names_leading_arm:
  assumes "evaluate_test erf i now confidence s = Inr (r, s')" "er_winner_id r = Some w"
  shows "\<exists>t a b kind l res. get_ab_test i s = Some t \<and> ab_status t = ABRunning
      \<and> ab_variant_a_id t = Some a \<and> ab_variant_b_id t = Some b
      \<and> map_of metric_to_event_kind (ab_primary_metric t) = Some kind
      \<and> (\<forall>at0. ab_last_evaluated_at t = Some at0 \<longrightarrow> at0 + eval_throttle \<le> now)
      \<and> 0 < recipients_of t a s \<and> 0 < recipients_of t b s
      \<and> (w = a \<and> reactions_of t b kind s * recipients_of t a s < reactions_of t a kind s * recipients_of t b s
         \<or> w = b \<and> reactions_of t a kind s * recipients_of t b s < reactions_of t b kind s * recipients_of t a s)
      \<and> two_proportion_test erf (int (recipients_of t a s)) (of_nat (reactions_of t a kind s))
          (int (recipients_of t b s)) (of_nat (reactions_of t b kind s)) confidence = Inr res
      \<and> er_p_value r = Some (ar_p_value res) \<and> ar_p_value res < 1 - of_rat confidence
      \<and> get_ab_test i s' = Some (t\<lparr>ab_last_evaluated_at := Some now, ab_lift := Some l, ab_status := ABSignificant,
           ab_winner_id := Some w, ab_confidence := Some (round4 confidence)\<rparr>)
      \<and> (\<forall>j. j \<noteq> i \<longrightarrow> get_ab_test j s' = get_ab_test j s) \<and> s' = s\<lparr>ab_tests := ab_tests s'\<rparr>"
  using assms(1)
proof (cases rule: evaluate_test_Inr)
  case skipped
  with assms(2) show ?thesis by simp
next
  case (run t a b kind)
  let ?n = "\<lambda>v. recipients_of t v s" and ?x = "\<lambda>v. reactions_of t v kind s"
  from run(7) obtain res l where
    test: "two_proportion_test erf (int (?n a)) (of_nat (?x a)) (int (?n b)) (of_nat (?x b)) confidence = Inr res"
    and win: "er_winner_id r = winner_of a b res" and p: "er_p_value r = Some (ar_p_value res)"
    and s': "s' = modify_ab_test (ab_id t) (evaluated now confidence l (winner_of a b res)) s"
    by (rule evaluate_running_Inr) (auto simp: arm_sample_exact)
  have dec: "ar_decision res = ''winner''" and w: "winner_of a b res = Some w"
    using win assms(2) by (auto simp: winner_of_def split: if_splits)
  note facts = two_proportion_winner [OF test dec]
  have pos: "0 < ?n a" "0 < ?n b" using facts(1,2) by simp_all
  have better: "w = a \<and> ?x b * ?n a < ?x a * ?n b \<or> w = b \<and> ?x a * ?n b < ?x b * ?n a"
    using w facts(3,4) dec rate_less_iff [OF pos, of "?x a" "?x b"] rate_less_iff [OF pos(2,1), of "?x b" "?x a"]
    by (auto simp: winner_of_def not_less order_le_less split: if_splits)
  have i: "ab_id t = i" using run(1) by (rule ab_test_table.get_key)
  have rows: "get_ab_test i s' = Some (evaluated now confidence l (Some w) t)" "\<And>j. j \<noteq> i \<Longrightarrow> get_ab_test j s' = get_ab_test j s"
    using run(1) by (simp_all add: s' w i ab_test_table.get_modify_same ab_test_table.get_modify_other)
  have "s' = s\<lparr>ab_tests := ab_tests s'\<rparr>" by (simp add: s' modify_ab_test_def)
  moreover have "\<forall>at0. ab_last_evaluated_at t = Some at0 \<longrightarrow> at0 + eval_throttle \<le> now" using run(3) by (simp add: algebra_simps)
  ultimately show ?thesis using run(1,2,4-6) pos better test p facts(5) rows unfolding evaluated_winner by blast
qed

text \<open>Events are counted, not recipients: as soon as the two arms together have at least as many events as recipients, an
  evaluation names no winner, however far apart the arms are.\<close>

theorem repeated_events_hide_winner:
  assumes "evaluate_test erf i now confidence s = Inr (r, s')" "er_sample_a r = Some (n_a, x_a)" "er_sample_b r = Some (n_b, x_b)"
    and "n_a + n_b \<le> x_a + x_b"
  shows "er_winner_id r = None"
  using assms(1)
proof (cases rule: evaluate_test_Inr)
  case (run t a b kind)
  from run(7) obtain res where test: "two_proportion_test erf (int n_a) (of_nat x_a) (int n_b) (of_nat x_b) confidence = Inr res"
    and win: "er_winner_id r = winner_of a b res"
    by (rule evaluate_running_Inr) (use assms(2,3) in auto)
  have "ar_decision res \<noteq> ''winner''"
  proof
    assume w: "ar_decision res = ''winner''"
    have "rat_of_nat (n_a + n_b) \<le> of_nat (x_a + x_b)" using assms(4) by (simp only: of_nat_le_iff)
    then have "two_proportion_test erf (int n_a) (of_nat x_a) (int n_b) (of_nat x_b) confidence = Inr (inconclusive ''degenerate'')"
      by (intro saturated_is_degenerate two_proportion_winner [OF test w]) simp
    with test w show False by (auto simp: inconclusive_def)
  qed
  then show ?thesis by (simp add: win winner_of_def)
qed simp

text \<open>A test that is due: running, with two variants and a metric the evaluator knows.\<close>

definition due :: "instant \<Rightarrow> ab_test \<Rightarrow> uuid \<Rightarrow> uuid \<Rightarrow> event_kind \<Rightarrow> bool" where
  "due now t a b kind \<longleftrightarrow> ab_status t = ABRunning \<and> ab_variant_a_id t = Some a \<and> ab_variant_b_id t = Some b
     \<and> map_of metric_to_event_kind (ab_primary_metric t) = Some kind
     \<and> (case ab_last_evaluated_at t of None \<Rightarrow> True | Some at0 \<Rightarrow> at0 + eval_throttle \<le> now)"

lemma evaluate_due:
  "get_ab_test i s = Some t \<Longrightarrow> due now t a b kind
   \<Longrightarrow> evaluate_test erf i now confidence s = evaluate_running erf now confidence t a b kind s"
  by (auto simp: evaluate_test_def due_def Let_def split: option.splits)

text \<open>C39. A first arm without success blocks the test: the lift over it is infinite, which the column refuses, so that the
  evaluation of a due test whose first arm has recipients but no event fails whenever the second arm has recipients and some
  events, fewer than both arms have recipients. Nothing is written: no winner is named, and the time limit does not end the
  test as long as this is so. (With as many events as recipients or more the evaluation succeeds as degenerate.)\<close>

theorem zero_baseline_blocks_evaluation:
  assumes "get_ab_test i s = Some t" "due now t a b kind"
    and "arm_sample (ab_tenant_id t) i a kind s = (n_a, 0)" "arm_sample (ab_tenant_id t) i b kind s = (n_b, x_b)"
    and "0 < n_a" "0 < n_b" "0 < x_b" "x_b < n_a + n_b"
  shows "evaluate_test erf i now confidence s \<in> {Inl DataError, Inl ValueError}"
proof -
  have i: "ab_id t = i" using assms(1) by (rule ab_test_table.get_key)
  have x: "rat_of_nat x_b < of_int (int n_a + int n_b)" using assms(8) by (simp flip: of_nat_add)
  show ?thesis
  proof (cases "two_proportion_test erf (int n_a) 0 (int n_b) (of_nat x_b) confidence")
    case (Inl err)
    then have "err = ValueError"
      by (auto simp: two_proportion_test_def Let_def z_critical_def inv_norm_cdf_def py_sqrt_def min_n_for_proportion_power_def
          split: if_splits)
    then show ?thesis using Inl assms(3,4)
      by (simp add: evaluate_due [OF assms(1,2)] evaluate_running_def i ab_testing_call_def sample_arm_def)
  next
    case (Inr r)
    then have "ar_lift r = Infinite" by (rule zero_baseline_lift) (use assms(5-7) x in simp_all)
    then show ?thesis using Inr assms(3,4)
      by (simp add: evaluate_due [OF assms(1,2)] evaluate_running_def i ab_testing_call_def sample_arm_def lift_column_def)
  qed
qed

section \<open>Traffic\<close>

lemma one_test_filter:
  assumes "ab_inv s" "get_ab_test i s = Some t"
  shows "filter (\<lambda>u. ab_id u = i \<and> ab_tenant_id u = ab_tenant_id t) (ab_tests s) = [t]"
proof -
  have mem: "t \<in> set (ab_tests s)" "ab_id t = i" using assms(2) by (auto simp: get_ab_test_def dest: find_row_Some)
  have "filter (\<lambda>u. ab_id u = i) (ab_tests s) = [t]"
    using filter_key_one [of ab_id "ab_tests s" t] mem assms(1) by (simp add: ab_inv_def)
  then have "filter (\<lambda>u. ab_tenant_id u = ab_tenant_id t) (filter (\<lambda>u. ab_id u = i) (ab_tests s)) = [t]" by simp
  then show ?thesis by (simp add: conj_commute)
qed

definition unassigned :: "uuid \<Rightarrow> db \<Rightarrow> bool" where
  "unassigned i s \<longleftrightarrow> (\<forall>a\<in>set (assignments s). asg_ab_test_id a \<noteq> i)"

lemma first_assignment:
  assumes "ab_inv s" "get_ab_test i s = Some t" "unassigned i s"
  shows "assign_variant hash (ab_tenant_id t) i external s =
    (case coerce_split (ab_traffic_split t) of
       Inl err \<Rightarrow> Inl err
     | Inr split \<Rightarrow>
         (case pick_variant_index hash i external split of
            Inl err \<Rightarrow> Inl err
          | Inr key \<Rightarrow>
              (case uuid_of_str key of
                 None \<Rightarrow> Inl ValueError
               | Some v \<Rightarrow> Inr (v, s\<lparr>assignments := assignments s @
                   [\<lparr>asg_tenant_id = ab_tenant_id t, asg_ab_test_id = i, asg_external_id = external, asg_variant_id = v\<rparr>]\<rparr>))))"
proof -
  have none: "filter (same_recipient (ab_tenant_id t) i external) (assignments s) = []"
    using assms(3) by (auto simp: unassigned_def same_recipient_def filter_empty_conv)
  show ?thesis unfolding assign_variant_def none one_test_filter [OF assms(1,2)] by simp
qed

lemma unassigned_keeps_all:
  assumes "ab_inv s" "get_ab_test i s = Some t" "unassigned i s" "ab_traffic_split t = JObj []" "asset_tenant_id asset = ab_tenant_id t"
  shows "filter_members hash asset t ms s = Inr (ms, s)"
proof -
  have "ab_id t = i" using assms(2) by (rule ab_test_table.get_key)
  then have "keep_member hash asset t m s = Inr (True, s)" for m
    by (simp add: keep_member_def assms(5) first_assignment [OF assms(1-3)] assms(4) coerce_split_def pick_variant_index_def)
  then show ?thesis by (induction ms) simp_all
qed

lemma zero_sample_no_winner:
  assumes "evaluate_test erf i now confidence s = Inr (r, s')" "unassigned i s"
  shows "er_winner_id r = None"
  using assms(1)
proof (cases rule: evaluate_test_Inr)
  case (run t a b kind)
  have "ab_id t = i" using run(1) by (rule ab_test_table.get_key)
  then have n: "fst (arm_sample (ab_tenant_id t) (ab_id t) a kind s) = 0"
    using assms(2) by (auto simp: arm_sample_def unassigned_def filter_empty_conv)
  from run(7) show ?thesis
  proof (rule evaluate_running_Inr)
    fix res l n_a x_a n_b x_b
    assume "arm_sample (ab_tenant_id t) (ab_id t) a kind s = (n_a, x_a)" "er_winner_id r = winner_of a b res"
      "two_proportion_test erf (int n_a) (of_nat x_a) (int n_b) (of_nat x_b) confidence = Inr res"
    then show "er_winner_id r = None" using n by (auto simp: two_proportion_test_def inconclusive_def winner_of_def)
  qed
qed simp

text \<open>C40. The A/B tests that content seeding creates split nobody and decide nothing: their traffic split is empty, so that while
  such a test runs every variant goes to the whole audience and no assignment is recorded, and an evaluation, whose
  samples are the recorded assignments, never names a winner.\<close>

theorem seeded_test_splits_nobody:
  assumes "ab_inv s" "get_ab_test i s = Some t" "unassigned i s"
    and "ab_traffic_split t = ab_traffic_split (fst (insert_ab_test e camp sp rows s0))"
  shows "(\<forall>asset ms. running_ab_test_for_asset asset s = Some t \<and> asset_tenant_id asset = ab_tenant_id t
            \<longrightarrow> filter_audience_for_ab_test hash asset ms s = Inr (ms, s))
      \<and> (\<forall>now confidence r s'. evaluate_test erf i now confidence s = Inr (r, s') \<longrightarrow> er_winner_id r = None)"
proof -
  have "ab_traffic_split t = JObj []" using assms(4) by (simp add: insert_ab_test_def fresh_uuid_def Let_def)
  then show ?thesis
    using unassigned_keeps_all [OF assms(1-3)] zero_sample_no_winner [OF _ assms(3)]
    by (auto simp: filter_audience_for_ab_test_def)
qed

text \<open>A variant added to a test gets no share of it: nothing writes the traffic split, so that no recipient is assigned to the new
  asset, whose identifier is not a key of the split.\<close>

theorem added_variant_gets_no_traffic:
  assumes "add_variant configured e user i s = Inr (r, s')" "ab_inv s" "get_ab_test i s = Some t" "unassigned i s'"
    and "ab_traffic_split t = JObj d" "\<forall>k\<in>fst ` set d. uuid_of_str k \<noteq> Some (db_gen s (db_seq s))"
    and "assign_variant hash (ab_tenant_id t) i external s' = Inr (v, s'')"
  shows "v \<noteq> av_variant_id r"
proof -
  have tests: "ab_tests s' = ab_tests s" by (rule add_variant_tests [OF assms(1)])
  have s': "ab_inv s'" "get_ab_test i s' = Some t" using assms(2,3) ab_inv_same tests by (auto simp: get_ab_test_def)
  have new: "av_variant_id r = db_gen s (db_seq s)" using assms(1) by (rule add_variant_Inr)
  obtain split key where c: "coerce_items d = Inr split" and key: "pick_variant_index hash i external split = Inr key"
    "uuid_of_str key = Some v"
    using assms(7) unfolding first_assignment [OF s' assms(4)] assms(5)
    by (auto simp: coerce_split_def split: sum.splits option.splits)
  have "positive split" "set (map fst split) \<subseteq> fst ` set d" using coerce_items_facts [OF c] by auto
  moreover have "split \<noteq> []" "\<exists>b. key = pick_bucket split b" using key(1) by (auto simp: pick_variant_index_def split: if_splits)
  ultimately have "key \<in> fst ` set d" using pick_bucket_key by fastforce
  then show ?thesis using assms(6) key(2) new by auto
qed

text \<open>Only the sum of a traffic split is checked when a test is defined: a request that gives the first variant more than
  a hundred per cent and the second a negative share is accepted, and every recipient of the test gets the first variant.\<close>

theorem negative_share_accepted:
  assumes "create_ab_test e user camp body s = Inr (t, s')" "ab_inv s" "db_gen s (db_seq s) \<notin> ab_id ` set (ab_tests s)"
    and "cr_traffic_split body = [(a, 100 + k), (b, - k)]" "0 \<le> k" "unassigned (ab_id t) s'" "a < 2 ^ 128"
  shows "\<exists>s''. assign_variant hash (ab_tenant_id t) (ab_id t) external s' = Inr (a, s'')"
proof -
  note c = create_ab_test_Inr [OF assms(1)]
  have inv: "ab_inv s'" using ab_step_inv step_create [OF assms(1,3)] assms(2) by blast
  have t: "get_ab_test (ab_id t) s' = Some t"
    using find_row_distinct [of ab_id "ab_tests s'" t] inv c(2) by (simp add: get_ab_test_def ab_inv_def)
  have split: "coerce_split (ab_traffic_split t) = Inr [(uuid_str a, 100 + k)]"
    using assms(4,5) by (simp add: c(1) designed_test_def coerce_split_def)
  have "pick_bucket [(uuid_str a, 100 + k)] x = uuid_str a" for x by (simp add: pick_bucket_def)
  then have "pick_variant_index hash (ab_id t) external [(uuid_str a, 100 + k)] = Inr (uuid_str a)"
    using assms(5) by (simp add: pick_variant_index_def total_weight_def)
  then show ?thesis using assms(7) by (simp add: first_assignment [OF inv t assms(6)] split uuid_roundtrip)
qed

section \<open>Concrete instances\<close>

text \<open>A running test of assets 5 and 6 with one recipient each; the recipient of asset 5 opened the mail.\<close>

definition demo_test :: "uuid \<Rightarrow> uuid \<Rightarrow> ab_test" where
  "demo_test a b = \<lparr>ab_id = 9, ab_tenant_id = 1, ab_campaign_id = 7, ab_name = ''Subject lines'', ab_hypothesis = None,
     ab_primary_metric = ''open'', ab_status = ABRunning, ab_variant_a_id = Some a, ab_variant_b_id = Some b,
     ab_winner_id = None, ab_confidence = None, ab_lift = None, ab_last_evaluated_at = None, ab_traffic_split = JObj [],
     ab_min_runtime_hours = None, ab_max_runtime_hours = Some 48, ab_started_at = Some 0, ab_stopped_at = None,
     ab_created_at = 0\<rparr>"

definition demo_open :: "uuid \<Rightarrow> analytic_event" where
  "demo_open i = \<lparr>ev_id = i, ev_tenant_id = 1, ev_campaign_id = None, ev_channel_id = None, ev_type = EOpen, ev_metric_value = None,
     ev_payload = [(''sg_message_id'', JStr ''m1'')], ev_provider_event_id = None, ev_at = 0\<rparr>"

definition demo_delivery :: dispatch_attempt where
  "demo_delivery = \<lparr>att_tenant_id = 1, att_asset_id = 5, att_external_id = Some ''x1'', att_recipient = ''a@b.co'', att_idempotency_key = ''k'',
     att_provider = ''sendgrid'', att_provider_message_id = Some ''m1'', att_status = ''sent'', att_count = 1, att_last_error = None,
     att_sent_at = Some 0\<rparr>"

definition demo_assigned :: "string \<Rightarrow> uuid \<Rightarrow> ab_test_assignment" where
  "demo_assigned x v = \<lparr>asg_tenant_id = 1, asg_ab_test_id = 9, asg_external_id = x, asg_variant_id = v\<rparr>"

definition ab_db :: "ab_test \<Rightarrow> analytic_event list \<Rightarrow> db" where
  "ab_db t evs = empty_db\<lparr>ab_tests := [t], assignments := [demo_assigned ''x1'' 5, demo_assigned ''x2'' 6],
     attempts := [demo_delivery], events := evs\<rparr>"

lemma demo_samples:
  "arm_sample 1 9 5 EOpen (ab_db t (map demo_open is)) = (1, length is)" "arm_sample 1 9 6 EOpen (ab_db t (map demo_open is)) = (1, 0)"
  by (simp_all add: arm_sample_def ab_db_def demo_assigned_def demo_open_def demo_delivery_def attempt_names_def sg_message_id_def
      dict_get_def filter_empty_conv filter_map o_def)

lemma demo_test_due: "due now (demo_test a b) a b EOpen" "get_ab_test 9 (ab_db (demo_test a b) evs) = Some (demo_test a b)"
  by (simp_all add: due_def demo_test_def metric_to_event_kind_def get_ab_test_def ab_db_def find_row_def)

lemma demo_inv: "ab_inv (ab_db (demo_test a b) evs)"
  by (simp add: ab_inv_def ab_db_def demo_test_def test_ok_def)

lemma demo_decision:
  "\<exists>r. two_proportion_test (\<lambda>_. 1) 1 1 1 0 0.95 = Inr r \<and> ar_decision r = ''winner'' \<and> ar_winner_arm r = Some ''a'' \<and> ar_lift r = Finite (- 1)"
proof -
  have "pooled_variance 1 1 1 0 = 1 / 2" by (simp add: pooled_variance_def Let_def)
  moreover have "\<exists>z. z_critical 0.95 = Inr z" by (simp add: z_critical_def inv_norm_cdf_def Let_def of_rat_divide)
  moreover have "unpooled_variance 1 1 1 0 = 0" by (simp add: unpooled_variance_def)
  moreover have "two_tailed_p_from_z (\<lambda>_. 1) z = 0" for z by (simp add: two_tailed_p_from_z_def normal_cdf_def)
  ultimately show ?thesis
    by (auto simp: two_proportion_test_def arm_rate_def rate_lift_def Let_def py_sqrt_def of_rat_divide)
qed

lemma demo_evaluation:
  "\<exists>r s'. evaluate_test (\<lambda>_. 1) 9 60 0.95 (ab_db (demo_test 5 6) [demo_open 40]) = Inr (r, s') \<and> er_winner_id r = Some 5"
proof -
  obtain res where res: "two_proportion_test (\<lambda>_. 1) 1 1 1 0 0.95 = Inr res" "ar_decision res = ''winner''"
    "ar_winner_arm res = Some ''a''" "ar_lift res = Finite (- 1)" using demo_decision by blast
  have "round4 (- 1) = - 1" using round_half_even_of_int [of "- 10000"] by (simp add: round4_def)
  then have l: "lift_column (ar_lift res) = Inr (- 1)" by (simp add: res(4) lift_column_def)
  have "ab_tenant_id (demo_test 5 6) = 1" "ab_id (demo_test 5 6) = 9" by (simp_all add: demo_test_def)
  then show ?thesis
    using demo_samples [of "demo_test 5 6" "[40]"] res l
    by (simp add: evaluate_due [OF demo_test_due(2,1)] evaluate_running_def ab_testing_call_def sample_arm_def winner_of_def Let_def)
qed

theorem evaluate_names_leading_arm_witness:
  "\<exists>r s' t. evaluate_test (\<lambda>_. 1) 9 60 0.95 (ab_db (demo_test 5 6) [demo_open 40]) = Inr (r, s') \<and> er_winner_id r = Some 5
     \<and> get_ab_test 9 s' = Some t \<and> ab_status t = ABSignificant \<and> ab_winner_id t = Some 5
     \<and> reactions_of (demo_test 5 6) 6 EOpen (ab_db (demo_test 5 6) [demo_open 40])
         < reactions_of (demo_test 5 6) 5 EOpen (ab_db (demo_test 5 6) [demo_open 40])"
proof -
  let ?s = "ab_db (demo_test 5 6) [demo_open 40]"
  obtain r s' where run: "evaluate_test (\<lambda>_. 1) 9 60 0.95 ?s = Inr (r, s')" "er_winner_id r = Some 5"
    using demo_evaluation by blast
  have ids: "ab_tenant_id (demo_test 5 6) = 1" "ab_id (demo_test 5 6) = 9" "ab_variant_a_id (demo_test 5 6) = Some 5"
    "ab_variant_b_id (demo_test 5 6) = Some 6" by (simp_all add: demo_test_def)
  have one: "recipients_of (demo_test 5 6) 5 ?s = 1" "recipients_of (demo_test 5 6) 6 ?s = 1"
    using demo_samples [of "demo_test 5 6" "[40]"] arm_sample_exact [of "demo_test 5 6" _ EOpen ?s] by (simp_all add: ids)
  have kind: "map_of metric_to_event_kind (ab_primary_metric (demo_test 5 6)) = Some EOpen"
    by (simp add: demo_test_def metric_to_event_kind_def)
  from evaluate_names_leading_arm [OF run] one kind ids demo_test_due(2) [where a = 5 and b = 6 and evs = "[demo_open 40]"] run show ?thesis by auto
qed

theorem ab_tests_keep_inv_witness:
  "\<exists>s'. steps ab_step (ab_db (demo_test 5 6) [demo_open 40]) [AbEvaluate 9] s' \<and> ab_inv s'"
proof -
  obtain r s' where "evaluate_test (\<lambda>_. 1) 9 60 0.95 (ab_db (demo_test 5 6) [demo_open 40]) = Inr (r, s')"
    using demo_evaluation by blast
  then have "ab_step (AbEvaluate 9) (ab_db (demo_test 5 6) [demo_open 40]) s'" by (rule step_evaluate)
  then have "steps ab_step (ab_db (demo_test 5 6) [demo_open 40]) [AbEvaluate 9] s'" by (auto intro: steps.intros)
  then show ?thesis using ab_tests_keep_inv [OF _ demo_inv] by (intro exI [of _ s'] conjI)
qed

theorem zero_baseline_blocks_evaluation_witness:
  "evaluate_test (\<lambda>_. 1) 9 60 0.95 (ab_db (demo_test 6 5) [demo_open 40]) \<in> {Inl DataError, Inl ValueError}"
proof (rule zero_baseline_blocks_evaluation [OF demo_test_due(2,1)])
  have "ab_tenant_id (demo_test 6 5) = 1" by (simp add: demo_test_def)
  then show "arm_sample (ab_tenant_id (demo_test 6 5)) 9 6 EOpen (ab_db (demo_test 6 5) [demo_open 40]) = (1, 0)"
    "arm_sample (ab_tenant_id (demo_test 6 5)) 9 5 EOpen (ab_db (demo_test 6 5) [demo_open 40]) = (1, 1)"
    using demo_samples [of "demo_test 6 5" "[40]"] by simp_all
qed simp_all

theorem repeated_events_hide_winner_witness:
  "\<exists>r s'. evaluate_test (\<lambda>_. 1) 9 60 0.95 (ab_db (demo_test 5 6) [demo_open 40, demo_open 41]) = Inr (r, s')
     \<and> er_sample_a r = Some (1, 2) \<and> er_sample_b r = Some (1, 0) \<and> er_winner_id r = None"
proof -
  have test: "two_proportion_test (\<lambda>_. 1) 1 2 1 0 0.95 = Inr (inconclusive ''degenerate'')"
    by (rule saturated_is_degenerate) simp_all
  have "round4 0 = 0" using round_half_even_of_int [of 0] by (simp add: round4_def)
  then have l: "lift_column (Finite 0) = Inr 0" by (simp add: lift_column_def)
  have ids: "ab_tenant_id (demo_test 5 6) = 1" "ab_id (demo_test 5 6) = 9" by (simp_all add: demo_test_def)
  obtain r s' where run: "evaluate_test (\<lambda>_. 1) 9 60 0.95 (ab_db (demo_test 5 6) [demo_open 40, demo_open 41]) = Inr (r, s')"
    "er_sample_a r = Some (1, 2)" "er_sample_b r = Some (1, 0)"
    using demo_samples [of "demo_test 5 6" "[40, 41]"] test l
    by (simp add: evaluate_due [OF demo_test_due(2,1)] evaluate_running_def ab_testing_call_def sample_arm_def ids inconclusive_def Let_def
        numeral_2_eq_2)
  with repeated_events_hide_winner [OF run] show ?thesis by auto
qed

definition seeded_db :: db where
  "seeded_db = empty_db\<lparr>ab_tests := [demo_test 20 21], assets := [demo_asset TEmail AScheduled []]\<rparr>"

theorem seeded_test_splits_nobody_witness:
  "filter_audience_for_ab_test (\<lambda>_. 0) (demo_asset TEmail AScheduled []) [\<lparr>mem_audience_id = 4, mem_external_id = ''x'', mem_payload = [], mem_added_at = 0\<rparr>]
       seeded_db = Inr ([\<lparr>mem_audience_id = 4, mem_external_id = ''x'', mem_payload = [], mem_added_at = 0\<rparr>], seeded_db)
   \<and> (\<exists>r s'. evaluate_test (\<lambda>_. 1) 9 60 0.95 seeded_db = Inr (r, s') \<and> er_winner_id r = None)"
proof -
  have inv: "ab_inv seeded_db" by (simp add: ab_inv_def seeded_db_def demo_test_def test_ok_def)
  have t: "get_ab_test 9 seeded_db = Some (demo_test 20 21)" by (simp add: get_ab_test_def seeded_db_def demo_test_def find_row_def)
  have u: "unassigned 9 seeded_db" by (simp add: unassigned_def seeded_db_def empty_db_def)
  have split: "ab_traffic_split (demo_test 20 21)
      = ab_traffic_split (fst (insert_ab_test (worker_env 0) (demo_campaign Live) \<lparr>spec_channel = ''email'', spec_variants = 2\<rparr> [demo_asset TEmail ARequested []] empty_db))"
    by (simp add: demo_test_def insert_ab_test_def fresh_uuid_def Let_def)
  have running: "running_ab_test_for_asset (demo_asset TEmail AScheduled []) seeded_db = Some (demo_test 20 21)"
    "asset_tenant_id (demo_asset TEmail AScheduled []) = ab_tenant_id (demo_test 20 21)"
    by (simp_all add: running_ab_test_for_asset_def dict_get_def variant_test_for_def seeded_db_def demo_test_def find_row_def demo_asset_def)
  have "arm_sample 1 9 v EOpen seeded_db = (0, 0)" for v by (simp add: arm_sample_def seeded_db_def empty_db_def)
  moreover have "round4 0 = 0" using round_half_even_of_int [of 0] by (simp add: round4_def)
  moreover have "ab_tenant_id (demo_test 20 21) = 1" "ab_id (demo_test 20 21) = 9" by (simp_all add: demo_test_def)
  ultimately have "\<exists>r s'. evaluate_test (\<lambda>_. 1) 9 60 0.95 seeded_db = Inr (r, s')"
    by (simp add: evaluate_due [OF t demo_test_due(1)] evaluate_running_def ab_testing_call_def sample_arm_def two_proportion_test_def
        inconclusive_def lift_column_def Let_def)
  then show ?thesis using seeded_test_splits_nobody [OF inv t u split] running by blast
qed

definition unfair_request :: create_ab_test_request where
  "unfair_request = \<lparr>cr_name = ''Subject lines'', cr_hypothesis = None, cr_primary_metric = ''open'', cr_variant_ids = [20, 21],
     cr_traffic_split = [(20, 150), (21, -50)], cr_min_runtime_hours = None, cr_max_runtime_hours = None\<rparr>"

definition family_db :: db where
  "family_db = empty_db\<lparr>campaigns := [demo_campaign ContentInProduction],
     assets := [demo_asset TEmail AApproved [], (demo_asset TEmail AApproved [])\<lparr>asset_id := 21\<rparr>]\<rparr>"

theorem negative_share_accepted_witness:
  "\<exists>t s' s''. create_ab_test (worker_env 5) (demo_user Marketer) 7 unfair_request family_db = Inr (t, s')
     \<and> assign_variant (\<lambda>_. 8) 1 (ab_id t) ''x1'' s' = Inr (20, s'')"
proof -
  obtain t s' where run: "create_ab_test (worker_env 5) (demo_user Marketer) 7 unfair_request family_db = Inr (t, s')"
    and t: "ab_tenant_id t = 1" "assignments s' = []"
    by (simp add: create_ab_test_def require_role_def create_request_valid_def unfair_request_def runtime_within_def
        tenant_campaign_def get_campaign_def find_row_def family_db_def active_on_def fresh_uuid_def designed_test_def
        modify_asset_def put_asset_def empty_db_def demo_asset_def Let_def)
  have "ab_inv family_db" "db_gen family_db (db_seq family_db) \<notin> ab_id ` set (ab_tests family_db)"
    by (simp_all add: ab_inv_def family_db_def empty_db_def)
  then have "\<exists>s''. assign_variant (\<lambda>_. 8) (ab_tenant_id t) (ab_id t) ''x1'' s' = Inr (20, s'')"
    by (rule negative_share_accepted [OF run, where k = 50 and b = 21]) (simp_all add: unfair_request_def unassigned_def t(2))
  with run t(1) show ?thesis by auto
qed

end
