(* ===== verification/Campaigns_Api.thy ===== *)
theory Campaigns_Api
  imports Review_Channels
begin

text \<open>
  The campaign endpoints (\<^verbatim>\<open>app/api/campaigns.py\<close>): authoring, editing before launch, driving the state machine, pausing and
  resuming. Amounts of a request have at most two decimals; \<^verbatim>\<open>updated_at\<close> is not kept, so the paginated list, which is
  ordered by it, is left out. A field of an edit is unset, null or a value; \<^verbatim>\<open>kpi_targets\<close> is not sent as null.
\<close>

section \<open>Authoring\<close>

record campaign_create =
  cc_name :: string
  cc_type :: campaign_type
  cc_objective :: string
  cc_start_date :: date
  cc_end_date :: date
  cc_budget_total :: money
  cc_currency :: string
  cc_brief :: "string option"
  cc_kpi_targets :: dict

definition name_valid :: "string \<Rightarrow> bool" where
  "name_valid n \<longleftrightarrow> 1 \<le> length n \<and> length n \<le> 200"

definition currency_valid :: "string \<Rightarrow> bool" where
  "currency_valid c \<longleftrightarrow> length c = 3 \<and> list_all (\<lambda>ch. CHR ''A'' \<le> ch \<and> ch \<le> CHR ''Z'') c"

definition create_body_valid :: "campaign_create \<Rightarrow> bool" where
  "create_body_valid body \<longleftrightarrow> name_valid (cc_name body) \<and> cc_objective body \<noteq> [] \<and> 0 \<le> cc_budget_total body
     \<and> currency_valid (cc_currency body)"

text \<open>The column \<^verbatim>\<open>budget_total\<close> is a \<^verbatim>\<open>Numeric(14, 2)\<close>.\<close>

definition budget_fits :: "money \<Rightarrow> bool" where
  "budget_fits m \<longleftrightarrow> \<bar>m\<bar> < 10 ^ 14"

definition authored :: "app_user \<Rightarrow> campaign_create \<Rightarrow> uuid \<Rightarrow> campaign" where
  "authored user body i = \<lparr>camp_id = i, camp_tenant_id = user_tenant_id user, camp_owner_id = Some (user_id user),
     camp_name = cc_name body, camp_status = Drafted, camp_type = cc_type body, camp_objective = cc_objective body,
     camp_budget_total = cc_budget_total body, camp_currency = cc_currency body, camp_start_date = cc_start_date body,
     camp_end_date = cc_end_date body, camp_brief = cc_brief body, camp_kpi_targets = cc_kpi_targets body\<rparr>"

text \<open>The insert fires the audit listener of the process.\<close>

definition create_campaign :: "env \<Rightarrow> app_user \<Rightarrow> campaign_create \<Rightarrow> db \<Rightarrow> (campaign \<times> db) res" where
  "create_campaign e user body s =
     (case require_role Marketer user of
        Inl err \<Rightarrow> Inl err
      | Inr _ \<Rightarrow>
          if \<not> create_body_valid body \<or> cc_end_date body < cc_start_date body then Inl (HTTPException 422)
          else if \<not> budget_fits (cc_budget_total body) then Inl DataError
          else let (i, s1) = fresh_uuid s; c = authored user body i; s2 = s1\<lparr>campaigns := campaigns s1 @ [c]\<rparr>
               in Inr (c, if env_listeners e
                          then write_audit e (camp_tenant_id c) ''campaign'' i ''created'' None (Some (SnapCampaign c)) [] s2
                          else s2))"

definition read_campaign :: "app_user \<Rightarrow> uuid \<Rightarrow> db \<Rightarrow> campaign res" where
  "read_campaign user i s =
     (case require_role Viewer user of
        Inl err \<Rightarrow> Inl err
      | Inr _ \<Rightarrow> (case tenant_campaign user i s of None \<Rightarrow> Inl (HTTPException 404) | Some c \<Rightarrow> Inr c))"

section \<open>Editing\<close>

text \<open>Each field is unset (\<open>None\<close>), null (\<open>Some None\<close>) or a value.\<close>

record campaign_patch =
  pa_name :: "string option option"
  pa_type :: "campaign_type option option"
  pa_objective :: "string option option"
  pa_start_date :: "date option option"
  pa_end_date :: "date option option"
  pa_budget_total :: "money option option"
  pa_currency :: "string option option"
  pa_brief :: "string option option"
  pa_kpi_targets :: "dict option"

definition no_patch :: campaign_patch where
  "no_patch = \<lparr>pa_name = None, pa_type = None, pa_objective = None, pa_start_date = None, pa_end_date = None,
     pa_budget_total = None, pa_currency = None, pa_brief = None, pa_kpi_targets = None\<rparr>"

definition editable_states :: "campaign_status set" where
  "editable_states = {Drafted, AudienceBuilt, StrategySet, ContentInProduction, ApprovalPending, ReadyToLaunch}"

definition given :: "('a \<Rightarrow> bool) \<Rightarrow> 'a option option \<Rightarrow> bool" where
  "given P v \<longleftrightarrow> (case v of Some (Some x) \<Rightarrow> P x | _ \<Rightarrow> True)"

definition patch_body_valid :: "campaign_patch \<Rightarrow> bool" where
  "patch_body_valid body \<longleftrightarrow> given name_valid (pa_name body) \<and> given (\<lambda>x. x \<noteq> []) (pa_objective body)
     \<and> given (\<lambda>m. 0 \<le> m) (pa_budget_total body) \<and> given currency_valid (pa_currency body)"

definition patched_fields :: "campaign_patch \<Rightarrow> string list" where
  "patched_fields body =
     (if pa_brief body \<noteq> None then [''brief''] else []) @ (if pa_budget_total body \<noteq> None then [''budget_total''] else [])
     @ (if pa_type body \<noteq> None then [''campaign_type''] else []) @ (if pa_currency body \<noteq> None then [''currency''] else [])
     @ (if pa_end_date body \<noteq> None then [''end_date''] else []) @ (if pa_kpi_targets body \<noteq> None then [''kpi_targets''] else [])
     @ (if pa_name body \<noteq> None then [''name''] else []) @ (if pa_objective body \<noteq> None then [''objective''] else [])
     @ (if pa_start_date body \<noteq> None then [''start_date''] else [])"

definition new_value :: "'a \<Rightarrow> 'a option option \<Rightarrow> 'a" where
  "new_value old v = (case v of Some (Some x) \<Rightarrow> x | _ \<Rightarrow> old)"

definition patched :: "campaign_patch \<Rightarrow> campaign \<Rightarrow> campaign" where
  "patched body c = c\<lparr>camp_name := new_value (camp_name c) (pa_name body), camp_type := new_value (camp_type c) (pa_type body),
     camp_objective := new_value (camp_objective c) (pa_objective body),
     camp_start_date := new_value (camp_start_date c) (pa_start_date body),
     camp_end_date := new_value (camp_end_date c) (pa_end_date body),
     camp_budget_total := new_value (camp_budget_total c) (pa_budget_total body),
     camp_currency := new_value (camp_currency c) (pa_currency body),
     camp_brief := (case pa_brief body of None \<Rightarrow> camp_brief c | Some b \<Rightarrow> b),
     camp_kpi_targets := (case pa_kpi_targets body of None \<Rightarrow> camp_kpi_targets c | Some k \<Rightarrow> k)\<rparr>"

text \<open>A null date breaks the comparison of the two dates; another null breaks the \<^verbatim>\<open>NOT NULL\<close> column when the row is flushed.\<close>

definition patch_campaign :: "env \<Rightarrow> app_user \<Rightarrow> uuid \<Rightarrow> campaign_patch \<Rightarrow> db \<Rightarrow> (campaign \<times> db) res" where
  "patch_campaign e user i body s =
     (case require_role Marketer user of
        Inl err \<Rightarrow> Inl err
      | Inr _ \<Rightarrow>
          if \<not> patch_body_valid body then Inl (HTTPException 422)
          else case tenant_campaign user i s of
            None \<Rightarrow> Inl (HTTPException 404)
          | Some c \<Rightarrow>
              if camp_status c \<notin> editable_states then Inl (HTTPException 409)
              else if patched_fields body = [] then Inr (c, s)
              else if pa_start_date body = Some None \<or> pa_end_date body = Some None then Inl TypeError
              else let c' = patched body c
                   in if camp_end_date c' < camp_start_date c' then Inl (HTTPException 422)
                      else if pa_name body = Some None \<or> pa_type body = Some None \<or> pa_objective body = Some None
                         \<or> pa_budget_total body = Some None \<or> pa_currency body = Some None then Inl IntegrityError
                      else if \<not> budget_fits (camp_budget_total c') then Inl DataError
                      else Inr (c', write_audit e (camp_tenant_id c) ''campaign'' i ''updated'' (Some (SnapCampaign c))
                             (Some (SnapCampaign c')) [(''fields'', JArr (map JStr (patched_fields body)))]
                             (modify_campaign i (patched body) s)))"

section \<open>Driving the state machine\<close>

definition as_conflict :: "py_error \<Rightarrow> py_error" where
  "as_conflict err = (if err = UnknownTransitionError \<or> err = GuardFailedError then HTTPException 409 else err)"

definition apply_transition_endpoint ::
  "state_machine \<Rightarrow> env \<Rightarrow> app_user \<Rightarrow> uuid \<Rightarrow> string \<Rightarrow> db \<Rightarrow> ((uuid \<times> campaign_status) \<times> db) res" where
  "apply_transition_endpoint sm e user i name s =
     (case require_role Marketer user of
        Inl err \<Rightarrow> Inl err
      | Inr _ \<Rightarrow>
          (case tenant_campaign user i s of
             None \<Rightarrow> Inl (HTTPException 404)
           | Some c \<Rightarrow>
               map_sum as_conflict (\<lambda>(c', s'). ((camp_id c', camp_status c'), s')) (apply_transition sm e c name s)))"

record pause_response =
  pr_campaign_id :: uuid
  pr_status :: campaign_status
  pr_reason :: string
  pr_cancelled_tasks :: nat

definition pause_campaign_endpoint ::
  "state_machine \<Rightarrow> env \<Rightarrow> app_user \<Rightarrow> uuid \<Rightarrow> string \<Rightarrow> db \<Rightarrow> (pause_response \<times> db) res" where
  "pause_campaign_endpoint sm e user i reason s =
     (case require_role Manager user of
        Inl err \<Rightarrow> Inl err
      | Inr _ \<Rightarrow>
          if 200 < length reason then Inl (HTTPException 422)
          else case tenant_campaign user i s of
            None \<Rightarrow> Inl (HTTPException 404)
          | Some c \<Rightarrow>
              (let queued = length (filter (\<lambda>t. task_campaign_id t = Some (camp_id c)
                              \<and> (task_status_of t = TQueued \<or> task_status_of t = TAwaitingRetry)) (tasks s))
               in map_sum as_conflict
                    (\<lambda>(c', s'). (\<lparr>pr_campaign_id = camp_id c', pr_status = camp_status c', pr_reason = reason, pr_cancelled_tasks = queued\<rparr>,
                       write_audit e (camp_tenant_id c') ''campaign'' (camp_id c') ''pause_reason'' None None
                         [(''reason'', JStr reason), (''cancelled_tasks'', JInt (int queued))] s'))
                    (apply_transition sm e c ''pause'' s)))"

record resume_response =
  rr_campaign_id :: uuid
  rr_status :: campaign_status
  rr_requeued :: nat
  rr_elapsed_failed :: nat

text \<open>The two numbers are read back from the tables.\<close>

definition resume_campaign_endpoint ::
  "state_machine \<Rightarrow> env \<Rightarrow> app_user \<Rightarrow> uuid \<Rightarrow> db \<Rightarrow> (resume_response \<times> db) res" where
  "resume_campaign_endpoint sm e user i s =
     (case require_role Manager user of
        Inl err \<Rightarrow> Inl err
      | Inr _ \<Rightarrow>
          (case tenant_campaign user i s of
             None \<Rightarrow> Inl (HTTPException 404)
           | Some c \<Rightarrow>
               if camp_status c \<noteq> Paused then Inl (HTTPException 409)
               else map_sum as_conflict
                      (\<lambda>(c', s'). (\<lparr>rr_campaign_id = camp_id c', rr_status = camp_status c',
                         rr_requeued = length (filter (\<lambda>t. task_campaign_id t = Some (camp_id c') \<and> task_status_of t = TQueued) (tasks s')),
                         rr_elapsed_failed = length (filter (\<lambda>a. asset_campaign_id a = camp_id c'
                           \<and> json_text (dict_get (asset_metadata a) ''skip_reason'') = Some ''slot_elapsed_during_pause'') (assets s'))\<rparr>, s'))
                      (apply_transition sm e c ''resume'' s)))"

section \<open>Well-formed campaigns\<close>

definition campaign_ok :: "campaign \<Rightarrow> bool" where
  "campaign_ok c \<longleftrightarrow> name_valid (camp_name c) \<and> camp_objective c \<noteq> [] \<and> 0 \<le> camp_budget_total c \<and> budget_fits (camp_budget_total c)
     \<and> currency_valid (camp_currency c) \<and> camp_start_date c \<le> camp_end_date c"

definition campaigns_inv :: "db \<Rightarrow> bool" where
  "campaigns_inv s \<longleftrightarrow> distinct (map camp_id (campaigns s)) \<and> (\<forall>c\<in>set (campaigns s). campaign_ok c)"

datatype campaign_op = CoCreate campaign_create | CoPatch uuid campaign_patch | CoTransition uuid string | CoPause uuid string | CoResume uuid

inductive campaign_step :: "campaign_op \<Rightarrow> db \<Rightarrow> db \<Rightarrow> bool" where
  step_create_campaign: "create_campaign e user body s = Inr (c, s') \<Longrightarrow> db_gen s (db_seq s) \<notin> camp_id ` set (campaigns s)
    \<Longrightarrow> campaign_step (CoCreate body) s s'"
| step_patch: "patch_campaign e user i body s = Inr (c, s') \<Longrightarrow> campaign_step (CoPatch i body) s s'"
| step_transition: "apply_transition_endpoint (campaign_sm tc) e user i name s = Inr (r, s') \<Longrightarrow> campaign_step (CoTransition i name) s s'"
| step_pause: "pause_campaign_endpoint (campaign_sm tc) e user i reason s = Inr (p, s') \<Longrightarrow> campaign_step (CoPause i reason) s s'"
| step_resume: "resume_campaign_endpoint (campaign_sm tc) e user i s = Inr (q, s') \<Longrightarrow> campaign_step (CoResume i) s s'"

lemma new_value_given: "given P v \<Longrightarrow> P old \<Longrightarrow> P (new_value old v)"
  by (auto simp: given_def new_value_def split: option.splits)

lemma patched_keeps [simp]:
  "camp_id (patched body c) = camp_id c" "camp_tenant_id (patched body c) = camp_tenant_id c"
  "camp_owner_id (patched body c) = camp_owner_id c" "camp_status (patched body c) = camp_status c"
  by (simp_all add: patched_def)

lemma patch_campaign_Inr:
  assumes "patch_campaign e user i body s = Inr (c', s')"
  obtains (noop) "patched_fields body = []" "s' = s" "get_campaign i s = Some c'"
  | (edit) c where "get_campaign i s = Some c" "camp_tenant_id c = user_tenant_id user" "camp_status c \<in> editable_states"
    "c' = patched body c" "patch_body_valid body" "camp_start_date c' \<le> camp_end_date c'" "budget_fits (camp_budget_total c')"
    "s' = write_audit e (camp_tenant_id c) ''campaign'' i ''updated'' (Some (SnapCampaign c)) (Some (SnapCampaign c'))
            [(''fields'', JArr (map JStr (patched_fields body)))] (modify_campaign i (patched body) s)"
  using assms
  by (auto simp: patch_campaign_def require_role_def tenant_campaign_Some Let_def not_less split: if_splits option.splits)

lemma campaigns_inv_modify:
  assumes "campaigns_inv s" "get_campaign i s = Some c" "campaign_ok (f c)" "\<And>x. camp_id (f x) = camp_id x"
    and "campaigns s' = campaigns (modify_campaign i f s)"
  shows "campaigns_inv s'"
proof -
  have c: "c \<in> set (campaigns s)" "camp_id c = i" using assms(2) by (auto simp: get_campaign_def dest: find_row_Some)
  have "x = c" if "x \<in> set (campaigns s)" "camp_id x = i" for x
    using assms(1) c that by (auto simp: campaigns_inv_def distinct_map inj_on_def)
  then have "campaign_ok r" if "r \<in> set (campaigns s')" for r
    using that assms(1,3,5) by (auto simp: modify_campaign_def update_where_def campaigns_inv_def)
  moreover have "map camp_id (campaigns s') = map camp_id (campaigns s)"
    by (simp add: assms(4,5) modify_campaign_def map_update_where)
  ultimately show ?thesis using assms(1) by (simp add: campaigns_inv_def)
qed

lemma campaigns_inv_transition:
  assumes "campaigns_inv s" "apply_transition (campaign_sm tc) e c name s = Inr (c', s')" "get_campaign (camp_id c) s = Some c"
  shows "campaigns_inv s'"
  using assms(2)
proof (rule apply_transition_Inr)
  fix tr s2
  assume s2: "s2 = write_audit e (camp_tenant_id c) ''campaign'' (camp_id c) ''transition_applied''
            (Some (status_dict (camp_status c))) (Some (status_dict (tr_to tr))) [(''transition'', JStr name)]
            (modify_campaign (camp_id c) (\<lambda>c. c\<lparr>camp_status := tr_to tr\<rparr>) s)" and "keeps s2 s'"
  then have "campaigns s' = campaigns (modify_campaign (camp_id c) (\<lambda>c. c\<lparr>camp_status := tr_to tr\<rparr>) s)"
    by (simp add: keeps_def s2 write_audit_def)
  moreover have "campaign_ok (c\<lparr>camp_status := tr_to tr\<rparr>)"
    using assms(1,3) by (auto simp: campaigns_inv_def get_campaign_def campaign_ok_def dest!: find_row_Some)
  ultimately show ?thesis using campaigns_inv_modify [OF assms(1,3), of "\<lambda>c. c\<lparr>camp_status := tr_to tr\<rparr>"] by simp
qed

lemma campaigns_inv_patch:
  assumes "campaigns_inv s" "patch_campaign e user i body s = Inr (c', s')"
  shows "campaigns_inv s'"
  using assms(2)
proof (cases rule: patch_campaign_Inr)
  case (edit c)
  have "campaign_ok c" using edit(1) assms(1) by (auto simp: campaigns_inv_def get_campaign_def dest: find_row_Some)
  then have "campaign_ok (patched body c)" using edit(4-7) new_value_given [of name_valid] new_value_given [of currency_valid]
      new_value_given [of "\<lambda>x. x \<noteq> []" "pa_objective body" "camp_objective c"]
      new_value_given [of "\<lambda>m. 0 \<le> m" "pa_budget_total body" "camp_budget_total c"]
    by (simp add: campaign_ok_def patch_body_valid_def) (simp add: patched_def)
  then show ?thesis
    by (rule campaigns_inv_modify [OF assms(1) edit(1)]) (simp_all add: edit(8) write_audit_def)
qed (use assms in simp)

lemma campaign_step_inv: "campaign_step op s s' \<Longrightarrow> True \<Longrightarrow> campaigns_inv s \<Longrightarrow> campaigns_inv s'"
proof (induction rule: campaign_step.induct)
  case (step_create_campaign e user body s c s')
  then have c: "create_body_valid body" "cc_start_date body \<le> cc_end_date body" "budget_fits (cc_budget_total body)"
    "campaigns s' = campaigns s @ [authored user body (db_gen s (db_seq s))]"
    by (auto simp: create_campaign_def require_role_def fresh_uuid_def Let_def not_less write_audit_def split: if_splits)
  then have "campaign_ok (authored user body (db_gen s (db_seq s)))"
    by (simp add: campaign_ok_def authored_def create_body_valid_def)
  then show ?case using c(4) step_create_campaign(2,4) by (auto simp: campaigns_inv_def authored_def)
next
  case (step_patch e user i body s c s')
  then show ?case using campaigns_inv_patch by blast
next
  case (step_transition tc e user i name s r s')
  then obtain c c' where "tenant_campaign user i s = Some c" "apply_transition (campaign_sm tc) e c name s = Inr (c', s')"
    by (cases "tenant_campaign user i s"; cases "apply_transition (campaign_sm tc) e (the (tenant_campaign user i s)) name s")
      (auto simp: apply_transition_endpoint_def require_role_def split: if_splits)
  then show ?case using campaigns_inv_transition [OF step_transition(3)] campaign_table.get_key by (fastforce simp: tenant_campaign_Some)
next
  case (step_pause tc e user i reason s p s')
  then obtain c c' s1 where "tenant_campaign user i s = Some c" "apply_transition (campaign_sm tc) e c ''pause'' s = Inr (c', s1)"
    "campaigns s' = campaigns s1"
    by (cases "tenant_campaign user i s"; cases "apply_transition (campaign_sm tc) e (the (tenant_campaign user i s)) ''pause'' s")
      (auto simp: pause_campaign_endpoint_def require_role_def Let_def write_audit_def split: if_splits)
  then show ?case using campaigns_inv_transition [OF step_pause(3)] campaign_table.get_key
    by (fastforce simp: tenant_campaign_Some campaigns_inv_def)
next
  case (step_resume tc e user i s q s')
  then obtain c c' where "tenant_campaign user i s = Some c" "apply_transition (campaign_sm tc) e c ''resume'' s = Inr (c', s')"
    by (cases "tenant_campaign user i s"; cases "apply_transition (campaign_sm tc) e (the (tenant_campaign user i s)) ''resume'' s")
      (auto simp: resume_campaign_endpoint_def require_role_def split: if_splits)
  then show ?case using campaigns_inv_transition [OF step_resume(3)] campaign_table.get_key by (fastforce simp: tenant_campaign_Some)
qed

interpretation campaign_runs: invariant_steps campaign_step campaigns_inv "\<lambda>_. True"
  by unfold_locales (rule campaign_step_inv)

text \<open>C36. Every sequence of calls of the campaign endpoints keeps the campaigns well formed: identifiers stay unique, and each
  campaign has a name of 1 to 200 characters, an objective, a non-negative budget that fits its column, a currency of three
  capital letters, and an end that is not before its start.\<close>

theorem campaigns_stay_well_formed: "steps campaign_step s ops s' \<Longrightarrow> campaigns_inv s \<Longrightarrow> campaigns_inv s'"
  using campaign_runs.steps_inv by (simp add: list_all_iff)

text \<open>An edit is possible only before launch and touches nothing but the edited fields: a successful edit is by at least a
  marketer on a campaign of the same tenant in one of the six states before launch; identifier, tenant, owner and status stay, as
  do all other campaigns, and exactly one audit row with the rows before and after is written, unless the request was
  empty, which changes nothing.\<close>

theorem patch_campaign_correct:
  assumes "patch_campaign e user i body s = Inr (c', s')"
  shows "\<exists>c. get_campaign i s = Some c \<and> get_campaign i s' = Some c' \<and> camp_tenant_id c = user_tenant_id user
      \<and> role_rank Marketer \<le> role_rank (user_role_of user) \<and> camp_status c \<in> editable_states
      \<and> camp_id c' = i \<and> camp_tenant_id c' = camp_tenant_id c \<and> camp_owner_id c' = camp_owner_id c \<and> camp_status c' = camp_status c
      \<and> (\<forall>j. j \<noteq> i \<longrightarrow> get_campaign j s' = get_campaign j s)
      \<and> (if patched_fields body = [] then s' = s
         else \<exists>entry. s' = s\<lparr>campaigns := campaigns s', audit_log := audit_log s @ [entry]\<rparr> \<and> au_action entry = ''updated''
                \<and> au_before entry = Some (SnapCampaign c) \<and> au_after entry = Some (SnapCampaign c'))"
proof -
  have role: "role_rank Marketer \<le> role_rank (user_role_of user)" using assms by (auto simp: patch_campaign_def require_role_def split: if_splits)
  obtain c where c: "tenant_campaign user i s = Some c" "camp_status c \<in> editable_states"
    using assms by (auto simp: patch_campaign_def split: sum.splits option.splits if_splits)
  then have get: "get_campaign i s = Some c" "camp_tenant_id c = user_tenant_id user" by (simp_all add: tenant_campaign_Some)
  have id: "camp_id c = i" using get(1) by (rule campaign_table.get_key)
  show ?thesis
  proof (cases "patched_fields body = []")
    case True
    then have "c' = c" "s' = s" using assms role c by (auto simp: patch_campaign_def require_role_def split: if_splits)
    with True get c(2) role id show ?thesis by auto
  next
    case False
    from assms have s': "c' = patched body c \<and> s' = write_audit e (camp_tenant_id c) ''campaign'' i ''updated'' (Some (SnapCampaign c))
        (Some (SnapCampaign (patched body c))) [(''fields'', JArr (map JStr (patched_fields body)))] (modify_campaign i (patched body) s)"
      by (cases rule: patch_campaign_Inr) (use False get in auto)
    have rows: "get_campaign j s' = get_campaign j (modify_campaign i (patched body) s)" for j
      using s' by (simp add: get_campaign_def write_audit_def)
    have "get_campaign i s' = Some c'" "\<forall>j. j \<noteq> i \<longrightarrow> get_campaign j s' = get_campaign j s"
      using s' get(1) by (simp_all add: rows campaign_table.get_modify_same campaign_table.get_modify_other)
    then show ?thesis using False get c(2) role id s' by (auto simp: write_audit_def modify_campaign_def)
  qed
qed

text \<open>Pausing through the endpoint reports exactly what it cancelled: the number in the response is the number of tasks the
  call turned from queued or waiting for a retry to cancelled, the campaign is paused, and no task of it is left that a worker
  could claim.\<close>

theorem pause_endpoint_reports_cancellations:
  assumes "pause_campaign_endpoint (campaign_sm tc) e user i reason s = Inr (p, s')"
  shows "(\<exists>c. get_campaign i s = Some c \<and> camp_status c \<in> {Live, Optimising, ReadyToLaunch}
            \<and> get_campaign i s' = Some (c\<lparr>camp_status := Paused\<rparr>) \<and> pr_status p = Paused)
      \<and> length (filter (\<lambda>t. task_status_of t = TCancelled) (tasks s'))
          = length (filter (\<lambda>t. task_status_of t = TCancelled) (tasks s)) + pr_cancelled_tasks p
      \<and> (\<forall>t\<in>set (tasks s'). task_campaign_id t = Some i \<longrightarrow> \<not> claimable (task_status_of t))"
proof -
  obtain c c' s1 where c: "tenant_campaign user i s = Some c" and run: "apply_transition (campaign_sm tc) e c ''pause'' s = Inr (c', s1)"
    and p: "pr_cancelled_tasks p = length (filter (\<lambda>t. task_campaign_id t = Some (camp_id c)
              \<and> (task_status_of t = TQueued \<or> task_status_of t = TAwaitingRetry)) (tasks s))" "pr_status p = camp_status c'"
    and s': "tasks s' = tasks s1" "campaigns s' = campaigns s1"
    using assms
    by (cases "tenant_campaign user i s"; cases "apply_transition (campaign_sm tc) e (the (tenant_campaign user i s)) ''pause'' s")
      (auto simp: pause_campaign_endpoint_def require_role_def Let_def write_audit_def split: if_splits)
  have get: "get_campaign i s = Some c" "camp_id c = i" using c campaign_table.get_key by (auto simp: tenant_campaign_Some)
  have st: "camp_status c \<in> {Live, Optimising, ReadyToLaunch}"
    using run by (auto elim!: apply_transition_Inr simp: builtin_transitions_def transition_of_def)
  note step = run [unfolded apply_pause [OF st]]
  have tasks: "tasks s1 = update_where (cancellable i) (cancelled e) (tasks s)"
    and camps: "campaigns s1 = campaigns (modify_campaign i (\<lambda>c. c\<lparr>camp_status := Paused\<rparr>) s)" and c': "camp_status c' = Paused"
    using step get(2) by (auto simp: cancel_queued_for_campaign_def write_audit_def modify_campaign_def)
  have "cancellable i = (\<lambda>t. task_campaign_id t = Some i \<and> (task_status_of t = TQueued \<or> task_status_of t = TAwaitingRetry))"
    by (simp add: cancellable_def claimable_def fun_eq_iff)
  then have n: "pr_cancelled_tasks p = length (filter (cancellable i) (tasks s))" by (simp add: p(1) get(2))
  have "get_campaign i s' = Some (c\<lparr>camp_status := Paused\<rparr>)"
    using get(1) campaign_table.get_modify_same [of "\<lambda>c. c\<lparr>camp_status := Paused\<rparr>" i s c] by (simp add: get_campaign_def s'(2) camps)
  moreover have "\<not> claimable (task_status_of t)" if "t \<in> set (tasks s')" "task_campaign_id t = Some i" for t
    using that by (auto simp: s'(1) tasks update_where_def cancellable_def cancelled_def claimable_def)
  ultimately show ?thesis using get(1) st p(2) c' n by (auto simp: s'(1) tasks length_filter_cancelled)
qed

section \<open>Editing around the threshold\<close>

text \<open>C38. The admin threshold is no protection against the marketer who may edit the campaign: where a manager gets 403 for an
  asset because the budget is above the recorded amount, the manager's approval goes through as soon as the campaign's
  currency has been edited to another one, because amounts in different currencies are not compared. (Another required asset is
  still open, so that the approval does not launch the campaign at once.)\<close>

theorem currency_edit_lifts_threshold:
  assumes "patch_campaign e marketer (asset_campaign_id a) (no_patch\<lparr>pa_currency := Some (Some cur)\<rparr>) s = Inr (c', s')"
    and "user_tenant_id marketer = user_tenant_id manager" "user_role_of manager = Manager"
    and "tenant_asset manager i s = Some a" "approvable a" "\<not> is_compliance_blocked a"
    and "get_campaign (asset_campaign_id a) s = Some c" "cur \<noteq> camp_currency c"
    and "spending_limit ''admin_required_above_amount'' a c = Some q" "q < of_int (camp_budget_total c) / 100"
    and "b \<in> set (assets s)" "required_in c b" "asset_status_of b \<noteq> AApproved" "asset_id b \<noteq> i" "\<not> has_edits body"
  shows "approve_asset (campaign_sm tc) now manager i body s = Inl (HTTPException 403)
    \<and> (\<exists>d s''. approve_asset (campaign_sm tc) now manager i body s' = Inr (d, s''))"
proof -
  have role: "role_rank Manager \<le> role_rank (user_role_of manager)" by (simp add: assms(3))
  from assms(1) have ed: "c' = patched (no_patch\<lparr>pa_currency := Some (Some cur)\<rparr>) c" "camp_tenant_id c = user_tenant_id manager"
    "campaigns s' = campaigns (modify_campaign (asset_campaign_id a) (patched (no_patch\<lparr>pa_currency := Some (Some cur)\<rparr>)) s)"
    "assets s' = assets s"
    by (atomize(full), cases rule: patch_campaign_Inr)
      (use assms(2,7) in \<open>auto simp: patched_fields_def no_patch_def write_audit_def modify_campaign_def\<close>)
  have camp: "tenant_campaign manager (asset_campaign_id a) s = Some c" using assms(7) ed(2) by (simp add: tenant_campaign_Some)
  have cur: "camp_currency c' = cur" by (simp add: ed(1) patched_def no_patch_def new_value_def)
  have "get_campaign (asset_campaign_id a) s' = Some c'"
    using campaign_table.get_modify_same [OF patched_keeps(1) assms(7)] by (simp add: get_campaign_def ed(1,3))
  then have camp': "tenant_campaign manager (asset_campaign_id a) s' = Some c'" by (simp add: tenant_campaign_Some ed(1,2))
  have a': "tenant_asset manager i s' = Some a" using assms(4) by (simp add: tenant_asset_def get_asset_def ed(4))
  obtain snap where snap: "threshold_of a = Inr snap" "currency_of snap = JStr (camp_currency c)"
    "dict_get snap ''admin_required_above_amount'' \<noteq> JNull" using assms(9) by (rule spending_limit_Some)
  have ev: "evaluate_threshold a c' = Inr (False, applied_threshold snap c' (JStr ''currency_mismatch''))"
    using snap assms(8) by (simp add: evaluate_threshold_def cur)
  have b: "b \<in> set (assets s')" "required_in c' b" using assms(11,12) ed by (simp_all add: required_in_def)
  show ?thesis
    using approve_forbidden [OF assms(4) camp role assms(5,6,9,10)] assms(3)
      approve_within_threshold [OF a' camp' role assms(5,6) ev _ assms(15) b assms(13,14)] by auto metis
qed

section \<open>Concrete instances\<close>

lemma demo_campaigns_inv: "campaigns_inv (demo_db st a)"
  by (simp add: campaigns_inv_def demo_db_def campaign_ok_def demo_campaign_def name_valid_def currency_valid_def budget_fits_def)

lemma demo_pause:
  "\<exists>p s'. pause_campaign_endpoint (campaign_sm (\<lambda>_ _ _. False)) (worker_env 5) (demo_user Manager) 7 ''manual''
     (demo_db Live (demo_asset TEmail AScheduled [])) = Inr (p, s') \<and> pr_status p = Paused"
  by (simp add: pause_campaign_endpoint_def require_role_def tenant_campaign_def get_campaign_def find_row_def Let_def apply_pause)

theorem campaigns_stay_well_formed_witness:
  "\<exists>s'. steps campaign_step (demo_db Live (demo_asset TEmail AScheduled [])) [CoPause 7 ''manual''] s' \<and> campaigns_inv s'"
proof -
  obtain p s' where "pause_campaign_endpoint (campaign_sm (\<lambda>_ _ _. False)) (worker_env 5) (demo_user Manager) 7 ''manual''
     (demo_db Live (demo_asset TEmail AScheduled [])) = Inr (p, s')" using demo_pause by blast
  then have "campaign_step (CoPause 7 ''manual'') (demo_db Live (demo_asset TEmail AScheduled [])) s'" by (rule step_pause)
  then have "steps campaign_step (demo_db Live (demo_asset TEmail AScheduled [])) [CoPause 7 ''manual''] s'" by (auto intro: steps.intros)
  then show ?thesis using campaigns_stay_well_formed [OF _ demo_campaigns_inv] by (intro exI conjI)
qed

theorem pause_endpoint_reports_cancellations_witness:
  "\<exists>p s'. pause_campaign_endpoint (campaign_sm (\<lambda>_ _ _. False)) (worker_env 5) (demo_user Manager) 7 ''manual''
       (demo_db Live (demo_asset TEmail AScheduled [])) = Inr (p, s')
     \<and> length (filter (\<lambda>t. task_status_of t = TCancelled) (tasks s')) = pr_cancelled_tasks p"
  using demo_pause pause_endpoint_reports_cancellations by fastforce

definition open_review :: "content_asset" where
  "open_review = demo_asset TEmail APendingApproval
     [(''approval_threshold'', JObj [(''admin_required_above_amount'', JInt 1000), (''currency'', JStr ''USD'')])]"

definition threshold_db :: db where
  "threshold_db = empty_db\<lparr>campaigns := [demo_campaign ApprovalPending],
     assets := [open_review, (demo_asset TEmail APendingApproval [])\<lparr>asset_id := 21\<rparr>]\<rparr>"

lemma demo_patch:
  "\<exists>c' s'. patch_campaign (worker_env 5) (demo_user Marketer) 7 (no_patch\<lparr>pa_currency := Some (Some ''EUR'')\<rparr>) threshold_db = Inr (c', s')
     \<and> camp_currency c' = ''EUR''"
  by (simp add: patch_campaign_def require_role_def patch_body_valid_def given_def no_patch_def currency_valid_def tenant_campaign_def
      get_campaign_def find_row_def threshold_db_def editable_states_def patched_fields_def patched_def new_value_def Let_def budget_fits_def
      demo_campaign_def less_eq_char_def)

theorem patch_campaign_correct_witness:
  "\<exists>c' s'. patch_campaign (worker_env 5) (demo_user Marketer) 7 (no_patch\<lparr>pa_currency := Some (Some ''EUR'')\<rparr>) threshold_db = Inr (c', s')
     \<and> camp_status c' = ApprovalPending \<and> get_campaign 7 s' = Some c'"
proof -
  obtain c' s' where run: "patch_campaign (worker_env 5) (demo_user Marketer) 7 (no_patch\<lparr>pa_currency := Some (Some ''EUR'')\<rparr>) threshold_db
     = Inr (c', s')" using demo_patch by blast
  have "get_campaign 7 threshold_db = Some (demo_campaign ApprovalPending)" by (simp add: get_campaign_def find_row_def threshold_db_def)
  with patch_campaign_correct [OF run] run show ?thesis by auto
qed

lemma demo_threshold_amount: "decimal_of (JInt 1000) = Some (DNum 1000)"
  by code_simp

theorem currency_edit_lifts_threshold_witness:
  "\<exists>s' d s''. approve_asset (campaign_sm (\<lambda>_ _ _. False)) 6 (demo_user Manager) 20 \<lparr>ap_edited_content = None, ap_edited_fields = None, ap_note = None\<rparr> threshold_db
       = Inl (HTTPException 403)
     \<and> approve_asset (campaign_sm (\<lambda>_ _ _. False)) 6 (demo_user Manager) 20 \<lparr>ap_edited_content = None, ap_edited_fields = None, ap_note = None\<rparr> s'
       = Inr (d, s'')"
proof -
  have campaign: "asset_campaign_id open_review = 7" by (simp add: open_review_def)
  obtain c' s' where run: "patch_campaign (worker_env 5) (demo_user Marketer) (asset_campaign_id open_review)
      (no_patch\<lparr>pa_currency := Some (Some ''EUR'')\<rparr>) threshold_db = Inr (c', s')" using demo_patch unfolding campaign by blast
  have asset: "tenant_asset (demo_user Manager) 20 threshold_db = Some open_review"
    by (simp add: tenant_asset_def get_asset_def find_row_def threshold_db_def open_review_def demo_asset_def)
  have camp: "get_campaign (asset_campaign_id open_review) threshold_db = Some (demo_campaign ApprovalPending)"
    by (simp add: campaign get_campaign_def find_row_def threshold_db_def)
  have facts: "approvable open_review" "\<not> is_compliance_blocked open_review" "''EUR'' \<noteq> camp_currency (demo_campaign ApprovalPending)"
    "spending_limit ''admin_required_above_amount'' open_review (demo_campaign ApprovalPending) = Some 1000"
    using demo_threshold_amount by (simp_all add: approvable_def is_compliance_blocked_def open_review_def demo_campaign_def spending_limit_def
        dict_get_def currency_of_def)
  have "1000 < rat_of_int (camp_budget_total (demo_campaign ApprovalPending)) / 100" by (simp add: demo_campaign_def)
  then show ?thesis
    using currency_edit_lifts_threshold [OF run _ _ asset facts(1,2) camp facts(3,4), where tc = "\<lambda>_ _ _. False" and now = 6
        and b = "(demo_asset TEmail APendingApproval [])\<lparr>asset_id := 21\<rparr>"
        and body = "\<lparr>ap_edited_content = None, ap_edited_fields = None, ap_note = None\<rparr>"]
    by (simp add: threshold_db_def required_in_def has_edits_def) blast
qed

end
