(* ===== verification/Assistant_Agents.thy ===== *)
theory Assistant_Agents
  imports Strategy Recommendations Review_Channels
begin

text \<open>
  The assistant's tools that drive the agents (\<^verbatim>\<open>app/assistant/tools.py\<close>): applying a recommendation, dismissing an anomaly,
  building a demo audience, running the strategist, accepting its proposal and drafting the content. The router
  (\<^verbatim>\<open>app/assistant/router.py\<close>) catches what a tool raises and goes on, and the request commits at the end, so a tool returns its
  outcome together with the state its session has reached. A statement that the database refuses makes the whole request fail.
  \<open>describe\<close> is the text of an exception, \<open>configured\<close> whether a key of the model provider is set.
\<close>

section \<open>Recommendations and anomalies\<close>

definition tool_accept_recommendation :: "instant \<Rightarrow> app_user \<Rightarrow> string \<Rightarrow> bool \<Rightarrow> db \<Rightarrow> (tool_result \<times> db) res" where
  "tool_accept_recommendation now user identifier confirm s =
     (case require_tool_role user Marketer of
        Inl err \<Rightarrow> Inl err
      | Inr _ \<Rightarrow>
     (case uuid_of_str identifier of
        None \<Rightarrow> Inl ToolError
      | Some i \<Rightarrow>
     (case find_row (\<lambda>r. rec_id r = i \<and> rec_tenant_id r = user_tenant_id user) (recommendations s) of
        None \<Rightarrow> Inl ToolError
      | Some r \<Rightarrow>
          if rec_status r \<noteq> ''pending'' then Inl ToolError
          else if \<not> confirm
            then Inr (ask (''Confirm: accept the '' @ rec_kind r @ '' recommendation? Predicted uplift: ''
                       @ (case rec_predicted_uplift r of None \<Rightarrow> em_dash | Some u \<Rightarrow> if u = 0 then em_dash else numeric_str 4 u)
                       @ ''. This applies the change immediately.'')
                   [(''recommendation_id'', JStr (uuid_str (rec_id r))), (''kind'', JStr (rec_kind r))], s)
          else case (if rec_kind r = ''budget_shift'' then apply_budget_shift r s else Inr s) of
            Inl err \<Rightarrow> Inl err
          | Inr s1 \<Rightarrow>
              Inr (told (''Applied '' @ rec_kind r @ '' recommendation.'')
                     [(''recommendation_id'', JStr (uuid_str (rec_id r))), (''status'', JStr ''applied'')],
                   set_recommendation i (\<lambda>r. r\<lparr>rec_status := ''applied'', rec_applied_at := Some now,
                     rec_applied_by := Some (user_id user)\<rparr>) s1))))"

text \<open>The tool does not compare tenants, as the endpoint does; the row-level security of the database is left to do it.\<close>

definition tool_dismiss_anomaly :: "instant \<Rightarrow> app_user \<Rightarrow> string \<Rightarrow> db \<Rightarrow> (tool_result \<times> db) res" where
  "tool_dismiss_anomaly now user identifier s =
     (case require_tool_role user Admin of
        Inl err \<Rightarrow> Inl err
      | Inr _ \<Rightarrow>
     (case uuid_of_str identifier of
        None \<Rightarrow> Inl ToolError
      | Some i \<Rightarrow>
          (case dismiss_anomaly now i (user_id user) s of
             Inl err \<Rightarrow> Inl (if err = LookupError then ToolError else err)
           | Inr (a, s') \<Rightarrow> Inr (told (''Dismissed anomaly on metric '' @ quoted (an_metric a) @ '' (silenced 24h).'')
                               [(''anomaly_id'', JStr (uuid_str (an_id a)))], s'))))"

section \<open>A demo audience\<close>

definition pad3 :: "nat \<Rightarrow> string" where
  "pad3 n = (if n < 1000 then [char_of (48 + n div 100)] @ pad2 (n mod 100) else digits n)"

definition demo_contact :: "instant \<Rightarrow> uuid \<Rightarrow> nat \<Rightarrow> audience_member" where
  "demo_contact now aud k =
     \<lparr>mem_audience_id = aud, mem_external_id = ''demo-'' @ pad3 k,
      mem_payload = [(''email'', JStr (''contact'' @ pad3 k @ ''@demo-co-'' @ digits (k mod 5) @ ''.test'')),
        (''first_name'', JStr (''Demo'' @ digits k)), (''company'', JStr (''Demo Co '' @ digits (k mod 5)))],
      mem_added_at = now\<rparr>"

definition tool_synthesise_audience :: "env \<Rightarrow> app_user \<Rightarrow> string \<Rightarrow> int \<Rightarrow> string \<Rightarrow> db \<Rightarrow> (tool_result \<times> db) res" where
  "tool_synthesise_audience e user identifier n persona s =
     (case require_tool_role user Marketer of
        Inl err \<Rightarrow> Inl err
      | Inr _ \<Rightarrow>
          if n < 1 \<or> 200 < n then Inl ToolError
          else case find_campaign user identifier s of
            Inl err \<Rightarrow> Inl err
          | Inr c \<Rightarrow>
              (let (i, s1) = fresh_uuid s;
                   aud = \<lparr>aud_id = i, aud_tenant_id = user_tenant_id user, aud_campaign_id = camp_id c,
                     aud_name = ''Demo audience '' @ em_dash @ '' '' @ take 40 persona,
                     aud_criteria = [(''_demo'', JBool True), (''persona'', JStr persona)],
                     aud_actual_size = Some n, aud_estimated_size = Some n, aud_created_at = env_now e\<rparr>;
                   s2 = s1\<lparr>audiences := audiences s1 @ [aud],
                     members := members s1 @ map (demo_contact (env_now e) i) [0..<nat n]\<rparr>;
                   s3 = (if camp_status c = Drafted then modify_campaign (camp_id c) (\<lambda>c. c\<lparr>camp_status := AudienceBuilt\<rparr>) s2 else s2)
               in Inr (told (''Built a synthetic audience of '' @ int_str n @ '' contacts for '' @ quoted (camp_name c)
                          @ ''. The campaign is now in '' @ ticked ''audience_built'' @ '' '' @ em_dash @ '' ready for the Strategist.'')
                        (campaign_data c @ [(''audience_id'', JStr (uuid_str i)), (''size'', JInt n)]), s3)))"

section \<open>The strategist\<close>

definition channel_line :: "json \<Rightarrow> string res" where
  "channel_line ch =
     (case ch of
        JObj d \<Rightarrow> Inr (py_str (dict_get d ''name'') @ '' '' @ py_str (dict_get d ''allocation_pct'') @ ''%'')
      | _ \<Rightarrow> Inl AttributeError)"

definition channel_summary :: "dict \<Rightarrow> string res" where
  "channel_summary payload =
     (case py_iter (dict_get_default payload ''channels'' (JArr [])) of
        None \<Rightarrow> Inl TypeError
      | Some chs \<Rightarrow>
          map_sum id (\<lambda>rev_lines. if rev_lines = [] then ''(no channels)'' else py_join '', '' (rev rev_lines))
            (for_each (\<lambda>ch acc. map_sum id (\<lambda>l. l # acc) (channel_line ch)) chs []))"

definition tool_generate_strategy ::
  "bool \<Rightarrow> client \<Rightarrow> (string \<Rightarrow> json option) \<Rightarrow> env \<Rightarrow> app_user \<Rightarrow> string \<Rightarrow> bool \<Rightarrow> db \<Rightarrow> tool_result res \<times> db" where
  "tool_generate_strategy configured client loads e user identifier confirm s =
     (case require_tool_role user Marketer of
        Inl err \<Rightarrow> (Inl err, s)
      | Inr _ \<Rightarrow>
     (case find_campaign user identifier s of
        Inl err \<Rightarrow> (Inl err, s)
      | Inr c \<Rightarrow>
          if \<not> confirm
          then (Inr (ask (''This will make a real Anthropic call (~$0.02) to draft a strategy for '' @ quoted (camp_name c) @ ''. Continue?'')
                  (campaign_data c @ [(''campaign_name'', JStr (camp_name c))])), s)
          else if \<not> configured then (Inl ToolError, s)
          else case ensure_strategist_agent e (user_tenant_id user) s of
            Inl err \<Rightarrow> (Inl err, s)
          | Inr (_, s1) \<Rightarrow>
              (case propose client loads e (camp_id c) (Some (user_id user)) s1 of
                 Inl err \<Rightarrow> (Inl (if err = StrategistPreconditionError then ToolError else err), s1)
               | Inr (_, s2) \<Rightarrow>
                   (case latest_by prop_version (proposals_of (camp_id c) s2) of
                      None \<Rightarrow> (Inl NoResultFound, s2)
                    | Some p \<Rightarrow>
                        (map_sum id (\<lambda>line. told (''Drafted proposal v'' @ int_str (prop_version p) @ '': '' @ line
                             @ ''. Review it and accept when ready.'')
                            (campaign_data c @ [(''proposal_id'', JStr (uuid_str (prop_id p))), (''version'', JInt (prop_version p)),
                               (''proposal_payload'', JObj (prop_payload p))]))
                           (channel_summary (prop_payload p)), s2)))))"

section \<open>Accepting a proposal\<close>

text \<open>The flag of the proposal and the demotion of the others; only the API endpoint also removes the other calendars.\<close>

definition assistant_accepted :: "strategy_proposal \<Rightarrow> db \<Rightarrow> db" where
  "assistant_accepted p s = modify_proposal (prop_id p) accepted_proposal (clear_accepted p s)"

definition tool_accept_strategy :: "app_user \<Rightarrow> string \<Rightarrow> bool \<Rightarrow> db \<Rightarrow> tool_result res \<times> db" where
  "tool_accept_strategy user identifier confirm s =
     (case require_tool_role user Marketer of
        Inl err \<Rightarrow> (Inl err, s)
      | Inr _ \<Rightarrow>
     (case find_campaign user identifier s of
        Inl err \<Rightarrow> (Inl err, s)
      | Inr c \<Rightarrow>
     (case latest_by prop_version (filter (\<lambda>p. \<not> prop_is_accepted p) (proposals_of (camp_id c) s)) of
        None \<Rightarrow> (Inl ToolError, s)
      | Some p \<Rightarrow>
          if \<not> confirm
          then (Inr (ask (''Accept proposal v'' @ int_str (prop_version p) @ '' for '' @ quoted (camp_name c)
                       @ ''? This locks the channel mix + calendar.'') [(''proposal_id'', JStr (uuid_str (prop_id p)))]), s)
          else case seed_calendar (accepted_proposal p) (assistant_accepted p s) of
            Inl (CalendarRaises DataError) \<Rightarrow> (Inl ToolError, s)
          | Inl _ \<Rightarrow> (Inl ToolError, assistant_accepted p s)
          | Inr s1 \<Rightarrow>
              (let n = length (touchpoints s1) - length (touchpoints s);
                   s2 = (if camp_status c \<in> {AudienceBuilt, Drafted}
                         then modify_campaign (camp_id c) (\<lambda>c. c\<lparr>camp_status := StrategySet\<rparr>) s1 else s1)
               in (Inr (told (''Accepted proposal v'' @ int_str (prop_version p) @ ''; '' @ digits n
                          @ '' touchpoint(s) scheduled. Ready to draft content.'')
                      (campaign_data c @ [(''proposal_id'', JStr (uuid_str (prop_id p))), (''touchpoints'', JInt (int n))])), s2)))))"

section \<open>Drafting the content\<close>

text \<open>The parameters are those of the generation of an asset; \<open>copy\<close> answers for each asset on its own.\<close>

text \<open>\<^verbatim>\<open>f"{0.015 * n:.3f}"\<close>.\<close>

definition cost_text :: "nat \<Rightarrow> string" where
  "cost_text n = digits (15 * n div 1000) @ ''.'' @ pad3 (15 * n mod 1000)"

text \<open>The loop over the new assets: the number drafted and the failures, in order; an exception of one does not stop the others.\<close>

fun draft_all ::
  "(uuid \<Rightarrow> db \<Rightarrow> dict res \<times> db) \<Rightarrow> (py_error \<Rightarrow> string) \<Rightarrow> uuid list \<Rightarrow> db \<Rightarrow> (nat \<times> json list) \<times> db" where
  "draft_all gen describe [] s = ((0, []), s)"
| "draft_all gen describe (i # is) s =
     (case gen i s of
        (Inr _, s1) \<Rightarrow> (case draft_all gen describe is s1 of ((n, failed), s2) \<Rightarrow> ((Suc n, failed), s2))
      | (Inl err, s1) \<Rightarrow>
          (case draft_all gen describe is s1 of
             ((n, failed), s2) \<Rightarrow>
               ((n, JObj [(''asset_id'', JStr (uuid_str i)), (''error'', JStr (take 200 (describe err)))] # failed), s2)))"

definition tool_generate_content ::
  "bool \<Rightarrow> (uuid \<Rightarrow> nat \<Rightarrow> dict \<Rightarrow> dict res) \<Rightarrow> (dict \<Rightarrow> dict res) \<Rightarrow> (string \<Rightarrow> (string \<Rightarrow> (nat \<times> nat) list) option) \<Rightarrow> string
     \<Rightarrow> (py_error \<Rightarrow> string) \<Rightarrow> state_machine \<Rightarrow> env \<Rightarrow> app_user \<Rightarrow> string \<Rightarrow> bool \<Rightarrow> db \<Rightarrow> tool_result res \<times> db" where
  "tool_generate_content configured copy seo rxc message describe sm e user identifier confirm s =
     (case require_tool_role user Marketer of
        Inl err \<Rightarrow> (Inl err, s)
      | Inr _ \<Rightarrow>
     (case find_campaign user identifier s of
        Inl err \<Rightarrow> (Inl err, s)
      | Inr c \<Rightarrow>
          if \<not> configured then (Inl ToolError, s)
          else case scalar_one_or_none (filter prop_is_accepted (proposals_of (camp_id c) s)) of
            None \<Rightarrow> (Inl MultipleResultsFound, s)
          | Some None \<Rightarrow> (Inl ToolError, s)
          | Some (Some p) \<Rightarrow>
              (let n = length (touches_of (prop_id p) s)
               in if n = 0 then (Inl ToolError, s)
                  else if \<not> confirm
                  then (Inr (ask (''This will draft '' @ digits n @ '' content asset(s) via real Anthropic calls (~$'' @ cost_text n
                               @ ''). Continue?'') (campaign_data c @ [(''n_assets'', JInt (int n))])), s)
                  else case ensure_content_creator_agent e (user_tenant_id user) s of
                    Inl err \<Rightarrow> (Inl err, s)
                  | Inr (_, s1) \<Rightarrow>
                      (case seed_assets_for_campaign e c s1 of
                         Inl err \<Rightarrow> (Inl (if err = ContentCreatorError then ToolError else err), s1)
                       | Inr (ids, s2) \<Rightarrow>
                           (case draft_all (\<lambda>i. generate_asset (copy i) seo rxc message sm e i) describe ids s2 of
                              ((ok, failed), s3) \<Rightarrow>
                                (let s4 = (if (case get_campaign (camp_id c) s3 of None \<Rightarrow> False | Some c' \<Rightarrow> camp_status c' = StrategySet)
                                           then modify_campaign (camp_id c) (\<lambda>c. c\<lparr>camp_status := ContentInProduction\<rparr>) s3 else s3)
                                 in (Inr (told (''Drafted '' @ digits ok @ ''/'' @ digits n @ '' asset(s)''
                                          @ (if failed \<noteq> [] then ''; '' @ digits (length failed) @ '' failed'' else [])
                                          @ ''. Review them and approve when ready.'')
                                        (campaign_data c @ [(''succeeded'', JInt (int ok)), (''failed'', JArr failed)])), s4)))))))"

section \<open>A failed acceptance\<close>

lemma assistant_accepted_frame [simp]:
  "get_campaign c (assistant_accepted p s) = get_campaign c s" "latest_audience c (assistant_accepted p s) = latest_audience c s"
  "hard_caps_of ten (assistant_accepted p s) = hard_caps_of ten s" "touchpoints (assistant_accepted p s) = touchpoints s"
  by (simp_all add: assistant_accepted_def modify_proposal_def clear_accepted_def get_campaign_def latest_audience_def
      hard_caps_of_def constraints_of_def)

lemma latest_by_in: "latest_by key rows = Some r \<Longrightarrow> r \<in> set rows"
  by (auto simp: latest_by_def split: list.splits) (metis list.set_intros(1) set_sort)

lemma assistant_accepted_proposals:
  "proposals (assistant_accepted p s) = map (\<lambda>q. if prop_id q = prop_id p then accepted_proposal q
     else if prop_campaign_id q = prop_campaign_id p then q\<lparr>prop_is_accepted := False\<rparr> else q) (proposals s)"
  using prepared_proposals [of p s] by (simp add: prepared_def assistant_accepted_def modify_proposal_def drop_calendars_def clear_accepted_def)

lemma accepted_after:
  assumes "strategy_inv s" "p \<in> set (proposals s)" "prop_campaign_id p = camp"
  shows "filter prop_is_accepted (proposals_of camp (assistant_accepted p s)) = [accepted_proposal p]"
proof -
  define f where "f q = (if prop_id q = prop_id p then accepted_proposal q
     else if prop_campaign_id q = prop_campaign_id p then q\<lparr>prop_is_accepted := False\<rparr> else q)" for q
  have keys: "prop_campaign_id (f q) = prop_campaign_id q" for q by (simp add: f_def accepted_proposal_def)
  have d: "distinct (map prop_id (proposals s))" using assms(1) by (simp add: strategy_inv_def)
  have acc: "prop_campaign_id q = camp \<and> prop_is_accepted (f q) \<longleftrightarrow> prop_id q = prop_id p" if "q \<in> set (proposals s)" for q
  proof (cases "prop_id q = prop_id p")
    case True
    then have "q = p" using d assms(2) that by (auto simp: distinct_map inj_on_def)
    then show ?thesis using assms(3) by (simp add: f_def accepted_proposal_def)
  qed (simp add: f_def assms(3))
  have "filter prop_is_accepted (proposals_of camp (assistant_accepted p s))
      = map f (filter (\<lambda>q. prop_campaign_id q = camp \<and> prop_is_accepted (f q)) (proposals s))"
    by (simp add: proposals_of_def assistant_accepted_proposals f_def [symmetric, abs_def] filter_map o_def keys conj_commute)
  also have "\<dots> = map f (filter (\<lambda>q. prop_id q = prop_id p) (proposals s))" by (simp add: acc cong: filter_cong)
  also have "\<dots> = [accepted_proposal p]" using filter_key_one [OF d assms(2)] by (simp add: f_def)
  finally show ?thesis .
qed

text \<open>An acceptance through the assistant that fails is committed all the same: where the calendar of the latest proposal cannot be
  generated (a hard cap, no audience), the endpoint refuses the proposal and changes nothing, but the assistant's tool reports
  an error and leaves the proposal accepted, the one accepted before demoted, and the campaign with an accepted strategy whose
  calendar is empty.\<close>

theorem failed_assistant_acceptance_sticks:
  assumes "strategy_inv s" "find_campaign user identifier s = Inr c" "role_rank Marketer \<le> role_rank (user_role_of user)"
    and "latest_by prop_version (filter (\<lambda>p. \<not> prop_is_accepted p) (proposals_of (camp_id c) s)) = Some p"
    and "get_campaign (camp_id c) s = Some c" "latest_audience (camp_id c) s = Some aud"
    and "generate_calendar (prop_payload p) (camp_start_date c) (camp_end_date c) (aud_id aud) (hard_caps_of (camp_tenant_id c) s)
        = Inl (HardCapViolation vs)"
  shows "isl (accept_strategy sm e user (prop_id p) s)
    \<and> tool_accept_strategy user identifier True s = (Inl ToolError, assistant_accepted p s)
    \<and> filter prop_is_accepted (proposals_of (camp_id c) (assistant_accepted p s)) = [accepted_proposal p]
    \<and> get_accepted_calendar (camp_id c) (assistant_accepted p s) = Inr []"
proof -
  have "p \<in> set (filter (\<lambda>p. \<not> prop_is_accepted p) (proposals_of (camp_id c) s))" using assms(4) by (rule latest_by_in)
  then have p: "p \<in> set (proposals s)" "\<not> prop_is_accepted p" "prop_campaign_id p = camp_id c" by (auto simp: proposals_of_def)
  have fields: "prop_payload (accepted_proposal p) = prop_payload p" "prop_campaign_id (accepted_proposal p) = camp_id c"
    "prop_id (accepted_proposal p) = prop_id p" using p(3) by (simp_all add: accepted_proposal_def)
  have seed: "seed_calendar (accepted_proposal p) (assistant_accepted p s) = Inl (HardCapViolation vs)"
    "seed_calendar (accepted_proposal p) (prepared p s) = Inl (HardCapViolation vs)"
    using assms(5-7) by (simp_all add: seed_calendar_def fields)
  have d: "distinct (map prop_id (proposals s))" using assms(1) by (simp add: strategy_inv_def)
  have uniq: "q = p" if "q \<in> set (proposals s)" "prop_id q = prop_id p" for q
    using d p(1) that by (auto simp: distinct_map inj_on_def)
  have own: "q = p" if "tenant_proposal user (prop_id p) s = Some q" for q
    using find_row_Some [OF that [unfolded tenant_proposal_def]] uniq by blast
  have "isl (accept_strategy sm e user (prop_id p) s)"
  proof (cases "require_role Marketer user")
    case (Inr u)
    show ?thesis
    proof (cases "tenant_proposal user (prop_id p) s")
      case (Some q)
      then have q: "tenant_proposal user (prop_id p) s = Some p" using own by blast
      show ?thesis unfolding accept_strategy_def Inr q prepared_def [symmetric] option.case sum.case
        by (cases "tenant_campaign user (prop_campaign_id p) s") (simp_all add: p(2) seed(2))
    qed (simp add: accept_strategy_def Inr)
  qed (simp add: accept_strategy_def)
  moreover have "tool_accept_strategy user identifier True s = (Inl ToolError, assistant_accepted p s)"
    using assms(2-4) seed(1) by (simp add: tool_accept_strategy_def require_tool_role_def)
  moreover note acc = accepted_after [OF assms(1) p(1,3)]
  moreover have "touches_of (prop_id p) (assistant_accepted p s) = []"
  proof -
    have "tp_proposal_id t \<noteq> prop_id p" if "t \<in> set (touchpoints s)" for t
    proof
      assume t: "tp_proposal_id t = prop_id p"
      from assms(1) that obtain q where "q \<in> set (proposals s)" "prop_id q = tp_proposal_id t" "prop_is_accepted q"
        unfolding strategy_inv_def by blast
      with uniq p(2) t show False by metis
    qed
    then show ?thesis by (auto simp: touches_of_def filter_empty_conv)
  qed
  then have "get_accepted_calendar (camp_id c) (assistant_accepted p s) = Inr []"
    using acc by (simp add: get_accepted_calendar_def calendar_of_def touches_of_def fields)
  ultimately show ?thesis by simp
qed

text \<open>Acceptance through the assistant keeps the calendar of the proposal that was accepted before, whose touchpoints then belong to
  no accepted proposal; the endpoint's invariant does not survive it.\<close>

theorem assistant_acceptance_keeps_old_calendar:
  assumes "strategy_inv s" "tool_accept_strategy user identifier True s = (Inr r, s')" "find_campaign user identifier s = Inr c"
    and "q \<in> set (proposals s)" "prop_is_accepted q" "prop_campaign_id q = camp_id c"
    and "t \<in> set (touchpoints s)" "tp_proposal_id t = prop_id q"
  shows "t \<in> set (touchpoints s') \<and> \<not> strategy_inv s'"
proof -
  obtain u where role: "require_tool_role user Marketer = Inr u"
    using assms(2) by (cases "require_tool_role user Marketer") (simp_all add: tool_accept_strategy_def)
  obtain p where lp: "latest_by prop_version (filter (\<lambda>p. \<not> prop_is_accepted p) (proposals_of (camp_id c) s)) = Some p"
    using assms(2,3) role
    by (cases "latest_by prop_version (filter (\<lambda>p. \<not> prop_is_accepted p) (proposals_of (camp_id c) s))") (simp_all add: tool_accept_strategy_def)
  have p: "p \<in> set (proposals s)" "\<not> prop_is_accepted p" "prop_campaign_id p = camp_id c"
    using latest_by_in [OF lp] by (auto simp: proposals_of_def)
  obtain s1 where s1: "seed_calendar (accepted_proposal p) (assistant_accepted p s) = Inr s1"
    and s': "touchpoints s' = touchpoints s1" "proposals s' = proposals s1"
    using assms(2,3) role lp
    by (cases "seed_calendar (accepted_proposal p) (assistant_accepted p s)")
      (auto simp: tool_accept_strategy_def Let_def modify_campaign_def split: calendar_error.splits py_error.splits if_splits)
  have rows: "proposals s' = proposals (assistant_accepted p s)" "t \<in> set (touchpoints s')"
    using s1 s' assms(7) by (auto elim!: seed_calendar_effect)
  have d: "distinct (map prop_id (proposals s))" using assms(1) by (simp add: strategy_inv_def)
  have ne: "prop_id q \<noteq> prop_id p" using d assms(4,5) p(1,2) by (auto simp: distinct_map inj_on_def)
  have "\<not> prop_is_accepted r" if "r \<in> set (proposals s')" "prop_id r = tp_proposal_id t" for r
  proof -
    from that(1) obtain x where x: "x \<in> set (proposals s)" "r = (if prop_id x = prop_id p then accepted_proposal x
        else if prop_campaign_id x = prop_campaign_id p then x\<lparr>prop_is_accepted := False\<rparr> else x)"
      by (auto simp: rows(1) assistant_accepted_proposals)
    have "prop_id x = prop_id q" using x(2) that(2) assms(8) by (auto simp: accepted_proposal_def split: if_splits)
    then have "x = q" using d x(1) assms(4) by (auto simp: distinct_map inj_on_def)
    then show ?thesis using x(2) ne assms(6) p(3) by simp
  qed
  then have "\<not> strategy_inv s'" using rows(2) unfolding strategy_inv_def by blast
  with rows(2) show ?thesis by simp
qed

section \<open>The same effect as the endpoint\<close>

text \<open>Applying a recommendation through the assistant does what the endpoint does, except for the audit entry: when the tool
  succeeds, so does the endpoint on the same recommendation, and the two databases differ in the audit log only, to which the
  tool adds nothing.\<close>

theorem assistant_applies_like_endpoint:
  assumes "tool_accept_recommendation now user identifier True s = Inr (r, s')" "uuid_of_str identifier = Some i"
  shows "\<exists>row s''. accept_recommendation now user i s = Inr (row, s'') \<and> s' = s''\<lparr>audit_log := audit_log s'\<rparr>
    \<and> rec_status row = ''applied'' \<and> (\<exists>entry. audit_log s'' = audit_log s' @ [entry])"
proof -
  obtain u where role: "require_tool_role user Marketer = Inr u"
    using assms(1) by (cases "require_tool_role user Marketer") (simp_all add: tool_accept_recommendation_def)
  then have role': "require_role Marketer user = Inr user" by (auto simp: require_tool_role_def require_role_def split: if_splits)
  obtain x where x: "find_row (\<lambda>r. rec_id r = i \<and> rec_tenant_id r = user_tenant_id user) (recommendations s) = Some x"
    "rec_status x = ''pending''"
    using assms role by (cases "find_row (\<lambda>r. rec_id r = i \<and> rec_tenant_id r = user_tenant_id user) (recommendations s)")
      (auto simp: tool_accept_recommendation_def split: if_splits)
  obtain s1 where s1: "(if rec_kind x = ''budget_shift'' then apply_budget_shift x s else Inr s) = Inr s1"
    using assms role x by (cases "(if rec_kind x = ''budget_shift'' then apply_budget_shift x s else Inr s)")
      (auto simp: tool_accept_recommendation_def)
  have s': "s' = set_recommendation i (\<lambda>r. r\<lparr>rec_status := ''applied'', rec_applied_at := Some now, rec_applied_by := Some (user_id user)\<rparr>) s1"
    using assms role x s1 by (simp add: tool_accept_recommendation_def)
  have pend: "pending_recommendation user i s = Inr x" using x role' by (simp add: pending_recommendation_def)
  show ?thesis unfolding accept_recommendation_def pend sum.case s1 s' Let_def by (simp add: write_audit_def set_recommendation_def)
qed

section \<open>Drafting and the queue\<close>

lemma generation_keeps_tasks: "tasks (snd (generate_asset copy seo rxc message (campaign_sm tc) e i s)) = tasks s"
proof -
  have gen: "tasks s2 = tasks s'" if "run_generation copy seo rxc e asset camp plan s' = Inr (out, s2)" for asset camp plan s' out s2
    using that by (rule run_generation_Inr) simp
  show ?thesis
  proof (cases "get_asset i s")
    case (Some asset)
    note a = this
    show ?thesis
    proof (cases "get_campaign (asset_campaign_id asset) s")
      case (Some camp)
      then show ?thesis using a
        by (auto simp: generate_asset_def Let_def split: sum.split py_error.split prod.split dest!: gen maybe_submit_tasks)
    qed (simp add: generate_asset_def a)
  qed (simp add: generate_asset_def)
qed

lemma draft_all_effect:
  assumes "\<And>i s. tasks (snd (gen i s)) = tasks s"
  shows "draft_all gen describe is s = ((n, failed), s') \<Longrightarrow> tasks s' = tasks s \<and> n + length failed = length is"
proof (induction "is" arbitrary: s n failed s')
  case (Cons i "is")
  obtain o1 s1 where o1: "gen i s = (o1, s1)" by force
  obtain n1 f1 s2 where r: "draft_all gen describe is s1 = ((n1, f1), s2)" by (metis prod.exhaust)
  have "tasks s1 = tasks s" using assms [of i s] by (simp add: o1)
  with Cons.IH [OF r] Cons.prems show ?case by (cases o1) (auto simp: o1 r)
qed simp

lemma seeding_queues:
  assumes "seed_assets_for_campaign e camp s = Inr (ids, s')"
  shows "ids \<noteq> [] \<and> (\<forall>i\<in>set ids. \<exists>t\<in>set (tasks s'). task_skill_name t = ''content_creator.generate_asset'' \<and> task_status_of t = TQueued
     \<and> dict_get (task_input_data t) ''asset_id'' = JStr (uuid_str i))"
proof -
  from assms obtain ag groups s2 where rows: "concat (map snd groups) \<noteq> []" "ids = map asset_id (concat (map snd groups))"
    and loop: "for_each (\<lambda>a s. map_sum id snd (enqueue_task e (generation_request camp ag a) s)) (concat (map snd groups))
        (fold (seed_ab_test e camp) groups s2) = Inr s'"
    by (auto simp: seed_assets_for_campaign_def Let_def split: option.splits if_splits sum.splits prod.splits)
  define row_list where "row_list = concat (map snd groups)"
  note rows = rows [folded row_list_def] and loop = loop [folded row_list_def]
  obtain new where new: "tasks s' = tasks (fold (seed_ab_test e camp) groups s2) @ new" "list_all2 (generation_task e camp ag) row_list new"
    using enqueue_loop_effect [OF loop] by blast
  have "\<exists>t\<in>set (tasks s'). task_skill_name t = ''content_creator.generate_asset'' \<and> task_status_of t = TQueued
     \<and> dict_get (task_input_data t) ''asset_id'' = JStr (uuid_str (asset_id a))" if mem: "a \<in> set row_list" for a
  proof -
    obtain t where "t \<in> set new" "generation_task e camp ag a t" using list_all2_member [OF new(2) mem] by blast
    then show ?thesis
      by (intro bexI [of _ t]) (auto simp: new(1) generation_task_def new_task_def generation_request_def request_def dict_get_def)
  qed
  then show ?thesis using rows by auto
qed

text \<open>Content drafted through the assistant is queued to be drafted again: the tool seeds the assets with the function that also
  queues a generation task for each, then drafts every asset itself; when it returns, the drafted and the failed assets are
  all of the seeded ones, and each still has a queued generation task, with which a worker will replace the draft, whatever
  has been decided on it by then.\<close>

theorem assistant_drafts_twice:
  assumes "tool_generate_content configured copy seo rxc message describe (campaign_sm tc) e user identifier True s = (Inr r, s')"
  shows "\<exists>ids ok failed. dict_get (tl_data r) ''succeeded'' = JInt (int ok) \<and> dict_get (tl_data r) ''failed'' = JArr failed
    \<and> ok + length failed = length ids \<and> ids \<noteq> []
    \<and> (\<forall>i\<in>set ids. \<exists>t\<in>set (tasks s'). task_skill_name t = ''content_creator.generate_asset'' \<and> task_status_of t = TQueued
         \<and> dict_get (task_input_data t) ''asset_id'' = JStr (uuid_str i))"
proof -
  note run = assms [unfolded tool_generate_content_def Let_def]
  obtain u where role: "require_tool_role user Marketer = Inr u" using run by (cases "require_tool_role user Marketer") simp_all
  note run = run [unfolded role sum.case]
  obtain c where c: "find_campaign user identifier s = Inr c" using run by (cases "find_campaign user identifier s") simp_all
  note run = run [unfolded c sum.case]
  have conf: "\<not> \<not> configured" using run by (cases configured) simp_all
  note run = run [unfolded if_not_P [OF conf]]
  obtain q where q: "scalar_one_or_none (filter prop_is_accepted (proposals_of (camp_id c) s)) = Some q"
    using run by (cases "scalar_one_or_none (filter prop_is_accepted (proposals_of (camp_id c) s))") simp_all
  note run = run [unfolded q option.case]
  obtain p where p: "q = Some p" using run by (cases q) simp_all
  note run = run [unfolded p option.case]
  have n: "length (touches_of (prop_id p) s) \<noteq> 0" using run by (cases "length (touches_of (prop_id p) s) = 0") simp_all
  note run = run [unfolded if_not_P [OF n] not_True_eq_False if_False]
  obtain ag s1 where ag: "ensure_content_creator_agent e (user_tenant_id user) s = Inr (ag, s1)"
    using run by (cases "ensure_content_creator_agent e (user_tenant_id user) s") (simp, force)
  note run = run [unfolded ag sum.case prod.case]
  obtain ids s2 where ids: "seed_assets_for_campaign e c s1 = Inr (ids, s2)"
    using run by (cases "seed_assets_for_campaign e c s1") (simp, force)
  note run = run [unfolded ids sum.case prod.case]
  define out where "out = draft_all (\<lambda>i. generate_asset (copy i) seo rxc message (campaign_sm tc) e i) describe ids s2"
  obtain ok failed s3 where "out = ((ok, failed), s3)" by (cases out) auto
  then have d: "draft_all (\<lambda>i. generate_asset (copy i) seo rxc message (campaign_sm tc) e i) describe ids s2 = ((ok, failed), s3)"
    by (simp only: out_def)
  note run = run [unfolded d prod.case]
  have E: "tasks s3 = tasks s2 \<and> ok + length failed = length ids"
    by (rule draft_all_effect [OF _ d]) (rule generation_keeps_tasks)
  have "tasks s' = tasks s3" "dict_get (tl_data r) ''succeeded'' = JInt (int ok)" "dict_get (tl_data r) ''failed'' = JArr failed"
    using conjunct1 [OF run [unfolded prod.inject]] conjunct2 [OF run [unfolded prod.inject]]
    by (auto simp: told_def campaign_data_def dict_get_def modify_campaign_def)
  with seeding_queues [OF ids] E show ?thesis by (intro exI [of _ ids] exI [of _ ok] exI [of _ failed]) simp
qed

end
