(* ===== verification/Spec2Isabelle.thy ===== *)
theory Spec2Isabelle
  imports Task_Queue Calendar Ab_Assignment Scheduling Report Content_Seeding State_Machine Unsubscribe Approvals Compliance Copywriting Seo Generation Review_Channels Worker Reconciliation Strategy Ab_Tests Campaigns_Api Assistant_Agents
begin

text \<open>
  A model of the marketing system under \<^verbatim>\<open>src/app\<close> and the theorems that make it correct.

  \<^bold>\<open>The program.\<close> Tenants run marketing campaigns. A campaign is a row whose status moves through a state
  machine (\<^verbatim>\<open>orchestrator/state_machine.py\<close>); hooks of the transitions and API calls put tasks into a durable
  queue (\<^verbatim>\<open>orchestrator/queue.py\<close>), a worker (\<^verbatim>\<open>orchestrator/worker.py\<close>) claims them and runs the handler
  of the task's skill. The strategist (\<^verbatim>\<open>agents/strategist.py\<close>, \<^verbatim>\<open>api/strategy.py\<close>) asks a language model for a
  plan, and the proposal a manager accepts gives a calendar of touchpoints
  (\<^verbatim>\<open>agents/_calendar.py\<close>); the content creator (\<^verbatim>\<open>agents/content_creator.py\<close>) turns each into content
  assets and writes their copy with the copywriting tool, checked by \<^verbatim>\<open>agents/_compliance.py\<close> and
  \<^verbatim>\<open>agents/brand_voice.py\<close>; reviewers decide on the drafts (\<^verbatim>\<open>api/approvals.py\<close>, the review pages, the
  assistant); the distribution agent (\<^verbatim>\<open>agents/distribution.py\<close>) schedules and sends what is approved through the
  e-mail and social tools; recipients leave through \<^verbatim>\<open>api/unsubscribe.py\<close>. Providers report what became of the
  messages through \<^verbatim>\<open>webhooks/\<close>, and web analytics are pulled in by \<^verbatim>\<open>integrations/web_analytics/\<close>; from these events
  \<^verbatim>\<open>analytics/\<close> computes the dashboard's numbers, anomalies, budget recommendations, the reconciliation with the
  providers' invoices and the report that closes a campaign.

  \<^bold>\<open>The model.\<close> The database is one record \<^verbatim>\<open>db\<close> of tables, each a list of rows in insertion order, and an
  operation is a function from it to its successor; what may raise returns \<^verbatim>\<open>py_error + 'a\<close>. A handler of the
  worker returns the outcome together with the state its session would commit.

  \<^item> \<^verbatim>\<open>Prelude\<close>, \<^verbatim>\<open>Py_Values\<close>: strings, JSON values, dictionaries, \<^verbatim>\<open>str(uuid)\<close>, money, rounding, dynamically typed
    conversions, and table operations with their lemmas.
  \<^item> \<^verbatim>\<open>Models\<close>: enums and rows of \<^verbatim>\<open>db/enums.py\<close> and \<^verbatim>\<open>db/models.py\<close>, the environment of an operation (clock,
    identifiers, actor), \<^verbatim>\<open>write_audit\<close> and the agent log.
  \<^item> \<^verbatim>\<open>Task_Queue\<close>: enqueue, claim, complete, fail, reap, cancel; the step relation over them, its invariant, and
    what is claimed next.
  \<^item> \<^verbatim>\<open>Calendar\<close>: the layout of touchpoints and the scan that enforces the hard caps, equal to the declarative
    statement over all windows.
  \<^item> \<^verbatim>\<open>Ab_Assignment\<close>: the pick by bucket, honouring the split exactly, and sticky assignment.
  \<^item> \<^verbatim>\<open>Content_Seeding\<close>, \<^verbatim>\<open>Scheduling\<close>, \<^verbatim>\<open>Report\<close>: the effects of entering content production, launching,
    resuming and completing.
  \<^item> \<^verbatim>\<open>State_Machine\<close>: registration, \<^verbatim>\<open>apply\<close>, the guards and hooks, the built-in table; every transition is
    sound and the gates of submission and launch hold.
  \<^item> \<^verbatim>\<open>Email_Tool\<close>, \<^verbatim>\<open>Social_Tool\<close>: the dispatch tools and the SendGrid and LinkedIn adapters; outcomes by class of
    answer, bounded retries, idempotence.
  \<^item> \<^verbatim>\<open>Dispatch\<close>: sending an e-mail or a social asset; it refines the abstract rule of who may be written to, and
    the summary accounts for everyone.
  \<^item> \<^verbatim>\<open>Unsubscribe\<close>: the token round trip from the footer of a mail to the suppression that later dispatches respect.
  \<^item> \<^verbatim>\<open>Approvals\<close>, \<^verbatim>\<open>Review_Channels\<close>: deciding through the API, in batches, through the pages and through the
    assistant; the API's rule is an abstract permission and the other channels are compared with it.
  \<^item> \<^verbatim>\<open>Compliance\<close>, \<^verbatim>\<open>Copywriting\<close>, \<^verbatim>\<open>Seo\<close>, \<^verbatim>\<open>Generation\<close>: the checks on copy, the rewrite loop of the tool, the
    analyser, and the generation of one asset from these.
  \<^item> \<^verbatim>\<open>Worker\<close>: the registry, the handlers, one round of the worker, draining the queue.
  \<^item> \<^verbatim>\<open>Webhooks\<close>, \<^verbatim>\<open>Web_Ingest\<close>: the uniform webhook receiver with its provider handlers, the older e-mail receiver and the
    import of web analytics; events are written for authentic requests only, and a replay writes nothing.
  \<^item> \<^verbatim>\<open>Ab_Statistics\<close>, \<^verbatim>\<open>Ab_Tests\<close>: the tests of the \<^verbatim>\<open>ab.testing\<close> tool, the evaluator and the A/B endpoints; the
    step relation over them and its invariant, what an evaluation may decide, and what keeps it from deciding.
  \<^item> \<^verbatim>\<open>Campaigns_Api\<close>: authoring, editing, pausing and resuming a campaign; campaigns stay well formed, and what an edit
    does to the approval rule.
  \<^item> \<^verbatim>\<open>Py_Decimal\<close>: \<^verbatim>\<open>decimal.Decimal\<close> with its 28 digits, \<^verbatim>\<open>quantize\<close> and the columns' \<^verbatim>\<open>NUMERIC\<close>, with error bounds.
  \<^item> \<^verbatim>\<open>Kpi_Rollup\<close>, \<^verbatim>\<open>Anomaly\<close>, \<^verbatim>\<open>Recommendations\<close>, \<^verbatim>\<open>Reconciliation\<close>: the dashboard's numbers, which agree with the
    report; the three-sigma detector and its silence; budget shifts, from the metrics to the applied allocation, and the
    automatic pause; spend ingest and the reconciliation of a period.
  \<^item> \<^verbatim>\<open>Strategist_Planner\<close>: the prompt, the validation of a plan and the retry loop of the planner; what a plan without
    warnings guarantees.
  \<^item> \<^verbatim>\<open>Strategy\<close>: proposing, overriding, accepting a proposal and moving a touchpoint; the step relation over the four
    and its invariant.
  \<^item> \<^verbatim>\<open>Assistant_Agents\<close>: the assistant's tools that apply a recommendation, dismiss an anomaly, build a demo audience,
    run the strategist, accept its proposal and draft the content; compared with the endpoints.

  \<^bold>\<open>Interfaces.\<close> Locales state what a client relies on and are interpreted on the model's own definitions, in the theory
  that provides them: \<^verbatim>\<open>keyed_table\<close> (reading back a row after an update), \<^verbatim>\<open>invariant_steps\<close> (runs of a step
  function keep an invariant; for the queue, for a queue without crashes, for the life cycle, and for the strategy,
  A/B and campaign endpoints), \<^verbatim>\<open>asset_loop\<close> (a
  loop over the assets of a campaign that treats each on its own), \<^verbatim>\<open>campaign_hook\<close> (what a hook leaves alone),
  \<^verbatim>\<open>task_handler\<close> (what a handler may do to the task table; for the handlers of the worker and of the strategist) and
  \<^verbatim>\<open>event_writer\<close> (a loop that appends the events it has not recorded yet; for the two webhook receivers and the web
  import).

  \<^bold>\<open>Bounds.\<close> Loops follow the code's own bounds: at most three drafting rounds of an asset, three answers of the
  copywriting model, three requests for a post, three plans of the strategist. Draining uses fuel; as many
  rounds as there are ready tasks are proved to be enough. Other loops are structural.

  \<^bold>\<open>Idealisations.\<close> One reading of the clock per handler; identifiers are naturals rendered as UUIDs; text is bytes;
  lengths of columns are not checked; retry jitter and percentages are exact rationals where the code uses floats; the
  similarity of two drafts is compared through the exact square of the cosine; rows that tie in a query's order are read
  in table order, and the iteration order of a Python set is a parameter. A savepoint that fails is the parameter
  \<^verbatim>\<open>refused\<close>; a form is its text parts. Times are instants and days are UTC days; foreign keys are assumed, and rows of a
  campaign belong to its tenant; groups of an aggregate query come in the order of first appearance; the distance to the
  mean is compared with the deviation through their squares; a float of at most fifteen digits is the value of its text;
  a NaN amount is refused by the budget table; proposals and touchpoints keep no creation time. The A/B statistics are
  exact: counts and rates rational, roots and logarithms real; a column that cannot hold a value makes the operation that
  writes it fail.

  \<^bold>\<open>Parameters\<close> stand for code outside the repository: the digest of the A/B pick, HTTP exchanges with providers, the
  answers of the language model, the JSON reader and writer, the token signer, compilation of a tenant's regular
  expression, type information of custom KPI columns, row locks of other workers, the error function
  of the C library and the text of exceptions. Laws
  assumed of them are hypotheses of the theorems that use them.

  \<^bold>\<open>Not modelled.\<close> The audience agent, CSV uploads and clustering (numerical code and files); the outbound
  messages; the remaining endpoints, pages and assistant tools, which read tables or render templates; the assistant's conversation with its model; adapters of other providers; sessions,
  logging, settings, secrets, migrations and scripts.
\<close>

end
